(* ===== verification/Json.thy ===== *)
theory Json
  imports Prelude
begin

text \<open>
  JSON values as the code handles them: \<open>serde_json::Value\<close> with the \<open>preserve_order\<close>
  feature the workspace turns on, so an object is its members in insertion order. A number is
  an integer, or the bits of a double the code never computes with. The readers below are the
  \<open>Value\<close> methods the sources call.
\<close>

datatype json =
    JNull
  | JBool bool
  | JInt int
  | JFloat "64 word"
  | JString string
  | JArray "json list"
  | JObject "(string \<times> json) list"

text \<open>\<open>Value::get\<close> with a string key: nothing unless the value is an object with that member.\<close>

fun json_get :: "json \<Rightarrow> string \<Rightarrow> json option" where
  "json_get (JObject members) k = map_of members k"
| "json_get _ k = None"

text \<open>\<open>Value::pointer\<close> along member names.\<close>

fun json_pointer :: "json \<Rightarrow> string list \<Rightarrow> json option" where
  "json_pointer v [] = Some v"
| "json_pointer v (k # ks) = Option.bind (json_get v k) (\<lambda>w. json_pointer w ks)"

fun as_str :: "json \<Rightarrow> string option" where
  "as_str (JString s) = Some s"
| "as_str _ = None"

fun as_bool :: "json \<Rightarrow> bool option" where
  "as_bool (JBool b) = Some b"
| "as_bool _ = None"

fun as_u64 :: "json \<Rightarrow> nat option" where
  "as_u64 (JInt i) = (if 0 \<le> i \<and> i < 2 ^ 64 then Some (nat i) else None)"
| "as_u64 _ = None"

fun as_array :: "json \<Rightarrow> json list option" where
  "as_array (JArray vs) = Some vs"
| "as_array _ = None"

text \<open>The string at a member: \<open>v.get(k).and_then(Value::as_str)\<close>.\<close>

definition str_at :: "json \<Rightarrow> string \<Rightarrow> string option" where
  "str_at v k = Option.bind (json_get v k) as_str"

lemma str_at_Some [simp]: "str_at v k = Some s \<longleftrightarrow> json_get v k = Some (JString s)"
proof -
  have "as_str w = Some s \<longleftrightarrow> w = JString s" for w
    by (cases w) auto
  then show ?thesis by (auto simp: str_at_def Option.bind_eq_Some_conv)
qed

lemma as_u64_Some: "as_u64 v = Some n \<longleftrightarrow> v = JInt (int n) \<and> n < 2 ^ 64"
proof (cases v)
  case (JInt i)
  have "(0 \<le> i \<and> i < 2 ^ 64 \<and> nat i = n) \<longleftrightarrow> (i = int n \<and> n < 2 ^ 64)"
    by (auto simp: nat_less_iff)
  with JInt show ?thesis by auto
qed auto

fun as_object :: "json \<Rightarrow> (string \<times> json) list option" where
  "as_object (JObject members) = Some members"
| "as_object _ = None"

text \<open>\<open>v[k]\<close> on a value: \<open>Null\<close> where there is no such member.\<close>

definition json_index :: "json \<Rightarrow> string \<Rightarrow> json" where
  "json_index v k = (case json_get v k of Some w \<Rightarrow> w | None \<Rightarrow> JNull)"

text \<open>
  \<open>Map::insert\<close> keeps the place of a key that is already there and appends a new one.
  \<open>Map::remove\<close> under \<open>preserve_order\<close> is \<open>swap_remove\<close>: the last member takes
  the place of the removed one.
\<close>

fun jm_insert :: "string \<Rightarrow> json \<Rightarrow> (string \<times> json) list \<Rightarrow> (string \<times> json) list" where
  "jm_insert k v [] = [(k, v)]"
| "jm_insert k v ((k', v') # m) = (if k' = k then (k, v) # m else (k', v') # jm_insert k v m)"

fun jm_remove :: "string \<Rightarrow> (string \<times> json) list \<Rightarrow> (string \<times> json) list" where
  "jm_remove k [] = []"
| "jm_remove k ((k', v') # m) =
     (if k' = k then (if m = [] then [] else last m # butlast m) else (k', v') # jm_remove k m)"

definition jm_extend :: "(string \<times> json) list \<Rightarrow> (string \<times> json) list" where
  "jm_extend kvs = foldl (\<lambda>m (k, v). jm_insert k v m) [] kvs"

text \<open>
  \<open>serde_json\<close>'s reader and writer are a third party's: \<open>sd_from_str\<close> is
  \<open>serde_json::from_str::<Value>\<close>, nothing where the text is not JSON, and
  \<open>sd_to_string\<close> the compact text of a value, which is its \<open>Display\<close> too.
\<close>

record serde =
  sd_from_str :: "string \<Rightarrow> json option"
  sd_to_string :: "json \<Rightarrow> string"

lemma jm_insert_get [simp]:
  "map_of (jm_insert k v m) k' = (if k' = k then Some v else map_of m k')"
  by (induction m) auto

lemma jm_insert_keys: "set (map fst (jm_insert k v m)) = insert k (set (map fst m))"
  by (induction k v m rule: jm_insert.induct) (auto simp del: set_map split: if_splits)

lemma jm_insert_distinct: "distinct (map fst m) \<Longrightarrow> distinct (map fst (jm_insert k v m))"
  by (induction k v m rule: jm_insert.induct) (simp_all add: jm_insert_keys del: set_map, blast)

lemma jm_insert_new: "k \<notin> fst ` set m \<Longrightarrow> jm_insert k v m = m @ [(k, v)]"
  by (induction m) auto

end
