(* ===== verification/Limits.thy ===== *)
theory Limits
  imports Json
begin

text \<open>
  \<open>opengrok-core/src/limits.rs\<close>: the limits a person may put on a run, and the one way two
  levels of them meet. A limit is \<open>Option<NonZeroU32>\<close> or \<open>Option<NonZeroU64>\<close>: a
  word option here, with \<open>limits_nonzero\<close> saying what the Rust type does, that a held
  value is never zero. The sentences a refusal is told in are the constructors of
  \<open>limits_refusal\<close>.
\<close>

record run_limits =
  max_rounds :: "32 word option"
  max_computer_rounds :: "32 word option"
  max_wall_ms :: "64 word option"

definition run_limits_default :: run_limits where
  "run_limits_default = \<lparr>max_rounds = None, max_computer_rounds = None, max_wall_ms = None\<rparr>"

fun tighter :: "'a::linorder option \<Rightarrow> 'a option \<Rightarrow> 'a option" where
  "tighter (Some one) (Some other) = Some (min one other)"
| "tighter None other = other"
| "tighter one None = one"

definition limits_and :: "run_limits \<Rightarrow> run_limits \<Rightarrow> run_limits" where
  "limits_and a b =
     \<lparr>max_rounds = tighter (max_rounds a) (max_rounds b),
      max_computer_rounds = tighter (max_computer_rounds a) (max_computer_rounds b),
      max_wall_ms = tighter (max_wall_ms a) (max_wall_ms b)\<rparr>"

text \<open>The three as \<open>u64\<close>s, in the order of the wire's names.\<close>

definition limits_values :: "run_limits \<Rightarrow> nat option list" where
  "limits_values l =
     [map_option unat (max_rounds l), map_option unat (max_computer_rounds l),
      map_option unat (max_wall_ms l)]"

definition limits_is_empty :: "run_limits \<Rightarrow> bool" where
  "limits_is_empty l = list_all (\<lambda>v. v = None) (limits_values l)"

definition limit_names :: "string list" where
  "limit_names = [''maxRounds'', ''maxComputerRounds'', ''maxWallMs'']"

definition limit_json :: "nat option \<Rightarrow> json" where
  "limit_json v = (case v of None \<Rightarrow> JNull | Some n \<Rightarrow> JInt (int n))"

definition limits_to_json :: "run_limits \<Rightarrow> json" where
  "limits_to_json l = JObject (zip limit_names (map limit_json (limits_values l)))"

datatype limits_refusal =
    NotAnObject
  | NotALimit string
  | OutOfRange string nat

text \<open>One limit read from the object sent: absent or null is none, anything else a whole number
  from 1 to \<open>top\<close>.\<close>

definition read_limit ::
  "(string \<times> json) list \<Rightarrow> string \<Rightarrow> nat option \<Rightarrow> nat \<Rightarrow> limits_refusal + nat option" where
  "read_limit members name most_here type_most =
     (let top = min (case most_here of None \<Rightarrow> type_most | Some m \<Rightarrow> m) type_most
      in case map_of members name of
           None \<Rightarrow> Inr None
         | Some JNull \<Rightarrow> Inr None
         | Some v \<Rightarrow>
             (case as_u64 v of
                Some asked \<Rightarrow> if 1 \<le> asked \<and> asked \<le> top then Inr (Some asked) else Inl (OutOfRange name top)
              | None \<Rightarrow> Inl (OutOfRange name top)))"

text \<open>\<open>u32::try_from\<close> then \<open>NonZeroU32::new\<close>, and \<open>NonZeroU64::new\<close>.\<close>

definition as_rounds :: "nat option \<Rightarrow> 32 word option" where
  "as_rounds asked =
     (case asked of None \<Rightarrow> None
      | Some n \<Rightarrow> if n < 2 ^ 32 \<and> n \<noteq> 0 then Some (of_nat n) else None)"

definition as_wall :: "nat option \<Rightarrow> 64 word option" where
  "as_wall asked =
     (case asked of None \<Rightarrow> None | Some n \<Rightarrow> if n \<noteq> 0 then Some (of_nat n) else None)"

fun limits_from_json :: "json \<Rightarrow> run_limits \<Rightarrow> limits_refusal + run_limits" where
  "limits_from_json JNull most = Inr run_limits_default"
| "limits_from_json (JObject members) most =
     (case find (\<lambda>key. key \<notin> set limit_names) (map fst members) of
        Some other \<Rightarrow> Inl (NotALimit other)
      | None \<Rightarrow>
          rbind (read_limit members ''maxRounds'' (limits_values most ! 0) (2 ^ 32 - 1)) (\<lambda>rounds.
          rbind (read_limit members ''maxComputerRounds'' (limits_values most ! 1) (2 ^ 32 - 1)) (\<lambda>computer.
          rbind (read_limit members ''maxWallMs'' (limits_values most ! 2) (2 ^ 64 - 1)) (\<lambda>wall.
          Inr \<lparr>max_rounds = as_rounds rounds, max_computer_rounds = as_rounds computer,
               max_wall_ms = as_wall wall\<rparr>))))"
| "limits_from_json _ most = Inl NotAnObject"

text \<open>The first limit above the ceiling: its name, what was asked and the most it may be.\<close>

fun first_over :: "string list \<Rightarrow> nat option list \<Rightarrow> nat option list \<Rightarrow> (string \<times> nat \<times> nat) option" where
  "first_over (name # names) (Some asked # as) (Some most # ms) =
     (if asked > most then Some (name, asked, most) else first_over names as ms)"
| "first_over (name # names) (_ # as) (_ # ms) = first_over names as ms"
| "first_over _ _ _ = None"

definition over_ceiling :: "run_limits \<Rightarrow> run_limits \<Rightarrow> (string \<times> nat \<times> nat) option" where
  "over_ceiling l ceiling = first_over limit_names (limits_values l) (limits_values ceiling)"

text \<open>What the \<open>NonZero\<close> types hold by construction.\<close>

definition limits_nonzero :: "run_limits \<Rightarrow> bool" where
  "limits_nonzero l \<longleftrightarrow>
     max_rounds l \<noteq> Some 0 \<and> max_computer_rounds l \<noteq> Some 0 \<and> max_wall_ms l \<noteq> Some 0"

text \<open>One limit is no wider than another where a level that says nothing is as wide as can be.\<close>

definition no_wider :: "'a::linorder option \<Rightarrow> 'a option \<Rightarrow> bool" where
  "no_wider a b \<longleftrightarrow> (case b of None \<Rightarrow> True | Some m \<Rightarrow> (case a of None \<Rightarrow> False | Some n \<Rightarrow> n \<le> m))"

definition limits_within :: "run_limits \<Rightarrow> run_limits \<Rightarrow> bool" where
  "limits_within a b \<longleftrightarrow>
     no_wider (max_rounds a) (max_rounds b) \<and>
     no_wider (max_computer_rounds a) (max_computer_rounds b) \<and>
     no_wider (max_wall_ms a) (max_wall_ms b)"

section \<open>The meet of two levels\<close>

lemma tighter_None [simp]: "tighter a None = a"
  by (cases a) auto

lemma tighter_comm: "tighter a b = tighter b a"
  by (cases a; cases b) (auto simp: min.commute)

lemma tighter_assoc: "tighter (tighter a b) c = tighter a (tighter b c)"
  by (cases a; cases b; cases c) (auto simp: min.assoc)

lemma tighter_idem [simp]: "tighter a a = a"
  by (cases a) auto

lemma no_wider_tighter: "no_wider c (tighter a b) \<longleftrightarrow> no_wider c a \<and> no_wider c b"
  by (cases a; cases b; cases c) (auto simp: no_wider_def)

lemma no_wider_refl [simp]: "no_wider a a"
  by (cases a) (auto simp: no_wider_def)

lemma limits_within_and:
  "limits_within c (limits_and a b) \<longleftrightarrow> limits_within c a \<and> limits_within c b"
  by (auto simp: limits_within_def limits_and_def no_wider_tighter)

lemma limits_within_refl [simp]: "limits_within a a"
  by (simp add: limits_within_def)

lemma limits_and_comm: "limits_and a b = limits_and b a"
  by (simp add: limits_and_def tighter_comm)

lemma limits_and_assoc: "limits_and (limits_and a b) c = limits_and a (limits_and b c)"
  by (simp add: limits_and_def tighter_assoc)

lemma limits_and_default [simp]:
  "limits_and run_limits_default a = a" "limits_and a run_limits_default = a"
  by (simp_all add: limits_and_def run_limits_default_def)

lemma tighter_nonzero: "a \<noteq> Some 0 \<Longrightarrow> b \<noteq> Some 0 \<Longrightarrow> tighter a b \<noteq> Some (0 :: 'a::{linorder,zero})"
  by (cases a; cases b) (auto simp: min_def)

lemma limits_and_nonzero:
  "limits_nonzero a \<Longrightarrow> limits_nonzero b \<Longrightarrow> limits_nonzero (limits_and a b)"
  by (simp add: limits_nonzero_def limits_and_def tighter_nonzero)

section \<open>What a person sends\<close>

lemma read_limit_bound:
  assumes "read_limit members name most_here type_most = Inr (Some n)"
  shows "1 \<le> n \<and> n \<le> type_most \<and> (\<forall>m. most_here = Some m \<longrightarrow> n \<le> m)"
  using assms
  by (auto simp: read_limit_def Let_def split: option.splits json.splits if_splits)

lemma unat_of_nat_exact:
  assumes "n \<le> 2 ^ LENGTH('a) - 1" shows "unat (of_nat n :: 'a::len word) = n"
proof -
  have "(0::nat) < 2 ^ LENGTH('a)" by simp
  with assms have "n < 2 ^ LENGTH('a)" by linarith
  then show ?thesis by (simp add: unat_of_nat take_bit_nat_eq_self)
qed

lemma as_rounds_None [simp]: "as_rounds None = None"
  by (simp add: as_rounds_def)

lemma as_wall_None [simp]: "as_wall None = None"
  by (simp add: as_wall_def)

text \<open>Inside the range the reader lets through, the conversions lose nothing.\<close>

lemma as_rounds_back: "w \<noteq> 0 \<Longrightarrow> as_rounds (Some (unat w)) = Some w"
  using unsigned_less [of w] by (simp add: as_rounds_def unat_eq_0)

lemma as_wall_back: "w \<noteq> 0 \<Longrightarrow> as_wall (Some (unat w)) = Some w"
  by (simp add: as_wall_def unat_eq_0)

lemma unat_bounds:
  fixes w :: "'a::len word"
  assumes "w \<noteq> 0"
  shows "1 \<le> unat w \<and> unat w \<le> 2 ^ LENGTH('a) - 1"
proof -
  have "unat w < 2 ^ LENGTH('a)" by (rule unsigned_less)
  moreover have "unat w \<noteq> 0" using assms by (simp add: unat_eq_0)
  ultimately show ?thesis by linarith
qed

text \<open>What the ceiling check says of one limit.\<close>

definition fits :: "nat option \<Rightarrow> nat option \<Rightarrow> bool" where
  "fits asked most \<longleftrightarrow> (case (asked, most) of (Some n, Some m) \<Rightarrow> n \<le> m | _ \<Rightarrow> True)"

lemma over_ceiling_None:
  "over_ceiling l ceiling = None \<longleftrightarrow> list_all2 fits (limits_values l) (limits_values ceiling)"
  by (cases "max_rounds l"; cases "max_computer_rounds l"; cases "max_wall_ms l";
      cases "max_rounds ceiling"; cases "max_computer_rounds ceiling"; cases "max_wall_ms ceiling")
    (simp_all add: over_ceiling_def limits_values_def limit_names_def fits_def not_less)

lemma read_limit_fits:
  assumes "read_limit members name most_here type_most = Inr asked"
  shows "fits asked most_here \<and> (\<forall>n. asked = Some n \<longrightarrow> 1 \<le> n \<and> n \<le> type_most)"
  using assms read_limit_bound [of members name most_here type_most]
  by (cases asked) (auto simp: fits_def split: option.splits)

lemma as_rounds_read:
  assumes "read_limit members name m (2 ^ 32 - 1) = Inr asked"
  shows "map_option unat (as_rounds asked) = asked \<and> as_rounds asked \<noteq> Some 0"
  using read_limit_fits [OF assms]
  by (cases asked) (auto simp: as_rounds_def unat_of_nat_exact dest: arg_cong [where f = unat])

lemma as_wall_read:
  assumes "read_limit members name m (2 ^ 64 - 1) = Inr asked"
  shows "map_option unat (as_wall asked) = asked \<and> as_wall asked \<noteq> Some 0"
  using read_limit_fits [OF assms]
  by (cases asked) (auto simp: as_wall_def unat_of_nat_exact dest: arg_cong [where f = unat])

lemma limits_from_json_object:
  assumes "limits_from_json (JObject members) most = Inr l"
  obtains rounds computer wall where
    "read_limit members ''maxRounds'' (limits_values most ! 0) (2 ^ 32 - 1) = Inr rounds"
    "read_limit members ''maxComputerRounds'' (limits_values most ! 1) (2 ^ 32 - 1) = Inr computer"
    "read_limit members ''maxWallMs'' (limits_values most ! 2) (2 ^ 64 - 1) = Inr wall"
    "l = \<lparr>max_rounds = as_rounds rounds, max_computer_rounds = as_rounds computer,
          max_wall_ms = as_wall wall\<rparr>"
    "fst ` set members \<subseteq> set limit_names"
proof -
  have "find (\<lambda>key. key \<notin> set limit_names) (map fst members) = None"
    using assms by (auto split: option.splits)
  then have "fst ` set members \<subseteq> set limit_names"
    by (auto simp: find_None_iff)
  with assms that show ?thesis by (auto split: option.splits)
qed

text \<open>The members of what \<open>limits_to_json\<close> writes, read back one by one.\<close>

lemma read_limit_written:
  assumes "map_of members name = Some (limit_json v)"
    and "\<forall>n. v = Some n \<longrightarrow> 1 \<le> n \<and> n \<le> type_most" and "type_most < 2 ^ 64"
  shows "read_limit members name m type_most = Inr v \<longleftrightarrow> fits v m"
  using assms by (cases v; cases m) (auto simp: read_limit_def limit_json_def fits_def Let_def)

lemma limits_accepted:
  assumes "limits_from_json (JObject members) most = Inr l"
  shows "limits_nonzero l \<and> over_ceiling l most = None \<and> fst ` set members \<subseteq> set limit_names"
proof -
  from limits_from_json_object [OF assms]
  obtain rounds computer wall where r:
    "read_limit members ''maxRounds'' (limits_values most ! 0) (2 ^ 32 - 1) = Inr rounds"
    "read_limit members ''maxComputerRounds'' (limits_values most ! 1) (2 ^ 32 - 1) = Inr computer"
    "read_limit members ''maxWallMs'' (limits_values most ! 2) (2 ^ 64 - 1) = Inr wall"
    and l: "l = \<lparr>max_rounds = as_rounds rounds, max_computer_rounds = as_rounds computer,
          max_wall_ms = as_wall wall\<rparr>"
    and names: "fst ` set members \<subseteq> set limit_names" .
  note exact = as_rounds_read [OF r(1)] as_rounds_read [OF r(2)] as_wall_read [OF r(3)]
  have "limits_values l = [rounds, computer, wall]"
    using exact by (simp add: limits_values_def l)
  then have "over_ceiling l most = None"
    using read_limit_fits [OF r(1)] read_limit_fits [OF r(2)] read_limit_fits [OF r(3)]
    by (simp add: over_ceiling_None limits_values_def)
  moreover have "limits_nonzero l"
    using exact by (simp add: limits_nonzero_def l)
  ultimately show ?thesis using names by simp
qed

section \<open>Properties\<close>

text \<open>Limits a person sends are never zero, never above what the server allows, and never
  named by a word that is not a limit: whatever \<open>from_json\<close> accepts, the check against a
  ceiling that comes after it would accept too.\<close>

theorem limits_from_json_sound:
  assumes "limits_from_json sent most = Inr l"
  shows "limits_nonzero l \<and> over_ceiling l most = None \<and>
    (\<forall>members. sent = JObject members \<longrightarrow> fst ` set members \<subseteq> set limit_names)"
proof (cases sent)
  case JNull
  with assms show ?thesis
    by (auto simp: run_limits_default_def limits_nonzero_def over_ceiling_None limits_values_def
        fits_def)
qed (use assms limits_accepted in auto)

theorem limits_from_json_sound_witness:
  "limits_from_json (JObject [(''maxRounds'', JInt 5)]) run_limits_default
     = Inr (run_limits_default\<lparr>max_rounds := Some 5\<rparr>) \<and>
   limits_nonzero (run_limits_default\<lparr>max_rounds := Some 5\<rparr>)"
proof -
  have accepted: "limits_from_json (JObject [(''maxRounds'', JInt 5)]) run_limits_default
     = Inr (run_limits_default\<lparr>max_rounds := Some 5\<rparr>)"
    by (simp add: run_limits_default_def limit_names_def limits_values_def read_limit_def
        as_rounds_def as_wall_def)
  with limits_from_json_sound [OF accepted] show ?thesis by blast
qed

text \<open>Limits written for the wire and sent back are the same limits, unless they are above
  what the server now allows, and then they are refused: nothing is rounded or dropped on the
  way.\<close>

theorem limits_json_roundtrip:
  assumes "limits_nonzero l"
  shows "limits_from_json (limits_to_json l) most = Inr l \<longleftrightarrow> over_ceiling l most = None"
proof -
  define members where "members = zip limit_names (map limit_json (limits_values l))"
  have rounds: "read_limit members ''maxRounds'' m (2 ^ 32 - 1) = Inr (map_option unat (max_rounds l))
      \<longleftrightarrow> fits (map_option unat (max_rounds l)) m" for m
    using assms unat_bounds [where 'a = 32]
    by (intro read_limit_written)
      (auto simp: members_def limit_names_def limits_values_def limits_nonzero_def)
  have computer: "read_limit members ''maxComputerRounds'' m (2 ^ 32 - 1)
        = Inr (map_option unat (max_computer_rounds l))
      \<longleftrightarrow> fits (map_option unat (max_computer_rounds l)) m" for m
    using assms unat_bounds [where 'a = 32]
    by (intro read_limit_written)
      (auto simp: members_def limit_names_def limits_values_def limits_nonzero_def)
  have wall: "read_limit members ''maxWallMs'' m (2 ^ 64 - 1) = Inr (map_option unat (max_wall_ms l))
      \<longleftrightarrow> fits (map_option unat (max_wall_ms l)) m" for m
    using assms unat_bounds [where 'a = 64]
    by (intro read_limit_written)
      (auto simp: members_def limit_names_def limits_values_def limits_nonzero_def)
  have names: "find (\<lambda>key. key \<notin> set limit_names) (map fst members) = None"
    by (simp add: members_def limit_names_def limits_values_def)
  have written: "limits_to_json l = JObject members"
    by (simp add: limits_to_json_def members_def)
  show ?thesis
  proof
    assume "limits_from_json (limits_to_json l) most = Inr l"
    then show "over_ceiling l most = None" using limits_accepted [of members most l] written by simp
  next
    assume "over_ceiling l most = None"
    then have f: "fits (map_option unat (max_rounds l)) (limits_values most ! 0)"
      "fits (map_option unat (max_computer_rounds l)) (limits_values most ! 1)"
      "fits (map_option unat (max_wall_ms l)) (limits_values most ! 2)"
      by (simp_all add: over_ceiling_None limits_values_def)
    have conv: "as_rounds (map_option unat (max_rounds l)) = max_rounds l"
      "as_rounds (map_option unat (max_computer_rounds l)) = max_computer_rounds l"
      "as_wall (map_option unat (max_wall_ms l)) = max_wall_ms l"
      using assms
      by (cases "max_rounds l"; cases "max_computer_rounds l"; cases "max_wall_ms l";
          simp add: limits_nonzero_def as_rounds_back as_wall_back)+
    show "limits_from_json (limits_to_json l) most = Inr l"
      unfolding written limits_from_json.simps names option.case
        rounds [THEN iffD2, OF f(1)] computer [THEN iffD2, OF f(2)] wall [THEN iffD2, OF f(3)]
        rbind_Inr conv
      by simp
  qed
qed

theorem limits_json_roundtrip_witness:
  "limits_from_json (limits_to_json (run_limits_default\<lparr>max_wall_ms := Some 60000\<rparr>)) run_limits_default
     = Inr (run_limits_default\<lparr>max_wall_ms := Some 60000\<rparr>)"
proof -
  have "limits_nonzero (run_limits_default\<lparr>max_wall_ms := Some 60000\<rparr>)"
    by (simp add: limits_nonzero_def run_limits_default_def)
  moreover have "over_ceiling (run_limits_default\<lparr>max_wall_ms := Some 60000\<rparr>) run_limits_default = None"
    by (simp add: over_ceiling_None limits_values_def run_limits_default_def fits_def)
  ultimately show ?thesis by (simp only: limits_json_roundtrip)
qed

text \<open>\<open>and\<close> is the greatest lower bound of two levels: a set of limits is within both
  levels exactly when it is within what they meet to, in any order and however they are
  grouped. So no order of combining widens a run, and none narrows it more than the levels
  that spoke.\<close>

theorem limits_and_meet:
  "(limits_within c (limits_and a b) \<longleftrightarrow> limits_within c a \<and> limits_within c b) \<and>
   limits_and a b = limits_and b a \<and>
   limits_and (limits_and a b) c = limits_and a (limits_and b c) \<and>
   limits_and a a = a \<and> limits_and run_limits_default a = a"
  by (intro conjI limits_within_and limits_and_assoc limits_and_default limits_and_comm)
    (simp add: limits_and_def)

end
