(* ===== verification/Ids.thy ===== *)
theory Ids
  imports Prelude "HOL-Library.Char_ord" "HOL-Library.List_Lexorder"
begin

text \<open>
  The id newtypes of \<open>opengrok-core/src/id.rs\<close>: each a text of its own type, so two kinds of
  id cannot be confused. Taking an id that exists (\<open>from_stored\<close>) is the constructor and
  \<open>as_str\<close> the selector. Minting one takes the fresh UUID as an argument: drawing it is the
  \<open>uuid\<close> crate's.
\<close>

datatype coworker_id = CoworkerId (coworker_str: string)
datatype run_id = RunId (run_str: string)
datatype account_id = AccountId (account_str: string)
datatype org_id = OrgId (org_str: string)
datatype session_id = SessionId (session_str: string)
datatype box_id = BoxId (box_str: string)

definition mint :: "string \<Rightarrow> string \<Rightarrow> string" where
  "mint tag uuid = tag @ ''_'' @ uuid"

definition run_id_new :: "string \<Rightarrow> run_id" where
  "run_id_new uuid = RunId (mint ''run'' uuid)"

definition coworker_id_new :: "string \<Rightarrow> coworker_id" where
  "coworker_id_new uuid = CoworkerId (mint ''cw'' uuid)"

text \<open>\<open>derive(Ord)\<close> on a session id: the bytes' order, which is the order a
  \<open>BTreeMap\<close> of sessions is walked in.\<close>

instantiation session_id :: linorder
begin

definition less_eq_session_id :: "session_id \<Rightarrow> session_id \<Rightarrow> bool" where
  "less_eq_session_id a b \<longleftrightarrow> session_str a \<le> session_str b"

definition less_session_id :: "session_id \<Rightarrow> session_id \<Rightarrow> bool" where
  "less_session_id a b \<longleftrightarrow> session_str a < session_str b"

instance
  by standard
    (auto simp: less_eq_session_id_def less_session_id_def session_id.expand)

end

lemma mint_inject: "mint tag u = mint tag v \<longleftrightarrow> u = v"
  by (simp add: mint_def)

text \<open>Ids of different kinds minted from any two UUIDs differ, even as text.\<close>

lemma mint_run_coworker: "mint ''run'' u \<noteq> mint ''cw'' v"
  by (simp add: mint_def)

end
