(* ===== verification/Vocabulary.thy ===== *)
theory Vocabulary
  imports Json Ids
begin

text \<open>
  The small enums several aggregates speak in, and how each is read from the wire and written to
  it: where a turn's model calls go (\<open>SourceKind\<close>, \<open>Via\<close>, \<open>TurnSource\<close> of
  \<open>opengrok-core/src/inference.rs\<close>) and how a coworker is held, seen and thinks
  (\<open>BoxMode\<close>, \<open>Visibility\<close>, \<open>Effort\<close> of \<open>opengrok-core/src/coworker.rs\<close>).
  They stand in a theory of their own because the two source files use each other.

  The locale \<open>word_code\<close> is the contract such an enum promises: what is written is read back
  as itself. A strict reader refuses every other word; a closed reader gives it a default.
\<close>

datatype source_kind = Gateway | LocalProxy

datatype via = Loopback | Mac

datatype visibility = Private | OrgVisible

datatype box_mode = Dedicated | SharedBox

datatype effort = Inherit | Off | Low | Medium | High | XHigh | MaxEffort | Ultra

text \<open>\<open>derive(Default)\<close>.\<close>

definition via_default :: via where
  "via_default = Loopback"

definition effort_default :: effort where
  "effort_default = Inherit"

text \<open>What a request's word may be refused with; the sentence is put behind the field's name.\<close>

datatype word_refusal =
    NotASource
  | HelperNotBuilt
  | NotAVia
  | NotAnEffort

section \<open>Where a turn asks\<close>

fun source_kind_as_str :: "source_kind \<Rightarrow> string" where
  "source_kind_as_str Gateway = ''gateway''"
| "source_kind_as_str LocalProxy = ''local_proxy''"

definition source_kind_parse :: "string \<Rightarrow> source_kind option" where
  "source_kind_parse s =
     (if s = ''gateway'' then Some Gateway
      else if s = ''local_proxy'' then Some LocalProxy
      else None)"

definition source_kind_named :: "json option \<Rightarrow> word_refusal + source_kind option" where
  "source_kind_named v =
     (case v of
        None \<Rightarrow> Inr None
      | Some JNull \<Rightarrow> Inr None
      | Some w \<Rightarrow> ok_or (map_option Some (Option.bind (as_str w) source_kind_parse)) NotASource)"

fun via_as_str :: "via \<Rightarrow> string" where
  "via_as_str Loopback = ''loopback''"
| "via_as_str Mac = ''mac''"

definition via_named :: "json option \<Rightarrow> word_refusal + via option" where
  "via_named v =
     (case v of
        None \<Rightarrow> Inr None
      | Some JNull \<Rightarrow> Inr None
      | Some w \<Rightarrow>
          (case as_str w of
             None \<Rightarrow> Inl NotAVia
           | Some s \<Rightarrow>
               if s = [] then Inr None
               else if s = ''loopback'' then Inr (Some Loopback)
               else if s = ''mac'' \<or> s = ''computer'' then Inr (Some Mac)
               else if s = ''helper'' then Inl HelperNotBuilt
               else Inl NotAVia))"

record turn_source =
  ts_kind :: source_kind
  ts_via :: "via option"

definition turn_source_from :: "source_kind \<Rightarrow> turn_source" where
  "turn_source_from k = \<lparr>ts_kind = k, ts_via = None\<rparr>"

definition turn_source_picked :: "turn_source option \<Rightarrow> source_kind option \<Rightarrow> turn_source option" where
  "turn_source_picked chosen own =
     (case chosen of Some t \<Rightarrow> Some t | None \<Rightarrow> map_option turn_source_from own)"

text \<open>The refusal names the field the word came under: the kind's own or the via's.\<close>

datatype turn_source_refusal = BadField word_refusal | BadKind word_refusal | BadVia word_refusal

definition turn_source_named :: "json option \<Rightarrow> turn_source_refusal + turn_source option" where
  "turn_source_named v =
     (case v of
        Some (JObject ms) \<Rightarrow>
          rbind (map_err BadKind (source_kind_named (map_of ms ''kind''))) (\<lambda>named.
          rbind (ok_or named (BadKind NotASource)) (\<lambda>k.
          rbind (map_err BadVia (via_named (map_of ms ''via''))) (\<lambda>way.
          Inr (Some \<lparr>ts_kind = k, ts_via = way\<rparr>))))
      | _ \<Rightarrow> rbind (map_err BadField (source_kind_named v)) (\<lambda>k. Inr (map_option turn_source_from k)))"

definition turn_source_to_value :: "turn_source \<Rightarrow> json" where
  "turn_source_to_value t =
     (case ts_via t of
        None \<Rightarrow> JString (source_kind_as_str (ts_kind t))
      | Some w \<Rightarrow> JObject [(''kind'', JString (source_kind_as_str (ts_kind t))),
                         (''via'', JString (via_as_str w))])"

definition turn_source_stored :: "turn_source \<Rightarrow> string" where
  "turn_source_stored t =
     (case ts_via t of
        None \<Rightarrow> source_kind_as_str (ts_kind t)
      | Some w \<Rightarrow> source_kind_as_str (ts_kind t) @ '':'' @ via_as_str w)"

definition turn_source_from_stored :: "string \<Rightarrow> turn_source option" where
  "turn_source_from_stored s =
     (case (case split_once CHR '':'' s of Some p \<Rightarrow> p | None \<Rightarrow> (s, [])) of
        (k, w) \<Rightarrow>
          Option.bind (source_kind_parse k) (\<lambda>kind.
          (case via_named (Some (JString w)) of
             Inl _ \<Rightarrow> None
           | Inr way \<Rightarrow> Some \<lparr>ts_kind = kind, ts_via = way\<rparr>)))"

section \<open>How a coworker is seen and thinks\<close>

fun visibility_as_str :: "visibility \<Rightarrow> string" where
  "visibility_as_str Private = ''private''"
| "visibility_as_str OrgVisible = ''org''"

definition visibility_parse :: "string \<Rightarrow> visibility option" where
  "visibility_parse s =
     (if trim s = ''private'' then Some Private
      else if trim s = ''org'' then Some OrgVisible
      else None)"

definition effort_all :: "effort list" where
  "effort_all = [Inherit, Off, Low, Medium, High, XHigh, MaxEffort, Ultra]"

fun effort_as_str :: "effort \<Rightarrow> string" where
  "effort_as_str Inherit = ''inherit''"
| "effort_as_str Off = ''none''"
| "effort_as_str Low = ''low''"
| "effort_as_str Medium = ''medium''"
| "effort_as_str High = ''high''"
| "effort_as_str XHigh = ''xhigh''"
| "effort_as_str MaxEffort = ''max''"
| "effort_as_str Ultra = ''ultra''"

definition effort_parse :: "string \<Rightarrow> effort option" where
  "effort_parse s = find (\<lambda>e. effort_as_str e = s) effort_all"

definition reasoning_effort :: "effort \<Rightarrow> string option" where
  "reasoning_effort e = (if e \<noteq> Inherit then Some (effort_as_str e) else None)"

definition effort_named :: "json option \<Rightarrow> word_refusal + effort option" where
  "effort_named v =
     (case v of
        None \<Rightarrow> Inr None
      | Some JNull \<Rightarrow> Inr (Some Inherit)
      | Some w \<Rightarrow> ok_or (map_option Some (Option.bind (as_str w) effort_parse)) NotAnEffort)"

section \<open>The contract of a word\<close>

locale word_code =
  fixes as_word :: "'a \<Rightarrow> string"
    and read_word :: "string \<Rightarrow> 'a option"
  assumes read_as_word: "read_word (as_word x) = Some x"
begin

lemma as_word_inject: "as_word x = as_word y \<longleftrightarrow> x = y"
  by (metis option.inject read_as_word)

lemma read_word_hit: "read_word w = None \<Longrightarrow> w \<noteq> as_word x"
  by (auto simp: read_as_word)

end

text \<open>A strict word: nothing but the written words is read.\<close>

locale strict_word_code = word_code +
  assumes read_only_words: "read_word w = Some x \<Longrightarrow> w = as_word x"
begin

lemma read_word_iff: "read_word w = Some x \<longleftrightarrow> w = as_word x"
  using read_as_word read_only_words by blast

end

interpretation source_word: strict_word_code source_kind_as_str source_kind_parse
proof unfold_locales
  show "source_kind_parse (source_kind_as_str x) = Some x" for x
    by (cases x) (simp_all add: source_kind_parse_def)
qed (auto simp: source_kind_parse_def split: if_splits)

interpretation effort_word: strict_word_code effort_as_str effort_parse
proof unfold_locales
  show "effort_parse (effort_as_str x) = Some x" for x
    by (cases x) (simp_all add: effort_parse_def effort_all_def)
  show "effort_parse w = Some x \<Longrightarrow> w = effort_as_str x" for w x
    by (auto simp: effort_parse_def find_Some_iff)
qed

lemma trim_words: "trim ''private'' = ''private''" "trim ''org'' = ''org''"
  by code_simp+

interpretation visibility_word: word_code visibility_as_str visibility_parse
proof unfold_locales
  show "visibility_parse (visibility_as_str x) = Some x" for x
    by (cases x) (simp_all add: visibility_parse_def trim_words)
qed

lemma via_named_as_str [simp]: "via_named (Some (JString (via_as_str v))) = Inr (Some v)"
  by (cases v) (simp_all add: via_named_def)

lemma source_kind_named_as_str [simp]:
  "source_kind_named (Some (JString (source_kind_as_str k))) = Inr (Some k)"
  by (simp add: source_kind_named_def source_word.read_as_word)

lemma source_kind_no_colon: "CHR '':'' \<notin> set (source_kind_as_str k)"
  by (cases k) auto

text \<open>A turn's source survives both of its writings. What a reply echoes is read back as the
  source it was, and so is the text a queued send's row keeps, whatever the kind and the way.\<close>

theorem turn_source_roundtrip:
  "turn_source_named (Some (turn_source_to_value t)) = Inr (Some t) \<and>
   turn_source_from_stored (turn_source_stored t) = Some t"
proof (cases "ts_via t")
  case None
  have "split_once CHR '':'' (source_kind_as_str (ts_kind t)) = None"
    by (cases "ts_kind t") simp_all
  with None show ?thesis
    by (simp add: turn_source_to_value_def turn_source_named_def turn_source_from_def
        turn_source_stored_def turn_source_from_stored_def source_word.read_as_word via_named_def)
next
  case (Some w)
  have "split_once CHR '':'' (source_kind_as_str (ts_kind t) @ '':'' @ via_as_str w)
      = Some (source_kind_as_str (ts_kind t), via_as_str w)"
    by (simp add: split_once_Some source_kind_no_colon)
  with Some show ?thesis
    by (simp add: turn_source_to_value_def turn_source_named_def
        turn_source_stored_def turn_source_from_stored_def source_word.read_as_word)
qed

end
