(* ===== verification/Inference.thy ===== *)
theory Inference
  imports Vocabulary
begin

text \<open>
  \<open>opengrok-core/src/inference.rs\<close>: where a person's turns are answered. The setting an account
  records (\<open>InferenceSource\<close>), how a turn's own words meet it (\<open>resolve\<close>,
  \<open>by_mac\<close>), what saving one may change (\<open>applied\<close>), and the one allowlist of models
  a person's own subscription may answer (\<open>subscription_model\<close>).

  \<open>applied\<close> takes the judge of a loopback address as an argument, as the source does. The
  sentences of a refusal are constructors; a value that names a field carries its name.
\<close>

section \<open>The allowlist\<close>

datatype model_refusal =
    NameAModel
  | Forbidden string string
  | NotTheirs string

definition forbidden_words :: "(string \<times> string) list" where
  "forbidden_words =
     [(''anthropic'', ''Anthropic''), (''claude'', ''Anthropic''),
      (''google'', ''Google''), (''gemini'', ''Google'')]"

definition openai_starts :: "string list" where
  "openai_starts = [''gpt-'', ''o1'', ''o3'', ''o4'', ''codex'']"

definition plain_model_byte :: "char \<Rightarrow> bool" where
  "plain_model_byte c \<longleftrightarrow> is_ascii_alphanumeric c \<or> c \<in> set ''-._:/''"

text \<open>A prefix must name the provider its core is from, and the core is anchored at its start.\<close>

definition recognised_model :: "string option \<Rightarrow> string \<Rightarrow> bool" where
  "recognised_model provider core =
     (let openai = list_ex (\<lambda>start. starts_with start core) openai_starts;
          xai = starts_with ''grok-'' core
      in case provider of
           None \<Rightarrow> openai \<or> xai
         | Some p \<Rightarrow> if p = ''openai'' then openai else if p = ''xai'' then xai else False)"

definition model_core :: "string \<Rightarrow> string" where
  "model_core rest = (case strip_suffix ''--fast'' rest of Some c \<Rightarrow> c | None \<Rightarrow> rest)"

definition model_parts :: "string \<Rightarrow> string option \<times> string" where
  "model_parts name =
     (case split_once CHR ''/'' name of
        Some (p, n) \<Rightarrow> (Some p, model_core n)
      | None \<Rightarrow> (None, model_core name))"

definition subscription_model :: "string \<Rightarrow> model_refusal + unit" where
  "subscription_model m =
     (let name = to_ascii_lowercase (trim m) in
      if name = [] then Inl NameAModel
      else case find (\<lambda>(w, _). contains_str w name) forbidden_words of
        Some (_, provider) \<Rightarrow> Inl (Forbidden (trim m) provider)
      | None \<Rightarrow>
          (case model_parts name of
             (provider, core) \<Rightarrow>
               if recognised_model provider core \<and>
                  length name \<le> 128 \<and> CHR ''/'' \<notin> set core \<and> list_all plain_model_byte name
               then Inr () else Inl (NotTheirs (trim m))))"

section \<open>A person's setting\<close>

datatype inference_refusal =
    BadKindWord
  | MustBeStringOrNull string
  | BadBaseUrl string
  | BadModel string model_refusal
  | BadViaWord word_refusal
  | RelayNotObject
  | DefaultNotObject
  | DefaultBadSource
  | DefaultEmptyModel
  | DefaultBadModel model_refusal
  | DefaultBadEffort word_refusal
  | RelayEnabledNotBool
  | FallbackNotObject
  | FallbackEmptyModel
  | FallbackBadEffort word_refusal
  | BadApiKey

text \<open>\<open>Coworker::non_blank\<close>, which the two defaults hold a gateway model to as well; the
  error it gives is \<open>EmptyModel\<close> alone, so the model is none when it is refused.\<close>

definition non_blank :: "string \<Rightarrow> string option" where
  "non_blank m = (if trim m = [] then None else Some (trim m))"

record plan_fallback_t =
  pf_model :: string
  pf_effort :: effort

record new_bot_default_t =
  nb_source :: source_kind
  nb_model :: string
  nb_effort :: effort

record inference_source =
  is_kind :: source_kind
  is_base_url :: "string option"
  is_local_model :: "string option"
  is_has_key :: bool
  is_via :: "via option"
  is_relay_model :: "string option"
  is_new_bot_default :: "new_bot_default_t option"
  is_relays :: "string list"
  is_plan_fallback :: "plan_fallback_t option"

definition inference_source_default :: inference_source where
  "inference_source_default =
     \<lparr>is_kind = Gateway, is_base_url = None, is_local_model = None, is_has_key = False,
      is_via = None, is_relay_model = None, is_new_bot_default = None, is_relays = [],
      is_plan_fallback = None\<rparr>"

datatype key_change = KeepKey | SetKey string | ClearKey

text \<open>\<open>object.get("model").and_then(Value::as_str).unwrap_or_default()\<close>.\<close>

definition model_text :: "(string \<times> json) list \<Rightarrow> string" where
  "model_text ms = (case Option.bind (map_of ms ''model'') as_str of Some s \<Rightarrow> s | None \<Rightarrow> [])"

definition plan_fallback_named :: "json \<Rightarrow> inference_refusal + plan_fallback_t option" where
  "plan_fallback_named v =
     (case v of
        JNull \<Rightarrow> Inr None
      | JObject ms \<Rightarrow>
          rbind (ok_or (non_blank (model_text ms)) FallbackEmptyModel) (\<lambda>m.
          rbind (map_err FallbackBadEffort (effort_named (map_of ms ''effort''))) (\<lambda>e.
          Inr (Some \<lparr>pf_model = m, pf_effort = (case e of Some x \<Rightarrow> x | None \<Rightarrow> effort_default)\<rparr>)))
      | _ \<Rightarrow> Inl FallbackNotObject)"

text \<open>\<open>SourceKind::named(..).ok().flatten()\<close>: a refused word and no word are the same here.\<close>

definition named_kind :: "json option \<Rightarrow> source_kind option" where
  "named_kind v = (case source_kind_named v of Inr k \<Rightarrow> k | Inl _ \<Rightarrow> None)"

definition new_bot_default_named :: "json \<Rightarrow> inference_refusal + new_bot_default_t option" where
  "new_bot_default_named v =
     (case v of
        JNull \<Rightarrow> Inr None
      | JObject ms \<Rightarrow>
          rbind (ok_or (named_kind (map_of ms ''source'')) DefaultBadSource) (\<lambda>src.
          rbind (case src of
                   Gateway \<Rightarrow> ok_or (non_blank (model_text ms)) DefaultEmptyModel
                 | LocalProxy \<Rightarrow>
                     map_err DefaultBadModel
                       (rbind (subscription_model (model_text ms)) (\<lambda>_. Inr (trim (model_text ms))))) (\<lambda>m.
          rbind (map_err DefaultBadEffort (effort_named (map_of ms ''effort''))) (\<lambda>e.
          Inr (Some \<lparr>nb_source = src, nb_model = m,
                     nb_effort = (case e of Some x \<Rightarrow> x | None \<Rightarrow> effort_default)\<rparr>))))
      | _ \<Rightarrow> Inl DefaultNotObject)"

definition for_turn :: "inference_source \<Rightarrow> source_kind option \<Rightarrow> source_kind" where
  "for_turn s chosen = (case chosen of Some k \<Rightarrow> k | None \<Rightarrow> is_kind s)"

definition inference_resolve :: "inference_source \<Rightarrow> turn_source option \<Rightarrow> source_kind \<times> via" where
  "inference_resolve s chosen =
     (let kind = (case chosen of None \<Rightarrow> is_kind s | Some c \<Rightarrow> ts_kind c);
          way = (case Option.bind chosen ts_via of Some w \<Rightarrow> Some w | None \<Rightarrow> is_via s)
      in (kind, case way of Some w \<Rightarrow> w | None \<Rightarrow> via_default))"

definition by_mac :: "inference_source \<Rightarrow> turn_source option \<Rightarrow> source_kind option \<Rightarrow> bool" where
  "by_mac s chosen own \<longleftrightarrow>
     is_relays s \<noteq> [] \<and> inference_resolve s (turn_source_picked chosen own) = (LocalProxy, Mac)"

section \<open>Saving one\<close>

text \<open>The two closures of \<open>applied\<close>: a text field (absent, cleared, set) and a model held to
  the allowlist. The refusal of a text is under the name its caller reports.\<close>

definition text_field :: "json \<Rightarrow> string \<Rightarrow> string \<Rightarrow> inference_refusal + string option option" where
  "text_field v key reported =
     (case json_get v key of
        None \<Rightarrow> Inr None
      | Some JNull \<Rightarrow> Inr (Some None)
      | Some (JString s) \<Rightarrow> Inr (Some (if trim s = [] then None else Some (trim s)))
      | Some _ \<Rightarrow> Inl (MustBeStringOrNull reported))"

definition model_field :: "string option \<Rightarrow> string \<Rightarrow> inference_refusal + string option" where
  "model_field m key =
     (case map_option subscription_model m of
        Some (Inl why) \<Rightarrow> Inl (BadModel key why)
      | _ \<Rightarrow> Inr m)"

definition base_field :: "(string \<Rightarrow> string + string) \<Rightarrow> string option \<Rightarrow> inference_refusal + string option" where
  "base_field base chosen =
     (case chosen of
        None \<Rightarrow> Inr None
      | Some t \<Rightarrow> map_err BadBaseUrl (rbind (base t) (\<lambda>u. Inr (Some u))))"

definition relay_field :: "json \<Rightarrow> inference_source \<Rightarrow> inference_refusal + inference_source" where
  "relay_field body s =
     (case json_get body ''relay'' of
        None \<Rightarrow> Inr s
      | Some JNull \<Rightarrow> Inr (s\<lparr>is_relay_model := None\<rparr>)
      | Some (JObject ms) \<Rightarrow>
          rbind (text_field (JObject ms) ''localModel'' ''relay.localModel'') (\<lambda>chosen.
            (case chosen of
               None \<Rightarrow> Inr s
             | Some m \<Rightarrow>
                 rbind (model_field m ''relay.localModel'') (\<lambda>m'. Inr (s\<lparr>is_relay_model := m'\<rparr>))))
      | Some _ \<Rightarrow> Inl RelayNotObject)"

definition key_field :: "json \<Rightarrow> inference_refusal + key_change" where
  "key_field body =
     rbind (text_field body ''apiKey'' ''apiKey'') (\<lambda>chosen.
       (case chosen of
          None \<Rightarrow> Inr KeepKey
        | Some None \<Rightarrow> Inr ClearKey
        | Some (Some k) \<Rightarrow>
            if length k \<le> 512 \<and> list_all is_ascii_graphic k then Inr (SetKey k) else Inl BadApiKey))"

definition relay_switch :: "json \<Rightarrow> inference_refusal + bool option" where
  "relay_switch body =
     (case json_get body ''relayEnabled'' of
        None \<Rightarrow> Inr None
      | Some v \<Rightarrow> rbind (ok_or (as_bool v) RelayEnabledNotBool) (\<lambda>b. Inr (Some b)))"

fun has_key_after :: "bool \<Rightarrow> key_change \<Rightarrow> bool" where
  "has_key_after held KeepKey = held"
| "has_key_after held (SetKey _) = True"
| "has_key_after held ClearKey = False"

definition applied ::
  "(string \<Rightarrow> string + string) \<Rightarrow> inference_source \<Rightarrow> json
    \<Rightarrow> inference_refusal + inference_source \<times> key_change \<times> bool option" where
  "applied base self body =
     rbind (ok_or (named_kind (json_get body ''kind'')) BadKindWord) (\<lambda>k.
     let s0 = self\<lparr>is_kind := k\<rparr> in
     rbind (text_field body ''baseUrl'' ''baseUrl'') (\<lambda>url.
     rbind (case url of None \<Rightarrow> Inr s0
            | Some chosen \<Rightarrow> rbind (base_field base chosen) (\<lambda>u. Inr (s0\<lparr>is_base_url := u\<rparr>))) (\<lambda>s1.
     rbind (text_field body ''localModel'' ''localModel'') (\<lambda>lm.
     rbind (case lm of None \<Rightarrow> Inr s1
            | Some chosen \<Rightarrow>
                rbind (model_field chosen ''localModel'') (\<lambda>m. Inr (s1\<lparr>is_local_model := m\<rparr>))) (\<lambda>s2.
     rbind (case json_get body ''via'' of None \<Rightarrow> Inr s2
            | Some w \<Rightarrow>
                rbind (map_err BadViaWord (via_named (Some w))) (\<lambda>v. Inr (s2\<lparr>is_via := v\<rparr>))) (\<lambda>s3.
     rbind (relay_field body s3) (\<lambda>s4.
     rbind (case json_get body ''newBotDefault'' of None \<Rightarrow> Inr s4
            | Some chosen \<Rightarrow>
                rbind (new_bot_default_named chosen) (\<lambda>d. Inr (s4\<lparr>is_new_bot_default := d\<rparr>))) (\<lambda>s5.
     rbind (relay_switch body) (\<lambda>switched.
     rbind (case json_get body ''planFallback'' of None \<Rightarrow> Inr s5
            | Some chosen \<Rightarrow>
                rbind (plan_fallback_named chosen) (\<lambda>d. Inr (s5\<lparr>is_plan_fallback := d\<rparr>))) (\<lambda>s6.
     rbind (key_field body) (\<lambda>key.
     Inr (s6\<lparr>is_has_key := has_key_after (is_has_key s6) key\<rparr>, key, switched))))))))))))"

text \<open>The efforts a body names, each with the door and model it is held to.\<close>

definition named_efforts ::
  "inference_source \<Rightarrow> json \<Rightarrow> (string \<times> source_kind option \<times> string \<times> effort) option list" where
  "named_efforts s body =
     [Option.bind (json_get body ''newBotDefault'') (\<lambda>_.
        map_option (\<lambda>d. (''newBotDefault'', Some (nb_source d), nb_model d, nb_effort d))
          (is_new_bot_default s)),
      Option.bind (json_get body ''planFallback'') (\<lambda>_.
        map_option (\<lambda>f. (''planFallback'', Some Gateway, pf_model f, pf_effort f))
          (is_plan_fallback s))]"

section \<open>What the allowlist lets through\<close>

text \<open>The shape of an id the allowlist accepts, in the lower case it is judged in.\<close>

definition allowed_shape :: "string \<Rightarrow> bool" where
  "allowed_shape name \<longleftrightarrow>
     (\<exists>pre core tier. name = pre @ core @ tier \<and>
        pre \<in> {[], ''openai/'', ''xai/''} \<and> tier \<in> {[], ''--fast''} \<and> CHR ''/'' \<notin> set core \<and>
        ((pre \<noteq> ''xai/'' \<and> (\<exists>start\<in>set openai_starts. starts_with start core)) \<or>
         (pre \<noteq> ''openai/'' \<and> starts_with ''grok-'' core)))"

lemma model_core_tier:
  obtains tier where "rest = model_core rest @ tier" "tier \<in> {[], ''--fast''}"
  by (cases "strip_suffix ''--fast'' rest") (auto simp: model_core_def)

lemma model_parts_shape:
  assumes "model_parts name = (provider, core)" and "recognised_model provider core"
    and "CHR ''/'' \<notin> set core"
  shows "allowed_shape name"
proof (cases provider)
  case None
  with assms have "core = model_core name" by (auto simp: model_parts_def split: option.splits)
  then obtain tier where "name = [] @ core @ tier" "tier \<in> {[], ''--fast''}"
    using model_core_tier by (metis append_Nil)
  with None assms show ?thesis
    unfolding allowed_shape_def recognised_model_def list_ex_iff Let_def
    by (intro exI [of _ "[]"] exI [of _ core] exI [of _ tier]) auto
next
  case (Some p)
  with assms(1) obtain n where n: "name = p @ CHR ''/'' # n" "core = model_core n"
    by (auto simp: model_parts_def split_once_Some split: option.splits)
  then obtain tier where "name = (p @ ''/'') @ core @ tier" "tier \<in> {[], ''--fast''}"
    using model_core_tier by (metis append_Cons append_Nil append_assoc)
  with Some assms show ?thesis
    unfolding allowed_shape_def recognised_model_def list_ex_iff Let_def
    by (intro exI [of _ "p @ ''/''"] exI [of _ core] exI [of _ tier]) (auto split: if_splits)
qed

lemma subscription_model_shape:
  assumes "subscription_model m = Inr ()"
  shows "allowed_shape (to_ascii_lowercase (trim m)) \<and>
    length (to_ascii_lowercase (trim m)) \<le> 128 \<and>
    list_all plain_model_byte (to_ascii_lowercase (trim m)) \<and>
    (\<forall>w\<in>fst ` set forbidden_words. \<not> contains_str w (to_ascii_lowercase (trim m)))"
proof -
  define name where "name = to_ascii_lowercase (trim m)"
  obtain provider core where parts: "model_parts name = (provider, core)" by fastforce
  have none: "find (\<lambda>(w, _). contains_str w name) forbidden_words = None"
    using assms by (auto simp: subscription_model_def Let_def name_def split: if_splits option.splits)
  have ok: "recognised_model provider core" "length name \<le> 128" "CHR ''/'' \<notin> set core"
    "list_all plain_model_byte name"
    using assms none parts
    by (simp_all add: subscription_model_def Let_def name_def [symmetric] split: if_splits)
  then have "allowed_shape name" using parts by (auto intro: model_parts_shape)
  with ok none show ?thesis
    unfolding name_def by (auto simp: find_None_iff)
qed

lemma subscription_model_trim [simp]: "subscription_model (trim m) = subscription_model m"
  unfolding subscription_model_def trim_idem ..

section \<open>What saving keeps\<close>

definition default_ok :: "new_bot_default_t \<Rightarrow> bool" where
  "default_ok d \<longleftrightarrow>
     (case nb_source d of
        Gateway \<Rightarrow> nb_model d \<noteq> [] \<and> trim (nb_model d) = nb_model d
      | LocalProxy \<Rightarrow> subscription_model (nb_model d) = Inr ())"

definition setting_ok :: "inference_source \<Rightarrow> bool" where
  "setting_ok s \<longleftrightarrow>
     pred_option (\<lambda>m. subscription_model m = Inr ()) (is_local_model s) \<and>
     pred_option (\<lambda>m. subscription_model m = Inr ()) (is_relay_model s) \<and>
     pred_option default_ok (is_new_bot_default s) \<and>
     pred_option (\<lambda>f. pf_model f \<noteq> [] \<and> trim (pf_model f) = pf_model f) (is_plan_fallback s)"

lemma non_blank_Some [simp]: "non_blank m = Some t \<longleftrightarrow> t = trim m \<and> t \<noteq> []"
  by (auto simp: non_blank_def)

lemma model_field_ok:
  "model_field m key = Inr m' \<Longrightarrow> m' = m \<and> pred_option (\<lambda>m. subscription_model m = Inr ()) m'"
  by (auto simp: model_field_def split: option.splits sum.splits)

lemma new_bot_default_named_ok: "new_bot_default_named v = Inr d \<Longrightarrow> pred_option default_ok d"
  by (cases v)
    (auto simp: new_bot_default_named_def default_ok_def split: source_kind.split_asm,
      metis source_kind.exhaust)

lemma plan_fallback_named_ok:
  "plan_fallback_named v = Inr d \<Longrightarrow>
   pred_option (\<lambda>f. pf_model f \<noteq> [] \<and> trim (pf_model f) = pf_model f) d"
  by (auto simp: plan_fallback_named_def split: json.splits)

lemma relay_field_ok:
  assumes "relay_field body s = Inr t"
  shows "\<exists>m. t = s\<lparr>is_relay_model := m\<rparr> \<and>
    (m = is_relay_model s \<or> pred_option (\<lambda>m. subscription_model m = Inr ()) m)"
proof -
  have keep: "\<exists>m. s = s\<lparr>is_relay_model := m\<rparr> \<and> (m = is_relay_model s \<or> P m)" for P
    by (rule exI [of _ "is_relay_model s"]) simp
  show ?thesis
    using assms keep model_field_ok
    by (auto simp: relay_field_def split: option.splits json.splits) blast+
qed

lemma key_field_ok:
  "key_field body = Inr (SetKey k) \<Longrightarrow> length k \<le> 512 \<and> list_all is_ascii_graphic k \<and> k \<noteq> []"
  by (auto simp: key_field_def text_field_def split: option.splits if_splits json.splits)

text \<open>One saved field after another: each step leaves the setting as it was or writes its own
  field with a value its rule let through.\<close>

lemma applied_steps:
  assumes "applied base self body = Inr (s, key, switched)"
  obtains k url lm way rm nb pf where
    "s = self\<lparr>is_kind := k, is_base_url := url, is_local_model := lm, is_via := way,
        is_relay_model := rm, is_new_bot_default := nb, is_plan_fallback := pf,
        is_has_key := has_key_after (is_has_key self) key\<rparr>"
    "named_kind (json_get body ''kind'') = Some k"
    "url = is_base_url self \<or> pred_option (\<lambda>u. \<exists>t. base t = Inr u) url"
    "lm = is_local_model self \<or> pred_option (\<lambda>m. subscription_model m = Inr ()) lm"
    "rm = is_relay_model self \<or> pred_option (\<lambda>m. subscription_model m = Inr ()) rm"
    "nb = is_new_bot_default self \<or> pred_option default_ok nb"
    "pf = is_plan_fallback self \<or>
       pred_option (\<lambda>f. pf_model f \<noteq> [] \<and> trim (pf_model f) = pf_model f) pf"
    "key_field body = Inr key"
proof -
  obtain k c1 s1 c2 s2 s3 s4 s5 s6 where
    k: "named_kind (json_get body ''kind'') = Some k"
    and s1: "(case c1 of None \<Rightarrow> Inr (self\<lparr>is_kind := k\<rparr>)
        | Some chosen \<Rightarrow> rbind (base_field base chosen)
            (\<lambda>u. Inr (self\<lparr>is_kind := k, is_base_url := u\<rparr>))) = Inr s1"
    and s2: "(case c2 of None \<Rightarrow> Inr s1
        | Some chosen \<Rightarrow> rbind (model_field chosen ''localModel'')
            (\<lambda>m. Inr (s1\<lparr>is_local_model := m\<rparr>))) = Inr s2"
    and s3: "(case json_get body ''via'' of None \<Rightarrow> Inr s2
        | Some w \<Rightarrow> rbind (map_err BadViaWord (via_named (Some w)))
            (\<lambda>v. Inr (s2\<lparr>is_via := v\<rparr>))) = Inr s3"
    and s4: "relay_field body s3 = Inr s4"
    and s5: "(case json_get body ''newBotDefault'' of None \<Rightarrow> Inr s4
        | Some chosen \<Rightarrow> rbind (new_bot_default_named chosen)
            (\<lambda>d. Inr (s4\<lparr>is_new_bot_default := d\<rparr>))) = Inr s5"
    and s6: "(case json_get body ''planFallback'' of None \<Rightarrow> Inr s5
        | Some chosen \<Rightarrow> rbind (plan_fallback_named chosen)
            (\<lambda>d. Inr (s5\<lparr>is_plan_fallback := d\<rparr>))) = Inr s6"
    and key: "key_field body = Inr key"
    and s: "s = s6\<lparr>is_has_key := has_key_after (is_has_key s6) key\<rparr>"
    using assms by (auto simp: applied_def Let_def)
  obtain url where url: "s1 = self\<lparr>is_kind := k, is_base_url := url\<rparr>"
    "url = is_base_url self \<or> pred_option (\<lambda>u. \<exists>t. base t = Inr u) url"
  proof (cases c1)
    case None
    with s1 show ?thesis by (intro that [of "is_base_url self"]) auto
  next
    case (Some chosen)
    with s1 obtain u where "base_field base chosen = Inr u" "s1 = self\<lparr>is_kind := k, is_base_url := u\<rparr>"
      by auto
    then show ?thesis by (intro that [of u]) (auto simp: base_field_def split: option.splits)
  qed
  obtain lm where lm: "s2 = s1\<lparr>is_local_model := lm\<rparr>"
    "lm = is_local_model s1 \<or> pred_option (\<lambda>m. subscription_model m = Inr ()) lm"
    using s2 by (cases c2) (auto dest: model_field_ok intro: that [of "is_local_model s1"])
  obtain way where way: "s3 = s2\<lparr>is_via := way\<rparr>"
    using s3 by (auto split: option.splits intro: that [of "is_via s2"])
  obtain rm where rm: "s4 = s3\<lparr>is_relay_model := rm\<rparr>"
    "rm = is_relay_model s3 \<or> pred_option (\<lambda>m. subscription_model m = Inr ()) rm"
    using relay_field_ok [OF s4] by blast
  obtain nb where nb: "s5 = s4\<lparr>is_new_bot_default := nb\<rparr>"
    "nb = is_new_bot_default s4 \<or> pred_option default_ok nb"
    using s5 by (auto split: option.splits dest: new_bot_default_named_ok
        intro: that [of "is_new_bot_default s4"])
  obtain pf where pf: "s6 = s5\<lparr>is_plan_fallback := pf\<rparr>"
    "pf = is_plan_fallback s5 \<or>
       pred_option (\<lambda>f. pf_model f \<noteq> [] \<and> trim (pf_model f) = pf_model f) pf"
    using s6 by (auto split: option.splits dest: plan_fallback_named_ok
        intro: that [of "is_plan_fallback s5"])
  show ?thesis
    using that [where k = k and url = url and lm = lm and way = way and rm = rm and nb = nb and pf = pf] k url lm way rm nb pf key s by simp
qed

section \<open>Properties\<close>

text \<open>A model a person's own subscription may answer is one of OpenAI's or xAI's, anchored. Its
  id, trimmed and in lower case, is an optional \<open>openai/\<close> or \<open>xai/\<close>, a core that
  begins as that provider's models begin, and an optional \<open>--fast\<close>; it holds no name of a
  provider whose terms forbid it, and is at most 128 plain bytes, so nothing rides the
  subscription by containing an allowed word.\<close>

theorem subscription_model_anchored:
  assumes "subscription_model m = Inr ()"
  shows "allowed_shape (to_ascii_lowercase (trim m)) \<and>
    length (to_ascii_lowercase (trim m)) \<le> 128 \<and>
    list_all plain_model_byte (to_ascii_lowercase (trim m)) \<and>
    (\<forall>w\<in>fst ` set forbidden_words. \<not> contains_str w (to_ascii_lowercase (trim m)))"
  using assms by (rule subscription_model_shape)

theorem subscription_model_anchored_witness:
  "subscription_model '' XAI/grok-4.7--fast'' = Inr () \<and>
   allowed_shape (to_ascii_lowercase (trim '' XAI/grok-4.7--fast''))"
proof -
  have accepted: "subscription_model '' XAI/grok-4.7--fast'' = Inr ()" by code_simp
  from subscription_model_anchored [OF accepted] accepted show ?thesis by blast
qed

text \<open>Saving a setting keeps it sound. Whatever body is accepted over a sound setting, each
  model saved for the person's own plan is one the allowlist lets through, a default and a
  fallback name a model, the address is the saved one or one the judge of addresses gave, a key
  that is set is short printable ASCII and is recorded as held, and the computers whose relay
  is on are not touched.\<close>

theorem applied_keeps_setting:
  assumes "setting_ok self" and "applied base self body = Inr (s, key, switched)"
  shows "setting_ok s \<and>
    (is_base_url s = is_base_url self \<or> pred_option (\<lambda>u. \<exists>t. base t = Inr u) (is_base_url s)) \<and>
    is_has_key s = has_key_after (is_has_key self) key \<and>
    (\<forall>k. key = SetKey k \<longrightarrow> length k \<le> 512 \<and> list_all is_ascii_graphic k \<and> k \<noteq> []) \<and>
    is_relays s = is_relays self"
proof (rule applied_steps [OF assms(2)])
  fix k url lm way rm nb pf
  assume s: "s = self\<lparr>is_kind := k, is_base_url := url, is_local_model := lm, is_via := way,
        is_relay_model := rm, is_new_bot_default := nb, is_plan_fallback := pf,
        is_has_key := has_key_after (is_has_key self) key\<rparr>"
    and "named_kind (json_get body ''kind'') = Some k"
    and url: "url = is_base_url self \<or> pred_option (\<lambda>u. \<exists>t. base t = Inr u) url"
    and parts: "lm = is_local_model self \<or> pred_option (\<lambda>m. subscription_model m = Inr ()) lm"
      "rm = is_relay_model self \<or> pred_option (\<lambda>m. subscription_model m = Inr ()) rm"
      "nb = is_new_bot_default self \<or> pred_option default_ok nb"
      "pf = is_plan_fallback self \<or>
         pred_option (\<lambda>f. pf_model f \<noteq> [] \<and> trim (pf_model f) = pf_model f) pf"
    and key: "key_field body = Inr key"
  have "setting_ok s"
    using parts assms(1) by (auto simp: setting_ok_def s)
  with url key show ?thesis by (auto simp: s dest: key_field_ok)
qed

theorem applied_keeps_setting_witness:
  "\<exists>s. applied Inr inference_source_default
      (JObject [(''kind'', JString ''local_proxy''), (''localModel'', JString ''gpt-6'')])
      = Inr (s, KeepKey, None) \<and> setting_ok s \<and> is_local_model s = Some ''gpt-6''"
proof -
  define body where
    "body = JObject [(''kind'', JString ''local_proxy''), (''localModel'', JString ''gpt-6'')]"
  define s where "s = inference_source_default\<lparr>is_kind := LocalProxy, is_local_model := Some ''gpt-6''\<rparr>"
  have trimmed: "trim ''gpt-6'' = ''gpt-6''" "subscription_model ''gpt-6'' = Inr ()"
    by code_simp+
  have "applied Inr inference_source_default body = Inr (s, KeepKey, None)"
    by (simp add: applied_def body_def s_def named_kind_def source_kind_named_def
        source_kind_parse_def text_field_def trimmed model_field_def relay_field_def
        relay_switch_def key_field_def inference_source_default_def)
  moreover have "setting_ok inference_source_default"
    by (simp add: setting_ok_def inference_source_default_def)
  ultimately show ?thesis
    using applied_keeps_setting [of inference_source_default Inr body s KeepKey None]
    unfolding body_def by (auto simp: s_def)
qed

text \<open>A body that names a kind and nothing else changes the kind and nothing else: a field
  absent keeps what is saved, the key included, and no relay is switched.\<close>

theorem applied_absent_keeps:
  assumes "named_kind (json_get body ''kind'') = Some k"
    and "\<forall>field\<in>{''baseUrl'', ''localModel'', ''via'', ''relay'', ''newBotDefault'',
           ''relayEnabled'', ''planFallback'', ''apiKey''}. json_get body field = None"
  shows "applied base self body = Inr (self\<lparr>is_kind := k\<rparr>, KeepKey, None)"
  using assms
  by (simp add: applied_def text_field_def relay_field_def relay_switch_def key_field_def)

theorem applied_absent_keeps_witness:
  "applied Inr inference_source_default (JObject [(''kind'', JString ''gateway'')])
     = Inr (inference_source_default\<lparr>is_kind := Gateway\<rparr>, KeepKey, None)"
  by (rule applied_absent_keeps)
    (simp_all add: named_kind_def source_kind_named_def source_kind_parse_def)

end
