(* ===== verification/Event_Sourcing.thy ===== *)
theory Event_Sourcing
  imports Prelude
begin

text \<open>
  The shape every aggregate of \<open>opengrok-core\<close> has: a state that is a fold over a log of
  events (\<open>replay\<close>, \<open>apply\<close>), and a pure \<open>decide\<close> that turns a command into the
  events to append, or refuses. The callers load the log, ask \<open>decide\<close>, append what it
  returned and apply it.

  \<open>history\<close> is the relation between the states and logs that way of working can reach:
  from an empty log, any number of accepted commands in any order. \<open>handle_all\<close> is the
  executable counterpart, which also shows the refused commands leaving both alone. The
  locale \<open>event_log\<close> is the interface a component's theorems are proved against: the
  component names an invariant of state and log, shows that the empty history has it and that
  one accepted command keeps it, and gets it for every history.
\<close>

inductive history ::
  "'s \<Rightarrow> ('s \<Rightarrow> 'e \<Rightarrow> 's) \<Rightarrow> ('s \<Rightarrow> 'c \<Rightarrow> 'err + 'e list) \<Rightarrow> 's \<Rightarrow> 'e list \<Rightarrow> bool"
  for initial :: 's and apply_ev :: "'s \<Rightarrow> 'e \<Rightarrow> 's"
    and decide :: "'s \<Rightarrow> 'c \<Rightarrow> 'err + 'e list"
where
  empty_log: "history initial apply_ev decide initial []"
| accepted: "history initial apply_ev decide s log \<Longrightarrow> decide s c = Inr es \<Longrightarrow>
     history initial apply_ev decide (foldl apply_ev s es) (log @ es)"

text \<open>A list of commands in turn, as a state and the events appended; a refusal appends none.\<close>

fun handle_all ::
  "('s \<Rightarrow> 'e \<Rightarrow> 's) \<Rightarrow> ('s \<Rightarrow> 'c \<Rightarrow> 'err + 'e list) \<Rightarrow> 's \<Rightarrow> 'c list \<Rightarrow> 's \<times> 'e list"
where
  "handle_all apply_ev decide s [] = (s, [])"
| "handle_all apply_ev decide s (c # cs) =
     (case decide s c of
        Inl _ \<Rightarrow> handle_all apply_ev decide s cs
      | Inr es \<Rightarrow>
          (case handle_all apply_ev decide (foldl apply_ev s es) cs of
             (t, log) \<Rightarrow> (t, es @ log)))"

text \<open>The commands a state refuses, as a predicate the components use.\<close>

definition refuses :: "('s \<Rightarrow> 'c \<Rightarrow> 'err + 'e list) \<Rightarrow> 's \<Rightarrow> 'c \<Rightarrow> bool" where
  "refuses decide s c \<longleftrightarrow> \<not> is_ok (decide s c)"

text \<open>The state is the replay of the log: nothing that matters is outside it.\<close>

lemma history_replays:
  "history initial apply_ev decide s log \<Longrightarrow> s = foldl apply_ev initial log"
  by (induction rule: history.induct) simp_all

lemma history_handle_all:
  assumes "history initial apply_ev decide s log"
    and "handle_all apply_ev decide s cs = (t, more)"
  shows "history initial apply_ev decide t (log @ more)"
  using assms
proof (induction cs arbitrary: s log more t)
  case (Cons c cs)
  show ?case
  proof (cases "decide s c")
    case (Inl e)
    with Cons show ?thesis by auto
  next
    case (Inr es)
    obtain u rest where rest: "handle_all apply_ev decide (foldl apply_ev s es) cs = (u, rest)"
      by fastforce
    have "history initial apply_ev decide (foldl apply_ev s es) (log @ es)"
      using Cons.prems(1) Inr by (rule history.accepted)
    from Cons.IH [OF this rest] show ?thesis
      using Cons.prems(2) Inr rest by simp
  qed
qed simp

lemma handle_all_history:
  "handle_all apply_ev decide initial cs = (s, log) \<Longrightarrow> history initial apply_ev decide s log"
  using history_handle_all [OF history.empty_log] by fastforce

locale event_log =
  fixes initial :: 's
    and apply_ev :: "'s \<Rightarrow> 'e \<Rightarrow> 's"
    and decide :: "'s \<Rightarrow> 'c \<Rightarrow> 'err + 'e list"
    and inv :: "'s \<Rightarrow> 'e list \<Rightarrow> bool"
  assumes inv_empty: "inv initial []"
    and inv_accepted: "inv s log \<Longrightarrow> decide s c = Inr es \<Longrightarrow> inv (foldl apply_ev s es) (log @ es)"
begin

lemma inv_history: "history initial apply_ev decide s log \<Longrightarrow> inv s log"
  by (induction rule: history.induct) (auto intro: inv_empty inv_accepted)

lemma inv_handle_all: "handle_all apply_ev decide initial cs = (s, log) \<Longrightarrow> inv s log"
  by (rule inv_history) (rule handle_all_history)

text \<open>A refusal changes nothing, so handling any commands from a state with the invariant keeps it.\<close>

lemma inv_handle_all_from:
  "inv s log \<Longrightarrow> handle_all apply_ev decide s cs = (t, more) \<Longrightarrow> inv t (log @ more)"
proof (induction cs arbitrary: s log more t)
  case (Cons c cs)
  show ?case
  proof (cases "decide s c")
    case (Inr es)
    obtain u rest where rest: "handle_all apply_ev decide (foldl apply_ev s es) cs = (u, rest)"
      by fastforce
    have "inv (foldl apply_ev s es) (log @ es)"
      using Cons.prems(1) Inr by (rule inv_accepted)
    from Cons.IH [OF this rest] show ?thesis
      using Cons.prems(2) Inr rest by simp
  qed (use Cons in auto)
qed simp

end

text \<open>
  An ending: a class of states that no accepted command leaves. What a component calls
  deleted, retired or terminal is one.
\<close>

locale absorbing =
  fixes apply_ev :: "'s \<Rightarrow> 'e \<Rightarrow> 's"
    and decide :: "'s \<Rightarrow> 'c \<Rightarrow> 'err + 'e list"
    and ended :: "'s \<Rightarrow> bool"
  assumes ended_accepted: "ended s \<Longrightarrow> decide s c = Inr es \<Longrightarrow> ended (foldl apply_ev s es)"
begin

lemma ended_forever: "ended s \<Longrightarrow> handle_all apply_ev decide s cs = (t, log) \<Longrightarrow> ended t"
proof (induction cs arbitrary: s log)
  case (Cons c cs)
  show ?case
  proof (cases "decide s c")
    case (Inr es)
    then have "ended (foldl apply_ev s es)"
      using Cons.prems(1) by (auto intro: ended_accepted)
    with Cons Inr show ?thesis by (auto split: prod.splits)
  qed (use Cons in auto)
qed simp

end

text \<open>
  A sealed ending: the ended states refuse every command, so the state itself never changes
  again.
\<close>

locale sealed =
  fixes apply_ev :: "'s \<Rightarrow> 'e \<Rightarrow> 's"
    and decide :: "'s \<Rightarrow> 'c \<Rightarrow> 'err + 'e list"
    and ended :: "'s \<Rightarrow> bool"
    and exempt :: "'c \<Rightarrow> bool"
  assumes ended_refuses: "ended s \<Longrightarrow> \<not> exempt c \<Longrightarrow> refuses decide s c"
begin

lemma sealed_state:
  "ended s \<Longrightarrow> list_all (\<lambda>c. \<not> exempt c) cs \<Longrightarrow> handle_all apply_ev decide s cs = (s, [])"
proof (induction cs)
  case (Cons c cs)
  then have "refuses decide s c" by (auto intro: ended_refuses)
  then obtain e where "decide s c = Inl e"
    by (cases "decide s c") (auto simp: refuses_def)
  with Cons show ?case by simp
qed simp

end

text \<open>
  What every event of a log found when it was written: \<open>guarded\<close> walks the log with the
  state each event was applied to. A component that shows it of the events one \<open>decide\<close>
  returns has it of every log, and \<open>guarded_at\<close> reads it off at any place.
\<close>

fun guarded :: "('s \<Rightarrow> 'e \<Rightarrow> 's) \<Rightarrow> ('s \<Rightarrow> 'e \<Rightarrow> bool) \<Rightarrow> 's \<Rightarrow> 'e list \<Rightarrow> bool" where
  "guarded apply_ev allowed s [] \<longleftrightarrow> True"
| "guarded apply_ev allowed s (e # es) \<longleftrightarrow>
     allowed s e \<and> guarded apply_ev allowed (apply_ev s e) es"

lemma guarded_append:
  "guarded apply_ev allowed s (xs @ ys) \<longleftrightarrow>
   guarded apply_ev allowed s xs \<and> guarded apply_ev allowed (foldl apply_ev s xs) ys"
  by (induction xs arbitrary: s) auto

lemma guarded_at:
  "guarded apply_ev allowed s (pre @ e # post) \<Longrightarrow> allowed (foldl apply_ev s pre) e"
  by (simp add: guarded_append)

lemma guarded_fold_inv:
  assumes "guarded apply_ev allowed s es" and "P s"
    and "\<And>s e. P s \<Longrightarrow> allowed s e \<Longrightarrow> P (apply_ev s e)"
  shows "P (foldl apply_ev s es)"
  using assms by (induction es arbitrary: s) auto

text \<open>The same for a relation between the state and the log so far.\<close>

lemma guarded_log_inv:
  assumes "guarded apply_ev allowed s es" and "R s log"
    and "\<And>s log e. R s log \<Longrightarrow> allowed s e \<Longrightarrow> R (apply_ev s e) (log @ [e])"
  shows "R (foldl apply_ev s es) (log @ es)"
  using assms(1,2)
proof (induction es arbitrary: s log)
  case (Cons e es)
  then have "R (apply_ev s e) (log @ [e])" using assms(3) by simp
  with Cons show ?case by fastforce
qed simp

locale event_guard =
  fixes initial :: 's
    and apply_ev :: "'s \<Rightarrow> 'e \<Rightarrow> 's"
    and decide :: "'s \<Rightarrow> 'c \<Rightarrow> 'err + 'e list"
    and allowed :: "'s \<Rightarrow> 'e \<Rightarrow> bool"
  assumes decide_guarded: "decide s c = Inr es \<Longrightarrow> guarded apply_ev allowed s es"
begin

lemma history_guarded: "history initial apply_ev decide s log \<Longrightarrow> guarded apply_ev allowed initial log"
proof (induction rule: history.induct)
  case (accepted s log c es)
  then show ?case
    using decide_guarded by (simp add: guarded_append history_replays [symmetric])
qed simp

text \<open>An invariant of the state that every allowed event keeps holds of every history.\<close>

lemma history_inv:
  assumes "history initial apply_ev decide s log" and "P initial"
    and "\<And>s e. P s \<Longrightarrow> allowed s e \<Longrightarrow> P (apply_ev s e)"
  shows "P s"
proof -
  have "P (foldl apply_ev initial log)"
    using history_guarded [OF assms(1)] assms(2,3) by (rule guarded_fold_inv)
  then show ?thesis using history_replays [OF assms(1)] by simp
qed

end

end
