(* ===== verification/Coworker.thy ===== *)
theory Coworker
  imports Inference Event_Sourcing
begin

text \<open>
  \<open>opengrok-core/src/coworker.rs\<close>: the coworker aggregate, who a coworker is and which
  computer is theirs. The state is a fold over \<open>coworker_event\<close>s, \<open>coworker_decide\<close>
  turns a command into events or refuses it, and \<open>coworker_view_of\<close> is the roster row every
  writer projects. A field's name is the source's behind \<open>cw_\<close> (\<open>cv_\<close> on the row).
\<close>

definition max_role_chars :: nat where
  "max_role_chars = 1000"

definition group_max_members :: nat where
  "group_max_members = 6"

datatype coworker_event =
    Hired string string int
  | Renamed string int
  | RoleSet "string option" int
  | VisibilitySet visibility int
  | Repinned string int
  | EffortSet effort int
  | SourceSet "source_kind option" int
  | ComputerAssigned box_id box_mode int
  | ComputerReleased int
  | CoworkerRetired int
  | GroupHired string "coworker_id list" int
  | MembersSet "coworker_id list" int

fun coworker_event_type :: "coworker_event \<Rightarrow> string" where
  "coworker_event_type (Hired _ _ _) = ''coworker-hired''"
| "coworker_event_type (Renamed _ _) = ''coworker-renamed''"
| "coworker_event_type (Repinned _ _) = ''coworker-repinned''"
| "coworker_event_type (EffortSet _ _) = ''coworker-effort-set''"
| "coworker_event_type (SourceSet _ _) = ''coworker-source-set''"
| "coworker_event_type (RoleSet _ _) = ''coworker-role-set''"
| "coworker_event_type (VisibilitySet _ _) = ''coworker-visibility-set''"
| "coworker_event_type (ComputerAssigned _ _ _) = ''computer-assigned''"
| "coworker_event_type (ComputerReleased _) = ''computer-released''"
| "coworker_event_type (CoworkerRetired _) = ''coworker-retired''"
| "coworker_event_type (GroupHired _ _ _) = ''group-hired''"
| "coworker_event_type (MembersSet _ _) = ''members-set''"

record coworker =
  cw_hired :: bool
  cw_retired :: bool
  cw_name :: string
  cw_model :: string
  cw_box_id :: "box_id option"
  cw_box_mode :: "box_mode option"
  cw_members :: "coworker_id list"
  cw_visibility :: visibility
  cw_role :: "string option"
  cw_effort :: effort
  cw_source :: "source_kind option"

definition coworker_default :: coworker where
  "coworker_default =
     \<lparr>cw_hired = False, cw_retired = False, cw_name = [], cw_model = [], cw_box_id = None,
      cw_box_mode = None, cw_members = [], cw_visibility = Private, cw_role = None,
      cw_effort = Inherit, cw_source = None\<rparr>"

datatype coworker_error =
    NotHired
  | RetiredErr
  | AlreadyHasComputer
  | NoComputer
  | SharedComputer
  | RoleTooLong
  | EmptyModel
  | NoMembers
  | TooManyMembers
  | NotAGroup

datatype coworker_command =
    Hire string string int
  | Rename string int
  | SetRole "string option" int
  | SetVisibility visibility int
  | Repin string int
  | SetEffort effort int
  | SetSource "source_kind option" int
  | AssignComputer box_id box_mode int
  | ReleaseComputer int
  | Retire int
  | HireGroup string "coworker_id list" int
  | SetMembers "coworker_id list" int

fun coworker_apply :: "coworker \<Rightarrow> coworker_event \<Rightarrow> coworker" where
  "coworker_apply s (Hired n m at) = s\<lparr>cw_hired := True, cw_name := n, cw_model := m\<rparr>"
| "coworker_apply s (Renamed n at) = s\<lparr>cw_name := n\<rparr>"
| "coworker_apply s (Repinned m at) = s\<lparr>cw_model := m\<rparr>"
| "coworker_apply s (EffortSet e at) = s\<lparr>cw_effort := e\<rparr>"
| "coworker_apply s (SourceSet k at) = s\<lparr>cw_source := k\<rparr>"
| "coworker_apply s (RoleSet r at) = s\<lparr>cw_role := r\<rparr>"
| "coworker_apply s (VisibilitySet v at) = s\<lparr>cw_visibility := v\<rparr>"
| "coworker_apply s (ComputerAssigned b mode at) =
     s\<lparr>cw_box_id := Some b, cw_box_mode := Some mode\<rparr>"
| "coworker_apply s (ComputerReleased at) = s\<lparr>cw_box_id := None, cw_box_mode := None\<rparr>"
| "coworker_apply s (CoworkerRetired at) = s\<lparr>cw_retired := True\<rparr>"
| "coworker_apply s (GroupHired n ms at) =
     s\<lparr>cw_hired := True, cw_name := n, cw_model := ''group'', cw_members := ms\<rparr>"
| "coworker_apply s (MembersSet ms at) = s\<lparr>cw_members := ms\<rparr>"

definition coworker_replay :: "coworker_event list \<Rightarrow> coworker" where
  "coworker_replay es = foldl coworker_apply coworker_default es"

definition is_group :: "coworker \<Rightarrow> bool" where
  "is_group s \<longleftrightarrow> cw_members s \<noteq> []"

text \<open>The loop of \<open>member_list\<close>: push what has not been seen.\<close>

fun dedup :: "'a list \<Rightarrow> 'a list \<Rightarrow> 'a list" where
  "dedup seen [] = seen"
| "dedup seen (m # ms) = (if m \<in> set seen then dedup seen ms else dedup (seen @ [m]) ms)"

definition member_list :: "coworker_id list \<Rightarrow> coworker_error + coworker_id list" where
  "member_list ms =
     (let seen = dedup [] ms in
      if seen = [] then Inl NoMembers
      else if length seen > group_max_members then Inl TooManyMembers
      else Inr seen)"

definition coworker_alive :: "coworker \<Rightarrow> coworker_error + unit" where
  "coworker_alive s =
     (if \<not> cw_hired s then Inl NotHired
      else if cw_retired s then Inl RetiredErr
      else Inr ())"

text \<open>A role trimmed, and none when nothing is left of it.\<close>

definition tidy_role :: "string option \<Rightarrow> string option" where
  "tidy_role r =
     (case map_option trim r of
        Some t \<Rightarrow> if t = [] then None else Some t
      | None \<Rightarrow> None)"

fun coworker_decide :: "coworker \<Rightarrow> coworker_command \<Rightarrow> coworker_error + coworker_event list" where
  "coworker_decide s (Hire n m at) =
     rbind (ok_or (non_blank m) EmptyModel) (\<lambda>pin. Inr [Hired n pin at])"
| "coworker_decide s (Repin m at) =
     rbind (coworker_alive s) (\<lambda>_.
     rbind (ok_or (non_blank m) EmptyModel) (\<lambda>pin. Inr [Repinned pin at]))"
| "coworker_decide s (SetEffort e at) = rbind (coworker_alive s) (\<lambda>_. Inr [EffortSet e at])"
| "coworker_decide s (SetSource k at) = rbind (coworker_alive s) (\<lambda>_. Inr [SourceSet k at])"
| "coworker_decide s (Rename n at) = rbind (coworker_alive s) (\<lambda>_. Inr [Renamed n at])"
| "coworker_decide s (SetRole r at) =
     rbind (coworker_alive s) (\<lambda>_.
     let role = tidy_role r in
     if (case role of Some t \<Rightarrow> chars_count t > max_role_chars | None \<Rightarrow> False)
     then Inl RoleTooLong
     else Inr [RoleSet role at])"
| "coworker_decide s (SetVisibility v at) =
     rbind (coworker_alive s) (\<lambda>_. Inr [VisibilitySet v at])"
| "coworker_decide s (AssignComputer b mode at) =
     rbind (coworker_alive s) (\<lambda>_.
     if cw_box_id s \<noteq> None then Inl AlreadyHasComputer
     else Inr [ComputerAssigned b mode at])"
| "coworker_decide s (ReleaseComputer at) =
     rbind (coworker_alive s) (\<lambda>_.
     if cw_box_id s = None then Inl NoComputer
     else if cw_box_mode s = Some SharedBox then Inl SharedComputer
     else Inr [ComputerReleased at])"
| "coworker_decide s (Retire at) = rbind (coworker_alive s) (\<lambda>_. Inr [CoworkerRetired at])"
| "coworker_decide s (HireGroup n ms at) =
     rbind (member_list ms) (\<lambda>members. Inr [GroupHired n members at])"
| "coworker_decide s (SetMembers ms at) =
     rbind (coworker_alive s) (\<lambda>_.
     if \<not> is_group s then Inl NotAGroup
     else rbind (member_list ms) (\<lambda>members. Inr [MembersSet members at]))"

text \<open>\<open>born_on\<close>: the door and the effort of the owner's default, decided and then applied; the
  coworker it changes is the first of the pair.\<close>

definition born_on ::
  "coworker \<Rightarrow> new_bot_default_t \<Rightarrow> int \<Rightarrow> coworker_error + coworker \<times> coworker_event list" where
  "born_on s d at =
     rbind (coworker_decide s (SetSource (Some (nb_source d)) at)) (\<lambda>es1.
     rbind (coworker_decide s (SetEffort (nb_effort d) at)) (\<lambda>es2.
     Inr (foldl coworker_apply s (es1 @ es2), es1 @ es2)))"

record coworker_view =
  cv_id :: coworker_id
  cv_name :: string
  cv_model :: string
  cv_box_id :: "box_id option"
  cv_retired :: bool
  cv_updated_at_ms :: int
  cv_members :: "coworker_id list"
  cv_role :: "string option"
  cv_visibility :: visibility
  cv_effort :: effort
  cv_source :: "source_kind option"

definition coworker_view_of :: "coworker_id \<Rightarrow> coworker \<Rightarrow> int \<Rightarrow> coworker_view" where
  "coworker_view_of i s at =
     \<lparr>cv_id = i, cv_name = cw_name s, cv_model = cw_model s, cv_box_id = cw_box_id s,
      cv_retired = cw_retired s, cv_updated_at_ms = at, cv_members = cw_members s,
      cv_role = cw_role s, cv_visibility = cw_visibility s, cv_effort = cw_effort s,
      cv_source = cw_source s\<rparr>"

section \<open>Members\<close>

lemma dedup_set: "set (dedup seen ms) = set seen \<union> set ms"
  by (induction ms arbitrary: seen) auto

lemma dedup_distinct: "distinct seen \<Longrightarrow> distinct (dedup seen ms)"
  by (induction ms arbitrary: seen) auto

lemma member_list_Inr:
  "member_list ms = Inr xs \<longleftrightarrow> xs = dedup [] ms \<and> ms \<noteq> [] \<and> length xs \<le> group_max_members"
proof -
  have "dedup [] ms = [] \<longleftrightarrow> ms = []" using dedup_set [of "[]" ms] by (metis set_empty sup_bot_left)
  then show ?thesis by (auto simp: member_list_def Let_def)
qed

section \<open>What each event finds\<close>

lemma coworker_alive_Inr [simp]: "coworker_alive s = Inr u \<longleftrightarrow> cw_hired s \<and> \<not> cw_retired s"
  by (auto simp: coworker_alive_def)

text \<open>The state and the values an event of a coworker's log was written on.\<close>

fun coworker_allowed :: "coworker \<Rightarrow> coworker_event \<Rightarrow> bool" where
  "coworker_allowed s (Hired n m at) \<longleftrightarrow> m \<noteq> [] \<and> trim m = m"
| "coworker_allowed s (GroupHired n ms at) \<longleftrightarrow>
     ms \<noteq> [] \<and> distinct ms \<and> length ms \<le> group_max_members"
| "coworker_allowed s (Repinned m at) \<longleftrightarrow>
     cw_hired s \<and> \<not> cw_retired s \<and> m \<noteq> [] \<and> trim m = m"
| "coworker_allowed s (RoleSet r at) \<longleftrightarrow>
     cw_hired s \<and> \<not> cw_retired s \<and>
     pred_option (\<lambda>t. t \<noteq> [] \<and> trim t = t \<and> chars_count t \<le> max_role_chars) r"
| "coworker_allowed s (ComputerAssigned b mode at) \<longleftrightarrow>
     cw_hired s \<and> \<not> cw_retired s \<and> cw_box_id s = None"
| "coworker_allowed s (ComputerReleased at) \<longleftrightarrow>
     cw_hired s \<and> \<not> cw_retired s \<and> cw_box_id s \<noteq> None \<and> cw_box_mode s \<noteq> Some SharedBox"
| "coworker_allowed s (MembersSet ms at) \<longleftrightarrow>
     cw_hired s \<and> \<not> cw_retired s \<and> is_group s \<and>
     ms \<noteq> [] \<and> distinct ms \<and> length ms \<le> group_max_members"
| "coworker_allowed s e \<longleftrightarrow> cw_hired s \<and> \<not> cw_retired s"

lemma tidy_role_ok: "pred_option (\<lambda>t. t \<noteq> [] \<and> trim t = t) (tidy_role r)"
  by (auto simp: tidy_role_def split: option.splits)

lemma coworker_decide_guarded:
  assumes "coworker_decide s c = Inr es"
  shows "guarded coworker_apply coworker_allowed s es"
proof (cases c)
  case (SetRole r at)
  with assms tidy_role_ok [of r] show ?thesis
    by (auto simp: Let_def not_less split: option.splits if_splits)
next
  case (HireGroup n ms at)
  with assms show ?thesis
    using dedup_distinct [of "[]" ms] dedup_set [of "[]" ms]
    by (auto simp: member_list_Inr)
next
  case (SetMembers ms at)
  with assms show ?thesis
    using dedup_distinct [of "[]" ms] dedup_set [of "[]" ms]
    by (auto simp: member_list_Inr split: if_splits)
qed (use assms in \<open>auto split: if_splits\<close>)

interpretation coworker_guard: event_guard coworker_default coworker_apply coworker_decide coworker_allowed
  by unfold_locales (rule coworker_decide_guarded)

abbreviation coworker_history :: "coworker \<Rightarrow> coworker_event list \<Rightarrow> bool" where
  "coworker_history \<equiv> history coworker_default coworker_apply coworker_decide"

definition coworker_wf :: "coworker \<Rightarrow> bool" where
  "coworker_wf s \<longleftrightarrow>
     (cw_box_id s = None \<longleftrightarrow> cw_box_mode s = None) \<and>
     (cw_hired s \<longrightarrow> cw_model s \<noteq> [] \<and> trim (cw_model s) = cw_model s) \<and>
     distinct (cw_members s) \<and> length (cw_members s) \<le> group_max_members \<and>
     pred_option (\<lambda>t. t \<noteq> [] \<and> trim t = t \<and> chars_count t \<le> max_role_chars) (cw_role s)"

lemma trim_group: "trim ''group'' = ''group''"
  by code_simp

lemma coworker_wf_step: "coworker_wf s \<Longrightarrow> coworker_allowed s e \<Longrightarrow> coworker_wf (coworker_apply s e)"
  by (cases e) (auto simp: coworker_wf_def trim_group)

lemma coworker_wf_history: "coworker_history s log \<Longrightarrow> coworker_wf s"
  by (rule coworker_guard.history_inv [where P = coworker_wf])
    (auto simp: coworker_wf_step, simp add: coworker_wf_def coworker_default_def)

interpretation coworker_retired: absorbing coworker_apply coworker_decide cw_retired
proof unfold_locales
  fix s c es
  assume "cw_retired s" "coworker_decide s c = Inr es"
  moreover have "cw_retired s \<Longrightarrow> cw_retired (coworker_apply s e)" for s e
    by (cases e) auto
  ultimately show "cw_retired (foldl coworker_apply s es)"
    using guarded_fold_inv [OF coworker_decide_guarded, of s c es cw_retired] by blast
qed

fun is_hire :: "coworker_command \<Rightarrow> bool" where
  "is_hire (Hire _ _ _) = True"
| "is_hire (HireGroup _ _ _) = True"
| "is_hire _ = False"

interpretation coworker_sealed:
  sealed coworker_apply coworker_decide "\<lambda>s. cw_retired s \<or> \<not> cw_hired s" is_hire
proof unfold_locales
  fix s :: coworker and c
  assume "cw_retired s \<or> \<not> cw_hired s" "\<not> is_hire c"
  then show "refuses coworker_decide s c"
    by (cases c) (auto simp: refuses_def is_ok_iff)
qed

section \<open>Properties\<close>

text \<open>Every coworker any sequence of accepted commands can reach is well formed: it has a box
  exactly when it has a mode, a hired one has a model that is not blank, its members are
  distinct and at most \<open>GROUP_MAX_MEMBERS\<close>, and a role is trimmed, not blank and at most
  \<open>MAX_ROLE_CHARS\<close> characters.\<close>

theorem coworker_reachable_wf:
  assumes "coworker_history s log"
  shows "coworker_wf s"
  using assms by (rule coworker_wf_history)

theorem coworker_reachable_wf_witness:
  "coworker_wf (coworker_replay [Hired ''Ada'' ''xai/grok-4.6'' 1, ComputerAssigned (BoxId ''b'') Dedicated 2])"
proof -
  have "handle_all coworker_apply coworker_decide coworker_default
      [Hire ''Ada'' '' xai/grok-4.6'' 1, AssignComputer (BoxId ''b'') Dedicated 2] =
    (coworker_replay [Hired ''Ada'' ''xai/grok-4.6'' 1, ComputerAssigned (BoxId ''b'') Dedicated 2],
     [Hired ''Ada'' ''xai/grok-4.6'' 1, ComputerAssigned (BoxId ''b'') Dedicated 2])"
    by code_simp
  from coworker_reachable_wf [OF handle_all_history [OF this]] show ?thesis .
qed

text \<open>No computer is ever stranded or taken from the others. Wherever an assignment stands in
  a coworker's log, the coworker had no box before it; wherever a release stands, the box
  released was the coworker's own, never a shared one; and neither was written for a coworker
  not hired or retired.\<close>

theorem computer_never_stranded:
  assumes "coworker_history s log"
  shows "(log = pre @ ComputerAssigned b mode at # post \<longrightarrow>
      cw_box_id (coworker_replay pre) = None \<and> coworker_alive (coworker_replay pre) = Inr ()) \<and>
    (log = pre @ ComputerReleased at # post \<longrightarrow>
      cw_box_mode (coworker_replay pre) = Some Dedicated \<and>
      coworker_alive (coworker_replay pre) = Inr ())"
proof (intro conjI impI)
  note guarded = coworker_guard.history_guarded [OF assms]
  assume "log = pre @ ComputerAssigned b mode at # post"
  then have "coworker_allowed (coworker_replay pre) (ComputerAssigned b mode at)"
    using guarded guarded_at unfolding coworker_replay_def by fast
  then show "cw_box_id (coworker_replay pre) = None" "coworker_alive (coworker_replay pre) = Inr ()"
    by simp_all
next
  assume log: "log = pre @ ComputerReleased at # post"
  note guarded = coworker_guard.history_guarded [OF assms]
  have allowed: "coworker_allowed (coworker_replay pre) (ComputerReleased at)"
    using guarded guarded_at unfolding log coworker_replay_def by fast
  then show "coworker_alive (coworker_replay pre) = Inr ()" by simp
  have "guarded coworker_apply coworker_allowed coworker_default pre"
    using guarded by (simp add: log guarded_append)
  then have "coworker_wf (coworker_replay pre)"
    unfolding coworker_replay_def
    by (rule guarded_fold_inv) (auto simp: coworker_wf_step, simp add: coworker_wf_def coworker_default_def)
  with allowed show "cw_box_mode (coworker_replay pre) = Some Dedicated"
    by (cases "cw_box_mode (coworker_replay pre)") (auto simp: coworker_wf_def intro: box_mode.exhaust)
qed

theorem computer_never_stranded_witness:
  "cw_box_mode (coworker_replay [Hired ''Ada'' ''m'' 1, ComputerAssigned (BoxId ''b'') Dedicated 2])
     = Some Dedicated"
proof -
  let ?pre = "[Hired ''Ada'' ''m'' 1, ComputerAssigned (BoxId ''b'') Dedicated 2]"
  have "handle_all coworker_apply coworker_decide coworker_default
      [Hire ''Ada'' ''m'' 1, AssignComputer (BoxId ''b'') Dedicated 2, ReleaseComputer 3] =
    (coworker_replay (?pre @ [ComputerReleased 3]), ?pre @ [ComputerReleased 3])"
    by code_simp
  from computer_never_stranded [OF handle_all_history [OF this], of ?pre "BoxId ''b''" Dedicated 3 "[]"]
  show ?thesis by simp
qed

text \<open>A retired coworker stays retired whatever is asked of it, and until somebody hires under
  its id again every command is refused and its row does not change at all.\<close>

theorem retired_for_good:
  assumes "cw_retired s" and "handle_all coworker_apply coworker_decide s cs = (t, log)"
  shows "cw_retired t \<and> (list_all (\<lambda>c. \<not> is_hire c) cs \<longrightarrow> t = s \<and> log = [])"
  using assms coworker_retired.ended_forever [OF assms] coworker_sealed.sealed_state [of s cs]
  by auto

theorem retired_for_good_witness:
  "\<exists>t log. handle_all coworker_apply coworker_decide (coworker_replay [Hired ''Ada'' ''m'' 1, CoworkerRetired 2])
      [Rename ''Bob'' 3, Hire ''Bob'' ''m'' 4] = (t, log) \<and> cw_retired t"
proof -
  have "cw_retired (coworker_replay [Hired ''Ada'' ''m'' 1, CoworkerRetired 2])"
    by (simp add: coworker_replay_def)
  with retired_for_good show ?thesis by (meson surj_pair)
qed

text \<open>A coworker born on its owner's default for new bots is on it. From a coworker that is
  alive, both events are decided and applied, the row shows the default's door and effort, and
  everything else on the row is as the hire left it.\<close>

theorem born_on_default:
  assumes "coworker_alive s = Inr ()"
  shows "\<exists>t es. born_on s d at = Inr (t, es) \<and> t = foldl coworker_apply s es \<and>
    coworker_view_of i t now =
      (coworker_view_of i s now)\<lparr>cv_effort := nb_effort d, cv_source := Some (nb_source d)\<rparr>"
  using assms by (simp add: born_on_def coworker_view_of_def)

theorem born_on_default_witness:
  "\<exists>t es. born_on (coworker_replay [Hired ''Ada'' ''m'' 1])
      \<lparr>nb_source = LocalProxy, nb_model = ''gpt-6'', nb_effort = High\<rparr> 2 = Inr (t, es) \<and>
    cv_effort (coworker_view_of (CoworkerId ''c'') t 2) = High"
proof -
  have "coworker_alive (coworker_replay [Hired ''Ada'' ''m'' 1]) = Inr ()"
    by (simp add: coworker_replay_def coworker_default_def)
  from born_on_default [OF this, of "\<lparr>nb_source = LocalProxy, nb_model = ''gpt-6'', nb_effort = High\<rparr>"
      2 "CoworkerId ''c''" 2]
  show ?thesis by fastforce
qed

end
