(* ===== verification/BTree_Map.thy ===== *)
theory BTree_Map
  imports Prelude
begin

text \<open>
  The standard library's \<open>BTreeMap\<close> as the code sees it: entries in key order, one per key.
  Iteration order matters where the code takes the first entry that matches (a session by its
  token) or lists the values (the tools an interruption caught), so the model is the list of
  entries itself, kept sorted by \<open>insert\<close> and \<open>remove\<close>.

  The locale \<open>ordered_map\<close> is the contract the aggregates rely on; the interpretation
  \<open>bt\<close> discharges it for the sorted lists.
\<close>

type_synonym ('k, 'v) bmap = "('k \<times> 'v) list"

fun bm_insert :: "'k::linorder \<Rightarrow> 'v \<Rightarrow> ('k, 'v) bmap \<Rightarrow> ('k, 'v) bmap" where
  "bm_insert k v [] = [(k, v)]"
| "bm_insert k v ((k', v') # m) =
     (if k < k' then (k, v) # (k', v') # m
      else if k = k' then (k, v) # m
      else (k', v') # bm_insert k v m)"

fun bm_remove :: "'k::linorder \<Rightarrow> ('k, 'v) bmap \<Rightarrow> ('k, 'v) bmap" where
  "bm_remove k [] = []"
| "bm_remove k ((k', v') # m) = (if k = k' then m else (k', v') # bm_remove k m)"

text \<open>\<open>get_mut\<close> followed by an update of the entry: nothing when the key is absent.\<close>

fun bm_modify :: "'k::linorder \<Rightarrow> ('v \<Rightarrow> 'v) \<Rightarrow> ('k, 'v) bmap \<Rightarrow> ('k, 'v) bmap" where
  "bm_modify k f [] = []"
| "bm_modify k f ((k', v') # m) = (if k = k' then (k', f v') # m else (k', v') # bm_modify k f m)"

definition bm_get :: "('k, 'v) bmap \<Rightarrow> 'k \<Rightarrow> 'v option" where
  "bm_get m k = map_of m k"

text \<open>\<open>extend\<close>: insert every pair in turn.\<close>

definition bm_extend :: "('k::linorder \<times> 'v) list \<Rightarrow> ('k, 'v) bmap \<Rightarrow> ('k, 'v) bmap" where
  "bm_extend kvs m = foldl (\<lambda>m (k, v). bm_insert k v m) m kvs"

definition bm_ordered :: "('k::linorder, 'v) bmap \<Rightarrow> bool" where
  "bm_ordered m \<longleftrightarrow> sorted_wrt (<) (map fst m)"

lemma bm_ordered_Nil [simp]: "bm_ordered []"
  by (simp add: bm_ordered_def)

lemma bm_ordered_Cons: "bm_ordered (kv # m) \<longleftrightarrow> (\<forall>k\<in>fst ` set m. fst kv < k) \<and> bm_ordered m"
  by (simp add: bm_ordered_def)

lemma bm_insert_keys: "fst ` set (bm_insert k v m) = insert k (fst ` set m)"
  by (induction m rule: bm_insert.induct) auto

lemma bm_remove_subset: "set (bm_remove k m) \<subseteq> set m"
  by (induction m) (auto split: if_splits)

lemma bm_modify_keys: "map fst (bm_modify k f m) = map fst m"
  by (induction m) auto

lemma bm_ordered_insert: "bm_ordered m \<Longrightarrow> bm_ordered (bm_insert k v m)"
  by (induction m rule: bm_insert.induct)
    (auto simp: bm_ordered_Cons bm_insert_keys ball_Un dest: order.strict_trans)

lemma bm_ordered_remove: "bm_ordered m \<Longrightarrow> bm_ordered (bm_remove k m)"
proof (induction m)
  case (Cons kv m)
  then show ?case
    using bm_remove_subset [of k m] by (cases kv) (auto simp: bm_ordered_Cons)
qed simp

lemma bm_ordered_modify: "bm_ordered m \<Longrightarrow> bm_ordered (bm_modify k f m)"
  by (simp add: bm_ordered_def bm_modify_keys)

lemma bm_get_insert: "bm_ordered m \<Longrightarrow> bm_get (bm_insert k v m) = (bm_get m)(k \<mapsto> v)"
  by (induction m rule: bm_insert.induct)
    (auto simp: bm_get_def fun_eq_iff bm_ordered_Cons)

lemma bm_get_None: "bm_ordered m \<Longrightarrow> (\<forall>k'\<in>fst ` set m. k < k') \<Longrightarrow> bm_get m k = None"
  by (force simp: bm_get_def map_of_eq_None_iff)

lemma bm_get_remove: "bm_ordered m \<Longrightarrow> bm_get (bm_remove k m) = (bm_get m)(k := None)"
proof (induction m)
  case (Cons kv m)
  obtain k' v where kv: "kv = (k', v)" by fastforce
  have "bm_get m k' = None"
    using Cons.prems kv by (auto simp: bm_ordered_Cons intro!: bm_get_None)
  with Cons kv show ?case by (auto simp: bm_get_def fun_eq_iff bm_ordered_Cons)
qed (simp add: bm_get_def fun_eq_iff)

lemma bm_get_modify: "bm_get (bm_modify k f m) = (bm_get m)(k := map_option f (bm_get m k))"
  by (induction m) (auto simp: bm_get_def fun_eq_iff)

lemma bm_get_ordered_iff:
  assumes "bm_ordered m"
  shows "bm_get m k = Some v \<longleftrightarrow> (k, v) \<in> set m"
proof -
  have "distinct (map fst m)"
    using assms by (auto simp: bm_ordered_def strict_sorted_iff)
  then show ?thesis by (simp add: bm_get_def)
qed

lemma bm_ordered_extend: "bm_ordered m \<Longrightarrow> bm_ordered (bm_extend kvs m)"
  by (induction kvs arbitrary: m) (auto simp: bm_extend_def bm_ordered_insert)

lemma bm_extend_Nil [simp]: "bm_extend [] m = m"
  by (simp add: bm_extend_def)

lemma bm_extend_Cons [simp]: "bm_extend ((k, v) # kvs) m = bm_extend kvs (bm_insert k v m)"
  by (simp add: bm_extend_def)

lemma bm_get_extend:
  "bm_ordered m \<Longrightarrow> bm_get (bm_extend kvs m) = bm_get m ++ map_of (rev kvs)"
proof (induction kvs arbitrary: m)
  case (Cons kv kvs)
  obtain k v where kv: "kv = (k, v)" by fastforce
  have "bm_get (bm_extend kvs (bm_insert k v m)) = bm_get (bm_insert k v m) ++ map_of (rev kvs)"
    using Cons by (simp add: bm_ordered_insert)
  then show ?case
    using Cons.prems kv by (simp add: bm_get_insert map_add_assoc [symmetric])
qed simp

locale ordered_map =
  fixes empty :: 'm
    and insert_m :: "'k::linorder \<Rightarrow> 'v \<Rightarrow> 'm \<Rightarrow> 'm"
    and remove_m :: "'k \<Rightarrow> 'm \<Rightarrow> 'm"
    and get :: "'m \<Rightarrow> 'k \<Rightarrow> 'v option"
    and entries :: "'m \<Rightarrow> ('k \<times> 'v) list"
    and invar :: "'m \<Rightarrow> bool"
  assumes get_empty: "get empty = Map.empty"
    and get_insert: "invar m \<Longrightarrow> get (insert_m k v m) = (get m)(k \<mapsto> v)"
    and get_remove: "invar m \<Longrightarrow> get (remove_m k m) = (get m)(k := None)"
    and entries_get: "invar m \<Longrightarrow> (k, v) \<in> set (entries m) \<longleftrightarrow> get m k = Some v"
    and entries_sorted: "invar m \<Longrightarrow> sorted_wrt (<) (map fst (entries m))"
    and invar_empty: "invar empty"
    and invar_insert: "invar m \<Longrightarrow> invar (insert_m k v m)"
    and invar_remove: "invar m \<Longrightarrow> invar (remove_m k m)"
begin

lemma get_insert_same: "invar m \<Longrightarrow> get (insert_m k v m) k = Some v"
  by (simp add: get_insert)

lemma get_insert_other: "invar m \<Longrightarrow> k' \<noteq> k \<Longrightarrow> get (insert_m k v m) k' = get m k'"
  by (simp add: get_insert)

lemma remove_insert: "invar m \<Longrightarrow> get m k = None \<Longrightarrow> get (remove_m k (insert_m k v m)) = get m"
  by (simp add: get_insert get_remove invar_insert fun_upd_idem)

lemma entries_empty_iff: "invar m \<Longrightarrow> entries m = [] \<longleftrightarrow> get m = Map.empty"
proof
  assume "invar m" "get m = Map.empty"
  then have "kv \<notin> set (entries m)" for kv using entries_get [of m "fst kv" "snd kv"] by simp
  then show "entries m = []" by (cases "entries m") auto
qed (use entries_get in fastforce)

lemma entries_distinct: "invar m \<Longrightarrow> distinct (map fst (entries m))"
  using entries_sorted strict_sorted_iff by blast

end

interpretation bt: ordered_map "[]" bm_insert bm_remove bm_get "\<lambda>m. m" bm_ordered
proof unfold_locales
  show "bm_get [] = Map.empty" by (simp add: bm_get_def fun_eq_iff)
qed (auto simp: bm_get_insert bm_get_remove bm_get_ordered_iff bm_ordered_insert bm_ordered_remove
  bm_ordered_def [symmetric])

end
