(* ===== verification/Run.thy ===== *)
theory Run
  imports Vocabulary Limits BTree_Map Event_Sourcing
begin

text \<open>
  \<open>opengrok-core/src/run.rs\<close>: the run aggregate, one turn a coworker takes. The state is the
  fold of the log (\<open>run_apply\<close>, \<open>run_replay\<close>); \<open>run_decide\<close> is the one place
  that says what may be appended. A field's name is the source's behind \<open>run_\<close>; the fields of
  \<open>RunEvent::Started\<close> and \<open>RunCommand::Start\<close> are records of their own. Time stamps
  are \<open>int\<close>, a generation the \<open>u32\<close> it is, the two round counts \<open>nat\<close> (a log of
  2 to the 64 events would be needed to wrap the \<open>usize\<close>).

  The open tools are a sorted map, since an interruption lists their names in key order.
\<close>

section \<open>Statuses, reasons and their words\<close>

datatype run_status = Running | AwaitingApproval | Finished | Failed | Stopped

fun is_terminal :: "run_status \<Rightarrow> bool" where
  "is_terminal Finished = True"
| "is_terminal Failed = True"
| "is_terminal Stopped = True"
| "is_terminal _ = False"

fun run_status_as_str :: "run_status \<Rightarrow> string" where
  "run_status_as_str Running = ''running''"
| "run_status_as_str AwaitingApproval = ''awaiting-approval''"
| "run_status_as_str Finished = ''finished''"
| "run_status_as_str Failed = ''failed''"
| "run_status_as_str Stopped = ''stopped''"

definition run_status_from_stored :: "string \<Rightarrow> run_status" where
  "run_status_from_stored w =
     (if w = ''awaiting-approval'' then AwaitingApproval
      else if w = ''finished'' then Finished
      else if w = ''failed'' then Failed
      else if w = ''stopped'' then Stopped
      else Running)"

fun history_word :: "run_status \<Rightarrow> string" where
  "history_word Running = ''running''"
| "history_word AwaitingApproval = ''waiting''"
| "history_word Finished = ''ok''"
| "history_word Failed = ''error''"
| "history_word Stopped = ''error''"

datatype finish_reason = Budget

fun finish_reason_as_str :: "finish_reason \<Rightarrow> string" where
  "finish_reason_as_str Budget = ''budget''"

definition finish_reason_parse :: "string \<Rightarrow> finish_reason option" where
  "finish_reason_parse w = (if w = ''budget'' then Some Budget else None)"

datatype suspend_reason = ExecConsent | PolicyApproval | AutoReview | UserForm

fun suspend_reason_as_str :: "suspend_reason \<Rightarrow> string" where
  "suspend_reason_as_str ExecConsent = ''exec-consent''"
| "suspend_reason_as_str PolicyApproval = ''policy-approval''"
| "suspend_reason_as_str AutoReview = ''auto-review''"
| "suspend_reason_as_str UserForm = ''user-form''"

definition suspend_reason_from_stored :: "string \<Rightarrow> suspend_reason" where
  "suspend_reason_from_stored w =
     (if w = ''policy-approval'' then PolicyApproval
      else if w = ''auto-review'' then AutoReview
      else if w = ''user-form'' then UserForm
      else ExecConsent)"

section \<open>Events, state and commands\<close>

datatype round_kind = Spoken | OnScreen

record round_spent =
  sp_recipes :: "string list"
  sp_round :: "round_kind option"

definition round_spent_is_empty :: "round_spent \<Rightarrow> bool" where
  "round_spent_is_empty sp \<longleftrightarrow> sp_recipes sp = [] \<and> sp_round sp = None"

record started_tool =
  st_call_id :: string
  st_tool :: string

record offered_skill =
  os_id :: string
  os_name :: string

record run_started =
  sd_thread_id :: string
  sd_coworker_id :: "coworker_id option"
  sd_model :: "string option"
  sd_effort :: effort
  sd_inference_source :: source_kind
  sd_inference_via :: "via option"
  sd_system :: "string option"
  sd_skill_id :: "string option"
  sd_offered_skills :: "offered_skill list"
  sd_prompt :: "json list option"
  sd_limits :: run_limits
  sd_at_ms :: int

datatype run_event =
    RunStarted run_started
  | Emitted int json int
  | Suspended string string json suspend_reason int
  | Answered string bool string int
  | RunFinished int "finish_reason option"
  | RunFailed string int
  | RunStopped string int
  | ToolStarted "started_tool list" int
  | Resumed "32 word" string int
  | Spent "string list" "round_kind option" int

fun run_event_type :: "run_event \<Rightarrow> string" where
  "run_event_type (RunStarted _) = ''run-started''"
| "run_event_type (Emitted _ _ _) = ''run-emitted''"
| "run_event_type (Suspended _ _ _ _ _) = ''run-suspended''"
| "run_event_type (Answered _ _ _ _) = ''run-answered''"
| "run_event_type (RunFinished _ _) = ''run-finished''"
| "run_event_type (RunFailed _ _) = ''run-failed''"
| "run_event_type (RunStopped _ _) = ''run-stopped''"
| "run_event_type (ToolStarted _ _) = ''run-tool-started''"
| "run_event_type (Resumed _ _ _) = ''run-resumed''"
| "run_event_type (Spent _ _ _) = ''run-spent''"

record pending_approval =
  pa_call_id :: string
  pa_tool :: string
  pa_arguments :: json
  pa_reason :: suspend_reason

record answered_call =
  ac_call :: pending_approval
  ac_approved :: bool

record run =
  run_started_flag :: bool
  run_thread_id :: string
  run_coworker_id :: "coworker_id option"
  run_model :: "string option"
  run_effort :: effort
  run_inference_source :: source_kind
  run_inference_via :: "via option"
  run_system :: "string option"
  run_skill_id :: "string option"
  run_offered_skills :: "offered_skill list"
  run_prompt :: "json list option"
  run_limits_of :: run_limits
  run_status :: run_status
  run_emitted :: "json list"
  run_failure :: "string option"
  run_finish_reason :: "finish_reason option"
  run_stopped_by :: "string option"
  run_pending :: "pending_approval option"
  run_answered :: "string set"
  run_open_tools :: "(string, string) bmap"
  run_generation :: "32 word"
  run_unstarted_answer :: "answered_call option"
  run_played_recipes :: "string set"
  run_rounds_spent :: "nat \<times> nat"

definition run_default :: run where
  "run_default =
     \<lparr>run_started_flag = False, run_thread_id = [], run_coworker_id = None, run_model = None,
      run_effort = Inherit, run_inference_source = Gateway, run_inference_via = None,
      run_system = None, run_skill_id = None, run_offered_skills = [], run_prompt = None,
      run_limits_of = run_limits_default, run_status = Running, run_emitted = [],
      run_failure = None, run_finish_reason = None, run_stopped_by = None, run_pending = None,
      run_answered = {}, run_open_tools = [], run_generation = 0, run_unstarted_answer = None,
      run_played_recipes = {}, run_rounds_spent = (0, 0)\<rparr>"

datatype run_error =
    AlreadyEnded
  | NotStarted
  | NotAwaiting
  | AlreadyAnswered
  | AlreadyStarted
  | ToolOutcomeUnknown "string list"
  | ResumedTooOften
  | WaitingOnAPerson

definition max_resumes :: "32 word" where
  "max_resumes = 2"

record run_start =
  sc_thread_id :: string
  sc_coworker_id :: "coworker_id option"
  sc_model :: "string option"
  sc_effort :: effort
  sc_inference_source :: turn_source
  sc_system :: "string option"
  sc_skill_id :: "string option"
  sc_offered_skills :: "offered_skill list"
  sc_prompt :: "json list option"
  sc_limits :: run_limits
  sc_at_ms :: int

datatype run_command =
    Start run_start
  | Emit json int
  | Finish int "finish_reason option"
  | Fail string int
  | StartTools "started_tool list" int
  | RecordSpent round_spent int
  | Resume string int
  | Suspend string string json suspend_reason int
  | Stop string int
  | Answer string bool string int

section \<open>Applying an event\<close>

definition apply_started :: "run \<Rightarrow> run_started \<Rightarrow> run" where
  "apply_started s d =
     s\<lparr>run_started_flag := True, run_thread_id := sd_thread_id d,
       run_coworker_id := sd_coworker_id d, run_model := sd_model d, run_effort := sd_effort d,
       run_inference_source := sd_inference_source d, run_inference_via := sd_inference_via d,
       run_system := sd_system d, run_skill_id := sd_skill_id d,
       run_offered_skills := sd_offered_skills d, run_prompt := sd_prompt d,
       run_limits_of := sd_limits d, run_status := Running\<rparr>"

text \<open>The call a frame closes: a \<open>TOOL_CALL_RESULT\<close>'s \<open>toolCallId\<close>.\<close>

definition closed_call :: "json \<Rightarrow> string option" where
  "closed_call payload =
     (if str_at payload ''type'' = Some ''TOOL_CALL_RESULT'' then str_at payload ''toolCallId''
      else None)"

text \<open>An answer is no longer unstarted once one of the given calls is on record.\<close>

definition settle_answer :: "string list \<Rightarrow> answered_call option \<Rightarrow> answered_call option" where
  "settle_answer calls a =
     (case a of
        Some ac \<Rightarrow> if pa_call_id (ac_call ac) \<in> set calls then None else Some ac
      | None \<Rightarrow> None)"

definition apply_emitted :: "run \<Rightarrow> json \<Rightarrow> run" where
  "apply_emitted s payload =
     (let t = (case closed_call payload of
                 Some call \<Rightarrow>
                   s\<lparr>run_open_tools := bm_remove call (run_open_tools s),
                     run_unstarted_answer := settle_answer [call] (run_unstarted_answer s)\<rparr>
               | None \<Rightarrow> s)
      in t\<lparr>run_emitted := run_emitted t @ [payload]\<rparr>)"

definition apply_tool_started :: "run \<Rightarrow> started_tool list \<Rightarrow> run" where
  "apply_tool_started s tools =
     s\<lparr>run_unstarted_answer := settle_answer (map st_call_id tools) (run_unstarted_answer s),
       run_open_tools :=
         bm_extend (map (\<lambda>t. (st_call_id t, st_tool t)) tools) (run_open_tools s)\<rparr>"

definition count_round :: "round_kind option \<Rightarrow> nat \<times> nat \<Rightarrow> nat \<times> nat" where
  "count_round k n =
     (case k of
        Some Spoken \<Rightarrow> (fst n + 1, snd n)
      | Some OnScreen \<Rightarrow> (fst n, snd n + 1)
      | None \<Rightarrow> n)"

definition apply_answered :: "run \<Rightarrow> string \<Rightarrow> bool \<Rightarrow> run" where
  "apply_answered s call yes =
     s\<lparr>run_answered := insert call (run_answered s),
       run_unstarted_answer :=
         (case run_pending s of
            Some p \<Rightarrow> if pa_call_id p = call then Some \<lparr>ac_call = p, ac_approved = yes\<rparr> else None
          | None \<Rightarrow> None),
       run_pending := None,
       run_status := Running\<rparr>"

fun run_apply :: "run \<Rightarrow> run_event \<Rightarrow> run" where
  "run_apply s (RunStarted d) = apply_started s d"
| "run_apply s (Emitted i payload at) = apply_emitted s payload"
| "run_apply s (ToolStarted tools at) = apply_tool_started s tools"
| "run_apply s (Spent recipes k at) =
     s\<lparr>run_played_recipes := run_played_recipes s \<union> set recipes,
       run_rounds_spent := count_round k (run_rounds_spent s)\<rparr>"
| "run_apply s (Resumed g why at) = s\<lparr>run_generation := g\<rparr>"
| "run_apply s (Suspended call tool args why at) =
     s\<lparr>run_status := AwaitingApproval,
       run_pending :=
         Some \<lparr>pa_call_id = call, pa_tool = tool, pa_arguments = args, pa_reason = why\<rparr>\<rparr>"
| "run_apply s (Answered call yes by_whom at) = apply_answered s call yes"
| "run_apply s (RunFinished at why) = s\<lparr>run_status := Finished, run_finish_reason := why\<rparr>"
| "run_apply s (RunFailed why at) = s\<lparr>run_status := Failed, run_failure := Some why\<rparr>"
| "run_apply s (RunStopped by_whom at) =
     s\<lparr>run_status := Stopped, run_stopped_by := Some by_whom, run_pending := None\<rparr>"

definition run_replay :: "run_event list \<Rightarrow> run" where
  "run_replay es = foldl run_apply run_default es"

section \<open>What a resume reads\<close>

definition next_seq :: "run \<Rightarrow> int" where
  "next_seq s = int (length (run_emitted s))"

definition system_for_resume :: "run \<Rightarrow> string option" where
  "system_for_resume s =
     (case run_system s of Some t \<Rightarrow> if t = [] then None else Some t | None \<Rightarrow> None)"

definition source_for_resume :: "run \<Rightarrow> turn_source" where
  "source_for_resume s =
     \<lparr>ts_kind = run_inference_source s,
      ts_via = (if run_inference_source s = LocalProxy
                then Some (case run_inference_via s of Some w \<Rightarrow> w | None \<Rightarrow> via_default)
                else None)\<rparr>"

definition pin_for_resume :: "run \<Rightarrow> string \<Rightarrow> string" where
  "pin_for_resume s current =
     (case run_model s of Some p \<Rightarrow> if p = [] then current else p | None \<Rightarrow> current)"

text \<open>\<open>last_answer\<close>'s loop: the ids of the person's own messages, the message being read, and
  its text so far.\<close>

fun answer_step ::
  "string set \<times> string option \<times> string \<Rightarrow> json \<Rightarrow> string set \<times> string option \<times> string" where
  "answer_step (persons, current, txt) frame =
     (if str_at frame ''type'' = Some ''TEXT_MESSAGE_START'' \<and> str_at frame ''role'' = Some ''user''
      then (case str_at frame ''messageId'' of
              Some i \<Rightarrow> (insert i persons, current, txt)
            | None \<Rightarrow> (persons, current, txt))
      else if str_at frame ''type'' = Some ''TEXT_MESSAGE_CONTENT''
      then (let i = str_at frame ''messageId'' in
            if (case i of Some m \<Rightarrow> m \<in> persons | None \<Rightarrow> False) then (persons, current, txt)
            else (let cur = (if i \<noteq> None \<and> i \<noteq> current then i else current);
                      base = (if i \<noteq> None \<and> i \<noteq> current then [] else txt)
                  in (persons, cur,
                      base @ (case str_at frame ''delta'' of Some d \<Rightarrow> d | None \<Rightarrow> []))))
      else (persons, current, txt))"

definition last_answer :: "run \<Rightarrow> string" where
  "last_answer s = snd (snd (foldl answer_step ({}, None, []) (run_emitted s)))"

definition routine_prompt_id :: "run_id \<Rightarrow> string" where
  "routine_prompt_id i = run_str i @ ''-prompt''"

definition routine_prompt :: "run_id \<Rightarrow> string \<Rightarrow> json list" where
  "routine_prompt i instruction =
     [JObject [(''id'', JString (routine_prompt_id i)), (''role'', JString ''user''),
               (''content'', JString instruction)]]"

definition fired_by_routine :: "run \<Rightarrow> run_id \<Rightarrow> bool" where
  "fired_by_routine s i \<longleftrightarrow>
     (case run_prompt s of
        Some [asked] \<Rightarrow> json_get asked ''id'' = Some (JString (routine_prompt_id i))
      | _ \<Rightarrow> False)"

section \<open>Deciding a command\<close>

definition decide_start :: "run \<Rightarrow> run_start \<Rightarrow> run_error + run_event list" where
  "decide_start s c =
     (if run_started_flag s \<or> is_terminal (run_status s) then Inl AlreadyStarted
      else Inr [RunStarted
        \<lparr>sd_thread_id = sc_thread_id c, sd_coworker_id = sc_coworker_id c, sd_model = sc_model c,
         sd_effort = sc_effort c, sd_inference_source = ts_kind (sc_inference_source c),
         sd_inference_via =
           (if ts_kind (sc_inference_source c) = LocalProxy then ts_via (sc_inference_source c)
            else None),
         sd_system = sc_system c, sd_skill_id = sc_skill_id c,
         sd_offered_skills = sc_offered_skills c, sd_prompt = sc_prompt c,
         sd_limits = sc_limits c, sd_at_ms = sc_at_ms c\<rparr>])"

definition decide_resume :: "run \<Rightarrow> string \<Rightarrow> int \<Rightarrow> run_error + run_event list" where
  "decide_resume s why at =
     (if \<not> run_started_flag s then Inl NotStarted
      else if is_terminal (run_status s) then Inl AlreadyEnded
      else if run_status s = AwaitingApproval then Inl WaitingOnAPerson
      else if run_open_tools s \<noteq> [] then Inl (ToolOutcomeUnknown (map snd (run_open_tools s)))
      else if run_generation s \<ge> max_resumes then Inl ResumedTooOften
      else Inr [Resumed (run_generation s + 1) why at])"

definition decide_answer :: "run \<Rightarrow> string \<Rightarrow> bool \<Rightarrow> string \<Rightarrow> int \<Rightarrow> run_error + run_event list" where
  "decide_answer s call yes by_whom at =
     (if call \<in> run_answered s then Inl AlreadyAnswered
      else if is_terminal (run_status s) then Inl NotAwaiting
      else case run_pending s of
        None \<Rightarrow> Inl NotAwaiting
      | Some p \<Rightarrow> if pa_call_id p \<noteq> call then Inl NotAwaiting
                 else Inr [Answered call yes by_whom at])"

fun run_decide :: "run \<Rightarrow> run_command \<Rightarrow> run_error + run_event list" where
  "run_decide s (Start c) = decide_start s c"
| "run_decide s (Emit payload at) =
     (if \<not> run_started_flag s then Inl NotStarted
      else if run_status s = Finished \<or> run_status s = Failed then Inl AlreadyEnded
      else Inr [Emitted (next_seq s) payload at])"
| "run_decide s (Finish at why) =
     (if is_terminal (run_status s) then Inl AlreadyEnded else Inr [RunFinished at why])"
| "run_decide s (Fail why at) =
     (if is_terminal (run_status s) then Inl AlreadyEnded else Inr [RunFailed why at])"
| "run_decide s (RecordSpent sp at) =
     (if \<not> run_started_flag s then Inl NotStarted
      else if is_terminal (run_status s) then Inl AlreadyEnded
      else Inr [Spent (sp_recipes sp) (sp_round sp) at])"
| "run_decide s (StartTools tools at) =
     (if \<not> run_started_flag s then Inl NotStarted
      else if is_terminal (run_status s) then Inl AlreadyEnded
      else Inr [ToolStarted tools at])"
| "run_decide s (Resume why at) = decide_resume s why at"
| "run_decide s (Stop by_whom at) =
     (if is_terminal (run_status s) then Inl AlreadyEnded else Inr [RunStopped by_whom at])"
| "run_decide s (Suspend call tool args why at) =
     (if is_terminal (run_status s) then Inl AlreadyEnded
      else Inr [Suspended call tool args why at])"
| "run_decide s (Answer call yes by_whom at) = decide_answer s call yes by_whom at"

section \<open>What each event finds\<close>

fun run_allowed :: "run \<Rightarrow> run_event \<Rightarrow> bool" where
  "run_allowed s (RunStarted d) \<longleftrightarrow> \<not> run_started_flag s \<and> \<not> is_terminal (run_status s)"
| "run_allowed s (Emitted i payload at) \<longleftrightarrow>
     run_started_flag s \<and> run_status s \<noteq> Finished \<and> run_status s \<noteq> Failed \<and> i = next_seq s"
| "run_allowed s (Answered call yes by_whom at) \<longleftrightarrow>
     call \<notin> run_answered s \<and> \<not> is_terminal (run_status s) \<and>
     (\<exists>p. run_pending s = Some p \<and> pa_call_id p = call)"
| "run_allowed s (ToolStarted tools at) \<longleftrightarrow> run_started_flag s \<and> \<not> is_terminal (run_status s)"
| "run_allowed s (Spent recipes k at) \<longleftrightarrow> run_started_flag s \<and> \<not> is_terminal (run_status s)"
| "run_allowed s (Resumed g why at) \<longleftrightarrow>
     run_started_flag s \<and> run_status s = Running \<and> run_open_tools s = [] \<and>
     run_generation s < max_resumes \<and> g = run_generation s + 1"
| "run_allowed s e \<longleftrightarrow> \<not> is_terminal (run_status s)"

lemma not_terminal_cases: "\<not> is_terminal st \<longleftrightarrow> st = Running \<or> st = AwaitingApproval"
  by (cases st) auto

lemma run_decide_guarded:
  assumes "run_decide s c = Inr es"
  shows "guarded run_apply run_allowed s es"
  using assms
  by (cases c)
    (auto simp: decide_start_def decide_resume_def decide_answer_def not_le not_terminal_cases
      split: if_splits option.splits)

interpretation run_guard: event_guard run_default run_apply run_decide run_allowed
  by unfold_locales (rule run_decide_guarded)

abbreviation run_history :: "run \<Rightarrow> run_event list \<Rightarrow> bool" where
  "run_history \<equiv> history run_default run_apply run_decide"

section \<open>The log as the specification\<close>

text \<open>What a reader of the log alone would say: the endings, the answers, the frames, the
  resumptions, the calls still open and what was spent.\<close>

fun is_ending :: "run_event \<Rightarrow> bool" where
  "is_ending (RunFinished _ _) = True"
| "is_ending (RunFailed _ _) = True"
| "is_ending (RunStopped _ _) = True"
| "is_ending _ = False"

fun is_start :: "run_event \<Rightarrow> bool" where
  "is_start (RunStarted _) = True"
| "is_start _ = False"

fun answered_call_of :: "run_event \<Rightarrow> string list" where
  "answered_call_of (Answered call _ _ _) = [call]"
| "answered_call_of _ = []"

definition answered_calls :: "run_event list \<Rightarrow> string list" where
  "answered_calls log = concat (map answered_call_of log)"

fun frame_of :: "run_event \<Rightarrow> (int \<times> json) list" where
  "frame_of (Emitted i payload _) = [(i, payload)]"
| "frame_of _ = []"

definition frames :: "run_event list \<Rightarrow> (int \<times> json) list" where
  "frames log = concat (map frame_of log)"

fun generation_of :: "run_event \<Rightarrow> 32 word list" where
  "generation_of (Resumed g _ _) = [g]"
| "generation_of _ = []"

definition generations :: "run_event list \<Rightarrow> 32 word list" where
  "generations log = concat (map generation_of log)"

fun open_step :: "(string \<rightharpoonup> string) \<Rightarrow> run_event \<Rightarrow> (string \<rightharpoonup> string)" where
  "open_step m (ToolStarted tools _) = m ++ map_of (rev (map (\<lambda>t. (st_call_id t, st_tool t)) tools))"
| "open_step m (Emitted _ payload _) =
     (case closed_call payload of Some call \<Rightarrow> m(call := None) | None \<Rightarrow> m)"
| "open_step m _ = m"

definition open_calls :: "run_event list \<Rightarrow> (string \<rightharpoonup> string)" where
  "open_calls log = foldl open_step Map.empty log"

fun round_of :: "run_event \<Rightarrow> round_kind list" where
  "round_of (Spent _ (Some k) _) = [k]"
| "round_of _ = []"

fun recipes_of :: "run_event \<Rightarrow> string list" where
  "recipes_of (Spent rs _ _) = rs"
| "recipes_of _ = []"

definition rounds :: "run_event list \<Rightarrow> round_kind list" where
  "rounds log = concat (map round_of log)"

definition recipes_played :: "run_event list \<Rightarrow> string list" where
  "recipes_played log = concat (map recipes_of log)"

lemmas log_defs = answered_calls_def frames_def generations_def open_calls_def rounds_def
  recipes_played_def

lemmas run_apply_defs = apply_started_def apply_emitted_def apply_tool_started_def apply_answered_def
  Let_def

lemma log_snoc [simp]:
  "answered_calls (log @ [e]) = answered_calls log @ answered_call_of e"
  "frames (log @ [e]) = frames log @ frame_of e"
  "generations (log @ [e]) = generations log @ generation_of e"
  "open_calls (log @ [e]) = open_step (open_calls log) e"
  "rounds (log @ [e]) = rounds log @ round_of e"
  "recipes_played (log @ [e]) = recipes_played log @ recipes_of e"
  by (simp_all add: log_defs)

subsection \<open>One relation per thing the log says\<close>

definition endings_agree :: "run \<Rightarrow> run_event list \<Rightarrow> bool" where
  "endings_agree s log \<longleftrightarrow>
     length (filter is_ending log) = (if is_terminal (run_status s) then 1 else 0) \<and>
     length (filter is_start log) = (if run_started_flag s then 1 else 0)"

definition answers_agree :: "run \<Rightarrow> run_event list \<Rightarrow> bool" where
  "answers_agree s log \<longleftrightarrow>
     run_answered s = set (answered_calls log) \<and> distinct (answered_calls log)"

definition frames_agree :: "run \<Rightarrow> run_event list \<Rightarrow> bool" where
  "frames_agree s log \<longleftrightarrow> frames log = zip (map int [0..<length (run_emitted s)]) (run_emitted s)"

definition generations_agree :: "run \<Rightarrow> run_event list \<Rightarrow> bool" where
  "generations_agree s log \<longleftrightarrow>
     generations log = map (\<lambda>i. of_nat (Suc i)) [0..<unat (run_generation s)] \<and>
     run_generation s \<le> max_resumes"

definition tools_agree :: "run \<Rightarrow> run_event list \<Rightarrow> bool" where
  "tools_agree s log \<longleftrightarrow>
     bm_ordered (run_open_tools s) \<and> bm_get (run_open_tools s) = open_calls log"

definition spending_agrees :: "run \<Rightarrow> run_event list \<Rightarrow> bool" where
  "spending_agrees s log \<longleftrightarrow>
     run_rounds_spent s = (count_list (rounds log) Spoken, count_list (rounds log) OnScreen) \<and>
     run_played_recipes s = set (recipes_played log)"

definition pending_agrees :: "run \<Rightarrow> bool" where
  "pending_agrees s \<longleftrightarrow>
     (run_status s = AwaitingApproval \<longrightarrow> run_pending s \<noteq> None) \<and>
     (run_status s = Stopped \<longrightarrow> run_pending s = None)"

lemma endings_agree_step:
  "endings_agree s log \<Longrightarrow> run_allowed s e \<Longrightarrow> endings_agree (run_apply s e) (log @ [e])"
  by (cases e) (auto simp: endings_agree_def run_apply_defs split: if_splits option.splits)

lemma answers_agree_step:
  "answers_agree s log \<Longrightarrow> run_allowed s e \<Longrightarrow> answers_agree (run_apply s e) (log @ [e])"
  by (cases e) (auto simp: answers_agree_def run_apply_defs split: option.splits)

lemma zip_snoc_seq:
  "zip (map int [0..<length xs]) xs @ [(int (length xs), x)] =
   zip (map int [0..<length (xs @ [x])]) (xs @ [x])"
  by simp

lemma frames_agree_step:
  "frames_agree s log \<Longrightarrow> run_allowed s e \<Longrightarrow> frames_agree (run_apply s e) (log @ [e])"
  by (cases e) (auto simp: frames_agree_def run_apply_defs next_seq_def split: option.splits)

lemma unat_bump: "(g :: 32 word) < max_resumes \<Longrightarrow> unat (g + 1) = Suc (unat g)"
proof -
  assume "g < max_resumes"
  then have "unat g < 2" by (simp add: max_resumes_def word_less_nat_alt)
  then have "unat (g + 1) = (unat g + 1) mod 2 ^ 32" by (simp add: unat_word_ariths)
  with \<open>unat g < 2\<close> show ?thesis by simp
qed

lemma generations_agree_step:
  assumes "generations_agree s log" and "run_allowed s e"
  shows "generations_agree (run_apply s e) (log @ [e])"
proof (cases e)
  case (Resumed g why at)
  with assms(2) have g: "g = run_generation s + 1" "run_generation s < max_resumes" by simp_all
  then have u: "unat g = Suc (unat (run_generation s))" by (simp add: unat_bump)
  have "g = of_nat (unat g)" by simp
  then have "g = of_nat (Suc (unat (run_generation s)))" by (simp only: u)
  moreover have "g \<le> max_resumes"
    using u g(2) by (simp add: word_le_nat_alt word_less_nat_alt)
  ultimately show ?thesis
    using assms(1) Resumed u by (simp add: generations_agree_def)
qed (use assms in \<open>auto simp: generations_agree_def run_apply_defs split: option.splits\<close>)

lemma tools_agree_step:
  "tools_agree s log \<Longrightarrow> run_allowed s e \<Longrightarrow> tools_agree (run_apply s e) (log @ [e])"
  by (cases e)
    (auto simp: tools_agree_def run_apply_defs bm_ordered_remove bm_ordered_extend bm_get_remove
      bm_get_extend rev_map split: option.splits)

lemma spending_agrees_step:
  "spending_agrees s log \<Longrightarrow> run_allowed s e \<Longrightarrow> spending_agrees (run_apply s e) (log @ [e])"
proof (cases e)
  case (Spent rs k at)
  moreover assume "spending_agrees s log"
  ultimately show ?thesis
    by (cases k rule: option.exhaust; cases "the k")
      (auto simp: spending_agrees_def count_round_def)
qed (auto simp: spending_agrees_def run_apply_defs split: option.splits)

lemma pending_agrees_step:
  "pending_agrees s \<Longrightarrow> run_allowed s e \<Longrightarrow> pending_agrees (run_apply s e)"
  by (cases e) (auto simp: pending_agrees_def run_apply_defs split: option.splits)

text \<open>The whole relation, and the log of every run has it.\<close>

definition run_journal :: "run \<Rightarrow> run_event list \<Rightarrow> bool" where
  "run_journal s log \<longleftrightarrow>
     endings_agree s log \<and> answers_agree s log \<and> frames_agree s log \<and> generations_agree s log \<and>
     tools_agree s log \<and> spending_agrees s log \<and> pending_agrees s"

lemma run_journal_step:
  "run_journal s log \<Longrightarrow> run_allowed s e \<Longrightarrow> run_journal (run_apply s e) (log @ [e])"
  unfolding run_journal_def
  by (blast intro: endings_agree_step answers_agree_step frames_agree_step generations_agree_step
      tools_agree_step spending_agrees_step pending_agrees_step)

lemma run_journal_default: "run_journal run_default []"
  by (simp add: run_journal_def endings_agree_def answers_agree_def frames_agree_def
      generations_agree_def tools_agree_def spending_agrees_def pending_agrees_def run_default_def
      log_defs bt.get_empty)

interpretation run_log: event_log run_default run_apply run_decide run_journal
proof unfold_locales
  fix s log c es
  assume "run_journal s log" "run_decide s c = Inr es"
  then show "run_journal (foldl run_apply s es) (log @ es)"
    using guarded_log_inv [where R = run_journal, OF run_decide_guarded] run_journal_step by blast
qed (rule run_journal_default)

text \<open>At any place in a run's log: the log before it is one the relation holds of, and the event
  there was allowed.\<close>

lemma run_log_at:
  assumes "run_history s (pre @ e # post)"
  shows "run_journal (run_replay pre) pre" "run_allowed (run_replay pre) e"
proof -
  have g: "guarded run_apply run_allowed run_default (pre @ e # post)"
    using assms by (rule run_guard.history_guarded)
  then show "run_allowed (run_replay pre) e"
    unfolding run_replay_def by (rule guarded_at)
  have "guarded run_apply run_allowed run_default pre"
    using g by (simp add: guarded_append)
  from guarded_log_inv [where R = run_journal, OF this run_journal_default] run_journal_step
  show "run_journal (run_replay pre) pre" unfolding run_replay_def by simp
qed

subsection \<open>What an ended run takes\<close>

text \<open>After an ending the status never moves, and the only thing a log still takes is a frame of
  the round a stop interrupted.\<close>

fun is_frame :: "run_event \<Rightarrow> bool" where
  "is_frame (Emitted _ _ _) = True"
| "is_frame _ = False"

definition late_frames :: "run \<Rightarrow> run_event list \<Rightarrow> bool" where
  "late_frames s es \<longleftrightarrow> list_all is_frame es \<and> (es \<noteq> [] \<longrightarrow> run_status s = Stopped \<and> run_started_flag s)"

lemma run_ended_decide:
  assumes "is_terminal (run_status s)" and "run_decide s c = Inr es"
  shows "late_frames s es \<and> run_status (foldl run_apply s es) = run_status s \<and>
    run_started_flag (foldl run_apply s es) = run_started_flag s"
  using assms
  by (cases c; cases "run_status s")
    (auto simp: late_frames_def decide_start_def decide_resume_def decide_answer_def run_apply_defs
      split: if_splits option.splits)

lemma run_ended_handle_all:
  assumes "is_terminal (run_status s)" and "handle_all run_apply run_decide s cs = (t, es)"
  shows "late_frames s es \<and> run_status t = run_status s"
  using assms
proof (induction cs arbitrary: s es t)
  case (Cons c cs)
  show ?case
  proof (cases "run_decide s c")
    case (Inl err)
    then show ?thesis using Cons.IH [OF Cons.prems(1)] Cons.prems(2) by simp
  next
    case (Inr fs)
    obtain u rest where rest: "handle_all run_apply run_decide (foldl run_apply s fs) cs = (u, rest)"
      by fastforce
    note d = run_ended_decide [OF Cons.prems(1) Inr]
    then have "is_terminal (run_status (foldl run_apply s fs))" using Cons.prems(1) by simp
    from Cons.IH [OF this rest] d
    have "late_frames (foldl run_apply s fs) rest \<and> run_status u = run_status s" by simp
    with d rest Cons.prems(2) Inr show ?thesis by (auto simp: late_frames_def)
  qed
qed (simp add: late_frames_def)

subsection \<open>What a run captured at its start\<close>

definition captured :: "run \<Rightarrow> run_started" where
  "captured s =
     \<lparr>sd_thread_id = run_thread_id s, sd_coworker_id = run_coworker_id s, sd_model = run_model s,
      sd_effort = run_effort s, sd_inference_source = run_inference_source s,
      sd_inference_via = run_inference_via s, sd_system = run_system s,
      sd_skill_id = run_skill_id s, sd_offered_skills = run_offered_skills s,
      sd_prompt = run_prompt s, sd_limits = run_limits_of s, sd_at_ms = 0\<rparr>"

lemma captured_step:
  assumes "run_started_flag s" and "run_allowed s e"
  shows "run_started_flag (run_apply s e) \<and> captured (run_apply s e) = captured s"
  using assms by (cases e) (auto simp: captured_def run_apply_defs split: option.splits)

interpretation run_captured:
  absorbing run_apply run_decide "\<lambda>s. run_started_flag s \<and> captured s = d" for d
proof unfold_locales
  fix s c es
  assume start: "run_started_flag s \<and> captured s = d" and "run_decide s c = Inr es"
  then have "guarded run_apply run_allowed s es" by (intro run_decide_guarded)
  then show "run_started_flag (foldl run_apply s es) \<and> captured (foldl run_apply s es) = d"
    by (rule guarded_fold_inv [where P = "\<lambda>s. run_started_flag s \<and> captured s = d"])
      (simp_all add: start captured_step)
qed

subsection \<open>Open calls\<close>

definition starts_call :: "string \<Rightarrow> run_event \<Rightarrow> bool" where
  "starts_call call e \<longleftrightarrow> (case e of ToolStarted tools _ \<Rightarrow> call \<in> st_call_id ` set tools | _ \<Rightarrow> False)"

definition closes_call :: "string \<Rightarrow> run_event \<Rightarrow> bool" where
  "closes_call call e \<longleftrightarrow> (case e of Emitted _ payload _ \<Rightarrow> closed_call payload = Some call | _ \<Rightarrow> False)"

lemma open_step_started: "starts_call call e \<Longrightarrow> open_step m e call \<noteq> None"
proof (cases e)
  case (ToolStarted tools at)
  moreover assume "starts_call call e"
  ultimately have "call \<in> fst ` set (rev (map (\<lambda>t. (st_call_id t, st_tool t)) tools))"
    by (force simp: starts_call_def)
  then have "map_of (rev (map (\<lambda>t. (st_call_id t, st_tool t)) tools)) call \<noteq> None"
    by (simp add: map_of_eq_None_iff)
  then show ?thesis using ToolStarted by (auto simp: map_add_def split: option.splits)
qed (auto simp: starts_call_def)

lemma open_step_kept: "m call \<noteq> None \<Longrightarrow> \<not> closes_call call e \<Longrightarrow> open_step m e call \<noteq> None"
  by (cases e) (auto simp: closes_call_def map_add_def split: option.splits)

lemma open_fold_kept:
  "m call \<noteq> None \<Longrightarrow> list_all (\<lambda>e. \<not> closes_call call e) log \<Longrightarrow> foldl open_step m log call \<noteq> None"
proof (induction log arbitrary: m)
  case (Cons e log)
  then have "open_step m e call \<noteq> None" by (intro open_step_kept) simp_all
  with Cons show ?case by simp
qed simp

lemma open_calls_unclosed:
  assumes "open_calls log = Map.empty" and "log = before @ e # after" and "starts_call call e"
  shows "list_ex (closes_call call) after"
proof (rule ccontr)
  assume "\<not> ?thesis"
  then have "list_all (\<lambda>e. \<not> closes_call call e) after" by (simp add: list_ex_iff list_all_iff)
  with open_fold_kept [where m = "open_step (open_calls before) e" and log = after]
    open_step_started [OF assms(3)]
  have "open_calls log call \<noteq> None" by (simp add: open_calls_def assms(2))
  with assms(1) show False by simp
qed

subsection \<open>An answer and its call\<close>

text \<open>The calls an event puts on record: those it starts and the one whose result it carries.\<close>

definition records_call :: "string \<Rightarrow> run_event \<Rightarrow> bool" where
  "records_call call e \<longleftrightarrow> starts_call call e \<or> closes_call call e"

fun is_answer :: "run_event \<Rightarrow> bool" where
  "is_answer (Answered _ _ _ _) = True"
| "is_answer _ = False"

lemma unstarted_step:
  assumes "run_unstarted_answer s = Some a" and "\<not> is_answer e"
  shows "run_unstarted_answer (run_apply s e) =
    (if records_call (pa_call_id (ac_call a)) e then None else Some a)"
  using assms
  by (cases e)
    (auto simp: run_apply_defs settle_answer_def records_call_def starts_call_def closes_call_def
      split: option.splits)

lemma unstarted_none_step: "run_unstarted_answer s = None \<Longrightarrow> \<not> is_answer e \<Longrightarrow>
    run_unstarted_answer (run_apply s e) = None"
  by (cases e) (auto simp: run_apply_defs settle_answer_def split: option.splits)

lemma unstarted_none_fold: "run_unstarted_answer s = None \<Longrightarrow> list_all (\<lambda>e. \<not> is_answer e) es \<Longrightarrow>
    run_unstarted_answer (foldl run_apply s es) = None"
  by (induction es arbitrary: s) (auto simp: unstarted_none_step)

lemma unstarted_fold:
  assumes "run_unstarted_answer s = Some a" and "list_all (\<lambda>e. \<not> is_answer e) es"
  shows "run_unstarted_answer (foldl run_apply s es) =
    (if list_ex (records_call (pa_call_id (ac_call a))) es then None else Some a)"
  using assms
proof (induction es arbitrary: s)
  case (Cons e es)
  then show ?case
    using unstarted_step [of s a e]
    by (cases "records_call (pa_call_id (ac_call a)) e") (auto simp: unstarted_none_fold)
qed simp

interpretation run_status_word: word_code run_status_as_str "\<lambda>w. Some (run_status_from_stored w)"
proof unfold_locales
  show "Some (run_status_from_stored (run_status_as_str x)) = Some x" for x
    by (cases x) (simp_all add: run_status_from_stored_def)
qed

interpretation suspend_word: word_code suspend_reason_as_str "\<lambda>w. Some (suspend_reason_from_stored w)"
proof unfold_locales
  show "Some (suspend_reason_from_stored (suspend_reason_as_str x)) = Some x" for x
    by (cases x) (simp_all add: suspend_reason_from_stored_def)
qed

interpretation finish_word: strict_word_code finish_reason_as_str finish_reason_parse
proof unfold_locales
  show "finish_reason_parse (finish_reason_as_str x) = Some x" for x
    by (cases x) (simp add: finish_reason_parse_def)
  show "finish_reason_parse w = Some x \<Longrightarrow> w = finish_reason_as_str x" for w x
    by (cases x) (simp add: finish_reason_parse_def split: if_splits)
qed

section \<open>Properties\<close>

text \<open>A run that asks, is answered, works and ends, for the witnesses below.\<close>

definition sample_start :: run_start where
  "sample_start =
     \<lparr>sc_thread_id = ''t'', sc_coworker_id = None, sc_model = Some ''m'', sc_effort = High,
      sc_inference_source = \<lparr>ts_kind = LocalProxy, ts_via = Some Mac\<rparr>, sc_system = None,
      sc_skill_id = None, sc_offered_skills = [], sc_prompt = None,
      sc_limits = run_limits_default, sc_at_ms = 1\<rparr>"

definition sample_result :: json where
  "sample_result =
     JObject [(''type'', JString ''TOOL_CALL_RESULT''), (''toolCallId'', JString ''c1'')]"

definition sample_commands :: "run_command list" where
  "sample_commands =
     [Start sample_start, Suspend ''c1'' ''shell'' JNull ExecConsent 2, Answer ''c1'' True ''ada'' 3,
      Answer ''c1'' True ''bob'' 4, StartTools [\<lparr>st_call_id = ''c1'', st_tool = ''shell''\<rparr>] 5,
      Resume ''restart'' 6, Emit sample_result 7, Resume ''restart'' 8, Finish 9 None, Fail ''late'' 10]"

definition sample_log :: "run_event list" where
  "sample_log = snd (handle_all run_apply run_decide run_default sample_commands)"

lemma sample_history: "run_history (run_replay sample_log) sample_log"
proof -
  obtain s where s: "handle_all run_apply run_decide run_default sample_commands = (s, sample_log)"
    unfolding sample_log_def by (metis prod.collapse)
  then have "run_history s sample_log" by (rule handle_all_history)
  moreover from this have "s = run_replay sample_log"
    unfolding run_replay_def by (rule history_replays)
  ultimately show ?thesis by simp
qed

lemma sample_log_eq:
  "map run_event_type sample_log =
     [''run-started'', ''run-suspended'', ''run-answered'', ''run-tool-started'', ''run-emitted'',
      ''run-resumed'', ''run-finished'']"
  by code_simp

text \<open>C1: a run ends at most once. Whatever commands reach it and in whatever order, its log holds
  one ending (finished, failed or stopped) exactly when its status is terminal and none
  otherwise, and it holds one start exactly when it started.\<close>

theorem exactly_one_ending:
  assumes "run_history s log"
  shows "length (filter is_ending log) = (if is_terminal (run_status s) then 1 else 0) \<and>
    length (filter is_start log) = (if run_started_flag s then 1 else 0)"
  using run_log.inv_history [OF assms] by (simp add: run_journal_def endings_agree_def)

theorem exactly_one_ending_witness:
  "length (filter is_ending sample_log) = 1 \<and> length (filter is_start sample_log) = 1"
proof -
  have "is_terminal (run_status (run_replay sample_log))" "run_started_flag (run_replay sample_log)"
    by code_simp+
  with exactly_one_ending [OF sample_history] show ?thesis by simp
qed

text \<open>C5: an approval is exactly once. No call is answered twice in a run's log, the calls a run
  holds as answered are exactly those, and each answer stands where that very call was the one
  waiting and nobody had answered it.\<close>

theorem approval_exactly_once:
  assumes "run_history s log"
  shows "distinct (answered_calls log) \<and> run_answered s = set (answered_calls log) \<and>
    (log = pre @ Answered call yes by_whom at # post \<longrightarrow>
      call \<notin> set (answered_calls pre) \<and> \<not> is_terminal (run_status (run_replay pre)) \<and>
      (\<exists>p. run_pending (run_replay pre) = Some p \<and> pa_call_id p = call))"
proof -
  have "call \<notin> set (answered_calls pre) \<and> \<not> is_terminal (run_status (run_replay pre)) \<and>
      (\<exists>p. run_pending (run_replay pre) = Some p \<and> pa_call_id p = call)"
    if "log = pre @ Answered call yes by_whom at # post"
    using run_log_at [OF assms [unfolded that]] by (simp add: run_journal_def answers_agree_def)
  with run_log.inv_history [OF assms] show ?thesis
    by (auto simp: run_journal_def answers_agree_def)
qed

theorem approval_exactly_once_witness:
  "answered_calls sample_log = [''c1''] \<and> run_answered (run_replay sample_log) = {''c1''}"
proof -
  have calls: "answered_calls sample_log = [''c1'']" by code_simp
  with approval_exactly_once [OF sample_history] show ?thesis by simp
qed

text \<open>C22: a client that reconnects replays exactly what was emitted. The frames a run holds are
  the payloads of its log in order, and the sequence each carries is its place, counted from
  zero without a gap.\<close>

theorem replay_is_exact:
  assumes "run_history s log"
  shows "frames log = zip (map int [0..<length (run_emitted s)]) (run_emitted s) \<and>
    next_seq s = int (length (frames log)) \<and> s = run_replay log"
  using run_log.inv_history [OF assms] history_replays [OF assms]
  by (simp add: run_journal_def frames_agree_def next_seq_def run_replay_def)

theorem replay_is_exact_witness:
  "frames sample_log = [(0, sample_result)] \<and> next_seq (run_replay sample_log) = 1"
proof -
  have "run_emitted (run_replay sample_log) = [sample_result]" by code_simp
  with replay_is_exact [OF sample_history] show ?thesis by simp
qed

text \<open>C21: an interrupted run is carried on at most \<open>MAX_RESUMES\<close> times, and its generations
  count up from one without a gap: the generation a loop writes under is fenced by a later
  one, and the addition that makes the next one never wraps.\<close>

theorem generations_fence:
  assumes "run_history s log"
  shows "generations log = map (\<lambda>i. of_nat (Suc i)) [0..<unat (run_generation s)] \<and>
    run_generation s \<le> max_resumes \<and> length (generations log) \<le> 2"
  using run_log.inv_history [OF assms]
  by (auto simp: run_journal_def generations_agree_def max_resumes_def word_le_nat_alt)

theorem generations_fence_witness:
  "generations sample_log = [1] \<and> run_generation (run_replay sample_log) \<le> max_resumes"
proof -
  have "run_generation (run_replay sample_log) = 1" by code_simp
  with generations_fence [OF sample_history] show ?thesis by simp
qed

text \<open>C6: a run is never carried on blind. Wherever a resumption stands in a log, the run was
  running, and every call started before it has its result journaled after that start: no tool
  that may have acted is left unknown.\<close>

theorem resume_never_blind:
  assumes "run_history s (pre @ Resumed g why at # post)"
  shows "run_status (run_replay pre) = Running \<and>
    (\<forall>before e after call. pre = before @ e # after \<and> starts_call call e \<longrightarrow>
       list_ex (closes_call call) after)"
proof -
  note at = run_log_at [OF assms]
  have "run_open_tools (run_replay pre) = []" using at(2) by simp
  with at(1) have "open_calls pre = Map.empty"
    by (simp add: run_journal_def tools_agree_def bt.get_empty)
  then show ?thesis using at(2) open_calls_unclosed by auto
qed

theorem resume_never_blind_witness:
  "run_history (run_replay sample_log)
     (take 5 sample_log @ Resumed 1 ''restart'' 8 # [RunFinished 9 None]) \<and>
   list_ex (closes_call ''c1'') (drop 4 (take 5 sample_log))"
proof -
  have log: "sample_log = take 5 sample_log @ Resumed 1 ''restart'' 8 # [RunFinished 9 None]"
    by code_simp
  have split: "take 5 sample_log = take 3 sample_log @ (sample_log ! 3) # drop 4 (take 5 sample_log)"
    by code_simp
  have started: "starts_call ''c1'' (sample_log ! 3)" by code_simp
  have history: "run_history (run_replay sample_log)
     (take 5 sample_log @ Resumed 1 ''restart'' 8 # [RunFinished 9 None])"
    using sample_history log by simp
  from resume_never_blind [OF history] split started history show ?thesis by blast
qed

text \<open>An ended run is never revived. From a run that finished, failed or was stopped, whatever
  is asked of it, its status stays what it is, and its log takes nothing but frames, and those
  only when it was stopped after it started: the round the stop interrupted.\<close>

theorem ended_run_stays_ended:
  assumes "is_terminal (run_status s)" and "handle_all run_apply run_decide s cs = (t, es)"
  shows "run_status t = run_status s \<and> list_all is_frame es \<and>
    (es \<noteq> [] \<longrightarrow> run_status s = Stopped \<and> run_started_flag s)"
  using run_ended_handle_all [OF assms] by (simp add: late_frames_def)

theorem ended_run_stays_ended_witness:
  "\<exists>t. handle_all run_apply run_decide (run_replay [RunStopped ''ada'' 1])
     [Start sample_start, Answer ''c1'' True ''ada'' 2, Finish 3 None] = (t, []) \<and> run_status t = Stopped"
proof -
  define s where "s = run_replay [RunStopped ''ada'' 1]"
  have s: "is_terminal (run_status s)" "run_status s = Stopped" "\<not> run_started_flag s"
    unfolding s_def by code_simp+
  obtain t es where h: "handle_all run_apply run_decide s
     [Start sample_start, Answer ''c1'' True ''ada'' 2, Finish 3 None] = (t, es)" by fastforce
  from ended_run_stays_ended [OF s(1) h] s h show ?thesis by (auto simp: s_def)
qed

text \<open>A resume speaks as the turn began. Once a run has started, nothing that is ever
  accepted changes the thread, coworker, model, effort, door, system message, skills, prompt or
  limits it captured, so the pin, the message and the source a resume reads are those of its
  start.\<close>

theorem start_is_captured:
  assumes "run_started_flag s" and "handle_all run_apply run_decide s cs = (t, es)"
  shows "captured t = captured s \<and> pin_for_resume t current = pin_for_resume s current \<and>
    system_for_resume t = system_for_resume s \<and> source_for_resume t = source_for_resume s \<and>
    run_limits_of t = run_limits_of s"
proof -
  have "captured t = captured s"
    using run_captured.ended_forever [of s "captured s", OF _ assms(2)] assms(1) by simp
  moreover from this have "run_model t = run_model s" "run_system t = run_system s"
    "run_inference_source t = run_inference_source s" "run_inference_via t = run_inference_via s"
    "run_limits_of t = run_limits_of s"
    by (simp_all add: captured_def)
  ultimately show ?thesis
    by (simp add: pin_for_resume_def system_for_resume_def source_for_resume_def)
qed

theorem start_is_captured_witness:
  "\<exists>t es. handle_all run_apply run_decide (run_replay (take 1 sample_log)) sample_commands = (t, es) \<and>
     pin_for_resume t ''other'' = ''m'' \<and> source_for_resume t = \<lparr>ts_kind = LocalProxy, ts_via = Some Mac\<rparr>"
proof -
  have s: "run_started_flag (run_replay (take 1 sample_log))"
    "pin_for_resume (run_replay (take 1 sample_log)) ''other'' = ''m''"
    "source_for_resume (run_replay (take 1 sample_log)) = \<lparr>ts_kind = LocalProxy, ts_via = Some Mac\<rparr>"
    by code_simp+
  obtain t es where "handle_all run_apply run_decide (run_replay (take 1 sample_log)) sample_commands
    = (t, es)" by fastforce
  with start_is_captured [OF s(1) this, of "''other''"] s show ?thesis by auto
qed

text \<open>A person's answer is neither lost nor carried out twice. After an accepted answer the
  run holds that very call with what was said, through every later event, until the first one
  that starts the call or carries its result, and from then on it holds none (until somebody
  answers another).\<close>

theorem answer_is_carried_out:
  assumes "run_pending s = Some p" and "run_decide s (Answer call yes by_whom at) = Inr es"
    and "list_all (\<lambda>e. \<not> is_answer e) later"
  shows "pa_call_id p = call \<and>
    run_unstarted_answer (foldl run_apply (foldl run_apply s es) later) =
      (if list_ex (records_call call) later then None
       else Some \<lparr>ac_call = p, ac_approved = yes\<rparr>)"
proof -
  have es: "es = [Answered call yes by_whom at]" and call: "pa_call_id p = call"
    using assms(1,2) by (auto simp: decide_answer_def split: if_splits)
  then have "run_unstarted_answer (foldl run_apply s es) = Some \<lparr>ac_call = p, ac_approved = yes\<rparr>"
    using assms(1) by (simp add: apply_answered_def)
  from unstarted_fold [OF this assms(3)] call show ?thesis by simp
qed

theorem answer_is_carried_out_witness:
  "run_unstarted_answer (foldl run_apply (foldl run_apply (run_replay (take 2 sample_log))
      [Answered ''c1'' True ''ada'' 3]) (drop 3 sample_log)) = None"
proof -
  have s: "run_pending (run_replay (take 2 sample_log)) =
      Some \<lparr>pa_call_id = ''c1'', pa_tool = ''shell'', pa_arguments = JNull, pa_reason = ExecConsent\<rparr>"
    "run_decide (run_replay (take 2 sample_log)) (Answer ''c1'' True ''ada'' 3) =
      Inr [Answered ''c1'' True ''ada'' 3]"
    "list_all (\<lambda>e. \<not> is_answer e) (drop 3 sample_log)"
    "list_ex (records_call ''c1'') (drop 3 sample_log)"
    by code_simp+
  from answer_is_carried_out [OF s(1-3)] s(4) show ?thesis by simp
qed

text \<open>What a run spent is what its log says: the rounds of each kind counted once each, and
  every recipe it played, so a run carried on after a restart has forgotten neither.\<close>

theorem spending_is_remembered:
  assumes "run_history s log"
  shows "run_rounds_spent s = (count_list (rounds log) Spoken, count_list (rounds log) OnScreen) \<and>
    run_played_recipes s = set (recipes_played log)"
  using run_log.inv_history [OF assms] by (simp add: run_journal_def spending_agrees_def)

theorem spending_is_remembered_witness:
  "run_rounds_spent (fst (handle_all run_apply run_decide run_default
      [Start sample_start, RecordSpent \<lparr>sp_recipes = [''r''], sp_round = Some OnScreen\<rparr> 2])) = (0, 1)"
proof -
  obtain s log where h: "handle_all run_apply run_decide run_default
      [Start sample_start, RecordSpent \<lparr>sp_recipes = [''r''], sp_round = Some OnScreen\<rparr> 2] = (s, log)"
    by fastforce
  have "rounds (snd (handle_all run_apply run_decide run_default
      [Start sample_start, RecordSpent \<lparr>sp_recipes = [''r''], sp_round = Some OnScreen\<rparr> 2])) = [OnScreen]"
    by code_simp
  with spending_is_remembered [OF handle_all_history [OF h]] h show ?thesis by simp
qed

text \<open>The stored words read back. A status, a suspension's reason and a finish's reason are
  what they were written as; a status no build wrote never reads as an ending, and a reason no
  build wrote reads as the strictest card.\<close>

theorem run_words_read_back:
  "run_status_from_stored (run_status_as_str st) = st \<and>
   suspend_reason_from_stored (suspend_reason_as_str why) = why \<and>
   finish_reason_parse (finish_reason_as_str fin) = Some fin \<and>
   (is_terminal (run_status_from_stored w) = (w \<in> run_status_as_str ` {Finished, Failed, Stopped})) \<and>
   (suspend_reason_from_stored w \<noteq> ExecConsent) =
     (w \<in> suspend_reason_as_str ` {PolicyApproval, AutoReview, UserForm})"
  using run_status_word.read_as_word [of st] suspend_word.read_as_word [of why]
    finish_word.read_as_word [of fin]
  by (auto simp: run_status_from_stored_def suspend_reason_from_stored_def)

end
