(* ===== verification/Tool_Policy.thy ===== *)
theory Tool_Policy
  imports Ids
begin

text \<open>
  \<open>opengrok-policy/src/lib.rs\<close>: what a principal may make a coworker do. A \<open>tool_set\<close>
  is everything, a set of entries, or nothing; an entry is a tool's name, a whole plugin
  (\<open>"<plugin>.*"\<close>) or an exclusion (\<open>"-<tool>"\<close>, \<open>"-<group>"\<close>). A coworker's
  ceiling and a principal's profile meet by \<open>ts_intersect\<close>, and \<open>policy_decide\<close>
  answers every action. A \<open>BTreeSet\<close> of names is a set. The sentence of a denial is a
  constructor with what it names.
\<close>

section \<open>Sets of tools\<close>

datatype tool_set = ToolsAll | ToolsOnly "string set" | ToolsNone

definition plugin_of :: "string \<Rightarrow> string option" where
  "plugin_of entry =
     (case strip_suffix ''.*'' entry of
        Some p \<Rightarrow> if p \<noteq> [] \<and> CHR ''*'' \<notin> set p then Some p else None
      | None \<Rightarrow> None)"

definition excluding :: "string \<Rightarrow> string" where
  "excluding tool = CHR ''-'' # tool"

definition tool_groups :: "(string \<times> string list) list" where
  "tool_groups =
     [(''routines'',
        [''list_routines'', ''create_routine'', ''update_routine'', ''delete_routine'',
         ''run_routine'']),
      (''plugins'',
        [''list_plugins'', ''plugin_details'', ''install_plugin'', ''uninstall_plugin'',
         ''list_plugin_accounts'', ''add_plugin_account'', ''rename_plugin_account'',
         ''remove_plugin_account'', ''set_plugin_for_bot'', ''pick_plugin_account'']),
      (''manage_computer'',
        [''computer_status'', ''look_at_screen'', ''start_computer'', ''shutdown_computer'',
         ''restart_computer'', ''reset_computer'', ''update_computer'', ''set_network'']),
      (''office'',
        [''office_files'', ''office_open'', ''office_create'', ''office_outline'', ''office_grep'',
         ''office_read'', ''office_cells'', ''office_render'', ''office_verify'', ''office_close'',
         ''office_propose'', ''office_propose_cells'', ''office_review'', ''office_accept'',
         ''office_reject'', ''office_export''])]"

definition group_of :: "string \<Rightarrow> string option" where
  "group_of tool = map_option fst (find (\<lambda>(_, members). tool \<in> set members) tool_groups)"

definition every_tool_of :: "string \<Rightarrow> string" where
  "every_tool_of plugin = plugin @ ''.*''"

text \<open>Named under a plugin: \<open><plugin>.\<close> and at least one more character.\<close>

definition named_under :: "string \<Rightarrow> string \<Rightarrow> bool" where
  "named_under tool plugin =
     (case strip_prefix plugin tool of
        Some rest \<Rightarrow> (case strip_prefix ''.'' rest of Some r \<Rightarrow> r \<noteq> [] | None \<Rightarrow> False)
      | None \<Rightarrow> False)"

fun whole_plugins :: "tool_set \<Rightarrow> string set" where
  "whole_plugins (ToolsOnly names) = Option.these (plugin_of ` names)"
| "whole_plugins _ = {}"

fun names_never :: "tool_set \<Rightarrow> string \<Rightarrow> bool" where
  "names_never (ToolsOnly names) tool \<longleftrightarrow> excluding tool \<in> names"
| "names_never _ tool \<longleftrightarrow> False"

fun group_off :: "tool_set \<Rightarrow> string \<Rightarrow> bool" where
  "group_off (ToolsOnly names) grp \<longleftrightarrow> excluding grp \<in> names"
| "group_off _ grp \<longleftrightarrow> False"

fun with_group_on :: "tool_set \<Rightarrow> string \<Rightarrow> tool_set" where
  "with_group_on (ToolsOnly names) grp = ToolsOnly (Set.remove (excluding grp) names)"
| "with_group_on other grp = other"

fun allows_alone :: "tool_set \<Rightarrow> string \<Rightarrow> bool" where
  "allows_alone ToolsAll tool \<longleftrightarrow> True"
| "allows_alone (ToolsOnly names) tool \<longleftrightarrow>
     \<not> starts_with ''-'' tool \<and> excluding tool \<notin> names \<and>
     (tool \<in> names \<or> (\<exists>plugin\<in>whole_plugins (ToolsOnly names). named_under tool plugin))"
| "allows_alone ToolsNone tool \<longleftrightarrow> False"

definition ts_allows :: "tool_set \<Rightarrow> string \<Rightarrow> bool" where
  "ts_allows s tool \<longleftrightarrow>
     allows_alone s tool \<and>
     (case group_of tool of None \<Rightarrow> True | Some g \<Rightarrow> \<not> group_off s g)"

definition allows_all_of :: "tool_set \<Rightarrow> string \<Rightarrow> bool" where
  "allows_all_of s plugin \<longleftrightarrow>
     s = ToolsAll \<or> (\<exists>held\<in>whole_plugins s. held = plugin \<or> named_under plugin held)"

definition kept_by :: "string set \<Rightarrow> tool_set \<Rightarrow> string set" where
  "kept_by names other =
     Set.filter (\<lambda>name. starts_with ''-'' name \<or>
        (case plugin_of name of
           Some plugin \<Rightarrow> allows_all_of other plugin
         | None \<Rightarrow> ts_allows other name)) names"

fun ts_intersect :: "tool_set \<Rightarrow> tool_set \<Rightarrow> tool_set" where
  "ts_intersect ToolsNone other = ToolsNone"
| "ts_intersect s ToolsNone = ToolsNone"
| "ts_intersect ToolsAll other = other"
| "ts_intersect s ToolsAll = s"
| "ts_intersect (ToolsOnly left) (ToolsOnly right) =
     (let both = kept_by left (ToolsOnly right) \<union> kept_by right (ToolsOnly left)
      in if both = {} then ToolsNone else ToolsOnly both)"

section \<open>Deciding\<close>

record grant =
  g_principal :: account_id
  g_coworker :: coworker_id
  g_profile :: tool_set
  g_needs_approval :: tool_set
  g_revoked :: bool

record ceiling =
  c_coworker :: coworker_id
  c_tools :: tool_set

datatype action = UseCoworker | RunTool string

datatype policy_reason =
    NoGrant account_id coworker_id
  | GrantRevoked coworker_id
  | GrantOfAnother account_id account_id
  | GrantForAnother coworker_id coworker_id
  | NoCeiling coworker_id
  | CeilingForAnother coworker_id coworker_id
  | NeedsHumanYes string coworker_id
  | CoworkerMayNever coworker_id string
  | PrincipalMayNot account_id coworker_id string

datatype decision = Allow | NeedsApproval policy_reason | Deny policy_reason

fun decision_reason :: "decision \<Rightarrow> policy_reason option" where
  "decision_reason Allow = None"
| "decision_reason (NeedsApproval why) = Some why"
| "decision_reason (Deny why) = Some why"

fun is_allowed :: "decision \<Rightarrow> bool" where
  "is_allowed Allow = True"
| "is_allowed _ = False"

fun needs_approval :: "decision \<Rightarrow> bool" where
  "needs_approval (NeedsApproval _) = True"
| "needs_approval _ = False"

record policy_context =
  ctx_grant :: "grant option"
  ctx_ceiling :: "ceiling option"

definition decide_tool ::
  "account_id \<Rightarrow> coworker_id \<Rightarrow> string \<Rightarrow> grant \<Rightarrow> ceiling option \<Rightarrow> decision" where
  "decide_tool who cw tool g oc =
     (case oc of
        None \<Rightarrow> Deny (NoCeiling cw)
      | Some c \<Rightarrow>
          if c_coworker c \<noteq> cw then Deny (CeilingForAnother (c_coworker c) cw)
          else if ts_allows (ts_intersect (c_tools c) (g_profile g)) tool
          then (if ts_allows (g_needs_approval g) tool then NeedsApproval (NeedsHumanYes tool cw)
                else Allow)
          else if \<not> ts_allows (c_tools c) tool then Deny (CoworkerMayNever cw tool)
          else Deny (PrincipalMayNot who cw tool))"

definition policy_decide ::
  "account_id \<Rightarrow> coworker_id \<Rightarrow> action \<Rightarrow> policy_context \<Rightarrow> decision" where
  "policy_decide who cw act ctx =
     (case ctx_grant ctx of
        None \<Rightarrow> Deny (NoGrant who cw)
      | Some g \<Rightarrow>
          if g_revoked g then Deny (GrantRevoked cw)
          else if g_principal g \<noteq> who then Deny (GrantOfAnother (g_principal g) who)
          else if g_coworker g \<noteq> cw then Deny (GrantForAnother (g_coworker g) cw)
          else case act of
            UseCoworker \<Rightarrow> Allow
          | RunTool tool \<Rightarrow> decide_tool who cw tool g (ctx_ceiling ctx))"

definition names_plugin :: "account_id \<Rightarrow> coworker_id \<Rightarrow> string \<Rightarrow> policy_context \<Rightarrow> bool" where
  "names_plugin who cw plugin ctx \<longleftrightarrow>
     is_allowed (policy_decide who cw UseCoworker ctx) \<and>
     (case (ctx_grant ctx, ctx_ceiling ctx) of
        (Some g, Some c) \<Rightarrow>
          c_coworker c = cw \<and> plugin \<in> whole_plugins (ts_intersect (c_tools c) (g_profile g))
      | _ \<Rightarrow> False)"

definition admits_plugin :: "account_id \<Rightarrow> coworker_id \<Rightarrow> string \<Rightarrow> policy_context \<Rightarrow> bool" where
  "admits_plugin who cw plugin ctx \<longleftrightarrow>
     is_allowed (policy_decide who cw UseCoworker ctx) \<and>
     (case (ctx_grant ctx, ctx_ceiling ctx) of
        (Some g, Some c) \<Rightarrow>
          c_coworker c = cw \<and> allows_all_of (ts_intersect (c_tools c) (g_profile g)) plugin
      | _ \<Rightarrow> False)"

definition skill_entry :: "string \<Rightarrow> string \<Rightarrow> string" where
  "skill_entry plugin skill = ''skill:'' @ plugin @ ''.'' @ skill"

definition skill_switched_off :: "policy_context \<Rightarrow> string \<Rightarrow> string \<Rightarrow> bool" where
  "skill_switched_off ctx plugin skill =
     (case ctx_ceiling ctx of
        Some c \<Rightarrow> names_never (c_tools c) (skill_entry plugin skill)
      | None \<Rightarrow> False)"

definition widened :: "tool_set \<Rightarrow> string list \<Rightarrow> tool_set" where
  "widened tools plugins =
     (let named = set (map every_tool_of plugins)
      in case tools of
           ToolsAll \<Rightarrow> ToolsAll
         | ToolsNone \<Rightarrow> if named = {} then ToolsNone else ToolsOnly named
         | ToolsOnly names \<Rightarrow> if named = {} then ToolsOnly names else ToolsOnly (names \<union> named))"

definition with_mentioned :: "policy_context \<Rightarrow> string list \<Rightarrow> policy_context" where
  "with_mentioned ctx plugins =
     \<lparr>ctx_grant = map_option (\<lambda>g. g\<lparr>g_profile := widened (g_profile g) plugins\<rparr>) (ctx_grant ctx),
      ctx_ceiling = map_option (\<lambda>c. c\<lparr>c_tools := widened (c_tools c) plugins\<rparr>) (ctx_ceiling ctx)\<rparr>"

definition entry_reaches :: "string \<Rightarrow> string \<Rightarrow> bool" where
  "entry_reaches pre name =
     (case plugin_of name of
        Some plugin \<Rightarrow> starts_with pre (plugin @ ''.'') \<or> starts_with (plugin @ ''.'') pre
      | None \<Rightarrow> starts_with pre name)"

definition may_run_any_under ::
  "account_id \<Rightarrow> coworker_id \<Rightarrow> string \<Rightarrow> policy_context \<Rightarrow> bool" where
  "may_run_any_under who cw pre ctx \<longleftrightarrow>
     is_allowed (policy_decide who cw UseCoworker ctx) \<and>
     (case (ctx_grant ctx, ctx_ceiling ctx) of
        (Some g, Some c) \<Rightarrow>
          c_coworker c = cw \<and>
          (case ts_intersect (c_tools c) (g_profile g) of
             ToolsAll \<Rightarrow> True
           | ToolsOnly names \<Rightarrow> (\<exists>name\<in>names. entry_reaches pre name)
           | ToolsNone \<Rightarrow> False)
      | _ \<Rightarrow> False)"

declare whole_plugins.simps(1) [simp del] ts_intersect.simps [simp del]

lemma ts_intersect_simps [simp]:
  "ts_intersect ToolsNone b = ToolsNone" "ts_intersect a ToolsNone = ToolsNone"
  "ts_intersect ToolsAll b = b" "ts_intersect a ToolsAll = a"
  by (cases a; cases b; simp add: ts_intersect.simps)+

section \<open>Names\<close>

lemma plugin_of_Some: "plugin_of e = Some p \<longleftrightarrow> e = p @ ''.*'' \<and> p \<noteq> [] \<and> CHR ''*'' \<notin> set p"
proof
  assume "plugin_of e = Some p"
  then show "e = p @ ''.*'' \<and> p \<noteq> [] \<and> CHR ''*'' \<notin> set p"
    by (auto simp: plugin_of_def split: option.split_asm if_split_asm)
qed (auto simp: plugin_of_def)

lemma under_iff: "named_under t p \<longleftrightarrow> (\<exists>r. r \<noteq> [] \<and> t = p @ CHR ''.'' # r)"
proof
  assume "named_under t p"
  then show "\<exists>r. r \<noteq> [] \<and> t = p @ CHR ''.'' # r"
    by (auto simp: named_under_def split: option.split_asm)
qed (auto simp: named_under_def)

lemma under_entry: "named_under (p @ ''.*'') p"
  by (auto simp: under_iff)

lemma under_trans: "named_under t p \<Longrightarrow> named_under p q \<Longrightarrow> named_under t q"
  by (fastforce simp: under_iff)

lemma starts_with_dash: "starts_with ''-'' t \<longleftrightarrow> (\<exists>r. t = CHR ''-'' # r)"
  by (auto simp: starts_with_iff)

lemma under_dash: "named_under t p \<Longrightarrow> starts_with ''-'' p \<Longrightarrow> starts_with ''-'' t"
  by (auto simp: under_iff starts_with_dash)

lemma whole_plugins_iff: "p \<in> whole_plugins (ToolsOnly names) \<longleftrightarrow>
    p @ ''.*'' \<in> names \<and> p \<noteq> [] \<and> CHR ''*'' \<notin> set p"
proof -
  have "p \<in> whole_plugins (ToolsOnly names) \<longleftrightarrow> (\<exists>e\<in>names. plugin_of e = Some p)"
    by (auto simp: whole_plugins.simps in_these_eq image_iff) metis+
  then show ?thesis by (auto simp: plugin_of_Some)
qed

text \<open>Two plugins over one tool: the longer is under the shorter, unless a segment is empty.\<close>

lemma under_both:
  assumes "named_under t p" and "named_under t q" and "\<not> contains_str ''..'' t" and "length p \<le> length q"
  shows "q = p \<or> named_under q p"
proof -
  obtain r where r: "t = p @ CHR ''.'' # r" using assms(1) by (auto simp: under_iff)
  obtain u where u: "t = q @ CHR ''.'' # u" using assms(2) by (auto simp: under_iff)
  from r u assms(4) obtain z where z: "q = p @ z" by (metis append_eq_append_conv_if append_take_drop_id)
  then have rest: "CHR ''.'' # r = z @ CHR ''.'' # u" using r u by simp
  show ?thesis
  proof (cases z)
    case Nil
    then show ?thesis using z by simp
  next
    case (Cons c y)
    with rest have c: "c = CHR ''.''" by simp
    have "y \<noteq> []"
    proof
      assume "y = []"
      then have "t = p @ ''..'' @ u" using u z Cons c by simp
      then show False using assms(3) by (auto simp: contains_str_iff)
    qed
    then show ?thesis using z Cons c by (auto simp: under_iff)
  qed
qed

section \<open>Intersection\<close>

lemma ts_allows_Only:
  "ts_allows (ToolsOnly names) t \<longleftrightarrow>
     \<not> starts_with ''-'' t \<and> excluding t \<notin> names \<and>
     (t \<in> names \<or> (\<exists>p\<in>whole_plugins (ToolsOnly names). named_under t p)) \<and>
     (\<forall>g. group_of t = Some g \<longrightarrow> excluding g \<notin> names)"
  by (auto simp: ts_allows_def split: option.splits)

lemma ts_allows_All [simp]: "ts_allows ToolsAll t"
  by (simp add: ts_allows_def split: option.splits)

lemma ts_allows_None [simp]: "\<not> ts_allows ToolsNone t"
  by (simp add: ts_allows_def)

lemma ts_allows_empty [simp]: "\<not> ts_allows (ToolsOnly {}) t"
  by (auto simp: ts_allows_Only whole_plugins_iff)

text \<open>What admits a whole plugin admits every name under it that no exclusion takes back.\<close>

lemma allows_all_of_under:
  assumes "allows_all_of (ToolsOnly names) p" and "named_under t p"
  shows "\<exists>q\<in>whole_plugins (ToolsOnly names). named_under t q"
  using assms by (auto simp: allows_all_of_def dest: under_trans)

lemma kept_by_iff: "n \<in> kept_by names other \<longleftrightarrow> n \<in> names \<and>
    (starts_with ''-'' n \<or>
     (case plugin_of n of Some p \<Rightarrow> allows_all_of other p | None \<Rightarrow> ts_allows other n))"
  by (simp add: kept_by_def)

definition both_names :: "string set \<Rightarrow> string set \<Rightarrow> string set" where
  "both_names left right = kept_by left (ToolsOnly right) \<union> kept_by right (ToolsOnly left)"

lemma ts_intersect_Only:
  "ts_allows (ts_intersect (ToolsOnly left) (ToolsOnly right)) t \<longleftrightarrow>
   ts_allows (ToolsOnly (both_names left right)) t"
  by (auto simp: both_names_def Let_def ts_intersect.simps)

lemma both_names_sym: "both_names left right = both_names right left"
  by (auto simp: both_names_def)

lemma both_names_excluding: "excluding n \<in> both_names left right \<longleftrightarrow> excluding n \<in> left \<or> excluding n \<in> right"
  by (auto simp: both_names_def kept_by_iff excluding_def starts_with_dash)

text \<open>An entry that survives because the other side keeps it: whatever it admits, the other side
  has an entry for.\<close>

lemma kept_by_admits:
  assumes "n \<in> kept_by left (ToolsOnly right)" and "\<not> starts_with ''-'' t"
    and "t = n \<or> (\<exists>p. plugin_of n = Some p \<and> named_under t p)"
  shows "t \<in> right \<or> (\<exists>q\<in>whole_plugins (ToolsOnly right). named_under t q)"
proof (cases "plugin_of n")
  case None
  with assms have "t = n" by auto
  with assms None show ?thesis by (auto simp: kept_by_iff ts_allows_Only)
next
  case (Some p)
  then have n: "n = p @ ''.*''" "p \<noteq> []" by (simp_all add: plugin_of_Some)
  have under: "named_under t p" using assms(3) Some n under_entry by auto
  have "\<not> starts_with ''-'' n"
  proof
    assume "starts_with ''-'' n"
    then have "starts_with ''-'' p" using n by (cases p) (auto simp: starts_with_dash)
    with under_dash [OF under] assms(2) show False by simp
  qed
  then have "allows_all_of (ToolsOnly right) p" using assms(1) Some by (simp add: kept_by_iff)
  from allows_all_of_under [OF this under] show ?thesis by blast
qed

lemma both_names_sound:
  assumes "ts_allows (ToolsOnly (both_names left right)) t"
  shows "ts_allows (ToolsOnly left) t"
proof -
  have t: "\<not> starts_with ''-'' t" "excluding t \<notin> left"
    "\<forall>g. group_of t = Some g \<longrightarrow> excluding g \<notin> left"
    using assms by (auto simp: ts_allows_Only both_names_excluding)
  obtain n where n: "n \<in> both_names left right" "t = n \<or> (\<exists>p. plugin_of n = Some p \<and> named_under t p)"
    using assms by (auto simp: ts_allows_Only whole_plugins_iff plugin_of_Some)
  have "t \<in> left \<or> (\<exists>q\<in>whole_plugins (ToolsOnly left). named_under t q)"
  proof (cases "n \<in> left")
    case True
    with n(2) show ?thesis by (auto simp: whole_plugins_iff plugin_of_Some)
  next
    case False
    then have "n \<in> kept_by right (ToolsOnly left)" using n(1) by (auto simp: both_names_def kept_by_iff)
    from kept_by_admits [OF this t(1) n(2)] show ?thesis .
  qed
  with t show ?thesis by (auto simp: ts_allows_Only)
qed

text \<open>And what both sides admit survives, when no segment of the name is empty. The entry that
  does is the longer plugin, or the name itself.\<close>

lemma name_kept:
  assumes "t \<in> left" and "ts_allows (ToolsOnly right) t" and "\<not> contains_str ''..'' t"
  shows "t \<in> kept_by left (ToolsOnly right)"
proof (cases "plugin_of t")
  case None
  with assms show ?thesis by (simp add: kept_by_iff)
next
  case (Some p)
  then have p: "t = p @ ''.*''" "p \<noteq> []" "CHR ''*'' \<notin> set p" by (simp_all add: plugin_of_Some)
  have "\<exists>q\<in>whole_plugins (ToolsOnly right). q = p \<or> named_under p q"
  proof (cases "t \<in> right")
    case True
    then show ?thesis using p by (auto simp: whole_plugins_iff)
  next
    case False
    then obtain q where q: "q \<in> whole_plugins (ToolsOnly right)" "named_under t q"
      using assms(2) by (auto simp: ts_allows_Only)
    have "named_under t p" using p under_entry by simp
    moreover have "length q \<le> length p" using q(2) p by (auto simp: under_iff append_eq_append_conv2 Cons_eq_append_conv)
    ultimately show ?thesis using under_both [OF q(2) _ assms(3)] q(1) by blast
  qed
  with Some assms(1) show ?thesis by (auto simp: kept_by_iff allows_all_of_def)
qed

lemma plugins_kept:
  assumes "p \<in> whole_plugins (ToolsOnly left)" and "q \<in> whole_plugins (ToolsOnly right)"
    and "named_under t p" and "named_under t q" and "\<not> contains_str ''..'' t" and "length p \<le> length q"
  shows "q \<in> whole_plugins (ToolsOnly (both_names left right))"
proof -
  have "q = p \<or> named_under q p" using under_both assms by blast
  then have "allows_all_of (ToolsOnly left) q" using assms(1) by (auto simp: allows_all_of_def)
  moreover have "plugin_of (q @ ''.*'') = Some q" using assms(2) by (simp add: whole_plugins_iff plugin_of_Some)
  ultimately have "q @ ''.*'' \<in> kept_by right (ToolsOnly left)"
    using assms(2) by (simp add: kept_by_iff whole_plugins_iff)
  then show ?thesis using assms(2) by (simp add: whole_plugins_iff both_names_def)
qed

lemma both_names_complete:
  assumes "ts_allows (ToolsOnly left) t" and "ts_allows (ToolsOnly right) t"
    and "\<not> contains_str ''..'' t"
  shows "ts_allows (ToolsOnly (both_names left right)) t"
proof -
  have "t \<in> both_names left right \<or> (\<exists>q\<in>whole_plugins (ToolsOnly (both_names left right)). named_under t q)"
  proof (cases "t \<in> left \<or> t \<in> right")
    case True
    then show ?thesis using assms by (auto simp: both_names_def intro: name_kept)
  next
    case False
    then obtain p q where pq: "p \<in> whole_plugins (ToolsOnly left)" "named_under t p"
      "q \<in> whole_plugins (ToolsOnly right)" "named_under t q"
      using assms by (auto simp: ts_allows_Only)
    show ?thesis
    proof (cases "length p \<le> length q")
      case True
      then show ?thesis using plugins_kept [OF pq(1,3,2,4) assms(3)] pq(4) by blast
    next
      case False
      then show ?thesis
        using plugins_kept [OF pq(3,1,4,2) assms(3)] pq(2) both_names_sym [of left right] by auto
    qed
  qed
  with assms show ?thesis by (auto simp: ts_allows_Only both_names_excluding)
qed

lemma ts_intersect_sound:
  "ts_allows (ts_intersect a b) t \<Longrightarrow> ts_allows a t \<and> ts_allows b t"
  by (cases a; cases b)
    (auto simp: ts_intersect_Only dest: both_names_sound,
      metis both_names_sound both_names_sym)

lemma ts_intersect_complete:
  "ts_allows a t \<Longrightarrow> ts_allows b t \<Longrightarrow> \<not> contains_str ''..'' t \<Longrightarrow> ts_allows (ts_intersect a b) t"
  by (cases a; cases b)
    (auto simp: ts_intersect_Only intro: both_names_complete)

section \<open>Layers that only narrow\<close>

text \<open>
  The contract of layered permission: a meet that admits nothing either layer refuses. However
  many layers are met, in whatever grouping, the result is within every one of them, which is
  what makes handing a coworker on safe.
\<close>

locale permission_layers =
  fixes allows :: "'l \<Rightarrow> 'a \<Rightarrow> bool"
    and meet :: "'l \<Rightarrow> 'l \<Rightarrow> 'l"
  assumes meet_narrows: "allows (meet a b) x \<Longrightarrow> allows a x \<and> allows b x"
begin

lemma layers_narrow: "allows (foldl meet base ls) x \<Longrightarrow> allows base x \<and> (\<forall>l\<in>set ls. allows l x)"
proof (induction ls arbitrary: base)
  case (Cons l ls)
  have "allows (meet base l) x \<and> (\<forall>l\<in>set ls. allows l x)"
    using Cons.IH [of "meet base l"] Cons.prems by simp
  then show ?case using meet_narrows [of base l x] by simp
qed simp

end

text \<open>The same with a class of names on which nothing both layers admit is lost.\<close>

locale exact_layers = permission_layers +
  fixes proper :: "'a \<Rightarrow> bool"
  assumes meet_keeps: "allows a x \<Longrightarrow> allows b x \<Longrightarrow> proper x \<Longrightarrow> allows (meet a b) x"
begin

lemma layers_exact:
  "proper x \<Longrightarrow> allows (foldl meet base ls) x \<longleftrightarrow> allows base x \<and> (\<forall>l\<in>set ls. allows l x)"
proof (induction ls arbitrary: base)
  case (Cons l ls)
  have "allows (meet base l) x \<longleftrightarrow> allows base x \<and> allows l x"
    using meet_narrows [of base l x] meet_keeps [of base x l] Cons.prems by blast
  with Cons show ?case by simp
qed simp

end

interpretation tool_layers: exact_layers ts_allows ts_intersect "\<lambda>t. \<not> contains_str ''..'' t"
  by unfold_locales (auto dest: ts_intersect_sound intro: ts_intersect_complete)

section \<open>Decisions\<close>

lemma decide_tool_not_Deny:
  "(\<forall>why. decide_tool who cw t g oc \<noteq> Deny why) \<longleftrightarrow>
   (\<exists>c. oc = Some c \<and> c_coworker c = cw \<and> ts_allows (ts_intersect (c_tools c) (g_profile g)) t)"
  by (auto simp: decide_tool_def split: option.splits)

definition live_grant :: "account_id \<Rightarrow> coworker_id \<Rightarrow> policy_context \<Rightarrow> grant \<Rightarrow> bool" where
  "live_grant who cw ctx g \<longleftrightarrow>
     ctx_grant ctx = Some g \<and> \<not> g_revoked g \<and> g_principal g = who \<and> g_coworker g = cw"

definition not_denied :: "decision \<Rightarrow> bool" where
  "not_denied d \<longleftrightarrow> (\<forall>why. d \<noteq> Deny why)"

lemma use_coworker_iff: "is_allowed (policy_decide who cw UseCoworker ctx) \<longleftrightarrow> (\<exists>g. live_grant who cw ctx g)"
  by (auto simp: policy_decide_def live_grant_def split: option.splits)

lemma run_tool_not_denied:
  "not_denied (policy_decide who cw (RunTool t) ctx) \<longleftrightarrow>
   (\<exists>g c. live_grant who cw ctx g \<and> ctx_ceiling ctx = Some c \<and> c_coworker c = cw \<and>
      ts_allows (ts_intersect (c_tools c) (g_profile g)) t)"
  using decide_tool_not_Deny
  by (auto simp: not_denied_def policy_decide_def live_grant_def split: option.splits)

lemma run_tool_Allow:
  "policy_decide who cw (RunTool t) ctx = Allow \<longleftrightarrow>
   (\<exists>g c. live_grant who cw ctx g \<and> ctx_ceiling ctx = Some c \<and> c_coworker c = cw \<and>
      ts_allows (ts_intersect (c_tools c) (g_profile g)) t \<and> \<not> ts_allows (g_needs_approval g) t)"
  by (auto simp: policy_decide_def live_grant_def decide_tool_def split: option.splits if_splits)

text \<open>A name an entry of the set speaks for.\<close>

definition spoken_for :: "string set \<Rightarrow> string \<Rightarrow> bool" where
  "spoken_for names t \<longleftrightarrow> t \<in> names \<or> (\<exists>p\<in>whole_plugins (ToolsOnly names). named_under t p)"

lemma spoken_for_Un: "spoken_for (a \<union> b) t \<longleftrightarrow> spoken_for a t \<or> spoken_for b t"
  by (auto simp: spoken_for_def whole_plugins_iff)

lemma spoken_for_named: "spoken_for (set (map every_tool_of ps)) t \<Longrightarrow> \<exists>p\<in>set ps. named_under t p"
  using under_entry by (auto simp: spoken_for_def whole_plugins_iff every_tool_of_def)

lemma ts_allows_spoken:
  "ts_allows (ToolsOnly names) t \<longleftrightarrow>
     \<not> starts_with ''-'' t \<and> excluding t \<notin> names \<and> spoken_for names t \<and>
     (\<forall>g. group_of t = Some g \<longrightarrow> excluding g \<notin> names)"
  by (simp add: ts_allows_Only spoken_for_def)

lemma widened_allows:
  assumes "ts_allows (widened s ps) t"
  shows "ts_allows s t \<or> (\<exists>p\<in>set ps. named_under t p)"
proof (cases s)
  case (ToolsOnly names)
  show ?thesis
  proof (cases "ps = []")
    case False
    then have "widened s ps = ToolsOnly (names \<union> set (map every_tool_of ps))"
      by (simp add: widened_def ToolsOnly)
    with assms ToolsOnly spoken_for_named [of ps t] show ?thesis
      by (auto simp: ts_allows_spoken spoken_for_Un)
  qed (use assms ToolsOnly in \<open>simp add: widened_def\<close>)
next
  case ToolsNone
  then show ?thesis using assms spoken_for_named [of ps t]
    by (auto simp: widened_def ts_allows_spoken split: if_splits)
qed simp

lemma widened_never: "names_never s t \<Longrightarrow> names_never (widened s ps) t"
  by (cases s) (auto simp: widened_def Let_def)

lemma never_refuses: "names_never s t \<Longrightarrow> \<not> ts_allows s t"
  by (cases s) (auto simp: ts_allows_Only)

lemma entry_reaches_allowed:
  assumes "ts_allows (ToolsOnly names) t" and "starts_with pre t"
  shows "\<exists>n\<in>names. entry_reaches pre n"
proof -
  have reach: "entry_reaches pre (p @ ''.*'')"
    if plugin: "named_under t p" "p \<noteq> []" "CHR ''*'' \<notin> set p" for p
  proof -
    obtain r where r: "t = (p @ ''.'') @ r" using plugin(1) by (auto simp: under_iff)
    obtain u where u: "t = pre @ u" using assms(2) by (auto simp: starts_with_iff)
    from r u have "starts_with pre (p @ ''.'') \<or> starts_with (p @ ''.'') pre"
      unfolding starts_with_iff by (metis append_eq_append_conv2)
    then show ?thesis using plugin by (simp add: entry_reaches_def plugin_of_def)
  qed
  from assms(1) consider "t \<in> names" | p where "p \<in> whole_plugins (ToolsOnly names)" "named_under t p"
    by (auto simp: ts_allows_Only)
  then show ?thesis
  proof cases
    case 1
    show ?thesis
    proof (cases "plugin_of t")
      case None
      with assms(2) have "entry_reaches pre t" by (simp add: entry_reaches_def)
      with 1 show ?thesis by blast
    next
      case (Some p)
      with 1 reach [of p] show ?thesis by (auto simp: plugin_of_Some under_entry)
    qed
  next
    case 2
    with reach show ?thesis by (auto simp: whole_plugins_iff)
  qed
qed

lemma intersect_never: "\<not> names_never a t \<Longrightarrow> \<not> names_never b t \<Longrightarrow> \<not> names_never (ts_intersect a b) t"
  using both_names_excluding [of t]
  by (cases a; cases b) (auto simp: ts_intersect.simps Let_def both_names_def)

section \<open>Properties\<close>

text \<open>Permission is an intersection, never a union. What the meet of two tool sets admits,
  both admit, whatever their entries, whole plugins, exclusions and group switches; and every
  name both admit the meet admits, unless the name has an empty segment (two dots together),
  which no plugin's tool has.\<close>

theorem intersection_is_exact:
  "(ts_allows (ts_intersect a b) t \<longrightarrow> ts_allows a t \<and> ts_allows b t) \<and>
   (\<not> contains_str ''..'' t \<longrightarrow> (ts_allows (ts_intersect a b) t \<longleftrightarrow> ts_allows a t \<and> ts_allows b t))"
  using ts_intersect_sound ts_intersect_complete by blast

theorem intersection_is_exact_witness:
  "ts_allows (ts_intersect (ToolsOnly {''cf.*'', ''-cf.api.docs''}) (ToolsOnly {''cf.api.dns'', ''cf.api.docs''})) ''cf.api.dns'' \<and>
   \<not> ts_allows (ts_intersect (ToolsOnly {''cf.*'', ''-cf.api.docs''}) (ToolsOnly {''cf.api.dns'', ''cf.api.docs''})) ''cf.api.docs''"
proof -
  have "\<not> contains_str ''..'' ''cf.api.dns''" "\<not> contains_str ''..'' ''cf.api.docs''"
    "ts_allows (ToolsOnly {''cf.*'', ''-cf.api.docs''}) ''cf.api.dns''"
    "ts_allows (ToolsOnly {''cf.api.dns'', ''cf.api.docs''}) ''cf.api.dns''"
    "\<not> ts_allows (ToolsOnly {''cf.*'', ''-cf.api.docs''}) ''cf.api.docs''"
    by code_simp+
  then show ?thesis using intersection_is_exact by blast
qed

text \<open>However far a coworker is handed on, every layer still binds: a chain of profiles met one
  after another under a ceiling admits a tool only if the ceiling and every profile do, and
  exactly then for a name without an empty segment.\<close>

theorem delegation_only_narrows:
  "(ts_allows (foldl ts_intersect ceiling_tools profiles) t \<longrightarrow>
      ts_allows ceiling_tools t \<and> (\<forall>p\<in>set profiles. ts_allows p t)) \<and>
   (\<not> contains_str ''..'' t \<longrightarrow>
      ts_allows (foldl ts_intersect ceiling_tools profiles) t =
        (ts_allows ceiling_tools t \<and> (\<forall>p\<in>set profiles. ts_allows p t)))"
  using tool_layers.layers_narrow [of ceiling_tools profiles t]
    tool_layers.layers_exact [of t ceiling_tools profiles] by blast

theorem delegation_only_narrows_witness:
  "\<not> ts_allows (foldl ts_intersect ToolsAll [ToolsOnly {''shell''}, ToolsOnly {''files''}]) ''shell''"
proof -
  have "\<not> ts_allows (ToolsOnly {''files''}) ''shell''" by code_simp
  then show ?thesis
    using delegation_only_narrows [of ToolsAll "[ToolsOnly {''shell''}, ToolsOnly {''files''}]" "''shell''"]
    by auto
qed

text \<open>C38: a tool runs without a person's yes exactly when nothing is unknown and nothing refuses: a
  live grant of this principal for this coworker is on record, a ceiling of this coworker is,
  their intersection admits the tool, and the grant does not ask for approval of it. So both
  the ceiling and the profile admit it; every other answer is a denial or a wait.\<close>

theorem allow_needs_every_layer:
  "(policy_decide who cw (RunTool t) ctx = Allow) =
     (\<exists>g c. live_grant who cw ctx g \<and> ctx_ceiling ctx = Some c \<and> c_coworker c = cw \<and>
        ts_allows (ts_intersect (c_tools c) (g_profile g)) t \<and>
        ts_allows (c_tools c) t \<and> ts_allows (g_profile g) t \<and>
        \<not> ts_allows (g_needs_approval g) t)"
  unfolding run_tool_Allow using ts_intersect_sound by blast

text \<open>Asking for approval never widens access. A grant's approval list cannot turn a denial
  into anything else: with any other list in its place a denied action is denied still, and
  what waits for a yes would be allowed outright if the list were empty.\<close>

theorem approval_never_widens:
  "(not_denied (policy_decide who cw act (ctx\<lparr>ctx_grant := Some (g\<lparr>g_needs_approval := l\<rparr>)\<rparr>)) =
     not_denied (policy_decide who cw act (ctx\<lparr>ctx_grant := Some g\<rparr>))) \<and>
   (needs_approval (policy_decide who cw act (ctx\<lparr>ctx_grant := Some g\<rparr>)) \<longrightarrow>
     policy_decide who cw act (ctx\<lparr>ctx_grant := Some (g\<lparr>g_needs_approval := ToolsNone\<rparr>)\<rparr>) = Allow)"
  by (cases act)
    (auto simp: not_denied_def policy_decide_def decide_tool_def split: option.splits)

theorem approval_never_widens_witness:
  "policy_decide (AccountId ''a'') (CoworkerId ''c'') (RunTool ''shell'')
     \<lparr>ctx_grant = Some \<lparr>g_principal = AccountId ''a'', g_coworker = CoworkerId ''c'', g_profile = ToolsAll,
        g_needs_approval = ToolsNone, g_revoked = False\<rparr>,
      ctx_ceiling = Some \<lparr>c_coworker = CoworkerId ''c'', c_tools = ToolsOnly {''shell''}\<rparr>\<rparr> = Allow"
proof -
  let ?g = "\<lparr>g_principal = AccountId ''a'', g_coworker = CoworkerId ''c'', g_profile = ToolsAll,
        g_needs_approval = ToolsAll, g_revoked = False\<rparr>"
  let ?ctx = "\<lparr>ctx_grant = Some ?g,
      ctx_ceiling = Some \<lparr>c_coworker = CoworkerId ''c'', c_tools = ToolsOnly {''shell''}\<rparr>\<rparr>"
  have "ts_allows (ToolsOnly {''shell''}) ''shell''" by code_simp
  then have "needs_approval (policy_decide (AccountId ''a'') (CoworkerId ''c'') (RunTool ''shell'')
      (?ctx\<lparr>ctx_grant := Some ?g\<rparr>))"
    by (simp add: policy_decide_def decide_tool_def)
  with approval_never_widens [where who = "AccountId ''a''" and cw = "CoworkerId ''c''"
      and act = "RunTool ''shell''" and ctx = ?ctx and g = ?g]
  show ?thesis by simp
qed

text \<open>Skipping a plugin's server loses nothing. If any tool whose name begins with the prefix
  could run or be held for a yes, \<open>may_run_any_under\<close> says so; it is an optimisation that
  never hides a tool the policy admits.\<close>

theorem prefix_check_is_complete:
  assumes "not_denied (policy_decide who cw (RunTool t) ctx)" and "starts_with pre t"
  shows "may_run_any_under who cw pre ctx"
proof -
  from assms(1) obtain g c where g: "live_grant who cw ctx g" and c: "ctx_ceiling ctx = Some c"
    "c_coworker c = cw" and t: "ts_allows (ts_intersect (c_tools c) (g_profile g)) t"
    by (auto simp: run_tool_not_denied)
  have "is_allowed (policy_decide who cw UseCoworker ctx)" using g by (auto simp: use_coworker_iff)
  moreover have "ctx_grant ctx = Some g" using g by (simp add: live_grant_def)
  ultimately show ?thesis
    using c t entry_reaches_allowed [OF _ assms(2)]
    by (cases "ts_intersect (c_tools c) (g_profile g)") (auto simp: may_run_any_under_def)
qed

definition sample_context :: policy_context where
  "sample_context =
     \<lparr>ctx_grant = Some \<lparr>g_principal = AccountId ''a'', g_coworker = CoworkerId ''c'', g_profile = ToolsAll,
        g_needs_approval = ToolsNone, g_revoked = False\<rparr>,
      ctx_ceiling = Some \<lparr>c_coworker = CoworkerId ''c'', c_tools = ToolsOnly {''cf.*'', ''-cf.api.docs''}\<rparr>\<rparr>"

theorem prefix_check_is_complete_witness:
  "may_run_any_under (AccountId ''a'') (CoworkerId ''c'') ''cf.api.'' sample_context"
proof (rule prefix_check_is_complete [where t = "''cf.api.dns''"])
  have "policy_decide (AccountId ''a'') (CoworkerId ''c'') (RunTool ''cf.api.dns'') sample_context = Allow"
    by code_simp
  then show "not_denied (policy_decide (AccountId ''a'') (CoworkerId ''c'') (RunTool ''cf.api.dns'') sample_context)"
    by (simp add: not_denied_def)
  show "starts_with ''cf.api.'' ''cf.api.dns''" by code_simp
qed

text \<open>A mention widens only what it names. In a turn that mentions plugins, a tool that was
  denied and is not denied now is named under one of them; and a tool the ceiling or the
  profile marks Never stays denied.\<close>

theorem mention_widens_only_named:
  assumes "not_denied (policy_decide who cw (RunTool t) (with_mentioned ctx plugins))"
    and "\<not> contains_str ''..'' t"
  shows "(not_denied (policy_decide who cw (RunTool t) ctx) \<or> (\<exists>p\<in>set plugins. named_under t p)) \<and>
    (\<forall>g. ctx_grant ctx = Some g \<longrightarrow> \<not> names_never (g_profile g) t) \<and>
    (\<forall>c. ctx_ceiling ctx = Some c \<longrightarrow> \<not> names_never (c_tools c) t)"
proof -
  from assms(1) obtain g' c' where
    g': "live_grant who cw (with_mentioned ctx plugins) g'"
    and c': "ctx_ceiling (with_mentioned ctx plugins) = Some c'" "c_coworker c' = cw"
    and t': "ts_allows (ts_intersect (c_tools c') (g_profile g')) t"
    unfolding run_tool_not_denied by blast
  obtain g where g: "live_grant who cw ctx g" "g' = g\<lparr>g_profile := widened (g_profile g) plugins\<rparr>"
    using g' by (auto simp: live_grant_def with_mentioned_def)
  obtain c where c0: "ctx_ceiling ctx = Some c" "c' = c\<lparr>c_tools := widened (c_tools c) plugins\<rparr>"
    using c'(1) by (cases "ctx_ceiling ctx") (simp_all add: with_mentioned_def)
  have c: "ctx_ceiling ctx = Some c" "c_coworker c = cw"
    using c0 c'(2) by simp_all
  have t: "ts_allows (ts_intersect (widened (c_tools c) plugins) (widened (g_profile g) plugins)) t"
    using t' by (simp add: g(2) c0(2))
  then have both: "ts_allows (widened (c_tools c) plugins) t" "ts_allows (widened (g_profile g) plugins) t"
    using ts_intersect_sound by blast+
  have "not_denied (policy_decide who cw (RunTool t) ctx)" if "\<not> (\<exists>p\<in>set plugins. named_under t p)"
  proof -
    have "ts_allows (c_tools c) t" "ts_allows (g_profile g) t"
      using that both widened_allows by blast+
    then have "ts_allows (ts_intersect (c_tools c) (g_profile g)) t"
      using assms(2) by (rule ts_intersect_complete)
    with g(1) c show ?thesis by (auto simp: run_tool_not_denied)
  qed
  moreover have "\<not> names_never (g_profile g) t" "\<not> names_never (c_tools c) t"
    using both widened_never never_refuses by blast+
  ultimately show ?thesis using g(1) c(1) by (auto simp: live_grant_def)
qed

theorem mention_widens_only_named_witness:
  "not_denied (policy_decide (AccountId ''a'') (CoworkerId ''c'') (RunTool ''git.hub.issues'')
      (with_mentioned sample_context [''git''])) \<and>
   (\<exists>p\<in>{''git''}. named_under ''git.hub.issues'' p)"
proof -
  have after: "policy_decide (AccountId ''a'') (CoworkerId ''c'') (RunTool ''git.hub.issues'')
      (with_mentioned sample_context [''git'']) = Allow"
    and before: "policy_decide (AccountId ''a'') (CoworkerId ''c'') (RunTool ''git.hub.issues'')
      sample_context = Deny (CoworkerMayNever (CoworkerId ''c'') ''git.hub.issues'')"
    and proper: "\<not> contains_str ''..'' ''git.hub.issues''"
    by code_simp+
  from after have nd: "not_denied (policy_decide (AccountId ''a'') (CoworkerId ''c'')
      (RunTool ''git.hub.issues'') (with_mentioned sample_context [''git'']))"
    by (simp add: not_denied_def)
  from mention_widens_only_named [OF nd proper] before nd show ?thesis by (simp add: not_denied_def)
qed

text \<open>An installed plugin is on only by name. What names a plugin admits it whole, a set that
  admits everything names none, and a tool under a named plugin is not denied unless the
  ceiling or the profile marks it Never (or a group of tools has its name).\<close>

theorem named_plugin_is_admitted:
  assumes "names_plugin who cw plugin ctx"
  shows "admits_plugin who cw plugin ctx \<and>
    (\<exists>g c. live_grant who cw ctx g \<and> ctx_ceiling ctx = Some c \<and>
       (c_tools c \<noteq> ToolsAll \<or> g_profile g \<noteq> ToolsAll) \<and>
       (\<forall>t. named_under t plugin \<and> \<not> starts_with ''-'' t \<and> group_of t = None \<and>
            \<not> names_never (c_tools c) t \<and> \<not> names_never (g_profile g) t \<longrightarrow>
            not_denied (policy_decide who cw (RunTool t) ctx)))"
proof -
  from assms obtain g c where g: "live_grant who cw ctx g" and c: "ctx_ceiling ctx = Some c"
    "c_coworker c = cw" and p: "plugin \<in> whole_plugins (ts_intersect (c_tools c) (g_profile g))"
    by (auto simp: names_plugin_def use_coworker_iff live_grant_def split: option.splits)
  have admits: "admits_plugin who cw plugin ctx"
    using assms p g c by (auto simp: names_plugin_def admits_plugin_def allows_all_of_def
        split: option.splits)
  have "not_denied (policy_decide who cw (RunTool t) ctx)"
    if "named_under t plugin" "\<not> starts_with ''-'' t" "group_of t = None"
      "\<not> names_never (c_tools c) t" "\<not> names_never (g_profile g) t" for t
  proof -
    have "\<not> names_never (ts_intersect (c_tools c) (g_profile g)) t"
      using that(4,5) by (rule intersect_never)
    then have "ts_allows (ts_intersect (c_tools c) (g_profile g)) t"
      using that(1,2,3) p by (cases "ts_intersect (c_tools c) (g_profile g)")
        (auto simp: ts_allows_Only)
    with g c show ?thesis by (auto simp: run_tool_not_denied)
  qed
  moreover have "c_tools c \<noteq> ToolsAll \<or> g_profile g \<noteq> ToolsAll" using p by auto
  ultimately show ?thesis using admits g c by blast
qed

theorem named_plugin_is_admitted_witness:
  "names_plugin (AccountId ''a'') (CoworkerId ''c'') ''cf'' sample_context \<and>
   admits_plugin (AccountId ''a'') (CoworkerId ''c'') ''cf'' sample_context"
proof -
  have named: "names_plugin (AccountId ''a'') (CoworkerId ''c'') ''cf'' sample_context"
    by (simp add: names_plugin_def sample_context_def policy_decide_def whole_plugins_iff)
  from named_plugin_is_admitted [OF named] named show ?thesis by blast
qed

end
