(* ===== verification/Text_Words.thy ===== *)
theory Text_Words
  imports Prelude
begin

text \<open>
  The algebra of \<open>split_whitespace\<close> and \<open>trim\<close> that the cron expressions rest on: white
  space anywhere cuts a text in two, words joined by a space are those words again, and
  trimming changes no word. White space is more than one byte in UTF-8, so the proofs rest on
  how its sequences overlap: none begins with a byte another continues with.
\<close>

definition continues :: "char \<Rightarrow> bool" where
  "continues c \<longleftrightarrow> 128 \<le> byte c \<and> byte c < 192"

lemma white_spaces_shape:
  "list_all (\<lambda>v. v \<noteq> [] \<and> \<not> continues (hd v) \<and> list_all continues (tl v)) white_spaces"
  by code_simp

lemma white_space_cases:
  assumes "v \<in> set white_spaces"
  shows "v \<noteq> []" "\<not> continues (hd v)" "list_all continues (tl v)"
  using assms white_spaces_shape by (auto simp: list_all_iff)

lemma white_spaces_space [simp]: "[CHR '' ''] \<in> set white_spaces"
  by (simp add: white_spaces_def)

lemma white_space_space:
  assumes "v \<in> set white_spaces" and "CHR '' '' \<in> set v"
  shows "v = '' ''"
proof -
  have "list_all (\<lambda>v. CHR '' '' \<in> set v \<longrightarrow> v = '' '') white_spaces" by code_simp
  with assms show ?thesis by (simp add: list_all_iff)
qed

text \<open>A sequence that begins inside a text ends inside it, when white space follows.\<close>

lemma white_space_inside:
  assumes "v \<in> set white_spaces" and "w \<in> set white_spaces" and "s \<noteq> []"
  shows "prefix v (s @ w @ r) \<longleftrightarrow> prefix v s"
proof
  assume "prefix v (s @ w @ r)"
  then have "prefix v s \<or> (\<exists>u. v = s @ u \<and> prefix u (w @ r))"
    by (simp only: prefix_append [of v s "w @ r"])
  then show "prefix v s"
  proof
    assume "\<exists>u. v = s @ u \<and> prefix u (w @ r)"
    then obtain u where vu: "v = s @ u" "prefix u (w @ r)" by blast
    show ?thesis
    proof (cases "u = []")
      case True
      then show ?thesis using vu by simp
    next
      case False
      note u = False vu
      have "hd u = hd w"
        using u(1,3) white_space_cases(1) [OF assms(2)]
        by (cases u; cases w) auto
      moreover have "hd u \<in> set (tl v)" using u assms(3) by (cases s; cases u) auto
      ultimately have False
        using white_space_cases(3) [OF assms(1)] white_space_cases(2) [OF assms(2)]
        by (auto simp: list_all_iff)
      then show ?thesis ..
    qed
  qed
qed (auto simp: prefix_def)

lemma take_prefix: "take (length w) s = w \<longleftrightarrow> prefix w s"
  by (metis append_eq_conv_conj prefix_def)

lemma strip_one_Cons:
  "strip_one (w # ws) s =
     (if w \<noteq> [] \<and> prefix w s then Some (drop (length w) s) else strip_one ws s)"
  by (simp only: strip_one.simps take_prefix)

declare strip_one.simps(2) [simp del]

lemma strip_all_Some: "strip_one ws s = Some r \<Longrightarrow> strip_all ws s = strip_all ws r"
  by (simp add: strip_all.simps [of ws s])

lemma strip_one_append:
  assumes "set ws \<subseteq> set white_spaces" and "w \<in> set white_spaces" and "s \<noteq> []"
  shows "strip_one ws (s @ w @ r) = map_option (\<lambda>x. x @ w @ r) (strip_one ws s)"
  using assms(1)
proof (induction ws)
  case (Cons v ws)
  then have "v \<in> set white_spaces" by simp
  then have "prefix v (s @ w @ r) \<longleftrightarrow> prefix v s" using assms by (intro white_space_inside)
  moreover have "prefix v s \<Longrightarrow> length v \<le> length s" by (rule prefix_length_le)
  ultimately show ?case using Cons by (auto simp: strip_one_Cons)
qed simp

lemma white_spaces_prefix_free:
  assumes "v \<in> set white_spaces" and "w \<in> set white_spaces" and "prefix v (w @ r)"
  shows "v = w"
proof -
  have pairs: "list_all (\<lambda>v. list_all (\<lambda>w. take (min (length v) (length w)) v
      = take (min (length v) (length w)) w \<longrightarrow> v = w) white_spaces) white_spaces"
    by code_simp
  have "take (min (length v) (length w)) v = take (min (length v) (length w)) w"
    using assms(3) by (auto simp: prefix_def min_def append_eq_append_conv2)
  then show ?thesis using pairs assms(1,2) by (auto simp: list_all_iff)
qed

lemma strip_one_white:
  assumes "w \<in> set white_spaces"
  shows "strip_one white_spaces (w @ r) = Some r"
proof -
  have "w \<in> set ws \<Longrightarrow> set ws \<subseteq> set white_spaces \<Longrightarrow> strip_one ws (w @ r) = Some r" for ws
  proof (induction ws)
    case (Cons v ws)
    show ?case
    proof (cases "v \<noteq> [] \<and> prefix v (w @ r)")
      case True
      then have "v = w" using Cons.prems assms by (auto intro: white_spaces_prefix_free)
      then show ?thesis using True by (simp add: strip_one_Cons)
    next
      case False
      then have "v \<noteq> w" using white_space_cases(1) [OF assms] by (auto simp: prefix_def)
      with False Cons show ?thesis by (auto simp: strip_one_Cons)
    qed
  qed simp
  then show ?thesis using assms by blast
qed

section \<open>White space cuts\<close>

lemma split_ws_white: "w \<in> set white_spaces \<Longrightarrow>
    split_ws cur (w @ r) = (if cur = [] then split_ws [] r else rev cur # split_ws [] r)"
proof -
  assume w: "w \<in> set white_spaces"
  from white_space_cases(1) [OF w] obtain c cs where "w @ r = c # cs" by (cases "w @ r") auto
  then show ?thesis using strip_one_white [OF w, of r] by simp
qed

lemma split_ws_append:
  assumes "w \<in> set white_spaces"
  shows "split_ws cur (s @ w @ r) = split_ws cur s @ split_ws [] r"
proof (induction cur s rule: split_ws.induct)
  case (1 cur)
  then show ?case using assms by (simp add: split_ws_white)
next
  case (2 cur c cs)
  have "strip_one white_spaces (c # cs @ w @ r)
      = map_option (\<lambda>x. x @ w @ r) (strip_one white_spaces (c # cs))"
    using strip_one_append [OF order_refl assms, of "c # cs" r] by simp
  with 2 show ?case by (cases "strip_one white_spaces (c # cs)") auto
qed

lemma split_whitespace_append:
  "w \<in> set white_spaces \<Longrightarrow> split_whitespace (s @ w @ r) = split_whitespace s @ split_whitespace r"
  by (simp add: split_whitespace_def split_ws_append)

lemma split_whitespace_Nil [simp]: "split_whitespace [] = []"
  by (simp add: split_whitespace_def)

lemma split_whitespace_white: "w \<in> set white_spaces \<Longrightarrow> split_whitespace (w @ r) = split_whitespace r"
  using split_whitespace_append [of w "[]" r] by simp

lemma strip_one_Some: "strip_one ws s = Some r \<Longrightarrow> \<exists>w\<in>set ws. w \<noteq> [] \<and> s = w @ r"
proof (induction ws)
  case (Cons w ws)
  then show ?case by (auto simp: strip_one_Cons prefix_def split: if_splits)
qed simp

lemma split_whitespace_trim_start: "split_whitespace (trim_start s) = split_whitespace s"
proof -
  have "ws = white_spaces \<Longrightarrow> split_whitespace (strip_all ws s) = split_whitespace s" for ws
  proof (induction ws s rule: strip_all.induct)
    case (1 ws s)
    show ?case
    proof (cases "strip_one ws s")
      case (Some r)
      then obtain w where "w \<in> set white_spaces" "s = w @ r"
        using strip_one_Some 1(2) by blast
      then have "split_whitespace s = split_whitespace r" by (simp add: split_whitespace_white)
      with 1(1) [OF Some 1(2)] strip_all_Some [OF Some] show ?thesis by simp
    qed (simp add: strip_all_fix)
  qed
  then show ?thesis by (simp add: trim_start_def)
qed

lemma split_whitespace_trim_end: "split_whitespace (trim_end s) = split_whitespace s"
proof -
  have "ws = map rev white_spaces \<Longrightarrow> split_whitespace (rev (strip_all ws t)) = split_whitespace (rev t)"
    for ws t
  proof (induction ws t rule: strip_all.induct)
    case (1 ws t)
    show ?case
    proof (cases "strip_one ws t")
      case (Some r)
      then obtain w where w: "w \<in> set white_spaces" "t = rev w @ r"
        using strip_one_Some [OF Some] 1(2) by auto
      then have "split_whitespace (rev t) = split_whitespace (rev r)"
        using split_whitespace_append [OF w(1), of "rev r" "[]"] by simp
      with 1(1) [OF Some 1(2)] strip_all_Some [OF Some] show ?thesis by simp
    qed (simp add: strip_all_fix)
  qed
  from this [of "map rev white_spaces" "rev s"] show ?thesis by (simp add: trim_end_def)
qed

lemma split_whitespace_trim [simp]: "split_whitespace (trim s) = split_whitespace s"
  by (simp add: trim_def split_whitespace_trim_end split_whitespace_trim_start)

section \<open>Words\<close>

text \<open>A text with no white space in it; a word is one that is not empty.\<close>

definition no_white :: "string \<Rightarrow> bool" where
  "no_white s \<longleftrightarrow> (\<forall>v\<in>set white_spaces. \<not> contains_str v s)"

definition a_word :: "string \<Rightarrow> bool" where
  "a_word s \<longleftrightarrow> s \<noteq> [] \<and> no_white s"

lemma no_white_suffix: "no_white (a @ b) \<Longrightarrow> no_white b"
  unfolding no_white_def contains_str_iff by (metis append_assoc)

lemma no_white_prefix: "no_white (a @ b) \<Longrightarrow> no_white a"
  unfolding no_white_def contains_str_iff by (metis append_assoc)

lemma no_white_strip: "no_white s \<Longrightarrow> strip_one white_spaces s = None"
  unfolding no_white_def contains_str_iff strip_one_None_iff prefix_def
  by (metis append_Nil)

lemma split_ws_no_white:
  "no_white s \<Longrightarrow> split_ws cur s = (if cur = [] \<and> s = [] then [] else [rev cur @ s])"
proof (induction cur s rule: split_ws.induct)
  case (2 cur c cs)
  have "no_white cs" using no_white_suffix [of "[c]" cs] 2(4) by simp
  with 2 no_white_strip [OF 2(4)] show ?case by simp
qed simp

lemma split_whitespace_word: "a_word s \<Longrightarrow> split_whitespace s = [s]"
  by (simp add: a_word_def split_whitespace_def split_ws_no_white)

lemma split_whitespace_join: "\<forall>w\<in>set ws. a_word w \<Longrightarrow> split_whitespace (join '' '' ws) = ws"
proof (induction ws)
  case (Cons w ws)
  show ?case
  proof (cases "ws = []")
    case False
    then have "join '' '' (w # ws) = w @ '' '' @ join '' '' ws" by (simp add: join_Cons)
    then have "split_whitespace (join '' '' (w # ws)) = split_whitespace w @ split_whitespace (join '' '' ws)"
      by (simp only: split_whitespace_append [OF white_spaces_space])
    with Cons show ?thesis by (simp add: split_whitespace_word)
  qed (use Cons in \<open>simp add: split_whitespace_word\<close>)
qed simp

text \<open>What \<open>split_whitespace\<close> gives is words: none holds white space.\<close>

lemma no_white_cur:
  assumes "\<forall>v\<in>set white_spaces. \<forall>a b. rev cur = a @ b \<and> b \<noteq> [] \<longrightarrow> \<not> prefix v (b @ s)"
  shows "no_white (rev cur)"
  unfolding no_white_def contains_str_iff
proof (intro ballI notI)
  fix v assume v: "v \<in> set white_spaces" "\<exists>a b. rev cur = a @ v @ b"
  then obtain a b where "rev cur = a @ (v @ b)" by blast
  then have "\<not> prefix v ((v @ b) @ s)"
    using assms v(1) white_space_cases(1) [OF v(1)] by (metis append_is_Nil_conv)
  then show False by (simp add: prefix_def)
qed

lemma split_ws_words:
  assumes "\<forall>v\<in>set white_spaces. \<forall>a b. rev cur = a @ b \<and> b \<noteq> [] \<longrightarrow> \<not> prefix v (b @ s)"
  shows "\<forall>w\<in>set (split_ws cur s). no_white w"
  using assms
proof (induction cur s rule: split_ws.induct)
  case (1 cur)
  then show ?case using no_white_cur [of cur "[]"] by simp
next
  case (2 cur c cs)
  show ?case
  proof (cases "strip_one white_spaces (c # cs)")
    case None
    have "\<forall>v\<in>set white_spaces. \<forall>a b. rev (c # cur) = a @ b \<and> b \<noteq> [] \<longrightarrow> \<not> prefix v (b @ cs)"
    proof (intro ballI allI impI)
      fix v a b assume v: "v \<in> set white_spaces" and ab: "rev (c # cur) = a @ b \<and> b \<noteq> []"
      then obtain b' where b': "b = b' @ [c]" "rev cur = a @ b'"
        by (cases b rule: rev_cases) auto
      show "\<not> prefix v (b @ cs)"
      proof (cases "b' = []")
        case True
        then show ?thesis using None v b' white_space_cases(1) [OF v] by (simp add: strip_one_None_iff)
      next
        case False
        then show ?thesis using 2(4) v b' by fastforce
      qed
    qed
    from 2(1) [OF None this] None show ?thesis by simp
  next
    case (Some r)
    have fresh: "\<forall>w\<in>set (split_ws [] r). no_white w" using 2(2,3) Some by (cases "cur = []") auto
    have "no_white (rev cur)" using 2(4) by (rule no_white_cur)
    with fresh Some show ?thesis by simp
  qed
qed

lemma split_whitespace_words: "w \<in> set (split_whitespace s) \<Longrightarrow> a_word w"
  using split_ws_words [of "[]" s] split_whitespace_nonempty [of s]
  by (auto simp: a_word_def split_whitespace_def)

lemma trim_word_ends:
  assumes "strip_one white_spaces s = None" and "\<forall>v\<in>set white_spaces. \<not> suffix v s"
  shows "trim s = s"
proof -
  have "strip_one (map rev white_spaces) (rev s) = None"
    using assms(2) by (auto simp: strip_one_None_iff suffix_to_prefix)
  then have "trim_end s = s" by (simp add: trim_end_def strip_all_fix)
  moreover have "trim_start s = s" using assms(1) by (simp add: trim_start_def strip_all_fix)
  ultimately show ?thesis by (simp add: trim_def)
qed

text \<open>Words joined by spaces need no trimming.\<close>

lemma trim_join:
  assumes "ws \<noteq> []" and "\<forall>w\<in>set ws. a_word w"
  shows "trim (join '' '' ws) = join '' '' ws"
proof (rule trim_word_ends)
  obtain w rest where ws: "ws = w # rest" using assms(1) by (cases ws) auto
  then have w: "a_word w" using assms(2) by simp
  show "strip_one white_spaces (join '' '' ws) = None"
  proof (cases "rest = []")
    case True
    then show ?thesis using ws w by (simp add: a_word_def no_white_strip)
  next
    case False
    then have "join '' '' ws = w @ '' '' @ join '' '' rest" using ws by (simp add: join_Cons)
    moreover have "w \<noteq> []" "strip_one white_spaces w = None"
      using w by (simp_all add: a_word_def no_white_strip)
    ultimately show ?thesis
      using strip_one_append [OF order_refl white_spaces_space, of w] by simp
  qed
  show "\<forall>v\<in>set white_spaces. \<not> suffix v (join '' '' ws)"
  proof (intro ballI notI)
    fix v assume v: "v \<in> set white_spaces" "suffix v (join '' '' ws)"
    have "\<exists>a u. join '' '' ws = a @ u \<and> a_word u \<and> (a = [] \<or> last a = CHR '' '')"
      using assms
    proof (induction ws)
      case (Cons x xs)
      show ?case
      proof (cases "xs = []")
        case True
        then show ?thesis using Cons by (intro exI [of _ "[]"] exI [of _ x]) simp
      next
        case False
        then obtain a u where "join '' '' xs = a @ u" "a_word u" "a = [] \<or> last a = CHR '' ''"
          using Cons by auto
        then show ?thesis using False
          by (intro exI [of _ "x @ '' '' @ a"] exI [of _ u]) (auto simp: join_Cons)
      qed
    qed simp
    then obtain a u where au: "join '' '' ws = a @ u" "a_word u" "a = [] \<or> last a = CHR '' ''"
      by blast
    show False
    proof (cases "length v \<le> length u")
      case True
      then have "suffix v u"
        using v(2) au(1) by (metis suffix_appendI suffix_length_suffix suffix_order.refl)
      then obtain z where "u = z @ v @ []" by (auto simp: suffix_def)
      then have "contains_str v u" unfolding contains_str_iff by blast
      then show False using au(2) v(1) by (simp add: a_word_def no_white_def)
    next
      case False
      then have "suffix u v" "a \<noteq> []"
        using v(2) au(1)
        by (metis nat_le_linear suffix_appendI suffix_length_suffix suffix_order.refl,
            metis append_Nil au(1) suffix_length_le v(2))
      then obtain p where p: "v = p @ u" by (auto simp: suffix_def)
      have "p \<noteq> []" using False p by auto
      have "suffix p a" using v(2) au(1) p by (auto simp: suffix_def)
      then have "last p = CHR '' ''" using au(3) \<open>a \<noteq> []\<close> \<open>p \<noteq> []\<close> by (auto simp: suffix_def)
      moreover have "u \<noteq> []" using au(2) by (simp add: a_word_def)
      moreover have "last p \<in> set v" using p \<open>p \<noteq> []\<close> by simp
      ultimately have "length v = 1" using white_space_space [OF v(1)] by simp
      then show False using p \<open>p \<noteq> []\<close> \<open>u \<noteq> []\<close> by (cases p; cases u) auto
    qed
  qed
qed

text \<open>Printable ASCII holds no white space.\<close>

lemma white_space_not_plain:
  assumes "v \<in> set white_spaces" and "c \<in> set v"
  shows "\<not> (33 \<le> byte c \<and> byte c < 128)"
proof -
  have "list_all (\<lambda>v. list_all (\<lambda>c. \<not> (33 \<le> byte c \<and> byte c < 128)) v) white_spaces" by code_simp
  with assms show ?thesis by (simp add: list_all_iff)
qed

lemma no_white_plain: "\<forall>c\<in>set s. 33 \<le> byte c \<and> byte c < 128 \<Longrightarrow> no_white s"
  unfolding no_white_def contains_str_iff
proof (intro ballI notI)
  fix v assume plain: "\<forall>c\<in>set s. 33 \<le> byte c \<and> byte c < 128" and v: "v \<in> set white_spaces"
    and "\<exists>a b. s = a @ v @ b"
  then have "hd v \<in> set s" using white_space_cases(1) [OF v] by (cases v) auto
  moreover have "hd v \<in> set v" using white_space_cases(1) [OF v] by simp
  ultimately show False using plain white_space_not_plain [OF v] by blast
qed

end
