(* ===== verification/Cron.thy ===== *)
theory Cron
  imports Text_Words
begin

text \<open>
  The cron expressions of \<open>opengrok-core/src/schedule.rs\<close>: five fields as people write them
  become the six the \<open>cron\<close> crate reads, with standard cron's numbered days of the week
  (0 and 7 Sunday) written as names, because the crate counts Sunday as 1. \<open>display_cron\<close>
  is the way back, \<open>under_a_minute\<close> the floor a routine is held to, and \<open>next_fire_ms\<close>
  asks the crate.

  The \<open>cron\<close> and \<open>chrono-tz\<close> crates are parameters: \<open>tz_known\<close> is whether the zone
  database knows a name, \<open>cron_after\<close> the first occurrence of a six- or seven-field
  expression after an instant, in a zone.
\<close>

datatype cron_refusal =
    NotADay string string
  | NoFutureFire string

definition weekdays :: "string list" where
  "weekdays = [''SUN'', ''MON'', ''TUE'', ''WED'', ''THU'', ''FRI'', ''SAT'', ''SUN'']"

definition item_base :: "string \<Rightarrow> string" where
  "item_base item = (case split_once CHR ''/'' item of Some (b, _) \<Rightarrow> b | None \<Rightarrow> item)"

definition numbers_a_day :: "string \<Rightarrow> bool" where
  "numbers_a_day item \<longleftrightarrow> list_ex is_ascii_digit (item_base item)"

definition day_number :: "string \<Rightarrow> string \<Rightarrow> string + nat" where
  "day_number item s =
     (case parse_usize s of
        Some n \<Rightarrow> if n \<le> 7 \<and> list_all is_ascii_digit s then Inr n else Inl item
      | None \<Rightarrow> Inl item)"

text \<open>The names of the days from \<open>first\<close> to \<open>last\<close>, with Sunday by itself where a range
  that ends on 7 lands on it: the crate takes no range that wraps.\<close>

definition day_names :: "nat \<Rightarrow> nat \<Rightarrow> nat \<Rightarrow> string option \<Rightarrow> string list" where
  "day_names first_day last_day every step =
     (let sunday = (last_day = 7 \<and> 1 \<le> first_day \<and> first_day < 7 \<and> (7 - first_day) mod every = 0);
          stop_day = (if first_day < 7 then min last_day 6 else last_day);
          stepped = (case step of Some s \<Rightarrow> ''/'' @ s | None \<Rightarrow> [])
      in (if first_day = stop_day then weekdays ! first_day
          else weekdays ! first_day @ ''-'' @ weekdays ! stop_day @ stepped)
         # (if sunday then [''SUN''] else []))"

definition named_item :: "string \<Rightarrow> string + string list" where
  "named_item item =
     (if \<not> numbers_a_day item then Inr [item]
      else
        let base = item_base item; step = map_option snd (split_once CHR ''/'' item)
        in rbind (case split_once CHR ''-'' base of
                    Some (f, l) \<Rightarrow>
                      rbind (day_number item f) (\<lambda>first_day.
                      rbind (day_number item l) (\<lambda>last_day. Inr (first_day, last_day)))
                  | None \<Rightarrow>
                      rbind (day_number item base) (\<lambda>day.
                      Inr (day, if step \<noteq> None then 7 else day))) (\<lambda>(first_day, last_day).
           rbind (case step of Some s \<Rightarrow> day_number item s | None \<Rightarrow> Inr 1) (\<lambda>every.
           if first_day > last_day \<or> every = 0 then Inl item
           else Inr (day_names first_day last_day every step))))"

fun named_items :: "string list \<Rightarrow> string + string list" where
  "named_items [] = Inr []"
| "named_items (item # items) =
     rbind (named_item item) (\<lambda>names. rbind (named_items items) (\<lambda>more. Inr (names @ more)))"

definition named_weekdays :: "string \<Rightarrow> string + string" where
  "named_weekdays field = rbind (named_items (split_on CHR '','' field)) (\<lambda>names. Inr (join '','' names))"

definition normalized_cron :: "string \<Rightarrow> cron_refusal + string" where
  "normalized_cron expression =
     (case split_whitespace expression of
        [minute, hour, day_of_month, month, days] \<Rightarrow>
          rbind (map_err (NotADay (trim expression)) (named_weekdays days)) (\<lambda>named.
          Inr (join '' '' [''0'', minute, hour, day_of_month, month, named]))
      | _ \<Rightarrow> Inr (trim expression))"

definition under_a_minute :: "string \<Rightarrow> bool" where
  "under_a_minute expression =
     (case normalized_cron expression of
        Inr c \<Rightarrow> (case split_whitespace c of f # _ \<Rightarrow> f \<noteq> ''0'' | [] \<Rightarrow> True)
      | Inl _ \<Rightarrow> False)"

definition display_cron :: "string \<Rightarrow> string" where
  "display_cron normalized =
     (case split_whitespace normalized of
        [seconds, minute, hour, day_of_month, month, days] \<Rightarrow>
          if seconds = ''0'' \<and> \<not> list_ex numbers_a_day (split_on CHR '','' days)
          then join '' '' [minute, hour, day_of_month, month, days]
          else normalized
      | _ \<Rightarrow> normalized)"

definition next_fire_ms ::
  "(string \<Rightarrow> bool) \<Rightarrow> (string \<Rightarrow> string \<Rightarrow> int \<Rightarrow> int option) \<Rightarrow> string \<Rightarrow> string \<Rightarrow> int \<Rightarrow> int option" where
  "next_fire_ms tz_known cron_after expression tz after =
     (case normalized_cron expression of
        Inl _ \<Rightarrow> None
      | Inr c \<Rightarrow> if tz_known tz then cron_after c tz after else None)"

section \<open>The days a field means\<close>

text \<open>The standard reading of a numbered item: from first to last in steps, 7 being Sunday again.\<close>

definition standard_days :: "nat \<Rightarrow> nat \<Rightarrow> nat \<Rightarrow> nat list" where
  "standard_days first_day last_day every =
     map (\<lambda>d. d mod 7) (filter (\<lambda>d. (d - first_day) mod every = 0) [first_day..<Suc last_day])"

text \<open>What a named piece means: a name is its day, a range of names runs through the week from
  Sunday to Saturday, in steps when it has one. The first index of a name is its day.\<close>

definition name_day :: "string \<Rightarrow> nat option" where
  "name_day n = find (\<lambda>d. weekdays ! d = n) [0..<7]"

definition piece_days :: "string \<Rightarrow> nat list" where
  "piece_days piece =
     (let step = (case split_once CHR ''/'' piece of Some (_, s) \<Rightarrow> digits_value s | None \<Rightarrow> 1);
          base = item_base piece
      in case split_once CHR ''-'' base of
           Some (a, b) \<Rightarrow>
             (case (name_day a, name_day b) of
                (Some f, Some l) \<Rightarrow> filter (\<lambda>d. (d - f) mod step = 0) [f..<Suc l]
              | _ \<Rightarrow> [])
         | None \<Rightarrow> (case name_day base of Some d \<Rightarrow> [d] | None \<Rightarrow> []))"

subsection \<open>Pieces\<close>

lemma weekdays_plain:
  "d < 8 \<Longrightarrow> CHR ''-'' \<notin> set (weekdays ! d) \<and> CHR ''/'' \<notin> set (weekdays ! d) \<and>
     \<not> list_ex is_ascii_digit (weekdays ! d)"
proof -
  assume d: "d < 8"
  have "list_all (\<lambda>w. CHR ''-'' \<notin> set w \<and> CHR ''/'' \<notin> set w \<and> \<not> list_ex is_ascii_digit w) weekdays"
    by code_simp
  moreover have "length weekdays = 8" by (simp add: weekdays_def)
  ultimately show ?thesis using d by (simp add: list_all_length)
qed

lemma name_day_weekday: "d < 7 \<Longrightarrow> name_day (weekdays ! d) = Some d"
proof -
  assume d: "d < 7"
  have "list_all (\<lambda>d. name_day (weekdays ! d) = Some d) [0..<7]" by code_simp
  with d show ?thesis by (simp add: list_all_iff)
qed

lemma name_day_sunday: "name_day (weekdays ! 7) = Some 0" "name_day ''SUN'' = Some 0"
  by code_simp+

lemma split_once_absent: "c \<notin> set s \<Longrightarrow> split_once c s = None"
  by (induction s) auto

lemma split_once_append: "c \<notin> set a \<Longrightarrow> split_once c (a @ c # b) = Some (a, b)"
  by (simp add: split_once_Some)

lemma piece_days_name:
  "d < 8 \<Longrightarrow> piece_days (weekdays ! d) = (case name_day (weekdays ! d) of Some d \<Rightarrow> [d] | None \<Rightarrow> [])"
  using weekdays_plain [of d] by (simp add: piece_days_def item_base_def split_once_absent)

lemma piece_days_range:
  assumes "f < 7" and "l < 7" and "every = (case step of Some s \<Rightarrow> digits_value s | None \<Rightarrow> 1)"
  shows "piece_days (weekdays ! f @ ''-'' @ weekdays ! l @ (case step of Some s \<Rightarrow> ''/'' @ s | None \<Rightarrow> []))
    = filter (\<lambda>d. (d - f) mod every = 0) [f..<Suc l]"
proof -
  define base where "base = weekdays ! f @ ''-'' @ weekdays ! l"
  have plain: "CHR ''-'' \<notin> set (weekdays ! f)" "CHR ''/'' \<notin> set base"
    using assms(1,2) weekdays_plain [of f] weekdays_plain [of l] by (auto simp: base_def)
  have "split_once CHR ''-'' base = Some (weekdays ! f, weekdays ! l)"
    using plain(1) by (simp add: base_def split_once_append)
  moreover have "split_once CHR ''/'' (base @ CHR ''/'' # s) = Some (base, s)" for s
    using plain(2) by (rule split_once_append)
  moreover have "split_once CHR ''/'' base = None" using plain(2) by (rule split_once_absent)
  moreover have "weekdays ! f @ ''-'' @ weekdays ! l @ (case step of Some s \<Rightarrow> ''/'' @ s | None \<Rightarrow> [])
      = base @ (case step of Some s \<Rightarrow> CHR ''/'' # s | None \<Rightarrow> [])"
    by (simp add: base_def split: option.splits)
  ultimately show ?thesis
    using assms by (cases step)
      (simp_all only: piece_days_def item_base_def Let_def option.case prod.case append_Nil2
        name_day_weekday)
qed

text \<open>The names of a range mean the days of the range, in any step, Sunday as 0 or as 7.\<close>

lemma day_names_means:
  assumes "f \<le> l" and "l \<le> 7" and "every = (case step of Some s \<Rightarrow> digits_value s | None \<Rightarrow> 1)"
  shows "set (concat (map piece_days (day_names f l every step))) = set (standard_days f l every)"
proof -
  have std: "set (standard_days f l every) = (\<lambda>d. d mod 7) ` {d. f \<le> d \<and> d \<le> l \<and> (d - f) mod every = 0}"
    by (auto simp: standard_days_def)
  have sun: "piece_days ''SUN'' = [0]"
    using piece_days_name [of 7] by (simp add: weekdays_def name_day_sunday)
  consider (seven) "f = 7" | (one) "f < 7" "f = min l 6" | (many) "f < 7" "f < min l 6"
    using assms by linarith
  then show ?thesis
  proof cases
    case seven
    then have l: "l = 7" using assms by simp
    then have "{d. f \<le> d \<and> d \<le> l \<and> (d - f) mod every = 0} = {7}" using seven by auto
    then show ?thesis unfolding std using seven l
      by (simp add: day_names_def piece_days_name name_day_sunday)
  next
    case one
    have "(f \<le> d \<and> d \<le> l) = (d = f \<or> (l = 7 \<and> d = 7))" for d
      using one assms(2) by (auto simp: min_def split: if_splits)
    then have "{d. f \<le> d \<and> d \<le> l \<and> (d - f) mod every = 0} =
        {f} \<union> (if l = 7 \<and> (7 - f) mod every = 0 then {7} else {})"
      by (subst conj_assoc [symmetric]) auto
    moreover have "piece_days (weekdays ! f) = [f]"
      using one by (simp add: piece_days_name name_day_weekday)
    ultimately show ?thesis unfolding std using one assms(2)
      by (auto simp: day_names_def sun min_def split: if_splits)
  next
    case many
    define stop where "stop = min l 6"
    have pieces: "day_names f l every step =
        (weekdays ! f @ ''-'' @ weekdays ! stop @ (case step of Some s \<Rightarrow> ''/'' @ s | None \<Rightarrow> []))
        # (if l = 7 \<and> 1 \<le> f \<and> (7 - f) mod every = 0 then [''SUN''] else [])"
      using many by (auto simp: day_names_def stop_def Let_def)
    have range: "piece_days (weekdays ! f @ ''-'' @ weekdays ! stop @
        (case step of Some s \<Rightarrow> ''/'' @ s | None \<Rightarrow> [])) = filter (\<lambda>d. (d - f) mod every = 0) [f..<Suc stop]"
      using many assms(3) by (intro piece_days_range) (auto simp: stop_def)
    have "(f \<le> d \<and> d \<le> l) = (f \<le> d \<and> d \<le> stop \<or> (l = 7 \<and> d = 7))" for d
      using many assms(2) by (auto simp: stop_def min_def split: if_splits)
    then have all: "{d. f \<le> d \<and> d \<le> l \<and> (d - f) mod every = 0} =
        {d. f \<le> d \<and> d \<le> stop \<and> (d - f) mod every = 0} \<union>
        (if l = 7 \<and> (7 - f) mod every = 0 then {7} else {})"
      by (subst conj_assoc [symmetric]) auto
    define S where "S = {d. f \<le> d \<and> d \<le> stop \<and> (d - f) mod every = 0}"
    have week: "(\<lambda>d. d mod 7) ` S = S" by (force simp: S_def stop_def image_iff)
    have "set (standard_days f l every) = S \<union> (if l = 7 \<and> (7 - f) mod every = 0 then {0} else {})"
      unfolding std all S_def [symmetric] image_Un week by simp
    moreover have "set (filter (\<lambda>d. (d - f) mod every = 0) [f..<Suc stop]) = S"
      by (auto simp: S_def)
    then have "set (concat (map piece_days (day_names f l every step))) =
        S \<union> (if l = 7 \<and> 1 \<le> f \<and> (7 - f) mod every = 0 then {0} else {})"
      unfolding pieces by (simp only: list.map concat.simps set_append range) (simp add: sun)
    moreover have "f = 0 \<Longrightarrow> 0 \<in> S" by (simp add: S_def)
    ultimately show ?thesis by (cases "f = 0") auto
  qed
qed

subsection \<open>Numbered items\<close>

lemma digit_not: "is_ascii_digit c \<Longrightarrow> c \<noteq> CHR ''-'' \<and> c \<noteq> CHR ''/'' \<and> c \<noteq> CHR '','' \<and> c \<noteq> CHR ''+''"
  by (auto simp: is_ascii_digit_def byte_def)

lemma nat_str_chars: "c \<in> set (nat_str n) \<Longrightarrow> is_ascii_digit c"
  using nat_str_digits [of n] by (auto simp: list_all_iff)

lemma nat_str_nonempty [simp]: "nat_str n \<noteq> []"
  by (simp add: nat_str.simps [of n])

lemma nat_str_not_sep: "CHR ''-'' \<notin> set (nat_str n)" "CHR ''/'' \<notin> set (nat_str n)" "CHR '','' \<notin> set (nat_str n)"
  using nat_str_chars digit_not by blast+

lemma parse_usize_nat_str: "int n < 2 ^ 64 \<Longrightarrow> parse_usize (nat_str n) = Some n"
proof -
  assume "int n < 2 ^ 64"
  moreover obtain c cs where "nat_str n = c # cs" by (cases "nat_str n") auto
  moreover have "c \<noteq> CHR ''+''" using calculation(2) nat_str_chars digit_not by (metis list.set_intros(1))
  ultimately show ?thesis using nat_str_digits [of n] nat_str_value [of n] by (simp add: parse_usize_def)
qed

lemma day_number_nat_str: "day_number item (nat_str n) = (if n \<le> 7 then Inr n else Inl item)"
proof (cases "n \<le> 7")
  case True
  then show ?thesis using nat_str_digits [of n] by (simp add: day_number_def parse_usize_nat_str)
next
  case False
  show ?thesis
  proof (cases "int n < 2 ^ 64")
    case True
    with False show ?thesis by (simp add: day_number_def parse_usize_nat_str)
  next
    case big: False
    obtain c cs where c: "nat_str n = c # cs" by (cases "nat_str n") auto
    then have "c \<noteq> CHR ''+''" using nat_str_chars digit_not by (metis list.set_intros(1))
    with big c nat_str_value [of n] False show ?thesis by (simp add: day_number_def parse_usize_def)
  qed
qed

lemma list_ex_digit: "list_ex is_ascii_digit (nat_str n)"
  using nat_str_chars [of "hd (nat_str n)" n] by (auto simp: list_ex_iff intro: bexI [of _ "hd (nat_str n)"])

definition step_text :: "nat option \<Rightarrow> string" where
  "step_text e = (case e of Some n \<Rightarrow> ''/'' @ nat_str n | None \<Rightarrow> [])"

lemma split_step: "CHR ''/'' \<notin> set base \<Longrightarrow>
    split_once CHR ''/'' (base @ step_text e) = map_option (\<lambda>n. (base, nat_str n)) e"
  by (cases e) (simp_all add: step_text_def split_once_absent split_once_append)

lemma item_base_step: "CHR ''/'' \<notin> set base \<Longrightarrow> item_base (base @ step_text e) = base"
  by (simp add: item_base_def split_step) (simp add: step_text_def split: option.splits)

lemma numbers_step: "CHR ''/'' \<notin> set base \<Longrightarrow> list_ex is_ascii_digit base \<Longrightarrow> numbers_a_day (base @ step_text e)"
  by (simp add: numbers_a_day_def item_base_step)

definition step_size :: "nat option \<Rightarrow> nat" where
  "step_size e = (case e of Some n \<Rightarrow> n | None \<Rightarrow> 1)"

lemma named_item_range:
  "named_item (nat_str f @ ''-'' @ nat_str l @ step_text e) =
     (if f \<le> 7 \<and> l \<le> 7 \<and> step_size e \<le> 7 \<and> f \<le> l \<and> step_size e \<noteq> 0
      then Inr (day_names f l (step_size e) (map_option nat_str e))
      else Inl (nat_str f @ ''-'' @ nat_str l @ step_text e))"
proof -
  define base where "base = nat_str f @ ''-'' @ nat_str l"
  define item where "item = base @ step_text e"
  have base: "CHR ''/'' \<notin> set base" "list_ex is_ascii_digit base"
    "split_once CHR ''-'' base = Some (nat_str f, nat_str l)"
    using nat_str_not_sep list_ex_digit by (auto simp: base_def split_once_append)
  have item: "nat_str f @ ''-'' @ nat_str l @ step_text e = item" by (simp add: item_def base_def)
  have "numbers_a_day item" "item_base item = base"
    "split_once CHR ''/'' item = map_option (\<lambda>n. (base, nat_str n)) e"
    unfolding item_def using base by (simp_all add: numbers_step item_base_step split_step)
  then show ?thesis unfolding item
    by (cases e; cases "f \<le> 7"; cases "l \<le> 7")
      (simp_all add: named_item_def Let_def base(3) day_number_nat_str step_size_def)
qed

lemma named_item_single:
  "named_item (nat_str f @ step_text e) =
     (if f \<le> 7 \<and> step_size e \<le> 7 \<and> step_size e \<noteq> 0
      then Inr (day_names f (if e = None then f else 7) (step_size e) (map_option nat_str e))
      else Inl (nat_str f @ step_text e))"
proof -
  define item where "item = nat_str f @ step_text e"
  have dash: "split_once CHR ''-'' (nat_str f) = None"
    by (simp add: split_once_absent nat_str_not_sep)
  have "numbers_a_day item" "item_base item = nat_str f"
    "split_once CHR ''/'' item = map_option (\<lambda>n. (nat_str f, nat_str n)) e"
    unfolding item_def using nat_str_not_sep list_ex_digit
    by (simp_all add: numbers_step item_base_step split_step)
  then show ?thesis unfolding item_def [symmetric]
    by (cases e; cases "f \<le> 7")
      (simp_all add: named_item_def Let_def dash day_number_nat_str step_size_def)
qed

section \<open>Normalising\<close>

subsection \<open>No white space comes in\<close>

lemma no_white_sep:
  assumes "no_white a" and "no_white b" and "33 \<le> byte c \<and> byte c < 128"
  shows "no_white (a @ c # b)"
  unfolding no_white_def contains_str_iff
proof (intro ballI notI)
  fix v assume v: "v \<in> set white_spaces" and "\<exists>x y. a @ c # b = x @ v @ y"
  then obtain x y where xy: "a @ c # b = x @ v @ y" by blast
  have c: "c \<notin> set v" using white_space_not_plain [OF v] assms(3) by blast
  have v0: "v \<noteq> []" by (rule white_space_cases(1) [OF v])
  obtain us where "a = x @ us \<and> us @ c # b = v @ y \<or> a @ us = x \<and> c # b = us @ v @ y"
    using append_eq_append_conv2 [of a "c # b" x "v @ y"] xy by blast
  then have "(\<exists>z. a = x @ v @ z) \<or> (\<exists>z. b = z @ v @ y)"
  proof
    assume us: "a = x @ us \<and> us @ c # b = v @ y"
    obtain z where "us = v @ z \<and> z @ c # b = y \<or> us @ z = v \<and> c # b = z @ y"
      using append_eq_append_conv2 [of us "c # b" v y] us by blast
    then show ?thesis using us c by (cases z) auto
  next
    assume "a @ us = x \<and> c # b = us @ v @ y"
    then show ?thesis using v0 c by (cases us; cases v) auto
  qed
  then show False
    using assms(1,2) v unfolding no_white_def contains_str_iff by blast
qed

lemma no_white_join: "\<forall>p\<in>set ps. no_white p \<Longrightarrow> no_white (join '','' ps)"
proof (induction ps)
  case Nil
  then show ?case by (simp add: no_white_plain)
next
  case (Cons p ps)
  have "33 \<le> byte CHR '','' \<and> byte CHR '','' < 128" by (simp add: byte_def)
  then show ?case
    using Cons no_white_sep by (cases "ps = []") (auto simp: join_Cons)
qed

lemma split_on_infix: "p \<in> set (split_on c s) \<Longrightarrow> \<exists>a b. s = a @ p @ b"
proof (induction s arbitrary: p)
  case (Cons x xs)
  show ?case
  proof (cases "x = c")
    case True
    with Cons show ?thesis by simp (metis append.left_neutral append_Cons)
  next
    case False
    obtain q qs where q: "split_on c xs = q # qs" by (cases "split_on c xs") auto
    with False Cons.prems consider "p = x # q" | "p \<in> set qs" by auto
    then show ?thesis
    proof cases
      case 1
      have "\<exists>b. xs = q @ b"
        using q join_split_on [of c xs] by (cases qs) auto
      with 1 show ?thesis by (metis append_Cons append_Nil)
    next
      case 2
      then obtain a b where "xs = a @ p @ b" using Cons.IH [of p] q by auto
      then show ?thesis by (metis append_Cons)
    qed
  qed
qed simp

lemma no_white_split_on: "no_white s \<Longrightarrow> p \<in> set (split_on c s) \<Longrightarrow> no_white p"
  using split_on_infix [of p c s] no_white_suffix no_white_prefix by blast

subsection \<open>The pieces of a day field\<close>

definition good_piece :: "string \<Rightarrow> bool" where
  "good_piece p \<longleftrightarrow> \<not> numbers_a_day p \<and> CHR '','' \<notin> set p \<and> no_white p"

lemma weekday_chars: "d < 8 \<Longrightarrow> c \<in> set (weekdays ! d) \<Longrightarrow> 65 \<le> byte c \<and> byte c \<le> 90"
proof -
  assume d: "d < 8" and c: "c \<in> set (weekdays ! d)"
  have "list_all (\<lambda>w. list_all (\<lambda>c. 65 \<le> byte c \<and> byte c \<le> 90) w) weekdays" by code_simp
  moreover have "length weekdays = 8" by (simp add: weekdays_def)
  ultimately have "list_all (\<lambda>c. 65 \<le> byte c \<and> byte c \<le> 90) (weekdays ! d)"
    using d by (simp add: list_all_length [of _ weekdays])
  then show ?thesis using c by (simp add: list_all_iff)
qed

lemma good_piece_weekday: "d < 8 \<Longrightarrow> good_piece (weekdays ! d)"
proof -
  assume d: "d < 8"
  have "CHR '','' \<notin> set (weekdays ! d)" using weekday_chars [OF d, of "CHR '',''"] by (auto simp: byte_def)
  moreover have "no_white (weekdays ! d)" using weekday_chars [OF d] by (intro no_white_plain) force
  ultimately show ?thesis using weekdays_plain [OF d]
    by (simp add: good_piece_def numbers_a_day_def item_base_def split_once_absent)
qed

lemma good_piece_range:
  assumes "f < 8" and "l < 8" and "pred_option (list_all is_ascii_digit) step"
  shows "good_piece (weekdays ! f @ ''-'' @ weekdays ! l @ (case step of Some s \<Rightarrow> ''/'' @ s | None \<Rightarrow> []))"
    (is "good_piece ?p")
proof -
  define base where "base = weekdays ! f @ ''-'' @ weekdays ! l"
  have p: "?p = base @ (case step of Some s \<Rightarrow> CHR ''/'' # s | None \<Rightarrow> [])"
    by (simp add: base_def split: option.splits)
  have base: "CHR ''/'' \<notin> set base" "\<not> list_ex is_ascii_digit base"
    using weekdays_plain [OF assms(1)] weekdays_plain [OF assms(2)]
    by (auto simp: base_def is_ascii_digit_def byte_def)
  then have "item_base ?p = base"
    unfolding p item_base_def by (cases step) (simp_all add: split_once_absent split_once_append)
  then have "\<not> numbers_a_day ?p" using base by (simp add: numbers_a_day_def)
  moreover have "\<forall>c\<in>set ?p. 33 \<le> byte c \<and> byte c < 128 \<and> c \<noteq> CHR '',''"
    using weekday_chars [OF assms(1)] weekday_chars [OF assms(2)] assms(3)
    by (fastforce simp: is_ascii_digit_def byte_def list_all_iff split: option.splits)
  ultimately show ?thesis unfolding good_piece_def using no_white_plain by blast
qed

lemma day_names_good:
  assumes "f \<le> 7" and "l \<le> 7" and "pred_option (list_all is_ascii_digit) step"
  shows "\<forall>p\<in>set (day_names f l every step). good_piece p"
proof -
  have sun: "good_piece ''SUN''" using good_piece_weekday [of 7] by (simp add: weekdays_def)
  show ?thesis
    using assms good_piece_weekday [of f] good_piece_range [of f "if f < 7 then min l 6 else l" step] sun
    by (auto simp: day_names_def Let_def)
qed

lemma day_number_ok: "day_number item s = Inr n \<Longrightarrow> n \<le> 7 \<and> list_all is_ascii_digit s"
  by (auto simp: day_number_def split: option.splits if_splits)

lemma named_item_numbered:
  assumes "numbers_a_day item" and "named_item item = Inr names"
  shows "\<exists>f l every step. names = day_names f l every step \<and> f \<le> l \<and> l \<le> 7 \<and>
    pred_option (list_all is_ascii_digit) step"
proof -
  define step where "step = map_option snd (split_once CHR ''/'' item)"
  from assms obtain f l every where
    range: "(case split_once CHR ''-'' (item_base item) of
        Some (a, b) \<Rightarrow> rbind (day_number item a) (\<lambda>first_day.
          rbind (day_number item b) (\<lambda>last_day. Inr (first_day, last_day)))
      | None \<Rightarrow> rbind (day_number item (item_base item)) (\<lambda>day.
          Inr (day, if step \<noteq> None then 7 else day))) = Inr (f, l)"
    and every: "(case step of Some s \<Rightarrow> day_number item s | None \<Rightarrow> Inr 1) = Inr every"
    and names: "\<not> (f > l \<or> every = 0)" "names = day_names f l every step"
    by (auto simp: named_item_def step_def [symmetric] Let_def split: if_splits)
  have "l \<le> 7" using range by (auto split: option.splits if_splits dest: day_number_ok)
  moreover have "pred_option (list_all is_ascii_digit) step"
    using every by (auto split: option.splits dest: day_number_ok)
  ultimately show ?thesis using names by (auto simp: not_less)
qed

lemma day_names_nonempty: "f \<le> 7 \<Longrightarrow> day_names f l every step \<noteq> [] \<and> hd (day_names f l every step) \<noteq> []"
proof -
  assume f: "f \<le> 7"
  have "weekdays ! f \<noteq> []" using f nth_mem [of f weekdays] by (auto simp: weekdays_def)
  then show ?thesis by (simp add: day_names_def Let_def)
qed

lemma named_item_good:
  assumes "named_item item = Inr names" and "no_white item" and "CHR '','' \<notin> set item"
  shows "\<forall>p\<in>set names. good_piece p" "names \<noteq> []" "item \<noteq> [] \<longrightarrow> hd names \<noteq> []"
proof -
  have "(\<forall>p\<in>set names. good_piece p) \<and> names \<noteq> [] \<and> (item \<noteq> [] \<longrightarrow> hd names \<noteq> [])"
  proof (cases "numbers_a_day item")
    case True
    from named_item_numbered [OF True assms(1)] obtain f l every step where
      "names = day_names f l every step" "f \<le> l" "l \<le> 7" "pred_option (list_all is_ascii_digit) step"
      by blast
    then show ?thesis using day_names_good [of f l step every] day_names_nonempty [of f l every step] by simp
  next
    case False
    with assms show ?thesis by (auto simp: named_item_def good_piece_def)
  qed
  then show "\<forall>p\<in>set names. good_piece p" "names \<noteq> []" "item \<noteq> [] \<longrightarrow> hd names \<noteq> []" by blast+
qed

lemma named_items_good:
  assumes "named_items items = Inr names" and "\<forall>i\<in>set items. no_white i \<and> CHR '','' \<notin> set i"
  shows "(\<forall>p\<in>set names. good_piece p) \<and> length items \<le> length names \<and>
    (items \<noteq> [] \<and> hd items \<noteq> [] \<longrightarrow> hd names \<noteq> [])"
  using assms
proof (induction items arbitrary: names)
  case (Cons i items)
  then obtain ns more where n: "named_item i = Inr ns" "named_items items = Inr more" "names = ns @ more"
    by auto
  have g: "\<forall>p\<in>set ns. good_piece p" "ns \<noteq> []" "i \<noteq> [] \<longrightarrow> hd ns \<noteq> []"
    using named_item_good [OF n(1)] Cons.prems(2) by auto
  have "1 \<le> length ns" using g(2) by (cases ns) auto
  with g n Cons.IH [OF n(2)] Cons.prems(2) show ?case by auto
qed simp

lemma named_items_fixed: "\<forall>p\<in>set ps. \<not> numbers_a_day p \<Longrightarrow> named_items ps = Inr ps"
  by (induction ps) (auto simp: named_item_def)

text \<open>A day field named is a word, holds no numbered day, and is named as itself again.\<close>

lemma named_weekdays_fixed:
  assumes "named_weekdays field = Inr named" and "a_word field"
  shows "a_word named" "\<not> list_ex numbers_a_day (split_on CHR '','' named)"
    "named_weekdays named = Inr named"
proof -
  define items where "items = split_on CHR '','' field"
  obtain names where names: "named_items items = Inr names" "named = join '','' names"
    using assms(1) by (auto simp: named_weekdays_def items_def)
  have items: "\<forall>i\<in>set items. no_white i \<and> CHR '','' \<notin> set i" "items \<noteq> []"
    using assms(2) no_white_split_on split_on_no_sep by (auto simp: items_def a_word_def)
  note good = named_items_good [OF names(1) items(1)]
  have nonempty: "names \<noteq> []" using good items(2) by (cases names) auto
  have split: "split_on CHR '','' named = names"
    unfolding names(2) using good nonempty by (intro split_on_join) (auto simp: good_piece_def)
  show "\<not> list_ex numbers_a_day (split_on CHR '','' named)"
    using good by (auto simp: split list_ex_iff good_piece_def)
  show "named_weekdays named = Inr named"
    using good named_items_fixed [of names]
    by (simp add: named_weekdays_def split good_piece_def) (simp add: names(2))
  have "named \<noteq> []"
  proof (cases "tl names = []")
    case True
    then have one: "names = [hd names]" using nonempty by (cases names) auto
    then have "length items \<le> 1" using good by (metis One_nat_def length_Cons list.size(3))
    then obtain i where i: "items = [i]" using items(2) by (cases items) auto
    then have "field = i" using join_split_on [of "CHR '',''" field] by (simp add: items_def [symmetric])
    then have "hd names \<noteq> []" using good assms(2) i by (simp add: a_word_def)
    then show ?thesis using one names(2) by (metis join.simps(2))
  next
    case False
    then obtain a b cs where "names = a # b # cs" by (cases names; cases "tl names") auto
    then show ?thesis by (simp add: names(2))
  qed
  moreover have "no_white named" unfolding names(2) using good by (intro no_white_join) (auto simp: good_piece_def)
  ultimately show "a_word named" by (simp add: a_word_def)
qed

lemma a_word_zero: "a_word ''0''"
  by (simp add: a_word_def no_white_plain byte_def)

text \<open>The six fields a five-field expression becomes.\<close>

lemma normalized_five:
  assumes "split_whitespace e = [minute, hour, monthday, month, days]" and "normalized_cron e = Inr c"
  obtains named where "named_weekdays days = Inr named" "c = join '' '' [''0'', minute, hour, monthday, month, named]"
    "split_whitespace c = [''0'', minute, hour, monthday, month, named]"
    "\<forall>w\<in>{minute, hour, monthday, month, days, named}. a_word w"
proof -
  have words: "\<forall>w\<in>{minute, hour, monthday, month, days}. a_word w"
    using split_whitespace_words [of _ e] assms(1) by auto
  obtain named where n: "named_weekdays days = Inr named"
    "c = join '' '' [''0'', minute, hour, monthday, month, named]"
    using assms by (auto simp: normalized_cron_def simp del: join.simps)
  have "a_word named" using named_weekdays_fixed(1) [OF n(1)] words by simp
  with words have all: "\<forall>w\<in>set [''0'', minute, hour, monthday, month, named]. a_word w"
    using a_word_zero by simp
  show ?thesis
    using that [OF n] split_whitespace_join [OF all] n(2) words \<open>a_word named\<close> by simp
qed

lemma normalized_other:
  assumes "length (split_whitespace e) \<noteq> 5"
  shows "normalized_cron e = Inr (trim e)"
  using assms by (auto simp: normalized_cron_def split: list.splits)

section \<open>Properties\<close>

text \<open>A numbered day of the week means the day standard cron means. For every item a person
  may write (a day, a day with a step, a range, a range with a step) the names it is stored as
  denote exactly the days of the standard reading, Sunday as 0 and as 7 alike; and an item is
  refused exactly when a number is above 7, a range runs backwards or a step is 0.\<close>

theorem weekdays_mean_the_same:
  "(case named_item (nat_str f @ ''-'' @ nat_str l @ step_text e) of
      Inr names \<Rightarrow> f \<le> l \<and> l \<le> 7 \<and> step_size e \<in> {1..7} \<and>
        set (concat (map piece_days names)) = set (standard_days f l (step_size e))
    | Inl item \<Rightarrow> \<not> (f \<le> l \<and> l \<le> 7 \<and> step_size e \<in> {1..7})) \<and>
   (case named_item (nat_str f @ step_text e) of
      Inr names \<Rightarrow> f \<le> 7 \<and> step_size e \<in> {1..7} \<and>
        set (concat (map piece_days names)) =
          set (standard_days f (if e = None then f else 7) (step_size e))
    | Inl item \<Rightarrow> \<not> (f \<le> 7 \<and> step_size e \<in> {1..7}))"
proof -
  have step: "step_size e = (case map_option nat_str e of Some s \<Rightarrow> digits_value s | None \<Rightarrow> 1)"
    by (cases e) (simp_all add: step_size_def nat_str_value)
  show ?thesis
    unfolding named_item_range named_item_single
    using day_names_means [of f l "step_size e" "map_option nat_str e"]
      day_names_means [of f "if e = None then f else 7" "step_size e" "map_option nat_str e"] step
    by auto
qed

text \<open>A stored expression is read back as itself. Normalising what is already normalised
  changes nothing, so an edit that sends a routine's own expression back cannot move its
  days; and the crate is asked about the very expression that was stored.\<close>

theorem normalized_cron_idempotent:
  assumes "normalized_cron e = Inr c"
  shows "normalized_cron c = Inr c \<and>
    next_fire_ms tz_known cron_after c tz after =
      (if tz_known tz then cron_after c tz after else None)"
proof -
  have "normalized_cron c = Inr c"
  proof (cases "length (split_whitespace e) = 5")
    case True
    then obtain minute hour monthday month days where
      five: "split_whitespace e = [minute, hour, monthday, month, days]"
      by (auto simp: length_Suc_conv numeral_eq_Suc)
    from normalized_five [OF five assms] obtain named where
      c: "c = join '' '' [''0'', minute, hour, monthday, month, named]"
      "split_whitespace c = [''0'', minute, hour, monthday, month, named]"
      "\<forall>w\<in>{minute, hour, monthday, month, days, named}. a_word w" by blast
    have "trim c = c"
      unfolding c(1) using c(3) a_word_zero by (intro trim_join) auto
    then show ?thesis using normalized_other [of c] c(2) by simp
  next
    case False
    then have "c = trim e" "length (split_whitespace c) \<noteq> 5"
      using assms normalized_other [of e] by auto
    then show ?thesis using normalized_other [of c] by simp
  qed
  then show ?thesis by (simp add: next_fire_ms_def)
qed

theorem normalized_cron_idempotent_witness:
  "normalized_cron ''0 0 9 * * MON'' = Inr ''0 0 9 * * MON''"
proof -
  have "normalized_cron ''0 9 * * 1'' = Inr ''0 0 9 * * MON''" by code_simp
  from normalized_cron_idempotent [OF this] show ?thesis by blast
qed

text \<open>C39: the five fields a person wrote come back as five fields that mean the same. An
  expression accepted from five fields fires at most once a minute, is shown without its
  seconds, and what is shown is normalised to the stored expression again.\<close>

theorem display_cron_roundtrip:
  assumes "length (split_whitespace e) = 5" and "normalized_cron e = Inr c"
  shows "\<not> under_a_minute e \<and> length (split_whitespace (display_cron c)) = 5 \<and>
    normalized_cron (display_cron c) = Inr c"
proof -
  from assms(1) obtain minute hour monthday month days where
    five: "split_whitespace e = [minute, hour, monthday, month, days]"
    by (auto simp: length_Suc_conv numeral_eq_Suc)
  from normalized_five [OF five assms(2)] obtain named where
    named: "named_weekdays days = Inr named"
    and c: "c = join '' '' [''0'', minute, hour, monthday, month, named]"
    "split_whitespace c = [''0'', minute, hour, monthday, month, named]"
    and words: "\<forall>w\<in>{minute, hour, monthday, month, days, named}. a_word w" by blast
  note fixed = named_weekdays_fixed [OF named]
  have shown: "display_cron c = join '' '' [minute, hour, monthday, month, named]"
    using c(2) fixed(2) words by (simp add: display_cron_def del: join.simps)
  moreover have split: "split_whitespace (join '' '' [minute, hour, monthday, month, named])
      = [minute, hour, monthday, month, named]"
    using words by (intro split_whitespace_join) auto
  ultimately have "normalized_cron (display_cron c) = Inr c"
    using fixed(3) words by (simp add: normalized_cron_def c(1) del: join.simps)
  moreover have "\<not> under_a_minute e" using assms(2) c(2) by (simp add: under_a_minute_def)
  ultimately show ?thesis using shown split by (simp del: join.simps)
qed

theorem display_cron_roundtrip_witness:
  "normalized_cron (display_cron ''0 30 8 * * MON-SAT/2,SUN'') = Inr ''0 30 8 * * MON-SAT/2,SUN''"
proof -
  have "normalized_cron ''30  8 * * 1-7/2'' = Inr ''0 30 8 * * MON-SAT/2,SUN''"
    "length (split_whitespace ''30  8 * * 1-7/2'') = 5" by code_simp+
  from display_cron_roundtrip [OF this(2,1)] show ?thesis by blast
qed

end
