(* ===== verification/Schedule.thy ===== *)
theory Schedule
  imports Cron Limits Vocabulary Event_Sourcing
begin

text \<open>
  \<open>opengrok-core/src/schedule.rs\<close>: the schedule aggregate, a coworker told to act on its own
  clock or by a webhook. \<open>schedule_decide\<close> takes the two crates it asks about time
  (\<open>tz_known\<close>, \<open>cron_after\<close> of theory \<open>Cron\<close>) as arguments; the rest of the
  aggregate is plain. A field's name is the source's behind \<open>sch_\<close>.
\<close>

datatype wake_kind = CronWake | WebhookWake

fun wake_kind_as_str :: "wake_kind \<Rightarrow> string" where
  "wake_kind_as_str CronWake = ''cron''"
| "wake_kind_as_str WebhookWake = ''webhook''"

definition wake_kind_from_stored :: "string \<Rightarrow> wake_kind" where
  "wake_kind_from_stored w = (if w = ''webhook'' then WebhookWake else CronWake)"

datatype wake = WakeCron string | WakeWebhook string string string

datatype fire_cause = ByClock | ByHand | ByWebhook | ByBot

fun fire_cause_as_str :: "fire_cause \<Rightarrow> string" where
  "fire_cause_as_str ByClock = ''clock''"
| "fire_cause_as_str ByHand = ''manual''"
| "fire_cause_as_str ByWebhook = ''webhook''"
| "fire_cause_as_str ByBot = ''bot''"

record firing_bot =
  fb_coworker_id :: coworker_id
  fb_name :: string

record skip =
  sk_cause :: fire_cause
  sk_code :: string
  sk_at_ms :: int
  sk_by :: "firing_bot option"

definition skipped_sentences :: "(string \<times> string) list" where
  "skipped_sentences =
     [(''relay_offline'', ''Skipped: your computer was off, so your plan couldn't answer''),
      (''proxy_down'', ''Skipped: your plan's proxy didn't answer''),
      (''relay_disabled'', ''Skipped: Relay is off for your plan'')]"

definition skip_reason :: "string \<Rightarrow> string" where
  "skip_reason code =
     (case find (\<lambda>(known, _). known = code) skipped_sentences of
        Some (_, why) \<Rightarrow> why
      | None \<Rightarrow> ''Skipped'')"

record schedule_created =
  cr_coworker_id :: coworker_id
  cr_cron :: string
  cr_prompt :: string
  cr_name :: string
  cr_kind :: wake_kind
  cr_hook_id :: string
  cr_secret_hash :: string
  cr_webhook_key :: string
  cr_run_limits :: run_limits
  cr_tz :: string
  cr_at_ms :: int

record schedule_updated =
  up_name :: string
  up_cron :: string
  up_prompt :: string
  up_at_ms :: int
  up_kind :: "wake_kind option"
  up_hook_id :: "string option"
  up_secret_hash :: "string option"
  up_webhook_key :: "string option"
  up_coworker_id :: "coworker_id option"
  up_run_limits :: "run_limits option"
  up_tz :: "string option"

datatype schedule_event =
    ScheduleCreated schedule_created
  | ScheduleUpdated schedule_updated
  | SchedulePaused int
  | ScheduleResumed int
  | ScheduleDeleted int
  | SecretRotated string string int
  | Fired run_id bool bool "firing_bot option" int
  | Skipped skip

fun schedule_event_type :: "schedule_event \<Rightarrow> string" where
  "schedule_event_type (ScheduleCreated _) = ''schedule-created''"
| "schedule_event_type (ScheduleUpdated _) = ''schedule-updated''"
| "schedule_event_type (SchedulePaused _) = ''schedule-paused''"
| "schedule_event_type (ScheduleResumed _) = ''schedule-resumed''"
| "schedule_event_type (ScheduleDeleted _) = ''schedule-deleted''"
| "schedule_event_type (SecretRotated _ _ _) = ''schedule-secret-rotated''"
| "schedule_event_type (Fired _ _ _ _ _) = ''schedule-fired''"
| "schedule_event_type (Skipped _) = ''schedule-skipped''"

record schedule =
  sch_created :: bool
  sch_deleted :: bool
  sch_paused :: bool
  sch_coworker_id :: "coworker_id option"
  sch_cron :: string
  sch_prompt :: string
  sch_name :: string
  sch_kind :: wake_kind
  sch_hook_id :: string
  sch_secret_hash :: string
  sch_webhook_key :: string
  sch_manual_runs :: "string set"
  sch_webhook_runs :: "string set"
  sch_clock_runs :: "string set"
  sch_bot_runs :: "string \<rightharpoonup> firing_bot"
  sch_run_limits :: run_limits
  sch_tz :: string
  sch_skipped :: "skip list"

definition schedule_default :: schedule where
  "schedule_default =
     \<lparr>sch_created = False, sch_deleted = False, sch_paused = False, sch_coworker_id = None,
      sch_cron = [], sch_prompt = [], sch_name = [], sch_kind = CronWake, sch_hook_id = [],
      sch_secret_hash = [], sch_webhook_key = [], sch_manual_runs = {}, sch_webhook_runs = {},
      sch_clock_runs = {}, sch_bot_runs = Map.empty, sch_run_limits = run_limits_default,
      sch_tz = [], sch_skipped = []\<rparr>"

datatype schedule_error =
    ScheduleNotCreated
  | ScheduleDeletedErr
  | AlreadyPaused
  | NotPaused
  | PausedErr
  | BadCron cron_refusal
  | EmptyPrompt
  | BadWebhook
  | NotWebhook
  | UnknownTimeZone string

record schedule_create =
  cc_coworker_id :: coworker_id
  cc_prompt :: string
  cc_name :: string
  cc_wake :: wake
  cc_run_limits :: run_limits
  cc_tz :: string
  cc_at_ms :: int

record schedule_update =
  cu_name :: string
  cu_prompt :: string
  cu_wake :: wake
  cu_coworker_id :: "coworker_id option"
  cu_run_limits :: "run_limits option"
  cu_tz :: "string option"
  cu_at_ms :: int

datatype schedule_command =
    CreateSchedule schedule_create
  | UpdateSchedule schedule_update
  | PauseSchedule int
  | ResumeSchedule int
  | DeleteSchedule int
  | RotateWebhookSecret string string int
  | Fire run_id fire_cause "firing_bot option" int
  | SkipFiring skip

definition schedule_firing ::
  "(string \<times> string) option \<Rightarrow> fire_cause \<times> firing_bot option \<Rightarrow> run_id \<Rightarrow> int \<Rightarrow> schedule_command" where
  "schedule_firing skip_with asked run at =
     (case skip_with of
        Some (code, _) \<Rightarrow>
          SkipFiring \<lparr>sk_cause = fst asked, sk_code = code, sk_at_ms = at, sk_by = snd asked\<rparr>
      | None \<Rightarrow> Fire run (fst asked) (snd asked) at)"

definition fired :: "schedule \<Rightarrow> string \<Rightarrow> (string \<times> firing_bot option) option" where
  "fired s run =
     (case sch_bot_runs s run of
        Some b \<Rightarrow> Some (fire_cause_as_str ByBot, Some b)
      | None \<Rightarrow>
          map_option (\<lambda>(_, cause). (fire_cause_as_str cause, None))
            (find (\<lambda>(runs, _). run \<in> runs)
              [(sch_manual_runs s, ByHand), (sch_webhook_runs s, ByWebhook),
               (sch_clock_runs s, ByClock)]))"

definition apply_created :: "schedule \<Rightarrow> schedule_created \<Rightarrow> schedule" where
  "apply_created s c =
     s\<lparr>sch_created := True, sch_coworker_id := Some (cr_coworker_id c), sch_cron := cr_cron c,
       sch_prompt := cr_prompt c, sch_name := cr_name c, sch_kind := cr_kind c,
       sch_hook_id := cr_hook_id c, sch_secret_hash := cr_secret_hash c,
       sch_webhook_key := cr_webhook_key c, sch_run_limits := cr_run_limits c, sch_tz := cr_tz c\<rparr>"

text \<open>\<open>if let Some(x) = new { field = x }\<close>.\<close>

definition replaced :: "'a option \<Rightarrow> 'a \<Rightarrow> 'a" where
  "replaced new old = (case new of Some x \<Rightarrow> x | None \<Rightarrow> old)"

definition apply_updated :: "schedule \<Rightarrow> schedule_updated \<Rightarrow> schedule" where
  "apply_updated s u =
     s\<lparr>sch_name := up_name u,
       sch_coworker_id :=
         (case up_coworker_id u of Some c \<Rightarrow> Some c | None \<Rightarrow> sch_coworker_id s),
       sch_run_limits := replaced (up_run_limits u) (sch_run_limits s),
       sch_cron := up_cron u, sch_prompt := up_prompt u,
       sch_kind := replaced (up_kind u) (sch_kind s),
       sch_hook_id := replaced (up_hook_id u) (sch_hook_id s),
       sch_secret_hash := replaced (up_secret_hash u) (sch_secret_hash s),
       sch_webhook_key := replaced (up_webhook_key u) (sch_webhook_key s),
       sch_tz := replaced (up_tz u) (sch_tz s)\<rparr>"

definition apply_fired :: "schedule \<Rightarrow> string \<Rightarrow> bool \<Rightarrow> bool \<Rightarrow> firing_bot option \<Rightarrow> schedule" where
  "apply_fired s run manual webhook presser =
     (case presser of
        Some b \<Rightarrow> s\<lparr>sch_bot_runs := (sch_bot_runs s)(run \<mapsto> b)\<rparr>
      | None \<Rightarrow>
          if webhook then s\<lparr>sch_webhook_runs := insert run (sch_webhook_runs s)\<rparr>
          else if manual then s\<lparr>sch_manual_runs := insert run (sch_manual_runs s)\<rparr>
          else s\<lparr>sch_clock_runs := insert run (sch_clock_runs s)\<rparr>)"

fun schedule_apply :: "schedule \<Rightarrow> schedule_event \<Rightarrow> schedule" where
  "schedule_apply s (ScheduleCreated c) = apply_created s c"
| "schedule_apply s (ScheduleUpdated u) = apply_updated s u"
| "schedule_apply s (SchedulePaused at) = s\<lparr>sch_paused := True\<rparr>"
| "schedule_apply s (ScheduleResumed at) = s\<lparr>sch_paused := False\<rparr>"
| "schedule_apply s (ScheduleDeleted at) = s\<lparr>sch_deleted := True\<rparr>"
| "schedule_apply s (SecretRotated hash key at) = s\<lparr>sch_secret_hash := hash, sch_webhook_key := key\<rparr>"
| "schedule_apply s (Fired run manual webhook presser at) = apply_fired s (run_str run) manual webhook presser"
| "schedule_apply s (Skipped k) = s\<lparr>sch_skipped := sch_skipped s @ [k]\<rparr>"

definition schedule_replay :: "schedule_event list \<Rightarrow> schedule" where
  "schedule_replay es = foldl schedule_apply schedule_default es"

definition schedule_alive :: "schedule \<Rightarrow> schedule_error + unit" where
  "schedule_alive s =
     (if \<not> sch_created s then Inl ScheduleNotCreated
      else if sch_deleted s then Inl ScheduleDeletedErr
      else Inr ())"

definition zone :: "(string \<Rightarrow> bool) \<Rightarrow> string \<Rightarrow> schedule_error + unit" where
  "zone tz_known tz = ensure (tz_known tz) (UnknownTimeZone tz)"

text \<open>A wake as an event stores it: kind, normalised cron, hook id, hash, key.\<close>

definition checked ::
  "(string \<Rightarrow> bool) \<Rightarrow> (string \<Rightarrow> string \<Rightarrow> int \<Rightarrow> int option) \<Rightarrow> wake \<Rightarrow> string \<Rightarrow> int
    \<Rightarrow> schedule_error + wake_kind \<times> string \<times> string \<times> string \<times> string" where
  "checked tz_known cron_after w tz at =
     rbind (zone tz_known tz) (\<lambda>_.
     case w of
       WakeCron expression \<Rightarrow>
         rbind (map_err BadCron (normalized_cron expression)) (\<lambda>c.
         if next_fire_ms tz_known cron_after c tz at = None then Inl (BadCron (NoFutureFire c))
         else Inr (CronWake, c, [], [], []))
     | WakeWebhook hook hash key \<Rightarrow>
         if trim hook = [] \<or> trim hash = [] \<or> trim key = [] then Inl BadWebhook
         else Inr (WebhookWake, [], trim hook, trim hash, key))"

definition may_fire :: "schedule \<Rightarrow> fire_cause \<Rightarrow> schedule_error + unit" where
  "may_fire s cause =
     rbind (schedule_alive s) (\<lambda>_.
     if sch_paused s \<and> cause \<noteq> ByHand then Inl PausedErr else Inr ())"

definition has_prompt :: "string \<Rightarrow> schedule_error + unit" where
  "has_prompt p = ensure (trim p \<noteq> []) EmptyPrompt"

definition decide_create ::
  "(string \<Rightarrow> bool) \<Rightarrow> (string \<Rightarrow> string \<Rightarrow> int \<Rightarrow> int option) \<Rightarrow> schedule_create
    \<Rightarrow> schedule_error + schedule_event list" where
  "decide_create tz_known cron_after c =
     rbind (has_prompt (cc_prompt c)) (\<lambda>_.
     rbind (checked tz_known cron_after (cc_wake c) (cc_tz c) (cc_at_ms c)) (\<lambda>(kind, cron, hook, hash, key).
     Inr [ScheduleCreated
       \<lparr>cr_coworker_id = cc_coworker_id c, cr_cron = cron, cr_prompt = cc_prompt c,
        cr_name = trim (cc_name c), cr_kind = kind, cr_hook_id = hook, cr_secret_hash = hash,
        cr_webhook_key = key, cr_run_limits = cc_run_limits c, cr_tz = cc_tz c,
        cr_at_ms = cc_at_ms c\<rparr>]))"

definition decide_update ::
  "(string \<Rightarrow> bool) \<Rightarrow> (string \<Rightarrow> string \<Rightarrow> int \<Rightarrow> int option) \<Rightarrow> schedule \<Rightarrow> schedule_update
    \<Rightarrow> schedule_error + schedule_event list" where
  "decide_update tz_known cron_after s c =
     rbind (schedule_alive s) (\<lambda>_.
     rbind (has_prompt (cu_prompt c)) (\<lambda>_.
     rbind (checked tz_known cron_after (cu_wake c) (replaced (cu_tz c) (sch_tz s)) (cu_at_ms c))
       (\<lambda>(kind, cron, hook, hash, key).
     Inr [ScheduleUpdated
       \<lparr>up_name = trim (cu_name c), up_cron = cron, up_prompt = cu_prompt c, up_at_ms = cu_at_ms c,
        up_kind = Some kind, up_hook_id = Some hook, up_secret_hash = Some hash,
        up_webhook_key = Some key, up_coworker_id = cu_coworker_id c,
        up_run_limits = cu_run_limits c, up_tz = cu_tz c\<rparr>])))"

fun schedule_decide ::
  "(string \<Rightarrow> bool) \<Rightarrow> (string \<Rightarrow> string \<Rightarrow> int \<Rightarrow> int option) \<Rightarrow> schedule \<Rightarrow> schedule_command
    \<Rightarrow> schedule_error + schedule_event list" where
  "schedule_decide tzk cra s (CreateSchedule c) = decide_create tzk cra c"
| "schedule_decide tzk cra s (UpdateSchedule c) = decide_update tzk cra s c"
| "schedule_decide tzk cra s (PauseSchedule at) =
     rbind (schedule_alive s) (\<lambda>_.
     if sch_paused s then Inl AlreadyPaused else Inr [SchedulePaused at])"
| "schedule_decide tzk cra s (ResumeSchedule at) =
     rbind (schedule_alive s) (\<lambda>_.
     if \<not> sch_paused s then Inl NotPaused else Inr [ScheduleResumed at])"
| "schedule_decide tzk cra s (DeleteSchedule at) =
     rbind (schedule_alive s) (\<lambda>_. Inr [ScheduleDeleted at])"
| "schedule_decide tzk cra s (RotateWebhookSecret hash key at) =
     rbind (schedule_alive s) (\<lambda>_.
     if sch_kind s \<noteq> WebhookWake then Inl NotWebhook
     else if trim hash = [] \<or> trim key = [] then Inl BadWebhook
     else Inr [SecretRotated (trim hash) key at])"
| "schedule_decide tzk cra s (Fire run cause presser at) =
     rbind (may_fire s cause) (\<lambda>_.
     Inr [Fired run (cause = ByHand) (cause = ByWebhook) presser at])"
| "schedule_decide tzk cra s (SkipFiring k) =
     rbind (may_fire s (sk_cause k)) (\<lambda>_. Inr [Skipped k])"

section \<open>What each event finds\<close>

lemma schedule_alive_Inr [simp]: "schedule_alive s = Inr u \<longleftrightarrow> sch_created s \<and> \<not> sch_deleted s"
  by (auto simp: schedule_alive_def)

lemma may_fire_Inr [simp]:
  "may_fire s cause = Inr u \<longleftrightarrow>
     sch_created s \<and> \<not> sch_deleted s \<and> (sch_paused s \<longrightarrow> cause = ByHand)"
  by (auto simp: may_fire_def)

text \<open>A wake that is stored can wake: a clock in a zone the database knows with an occurrence
  ahead when it was stored, or a hook with an id, a hash and a key.\<close>

definition wake_ok ::
  "(string \<Rightarrow> bool) \<Rightarrow> (string \<Rightarrow> string \<Rightarrow> int \<Rightarrow> int option)
    \<Rightarrow> wake_kind \<Rightarrow> string \<Rightarrow> string \<Rightarrow> string \<Rightarrow> string \<Rightarrow> string \<Rightarrow> bool" where
  "wake_ok tzk cra kind cron hook hash key tz \<longleftrightarrow>
     tzk tz \<and>
     (case kind of
        CronWake \<Rightarrow>
          (\<exists>at. next_fire_ms tzk cra cron tz at \<noteq> None) \<and> hook = [] \<and> hash = [] \<and> key = []
      | WebhookWake \<Rightarrow>
          cron = [] \<and> hook \<noteq> [] \<and> trim hook = hook \<and> hash \<noteq> [] \<and> trim hash = hash \<and> trim key \<noteq> [])"

lemma checked_ok:
  "checked tzk cra w tz at = Inr (kind, cron, hook, hash, key) \<Longrightarrow>
   wake_ok tzk cra kind cron hook hash key tz"
  by (auto simp: checked_def wake_ok_def zone_def split: wake.splits if_splits) blast

fun schedule_allowed ::
  "(string \<Rightarrow> bool) \<Rightarrow> (string \<Rightarrow> string \<Rightarrow> int \<Rightarrow> int option) \<Rightarrow> schedule \<Rightarrow> schedule_event \<Rightarrow> bool" where
  "schedule_allowed tzk cra s (ScheduleCreated c) \<longleftrightarrow>
     trim (cr_prompt c) \<noteq> [] \<and>
     wake_ok tzk cra (cr_kind c) (cr_cron c) (cr_hook_id c) (cr_secret_hash c) (cr_webhook_key c) (cr_tz c)"
| "schedule_allowed tzk cra s (ScheduleUpdated u) \<longleftrightarrow>
     sch_created s \<and> \<not> sch_deleted s \<and> trim (up_prompt u) \<noteq> [] \<and>
     (\<exists>kind hook hash key.
        up_kind u = Some kind \<and> up_hook_id u = Some hook \<and> up_secret_hash u = Some hash \<and>
        up_webhook_key u = Some key \<and>
        wake_ok tzk cra kind (up_cron u) hook hash key (replaced (up_tz u) (sch_tz s)))"
| "schedule_allowed tzk cra s (SchedulePaused at) \<longleftrightarrow> sch_created s \<and> \<not> sch_deleted s \<and> \<not> sch_paused s"
| "schedule_allowed tzk cra s (ScheduleResumed at) \<longleftrightarrow> sch_created s \<and> \<not> sch_deleted s \<and> sch_paused s"
| "schedule_allowed tzk cra s (ScheduleDeleted at) \<longleftrightarrow> sch_created s \<and> \<not> sch_deleted s"
| "schedule_allowed tzk cra s (SecretRotated hash key at) \<longleftrightarrow>
     sch_created s \<and> \<not> sch_deleted s \<and> sch_kind s = WebhookWake \<and>
     hash \<noteq> [] \<and> trim hash = hash \<and> trim key \<noteq> []"
| "schedule_allowed tzk cra s (Fired run manual webhook presser at) \<longleftrightarrow>
     sch_created s \<and> \<not> sch_deleted s \<and> (sch_paused s \<longrightarrow> manual \<and> \<not> webhook)"
| "schedule_allowed tzk cra s (Skipped k) \<longleftrightarrow>
     sch_created s \<and> \<not> sch_deleted s \<and> (sch_paused s \<longrightarrow> sk_cause k = ByHand)"

lemma schedule_decide_guarded:
  assumes "schedule_decide tzk cra s c = Inr es"
  shows "guarded schedule_apply (schedule_allowed tzk cra) s es"
  using assms
  by (cases c)
    (auto simp: decide_create_def decide_update_def has_prompt_def dest: checked_ok split: if_splits)

interpretation schedule_guard:
  event_guard schedule_default schedule_apply "schedule_decide tzk cra" "schedule_allowed tzk cra"
  for tzk cra
  by unfold_locales (rule schedule_decide_guarded)

abbreviation schedule_history ::
  "(string \<Rightarrow> bool) \<Rightarrow> (string \<Rightarrow> string \<Rightarrow> int \<Rightarrow> int option) \<Rightarrow> schedule \<Rightarrow> schedule_event list \<Rightarrow> bool" where
  "schedule_history tzk cra \<equiv> history schedule_default schedule_apply (schedule_decide tzk cra)"

definition schedule_wf ::
  "(string \<Rightarrow> bool) \<Rightarrow> (string \<Rightarrow> string \<Rightarrow> int \<Rightarrow> int option) \<Rightarrow> schedule \<Rightarrow> bool" where
  "schedule_wf tzk cra s \<longleftrightarrow>
     (sch_created s \<longrightarrow>
        trim (sch_prompt s) \<noteq> [] \<and> sch_coworker_id s \<noteq> None \<and>
        wake_ok tzk cra (sch_kind s) (sch_cron s) (sch_hook_id s) (sch_secret_hash s)
          (sch_webhook_key s) (sch_tz s))"

lemma schedule_wf_step:
  assumes "schedule_wf tzk cra s" and "schedule_allowed tzk cra s e"
  shows "schedule_wf tzk cra (schedule_apply s e)"
proof (cases e)
  case (SecretRotated hash key at)
  with assms show ?thesis by (auto simp: schedule_wf_def wake_ok_def)
next
  case (Fired run manual webhook presser at)
  with assms show ?thesis by (auto simp: schedule_wf_def apply_fired_def split: option.splits)
next
  case (ScheduleUpdated u)
  with assms show ?thesis
    by (auto simp: schedule_wf_def apply_updated_def replaced_def split: option.splits)
qed (use assms in \<open>auto simp: schedule_wf_def apply_created_def\<close>)

lemma schedule_wf_history: "schedule_history tzk cra s log \<Longrightarrow> schedule_wf tzk cra s"
  by (rule schedule_guard.history_inv [where P = "schedule_wf tzk cra"])
    (auto simp: schedule_wf_step, simp add: schedule_wf_def schedule_default_def)

fun is_create :: "schedule_command \<Rightarrow> bool" where
  "is_create (CreateSchedule _) = True"
| "is_create _ = False"

interpretation schedule_sealed:
  sealed schedule_apply "schedule_decide tzk cra" "\<lambda>s. sch_deleted s \<or> \<not> sch_created s" is_create
  for tzk cra
proof unfold_locales
  fix s :: schedule and c
  assume "sch_deleted s \<or> \<not> sch_created s" "\<not> is_create c"
  then show "refuses (schedule_decide tzk cra) s c"
    by (cases c) (auto simp: refuses_def is_ok_iff decide_update_def)
qed

interpretation schedule_deleted: absorbing schedule_apply "schedule_decide tzk cra" sch_deleted for tzk cra
proof unfold_locales
  fix s :: schedule and c es
  assume d: "sch_deleted s" and es: "schedule_decide tzk cra s c = Inr es"
  have "sch_deleted s \<Longrightarrow> sch_deleted (schedule_apply s e)" for s :: schedule and e
    by (cases e) (auto simp: apply_created_def apply_updated_def apply_fired_def split: option.splits)
  then show "sch_deleted (foldl schedule_apply s es)"
    using guarded_fold_inv [OF schedule_decide_guarded [OF es], where P = sch_deleted] d by blast
qed

interpretation wake_word: word_code wake_kind_as_str "\<lambda>w. Some (wake_kind_from_stored w)"
proof unfold_locales
  show "Some (wake_kind_from_stored (wake_kind_as_str x)) = Some x" for x
    by (cases x) (simp_all add: wake_kind_from_stored_def)
qed

text \<open>What a firing puts on record, run by run.\<close>

lemma fired_after:
  assumes "fired s run = None" and "(cause = ByBot) = (presser \<noteq> None)"
  shows "fired (apply_fired s run (cause = ByHand) (cause = ByWebhook) presser) run =
    Some (fire_cause_as_str cause, presser)"
  using assms
  by (cases cause; cases presser) (auto simp: fired_def apply_fired_def split: option.splits if_splits)

lemma fired_other:
  "r \<noteq> run \<Longrightarrow> fired (apply_fired s run manual webhook presser) r = fired s r"
  by (auto simp: fired_def apply_fired_def split: option.splits)

section \<open>Properties\<close>

definition sample_clock :: "string \<Rightarrow> string \<Rightarrow> int \<Rightarrow> int option" where
  "sample_clock expression tz after = (if expression = ''0 0 9 * * MON'' then Some (after + 1) else None)"

definition sample_create :: schedule_create where
  "sample_create =
     \<lparr>cc_coworker_id = CoworkerId ''c'', cc_prompt = ''report'', cc_name = ''Weekly'',
      cc_wake = WakeCron ''0 9 * * 1'', cc_run_limits = run_limits_default, cc_tz = ''UTC'',
      cc_at_ms = 5\<rparr>"

definition sample_schedule_commands :: "schedule_command list" where
  "sample_schedule_commands =
     [CreateSchedule sample_create, PauseSchedule 6, Fire (RunId ''r1'') ByClock None 7,
      Fire (RunId ''r2'') ByHand None 8]"

lemma sample_schedule:
  "\<exists>s log. handle_all schedule_apply (schedule_decide (\<lambda>tz. tz = ''UTC'') sample_clock) schedule_default
      sample_schedule_commands = (s, log) \<and> sch_created s \<and> sch_paused s \<and>
      (\<exists>pre. log = pre @ Fired (RunId ''r2'') True False None 8 # [] \<and>
             sch_paused (schedule_replay pre))"
proof -
  let ?h = "handle_all schedule_apply (schedule_decide (\<lambda>tz. tz = ''UTC'') sample_clock)
    schedule_default sample_schedule_commands"
  have "sch_created (fst ?h) \<and> sch_paused (fst ?h)" by code_simp
  moreover have "snd ?h = butlast (snd ?h) @ Fired (RunId ''r2'') True False None 8 # []" by code_simp
  moreover have "sch_paused (schedule_replay (butlast (snd ?h)))" by code_simp
  ultimately show ?thesis by (metis prod.collapse)
qed

text \<open>Accepted means it will fire. Every schedule that accepted commands can create has
  something to say, a coworker to say it to, a zone the database knows, and a wake that can
  wake: a clock whose expression has an occurrence ahead of the moment it was stored and no
  hook, or a hook with an id, a hash and a key and no clock. Creating, editing (with or without
  a new zone) and rotating keep it so.\<close>

theorem accepted_means_it_fires:
  assumes "schedule_history tzk cra s log" and "sch_created s"
  shows "trim (sch_prompt s) \<noteq> [] \<and> sch_coworker_id s \<noteq> None \<and>
    wake_ok tzk cra (sch_kind s) (sch_cron s) (sch_hook_id s) (sch_secret_hash s)
      (sch_webhook_key s) (sch_tz s)"
  using schedule_wf_history [OF assms(1)] assms(2) by (simp add: schedule_wf_def)

theorem accepted_means_it_fires_witness:
  "\<exists>s log. schedule_history (\<lambda>tz. tz = ''UTC'') sample_clock s log \<and> sch_created s \<and>
     trim (sch_prompt s) \<noteq> []"
proof -
  from sample_schedule obtain s log where
    h: "handle_all schedule_apply (schedule_decide (\<lambda>tz. tz = ''UTC'') sample_clock) schedule_default
      sample_schedule_commands = (s, log)" and c: "sch_created s" by blast
  from accepted_means_it_fires [OF handle_all_history [OF h] c] handle_all_history [OF h] c
  show ?thesis by blast
qed

text \<open>A pause holds. Wherever a firing or a skip stands in a schedule's log, the schedule
  existed and was not deleted, and if it was paused then the firing was a person's own "run
  now": no clock, no webhook and no Bot got past the pause.\<close>

theorem paused_fires_by_hand_only:
  assumes "schedule_history tzk cra s log"
  shows "(log = pre @ Fired run manual webhook presser at # post \<longrightarrow>
      schedule_alive (schedule_replay pre) = Inr () \<and>
      (sch_paused (schedule_replay pre) \<longrightarrow> manual \<and> \<not> webhook)) \<and>
    (log = pre @ Skipped k # post \<longrightarrow>
      schedule_alive (schedule_replay pre) = Inr () \<and>
      (sch_paused (schedule_replay pre) \<longrightarrow> sk_cause k = ByHand))"
proof -
  note at = guarded_at [where apply_ev = schedule_apply and s = schedule_default and pre = pre,
      folded schedule_replay_def]
  have g: "guarded schedule_apply (schedule_allowed tzk cra) schedule_default log"
    using assms by (rule schedule_guard.history_guarded)
  show ?thesis
    using at [of "schedule_allowed tzk cra" "Fired run manual webhook presser at" post]
      at [of "schedule_allowed tzk cra" "Skipped k" post] g by auto
qed

theorem paused_fires_by_hand_only_witness:
  "\<exists>s log pre. schedule_history (\<lambda>tz. tz = ''UTC'') sample_clock s log \<and>
     log = pre @ Fired (RunId ''r2'') True False None 8 # [] \<and> sch_paused (schedule_replay pre) \<and>
     schedule_alive (schedule_replay pre) = Inr ()"
proof -
  from sample_schedule obtain s log pre where
    h: "handle_all schedule_apply (schedule_decide (\<lambda>tz. tz = ''UTC'') sample_clock) schedule_default
      sample_schedule_commands = (s, log)"
    and log: "log = pre @ Fired (RunId ''r2'') True False None 8 # []" "sch_paused (schedule_replay pre)"
    by blast
  note history = handle_all_history [OF h]
  from paused_fires_by_hand_only [OF history, of pre "RunId ''r2''" True False None 8 "[]"] history log
  show ?thesis by blast
qed

text \<open>A deleted schedule stays deleted, and until something is created under its id again it
  takes nothing at all: no edit, no pause, no firing, no skip.\<close>

theorem deleted_for_good:
  assumes "sch_deleted s"
    and "handle_all schedule_apply (schedule_decide tzk cra) s cs = (t, log)"
  shows "sch_deleted t \<and> (list_all (\<lambda>c. \<not> is_create c) cs \<longrightarrow> t = s \<and> log = [])"
  using assms schedule_deleted.ended_forever [OF assms] schedule_sealed.sealed_state [of s cs tzk cra]
  by auto

theorem deleted_for_good_witness:
  "\<exists>t log. handle_all schedule_apply (schedule_decide (\<lambda>tz. True) (\<lambda>_ _ _. None))
      (schedule_default\<lparr>sch_created := True, sch_deleted := True\<rparr>)
      [Fire (RunId ''r'') ByHand None 1] = (t, log) \<and> log = []"
proof -
  obtain t log where h: "handle_all schedule_apply (schedule_decide (\<lambda>tz. True) (\<lambda>_ _ _. None))
      (schedule_default\<lparr>sch_created := True, sch_deleted := True\<rparr>)
      [Fire (RunId ''r'') ByHand None 1] = (t, log)" by fastforce
  from deleted_for_good [OF _ h] h show ?thesis by auto
qed

text \<open>A run says what started it. An accepted firing of a run the schedule had not fired
  before, with a Bot named exactly when a Bot asked, is on record with its own cause and that
  Bot, and no other run's record changes.\<close>

theorem firing_is_provenance:
  assumes "schedule_decide tzk cra s (Fire run cause presser at) = Inr es"
    and "fired s (run_str run) = None" and "(cause = ByBot) = (presser \<noteq> None)"
  shows "fired (foldl schedule_apply s es) (run_str run) = Some (fire_cause_as_str cause, presser) \<and>
    (\<forall>other. other \<noteq> run_str run \<longrightarrow> fired (foldl schedule_apply s es) other = fired s other)"
  using assms(1) fired_after [OF assms(2,3)] fired_other by auto

theorem firing_is_provenance_witness:
  "fired (foldl schedule_apply (schedule_default\<lparr>sch_created := True\<rparr>)
      [Fired (RunId ''r'') False True None 3]) ''r'' = Some (''webhook'', None)"
proof -
  have "schedule_decide (\<lambda>tz. True) (\<lambda>_ _ _. None) (schedule_default\<lparr>sch_created := True\<rparr>)
      (Fire (RunId ''r'') ByWebhook None 3) = Inr [Fired (RunId ''r'') False True None 3]"
    by (simp add: may_fire_def schedule_alive_def schedule_default_def)
  moreover have "fired (schedule_default\<lparr>sch_created := True\<rparr>) (run_str (RunId ''r'')) = None"
    by (simp add: fired_def schedule_default_def)
  ultimately show ?thesis using firing_is_provenance by fastforce
qed

end
