(* ===== verification/Monitor.thy ===== *)
theory Monitor
  imports Ids Event_Sourcing
begin

text \<open>
  \<open>opengrok-core/src/monitor.rs\<close>: the monitor aggregate, a coworker that reacts to what the
  server's own log records. What may be watched is a published list; the record of its firings
  is what the loop guard excludes. A field's name is the source's behind \<open>mon_\<close>.
\<close>

definition watchable :: "string list" where
  "watchable =
     [''run-started'', ''run-suspended'', ''run-answered'', ''run-finished'', ''run-failed'',
      ''run-stopped'',
      ''coworker-hired'', ''coworker-renamed'', ''coworker-repinned'', ''coworker-effort-set'',
      ''coworker-source-set'', ''coworker-role-set'', ''coworker-visibility-set'',
      ''computer-assigned'', ''computer-released'', ''coworker-retired'', ''group-hired'',
      ''members-set'',
      ''connection-connected'', ''connection-refreshed'', ''connection-loaned'',
      ''connection-loan-revoked'', ''connection-disconnected'',
      ''schedule-created'', ''schedule-updated'', ''schedule-paused'', ''schedule-resumed'',
      ''schedule-deleted'', ''schedule-secret-rotated'', ''schedule-fired'',
      ''plan-changed'', ''email-verified'', ''account-enabled'', ''account-disabled'',
      ''account-profile-updated'', ''account-password-changed'', ''account-inference-source-set'',
      ''account-time-zone-set'']"

definition is_watchable :: "string \<Rightarrow> bool" where
  "is_watchable t \<longleftrightarrow> t \<in> set watchable"

datatype monitor_event =
    MonitorCreated coworker_id string string int
  | MonitorPaused int
  | MonitorResumed int
  | MonitorDeleted int
  | MonitorFired run_id string bool int
  | MonitorUpdated string string "coworker_id option" int

fun monitor_event_type :: "monitor_event \<Rightarrow> string" where
  "monitor_event_type (MonitorCreated _ _ _ _) = ''monitor-created''"
| "monitor_event_type (MonitorPaused _) = ''monitor-paused''"
| "monitor_event_type (MonitorResumed _) = ''monitor-resumed''"
| "monitor_event_type (MonitorDeleted _) = ''monitor-deleted''"
| "monitor_event_type (MonitorFired _ _ _ _) = ''monitor-fired''"
| "monitor_event_type (MonitorUpdated _ _ _ _) = ''monitor-updated''"

record monitor =
  mon_created :: bool
  mon_deleted :: bool
  mon_paused :: bool
  mon_coworker_id :: "coworker_id option"
  mon_watches :: string
  mon_prompt :: string
  mon_manual_runs :: "string set"
  mon_event_runs :: "string set"

definition monitor_default :: monitor where
  "monitor_default =
     \<lparr>mon_created = False, mon_deleted = False, mon_paused = False, mon_coworker_id = None,
      mon_watches = [], mon_prompt = [], mon_manual_runs = {}, mon_event_runs = {}\<rparr>"

datatype monitor_error =
    MonitorNotCreated
  | MonitorDeletedErr
  | MonitorAlreadyPaused
  | MonitorNotPaused
  | MonitorPausedErr
  | NothingWatched
  | MonitorEmptyPrompt
  | WatchingItself
  | NotWatchable string

datatype monitor_command =
    CreateMonitor coworker_id string string int
  | PauseMonitor int
  | ResumeMonitor int
  | DeleteMonitor int
  | FireMonitor run_id string bool int
  | UpdateMonitor string string "coworker_id option" int

fun monitor_apply :: "monitor \<Rightarrow> monitor_event \<Rightarrow> monitor" where
  "monitor_apply s (MonitorCreated c w p at) =
     s\<lparr>mon_created := True, mon_coworker_id := Some c, mon_watches := w, mon_prompt := p\<rparr>"
| "monitor_apply s (MonitorPaused at) = s\<lparr>mon_paused := True\<rparr>"
| "monitor_apply s (MonitorResumed at) = s\<lparr>mon_paused := False\<rparr>"
| "monitor_apply s (MonitorDeleted at) = s\<lparr>mon_deleted := True\<rparr>"
| "monitor_apply s (MonitorFired run stream manual at) =
     (if manual then s\<lparr>mon_manual_runs := insert (run_str run) (mon_manual_runs s)\<rparr>
      else s\<lparr>mon_event_runs := insert (run_str run) (mon_event_runs s)\<rparr>)"
| "monitor_apply s (MonitorUpdated w p c at) =
     s\<lparr>mon_watches := w, mon_prompt := p,
       mon_coworker_id := (case c of Some x \<Rightarrow> Some x | None \<Rightarrow> mon_coworker_id s)\<rparr>"

definition monitor_replay :: "monitor_event list \<Rightarrow> monitor" where
  "monitor_replay es = foldl monitor_apply monitor_default es"

definition monitor_alive :: "monitor \<Rightarrow> monitor_error + unit" where
  "monitor_alive s =
     (if \<not> mon_created s then Inl MonitorNotCreated
      else if mon_deleted s then Inl MonitorDeletedErr
      else Inr ())"

definition monitor_checked :: "string \<Rightarrow> string \<Rightarrow> monitor_error + string" where
  "monitor_checked w p =
     (let watches = trim w in
      if watches = [] then Inl NothingWatched
      else if watches = ''monitor-fired'' then Inl WatchingItself
      else if \<not> is_watchable watches then Inl (NotWatchable watches)
      else if trim p = [] then Inl MonitorEmptyPrompt
      else Inr watches)"

fun monitor_decide :: "monitor \<Rightarrow> monitor_command \<Rightarrow> monitor_error + monitor_event list" where
  "monitor_decide s (CreateMonitor c w p at) =
     rbind (monitor_checked w p) (\<lambda>watches. Inr [MonitorCreated c watches p at])"
| "monitor_decide s (PauseMonitor at) =
     rbind (monitor_alive s) (\<lambda>_.
     if mon_paused s then Inl MonitorAlreadyPaused else Inr [MonitorPaused at])"
| "monitor_decide s (ResumeMonitor at) =
     rbind (monitor_alive s) (\<lambda>_.
     if \<not> mon_paused s then Inl MonitorNotPaused else Inr [MonitorResumed at])"
| "monitor_decide s (DeleteMonitor at) = rbind (monitor_alive s) (\<lambda>_. Inr [MonitorDeleted at])"
| "monitor_decide s (FireMonitor run stream manual at) =
     rbind (monitor_alive s) (\<lambda>_.
     if mon_paused s \<and> \<not> manual then Inl MonitorPausedErr
     else Inr [MonitorFired run stream manual at])"
| "monitor_decide s (UpdateMonitor w p c at) =
     rbind (monitor_alive s) (\<lambda>_.
     rbind (monitor_checked w p) (\<lambda>watches. Inr [MonitorUpdated watches p c at]))"

section \<open>What each event finds\<close>

lemma monitor_alive_Inr [simp]: "monitor_alive s = Inr u \<longleftrightarrow> mon_created s \<and> \<not> mon_deleted s"
  by (auto simp: monitor_alive_def)

lemma monitor_checked_Inr:
  "monitor_checked w p = Inr x \<longleftrightarrow> x = trim w \<and> is_watchable x \<and> trim p \<noteq> []"
  by (auto simp: monitor_checked_def Let_def is_watchable_def watchable_def)

fun monitor_allowed :: "monitor \<Rightarrow> monitor_event \<Rightarrow> bool" where
  "monitor_allowed s (MonitorCreated c w p at) \<longleftrightarrow> is_watchable w \<and> trim p \<noteq> []"
| "monitor_allowed s (MonitorUpdated w p c at) \<longleftrightarrow>
     mon_created s \<and> \<not> mon_deleted s \<and> is_watchable w \<and> trim p \<noteq> []"
| "monitor_allowed s (MonitorFired run stream manual at) \<longleftrightarrow>
     mon_created s \<and> \<not> mon_deleted s \<and> (mon_paused s \<longrightarrow> manual)"
| "monitor_allowed s (MonitorPaused at) \<longleftrightarrow> mon_created s \<and> \<not> mon_deleted s \<and> \<not> mon_paused s"
| "monitor_allowed s (MonitorResumed at) \<longleftrightarrow> mon_created s \<and> \<not> mon_deleted s \<and> mon_paused s"
| "monitor_allowed s (MonitorDeleted at) \<longleftrightarrow> mon_created s \<and> \<not> mon_deleted s"

lemma monitor_decide_guarded:
  assumes "monitor_decide s c = Inr es"
  shows "guarded monitor_apply monitor_allowed s es"
  using assms by (cases c) (auto simp: monitor_checked_Inr split: if_splits)

interpretation monitor_guard: event_guard monitor_default monitor_apply monitor_decide monitor_allowed
  by unfold_locales (rule monitor_decide_guarded)

abbreviation monitor_history :: "monitor \<Rightarrow> monitor_event list \<Rightarrow> bool" where
  "monitor_history \<equiv> history monitor_default monitor_apply monitor_decide"

text \<open>The runs a log says the monitor started, which is what the guard against loops asks.\<close>

fun fired_run :: "monitor_event \<Rightarrow> string list" where
  "fired_run (MonitorFired run _ _ _) = [run_str run]"
| "fired_run _ = []"

definition monitor_journal :: "monitor \<Rightarrow> monitor_event list \<Rightarrow> bool" where
  "monitor_journal s log \<longleftrightarrow>
     mon_manual_runs s \<union> mon_event_runs s = set (concat (map fired_run log)) \<and>
     (mon_created s \<longrightarrow> is_watchable (mon_watches s) \<and> trim (mon_prompt s) \<noteq> [] \<and> mon_coworker_id s \<noteq> None)"

lemma monitor_journal_step:
  "monitor_journal s log \<Longrightarrow> monitor_allowed s e \<Longrightarrow> monitor_journal (monitor_apply s e) (log @ [e])"
  by (cases e) (auto simp: monitor_journal_def split: option.splits)

interpretation monitor_log: event_log monitor_default monitor_apply monitor_decide monitor_journal
proof unfold_locales
  show "monitor_journal monitor_default []"
    by (simp add: monitor_journal_def monitor_default_def)
next
  fix s log c es
  assume "monitor_journal s log" "monitor_decide s c = Inr es"
  then show "monitor_journal (foldl monitor_apply s es) (log @ es)"
    using guarded_log_inv [where R = monitor_journal, OF monitor_decide_guarded] monitor_journal_step
    by blast
qed

lemma monitor_fired_not_watchable: "\<not> is_watchable ''monitor-fired''"
  by (simp add: is_watchable_def watchable_def)

section \<open>Properties\<close>

text \<open>A monitor cannot set off a loop and cannot watch nothing. Every monitor that accepted
  commands can create or edit watches an event on the published list, never a monitor's own
  firing, says something and has a coworker; the runs it holds as its own are exactly those
  its log says it started, so the loop guard has them all; and a firing stands in the log of a
  paused monitor only where a person asked for it.\<close>

theorem monitor_never_loops:
  assumes "monitor_history s log"
  shows "(mon_created s \<longrightarrow> is_watchable (mon_watches s) \<and> mon_watches s \<noteq> ''monitor-fired'' \<and>
      trim (mon_prompt s) \<noteq> [] \<and> mon_coworker_id s \<noteq> None) \<and>
    mon_manual_runs s \<union> mon_event_runs s = set (concat (map fired_run log)) \<and>
    (log = pre @ MonitorFired run stream manual at # post \<longrightarrow>
      monitor_alive (monitor_replay pre) = Inr () \<and> (mon_paused (monitor_replay pre) \<longrightarrow> manual))"
proof -
  have "monitor_allowed (monitor_replay pre) (MonitorFired run stream manual at)"
    if "log = pre @ MonitorFired run stream manual at # post"
    using monitor_guard.history_guarded [OF assms, unfolded that]
    unfolding monitor_replay_def by (rule guarded_at)
  then show ?thesis
    using monitor_log.inv_history [OF assms] monitor_fired_not_watchable
    by (auto simp: monitor_journal_def)
qed

theorem monitor_never_loops_witness:
  "\<exists>s log. monitor_history s log \<and> mon_created s \<and> is_watchable (mon_watches s) \<and>
     mon_event_runs s = {''r''}"
proof -
  let ?h = "handle_all monitor_apply monitor_decide monitor_default
    [CreateMonitor (CoworkerId ''c'') '' run-failed'' ''look'' 1, FireMonitor (RunId ''r'') ''run/x'' False 2]"
  obtain s log where h: "?h = (s, log)" by fastforce
  have "mon_created (fst ?h)" "mon_event_runs (fst ?h) = {''r''}" by code_simp+
  with h monitor_never_loops [OF handle_all_history [OF h]] handle_all_history [OF h] show ?thesis
    by auto
qed

end
