(* ===== verification/Org.thy ===== *)
theory Org
  imports Text_Words Limits Ids Event_Sourcing
begin

text \<open>
  \<open>opengrok-core/src/org.rs\<close>: the organization aggregate, the tenant boundary with its domains
  and its invites. \<open>str::to_lowercase\<close> is Unicode's, whose tables are not part of the model:
  it is the argument \<open>lc\<close>, and what the theorems use of it is \<open>lowers_ascii\<close>, that on ASCII
  text it lowers the ASCII letters and changes nothing else. A field's name is the source's
  behind \<open>org_\<close>.
\<close>

definition is_ascii :: "char \<Rightarrow> bool" where
  "is_ascii c \<longleftrightarrow> byte c < 128"

definition lowers_ascii :: "(string \<Rightarrow> string) \<Rightarrow> bool" where
  "lowers_ascii lc \<longleftrightarrow> (\<forall>s. list_all is_ascii s \<longrightarrow> lc s = to_ascii_lowercase s)"

section \<open>Domains\<close>

definition normalize_domain :: "(string \<Rightarrow> string) \<Rightarrow> string \<Rightarrow> string" where
  "normalize_domain lc raw = lc (dropWhile (\<lambda>c. c = CHR ''@'') (trim raw))"

definition email_domain :: "(string \<Rightarrow> string) \<Rightarrow> string \<Rightarrow> string option" where
  "email_domain lc email = map_option (\<lambda>(_, d). normalize_domain lc d) (rsplit_once CHR ''@'' email)"

definition is_label :: "string \<Rightarrow> bool" where
  "is_label label \<longleftrightarrow>
     label \<noteq> [] \<and> length label \<le> 63 \<and> hd label \<noteq> CHR ''-'' \<and> last label \<noteq> CHR ''-'' \<and>
     list_all (\<lambda>b. is_ascii_lowercase b \<or> is_ascii_digit b \<or> b = CHR ''-'') label"

definition is_domain_name :: "string \<Rightarrow> bool" where
  "is_domain_name d \<longleftrightarrow>
     \<not> (d = [] \<or> length d > 253 \<or> CHR ''.'' \<notin> set d) \<and> list_all is_label (split_on CHR ''.'' d)"

definition challenge_record_name :: "string \<Rightarrow> string" where
  "challenge_record_name d = ''_opengrok-verify.'' @ d"

definition challenge_record_value :: "string \<Rightarrow> string" where
  "challenge_record_value token = ''opengrok-verify='' @ token"

text \<open>\<open>trim_matches('"')\<close>.\<close>

definition trim_quotes :: "string \<Rightarrow> string" where
  "trim_quotes s = (let q = (\<lambda>c. c = CHR 0x22) in rev (dropWhile q (rev (dropWhile q s))))"

definition challenge_satisfied :: "string \<Rightarrow> string list \<Rightarrow> bool" where
  "challenge_satisfied token txt_values \<longleftrightarrow>
     list_ex (\<lambda>v. trim_quotes (trim v) = challenge_record_value token) txt_values"

section \<open>The aggregate\<close>

datatype org_event =
    OrgCreated string account_id "string list" int
  | DomainAdded string int
  | DomainClaimed string string int
  | DomainVerified string int
  | DomainClaimWithdrawn string int
  | InviteIssued string int
  | InviteRedeemed string account_id int
  | InviteRevoked string int
  | MemberJoined account_id int
  | RunLimitsSet run_limits int

fun org_event_type :: "org_event \<Rightarrow> string" where
  "org_event_type (OrgCreated _ _ _ _) = ''org-created''"
| "org_event_type (DomainAdded _ _) = ''org-domain-added''"
| "org_event_type (DomainClaimed _ _ _) = ''org-domain-claimed''"
| "org_event_type (DomainVerified _ _) = ''org-domain-verified''"
| "org_event_type (DomainClaimWithdrawn _ _) = ''org-domain-claim-withdrawn''"
| "org_event_type (InviteIssued _ _) = ''org-invite-issued''"
| "org_event_type (InviteRedeemed _ _ _) = ''org-invite-redeemed''"
| "org_event_type (InviteRevoked _ _) = ''org-invite-revoked''"
| "org_event_type (MemberJoined _ _) = ''org-member-joined''"
| "org_event_type (RunLimitsSet _ _) = ''org-run-limits-set''"

datatype invite_state = OpenInvite | RedeemedBy account_id | RevokedInvite

record org =
  org_created :: bool
  org_name :: string
  org_admin :: "account_id option"
  org_domains :: "string list"
  org_pending_domains :: "string \<rightharpoonup> string"
  org_invites :: "string \<rightharpoonup> invite_state"
  org_members :: "account_id list"
  org_run_limits :: run_limits

definition org_default :: org where
  "org_default =
     \<lparr>org_created = False, org_name = [], org_admin = None, org_domains = [],
      org_pending_domains = Map.empty, org_invites = Map.empty, org_members = [],
      org_run_limits = run_limits_default\<rparr>"

datatype org_error =
    OrgNotCreated
  | AlreadyCreated
  | EmptyName
  | NoDomains
  | DuplicateInvite
  | UnknownInvite
  | InviteSpent
  | InviteRevokedErr
  | DomainNotAllowed
  | InvalidDomain
  | DomainAlreadyVerified
  | DomainAlreadyClaimed
  | DomainNotClaimed

datatype org_command =
    CreateOrg string account_id "string list" int
  | AddDomain string int
  | ClaimDomain string string int
  | VerifyDomain string int
  | WithdrawDomainClaim string int
  | IssueInvite string int
  | RedeemInvite string string account_id int
  | RevokeInvite string int
  | SetRunLimits run_limits int

definition admit_domain :: "org \<Rightarrow> string \<Rightarrow> org" where
  "admit_domain s d =
     s\<lparr>org_pending_domains := (org_pending_domains s)(d := None),
       org_domains := (if d \<in> set (org_domains s) then org_domains s else org_domains s @ [d])\<rparr>"

fun org_apply :: "(string \<Rightarrow> string) \<Rightarrow> org \<Rightarrow> org_event \<Rightarrow> org" where
  "org_apply lc s (OrgCreated n a ds at) =
     s\<lparr>org_created := True, org_name := n, org_admin := Some a,
       org_domains := map (normalize_domain lc) ds\<rparr>"
| "org_apply lc s (DomainAdded d at) = admit_domain s (normalize_domain lc d)"
| "org_apply lc s (DomainVerified d at) = admit_domain s (normalize_domain lc d)"
| "org_apply lc s (DomainClaimed d token at) =
     s\<lparr>org_pending_domains := (org_pending_domains s)(normalize_domain lc d \<mapsto> token)\<rparr>"
| "org_apply lc s (DomainClaimWithdrawn d at) =
     s\<lparr>org_pending_domains := (org_pending_domains s)(normalize_domain lc d := None)\<rparr>"
| "org_apply lc s (InviteIssued code at) =
     s\<lparr>org_invites := (org_invites s)(code \<mapsto> OpenInvite)\<rparr>"
| "org_apply lc s (InviteRedeemed code a at) =
     s\<lparr>org_invites := (org_invites s)(code \<mapsto> RedeemedBy a)\<rparr>"
| "org_apply lc s (InviteRevoked code at) =
     s\<lparr>org_invites := (org_invites s)(code \<mapsto> RevokedInvite)\<rparr>"
| "org_apply lc s (MemberJoined a at) =
     s\<lparr>org_members := (if a \<in> set (org_members s) then org_members s else org_members s @ [a])\<rparr>"
| "org_apply lc s (RunLimitsSet l at) = s\<lparr>org_run_limits := l\<rparr>"

definition org_replay :: "(string \<Rightarrow> string) \<Rightarrow> org_event list \<Rightarrow> org" where
  "org_replay lc es = foldl (org_apply lc) org_default es"

definition org_alive :: "org \<Rightarrow> org_error + unit" where
  "org_alive s = ensure (org_created s) OrgNotCreated"

definition allows_email :: "(string \<Rightarrow> string) \<Rightarrow> org \<Rightarrow> string \<Rightarrow> bool" where
  "allows_email lc s email =
     (case email_domain lc email of Some d \<Rightarrow> d \<in> set (org_domains s) | None \<Rightarrow> False)"

fun org_decide :: "(string \<Rightarrow> string) \<Rightarrow> org \<Rightarrow> org_command \<Rightarrow> org_error + org_event list" where
  "org_decide lc s (CreateOrg n a raw at) =
     (if org_created s then Inl AlreadyCreated
      else if trim n = [] then Inl EmptyName
      else let ds = filter (\<lambda>d. d \<noteq> []) (map (normalize_domain lc) raw)
           in if ds = [] then Inl NoDomains
              else if list_ex (\<lambda>d. \<not> is_domain_name d) ds then Inl InvalidDomain
              else Inr [OrgCreated n a ds at])"
| "org_decide lc s (AddDomain raw at) =
     rbind (org_alive s) (\<lambda>_.
     let d = normalize_domain lc raw
     in if \<not> is_domain_name d then Inl InvalidDomain else Inr [DomainAdded d at])"
| "org_decide lc s (ClaimDomain raw token at) =
     rbind (org_alive s) (\<lambda>_.
     let d = normalize_domain lc raw
     in if \<not> is_domain_name d then Inl InvalidDomain
        else if d \<in> set (org_domains s) then Inl DomainAlreadyVerified
        else if org_pending_domains s d \<noteq> None then Inl DomainAlreadyClaimed
        else Inr [DomainClaimed d token at])"
| "org_decide lc s (VerifyDomain raw at) =
     rbind (org_alive s) (\<lambda>_.
     let d = normalize_domain lc raw
     in if d \<in> set (org_domains s) then Inl DomainAlreadyVerified
        else if org_pending_domains s d = None then Inl DomainNotClaimed
        else Inr [DomainVerified d at])"
| "org_decide lc s (WithdrawDomainClaim raw at) =
     rbind (org_alive s) (\<lambda>_.
     let d = normalize_domain lc raw
     in if org_pending_domains s d = None then Inl DomainNotClaimed
        else Inr [DomainClaimWithdrawn d at])"
| "org_decide lc s (IssueInvite code at) =
     rbind (org_alive s) (\<lambda>_.
     if org_invites s code \<noteq> None then Inl DuplicateInvite else Inr [InviteIssued code at])"
| "org_decide lc s (RedeemInvite code domain a at) =
     rbind (org_alive s) (\<lambda>_.
     (case org_invites s code of
        None \<Rightarrow> Inl UnknownInvite
      | Some (RedeemedBy _) \<Rightarrow> Inl InviteSpent
      | Some RevokedInvite \<Rightarrow> Inl InviteRevokedErr
      | Some OpenInvite \<Rightarrow>
          if normalize_domain lc domain \<notin> set (org_domains s) then Inl DomainNotAllowed
          else Inr [InviteRedeemed code a at, MemberJoined a at]))"
| "org_decide lc s (RevokeInvite code at) =
     rbind (org_alive s) (\<lambda>_.
     (case org_invites s code of
        None \<Rightarrow> Inl UnknownInvite
      | Some (RedeemedBy _) \<Rightarrow> Inl InviteSpent
      | _ \<Rightarrow> Inr [InviteRevoked code at]))"
| "org_decide lc s (SetRunLimits l at) = rbind (org_alive s) (\<lambda>_. Inr [RunLimitsSet l at])"

section \<open>A domain's name is its own normal form\<close>

lemma domain_chars:
  assumes "is_domain_name d" and "c \<in> set d"
  shows "is_ascii_lowercase c \<or> is_ascii_digit c \<or> c = CHR ''-'' \<or> c = CHR ''.''"
proof -
  have "join ''.'' (split_on CHR ''.'' d) = d" by (rule join_split_on)
  moreover have "c \<in> set (join ''.'' ps) \<Longrightarrow> c = CHR ''.'' \<or> (\<exists>p\<in>set ps. c \<in> set p)" for ps
    by (induction "''.''" ps rule: join.induct) auto
  ultimately obtain p where "c = CHR ''.'' \<or> p \<in> set (split_on CHR ''.'' d) \<and> c \<in> set p"
    using assms(2) by metis
  then show ?thesis using assms(1) by (auto simp: is_domain_name_def is_label_def list_all_iff)
qed

lemma normalize_domain_name:
  assumes "lowers_ascii lc" and "is_domain_name d"
  shows "normalize_domain lc d = d"
proof -
  have plain: "33 \<le> byte c \<and> byte c < 128 \<and> c \<noteq> CHR ''@'' \<and> \<not> is_ascii_uppercase c" if "c \<in> set d" for c
    using domain_chars [OF assms(2) that]
    by (auto simp: is_ascii_lowercase_def is_ascii_digit_def is_ascii_uppercase_def byte_def)
  have "d \<noteq> []" using assms(2) by (simp add: is_domain_name_def)
  then have "a_word d" using plain no_white_plain by (auto simp: a_word_def)
  then have "trim d = d" using trim_join [of "[d]"] by simp
  moreover have "dropWhile (\<lambda>c. c = CHR ''@'') d = d"
    using \<open>d \<noteq> []\<close> plain by (cases d) auto
  moreover have "lc d = d"
    using assms(1) plain
    by (simp add: lowers_ascii_def list_all_iff is_ascii_def to_ascii_lowercase_def
        ascii_lower_char_def map_idI)
  ultimately show ?thesis by (simp add: normalize_domain_def)
qed

section \<open>What each event finds\<close>

lemma org_alive_Inr [simp]: "org_alive s = Inr u \<longleftrightarrow> org_created s"
  by (simp add: org_alive_def)

fun org_allowed :: "(string \<Rightarrow> string) \<Rightarrow> org \<Rightarrow> org_event \<Rightarrow> bool" where
  "org_allowed lc s (OrgCreated n a ds at) \<longleftrightarrow>
     \<not> org_created s \<and> trim n \<noteq> [] \<and> ds \<noteq> [] \<and> list_all is_domain_name ds"
| "org_allowed lc s (DomainAdded d at) \<longleftrightarrow> org_created s \<and> is_domain_name d"
| "org_allowed lc s (DomainClaimed d token at) \<longleftrightarrow>
     org_created s \<and> is_domain_name d \<and> d \<notin> set (org_domains s) \<and> org_pending_domains s d = None"
| "org_allowed lc s (DomainVerified d at) \<longleftrightarrow>
     org_created s \<and> d \<notin> set (org_domains s) \<and> org_pending_domains s d \<noteq> None"
| "org_allowed lc s (DomainClaimWithdrawn d at) \<longleftrightarrow> org_created s \<and> org_pending_domains s d \<noteq> None"
| "org_allowed lc s (InviteIssued code at) \<longleftrightarrow> org_created s \<and> org_invites s code = None"
| "org_allowed lc s (InviteRedeemed code a at) \<longleftrightarrow> org_created s \<and> org_invites s code = Some OpenInvite"
| "org_allowed lc s (InviteRevoked code at) \<longleftrightarrow>
     org_created s \<and> org_invites s code \<in> {Some OpenInvite, Some RevokedInvite}"
| "org_allowed lc s (MemberJoined a at) \<longleftrightarrow>
     org_created s \<and> (\<exists>code. org_invites s code = Some (RedeemedBy a))"
| "org_allowed lc s (RunLimitsSet l at) \<longleftrightarrow> org_created s"

lemma org_decide_guarded:
  assumes "org_decide lc s c = Inr es"
  shows "guarded (org_apply lc) (org_allowed lc) s es"
  using assms
  by (cases c) (auto simp: Let_def list_all_iff list_ex_iff filter_empty_conv
      split: if_splits option.splits invite_state.splits)

interpretation org_guard: event_guard org_default "org_apply lc" "org_decide lc" "org_allowed lc" for lc
  by unfold_locales (rule org_decide_guarded)

abbreviation org_history :: "(string \<Rightarrow> string) \<Rightarrow> org \<Rightarrow> org_event list \<Rightarrow> bool" where
  "org_history lc \<equiv> history org_default (org_apply lc) (org_decide lc)"

section \<open>Invites\<close>

text \<open>Every acceptance of an invite in a log, as the code and the account that used it.\<close>

fun redemption :: "org_event \<Rightarrow> (string \<times> account_id) list" where
  "redemption (InviteRedeemed code a _) = [(code, a)]"
| "redemption _ = []"

definition redemptions :: "org_event list \<Rightarrow> (string \<times> account_id) list" where
  "redemptions log = concat (map redemption log)"

lemma redemptions_append [simp]: "redemptions (xs @ ys) = redemptions xs @ redemptions ys"
  by (simp add: redemptions_def)

lemma redemptions_Cons [simp]: "redemptions (e # es) = redemption e @ redemptions es"
  by (simp add: redemptions_def)

lemma redemptions_Nil [simp]: "redemptions [] = []"
  by (simp add: redemptions_def)

definition invite_journal :: "org \<Rightarrow> org_event list \<Rightarrow> bool" where
  "invite_journal s log \<longleftrightarrow>
     (\<forall>code a. org_invites s code = Some (RedeemedBy a) \<longleftrightarrow> (code, a) \<in> set (redemptions log)) \<and>
     distinct (map fst (redemptions log)) \<and>
     set (org_members s) \<subseteq> snd ` set (redemptions log) \<and> distinct (org_members s)"

lemma invite_journal_step:
  assumes "invite_journal s log" and "org_allowed lc s e"
  shows "invite_journal (org_apply lc s e) (log @ [e])"
proof -
  have spent: "(code, x) \<in> set (redemptions log) \<Longrightarrow> org_invites s code = Some (RedeemedBy x)" for code x
    using assms(1) by (simp add: invite_journal_def)
  show ?thesis
  proof (cases e)
    case (InviteRedeemed code a at)
    have fresh: "(code, x) \<notin> set (redemptions log)" for x
      using spent [of code x] assms(2) InviteRedeemed by auto
    then have "code \<notin> fst ` set (redemptions log)" by auto
    with fresh show ?thesis using assms InviteRedeemed by (auto simp: invite_journal_def)
  next
    case (MemberJoined a at)
    then show ?thesis using assms by (force simp: invite_journal_def)
  qed (use assms in \<open>auto simp: invite_journal_def admit_domain_def dest: spent\<close>)
qed

text \<open>Everyone who redeemed an invite has joined by the time the command is over.\<close>

lemma redeemers_joined:
  assumes "org_decide lc s c = Inr es"
    and "snd ` set (redemptions log) \<subseteq> set (org_members s)"
  shows "snd ` set (redemptions (log @ es)) \<subseteq> set (org_members (foldl (org_apply lc) s es))"
  using assms
  by (cases c) (auto simp: Let_def admit_domain_def split: if_splits option.splits invite_state.splits)

interpretation invite_log: event_log org_default "org_apply lc" "org_decide lc"
  "\<lambda>s log. invite_journal s log \<and> snd ` set (redemptions log) \<subseteq> set (org_members s)" for lc
proof unfold_locales
  fix s log c es
  assume before: "invite_journal s log \<and> snd ` set (redemptions log) \<subseteq> set (org_members s)"
    and ok: "org_decide lc s c = Inr es"
  have "invite_journal (foldl (org_apply lc) s es) (log @ es)"
    by (rule guarded_log_inv [where R = invite_journal, OF org_decide_guarded [OF ok]])
      (use before invite_journal_step in auto)
  then show "invite_journal (foldl (org_apply lc) s es) (log @ es) \<and>
      snd ` set (redemptions (log @ es)) \<subseteq> set (org_members (foldl (org_apply lc) s es))"
    using before redeemers_joined [OF ok] by simp
qed (simp add: invite_journal_def org_default_def)

section \<open>Domains an organization holds\<close>

definition claimed_in :: "org_event list \<Rightarrow> string \<Rightarrow> string \<Rightarrow> bool" where
  "claimed_in log d token \<longleftrightarrow> (\<exists>at. DomainClaimed d token at \<in> set log)"

definition domains_ok :: "org \<Rightarrow> org_event list \<Rightarrow> bool" where
  "domains_ok s log \<longleftrightarrow>
     (org_created s \<longleftrightarrow> org_domains s \<noteq> []) \<and>
     (\<not> org_created s \<longrightarrow> org_pending_domains s = Map.empty) \<and>
     list_all is_domain_name (org_domains s) \<and>
     (\<forall>d token. org_pending_domains s d = Some token \<longrightarrow>
        is_domain_name d \<and> d \<notin> set (org_domains s) \<and> claimed_in log d token)"

lemma domains_ok_step:
  assumes "lowers_ascii lc" and "domains_ok s log" and "org_allowed lc s e"
  shows "domains_ok (org_apply lc s e) (log @ [e])"
proof -
  have norm: "is_domain_name d \<Longrightarrow> normalize_domain lc d = d" for d
    using assms(1) by (rule normalize_domain_name)
  show ?thesis
  proof (cases e)
    case (OrgCreated n a ds at)
    then have "map (normalize_domain lc) ds = ds"
      using assms(3) norm by (simp add: list_all_iff map_idI)
    then show ?thesis using assms OrgCreated by (simp add: domains_ok_def)
  next
    case (DomainVerified d at)
    then have "is_domain_name d" using assms by (auto simp: domains_ok_def)
    then show ?thesis using assms DomainVerified norm
      by (auto simp: domains_ok_def admit_domain_def claimed_in_def)
  next
    case (DomainClaimWithdrawn d at)
    then have "is_domain_name d" using assms by (auto simp: domains_ok_def)
    then show ?thesis using assms DomainClaimWithdrawn norm by (auto simp: domains_ok_def claimed_in_def)
  qed (use assms norm in \<open>auto simp: domains_ok_def admit_domain_def claimed_in_def\<close>)
qed

lemma domains_ok_log:
  assumes "lowers_ascii lc" and "guarded (org_apply lc) (org_allowed lc) org_default log"
  shows "domains_ok (org_replay lc log) log"
proof -
  have "domains_ok (foldl (org_apply lc) org_default log) ([] @ log)"
  proof (rule guarded_log_inv [where R = domains_ok, OF assms(2)])
    show "domains_ok org_default []" by (simp add: domains_ok_def org_default_def)
  qed (rule domains_ok_step [OF assms(1)])
  then show ?thesis by (simp add: org_replay_def)
qed

section \<open>Properties\<close>

text \<open>One invite admits one member. A redemption is accepted exactly for an existing
  organization, an invite that is open and a domain the organization holds, and then the
  redemption and the joining are one append. Over any history of accepted commands no code is
  redeemed twice, an invite reads as redeemed by an account exactly when the log has that
  redemption, and the members, each listed once, are exactly the accounts that redeemed
  one.\<close>

theorem invite_admits_one:
  assumes "org_history lc s log"
  shows "(org_decide lc s (RedeemInvite code d a at) = Inr es \<longleftrightarrow>
      org_created s \<and> org_invites s code = Some OpenInvite \<and>
      normalize_domain lc d \<in> set (org_domains s) \<and> es = [InviteRedeemed code a at, MemberJoined a at]) \<and>
    distinct (map fst (redemptions log)) \<and>
    (\<forall>code a. org_invites s code = Some (RedeemedBy a) \<longleftrightarrow> (code, a) \<in> set (redemptions log)) \<and>
    distinct (org_members s) \<and> set (org_members s) = snd ` set (redemptions log)"
proof -
  have "org_decide lc s (RedeemInvite code d a at) = Inr es \<longleftrightarrow>
      org_created s \<and> org_invites s code = Some OpenInvite \<and>
      normalize_domain lc d \<in> set (org_domains s) \<and> es = [InviteRedeemed code a at, MemberJoined a at]"
    by (auto split: option.splits invite_state.splits)
  moreover note invite_log.inv_history [OF assms]
  ultimately show ?thesis by (auto simp: invite_journal_def)
qed

theorem invite_admits_one_witness:
  "\<exists>s log. org_history to_ascii_lowercase s log \<and> redemptions log = [(''k'', AccountId ''b'')] \<and>
     set (org_members s) = {AccountId ''b''}"
proof -
  let ?h = "handle_all (org_apply to_ascii_lowercase) (org_decide to_ascii_lowercase) org_default
    [CreateOrg ''Acme'' (AccountId ''a'') [''Acme.com''] 1, IssueInvite ''k'' 2,
     RedeemInvite ''k'' ''evil.com'' (AccountId ''x'') 3, RedeemInvite ''k'' ''@acme.com'' (AccountId ''b'') 4,
     RedeemInvite ''k'' ''acme.com'' (AccountId ''c'') 5]"
  obtain s log where h: "?h = (s, log)" by fastforce
  have "redemptions (snd ?h) = [(''k'', AccountId ''b'')]" by code_simp
  then have "redemptions log = [(''k'', AccountId ''b'')]" unfolding h by simp
  moreover have hist: "org_history to_ascii_lowercase s log" using h by (rule handle_all_history)
  moreover have "set (org_members s) = snd ` set (redemptions log)"
    using invite_admits_one [OF hist] by blast
  ultimately show ?thesis by auto
qed

text \<open>Mail from a domain is let in only for a domain the organization proved or was given.
  Wherever lowering a text lowers the ASCII letters of ASCII text, an organization that exists
  holds at least one domain, every domain it holds is a well-formed lower-case name, so is every
  domain it waits to verify, which it does not hold yet and which its log has a claim of with
  the very challenge it waits for; and a verification stands in a log only of a domain that was
  so waiting. An address is allowed exactly when what follows its last at-sign is a domain the
  organization holds.\<close>

theorem domains_are_proved:
  assumes "org_history lc s log" and "lowers_ascii lc"
  shows "(org_created s \<longrightarrow> org_domains s \<noteq> []) \<and> list_all is_domain_name (org_domains s) \<and>
    (\<forall>d token. org_pending_domains s d = Some token \<longrightarrow>
       is_domain_name d \<and> d \<notin> set (org_domains s) \<and> claimed_in log d token) \<and>
    (log = pre @ DomainVerified d at # post \<longrightarrow>
       (\<exists>token. org_pending_domains (org_replay lc pre) d = Some token \<and> claimed_in pre d token) \<and>
       d \<in> set (org_domains (org_apply lc (org_replay lc pre) (DomainVerified d at)))) \<and>
    (allows_email lc s email \<longleftrightarrow>
       (\<exists>user host. rsplit_once CHR ''@'' email = Some (user, host) \<and>
          normalize_domain lc host \<in> set (org_domains s)))"
proof -
  have g: "guarded (org_apply lc) (org_allowed lc) org_default log"
    using assms(1) by (rule org_guard.history_guarded)
  have ok: "domains_ok s log"
    using domains_ok_log [OF assms(2) g] history_replays [OF assms(1)] by (simp add: org_replay_def)
  have "(\<exists>token. org_pending_domains (org_replay lc pre) d = Some token \<and> claimed_in pre d token) \<and>
      d \<in> set (org_domains (org_apply lc (org_replay lc pre) (DomainVerified d at)))"
    if split: "log = pre @ DomainVerified d at # post"
  proof -
    have "org_allowed lc (org_replay lc pre) (DomainVerified d at)"
      using g unfolding split org_replay_def by (rule guarded_at)
    moreover have "domains_ok (org_replay lc pre) pre"
      using g domains_ok_log [OF assms(2)] unfolding split by (simp add: guarded_append)
    ultimately obtain token where "org_pending_domains (org_replay lc pre) d = Some token"
      "claimed_in pre d token" "is_domain_name d"
      by (auto simp: domains_ok_def)
    then show ?thesis using normalize_domain_name [OF assms(2)] by (simp add: admit_domain_def)
  qed
  moreover have "allows_email lc s email \<longleftrightarrow>
      (\<exists>user host. rsplit_once CHR ''@'' email = Some (user, host) \<and>
         normalize_domain lc host \<in> set (org_domains s))"
    by (auto simp: allows_email_def email_domain_def split: option.splits)
  ultimately show ?thesis using ok by (simp add: domains_ok_def)
qed

theorem domains_are_proved_witness:
  "\<exists>s log. org_history to_ascii_lowercase s log \<and> lowers_ascii to_ascii_lowercase \<and>
     set (org_domains s) = {''acme.com'', ''acme.org''} \<and> list_all is_domain_name (org_domains s) \<and>
     allows_email to_ascii_lowercase s ''me@ACME.org''"
proof -
  let ?h = "handle_all (org_apply to_ascii_lowercase) (org_decide to_ascii_lowercase) org_default
    [CreateOrg ''Acme'' (AccountId ''a'') [''Acme.com''] 1, VerifyDomain ''acme.org'' 2,
     ClaimDomain ''Acme.org'' ''t'' 3, VerifyDomain ''acme.org'' 4]"
  obtain s log where h: "?h = (s, log)" by fastforce
  have lc: "lowers_ascii to_ascii_lowercase" by (simp add: lowers_ascii_def)
  have ds: "org_domains (fst ?h) = [''acme.com'', ''acme.org'']" by code_simp
  have "rsplit_once CHR ''@'' ''me@ACME.org'' = Some (''me'', ''ACME.org'')"
      "normalize_domain to_ascii_lowercase ''ACME.org'' = ''acme.org''" by code_simp+
  moreover have "org_domains s = [''acme.com'', ''acme.org'']" using ds unfolding h by simp
  moreover have hist: "org_history to_ascii_lowercase s log" using h by (rule handle_all_history)
  moreover have "list_all is_domain_name (org_domains s)"
    using domains_are_proved [OF hist lc] by blast
  moreover have "allows_email to_ascii_lowercase s ''me@ACME.org'' \<longleftrightarrow>
      (\<exists>user host. rsplit_once CHR ''@'' ''me@ACME.org'' = Some (user, host) \<and>
         normalize_domain to_ascii_lowercase host \<in> set (org_domains s))"
    using domains_are_proved [OF hist lc] by blast
  ultimately show ?thesis using lc by fastforce
qed

end
