(* ===== verification/Connection.thy ===== *)
theory Connection
  imports Vocabulary Ids Event_Sourcing
begin

text \<open>
  \<open>opengrok-core/src/connection.rs\<close>: the connection aggregate, an authentication that happened
  and who may use it; the row of the read side, and how a Bot's connection for a service is
  chosen. A set of loans is a set: nothing here depends on the order a \<open>BTreeSet\<close> is walked
  in. \<open>str::to_lowercase\<close> is the argument \<open>lc\<close>. A field's name is the source's behind
  \<open>con_\<close> (aggregate) or \<open>cview_\<close> (row).
\<close>

datatype owner = GlobalOwner | UserOwner account_id | BotOwner coworker_id

fun specificity :: "owner \<Rightarrow> nat" where
  "specificity (BotOwner _) = 3"
| "specificity (UserOwner _) = 2"
| "specificity GlobalOwner = 1"

datatype connection_kind = Oauth | Token | Mcp

fun connection_kind_word :: "connection_kind \<Rightarrow> string" where
  "connection_kind_word Oauth = ''oauth''"
| "connection_kind_word Token = ''token''"
| "connection_kind_word Mcp = ''mcp''"

fun is_plugin_account :: "connection_kind \<Rightarrow> bool" where
  "is_plugin_account Oauth = False"
| "is_plugin_account Token = True"
| "is_plugin_account Mcp = True"

definition connection_kind_from_word :: "string \<Rightarrow> connection_kind option" where
  "connection_kind_from_word w = find (\<lambda>k. connection_kind_word k = w) [Oauth, Token, Mcp]"

interpretation connection_kind_code: strict_word_code connection_kind_word connection_kind_from_word
proof unfold_locales
  show "connection_kind_from_word (connection_kind_word x) = Some x" for x
    by (cases x) (simp_all add: connection_kind_from_word_def)
  show "connection_kind_from_word w = Some x \<Longrightarrow> w = connection_kind_word x" for w x
    by (auto simp: connection_kind_from_word_def split: if_splits)
qed

datatype connection_event =
    Connected string owner string int connection_kind
  | Refreshed int
  | LoanedTo coworker_id int
  | LoanRevoked coworker_id int
  | Disconnected int
  | Relabelled string int

fun connection_event_type :: "connection_event \<Rightarrow> string" where
  "connection_event_type (Connected _ _ _ _ _) = ''connection-connected''"
| "connection_event_type (Refreshed _) = ''connection-refreshed''"
| "connection_event_type (LoanedTo _ _) = ''connection-loaned''"
| "connection_event_type (LoanRevoked _ _) = ''connection-loan-revoked''"
| "connection_event_type (Disconnected _) = ''connection-disconnected''"
| "connection_event_type (Relabelled _ _) = ''connection-relabelled''"

record connection =
  con_connected :: bool
  con_disconnected :: bool
  con_connector :: string
  con_owner :: "owner option"
  con_label :: string
  con_kind :: connection_kind
  con_loans :: "coworker_id set"

definition connection_default :: connection where
  "connection_default =
     \<lparr>con_connected = False, con_disconnected = False, con_connector = [], con_owner = None,
      con_label = [], con_kind = Oauth, con_loans = {}\<rparr>"

datatype connection_error =
    NotConnected
  | DisconnectedErr
  | GlobalNotLendable
  | TokenNotLendable
  | BadLabel

datatype connection_command =
    Connect string owner string int
  | ConnectMcp string account_id string int
  | ConnectToken string account_id string int
  | RefreshConnection int
  | Lend coworker_id int
  | Revoke coworker_id int
  | Disconnect int
  | RenameConnection string int

fun connection_apply :: "connection \<Rightarrow> connection_event \<Rightarrow> connection" where
  "connection_apply s (Connected c w l at k) =
     s\<lparr>con_connected := True, con_disconnected := False, con_connector := c, con_owner := Some w,
       con_label := l, con_kind := k\<rparr>"
| "connection_apply s (Relabelled l at) = s\<lparr>con_label := l\<rparr>"
| "connection_apply s (Refreshed at) = s"
| "connection_apply s (LoanedTo b at) = s\<lparr>con_loans := insert b (con_loans s)\<rparr>"
| "connection_apply s (LoanRevoked b at) = s\<lparr>con_loans := con_loans s - {b}\<rparr>"
| "connection_apply s (Disconnected at) = s\<lparr>con_disconnected := True, con_loans := {}\<rparr>"

definition connection_replay :: "connection_event list \<Rightarrow> connection" where
  "connection_replay es = foldl connection_apply connection_default es"

definition connection_usable_by :: "connection \<Rightarrow> coworker_id \<Rightarrow> bool" where
  "connection_usable_by s b \<longleftrightarrow>
     (if \<not> con_connected s \<or> con_disconnected s then False
      else case con_owner s of
        Some (BotOwner own) \<Rightarrow> own = b \<or> b \<in> con_loans s
      | Some (UserOwner _) \<Rightarrow> b \<in> con_loans s
      | Some GlobalOwner \<Rightarrow> True
      | None \<Rightarrow> False)"

definition connection_alive :: "connection \<Rightarrow> connection_error + unit" where
  "connection_alive s =
     (if \<not> con_connected s then Inl NotConnected
      else if con_disconnected s then Inl DisconnectedErr
      else Inr ())"

definition label_max_chars :: nat where
  "label_max_chars = 80"

definition tidy_label :: "string \<Rightarrow> string option" where
  "tidy_label raw =
     (let label = trim raw
      in if label \<noteq> [] \<and> chars_count label \<le> label_max_chars then Some label else None)"

fun connection_decide ::
  "connection \<Rightarrow> connection_command \<Rightarrow> connection_error + connection_event list"
where
  "connection_decide s (Connect c w l at) = Inr [Connected c w l at Oauth]"
| "connection_decide s (ConnectMcp c a l at) = Inr [Connected c (UserOwner a) l at Mcp]"
| "connection_decide s (ConnectToken c a l at) = Inr [Connected c (UserOwner a) l at Token]"
| "connection_decide s (RefreshConnection at) = rbind (connection_alive s) (\<lambda>_. Inr [Refreshed at])"
| "connection_decide s (Lend b at) =
     rbind (connection_alive s) (\<lambda>_.
     if con_owner s = Some GlobalOwner then Inl GlobalNotLendable
     else if is_plugin_account (con_kind s) then Inl TokenNotLendable
     else if b \<in> con_loans s then Inr []
     else Inr [LoanedTo b at])"
| "connection_decide s (Revoke b at) =
     rbind (connection_alive s) (\<lambda>_.
     if b \<notin> con_loans s then Inr [] else Inr [LoanRevoked b at])"
| "connection_decide s (Disconnect at) = rbind (connection_alive s) (\<lambda>_. Inr [Disconnected at])"
| "connection_decide s (RenameConnection raw at) =
     rbind (connection_alive s) (\<lambda>_.
     rbind (ok_or (tidy_label raw) BadLabel) (\<lambda>label.
     if label = con_label s then Inr [] else Inr [Relabelled label at]))"

section \<open>The read side: which connection a Bot uses\<close>

record connection_view =
  cview_id :: string
  cview_connector :: string
  cview_owner :: owner
  cview_label :: string
  cview_loans :: "coworker_id set"
  cview_updated_at_ms :: int
  cview_expires_at_ms :: "int option"
  cview_kind :: connection_kind

definition leeway_ms :: int where
  "leeway_ms = 60000"

text \<open>The subtraction is an unchecked one of \<open>i64\<close>, which wraps in a release build.\<close>

definition is_expiring :: "connection_view \<Rightarrow> int \<Rightarrow> bool" where
  "is_expiring v now_ms =
     (case cview_expires_at_ms v of
        Some expires_at \<Rightarrow> i64_wrapping_sub expires_at now_ms < leeway_ms
      | None \<Rightarrow> False)"

definition view_usable_by :: "connection_view \<Rightarrow> coworker_id \<Rightarrow> account_id \<Rightarrow> bool" where
  "view_usable_by v cw own \<longleftrightarrow>
     (case cview_owner v of
        UserOwner person \<Rightarrow>
          if is_plugin_account (cview_kind v) then person = own else cw \<in> cview_loans v
      | BotOwner b \<Rightarrow>
          if is_plugin_account (cview_kind v) then False else b = cw \<or> cw \<in> cview_loans v
      | GlobalOwner \<Rightarrow> \<not> is_plugin_account (cview_kind v))"

datatype resolved = Use connection_view | NeedsChoice "connection_view list" | NoConnection

definition usable_candidates ::
  "connection_view list \<Rightarrow> string \<Rightarrow> coworker_id \<Rightarrow> account_id \<Rightarrow> connection_view list"
where
  "usable_candidates candidates connector cw own =
     filter (\<lambda>v. cview_connector v = connector \<and> view_usable_by v cw own) candidates"

text \<open>Those of the greatest specificity.\<close>

definition eligible_of :: "connection_view list \<Rightarrow> connection_view list" where
  "eligible_of usable =
     (let most = Max (set (map (\<lambda>v. specificity (cview_owner v)) usable))
      in filter (\<lambda>v. specificity (cview_owner v) = most) usable)"

definition resolve ::
  "connection_view list \<Rightarrow> string \<Rightarrow> coworker_id \<Rightarrow> account_id \<Rightarrow> string option \<Rightarrow> resolved"
where
  "resolve candidates connector cw own pin =
     (let usable = usable_candidates candidates connector cw own in
      case find (\<lambda>v. Some (cview_id v) = pin) usable of
        Some v \<Rightarrow> Use v
      | None \<Rightarrow>
          if usable = [] then NoConnection
          else (case eligible_of usable of [only] \<Rightarrow> Use only | eligible \<Rightarrow> NeedsChoice eligible))"

section \<open>The label a new account starts with\<close>

definition numbered :: "string \<Rightarrow> nat \<Rightarrow> string" where
  "numbered service n = (if n = 1 then service else service @ '' '' @ nat_str n)"

definition default_label :: "(string \<Rightarrow> string) \<Rightarrow> string \<Rightarrow> string list \<Rightarrow> string" where
  "default_label lc service taken =
     (let lowered = remdups (map lc taken);
          upto = length lowered + 1
      in case find (\<lambda>label. lc label \<notin> set lowered) (map (numbered service) [1..<upto + 1]) of
           Some label \<Rightarrow> label
         | None \<Rightarrow> numbered service upto)"

section \<open>What each event finds\<close>

lemma connection_alive_Inr [simp]:
  "connection_alive s = Inr u \<longleftrightarrow> con_connected s \<and> \<not> con_disconnected s"
  by (auto simp: connection_alive_def)

fun connection_allowed :: "connection \<Rightarrow> connection_event \<Rightarrow> bool" where
  "connection_allowed s (Connected c w l at k) \<longleftrightarrow> (is_plugin_account k \<longrightarrow> (\<exists>a. w = UserOwner a))"
| "connection_allowed s (Refreshed at) \<longleftrightarrow> con_connected s \<and> \<not> con_disconnected s"
| "connection_allowed s (LoanedTo b at) \<longleftrightarrow>
     con_connected s \<and> \<not> con_disconnected s \<and> con_owner s \<noteq> Some GlobalOwner \<and>
     \<not> is_plugin_account (con_kind s) \<and> b \<notin> con_loans s"
| "connection_allowed s (LoanRevoked b at) \<longleftrightarrow>
     con_connected s \<and> \<not> con_disconnected s \<and> b \<in> con_loans s"
| "connection_allowed s (Disconnected at) \<longleftrightarrow> con_connected s \<and> \<not> con_disconnected s"
| "connection_allowed s (Relabelled l at) \<longleftrightarrow>
     con_connected s \<and> \<not> con_disconnected s \<and> l \<noteq> [] \<and> chars_count l \<le> label_max_chars"

lemma tidy_label_fits: "tidy_label raw = Some l \<Longrightarrow> l = trim raw \<and> l \<noteq> [] \<and> chars_count l \<le> label_max_chars"
  by (auto simp: tidy_label_def Let_def split: if_splits)

lemma connection_decide_guarded:
  assumes "connection_decide s c = Inr es"
  shows "guarded connection_apply connection_allowed s es"
  using assms by (cases c) (auto dest: tidy_label_fits split: if_splits)

interpretation connection_guard:
  event_guard connection_default connection_apply connection_decide connection_allowed
  by unfold_locales (rule connection_decide_guarded)

abbreviation connection_history :: "connection \<Rightarrow> connection_event list \<Rightarrow> bool" where
  "connection_history \<equiv> history connection_default connection_apply connection_decide"

section \<open>Loans\<close>

text \<open>What ends a loan to a Bot: its revocation, or the connection's end.\<close>

fun ends_loan :: "coworker_id \<Rightarrow> connection_event \<Rightarrow> bool" where
  "ends_loan b (LoanRevoked c _) \<longleftrightarrow> b = c"
| "ends_loan b (Disconnected _) \<longleftrightarrow> True"
| "ends_loan b _ \<longleftrightarrow> False"

definition lent_in :: "connection_event list \<Rightarrow> coworker_id \<Rightarrow> bool" where
  "lent_in log b \<longleftrightarrow>
     (\<exists>pre at post. log = pre @ LoanedTo b at # post \<and> list_all (\<lambda>e. \<not> ends_loan b e) post)"

lemma lent_in_Nil [simp]: "\<not> lent_in [] b"
  by (simp add: lent_in_def)

lemma lent_in_snoc:
  "lent_in (log @ [e]) b \<longleftrightarrow> (\<exists>at. e = LoanedTo b at) \<or> (lent_in log b \<and> \<not> ends_loan b e)"
    (is "?new \<longleftrightarrow> ?lent \<or> ?kept")
proof
  assume ?new
  then obtain pre at post where "log @ [e] = pre @ LoanedTo b at # post"
    and ok: "list_all (\<lambda>e. \<not> ends_loan b e) post"
    by (auto simp: lent_in_def)
  then show "?lent \<or> ?kept"
    by (cases post rule: rev_cases) (auto simp: lent_in_def)
next
  assume "?lent \<or> ?kept"
  then show ?new
  proof
    assume ?lent
    then show ?new unfolding lent_in_def by (metis list.pred_inject(1))
  next
    assume ?kept
    then obtain pre at post where "log @ [e] = pre @ LoanedTo b at # (post @ [e])"
      and "list_all (\<lambda>e. \<not> ends_loan b e) (post @ [e])"
      by (auto simp: lent_in_def)
    then show ?new unfolding lent_in_def by blast
  qed
qed

lemma loans_lent_in: "b \<in> con_loans (connection_replay log) \<longleftrightarrow> lent_in log b"
proof (induction log rule: rev_induct)
  case (snoc e log)
  then show ?case
    by (cases e) (auto simp: connection_replay_def lent_in_snoc)
qed (simp add: connection_replay_def connection_default_def)

definition connection_wf :: "connection \<Rightarrow> bool" where
  "connection_wf s \<longleftrightarrow>
     (con_disconnected s \<or> \<not> con_connected s \<longrightarrow> con_loans s = {}) \<and>
     (con_connected s \<longleftrightarrow> con_owner s \<noteq> None) \<and>
     (is_plugin_account (con_kind s) \<longrightarrow> (\<exists>a. con_owner s = Some (UserOwner a)))"

lemma connection_wf_step: "connection_wf s \<Longrightarrow> connection_allowed s e \<Longrightarrow> connection_wf (connection_apply s e)"
  by (cases e) (auto simp: connection_wf_def)

lemma connection_wf_default: "connection_wf connection_default"
  by (simp add: connection_wf_def connection_default_def)

section \<open>A free label\<close>

text \<open>What lower-casing does to a number after a space: nothing, and nothing to what precedes.\<close>

definition lowers_numbers :: "(string \<Rightarrow> string) \<Rightarrow> bool" where
  "lowers_numbers lc \<longleftrightarrow> (\<forall>s n. lc (s @ '' '' @ nat_str n) = lc s @ '' '' @ nat_str n)"

lemma lowers_numbers_ascii: "lowers_numbers to_ascii_lowercase"
proof -
  have "map ascii_lower_char (nat_str n) = nat_str n" for n
    using nat_str_digits [of n]
    by (intro map_idI) (auto simp: list_all_iff ascii_lower_char_def is_ascii_uppercase_def is_ascii_digit_def)
  then show ?thesis
    by (simp add: lowers_numbers_def to_ascii_lowercase_def ascii_lower_char_def is_ascii_uppercase_def byte_def)
qed

lemma numbered_distinct:
  assumes "lowers_numbers lc" and "lc (numbered service m) = lc (numbered service n)"
  shows "m = n"
  using assms by (auto simp: numbered_def lowers_numbers_def split: if_splits)

lemma some_label_free:
  assumes "lowers_numbers lc" and "finite taken"
  shows "\<exists>n\<in>{1..card taken + 1}. lc (numbered service n) \<notin> taken"
proof (rule ccontr)
  assume "\<not> ?thesis"
  then have "(\<lambda>n. lc (numbered service n)) ` {1..card taken + 1} \<subseteq> taken" by auto
  moreover have "inj_on (\<lambda>n. lc (numbered service n)) {1..card taken + 1}"
    using numbered_distinct [OF assms(1)] by (auto intro!: inj_onI)
  ultimately have "card {1..card taken + 1} \<le> card taken"
    using assms(2) by (metis card_inj_on_le)
  then show False by simp
qed

section \<open>Properties\<close>

text \<open>Within what \<open>i64\<close> can tell apart, a token is refreshed when under a minute is left.\<close>

lemma is_expiring_exact:
  assumes "cview_expires_at_ms v = Some t" and "i64_min \<le> t - now" and "t - now \<le> i64_max"
  shows "is_expiring v now \<longleftrightarrow> t < now + 60000"
  using assms i64_wrapping_sub_exact [OF assms(2,3)] by (simp add: is_expiring_def leeway_ms_def) linarith

section \<open>The most specific\<close>

lemma eligible_of_Max:
  assumes "usable \<noteq> []"
  obtains m where "eligible_of usable = filter (\<lambda>v. specificity (cview_owner v) = m) usable"
    and "\<forall>u\<in>set usable. specificity (cview_owner u) \<le> m" and "eligible_of usable \<noteq> []"
proof -
  let ?m = "Max (set (map (\<lambda>v. specificity (cview_owner v)) usable))"
  have "?m \<in> set (map (\<lambda>v. specificity (cview_owner v)) usable)"
    using assms by (intro Max_in) simp_all
  then obtain v where v: "v \<in> set usable" "specificity (cview_owner v) = ?m" by auto
  show thesis
  proof (rule that)
    show "eligible_of usable = filter (\<lambda>v. specificity (cview_owner v) = ?m) usable"
      by (simp add: eligible_of_def)
    show "\<forall>u\<in>set usable. specificity (cview_owner u) \<le> ?m" by simp
    have "v \<in> set (eligible_of usable)" using v by (simp add: eligible_of_def)
    then show "eligible_of usable \<noteq> []" by auto
  qed
qed

lemma filter_single_split:
  assumes "filter P xs = [v]"
  shows "\<exists>ys zs. xs = ys @ v # zs \<and> (\<forall>u\<in>set (ys @ zs). \<not> P u) \<and> P v"
proof -
  obtain ys zs where "xs = ys @ v # zs" "\<forall>u\<in>set ys. \<not> P u" "P v" "filter P zs = []"
    using assms by (auto simp: filter_eq_Cons_iff)
  then show ?thesis by (metis UnE filter_empty_conv set_append)
qed

lemma eligible_one:
  assumes "eligible_of usable = [v]"
  shows "\<exists>xs ys. usable = xs @ v # ys \<and>
    (\<forall>u\<in>set (xs @ ys). specificity (cview_owner u) < specificity (cview_owner v))"
proof -
  have "usable \<noteq> []" using assms by (auto simp: eligible_of_def)
  then obtain m where m: "eligible_of usable = filter (\<lambda>v. specificity (cview_owner v) = m) usable"
    and le: "\<forall>u\<in>set usable. specificity (cview_owner u) \<le> m"
    by (rule eligible_of_Max)
  obtain xs ys where split: "usable = xs @ v # ys"
    and ne: "\<forall>u\<in>set (xs @ ys). specificity (cview_owner u) \<noteq> m" and v: "specificity (cview_owner v) = m"
    using filter_single_split [OF m [symmetric, unfolded assms]] by blast
  have "specificity (cview_owner u) < specificity (cview_owner v)" if "u \<in> set (xs @ ys)" for u
    using le ne that unfolding split v by (metis Un_iff le_neq_implies_less list.set_intros(2) set_append)
  with split show ?thesis by blast
qed

lemma resolve_unpinned:
  assumes "usable = usable_candidates cands connector cw own" and "usable \<noteq> []"
    and "\<forall>u\<in>set usable. Some (cview_id u) \<noteq> pin"
  shows "resolve cands connector cw own pin =
    (case eligible_of usable of [only] \<Rightarrow> Use only | eligible \<Rightarrow> NeedsChoice eligible)"
proof -
  have "find (\<lambda>v. Some (cview_id v) = pin) usable = None"
    using assms(3) by (auto simp: find_None_iff)
  then show ?thesis using assms(1,2) by (simp add: resolve_def)
qed

text \<open>A Bot's connection is never a guess. \<open>resolve\<close> answers that there is none exactly
  when no candidate for that service is usable by the Bot; what it uses is a usable candidate,
  either the pinned one, or, where no usable one is pinned, the single one strictly more specific
  than every other usable one; and otherwise it hands back all the most specific ones, at least
  two. An installed plugin's account is usable by its own person's Bots alone, whatever
  loans its row has.\<close>

theorem resolve_never_guesses:
  assumes "usable = usable_candidates cands connector cw own"
  shows "(resolve cands connector cw own pin = NoConnection \<longleftrightarrow> usable = []) \<and>
    (\<forall>v. resolve cands connector cw own pin = Use v \<longrightarrow> v \<in> set usable \<and>
       (Some (cview_id v) = pin \<or>
        (\<forall>u\<in>set usable. Some (cview_id u) \<noteq> pin) \<and>
        (\<exists>xs ys. usable = xs @ v # ys \<and>
           (\<forall>u\<in>set (xs @ ys). specificity (cview_owner u) < specificity (cview_owner v))))) \<and>
    (\<forall>vs. resolve cands connector cw own pin = NeedsChoice vs \<longrightarrow> 2 \<le> length vs \<and>
       (\<forall>u\<in>set usable. Some (cview_id u) \<noteq> pin) \<and>
       (\<exists>m. vs = filter (\<lambda>u. specificity (cview_owner u) = m) usable \<and>
          (\<forall>u\<in>set usable. specificity (cview_owner u) \<le> m))) \<and>
    (\<forall>v\<in>set usable. is_plugin_account (cview_kind v) \<longrightarrow> cview_owner v = UserOwner own)"
proof -
  have plugin: "\<forall>v\<in>set usable. is_plugin_account (cview_kind v) \<longrightarrow> cview_owner v = UserOwner own"
    by (auto simp: assms usable_candidates_def view_usable_by_def split: owner.splits)
  show ?thesis
  proof (cases "find (\<lambda>v. Some (cview_id v) = pin) usable")
    case (Some v)
    then have "v \<in> set usable" "Some (cview_id v) = pin" by (auto simp: find_Some_iff)
    moreover have "resolve cands connector cw own pin = Use v"
      using Some by (simp add: resolve_def assms)
    ultimately show ?thesis using plugin by auto
  next
    case None
    then have unpinned: "\<forall>u\<in>set usable. Some (cview_id u) \<noteq> pin" by (auto simp: find_None_iff)
    show ?thesis
    proof (cases "usable = []")
      case True
      then show ?thesis using plugin by (simp add: resolve_def assms)
    next
      case False
      obtain m where m: "eligible_of usable = filter (\<lambda>v. specificity (cview_owner v) = m) usable"
        and le: "\<forall>u\<in>set usable. specificity (cview_owner u) \<le> m" and ne: "eligible_of usable \<noteq> []"
        using False by (rule eligible_of_Max)
      note r = resolve_unpinned [OF assms False unpinned]
      show ?thesis
      proof (cases "\<exists>v. eligible_of usable = [v]")
        case True
        then obtain v where v: "eligible_of usable = [v]" by blast
        have "v \<in> set usable" using eligible_one [OF v] by auto
        then show ?thesis using r v unpinned plugin False eligible_one [OF v] by simp
      next
        case several: False
        then obtain u v rest where uv: "eligible_of usable = u # v # rest"
          using ne by (metis neq_Nil_conv)
        then have "resolve cands connector cw own pin = NeedsChoice (eligible_of usable)" using r by simp
        moreover have "2 \<le> length (eligible_of usable)" using uv by simp
        ultimately show ?thesis using m le unpinned plugin False by auto
      qed
    qed
  qed
qed

definition sample_view :: "string \<Rightarrow> owner \<Rightarrow> connection_kind \<Rightarrow> connection_view" where
  "sample_view i w k =
     \<lparr>cview_id = i, cview_connector = ''gmail'', cview_owner = w, cview_label = i,
      cview_loans = {CoworkerId ''b''}, cview_updated_at_ms = 0, cview_expires_at_ms = None, cview_kind = k\<rparr>"

theorem resolve_never_guesses_witness:
  "resolve [sample_view ''x'' (UserOwner (AccountId ''a'')) Oauth, sample_view ''y'' (UserOwner (AccountId ''z'')) Token,
      sample_view ''w'' GlobalOwner Oauth, sample_view ''v'' (UserOwner (AccountId ''a'')) Mcp]
     ''gmail'' (CoworkerId ''b'') (AccountId ''a'') (Some ''y'') \<noteq> NoConnection"
proof -
  let ?cands = "[sample_view ''x'' (UserOwner (AccountId ''a'')) Oauth, sample_view ''y'' (UserOwner (AccountId ''z'')) Token,
      sample_view ''w'' GlobalOwner Oauth, sample_view ''v'' (UserOwner (AccountId ''a'')) Mcp]"
  have "usable_candidates ?cands ''gmail'' (CoworkerId ''b'') (AccountId ''a'') \<noteq> []" by code_simp
  then show ?thesis using resolve_never_guesses [OF refl, of ?cands "''gmail''"] by blast
qed

text \<open>A loan is exactly what was lent and not taken back. Over any history of accepted
  commands a Bot is among the loans exactly when the log lends it the connection with neither a
  revocation of it nor the connection's end afterwards; a connection that ended, or never was,
  has no loans and serves nobody; a loan is journaled only of a live connection that is no
  installed plugin's account and not the deployment's, to a Bot that does not have it; and an
  installed plugin's account has a person for its owner.\<close>

theorem loans_are_exact:
  assumes "connection_history s log"
  shows "(b \<in> con_loans s \<longleftrightarrow> lent_in log b) \<and>
    (con_disconnected s \<or> \<not> con_connected s \<longrightarrow> con_loans s = {} \<and> \<not> connection_usable_by s b) \<and>
    (log = pre @ LoanedTo b at # post \<longrightarrow>
       (\<exists>t. t = connection_replay pre \<and> connection_alive t = Inr () \<and> con_owner t \<noteq> Some GlobalOwner \<and>
          \<not> is_plugin_account (con_kind t) \<and> b \<notin> con_loans t)) \<and>
    (is_plugin_account (con_kind s) \<longrightarrow> (\<exists>a. con_owner s = Some (UserOwner a)))"
proof -
  have "connection_wf s"
    by (rule connection_guard.history_inv [OF assms connection_wf_default connection_wf_step])
  moreover have "b \<in> con_loans s \<longleftrightarrow> lent_in log b"
    using loans_lent_in history_replays [OF assms] by (simp add: connection_replay_def)
  moreover have "connection_allowed (connection_replay pre) (LoanedTo b at)"
    if "log = pre @ LoanedTo b at # post"
    using connection_guard.history_guarded [OF assms, unfolded that]
    unfolding connection_replay_def by (rule guarded_at)
  ultimately show ?thesis by (auto simp: connection_wf_def connection_usable_by_def)
qed

theorem loans_are_exact_witness:
  "\<exists>s log. connection_history s log \<and> CoworkerId ''b'' \<in> con_loans s \<and> lent_in log (CoworkerId ''b'')"
proof -
  let ?h = "handle_all connection_apply connection_decide connection_default
    [Connect ''gmail'' (UserOwner (AccountId ''a'')) ''Gmail'' 1, Lend (CoworkerId ''b'') 2,
     Lend (CoworkerId ''c'') 3, Revoke (CoworkerId ''c'') 4]"
  obtain s log where h: "?h = (s, log)" by fastforce
  have "CoworkerId ''b'' \<in> con_loans (fst ?h)" by code_simp
  then have "CoworkerId ''b'' \<in> con_loans s" unfolding h by simp
  then show ?thesis
    using loans_are_exact [OF handle_all_history [OF h]] handle_all_history [OF h] by blast
qed

text \<open>A token pasted over a connection that was lent keeps the loans, and the aggregate's own
  \<open>usable_by\<close> lets the borrower use it.\<close>

lemma token_over_a_loan:
  "\<exists>s log. connection_history s log \<and> con_kind s = Token \<and> connection_usable_by s (CoworkerId ''b'')"
proof -
  let ?h = "handle_all connection_apply connection_decide connection_default
    [Connect ''x'' (UserOwner (AccountId ''a'')) ''X'' 1, Lend (CoworkerId ''b'') 2,
     ConnectToken ''x'' (AccountId ''a'') ''X'' 3]"
  obtain s log where h: "?h = (s, log)" by fastforce
  have "con_kind (fst ?h) = Token \<and> connection_usable_by (fst ?h) (CoworkerId ''b'')" by code_simp
  then show ?thesis using handle_all_history [OF h] unfolding h by auto
qed

text \<open>A new account's label is free and is the first free one. Wherever lower-casing leaves a
  number after a space as it is, the label reads as none of those taken, is the service's own
  name or that name with a number no greater than one past the count of the taken, and every
  smaller number's label was taken.\<close>

theorem default_label_is_free:
  assumes "lowers_numbers lc"
  shows "lc (default_label lc service taken) \<notin> set (map lc taken) \<and>
    (\<exists>n. 1 \<le> n \<and> n \<le> length taken + 1 \<and> default_label lc service taken = numbered service n \<and>
       (\<forall>m. 1 \<le> m \<and> m < n \<longrightarrow> lc (numbered service m) \<in> set (map lc taken)))"
proof -
  let ?low = "remdups (map lc taken)"
  let ?free = "\<lambda>label. lc label \<notin> set ?low"
  let ?labels = "map (numbered service) [1..<length ?low + 1 + 1]"
  have card: "card (set (map lc taken)) = length ?low" by (simp add: length_remdups_card_conv)
  obtain n where "n \<in> {1..length ?low + 1}" "lc (numbered service n) \<notin> set (map lc taken)"
    using some_label_free [OF assms finite_set, of "map lc taken" service] unfolding card by blast
  then have "n \<in> set [1..<length ?low + 1 + 1]" "?free (numbered service n)"
    by (simp_all add: less_Suc_eq_le del: upt_Suc)
  then have "numbered service n \<in> set ?labels" "?free (numbered service n)"
    by (simp_all del: upt_Suc)
  then obtain l where l: "find ?free ?labels = Some l"
    by (metis find_None_iff not_None_eq)
  then obtain i where i: "i < length ?labels" "?free (?labels ! i)" "l = ?labels ! i"
    and before: "\<forall>j<i. \<not> ?free (?labels ! j)"
    by (auto simp: find_Some_iff)
  have bound: "i < length ?low + 1" using i(1) by (simp del: upt_Suc)
  have nth: "?labels ! j = numbered service (j + 1)" if "j \<le> i" for j
    using that bound by (simp del: upt_Suc)
  have "length ?low \<le> length taken" using length_remdups_leq [of "map lc taken"] by simp
  moreover have "default_label lc service taken = l" using l by (simp add: default_label_def Let_def)
  moreover have "lc (numbered service m) \<in> set (map lc taken)" if "1 \<le> m" "m < i + 1" for m
    using before [rule_format, of "m - 1"] nth [of "m - 1"] that by simp
  moreover have "l = numbered service (i + 1)" "lc l \<notin> set (map lc taken)"
    using i(2,3) nth [of i] by simp_all
  ultimately show ?thesis using bound by (auto intro!: exI [of _ "i + 1"] simp del: upt_Suc)
qed

theorem default_label_is_free_witness:
  "lowers_numbers to_ascii_lowercase \<and>
   to_ascii_lowercase (default_label to_ascii_lowercase ''Gmail'' [''gmail'', ''Gmail 2'']) \<notin>
     set (map to_ascii_lowercase [''gmail'', ''Gmail 2''])"
  using default_label_is_free [OF lowers_numbers_ascii] lowers_numbers_ascii by blast

end
