(* ===== verification/Account.thy ===== *)
theory Account
  imports Inference Ids BTree_Map Event_Sourcing
begin

text \<open>
  \<open>opengrok-core/src/account.rs\<close>: the account aggregate, who is signed in and on what plan.
  The sessions are a \<open>BTreeMap\<close>, whose order decides which session a presented hash finds.
  Whether \<open>chrono_tz\<close> knows a zone is the argument \<open>tz_known\<close>. A field's name is the
  source's behind \<open>acc_\<close>, \<open>sess_\<close> for a session and \<open>av_\<close> for the row of the read side.
\<close>

definition refresh_grace_ms :: int where
  "refresh_grace_ms = 45000"

datatype plan = PlanFree | PlanPro | PlanProPlus | PlanEnterprise | PlanUltra

definition plan_from_wire :: "string \<Rightarrow> plan" where
  "plan_from_wire v =
     (if v = ''free'' then PlanFree
      else if v = ''pro'' then PlanPro
      else if v = ''pro_plus'' then PlanProPlus
      else if v = ''enterprise'' then PlanEnterprise
      else PlanUltra)"

fun plan_as_wire :: "plan \<Rightarrow> string" where
  "plan_as_wire PlanFree = ''free''"
| "plan_as_wire PlanPro = ''pro''"
| "plan_as_wire PlanProPlus = ''pro_plus''"
| "plan_as_wire PlanEnterprise = ''enterprise''"
| "plan_as_wire PlanUltra = ''ultra''"

interpretation plan_code: word_code plan_as_wire "\<lambda>w. Some (plan_from_wire w)"
proof unfold_locales
  show "Some (plan_from_wire (plan_as_wire x)) = Some x" for x
    by (cases x) (simp_all add: plan_from_wire_def)
qed

datatype account_event =
    Registered string plan bool int
  | SessionIssued session_id string int
  | SessionRefreshed session_id string "string option" int
  | SessionRevoked session_id int
  | PlanChanged plan bool int
  | CredentialsSet string string string string int
  | EmailVerified int
  | Enabled int
  | Disabled int
  | ProfileUpdated string string "string option" int
  | PasswordChanged string int
  | AccountSourceSet inference_source int
  | TimeZoneSet "string option" int

fun account_event_type :: "account_event \<Rightarrow> string" where
  "account_event_type (Registered _ _ _ _) = ''account-registered''"
| "account_event_type (SessionIssued _ _ _) = ''session-issued''"
| "account_event_type (SessionRefreshed _ _ _ _) = ''session-refreshed''"
| "account_event_type (SessionRevoked _ _) = ''session-revoked''"
| "account_event_type (PlanChanged _ _ _) = ''plan-changed''"
| "account_event_type (CredentialsSet _ _ _ _ _) = ''credentials-set''"
| "account_event_type (EmailVerified _) = ''email-verified''"
| "account_event_type (Enabled _) = ''account-enabled''"
| "account_event_type (Disabled _) = ''account-disabled''"
| "account_event_type (ProfileUpdated _ _ _ _) = ''account-profile-updated''"
| "account_event_type (PasswordChanged _ _) = ''account-password-changed''"
| "account_event_type (AccountSourceSet _ _) = ''account-inference-source-set''"
| "account_event_type (TimeZoneSet _ _) = ''account-time-zone-set''"

record session =
  sess_refresh_token_hash :: string
  sess_previous_refresh_token_hash :: "string option"
  sess_refreshed_at_ms :: int
  sess_revoked :: bool

record account =
  acc_registered :: bool
  acc_email :: string
  acc_plan :: "plan option"
  acc_trial :: bool
  acc_sessions :: "(session_id, session) bmap"
  acc_password_hash :: "string option"
  acc_first_name :: string
  acc_last_name :: string
  acc_org_id :: "string option"
  acc_verified :: bool
  acc_enabled :: bool
  acc_avatar_url :: "string option"
  acc_inference_source :: inference_source
  acc_time_zone :: "string option"

definition account_default :: account where
  "account_default =
     \<lparr>acc_registered = False, acc_email = [], acc_plan = None, acc_trial = False, acc_sessions = [],
      acc_password_hash = None, acc_first_name = [], acc_last_name = [], acc_org_id = None,
      acc_verified = False, acc_enabled = False, acc_avatar_url = None,
      acc_inference_source = inference_source_default, acc_time_zone = None\<rparr>"

datatype refresh_match = CurrentHash session_id | PreviousHash session_id

datatype account_error =
    UnknownRefreshToken
  | SessionRevokedErr
  | NotRegistered
  | NoCredentials
  | NotVerified
  | NotEnabled
  | UnknownTimeZone string

record sign_in =
  si_email :: string
  si_plan :: plan
  si_trial :: bool
  si_session_id :: session_id
  si_refresh_token_hash :: string
  si_at_ms :: int

record registration =
  reg_email :: string
  reg_password_hash :: string
  reg_first_name :: string
  reg_last_name :: string
  reg_org_id :: string
  reg_plan :: plan
  reg_verified :: bool
  reg_enabled :: bool
  reg_at_ms :: int

datatype account_command =
    SignIn sign_in
  | RefreshSession string string int
  | SignOut session_id int
  | Register registration
  | VerifyEmail int
  | Enable int
  | Disable int
  | UpdateProfile string string "string option" int
  | ChangePassword string int
  | SetAccountSource inference_source int
  | SetTimeZone "string option" int

definition new_session :: "string \<Rightarrow> int \<Rightarrow> session" where
  "new_session h at =
     \<lparr>sess_refresh_token_hash = h, sess_previous_refresh_token_hash = None,
      sess_refreshed_at_ms = at, sess_revoked = False\<rparr>"

definition rotated :: "string \<Rightarrow> string option \<Rightarrow> int \<Rightarrow> session \<Rightarrow> session" where
  "rotated h prev at ses =
     ses\<lparr>sess_previous_refresh_token_hash :=
           (case prev of Some p \<Rightarrow> Some p | None \<Rightarrow> Some (sess_refresh_token_hash ses)),
         sess_refresh_token_hash := h, sess_refreshed_at_ms := at\<rparr>"

fun account_apply :: "account \<Rightarrow> account_event \<Rightarrow> account" where
  "account_apply s (Registered e p t at) =
     s\<lparr>acc_registered := True, acc_email := e, acc_plan := Some p, acc_trial := t\<rparr>"
| "account_apply s (PlanChanged p t at) = s\<lparr>acc_plan := Some p, acc_trial := t\<rparr>"
| "account_apply s (SessionIssued sid h at) =
     s\<lparr>acc_sessions := bm_insert sid (new_session h at) (acc_sessions s)\<rparr>"
| "account_apply s (SessionRefreshed sid h prev at) =
     s\<lparr>acc_sessions := bm_modify sid (rotated h prev at) (acc_sessions s)\<rparr>"
| "account_apply s (SessionRevoked sid at) =
     s\<lparr>acc_sessions := bm_modify sid (\<lambda>ses. ses\<lparr>sess_revoked := True\<rparr>) (acc_sessions s)\<rparr>"
| "account_apply s (CredentialsSet h f l org at) =
     s\<lparr>acc_registered := True, acc_password_hash := Some h, acc_first_name := f, acc_last_name := l,
       acc_org_id := (if org = [] then None else Some org)\<rparr>"
| "account_apply s (EmailVerified at) = s\<lparr>acc_verified := True\<rparr>"
| "account_apply s (Enabled at) = s\<lparr>acc_enabled := True\<rparr>"
| "account_apply s (Disabled at) = s\<lparr>acc_enabled := False\<rparr>"
| "account_apply s (ProfileUpdated f l a at) =
     s\<lparr>acc_first_name := f, acc_last_name := l, acc_avatar_url := a\<rparr>"
| "account_apply s (PasswordChanged h at) = s\<lparr>acc_password_hash := Some h\<rparr>"
| "account_apply s (AccountSourceSet src at) = s\<lparr>acc_inference_source := src\<rparr>"
| "account_apply s (TimeZoneSet z at) = s\<lparr>acc_time_zone := z\<rparr>"

definition account_replay :: "account_event list \<Rightarrow> account" where
  "account_replay es = foldl account_apply account_default es"

text \<open>The first session, in key order, that a hash names as its current or its last one.\<close>

definition find_current :: "account \<Rightarrow> string \<Rightarrow> (session_id \<times> session) option" where
  "find_current s h = find (\<lambda>(_, ses). sess_refresh_token_hash ses = h) (acc_sessions s)"

definition find_previous :: "account \<Rightarrow> string \<Rightarrow> (session_id \<times> session) option" where
  "find_previous s h = find (\<lambda>(_, ses). sess_previous_refresh_token_hash ses = Some h) (acc_sessions s)"

definition match_refresh :: "account \<Rightarrow> string \<Rightarrow> int \<Rightarrow> account_error + refresh_match" where
  "match_refresh s presented at_ms =
     (if \<not> acc_registered s then Inl NotRegistered
      else case find_current s presented of
        Some (sid, ses) \<Rightarrow> if sess_revoked ses then Inl SessionRevokedErr else Inr (CurrentHash sid)
      | None \<Rightarrow>
          (case find_previous s presented of
             Some (sid, ses) \<Rightarrow>
               if sess_revoked ses then Inl SessionRevokedErr
               else if i64_saturating_sub at_ms (sess_refreshed_at_ms ses) \<le> refresh_grace_ms
               then Inr (PreviousHash sid)
               else Inl UnknownRefreshToken
           | None \<Rightarrow> Inl UnknownRefreshToken))"


definition decide_sign_in :: "account \<Rightarrow> sign_in \<Rightarrow> account_event list" where
  "decide_sign_in s c =
     (if \<not> acc_registered s then [Registered (si_email c) (si_plan c) (si_trial c) (si_at_ms c)]
      else if acc_plan s \<noteq> Some (si_plan c) \<or> acc_trial s \<noteq> si_trial c
      then [PlanChanged (si_plan c) (si_trial c) (si_at_ms c)]
      else []) @
     [SessionIssued (si_session_id c) (si_refresh_token_hash c) (si_at_ms c)]"

definition decide_register :: "account \<Rightarrow> registration \<Rightarrow> account_event list" where
  "decide_register s c =
     (if \<not> acc_registered s then [Registered (reg_email c) (reg_plan c) False (reg_at_ms c)] else []) @
     [CredentialsSet (reg_password_hash c) (reg_first_name c) (reg_last_name c) (reg_org_id c) (reg_at_ms c)] @
     (if reg_verified c then [EmailVerified (reg_at_ms c)] else []) @
     (if reg_enabled c then [Enabled (reg_at_ms c)] else [])"

definition decide_time_zone ::
  "(string \<Rightarrow> bool) \<Rightarrow> account \<Rightarrow> string option \<Rightarrow> int \<Rightarrow> account_error + account_event list"
where
  "decide_time_zone tz_known s raw at_ms =
     rbind (ensure (acc_registered s) NotRegistered) (\<lambda>_.
     let z = map_option trim raw in
     (case z of
        Some name \<Rightarrow> if \<not> tz_known name then Inl (UnknownTimeZone name)
                     else if z = acc_time_zone s then Inr [] else Inr [TimeZoneSet z at_ms]
      | None \<Rightarrow> if z = acc_time_zone s then Inr [] else Inr [TimeZoneSet z at_ms]))"

fun account_decide ::
  "(string \<Rightarrow> bool) \<Rightarrow> account \<Rightarrow> account_command \<Rightarrow> account_error + account_event list"
where
  "account_decide tz_known s (SignIn c) = Inr (decide_sign_in s c)"
| "account_decide tz_known s (RefreshSession presented new_hash at) =
     rbind (match_refresh s presented at) (\<lambda>m.
     case m of
       CurrentHash sid \<Rightarrow> Inr [SessionRefreshed sid new_hash (Some presented) at]
     | PreviousHash _ \<Rightarrow> Inr [])"
| "account_decide tz_known s (SignOut sid at) =
     (if bm_get (acc_sessions s) sid = None then Inl UnknownRefreshToken
      else Inr [SessionRevoked sid at])"
| "account_decide tz_known s (Register c) = Inr (decide_register s c)"
| "account_decide tz_known s (VerifyEmail at) =
     rbind (ensure (acc_password_hash s \<noteq> None) NoCredentials) (\<lambda>_. Inr [EmailVerified at])"
| "account_decide tz_known s (Enable at) =
     rbind (ensure (acc_password_hash s \<noteq> None) NoCredentials) (\<lambda>_. Inr [Enabled at])"
| "account_decide tz_known s (Disable at) = Inr [Disabled at]"
| "account_decide tz_known s (UpdateProfile f l a at) = Inr [ProfileUpdated f l a at]"
| "account_decide tz_known s (ChangePassword h at) =
     rbind (ensure (acc_password_hash s \<noteq> None) NoCredentials) (\<lambda>_. Inr [PasswordChanged h at])"
| "account_decide tz_known s (SetAccountSource src at) =
     rbind (ensure (acc_registered s) NotRegistered) (\<lambda>_. Inr [AccountSourceSet src at])"
| "account_decide tz_known s (SetTimeZone z at) = decide_time_zone tz_known s z at"

definition credential_login_ready :: "account \<Rightarrow> account_error + string" where
  "credential_login_ready s =
     rbind (ok_or (acc_password_hash s) NoCredentials) (\<lambda>h.
     if \<not> acc_verified s then Inl NotVerified
     else if \<not> acc_enabled s then Inl NotEnabled
     else Inr h)"

record account_view =
  av_id :: account_id
  av_email :: string
  av_plan :: plan
  av_trial :: bool
  av_updated_at_ms :: int
  av_password_hash :: "string option"
  av_first_name :: string
  av_last_name :: string
  av_org_id :: "string option"
  av_verified :: bool
  av_enabled :: bool
  av_avatar_url :: "string option"

definition session_only :: "account_id \<Rightarrow> string \<Rightarrow> plan \<Rightarrow> bool \<Rightarrow> int \<Rightarrow> account_view" where
  "session_only i e p t at =
     \<lparr>av_id = i, av_email = e, av_plan = p, av_trial = t, av_updated_at_ms = at,
      av_password_hash = None, av_first_name = [], av_last_name = [], av_org_id = None,
      av_verified = False, av_enabled = False, av_avatar_url = None\<rparr>"

section \<open>What each event finds\<close>

fun account_allowed :: "(string \<Rightarrow> bool) \<Rightarrow> account \<Rightarrow> account_event \<Rightarrow> bool" where
  "account_allowed tz_known s (Registered e p t at) \<longleftrightarrow> \<not> acc_registered s"
| "account_allowed tz_known s (SessionIssued sid h at) \<longleftrightarrow> acc_registered s"
| "account_allowed tz_known s (SessionRefreshed sid h prev at) \<longleftrightarrow>
     acc_registered s \<and>
     (\<exists>ses. (sid, ses) \<in> set (acc_sessions s) \<and> \<not> sess_revoked ses \<and> prev = Some (sess_refresh_token_hash ses))"
| "account_allowed tz_known s (SessionRevoked sid at) \<longleftrightarrow> bm_get (acc_sessions s) sid \<noteq> None"
| "account_allowed tz_known s (PlanChanged p t at) \<longleftrightarrow> acc_registered s"
| "account_allowed tz_known s (CredentialsSet h f l org at) \<longleftrightarrow> acc_registered s"
| "account_allowed tz_known s (EmailVerified at) \<longleftrightarrow> acc_password_hash s \<noteq> None"
| "account_allowed tz_known s (Enabled at) \<longleftrightarrow> acc_password_hash s \<noteq> None"
| "account_allowed tz_known s (Disabled at) \<longleftrightarrow> True"
| "account_allowed tz_known s (ProfileUpdated f l a at) \<longleftrightarrow> True"
| "account_allowed tz_known s (PasswordChanged h at) \<longleftrightarrow> acc_password_hash s \<noteq> None"
| "account_allowed tz_known s (AccountSourceSet src at) \<longleftrightarrow> acc_registered s"
| "account_allowed tz_known s (TimeZoneSet z at) \<longleftrightarrow> acc_registered s \<and> (\<forall>n. z = Some n \<longrightarrow> tz_known n)"

lemma find_current_Some:
  "find_current s h = Some (sid, ses) \<Longrightarrow> (sid, ses) \<in> set (acc_sessions s) \<and> sess_refresh_token_hash ses = h"
  by (auto simp: find_current_def find_Some_iff dest: nth_mem)


lemma match_current:
  "match_refresh s h at = Inr (CurrentHash sid) \<longleftrightarrow>
   acc_registered s \<and> (\<exists>ses. find_current s h = Some (sid, ses) \<and> \<not> sess_revoked ses)"
  by (auto simp: match_refresh_def split: option.splits if_splits)


lemma refresh_accepted:
  assumes "account_decide tz_known s (RefreshSession presented new_hash at) = Inr es"
  obtains (rotates) sid where "match_refresh s presented at = Inr (CurrentHash sid)"
      and "es = [SessionRefreshed sid new_hash (Some presented) at]"
    | (reuses) sid where "match_refresh s presented at = Inr (PreviousHash sid)" and "es = []"
  using assms
  by (cases "match_refresh s presented at") (auto simp: rbind_def split: refresh_match.splits)

lemma account_decide_guarded:
  assumes "account_decide tz_known s c = Inr es"
  shows "guarded account_apply (account_allowed tz_known) s es"
proof (cases c)
  case (RefreshSession presented new_hash at)
  with assms have "account_decide tz_known s (RefreshSession presented new_hash at) = Inr es" by simp
  then show ?thesis
    by (cases rule: refresh_accepted) (auto simp: match_current dest: find_current_Some)
qed (use assms in \<open>auto simp: decide_sign_in_def decide_register_def decide_time_zone_def Let_def
    split: if_splits option.splits\<close>)

interpretation account_guard:
  event_guard account_default account_apply "account_decide tz_known" "account_allowed tz_known" for tz_known
  by unfold_locales (rule account_decide_guarded)

abbreviation account_history :: "(string \<Rightarrow> bool) \<Rightarrow> account \<Rightarrow> account_event list \<Rightarrow> bool" where
  "account_history tz_known \<equiv> history account_default account_apply (account_decide tz_known)"

definition account_wf :: "(string \<Rightarrow> bool) \<Rightarrow> account \<Rightarrow> bool" where
  "account_wf tz_known s \<longleftrightarrow>
     bm_ordered (acc_sessions s) \<and>
     (acc_registered s \<longleftrightarrow> acc_plan s \<noteq> None) \<and>
     (acc_sessions s \<noteq> [] \<longrightarrow> acc_registered s) \<and>
     (acc_password_hash s \<noteq> None \<longrightarrow> acc_registered s) \<and>
     (acc_verified s \<or> acc_enabled s \<longrightarrow> acc_password_hash s \<noteq> None) \<and>
     acc_org_id s \<noteq> Some [] \<and>
     (\<forall>z. acc_time_zone s = Some z \<longrightarrow> tz_known z)"

lemma bm_modify_Nil: "bm_modify k f m = [] \<longleftrightarrow> m = []"
  by (cases m) (auto split: if_splits)

lemma account_wf_step:
  "account_wf tz_known s \<Longrightarrow> account_allowed tz_known s e \<Longrightarrow> account_wf tz_known (account_apply s e)"
  by (cases e) (auto simp: account_wf_def bm_ordered_insert bm_ordered_modify bm_modify_Nil)

lemma account_wf_history: "account_history tz_known s log \<Longrightarrow> account_wf tz_known s"
  by (rule account_guard.history_inv [where P = "account_wf tz_known"])
    (auto simp: account_wf_step, simp add: account_wf_def account_default_def)

section \<open>Sessions\<close>

text \<open>A hash no session has or had last.\<close>

definition hash_free :: "account \<Rightarrow> string \<Rightarrow> bool" where
  "hash_free s h \<longleftrightarrow>
     list_all (\<lambda>(_, ses). sess_refresh_token_hash ses \<noteq> h \<and>
       sess_previous_refresh_token_hash ses \<noteq> Some h) (acc_sessions s)"

text \<open>A hash only one session has, and none had last.\<close>

definition hash_only_of :: "account \<Rightarrow> string \<Rightarrow> session_id \<Rightarrow> bool" where
  "hash_only_of s h sid \<longleftrightarrow>
     list_all (\<lambda>(k, ses). (sess_refresh_token_hash ses = h \<longleftrightarrow> k = sid) \<and>
       sess_previous_refresh_token_hash ses \<noteq> Some h) (acc_sessions s)"

lemma find_by_key:
  assumes "bm_ordered m" and "bm_get m k = Some v" and "\<And>k' v'. (k', v') \<in> set m \<Longrightarrow> P (k', v') \<longleftrightarrow> k' = k"
  shows "find P m = Some (k, v)"
proof -
  have kv: "(k, v) \<in> set m" using assms(1,2) by (simp add: bm_get_ordered_iff)
  then have "find P m \<noteq> None" using assms(3) by (auto simp: find_None_iff)
  then obtain k' v' where f: "find P m = Some (k', v')" by auto
  then have "(k', v') \<in> set m" "P (k', v')" by (auto simp: find_Some_iff dest: nth_mem)
  then show ?thesis using f assms(1,3) kv by (metis bm_get_ordered_iff option.inject)
qed


text \<open>The sessions after one of them was rotated.\<close>

lemma rotated_sessions:
  assumes "bm_ordered m" and "bm_get m sid = Some ses"
    and "(k, x) \<in> set (bm_modify sid (rotated h (Some prev) at) m)"
  shows "k = sid \<and> x = rotated h (Some prev) at ses \<or> k \<noteq> sid \<and> (k, x) \<in> set m"
  using assms bm_ordered_modify [OF assms(1), of sid "rotated h (Some prev) at"]
  by (auto simp: bm_get_ordered_iff [symmetric] bm_get_modify split: if_splits)

lemma rotation_matches:
  assumes "account_wf tz_known s" and "bm_get (acc_sessions s) sid = Some ses" and "\<not> sess_revoked ses"
    and "hash_only_of s (sess_refresh_token_hash ses) sid" and "hash_free s new"
    and "t = account_apply s (SessionRefreshed sid new (Some (sess_refresh_token_hash ses)) at)"
  shows "find_current t new = Some (sid, rotated new (Some (sess_refresh_token_hash ses)) at ses)"
    and "find_current t (sess_refresh_token_hash ses) = None"
    and "find_previous t (sess_refresh_token_hash ses) =
      Some (sid, rotated new (Some (sess_refresh_token_hash ses)) at ses)"
proof -
  let ?h = "sess_refresh_token_hash ses"
  let ?r = "rotated new (Some ?h) at"
  have ord: "bm_ordered (acc_sessions s)" using assms(1) by (simp add: account_wf_def)
  have mem: "(sid, ses) \<in> set (acc_sessions s)" using ord assms(2) by (simp add: bm_get_ordered_iff)
  then have new: "new \<noteq> ?h" using assms(5) by (auto simp: hash_free_def list_all_iff)
  have ordt: "bm_ordered (acc_sessions t)" using ord assms(6) by (simp add: bm_ordered_modify)
  have get: "bm_get (acc_sessions t) sid = Some (?r ses)" using assms(2,6) by (simp add: bm_get_modify)
  have other: "k = sid \<and> x = ?r ses \<or> k \<noteq> sid \<and> (k, x) \<in> set (acc_sessions s)"
    if "(k, x) \<in> set (acc_sessions t)" for k x
    using rotated_sessions [OF ord assms(2)] that assms(6) by simp
  show "find_current t new = Some (sid, ?r ses)"
    unfolding find_current_def
    by (rule find_by_key [OF ordt get])
      (use other assms(5) in \<open>fastforce simp: rotated_def hash_free_def list_all_iff\<close>)
  show "find_previous t ?h = Some (sid, ?r ses)"
    unfolding find_previous_def
    by (rule find_by_key [OF ordt get])
      (use other assms(4) in \<open>fastforce simp: rotated_def hash_only_of_def list_all_iff\<close>)
  have "sess_refresh_token_hash x \<noteq> ?h" if "(k, x) \<in> set (acc_sessions t)" for k x
    using other [OF that] new assms(4) by (auto simp: rotated_def hash_only_of_def list_all_iff)
  then show "find_current t ?h = None" by (auto simp: find_current_def find_None_iff)
qed

lemma other_hash_unknown:
  assumes "account_wf tz_known s" and "bm_get (acc_sessions s) sid = Some ses"
    and "p \<noteq> new" and "p \<noteq> sess_refresh_token_hash ses"
    and "\<forall>k x. k \<noteq> sid \<and> bm_get (acc_sessions s) k = Some x \<longrightarrow>
      sess_refresh_token_hash x \<noteq> p \<and> sess_previous_refresh_token_hash x \<noteq> Some p"
  shows "match_refresh (account_apply s (SessionRefreshed sid new (Some (sess_refresh_token_hash ses)) at)) p now =
    Inl UnknownRefreshToken"
proof -
  let ?t = "account_apply s (SessionRefreshed sid new (Some (sess_refresh_token_hash ses)) at)"
  have ord: "bm_ordered (acc_sessions s)" using assms(1) by (simp add: account_wf_def)
  have reg: "acc_registered s" using assms(1,2) by (auto simp: account_wf_def bm_get_def)
  have "sess_refresh_token_hash x \<noteq> p \<and> sess_previous_refresh_token_hash x \<noteq> Some p"
    if kx: "(k, x) \<in> set (acc_sessions ?t)" for k x
  proof -
    have "k = sid \<and> x = rotated new (Some (sess_refresh_token_hash ses)) at ses \<or>
        k \<noteq> sid \<and> (k, x) \<in> set (acc_sessions s)"
      by (rule rotated_sessions [OF ord assms(2)]) (use kx in simp)
    then show ?thesis
      using assms(3,4) assms(5) [unfolded bm_get_ordered_iff [OF ord]] by (auto simp: rotated_def)
  qed
  then have "find_current ?t p = None" "find_previous ?t p = None"
    by (auto simp: find_current_def find_previous_def find_None_iff)
  then show ?thesis using reg by (simp add: match_refresh_def)
qed








section \<open>What the log says last\<close>

fun latest :: "('e \<Rightarrow> 'a option) \<Rightarrow> 'e list \<Rightarrow> 'a option" where
  "latest f [] = None"
| "latest f (e # es) = (case latest f es of Some v \<Rightarrow> Some v | None \<Rightarrow> f e)"

lemma latest_snoc: "latest f (es @ [e]) = (case f e of Some v \<Rightarrow> Some v | None \<Rightarrow> latest f es)"
  by (induction es) (auto split: option.splits)

fun sets_password :: "account_event \<Rightarrow> string option" where
  "sets_password (CredentialsSet h _ _ _ _) = Some h"
| "sets_password (PasswordChanged h _) = Some h"
| "sets_password _ = None"

fun switches :: "account_event \<Rightarrow> bool option" where
  "switches (Enabled _) = Some True"
| "switches (Disabled _) = Some False"
| "switches _ = None"

fun verifies :: "account_event \<Rightarrow> bool" where
  "verifies (EmailVerified _) \<longleftrightarrow> True"
| "verifies _ \<longleftrightarrow> False"

lemma login_facts:
  "acc_password_hash (account_replay log) = latest sets_password log \<and>
   (acc_enabled (account_replay log) \<longleftrightarrow> latest switches log = Some True) \<and>
   (acc_verified (account_replay log) \<longleftrightarrow> list_ex verifies log)"
proof (induction log rule: rev_induct)
  case (snoc e log)
  then show ?case by (cases e) (auto simp: account_replay_def latest_snoc)
qed (simp add: account_replay_def account_default_def)

section \<open>Properties\<close>

text \<open>The gate a password login passes reads the log and nothing else. It refuses, in this
  order, an account whose log sets no password, verifies no address, or whose last enabling is
  undone or missing; otherwise it gives the hash the log set last. An account is never verified
  or enabled without a password, never in an organization with an empty id, and its zone is one
  the zone database knows.\<close>

theorem login_gate_reads_the_log:
  assumes "account_history tz_known s log"
  shows "credential_login_ready s =
      (case latest sets_password log of
         None \<Rightarrow> Inl NoCredentials
       | Some h \<Rightarrow> if \<not> list_ex verifies log then Inl NotVerified
                   else if latest switches log \<noteq> Some True then Inl NotEnabled else Inr h) \<and>
    (acc_verified s \<or> acc_enabled s \<longrightarrow> acc_password_hash s \<noteq> None) \<and>
    acc_org_id s \<noteq> Some [] \<and> (\<forall>z. acc_time_zone s = Some z \<longrightarrow> tz_known z)"
proof -
  have "s = account_replay log" using history_replays [OF assms] by (simp add: account_replay_def)
  then show ?thesis
    using login_facts [of log] account_wf_history [OF assms]
    by (auto simp: credential_login_ready_def account_wf_def ok_or_def rbind_def split: option.splits)
qed

definition sample_registration :: registration where
  "sample_registration =
     \<lparr>reg_email = ''a@b.co'', reg_password_hash = ''h'', reg_first_name = ''A'', reg_last_name = ''B'',
      reg_org_id = [], reg_plan = PlanPro, reg_verified = True, reg_enabled = False, reg_at_ms = 1\<rparr>"

theorem login_gate_reads_the_log_witness:
  "\<exists>s log. account_history (\<lambda>_. True) s log \<and> credential_login_ready s = Inr ''h2'' \<and> acc_org_id s \<noteq> Some []"
proof -
  let ?h = "handle_all account_apply (account_decide (\<lambda>_. True)) account_default
    [Enable 0, Register sample_registration, Enable 2, Disable 3, Enable 4, ChangePassword ''h2'' 5]"
  obtain s log where h: "?h = (s, log)" by fastforce
  have hist: "account_history (\<lambda>_. True) s log" using h by (rule handle_all_history)
  have "latest sets_password (snd ?h) = Some ''h2''" "list_ex verifies (snd ?h)"
    "latest switches (snd ?h) = Some True" by code_simp+
  then show ?thesis using login_gate_reads_the_log [OF hist] hist unfolding h by auto
qed


definition sample_sign_in :: "string \<Rightarrow> string \<Rightarrow> sign_in" where
  "sample_sign_in sid h =
     \<lparr>si_email = ''a@b.co'', si_plan = PlanPro, si_trial = False, si_session_id = SessionId sid,
      si_refresh_token_hash = h, si_at_ms = 1\<rparr>"


text \<open>Rotating a refresh token. Of a live session whose hash is its alone, presenting that hash
  with a hash no session has rotates it: afterwards the new hash names the session at any time,
  the old one names it for 45 seconds by the clock of the requests, in which a second refresh
  with it appends nothing, and is unknown after; no other session changes, and a hash that
  neither is one of these two nor belonged to another session is unknown, the one the session
  had before the old one among them.\<close>

theorem rotation_has_a_grace:
  assumes "account_history tz_known s log" and "bm_get (acc_sessions s) sid = Some ses" and "\<not> sess_revoked ses"
    and "hash_only_of s (sess_refresh_token_hash ses) sid" and "hash_free s new"
  shows "\<exists>t. account_decide tz_known s (RefreshSession (sess_refresh_token_hash ses) new at) =
        Inr [SessionRefreshed sid new (Some (sess_refresh_token_hash ses)) at] \<and>
      t = account_apply s (SessionRefreshed sid new (Some (sess_refresh_token_hash ses)) at) \<and>
      match_refresh t new now = Inr (CurrentHash sid) \<and>
      match_refresh t (sess_refresh_token_hash ses) now =
        (if i64_saturating_sub now at \<le> 45000 then Inr (PreviousHash sid) else Inl UnknownRefreshToken) \<and>
      (i64_saturating_sub now at \<le> 45000 \<longrightarrow>
        account_decide tz_known t (RefreshSession (sess_refresh_token_hash ses) other now) = Inr []) \<and>
      (\<forall>k. k \<noteq> sid \<longrightarrow> bm_get (acc_sessions t) k = bm_get (acc_sessions s) k) \<and>
      (\<forall>p. p \<noteq> new \<and> p \<noteq> sess_refresh_token_hash ses \<and>
           (\<forall>k x. k \<noteq> sid \<and> bm_get (acc_sessions s) k = Some x \<longrightarrow>
              sess_refresh_token_hash x \<noteq> p \<and> sess_previous_refresh_token_hash x \<noteq> Some p) \<longrightarrow>
         match_refresh t p now = Inl UnknownRefreshToken)"
proof -
  let ?h = "sess_refresh_token_hash ses"
  let ?t = "account_apply s (SessionRefreshed sid new (Some ?h) at)"
  note wf = account_wf_history [OF assms(1)]
  note found = rotation_matches [OF wf assms(2-5) refl [of ?t]]
  have ord: "bm_ordered (acc_sessions s)" using wf by (simp add: account_wf_def)
  have reg: "acc_registered s" using wf assms(2) by (auto simp: account_wf_def bm_get_def)
  have "find_current s ?h = Some (sid, ses)"
    unfolding find_current_def using assms(4)
    by (intro find_by_key [OF ord assms(2)]) (auto simp: hash_only_of_def list_all_iff)
  then have dec: "account_decide tz_known s (RefreshSession ?h new at) = Inr [SessionRefreshed sid new (Some ?h) at]"
    using reg assms(3) by (simp add: match_refresh_def)
  have old: "match_refresh ?t ?h now =
      (if i64_saturating_sub now at \<le> 45000 then Inr (PreviousHash sid) else Inl UnknownRefreshToken)"
    using found(2,3) reg assms(3) by (simp add: match_refresh_def rotated_def refresh_grace_ms_def)
  have "match_refresh ?t new now = Inr (CurrentHash sid)"
    using found(1) reg assms(3) by (simp add: match_refresh_def rotated_def)
  moreover have "match_refresh ?t p now = Inl UnknownRefreshToken"
    if p: "p \<noteq> new" "p \<noteq> ?h" and fresh: "\<forall>k x. k \<noteq> sid \<and> bm_get (acc_sessions s) k = Some x \<longrightarrow>
      sess_refresh_token_hash x \<noteq> p \<and> sess_previous_refresh_token_hash x \<noteq> Some p" for p
    by (rule other_hash_unknown [OF wf assms(2) p fresh])
  moreover have "\<forall>k. k \<noteq> sid \<longrightarrow> bm_get (acc_sessions ?t) k = bm_get (acc_sessions s) k"
    by (simp add: bm_get_modify)
  ultimately show ?thesis using dec old by (intro exI [of _ ?t]) simp
qed

theorem rotation_has_a_grace_witness:
  "\<exists>s log. account_history (\<lambda>_. True) s log \<and>
     account_decide (\<lambda>_. True) s (RefreshSession ''h'' ''n'' 5) =
       Inr [SessionRefreshed (SessionId ''x'') ''n'' (Some ''h'') 5] \<and>
     match_refresh (account_apply s (SessionRefreshed (SessionId ''x'') ''n'' (Some ''h'') 5)) ''h'' 90000 =
       Inl UnknownRefreshToken"
proof -
  let ?h = "handle_all account_apply (account_decide (\<lambda>_. True)) account_default
    [SignIn (sample_sign_in ''x'' ''h''), SignIn (sample_sign_in ''y'' ''k'')]"
  let ?ses = "new_session ''h'' 1"
  obtain s log where h: "?h = (s, log)" by fastforce
  have hist: "account_history (\<lambda>_. True) s log" using h by (rule handle_all_history)
  have "bm_get (acc_sessions (fst ?h)) (SessionId ''x'') = Some ?ses"
    "\<not> sess_revoked ?ses" "hash_only_of (fst ?h) (sess_refresh_token_hash ?ses) (SessionId ''x'')"
    "hash_free (fst ?h) ''n''" by code_simp+
  then have "bm_get (acc_sessions s) (SessionId ''x'') = Some ?ses" "\<not> sess_revoked ?ses"
    "hash_only_of s (sess_refresh_token_hash ?ses) (SessionId ''x'')" "hash_free s ''n''"
    unfolding h by simp_all
  from rotation_has_a_grace [OF hist this, of 5 90000] hist show ?thesis
    by (auto simp: new_session_def i64_saturating_sub_def i64_min_def i64_max_def)
qed

end
