(* ===== verification/Glob.thy ===== *)
theory Glob
  imports Prelude
begin

text \<open>
  \<open>glob\<close> of \<open>opengrok-policy/src/shell.rs\<close>: whether a word with wildcards could name a
  program or an argument. The code keeps one place to go back to, the last star, and is linear
  in memory for it; the reference is the plain recursive meaning of a wildcard pattern.

  \<open>Vec<char>\<close> is the list of a text's characters, each by its bytes. An index into the
  pattern is the rest of it; the index into the name is the place the last star was tried from
  and the count of the characters read since.
\<close>

definition continues_char :: "char \<Rightarrow> bool" where
  "continues_char c \<longleftrightarrow> 128 \<le> byte c \<and> byte c < 192"

text \<open>\<open>str::chars\<close>, each character as its bytes.\<close>

function utf8_chars :: "string \<Rightarrow> string list" where
  "utf8_chars [] = []"
| "utf8_chars (c # cs) = (c # takeWhile continues_char cs) # utf8_chars (dropWhile continues_char cs)"
  by pat_completeness auto
termination
  by (relation "measure length") (auto simp: le_imp_less_Suc length_dropWhile_le)

text \<open>What is left of a pattern behind a bracket expression, its opening bracket gone.\<close>

definition after_bracket :: "string list \<Rightarrow> string list option" where
  "after_bracket p =
     (case p of
        [] \<Rightarrow> None
      | _ # r \<Rightarrow> (case dropWhile (\<lambda>k. k \<noteq> '']'') r of [] \<Rightarrow> None | _ # q \<Rightarrow> Some q))"

text \<open>The pattern behind the element that takes \<open>c\<close>; a star takes none by itself.\<close>

definition glob_step :: "bool \<Rightarrow> string list \<Rightarrow> string \<Rightarrow> string list option" where
  "glob_step folds p c =
     (case p of
        [] \<Rightarrow> None
      | k # p' \<Rightarrow>
          if k = ''*'' then None
          else if k = ''?'' then Some p'
          else if k = ''['' then
            (case after_bracket p' of Some q \<Rightarrow> Some q | None \<Rightarrow> if c = ''['' then Some p' else None)
          else if k = c \<or> folds \<and> eq_ignore_ascii_case k c then Some p'
          else None)"

function glob_loop :: "bool \<Rightarrow> string list option \<Rightarrow> string list \<Rightarrow> string list \<Rightarrow> nat \<Rightarrow> bool" where
  "glob_loop folds star p src k =
     (case drop k src of
        [] \<Rightarrow> list_all (\<lambda>e. e = ''*'') p
      | c # _ \<Rightarrow>
          if p \<noteq> [] \<and> hd p = ''*'' then glob_loop folds (Some (tl p)) (tl p) (drop k src) 0
          else case glob_step folds p c of
            Some q \<Rightarrow> glob_loop folds star q src (k + 1)
          | None \<Rightarrow>
              (case star of
                 Some s \<Rightarrow> glob_loop folds star s (tl src) 0
               | None \<Rightarrow> False))"
  by pat_completeness auto
termination
proof (relation "measures
    [\<lambda>(folds, star, p, src, k). length src + (if star = None then 1 else 0),
     \<lambda>(folds, star, p, src, k). length src - k, \<lambda>(folds, star, p, src, k). length p]", goal_cases)
  case (2 folds star p src k c n)
  have "k < length src" using 2(1) by (metis drop_all list.discI not_less)
  moreover have "Suc (length n) = length src - k" using 2(1) by (metis length_Cons length_drop)
  moreover have "length (tl p) < length p" using 2(2) by simp
  ultimately show ?case by (cases "k = 0"; cases star; simp; linarith?)
next
  case (4 folds star p src k c n q)
  then have "length src - Suc k < length src - k" by (metis drop_all list.discI not_less diff_less_mono2 lessI)
  then show ?case by simp
next
  case (3 folds star p src k c n s)
  then show ?case by (cases src) auto
qed simp

declare glob_loop.simps [simp del]

definition glob :: "string \<Rightarrow> string \<Rightarrow> bool \<Rightarrow> bool" where
  "glob pattern name folds = glob_loop folds None (utf8_chars pattern) (utf8_chars name) 0"

section \<open>What a wildcard pattern means\<close>

lemma after_bracket_shorter: "after_bracket p = Some q \<Longrightarrow> length q < length p"
proof -
  assume "after_bracket p = Some q"
  then obtain x r y where "p = x # r" "dropWhile (\<lambda>k. k \<noteq> '']'') r = y # q"
    by (auto simp: after_bracket_def split: list.splits)
  then show ?thesis using length_dropWhile_le [of "\<lambda>k. k \<noteq> '']''" r] by simp
qed

lemma glob_step_shorter: "glob_step folds p c = Some q \<Longrightarrow> length q < length p"
  by (auto simp: glob_step_def dest: after_bracket_shorter split: list.splits if_splits option.splits)

text \<open>The element at the front decides how far the pattern moves, not the character.\<close>

lemma glob_step_same: "glob_step folds p c = Some q \<Longrightarrow> glob_step folds p d = Some q' \<Longrightarrow> q = q'"
  by (auto simp: glob_step_def split: list.splits if_splits option.splits)

function matches_glob :: "bool \<Rightarrow> string list \<Rightarrow> string list \<Rightarrow> bool" where
  "matches_glob folds p n \<longleftrightarrow>
     (case p of
        [] \<Rightarrow> n = []
      | e # p' \<Rightarrow>
          if e = ''*'' then (\<exists>i\<in>{..length n}. matches_glob folds p' (drop i n))
          else (case n of
                  [] \<Rightarrow> False
                | c # n' \<Rightarrow> (case glob_step folds p c of None \<Rightarrow> False | Some q \<Rightarrow> matches_glob folds q n')))"
  by pat_completeness auto
termination
  by (relation "measure (\<lambda>(folds, p, n). length p)") (auto dest: glob_step_shorter)

declare matches_glob.simps [simp del]

lemma matches_Nil [simp]: "matches_glob folds [] n \<longleftrightarrow> n = []"
  by (simp add: matches_glob.simps [of folds "[]"])

lemma matches_star: "matches_glob folds (''*'' # p) n \<longleftrightarrow> (\<exists>i\<le>length n. matches_glob folds p (drop i n))"
  by (auto simp: matches_glob.simps [of folds "''*'' # p"])

lemma matches_star_any: "matches_glob folds (''*'' # p) n \<longleftrightarrow> (\<exists>i. matches_glob folds p (drop i n))"
proof
  assume "\<exists>i. matches_glob folds p (drop i n)"
  then obtain i where "matches_glob folds p (drop i n)" by blast
  then have "matches_glob folds p (drop (min i (length n)) n)" by (cases "i \<le> length n") (simp_all add: min_def)
  then show "matches_glob folds (''*'' # p) n" unfolding matches_star by (metis min.cobounded2)
qed (auto simp: matches_star)

lemma matches_step:
  "p \<noteq> [] \<Longrightarrow> hd p \<noteq> ''*'' \<Longrightarrow>
   matches_glob folds p n \<longleftrightarrow> (\<exists>c n' q. n = c # n' \<and> glob_step folds p c = Some q \<and> matches_glob folds q n')"
  by (subst matches_glob.simps) (auto split: list.splits option.splits)

lemma matches_empty: "matches_glob folds p [] \<longleftrightarrow> list_all (\<lambda>e. e = ''*'') p"
proof (induction p)
  case (Cons e p)
  then show ?case
    by (cases "e = ''*''") (auto simp: matches_star matches_step)
qed simp

text \<open>A stretch of pattern without a star, and the characters it took.\<close>

fun path :: "bool \<Rightarrow> string list \<Rightarrow> string list \<Rightarrow> string list \<Rightarrow> bool" where
  "path folds p [] q \<longleftrightarrow> p = q"
| "path folds p (c # u) q \<longleftrightarrow> (\<exists>p'. glob_step folds p c = Some p' \<and> path folds p' u q)"

lemma path_snoc: "path folds p u q \<Longrightarrow> glob_step folds q c = Some q' \<Longrightarrow> path folds p (u @ [c]) q'"
  by (induction u arbitrary: p) auto

lemma glob_step_front: "glob_step folds p c = Some q \<Longrightarrow> p \<noteq> [] \<and> hd p \<noteq> ''*''"
  by (auto simp: glob_step_def split: list.splits if_splits)

lemma path_matches: "path folds p u q \<Longrightarrow> matches_glob folds q n \<Longrightarrow> matches_glob folds p (u @ n)"
proof (induction u arbitrary: p)
  case (Cons c u)
  then obtain p' where p': "glob_step folds p c = Some p'" "path folds p' u q" by auto
  then show ?case
    using Cons.IH [OF p'(2) Cons.prems(2)] glob_step_front [OF p'(1)] by (simp add: matches_step)
qed simp

lemma matches_path:
  "path folds p u q \<Longrightarrow> matches_glob folds p n \<Longrightarrow> length u \<le> length n \<and> matches_glob folds q (drop (length u) n)"
proof (induction u arbitrary: p n)
  case (Cons c u)
  then obtain p' where p': "glob_step folds p c = Some p'" "path folds p' u q" by auto
  obtain d n' q' where n: "n = d # n'" "glob_step folds p d = Some q'" "matches_glob folds q' n'"
    using Cons.prems(2) glob_step_front [OF p'(1)] by (auto simp: matches_step)
  then have "q' = p'" using glob_step_same p'(1) by blast
  then show ?case using Cons.IH [OF p'(2)] n by simp
qed simp

section \<open>The loop is the meaning\<close>

lemma glob_loop_on_star:
  "drop k src = c # n \<Longrightarrow> p \<noteq> [] \<and> hd p = ''*'' \<Longrightarrow>
   glob_loop folds star p src k = glob_loop folds (Some (tl p)) (tl p) (drop k src) 0"
  by (subst glob_loop.simps) simp

lemma glob_loop_off_star:
  "drop k src = c # n \<Longrightarrow> \<not> (p \<noteq> [] \<and> hd p = ''*'') \<Longrightarrow>
   glob_loop folds star p src k =
     (case glob_step folds p c of
        Some q \<Rightarrow> glob_loop folds star q src (k + 1)
      | None \<Rightarrow> (case star of Some s \<Rightarrow> glob_loop folds star s (tl src) 0 | None \<Rightarrow> False))"
  by (subst glob_loop.simps) (simp only: list.case if_False)

lemma glob_loop_at_end: "drop k src = [] \<Longrightarrow> glob_loop folds star p src k \<longleftrightarrow> matches_glob folds p []"
  by (subst glob_loop.simps) (simp add: matches_empty)

text \<open>With a star to go back to, the loop finds a place behind it, at or after where the star was
  last tried, from which what follows the star matches.\<close>

lemma glob_loop_star:
  assumes "path folds s (take k src) p" and "k \<le> length src"
  shows "glob_loop folds (Some s) p src k \<longleftrightarrow> (\<exists>i\<le>length src. matches_glob folds s (drop i src))"
  using assms
proof (induction folds "Some s" p src k arbitrary: s rule: glob_loop.induct)
  case (1 folds p src k)
  have len: "length (take k src) = k" using "1.prems"(2) by simp
  have same: "matches_glob folds s src \<longleftrightarrow> matches_glob folds p (drop k src)"
    using path_matches [OF "1.prems"(1), of "drop k src"] matches_path [OF "1.prems"(1), of src] len by auto
  have later: "matches_glob folds p (drop (i + k) src)" if "matches_glob folds s (drop i src)" for i
    using matches_path [OF "1.prems"(1) that] len by (simp add: add.commute)
  show ?case
  proof (cases "drop k src")
    case Nil
    then have k: "k = length src" using "1.prems"(2) by simp
    have "i = 0" if "i \<le> length src" "matches_glob folds s (drop i src)" for i
      using matches_path [OF "1.prems"(1) that(2)] len k that(1) by auto
    then have "(\<exists>i\<le>length src. matches_glob folds s (drop i src)) \<longleftrightarrow> matches_glob folds s src"
      by (metis drop0 le0)
    then show ?thesis using Nil same glob_loop_at_end [OF Nil] by simp
  next
    case (Cons c n)
    then have lt: "k < length src" by (metis drop_all list.discI not_less)
    show ?thesis
    proof (cases "p \<noteq> [] \<and> hd p = ''*''")
      case True
      then have p: "p = ''*'' # tl p" by (metis list.collapse)
      have "glob_loop folds (Some s) p src k = glob_loop folds (Some (tl p)) (tl p) (drop k src) 0"
        using Cons True by (rule glob_loop_on_star)
      also have "\<dots> \<longleftrightarrow> matches_glob folds p (drop k src)"
        using 1(1) [OF Cons True] matches_star [of folds "tl p" "drop k src"] p by simp
      also have "\<dots> \<longleftrightarrow> (\<exists>i\<le>length src. matches_glob folds s (drop i src))"
      proof
        assume "\<exists>i\<le>length src. matches_glob folds s (drop i src)"
        then obtain i where "matches_glob folds p (drop i (drop k src))" using later by auto
        then obtain j where "matches_glob folds (tl p) (drop j (drop i (drop k src)))"
          using p matches_star_any by metis
        then have "matches_glob folds (tl p) (drop (j + i) (drop k src))" by (simp add: add.assoc)
        then show "matches_glob folds p (drop k src)" using p matches_star_any by metis
      qed (use same in \<open>metis drop0 le0\<close>)
      finally show ?thesis .
    next
      case False
      show ?thesis
      proof (cases "glob_step folds p c")
        case (Some q)
        have "path folds s (take (k + 1) src) q"
          using path_snoc [OF "1.prems"(1) Some] Cons lt
          by (simp add: take_Suc_conv_app_nth) (metis Cons_nth_drop_Suc list.inject)
        then show ?thesis
          using 1(3) [OF Cons False Some] lt Some glob_loop_off_star [OF Cons False] by simp
      next
        case None
        obtain x xs where src: "src = x # xs" using lt by (cases src) auto
        have "\<not> matches_glob folds p (drop k src)"
          using None False Cons by (cases "p = []") (auto simp: matches_step)
        then have "(\<exists>i\<le>length src. matches_glob folds s (drop i src)) \<longleftrightarrow>
            (\<exists>i\<le>length xs. matches_glob folds s (drop i xs))"
          using same src by (metis Suc_le_mono drop0 drop_Suc_Cons length_Cons not0_implies_Suc le0)
        then show ?thesis
          using 1(2) [OF Cons False None refl] None src glob_loop_off_star [OF Cons False] by simp
      qed
    qed
  qed
qed

lemma glob_loop_matches: "k \<le> length src \<Longrightarrow> glob_loop folds None p src k \<longleftrightarrow> matches_glob folds p (drop k src)"
proof (induction folds "None :: string list option" p src k rule: glob_loop.induct)
  case (1 folds p src k)
  show ?case
  proof (cases "drop k src")
    case Nil
    then show ?thesis using glob_loop_at_end [OF Nil] by simp
  next
    case (Cons c n)
    then have lt: "k < length src" by (metis drop_all list.discI not_less)
    show ?thesis
    proof (cases "p \<noteq> [] \<and> hd p = ''*''")
      case True
      then have p: "p = ''*'' # tl p" by (metis list.collapse)
      have "glob_loop folds None p src k = glob_loop folds (Some (tl p)) (tl p) (drop k src) 0"
        using Cons True by (rule glob_loop_on_star)
      then show ?thesis
        using glob_loop_star [of folds "tl p" 0 "drop k src" "tl p"] matches_star [of folds "tl p" "drop k src"] p
        by simp
    next
      case False
      have tl: "drop (k + 1) src = n" using Cons by (metis Suc_eq_plus1 drop_Suc list.sel(3) tl_drop)
      have "matches_glob folds p (drop k src) \<longleftrightarrow>
          (case glob_step folds p c of None \<Rightarrow> False | Some q \<Rightarrow> matches_glob folds q n)"
        using False Cons by (cases "p = []") (auto simp: matches_step glob_step_def split: option.splits)
      then show ?thesis
        using 1(2) [OF Cons False] lt tl glob_loop_off_star [OF Cons False]
        by (cases "glob_step folds p c") auto
    qed
  qed
qed

section \<open>Properties\<close>

text \<open>The loop with one place to go back to answers exactly what the pattern means. For every
  pattern and name, with or without regard to case, \<open>glob\<close> returns, and answers that the
  pattern matches the name: a star any stretch of it, a question mark or a bracket expression
  any one character, an unclosed bracket itself, and anything else its own character.\<close>

theorem glob_is_the_meaning:
  "glob pattern name folds \<longleftrightarrow> matches_glob folds (utf8_chars pattern) (utf8_chars name)"
  by (simp add: glob_def glob_loop_matches)

end
