(* ===== verification/Shell.thy ===== *)
theory Shell
  imports Prelude
begin

text \<open>
  The allow side of \<open>opengrok-policy/src/shell.rs\<close>: how the gate reads a shell line before a
  rule may vouch for it. The code walks a vector of characters; every character it tells apart
  is ASCII, and no byte of a longer character is one of them, so walking the bytes of the
  UTF-8 text cuts and copies the same text.

  One turn of the loop is \<open>read_step\<close>, which gives back the reader, the quote it is in and
  what is left of the line.
\<close>

definition runs_another_text :: string where
  "runs_another_text =
     ''eval exec source . command builtin env nice nohup time timeout xargs '' @
     ''sudo doas sh bash zsh dash ksh fish csh tcsh trap caffeinate arch watch '' @
     ''! if then else elif while until do coproc''"

record shell_line =
  ln_simple_commands :: "string list"
  ln_plain :: "string list option"

record reader =
  rd_words :: "string list"
  rd_word :: string
  rd_in_word :: bool
  rd_quoted :: bool
  rd_expands :: bool
  rd_program_expands :: bool
  rd_segments :: "string list"
  rd_segment :: string
  rd_opaque :: bool
  rd_nested :: bool
  rd_redirects :: bool
  rd_unsplittable :: bool

definition reader_default :: reader where
  "reader_default =
     \<lparr>rd_words = [], rd_word = [], rd_in_word = False, rd_quoted = False, rd_expands = False,
      rd_program_expands = False, rd_segments = [], rd_segment = [], rd_opaque = False,
      rd_nested = False, rd_redirects = False, rd_unsplittable = False\<rparr>"

definition end_word :: "reader \<Rightarrow> reader" where
  "end_word r =
     (let r = (if rd_in_word r then
                 r\<lparr>rd_program_expands := rd_program_expands r \<or> rd_words r = [] \<and> rd_expands r,
                   rd_words := rd_words r @ [rd_word r], rd_word := []\<rparr>
               else r)
      in r\<lparr>rd_in_word := False, rd_quoted := False, rd_expands := False\<rparr>)"

definition end_segment :: "reader \<Rightarrow> reader" where
  "end_segment r =
     (let t = trim (rd_segment r)
      in r\<lparr>rd_segments := (if t \<noteq> [] then rd_segments r @ [t] else rd_segments r), rd_segment := []\<rparr>)"

definition push_char :: "char \<Rightarrow> reader \<Rightarrow> reader" where
  "push_char c r = r\<lparr>rd_word := rd_word r @ [c], rd_in_word := True\<rparr>"

text \<open>\<open>r.segment.push(c)\<close>.\<close>

definition seg :: "char \<Rightarrow> reader \<Rightarrow> reader" where
  "seg c r = r\<lparr>rd_segment := rd_segment r @ [c]\<rparr>"

definition is_operator :: "char \<Rightarrow> bool" where
  "is_operator c \<longleftrightarrow>
     c = CHR '';'' \<or> c = CHR ''&'' \<or> c = CHR ''|'' \<or> c = CHR 0x0A \<or> c = CHR 0x0D"

definition is_assignment :: "string \<Rightarrow> bool" where
  "is_assignment word =
     (case split_once CHR ''='' word of
        Some (name, _) \<Rightarrow>
          name \<noteq> [] \<and> \<not> is_ascii_digit (hd name) \<and>
          list_all (\<lambda>c. is_ascii_alphanumeric c \<or> c = CHR ''_'') name
      | None \<Rightarrow> False)"

definition basename :: "string \<Rightarrow> string" where
  "basename word = last (split_on CHR ''/'' word)"

definition runs_another :: "string \<Rightarrow> bool" where
  "runs_another program =
     (let name = to_ascii_lowercase (basename program)
      in list_ex (\<lambda>w. w = name) (split_whitespace runs_another_text))"

text \<open>The words of that list, split once, so that evaluating a line need not split them again.\<close>

definition runs_another_words :: "string list" where
  "runs_another_words =
    [''eval'', ''exec'', ''source'', ''.'', ''command'', ''builtin'', ''env'', ''nice'',
    ''nohup'', ''time'', ''timeout'', ''xargs'', ''sudo'', ''doas'', ''sh'', ''bash'',
    ''zsh'', ''dash'', ''ksh'', ''fish'', ''csh'', ''tcsh'', ''trap'', ''caffeinate'',
    ''arch'', ''watch'', ''!'', ''if'', ''then'', ''else'', ''elif'', ''while'', ''until'',
    ''do'', ''coproc'']"

lemma split_runs_another: "split_whitespace runs_another_text = runs_another_words"
  by code_simp

lemma runs_another_code [code]:
  "runs_another program = list_ex (\<lambda>w. w = to_ascii_lowercase (basename program)) runs_another_words"
  by (simp add: runs_another_def split_runs_another Let_def)

text \<open>Inside double quotes.\<close>

definition read_double :: "reader \<Rightarrow> char \<Rightarrow> string \<Rightarrow> reader \<times> char option \<times> string" where
  "read_double r c cs =
     (let r = seg c r; q = Some CHR 0x22; next = (case cs of [] \<Rightarrow> None | n # _ \<Rightarrow> Some n) in
      if c = CHR 0x22 then (r, None, cs)
      else if c = CHR 0x5C \<and> next \<in> {Some CHR ''$'', Some CHR 0x60, Some CHR 0x22, Some CHR 0x5C, Some CHR 0x0A}
      then (let n = hd cs; r = seg n r in (if n \<noteq> CHR 0x0A then push_char n r else r, q, tl cs))
      else if c = CHR 0x60 \<or> c = CHR ''$'' \<and> next = Some CHR ''('' then (r\<lparr>rd_nested := True\<rparr>, q, cs)
      else if c = CHR ''$'' then (push_char c (r\<lparr>rd_expands := True\<rparr>), q, cs)
      else (push_char c r, q, cs))"

text \<open>A backslash outside quotes.\<close>

definition read_escape :: "reader \<Rightarrow> char \<Rightarrow> string \<Rightarrow> reader \<times> char option \<times> string" where
  "read_escape r c cs =
     (let r = seg c r in
      case cs of
        [] \<Rightarrow> (r\<lparr>rd_opaque := True, rd_unsplittable := True\<rparr>, None, [])
      | n # cs' \<Rightarrow>
          if n = CHR 0x0A then (seg n r, None, cs')
          else (push_char n ((seg n r)\<lparr>rd_quoted := True\<rparr>), None, cs'))"

definition read_dollar :: "reader \<Rightarrow> char \<Rightarrow> string \<Rightarrow> reader \<times> char option \<times> string" where
  "read_dollar r c cs =
     (let r = seg c r;
          r = (if cs \<noteq> [] \<and> hd cs = CHR ''('' then r\<lparr>rd_nested := True\<rparr>
               else if cs \<noteq> [] \<and> hd cs = CHR 0x27 then r\<lparr>rd_opaque := True, rd_unsplittable := True\<rparr>
               else r\<lparr>rd_expands := True\<rparr>)
      in (push_char c r, None, cs))"

text \<open>\<open>2>&1\<close> is read past; any other redirection leaves the line to a person.\<close>

definition read_redirect :: "reader \<Rightarrow> char \<Rightarrow> string \<Rightarrow> reader \<times> char option \<times> string" where
  "read_redirect r c cs =
     (let digits = length (takeWhile is_ascii_digit (drop 1 cs));
          ends = (case drop (1 + digits) cs of
                    [] \<Rightarrow> True
                  | after # _ \<Rightarrow> after = CHR '' '' \<or> after = CHR 0x09 \<or> is_operator after);
          standard = (digits = 1 \<and> drop 1 cs \<noteq> [] \<and> hd (drop 1 cs) \<in> {CHR ''0'', CHR ''1'', CHR ''2''})
      in if cs \<noteq> [] \<and> hd cs = CHR ''&'' \<and> standard \<and> ends then
           (let is_fd = (\<not> rd_quoted r \<and> list_all is_ascii_digit (rd_word r));
                r = (if is_fd then r\<lparr>rd_word := [], rd_in_word := False\<rparr> else r);
                r = end_word r
            in (r\<lparr>rd_segment := rd_segment r @ c # take (1 + digits) cs\<rparr>, None, drop (1 + digits) cs))
         else ((seg c r)\<lparr>rd_opaque := True, rd_redirects := True\<rparr>, None, cs))"

text \<open>Outside quotes.\<close>

definition read_bare :: "reader \<Rightarrow> char \<Rightarrow> string \<Rightarrow> reader \<times> char option \<times> string" where
  "read_bare r c cs =
     (if c = CHR '' '' \<or> c = CHR 0x09 then (end_word (seg c r), None, cs)
      else if c = CHR 0x5C then read_escape r c cs
      else if c = CHR 0x27 \<or> c = CHR 0x22 then
        ((seg c r)\<lparr>rd_in_word := True, rd_quoted := True\<rparr>, Some c, cs)
      else if c = CHR ''#'' \<and> \<not> rd_in_word r then
        (r\<lparr>rd_opaque := True,
           rd_segment := rd_segment r @ takeWhile (\<lambda>k. k \<noteq> CHR 0x0A) (c # cs)\<rparr>, None,
         dropWhile (\<lambda>k. k \<noteq> CHR 0x0A) cs)
      else if c \<in> {CHR 0x60, CHR ''('', CHR '')'', CHR ''{'', CHR ''}''} then
        ((seg c r)\<lparr>rd_nested := True\<rparr>, None, cs)
      else if c = CHR ''$'' then read_dollar r c cs
      else if c \<in> {CHR ''*'', CHR ''?'', CHR ''[''} then
        (push_char c ((seg c r)\<lparr>rd_expands := True\<rparr>), None, cs)
      else if c = CHR ''<'' \<or> c = CHR ''>'' then read_redirect r c cs
      else if is_operator c then ((end_segment (end_word r))\<lparr>rd_opaque := True\<rparr>, None, cs)
      else (push_char c (seg c r), None, cs))"

definition read_step :: "reader \<Rightarrow> char option \<Rightarrow> char \<Rightarrow> string \<Rightarrow> reader \<times> char option \<times> string" where
  "read_step r q c cs =
     (case q of
        Some k \<Rightarrow>
          if k = CHR 0x27 then
            (if c = CHR 0x27 then (seg c r, None, cs) else (push_char c (seg c r), q, cs))
          else read_double r c cs
      | None \<Rightarrow> read_bare r c cs)"

lemma read_step_shorter: "length (snd (snd (read_step r q c cs))) \<le> length cs"
proof -
  have "length (snd (snd (read_double r c cs))) \<le> length cs" by (simp add: read_double_def Let_def)
  moreover have "length (snd (snd (read_escape r c cs))) \<le> length cs" for c
    by (cases cs) (simp_all add: read_escape_def Let_def)
  moreover have "length (snd (snd (read_dollar r c cs))) \<le> length cs" for c
    by (simp add: read_dollar_def Let_def)
  moreover have "length (snd (snd (read_redirect r c cs))) \<le> length cs" for c
    by (simp add: read_redirect_def Let_def)
  ultimately show ?thesis
    by (cases q) (simp_all add: read_step_def read_bare_def length_dropWhile_le)
qed

function read_loop :: "reader \<Rightarrow> char option \<Rightarrow> string \<Rightarrow> reader \<times> char option" where
  "read_loop r q [] = (r, q)"
| "read_loop r q (c # cs) = (case read_step r q c cs of (r', q', cs') \<Rightarrow> read_loop r' q' cs')"
  by pat_completeness auto
termination
proof (relation "measure (\<lambda>(r, q, cs). length cs)", goal_cases)
  case (2 r q c cs)
  then show ?case using read_step_shorter [of r q c cs]
    by (cases "read_step r q c cs") (simp add: le_imp_less_Suc)
qed simp

definition unjudgeable :: "reader \<Rightarrow> char option \<Rightarrow> bool" where
  "unjudgeable r q \<longleftrightarrow>
     rd_opaque r \<or> rd_nested r \<or> q \<noteq> None \<or> rd_program_expands r \<or>
     list_ex (\<lambda>w. contains_str ''$('' w \<or> CHR 0x60 \<in> set w) (rd_words r) \<or>
     (case rd_words r of [] \<Rightarrow> True | program # _ \<Rightarrow> is_assignment program \<or> runs_another program)"

definition read_line :: "string \<Rightarrow> shell_line" where
  "read_line line =
     (case read_loop reader_default None line of
        (r, q) \<Rightarrow>
          let r = end_segment (end_word r) in
          \<lparr>ln_simple_commands =
             (if rd_nested r \<or> rd_redirects r \<or> rd_unsplittable r \<or> q \<noteq> None
              then (if trim line = [] then [] else [trim line])
              else rd_segments r),
           ln_plain = (if \<not> unjudgeable r q then Some (rd_words r) else None)\<rparr>)"

definition rule_allows :: "string \<Rightarrow> string list \<Rightarrow> bool" where
  "rule_allows pattern words =
     (case ln_plain (read_line pattern) of
        Some ps \<Rightarrow> ps \<noteq> [] \<and> take (length ps) words = ps
      | None \<Rightarrow> False)"

section \<open>What the shell leaves live\<close>

text \<open>
  The quoting rules of \<open>sh\<close>, on their own: \<open>live q line\<close> lists the characters of a line the
  shell does not take literally, with a gap for what is quoted or escaped. In single quotes
  nothing is live; in double quotes only a dollar and a backquote are, and the parenthesis of a
  command substitution; a backslash before a newline joins the two halves and leaves nothing.
\<close>

function live :: "char option \<Rightarrow> string \<Rightarrow> char option list" where
  "live q [] = []"
| "live q (c # cs) =
     (if q = Some CHR 0x27 then None # live (if c = CHR 0x27 then None else q) cs
      else if q = None then
        (if c = CHR 0x5C then
           (case cs of
              [] \<Rightarrow> [None]
            | n # cs' \<Rightarrow> if n = CHR 0x0A then live q cs' else None # live q cs')
         else if c = CHR 0x27 \<or> c = CHR 0x22 then None # live (Some c) cs
         else Some c # live q cs)
      else if c = CHR 0x22 then None # live None cs
      else if c = CHR 0x5C \<and> cs \<noteq> [] \<and> hd cs \<in> {CHR ''$'', CHR 0x60, CHR 0x22, CHR 0x5C, CHR 0x0A}
      then None # live q (tl cs)
      else if c = CHR 0x60 then Some c # live q cs
      else if c = CHR ''$'' then
        (if cs \<noteq> [] \<and> hd cs = CHR ''('' then Some c # Some CHR ''('' # live q (tl cs)
         else Some c # live q cs)
      else None # live q cs)"
  by pat_completeness auto
termination by (relation "measure (\<lambda>(q, cs). length cs)") auto

declare live.simps(2) [simp del]

text \<open>
  One simple command: among what is live there is no operator, no newline, no bracket or
  backquote, no comment, and no redirection but of one standard stream into another. The flag
  says whether a word may begin here, where a number sign would open a comment.
\<close>

fun calm :: "bool \<Rightarrow> char option list \<Rightarrow> bool" where
  "calm b [] \<longleftrightarrow> True"
| "calm b (None # xs) \<longleftrightarrow> calm False xs"
| "calm b (Some c # xs) \<longleftrightarrow>
     (if c = CHR '' '' \<or> c = CHR 0x09 then calm True xs
      else if c = CHR ''<'' \<or> c = CHR ''>'' then
        (case xs of
           Some a # Some d # ys \<Rightarrow> a = CHR ''&'' \<and> d \<in> {CHR ''0'', CHR ''1'', CHR ''2''} \<and> calm True ys
         | _ \<Rightarrow> False)
      else \<not> is_operator c \<and> c \<notin> {CHR 0x60, CHR ''('', CHR '')'', CHR ''{'', CHR ''}''} \<and>
        (c = CHR ''#'' \<longrightarrow> \<not> b) \<and> calm False xs)"

lemma calm_weaken: "calm True xs \<Longrightarrow> calm b xs"
  by (cases "(b, xs)" rule: calm.cases) (auto split: if_splits)

text \<open>What one turn of the reader has to do with it: unless it gives the line up, what it read
  past was calm if the rest is.\<close>

definition step_keeps :: "reader \<Rightarrow> char option \<Rightarrow> string \<Rightarrow> reader \<times> char option \<times> string \<Rightarrow> bool" where
  "step_keeps r q line res \<longleftrightarrow>
     (case res of (r', q', rest) \<Rightarrow>
        (q' \<noteq> None \<longrightarrow> rd_in_word r') \<and>
        (rd_opaque r \<longrightarrow> rd_opaque r') \<and> (rd_nested r \<longrightarrow> rd_nested r') \<and>
        (rd_opaque r' \<or> rd_nested r' \<or>
         (calm (\<not> rd_in_word r') (live q' rest) \<longrightarrow> calm (\<not> rd_in_word r) (live q line))))"

lemmas reader_simps = seg_def push_char_def end_word_def end_segment_def Let_def

lemma end_word_flags [simp]:
  "rd_opaque (end_word r) = rd_opaque r" "rd_nested (end_word r) = rd_nested r" "\<not> rd_in_word (end_word r)"
  by (simp_all add: reader_simps)

lemma end_segment_flags [simp]:
  "rd_opaque (end_segment r) = rd_opaque r" "rd_nested (end_segment r) = rd_nested r"
  "rd_in_word (end_segment r) = rd_in_word r"
  by (simp_all add: reader_simps)

lemma seg_flags [simp]:
  "rd_opaque (seg c r) = rd_opaque r" "rd_nested (seg c r) = rd_nested r" "rd_in_word (seg c r) = rd_in_word r"
  by (simp_all add: reader_simps)

lemma push_char_flags [simp]:
  "rd_opaque (push_char c r) = rd_opaque r" "rd_nested (push_char c r) = rd_nested r" "rd_in_word (push_char c r)"
  by (simp_all add: reader_simps)

lemma live_plain:
  "c \<noteq> CHR 0x5C \<Longrightarrow> c \<noteq> CHR 0x27 \<Longrightarrow> c \<noteq> CHR 0x22 \<Longrightarrow> live None (c # cs) = Some c # live None cs"
  by (simp add: live.simps(2))

lemma read_double_keeps:
  assumes "rd_in_word r"
  shows "step_keeps r (Some CHR 0x22) (c # cs) (read_double r c cs)"
proof (cases "c = CHR 0x5C \<and> cs \<noteq> [] \<and> hd cs \<in> {CHR ''$'', CHR 0x60, CHR 0x22, CHR 0x5C, CHR 0x0A}")
  case True
  then obtain n cs' where "cs = n # cs'" by (cases cs) auto
  then show ?thesis
    using assms True by (auto simp: step_keeps_def read_double_def Let_def live.simps(2))
next
  case False
  then show ?thesis
    using assms by (cases cs) (auto simp: step_keeps_def read_double_def Let_def live.simps(2) is_operator_def)
qed

lemma read_escape_keeps: "step_keeps r None (CHR 0x5C # cs) (read_escape r CHR 0x5C cs)"
  by (cases cs) (auto simp: step_keeps_def read_escape_def Let_def live.simps(2))

lemma read_dollar_keeps: "step_keeps r None (CHR ''$'' # cs) (read_dollar r CHR ''$'' cs)"
  by (auto simp: step_keeps_def read_dollar_def Let_def live_plain is_operator_def)

lemma read_redirect_keeps:
  assumes "c = CHR ''<'' \<or> c = CHR ''>''"
  shows "step_keeps r None (c # cs) (read_redirect r c cs)"
proof (cases "\<exists>d cs'. cs = CHR ''&'' # d # cs' \<and> d \<in> {CHR ''0'', CHR ''1'', CHR ''2''} \<and>
    length (takeWhile is_ascii_digit (drop 1 cs)) = 1")
  case True
  then obtain d cs' where cs: "cs = CHR ''&'' # d # cs'" and d: "d \<in> {CHR ''0'', CHR ''1'', CHR ''2''}"
    and n: "length (takeWhile is_ascii_digit (drop 1 cs)) = 1" by blast
  have "live None (c # cs) = Some c # Some CHR ''&'' # Some d # live None cs'"
    using assms d unfolding cs by (auto simp: live_plain)
  then show ?thesis
    using assms d n cs by (auto simp: step_keeps_def read_redirect_def Let_def calm_weaken)
next
  case False
  then have "\<not> (cs \<noteq> [] \<and> hd cs = CHR ''&'' \<and> length (takeWhile is_ascii_digit (drop 1 cs)) = 1 \<and>
      drop 1 cs \<noteq> [] \<and> hd (drop 1 cs) \<in> {CHR ''0'', CHR ''1'', CHR ''2''})"
    by (cases cs; cases "drop 1 cs") auto
  then have "read_redirect r c cs = ((seg c r)\<lparr>rd_opaque := True, rd_redirects := True\<rparr>, None, cs)"
    by (auto simp: read_redirect_def Let_def)
  then show ?thesis by (simp add: step_keeps_def)
qed

lemma read_bare_keeps: "step_keeps r None (c # cs) (read_bare r c cs)"
proof -
  consider (blank) "c = CHR '' '' \<or> c = CHR 0x09" | (escape) "c = CHR 0x5C"
    | (quote) "c = CHR 0x27 \<or> c = CHR 0x22" | (comment) "c = CHR ''#''" "\<not> rd_in_word r"
    | (bracket) "c \<in> {CHR 0x60, CHR ''('', CHR '')'', CHR ''{'', CHR ''}''}" | (dollar) "c = CHR ''$''"
    | (wild) "c \<in> {CHR ''*'', CHR ''?'', CHR ''[''}" | (redirect) "c = CHR ''<'' \<or> c = CHR ''>''"
    | (operator) "is_operator c"
    | (other) "\<not> (c = CHR '' '' \<or> c = CHR 0x09)" "c \<noteq> CHR 0x5C" "\<not> (c = CHR 0x27 \<or> c = CHR 0x22)"
        "\<not> (c = CHR ''#'' \<and> \<not> rd_in_word r)" "c \<notin> {CHR 0x60, CHR ''('', CHR '')'', CHR ''{'', CHR ''}''}"
        "c \<noteq> CHR ''$''" "c \<notin> {CHR ''*'', CHR ''?'', CHR ''[''}" "\<not> (c = CHR ''<'' \<or> c = CHR ''>'')"
        "\<not> is_operator c"
    by argo
  then show ?thesis
  proof cases
    case escape
    then show ?thesis using read_escape_keeps by (simp add: read_bare_def)
  next
    case dollar
    then show ?thesis using read_dollar_keeps by (simp add: read_bare_def)
  next
    case redirect
    then have "read_bare r c cs = read_redirect r c cs" by (elim disjE) (simp_all add: read_bare_def)
    then show ?thesis using read_redirect_keeps [OF redirect] by simp
  next
    case quote
    then show ?thesis by (auto simp: read_bare_def step_keeps_def live.simps(2))
  next
    case operator
    then have "c \<notin> {CHR '' '', CHR 0x09, CHR 0x5C, CHR 0x27, CHR 0x22, CHR ''#'', CHR 0x60, CHR ''('', CHR '')'',
        CHR ''{'', CHR ''}'', CHR ''$'', CHR ''*'', CHR ''?'', CHR ''['', CHR ''<'', CHR ''>''}"
      by (auto simp: is_operator_def)
    then show ?thesis using operator by (simp add: read_bare_def step_keeps_def)
  next
    case other
    then show ?thesis by (auto simp: read_bare_def step_keeps_def live_plain)
  next
    case blank
    then show ?thesis by (elim disjE) (simp_all add: read_bare_def step_keeps_def live_plain)
  next
    case comment
    then show ?thesis by (simp add: read_bare_def step_keeps_def)
  next
    case bracket
    then show ?thesis unfolding insert_iff empty_iff
      by (elim disjE) (simp_all add: read_bare_def step_keeps_def)
  next
    case wild
    then show ?thesis unfolding insert_iff empty_iff
      by (elim disjE) (simp_all add: read_bare_def step_keeps_def live_plain is_operator_def)
  qed
qed

lemma read_step_keeps:
  assumes "q = None \<or> q = Some CHR 0x27 \<or> q = Some CHR 0x22" and "q \<noteq> None \<longrightarrow> rd_in_word r"
  shows "step_keeps r q (c # cs) (read_step r q c cs)"
  using assms read_bare_keeps read_double_keeps
  by (auto simp: read_step_def step_keeps_def [of _ "Some CHR 0x27"] live.simps(2))

lemma read_step_quote:
  "q = None \<or> q = Some CHR 0x27 \<or> q = Some CHR 0x22 \<Longrightarrow> read_step r q c cs = (r', q', cs') \<Longrightarrow>
   q' = None \<or> q' = Some CHR 0x27 \<or> q' = Some CHR 0x22"
  by (auto simp: read_step_def read_bare_def read_double_def read_escape_def read_dollar_def
      read_redirect_def Let_def split: if_splits list.splits)

lemma read_loop_calm:
  assumes "read_loop r q cs = (r', q')" and "q = None \<or> q = Some CHR 0x27 \<or> q = Some CHR 0x22"
    and "q \<noteq> None \<longrightarrow> rd_in_word r" and "\<not> rd_opaque r'" and "\<not> rd_nested r'"
  shows "\<not> rd_opaque r \<and> \<not> rd_nested r \<and> calm (\<not> rd_in_word r) (live q cs)"
  using assms(1-3)
proof (induction "length cs" arbitrary: r q cs rule: less_induct)
  case less
  show ?case
  proof (cases cs)
    case Nil
    then show ?thesis using less.prems assms(4,5) by simp
  next
    case (Cons c rest)
    obtain r1 q1 cs1 where step: "read_step r q c rest = (r1, q1, cs1)" by (metis prod_cases3)
    have keeps: "step_keeps r q (c # rest) (r1, q1, cs1)"
      using read_step_keeps [OF less.prems(2,3), of c rest] step by simp
    have loop: "read_loop r1 q1 cs1 = (r', q')" using less.prems(1) Cons step by simp
    have len: "length cs1 < length cs" using read_step_shorter [of r q c rest] step Cons by simp
    have word: "q1 \<noteq> None \<longrightarrow> rd_in_word r1" using keeps by (simp add: step_keeps_def)
    from less.hyps [OF len loop read_step_quote [OF less.prems(2) step] word] keeps Cons
    show ?thesis by (auto simp: step_keeps_def)
  qed
qed

lemma plain_calm:
  assumes "ln_plain (read_line line) = Some ws"
  shows "calm True (live None line)" and "ws \<noteq> []" and "\<not> is_assignment (hd ws)" and "\<not> runs_another (hd ws)"
    and "\<forall>w\<in>set ws. \<not> contains_str ''$('' w \<and> CHR 0x60 \<notin> set w"
proof -
  obtain r q where loop: "read_loop reader_default None line = (r, q)" by fastforce
  let ?r = "end_segment (end_word r)"
  have ok: "\<not> unjudgeable ?r q" "ws = rd_words ?r"
    using assms loop by (auto simp: read_line_def Let_def split: if_splits)
  then have "\<not> rd_opaque r" "\<not> rd_nested r" by (auto simp: unjudgeable_def)
  from read_loop_calm [OF loop _ _ this] show "calm True (live None line)"
    by (simp add: reader_default_def)
  show "ws \<noteq> []" "\<not> is_assignment (hd ws)" "\<not> runs_another (hd ws)"
    "\<forall>w\<in>set ws. \<not> contains_str ''$('' w \<and> CHR 0x60 \<notin> set w"
    using ok by (auto simp: unjudgeable_def list_ex_iff split: list.splits)
qed

end
