(* ===== verification/Shell_Deny.thy ===== *)
theory Shell_Deny
  imports Glob Shell
begin

text \<open>
  The deny side of \<open>opengrok-policy/src/shell.rs\<close>: every command a shell line could run, with
  quotes ignored, and whether a deny rule names one of them. Walking bytes for characters is as
  in the allow side, but for the two places that count or classify whole characters: \<open>glob\<close>,
  and a white space inside a braced expansion. What the code pushes on a stack is the head of a
  list here.
\<close>

definition find_runs :: "string list" where
  "find_runs = [''-exec'', ''-execdir'', ''-ok'', ''-okdir'']"

fun flatten :: "string \<Rightarrow> string" where
  "flatten [] = []"
| "flatten (c # cs) =
     (if c \<in> {CHR 0x27, CHR 0x22, CHR 0x5C} then flatten cs
      else if c = CHR ''$'' \<and> cs \<noteq> [] \<and> hd cs \<in> {CHR 0x27, CHR 0x22} then flatten cs
      else c # flatten cs)"

record shell_word =
  wd_text :: string
  wd_bare :: "string option"
  wd_may_vanish :: bool
  wd_glob :: bool

definition is_glob :: "string \<Rightarrow> bool" where
  "is_glob w \<longleftrightarrow>
     list_ex (\<lambda>c. c \<in> {CHR ''*'', CHR ''?'', CHR ''[''}) w \<and>
     list_ex (\<lambda>c. c \<notin> {CHR ''*'', CHR ''?'', CHR ''['', CHR '']''}) w"

definition word_plain :: "string \<Rightarrow> shell_word" where
  "word_plain w =
     \<lparr>wd_text = w, wd_bare = None, wd_may_vanish = (CHR ''$'' \<in> set w), wd_glob = is_glob w\<rparr>"

definition could_be :: "shell_word \<Rightarrow> string \<Rightarrow> bool" where
  "could_be w program =
     (let name = basename program;
          same = (\<lambda>t. eq_ignore_ascii_case (basename t) name)
      in same (wd_text w) \<or> (case wd_bare w of Some b \<Rightarrow> same b | None \<Rightarrow> False) \<or>
         wd_glob w \<and> glob (basename (wd_text w)) name True)"

definition word_is :: "shell_word \<Rightarrow> string \<Rightarrow> bool" where
  "word_is w arg \<longleftrightarrow> wd_text w = arg \<or> wd_bare w = Some arg \<or> wd_glob w \<and> glob (wd_text w) arg False"

record shell_run =
  sr_words :: "shell_word list"
  sr_every :: bool

text \<open>The loop over the words that may be the program: it ends at the first that cannot vanish.\<close>

fun runs_ahead :: "shell_word list \<Rightarrow> bool" where
  "runs_ahead [] = False"
| "runs_ahead (w # ws) =
     (list_ex (could_be w) (split_whitespace runs_another_text) \<or> wd_may_vanish w \<and> runs_ahead ws)"

lemma runs_ahead_code [code]:
  "runs_ahead [] = False"
  "runs_ahead (w # ws) = (list_ex (could_be w) runs_another_words \<or> wd_may_vanish w \<and> runs_ahead ws)"
  by (simp_all add: split_runs_another)

definition run_new :: "shell_word list \<Rightarrow> bool \<Rightarrow> shell_run option" where
  "run_new ws every =
     (if ws = [] then None
      else Some \<lparr>sr_words = ws,
        sr_every = (every \<or> list_ex (\<lambda>w. wd_text w \<in> set find_runs) ws \<or>
          runs_ahead (filter (\<lambda>w. \<not> is_assignment (wd_text w)) ws))\<rparr>)"

section \<open>Whether a run names a program\<close>

text \<open>What the backward pass knows of the words behind the one it is at.\<close>

record pass =
  ps_row :: "bool list"
  ps_starts_next :: bool
  ps_follows_next :: bool
  ps_follows_after :: bool
  ps_program_next :: bool

definition pass_init :: "nat \<Rightarrow> pass" where
  "pass_init m =
     \<lparr>ps_row = map (\<lambda>k. k = m) [0..<m + 1], ps_starts_next = (m = 0), ps_follows_next = (m = 0),
      ps_follows_after = False, ps_program_next = False\<rparr>"

definition is_option :: "shell_word \<Rightarrow> bool" where
  "is_option w = starts_with ''-'' (wd_text w)"

definition takes_value :: "shell_word \<Rightarrow> shell_word list \<Rightarrow> bool" where
  "takes_value w after \<longleftrightarrow>
     is_option w \<and> CHR ''='' \<notin> set (wd_text w) \<and>
     (case after of value # _ \<Rightarrow> \<not> is_option value | [] \<Rightarrow> False)"

text \<open>One turn of the pass; no state is the early return of true.\<close>

definition pass_word ::
  "bool \<Rightarrow> string \<Rightarrow> string list \<Rightarrow> shell_word \<Rightarrow> shell_word list \<Rightarrow> pass \<Rightarrow> pass option"
where
  "pass_word every program args w after st =
     (let m = length args;
          here = (could_be w program \<and> ps_follows_next st)
      in if here \<and> every then None
         else let skip = (wd_may_vanish w \<or> is_assignment (wd_text w));
                  row = map (\<lambda>k. k = m \<or> (k < m \<and> word_is w (args ! k) \<and> ps_row st ! (k + 1)) \<or>
                               wd_may_vanish w \<and> ps_row st ! k) [0..<m + 1];
                  starts = row ! 0;
                  value = takes_value w after
              in Some \<lparr>ps_row = row, ps_starts_next = starts,
                   ps_follows_next =
                     (starts \<or> wd_may_vanish w \<and> ps_follows_next st \<or>
                      value \<and> (ps_starts_next st \<or> ps_follows_after st) \<or>
                      is_option w \<and> \<not> value \<and> ps_follows_next st),
                   ps_follows_after = ps_follows_next st,
                   ps_program_next = (here \<or> skip \<and> ps_program_next st)\<rparr>)"

fun names_pass :: "bool \<Rightarrow> string \<Rightarrow> string list \<Rightarrow> shell_word list \<Rightarrow> pass option" where
  "names_pass every program args [] = Some (pass_init (length args))"
| "names_pass every program args (w # ws) =
     (case names_pass every program args ws of
        None \<Rightarrow> None
      | Some st \<Rightarrow> pass_word every program args w ws st)"

definition run_names :: "string \<Rightarrow> string list \<Rightarrow> shell_run \<Rightarrow> bool" where
  "run_names program args r =
     (if \<not> list_ex (\<lambda>w. could_be w program) (sr_words r) then False
      else case names_pass (sr_every r) program args (sr_words r) of
        None \<Rightarrow> True
      | Some st \<Rightarrow> ps_program_next st)"

section \<open>Cutting a line into runs\<close>

record cut =
  ct_words :: "shell_word list"
  ct_text :: string
  ct_bare :: string
  ct_in_word :: bool
  ct_expands :: bool
  ct_target :: bool
  ct_every :: bool

definition cut_default :: cut where
  "cut_default =
     \<lparr>ct_words = [], ct_text = [], ct_bare = [], ct_in_word = False, ct_expands = False,
      ct_target = False, ct_every = False\<rparr>"

definition cut_push :: "char \<Rightarrow> bool \<Rightarrow> cut \<Rightarrow> cut" where
  "cut_push c literal k =
     (let k = k\<lparr>ct_text := ct_text k @ [c], ct_in_word := True\<rparr>
      in if literal then k\<lparr>ct_bare := ct_bare k @ [c]\<rparr> else k\<lparr>ct_expands := True\<rparr>)"

definition cut_end_word :: "cut \<Rightarrow> cut" where
  "cut_end_word k =
     (let k = (if ct_in_word k then
                 k\<lparr>ct_words := ct_words k @
                     [\<lparr>wd_text = ct_text k, wd_bare = (if ct_expands k then Some (ct_bare k) else None),
                       wd_may_vanish = (ct_expands k \<or> ct_target k), wd_glob = is_glob (ct_text k)\<rparr>],
                   ct_text := [], ct_bare := [], ct_target := False\<rparr>
               else k)
      in k\<lparr>ct_in_word := False, ct_expands := False\<rparr>)"

text \<open>The inside of \<open>${\<close>, the flag set behind the sign that opens a default.\<close>

fun brace_expansion :: "bool \<Rightarrow> cut \<Rightarrow> string \<Rightarrow> cut \<times> string" where
  "brace_expansion dflt k [] = (k, [])"
| "brace_expansion dflt k (c # cs) =
     (if c = CHR ''}'' then (cut_push c False k, cs)
      else if c \<in> {CHR 0x27, CHR 0x22, CHR 0x5C} then brace_expansion dflt k cs
      else if c \<in> {CHR ''-'', CHR ''='', CHR ''+''} \<and> \<not> dflt then
        brace_expansion True (cut_push c False k) cs
      else if strip_one white_spaces (c # cs) \<noteq> None \<or> is_operator c \<or>
              c \<in> {CHR ''('', CHR '')'', CHR 0x60, CHR ''<'', CHR ''>'', CHR ''{'', CHR ''$''}
      then (k, c # cs)
      else brace_expansion dflt (cut_push c dflt k) cs)"

definition is_name_char :: "char \<Rightarrow> bool" where
  "is_name_char c \<longleftrightarrow> c = CHR ''_'' \<or> is_ascii_alphanumeric c"

definition expansion :: "cut \<Rightarrow> string \<Rightarrow> cut \<times> string" where
  "expansion k cs =
     (case cs of
        [] \<Rightarrow> (cut_push CHR ''$'' True k, [])
      | c # rest \<Rightarrow>
          if c = CHR ''{'' then
            brace_expansion False (cut_push CHR ''{'' False (cut_push CHR ''$'' False k)) rest
          else if is_ascii_digit c \<or> c \<in> set ''@*#?-$!'' then
            (cut_push c False (cut_push CHR ''$'' False k), rest)
          else if c = CHR ''_'' \<or> is_ascii_alphabetic c then
            (foldl (\<lambda>k c. cut_push c False k) (cut_push CHR ''$'' False k) (takeWhile is_name_char cs),
             dropWhile is_name_char cs)
          else (cut_push CHR ''$'' True k, cs))"

definition cut_redirect :: "cut \<Rightarrow> string \<Rightarrow> cut \<times> string" where
  "cut_redirect k cs =
     (let k = (if ct_in_word k \<and> \<not> ct_expands k \<and> list_all is_ascii_digit (ct_text k)
               then k\<lparr>ct_target := True\<rparr> else k);
          k = cut_end_word k;
          taken = length (takeWhile (\<lambda>c. c \<in> {CHR ''<'', CHR ''>'', CHR ''&'', CHR ''|'', CHR ''-''}) (take 2 cs));
          rest = drop taken cs
      in (k\<lparr>ct_target := \<not> (rest \<noteq> [] \<and> hd rest = CHR ''('')\<rparr>, rest))"

record frame =
  fr_close :: char
  fr_depth :: nat
  fr_outer :: cut

record splitter =
  sp_runs :: "shell_run list"
  sp_cut :: cut
  sp_frames :: "frame list"

definition splitter_default :: splitter where
  "splitter_default = \<lparr>sp_runs = [], sp_cut = cut_default, sp_frames = []\<rparr>"

text \<open>\<open>Vec::extend\<close> of an option.\<close>

definition of_option :: "'a option \<Rightarrow> 'a list" where
  "of_option x = (case x of Some y \<Rightarrow> [y] | None \<Rightarrow> [])"

definition end_run :: "splitter \<Rightarrow> splitter" where
  "end_run s =
     (let k = cut_end_word (sp_cut s)
      in s\<lparr>sp_cut := cut_default, sp_runs := sp_runs s @ of_option (run_new (ct_words k) (ct_every k))\<rparr>)"

definition open_frame :: "char \<Rightarrow> splitter \<Rightarrow> splitter" where
  "open_frame close s =
     s\<lparr>sp_cut := cut_default,
       sp_frames := \<lparr>fr_close = close, fr_depth = 0,
         fr_outer = (sp_cut s)\<lparr>ct_in_word := True, ct_expands := True\<rparr>\<rparr> # sp_frames s\<rparr>"

definition close_frame :: "splitter \<Rightarrow> splitter" where
  "close_frame s =
     (case sp_frames s of
        [] \<Rightarrow> s
      | f # fs \<Rightarrow> (end_run (s\<lparr>sp_frames := fs\<rparr>))\<lparr>sp_cut := (fr_outer f)\<lparr>ct_every := True\<rparr>\<rparr>)"

fun finish_frames :: "frame list \<Rightarrow> splitter \<Rightarrow> splitter" where
  "finish_frames [] s = s"
| "finish_frames (f # fs) s = finish_frames fs (end_run (s\<lparr>sp_cut := fr_outer f, sp_frames := fs\<rparr>))"

definition finish_split :: "splitter \<Rightarrow> shell_run list" where
  "finish_split s = (let s = end_run s in sp_runs (finish_frames (sp_frames s) s))"

definition closes :: "char \<Rightarrow> splitter \<Rightarrow> bool" where
  "closes close s =
     (case sp_frames s of
        [] \<Rightarrow> False
      | f # _ \<Rightarrow> fr_close f = close \<and> (close = CHR 0x60 \<or> fr_depth f = 0))"

definition nest :: "char \<Rightarrow> splitter \<Rightarrow> splitter" where
  "nest c s =
     end_run (case sp_frames s of
        [] \<Rightarrow> s
      | f # fs \<Rightarrow>
          s\<lparr>sp_frames :=
             f\<lparr>fr_depth := (if c = CHR ''('' then fr_depth f + 1 else fr_depth f - 1)\<rparr> # fs\<rparr>)"

definition on_cut :: "(cut \<Rightarrow> cut \<times> string) \<Rightarrow> splitter \<Rightarrow> splitter \<times> string" where
  "on_cut f s = (case f (sp_cut s) of (k, rest) \<Rightarrow> (s\<lparr>sp_cut := k\<rparr>, rest))"

definition split_step :: "splitter \<Rightarrow> char \<Rightarrow> string \<Rightarrow> splitter \<times> string" where
  "split_step s c cs =
     (let next = (case cs of [] \<Rightarrow> None | n # _ \<Rightarrow> Some n) in
      if c \<in> {CHR 0x27, CHR 0x22, CHR 0x5C} then (s, cs)
      else if c = CHR ''$'' then
        (if next \<in> {Some CHR 0x27, Some CHR 0x22} then (s, cs)
         else if next = Some CHR ''('' then (open_frame CHR '')'' s, tl cs)
         else on_cut (\<lambda>k. expansion k cs) s)
      else if c = CHR 0x60 then (if closes CHR 0x60 s then close_frame s else open_frame CHR 0x60 s, cs)
      else if c = CHR '')'' \<and> closes CHR '')'' s then (close_frame s, cs)
      else if c = CHR ''('' \<or> c = CHR '')'' then (nest c s, cs)
      else if c = CHR '' '' \<or> c = CHR 0x09 then on_cut (\<lambda>k. (cut_end_word k, cs)) s
      else if c = CHR ''<'' \<or> c = CHR ''>'' then on_cut (\<lambda>k. cut_redirect k cs) s
      else if c = CHR ''&'' \<and> next = Some CHR ''>'' then on_cut (\<lambda>k. cut_redirect k cs) s
      else if is_operator c \<or> c = CHR ''{'' \<or> c = CHR ''}'' then (end_run s, cs)
      else on_cut (\<lambda>k. (cut_push c True k, cs)) s)"

lemma brace_expansion_shorter: "length (snd (brace_expansion d k cs)) \<le> length cs"
proof (induction cs arbitrary: d k)
  case (Cons c cs)
  have "length (snd (brace_expansion d' k' cs)) \<le> Suc (length cs)" for d' k'
    using Cons [of d' k'] by simp
  then show ?case by (simp del: insert_iff)
qed simp

lemma expansion_shorter: "length (snd (expansion k cs)) \<le> length cs"
proof (cases cs)
  case (Cons c rest)
  have "length (snd (brace_expansion False k' rest)) \<le> Suc (length rest)" for k'
    using brace_expansion_shorter [of False k' rest] by simp
  then show ?thesis using Cons length_dropWhile_le [of is_name_char cs] by (simp add: expansion_def)
qed (simp add: expansion_def)

lemma split_step_shorter: "length (snd (split_step s c cs)) \<le> length cs"
proof -
  have on: "length (snd (on_cut f s)) \<le> length cs" if "\<And>k. length (snd (f k)) \<le> length cs" for f
    using that [of "sp_cut s"] by (cases "f (sp_cut s)") (simp add: on_cut_def)
  have "length (snd (cut_redirect k cs)) \<le> length cs" for k by (simp add: cut_redirect_def Let_def)
  then show ?thesis by (simp add: split_step_def Let_def on expansion_shorter)
qed

function split_loop :: "splitter \<Rightarrow> string \<Rightarrow> splitter" where
  "split_loop s [] = s"
| "split_loop s (c # cs) = (case split_step s c cs of (s', cs') \<Rightarrow> split_loop s' cs')"
  by pat_completeness auto
termination
proof (relation "measure (\<lambda>(s, cs). length cs)", goal_cases)
  case (2 s c cs)
  then show ?case using split_step_shorter [of s c cs]
    by (cases "split_step s c cs") (simp add: le_imp_less_Suc)
qed simp

definition split_runs :: "string \<Rightarrow> shell_run list" where
  "split_runs line = finish_split (split_loop splitter_default line)"

text \<open>\<open>replace("\\\n", "")\<close>.\<close>

fun join_lines :: "string \<Rightarrow> string" where
  "join_lines [] = []"
| "join_lines [c] = [c]"
| "join_lines (c # d # cs) =
     (if c = CHR 0x5C \<and> d = CHR 0x0A then join_lines cs else c # join_lines (d # cs))"

definition programs :: "string \<Rightarrow> string list option \<Rightarrow> shell_run list" where
  "programs line plain =
     split_runs (join_lines line) @
     (if contains_str [CHR 0x5C, CHR 0x0A] line then split_runs line else []) @
     (case plain of
        Some words \<Rightarrow> of_option (run_new (map word_plain words) False)
      | None \<Rightarrow> [])"

definition rule_denies :: "string \<Rightarrow> shell_run list \<Rightarrow> bool" where
  "rule_denies pattern runs =
     (case split_whitespace (flatten (join_lines pattern)) of
        program # args \<Rightarrow> list_ex (run_names program args) runs
      | [] \<Rightarrow> False)"

section \<open>What it means for a run to name a program\<close>

text \<open>The words begin with the arguments, but for words that may vanish.\<close>

fun begins_with :: "shell_word list \<Rightarrow> string list \<Rightarrow> bool" where
  "begins_with ws [] \<longleftrightarrow> True"
| "begins_with [] (a # args) \<longleftrightarrow> False"
| "begins_with (w # ws) (a # args) \<longleftrightarrow>
     word_is w a \<and> begins_with ws args \<or> wd_may_vanish w \<and> begins_with ws (a # args)"

text \<open>The arguments come after options, an option's value with it, and after words that may vanish.\<close>

fun args_follow :: "shell_word list \<Rightarrow> string list \<Rightarrow> bool" where
  "args_follow [] args \<longleftrightarrow> args = []"
| "args_follow (w # ws) args \<longleftrightarrow>
     begins_with (w # ws) args \<or>
     wd_may_vanish w \<and> args_follow ws args \<or>
     (if takes_value w ws then begins_with ws args \<or> (case ws of _ # ws' \<Rightarrow> args_follow ws' args | [] \<Rightarrow> False)
      else is_option w \<and> args_follow ws args)"

text \<open>A run names a program with arguments if one of its words could be the program, its arguments
  follow, and either every word of the run may be a program, or all before it may be passed over.\<close>

definition names_program :: "shell_run \<Rightarrow> string \<Rightarrow> string list \<Rightarrow> bool" where
  "names_program r program args \<longleftrightarrow>
     (\<exists>us w vs. sr_words r = us @ w # vs \<and> could_be w program \<and> args_follow vs args \<and>
        (sr_every r \<or> list_all (\<lambda>u. wd_may_vanish u \<or> is_assignment (wd_text u)) us))"

fun program_first :: "shell_word list \<Rightarrow> string \<Rightarrow> string list \<Rightarrow> bool" where
  "program_first [] program args \<longleftrightarrow> False"
| "program_first (w # ws) program args \<longleftrightarrow>
     could_be w program \<and> args_follow ws args \<or>
     (wd_may_vanish w \<or> is_assignment (wd_text w)) \<and> program_first ws program args"

fun program_somewhere :: "shell_word list \<Rightarrow> string \<Rightarrow> string list \<Rightarrow> bool" where
  "program_somewhere [] program args \<longleftrightarrow> False"
| "program_somewhere (w # ws) program args \<longleftrightarrow>
     could_be w program \<and> args_follow ws args \<or> program_somewhere ws program args"

text \<open>A place in a list is its head or a place in its tail.\<close>

lemma ex_place_Cons:
  "(\<exists>us w vs. x # ws = us @ w # vs \<and> P us w vs) \<longleftrightarrow>
   P [] x ws \<or> (\<exists>us w vs. ws = us @ w # vs \<and> P (x # us) w vs)"
  by (metis append_Cons append_Nil list.inject neq_Nil_conv)

lemma program_first_iff:
  "program_first ws program args \<longleftrightarrow>
   (\<exists>us w vs. ws = us @ w # vs \<and> could_be w program \<and> args_follow vs args \<and>
      list_all (\<lambda>u. wd_may_vanish u \<or> is_assignment (wd_text u)) us)"
proof (induction ws)
  case (Cons x ws)
  show ?case unfolding program_first.simps Cons ex_place_Cons by auto
qed simp

lemma program_somewhere_iff:
  "program_somewhere ws program args \<longleftrightarrow>
   (\<exists>us w vs. ws = us @ w # vs \<and> could_be w program \<and> args_follow vs args)"
proof (induction ws)
  case (Cons x ws)
  show ?case unfolding program_somewhere.simps Cons ex_place_Cons by simp
qed simp

section \<open>The backward pass is that meaning\<close>

definition pass_means :: "shell_word list \<Rightarrow> string \<Rightarrow> string list \<Rightarrow> pass \<Rightarrow> bool" where
  "pass_means ws program args st \<longleftrightarrow>
     length (ps_row st) = length args + 1 \<and>
     (\<forall>k\<le>length args. ps_row st ! k = begins_with ws (drop k args)) \<and>
     ps_starts_next st = begins_with ws args \<and>
     ps_follows_next st = args_follow ws args \<and>
     ps_follows_after st = (case ws of _ # ws' \<Rightarrow> args_follow ws' args | [] \<Rightarrow> False) \<and>
     ps_program_next st = program_first ws program args"

lemma pass_init_means: "pass_means [] program args (pass_init (length args))"
proof -
  have "begins_with [] xs \<longleftrightarrow> xs = []" for xs by (cases xs) auto
  then show ?thesis by (auto simp: pass_means_def pass_init_def nth_append)
qed

lemma begins_with_row:
  assumes "k \<le> length args"
  shows "begins_with (w # ws) (drop k args) \<longleftrightarrow>
    k = length args \<or> k < length args \<and> word_is w (args ! k) \<and> begins_with ws (drop (k + 1) args) \<or>
    wd_may_vanish w \<and> begins_with ws (drop k args)"
proof (cases "k = length args")
  case False
  then have "drop k args = args ! k # drop (k + 1) args" using assms by (simp add: Cons_nth_drop_Suc)
  then show ?thesis using False assms by simp
qed simp

lemma pass_word_means:
  assumes "pass_means ws program args st"
  shows "pass_word every program args w ws st =
      (if every \<and> could_be w program \<and> args_follow ws args then None
       else Some (the (pass_word every program args w ws st)))"
    and "\<not> (every \<and> could_be w program \<and> args_follow ws args) \<Longrightarrow>
      pass_means (w # ws) program args (the (pass_word every program args w ws st))"
proof -
  let ?row = "map (\<lambda>k. k = length args \<or> (k < length args \<and> word_is w (args ! k) \<and> ps_row st ! (k + 1)) \<or>
    wd_may_vanish w \<and> ps_row st ! k) [0..<length args + 1]"
  have row: "?row ! k = begins_with (w # ws) (drop k args)" if "k \<le> length args" for k
  proof -
    have "?row ! k = (k = length args \<or> (k < length args \<and> word_is w (args ! k) \<and> ps_row st ! (k + 1)) \<or>
        wd_may_vanish w \<and> ps_row st ! k)"
      using that by (simp del: upt_Suc)
    also have "\<dots> = begins_with (w # ws) (drop k args)"
      using assms that unfolding begins_with_row [OF that] pass_means_def by auto
    finally show ?thesis .
  qed
  have follows: "ps_follows_next st = args_follow ws args" using assms by (simp add: pass_means_def)
  show "pass_word every program args w ws st =
      (if every \<and> could_be w program \<and> args_follow ws args then None
       else Some (the (pass_word every program args w ws st)))"
    using follows by (simp add: pass_word_def Let_def)
  assume "\<not> (every \<and> could_be w program \<and> args_follow ws args)"
  then show "pass_means (w # ws) program args (the (pass_word every program args w ws st))"
    using follows row row [of 0] assms
    by (auto simp: pass_word_def Let_def pass_means_def simp del: upt_Suc begins_with.simps(3))
qed

lemma names_pass_means:
  "(if every \<and> program_somewhere ws program args then names_pass every program args ws = None
    else \<exists>st. names_pass every program args ws = Some st \<and> pass_means ws program args st)"
proof (induction ws)
  case Nil
  then show ?case using pass_init_means by simp
next
  case (Cons w ws)
  show ?case
  proof (cases "every \<and> program_somewhere ws program args")
    case False
    then obtain st where st: "names_pass every program args ws = Some st" "pass_means ws program args st"
      using Cons by auto
    show ?thesis
      using pass_word_means [OF st(2), of every w] st(1) False by (auto split: if_splits)
  qed (use Cons in simp)
qed

lemma program_first_somewhere: "program_first ws program args \<Longrightarrow> program_somewhere ws program args"
  by (induction ws) auto

lemma program_somewhere_could_be: "program_somewhere ws program args \<Longrightarrow> list_ex (\<lambda>w. could_be w program) ws"
  by (induction ws) auto

lemma run_names_iff: "run_names program args r \<longleftrightarrow> names_program r program args"
proof -
  have "run_names program args r \<longleftrightarrow>
      (if sr_every r then program_somewhere (sr_words r) program args
       else program_first (sr_words r) program args)"
    using names_pass_means [of "sr_every r" "sr_words r" program args]
      program_somewhere_could_be [of "sr_words r" program args]
      program_first_somewhere [of "sr_words r" program args]
    by (auto simp: run_names_def pass_means_def split: if_splits)
  then show ?thesis
    unfolding names_program_def program_first_iff program_somewhere_iff by auto
qed

section \<open>Properties\<close>

text \<open>The one backward pass over a command's words answers exactly what it is meant to. For
  every run, program and arguments, \<open>names\<close> says yes exactly when some word of the run could be
  the program, its arguments follow it, past options and their values and past words the shell
  may leave out, and the word stands where a program may: anywhere in a run that runs another
  program, and otherwise behind nothing but assignments and words that may vanish.\<close>

theorem names_is_its_meaning: "run_names program args r \<longleftrightarrow> names_program r program args"
  by (rule run_names_iff)

end
