(* ===== verification/Local_Exec.thy ===== *)
theory Local_Exec
  imports Shell_Deny Vocabulary
begin

text \<open>
  \<open>opengrok-policy/src/local_exec.rs\<close>: the gate of the channel that runs commands on a
  person's own machine, over the two readers of a shell line; and \<open>egress.rs\<close>, the standing
  answer for the use of a person's network. What a refusal says is its case here, with what the
  sentence is filled with. A policy's field is the source's behind \<open>le_\<close>.
\<close>

datatype local_exec_mode = NeverMode | AskMode | BypassMode

definition local_exec_mode_from_stored :: "string \<Rightarrow> local_exec_mode" where
  "local_exec_mode_from_stored w =
     (if w = ''ask'' then AskMode else if w = ''bypass'' then BypassMode else NeverMode)"

fun local_exec_mode_as_stored :: "local_exec_mode \<Rightarrow> string" where
  "local_exec_mode_as_stored NeverMode = ''never''"
| "local_exec_mode_as_stored AskMode = ''ask''"
| "local_exec_mode_as_stored BypassMode = ''bypass''"

interpretation local_exec_mode_code:
  word_code local_exec_mode_as_stored "\<lambda>w. Some (local_exec_mode_from_stored w)"
proof unfold_locales
  show "Some (local_exec_mode_from_stored (local_exec_mode_as_stored x)) = Some x" for x
    by (cases x) (simp_all add: local_exec_mode_from_stored_def)
qed

record local_exec_policy =
  le_mode :: local_exec_mode
  le_allow :: "string list"
  le_deny :: "string list"
  le_session_allow :: "string list"

definition local_exec_policy_default :: local_exec_policy where
  "local_exec_policy_default = \<lparr>le_mode = NeverMode, le_allow = [], le_deny = [], le_session_allow = []\<rparr>"

datatype deny_why = ChannelOff | TooLongToRead nat | DeniedByARule

datatype local_exec_decision = RunIt | RefuseIt deny_why "string option" | AskAPerson

definition matches_raw :: "string \<Rightarrow> string \<Rightarrow> bool" where
  "matches_raw pattern command =
     (let p = trim pattern; c = trim command
      in if p = [] then False else c = p \<or> starts_with (p @ '' '') c)"

text \<open>\<open>rsplit(['/', '\\']).next()\<close>: what follows the last of either.\<close>

definition after_slashes :: "string \<Rightarrow> string" where
  "after_slashes token = rev (takeWhile (\<lambda>c. c \<noteq> CHR ''/'' \<and> c \<noteq> CHR 0x5C) (rev token))"

definition first_command :: "string \<Rightarrow> string" where
  "first_command pattern =
     after_slashes (case split_whitespace pattern of [] \<Rightarrow> [] | token # _ \<Rightarrow> token)"

datatype standing_refusal = SudoStanding | NotOnePlainCommand

definition standing_rule_refusal :: "string \<Rightarrow> string \<Rightarrow> standing_refusal option" where
  "standing_rule_refusal kind pattern =
     (if kind \<noteq> ''allow'' then None
      else let command = first_command pattern in
        if eq_ignore_ascii_case command ''sudo'' \<or> eq_ignore_ascii_case command ''sudo.exe''
        then Some SudoStanding
        else if ln_plain (read_line pattern) = None then Some NotOnePlainCommand
        else None)"

definition max_judged_bytes :: nat where
  "max_judged_bytes = 64 * 1024"

text \<open>The first deny rule that names the line, and whether an allow rule covers it.\<close>

definition denied_by :: "local_exec_policy \<Rightarrow> string \<Rightarrow> shell_line \<Rightarrow> string option" where
  "denied_by policy command line =
     (if le_deny policy = [] then None
      else let runs = programs command (ln_plain line)
           in find (\<lambda>pattern. matches_raw pattern command \<or> rule_denies pattern runs) (le_deny policy))"

definition allowed_by :: "local_exec_policy \<Rightarrow> shell_line \<Rightarrow> bool" where
  "allowed_by policy line =
     (case ln_plain line of
        Some words \<Rightarrow> list_ex (\<lambda>pattern. rule_allows pattern words) (le_allow policy @ le_session_allow policy)
      | None \<Rightarrow> False)"

definition local_exec_decide :: "local_exec_policy \<Rightarrow> string \<Rightarrow> local_exec_decision" where
  "local_exec_decide policy command =
     (case le_mode policy of
        NeverMode \<Rightarrow> RefuseIt ChannelOff None
      | BypassMode \<Rightarrow> RunIt
      | AskMode \<Rightarrow>
          if length command > max_judged_bytes then RefuseIt (TooLongToRead (length command)) None
          else let line = read_line command in
            case denied_by policy command line of
              Some pattern \<Rightarrow> RefuseIt DeniedByARule (Some (trim pattern))
            | None \<Rightarrow> if allowed_by policy line then RunIt else AskAPerson)"

definition simple_commands :: "string \<Rightarrow> string list" where
  "simple_commands line = ln_simple_commands (read_line line)"

section \<open>Egress\<close>

datatype egress_tunnel_mode = TunnelOff | TunnelOn | AskTheBoxAfterWake

datatype egress_policy = EgressAlways | EgressAsk | EgressNever

definition egress_policy_from_stored :: "string \<Rightarrow> egress_policy" where
  "egress_policy_from_stored w =
     (if w = ''bypass'' then EgressAlways else if w = ''never'' then EgressNever else EgressAsk)"

fun egress_policy_as_stored :: "egress_policy \<Rightarrow> string" where
  "egress_policy_as_stored EgressAlways = ''bypass''"
| "egress_policy_as_stored EgressAsk = ''ask''"
| "egress_policy_as_stored EgressNever = ''never''"

definition egress_policy_is_valid :: "string \<Rightarrow> bool" where
  "egress_policy_is_valid w \<longleftrightarrow> w = ''bypass'' \<or> w = ''ask'' \<or> w = ''never''"

text \<open>The words that are valid are exactly those that are written, and they are read strictly.\<close>

interpretation egress_code: strict_word_code egress_policy_as_stored
  "\<lambda>w. if egress_policy_is_valid w then Some (egress_policy_from_stored w) else None"
proof unfold_locales
  show "(if egress_policy_is_valid (egress_policy_as_stored x)
         then Some (egress_policy_from_stored (egress_policy_as_stored x)) else None) = Some x" for x
    by (cases x) (simp_all add: egress_policy_is_valid_def egress_policy_from_stored_def)
  show "(if egress_policy_is_valid w then Some (egress_policy_from_stored w) else None) = Some x \<Longrightarrow>
      w = egress_policy_as_stored x" for w x
    by (auto simp: egress_policy_is_valid_def egress_policy_from_stored_def split: if_splits)
qed

section \<open>What the gate rests on\<close>

lemma rule_allows_iff:
  "rule_allows pattern words \<longleftrightarrow>
   (\<exists>ps more. ln_plain (read_line pattern) = Some ps \<and> ps \<noteq> [] \<and> words = ps @ more)"
  by (auto simp: rule_allows_def split: option.splits) (metis append_take_drop_id)

text \<open>The line a rule can run unasked is read by the deny side as the allow side read it.\<close>

lemma denies_plain:
  assumes "split_whitespace (flatten (join_lines pattern)) = program # args" and "ws \<noteq> []"
    and "names_program (the (run_new (map word_plain ws) False)) program args"
  shows "rule_denies pattern (programs line (Some ws))"
proof -
  have "run_new (map word_plain ws) False = Some (the (run_new (map word_plain ws) False))"
    using assms(2) by (simp add: run_new_def)
  then have "the (run_new (map word_plain ws) False) \<in> set (programs line (Some ws))"
    by (cases "run_new (map word_plain ws) False") (simp_all add: programs_def of_option_def)
  moreover have "run_names program args (the (run_new (map word_plain ws) False))"
    using assms(3) by (simp add: run_names_iff)
  ultimately show ?thesis
    unfolding rule_denies_def assms(1) by (auto simp: list_ex_iff)
qed

lemma denied_by_None:
  "denied_by p c line = None \<longleftrightarrow>
   (\<forall>d\<in>set (le_deny p). \<not> matches_raw d c \<and> \<not> rule_denies d (programs c (ln_plain line)))"
  by (auto simp: denied_by_def Let_def find_None_iff)

lemma gate_runs_iff:
  "local_exec_decide p c = RunIt \<longleftrightarrow>
   le_mode p = BypassMode \<or>
   le_mode p = AskMode \<and> length c \<le> max_judged_bytes \<and> denied_by p c (read_line c) = None \<and>
   allowed_by p (read_line c)"
  by (auto simp: local_exec_decide_def Let_def split: local_exec_mode.splits option.splits)

lemma gate_refuses_iff:
  "(\<exists>r. local_exec_decide p c = RefuseIt w r) \<longleftrightarrow>
   le_mode p = NeverMode \<and> w = ChannelOff \<or>
   le_mode p = AskMode \<and>
     (length c > max_judged_bytes \<and> w = TooLongToRead (length c) \<or>
      length c \<le> max_judged_bytes \<and> denied_by p c (read_line c) \<noteq> None \<and> w = DeniedByARule)"
  by (auto simp: local_exec_decide_def Let_def split: local_exec_mode.splits option.splits)

section \<open>Properties\<close>

text \<open>C10: what runs on a person's machine unasked is one command they vouched for. Unless the
  person switched the lists off, a line that runs is within what the gate reads, is one simple
  command by the shell's own quoting, with no live operator, newline, substitution, comment or
  redirection to a path, whose program is no assignment and runs no other; the words of an allow
  rule begin its words; and no deny rule matches the line, or names any command in it, or names
  the words the allow side read.\<close>

theorem unasked_runs_are_vouched:
  assumes "le_mode p \<noteq> BypassMode" and "local_exec_decide p c = RunIt"
  shows "length c \<le> 65536 \<and> calm True (live None c) \<and>
    (\<exists>ws. ln_plain (read_line c) = Some ws \<and> \<not> is_assignment (hd ws) \<and> \<not> runs_another (hd ws) \<and>
      (\<exists>pattern\<in>set (le_allow p @ le_session_allow p). \<exists>ps more.
         ln_plain (read_line pattern) = Some ps \<and> ps \<noteq> [] \<and> ws = ps @ more) \<and>
      (\<forall>d\<in>set (le_deny p). \<not> matches_raw d c \<and> \<not> rule_denies d (programs c (Some ws)) \<and>
         (\<forall>program args. split_whitespace (flatten (join_lines d)) = program # args \<longrightarrow>
            \<not> names_program (the (run_new (map word_plain ws) False)) program args)))"
proof -
  have len: "length c \<le> 65536" and den: "denied_by p c (read_line c) = None" and al: "allowed_by p (read_line c)"
    using assms by (auto simp: gate_runs_iff max_judged_bytes_def)
  obtain ws where ws: "ln_plain (read_line c) = Some ws"
    using al by (auto simp: allowed_by_def split: option.splits)
  note calm = plain_calm [OF ws]
  have "\<exists>pattern\<in>set (le_allow p @ le_session_allow p). rule_allows pattern ws"
    using al ws unfolding allowed_by_def by (simp add: list_ex_iff)
  moreover have "\<forall>d\<in>set (le_deny p). \<not> matches_raw d c \<and> \<not> rule_denies d (programs c (Some ws))"
    using den ws by (simp add: denied_by_None)
  moreover have "\<not> names_program (the (run_new (map word_plain ws) False)) program args"
    if "d \<in> set (le_deny p)" "split_whitespace (flatten (join_lines d)) = program # args" for d program args
    using denies_plain [OF that(2) calm(2)] calculation(2) that(1) by blast
  ultimately show ?thesis using len calm(1,3,4) ws unfolding rule_allows_iff by blast
qed

definition sample_policy :: local_exec_policy where
  "sample_policy =
     \<lparr>le_mode = AskMode, le_allow = [''git status''], le_deny = [], le_session_allow = []\<rparr>"

theorem unasked_runs_are_vouched_witness:
  "local_exec_decide sample_policy ''git  status --short'' = RunIt \<and> le_mode sample_policy \<noteq> BypassMode \<and>
   calm True (live None ''git  status --short'')"
proof -
  have "denied_by sample_policy ''git  status --short'' (read_line ''git  status --short'') = None"
    "allowed_by sample_policy (read_line ''git  status --short'')" "le_mode sample_policy = AskMode"
    by code_simp+
  then have run: "local_exec_decide sample_policy ''git  status --short'' = RunIt"
    unfolding gate_runs_iff max_judged_bytes_def by simp
  have mode: "le_mode sample_policy \<noteq> BypassMode" by code_simp
  from unasked_runs_are_vouched [OF mode run] run mode show ?thesis by simp
qed

text \<open>Deny always wins. With the channel in the same mode, a policy with more deny rules and
  fewer allow rules runs nothing the other would not, and what a policy refuses stays refused,
  for the same reason, whatever allow rules are added and whatever deny rules.\<close>

theorem deny_always_wins:
  assumes "le_mode q = le_mode p" and "set (le_deny p) \<subseteq> set (le_deny q)"
  shows "(set (le_allow q @ le_session_allow q) \<subseteq> set (le_allow p @ le_session_allow p) \<longrightarrow>
      local_exec_decide q c = RunIt \<longrightarrow> local_exec_decide p c = RunIt) \<and>
    (local_exec_decide p c = RefuseIt w r \<longrightarrow> (\<exists>r'. local_exec_decide q c = RefuseIt w r'))"
proof -
  have den: "denied_by q c (read_line c) = None \<Longrightarrow> denied_by p c (read_line c) = None"
    using assms(2) by (auto simp: denied_by_None)
  have "set (le_allow q @ le_session_allow q) \<subseteq> set (le_allow p @ le_session_allow p) \<Longrightarrow>
      allowed_by q (read_line c) \<Longrightarrow> allowed_by p (read_line c)"
    by (auto simp: allowed_by_def list_ex_iff split: option.splits)
  moreover have "local_exec_decide p c = RefuseIt w r \<Longrightarrow> \<exists>r'. local_exec_decide q c = RefuseIt w r'"
    using gate_refuses_iff [of p c w] gate_refuses_iff [of q c w] den assms(1) by auto
  ultimately show ?thesis using den assms(1) by (auto simp: gate_runs_iff)
qed

theorem deny_always_wins_witness:
  "\<exists>r. local_exec_decide (sample_policy\<lparr>le_deny := [''rm''], le_allow := [''rm'']\<rparr>) ''rm x'' = RefuseIt DeniedByARule r"
proof -
  let ?p = "sample_policy\<lparr>le_deny := [''rm'']\<rparr>"
  have "matches_raw ''rm'' ''rm x''" by code_simp
  then have "denied_by ?p ''rm x'' (read_line ''rm x'') \<noteq> None" unfolding denied_by_None by simp
  then obtain r where "local_exec_decide ?p ''rm x'' = RefuseIt DeniedByARule r"
    using gate_refuses_iff [of ?p "''rm x''" DeniedByARule]
    by (auto simp: sample_policy_def max_judged_bytes_def)
  then show ?thesis
    using deny_always_wins [of "?p\<lparr>le_allow := [''rm'']\<rparr>" ?p "''rm x''" DeniedByARule r] by simp
qed

text \<open>An allow rule that may be stored is never inert and never \<open>sudo\<close>. A pattern accepted as
  a standing allow does not begin with \<open>sudo\<close> or \<open>sudo.exe\<close>, in any case and behind any path,
  reads as one plain command, and, once stored, runs that very command unasked wherever the
  gate reads it and no deny rule refuses it; a deny rule may always be stored.\<close>

theorem standing_allow_is_live:
  assumes "standing_rule_refusal kind pattern = None"
  shows "kind = ''allow'' \<longrightarrow>
    \<not> eq_ignore_ascii_case (first_command pattern) ''sudo'' \<and>
    \<not> eq_ignore_ascii_case (first_command pattern) ''sudo.exe'' \<and>
    calm True (live None pattern) \<and>
    (le_mode p = AskMode \<and> pattern \<in> set (le_allow p) \<and> length pattern \<le> 65536 \<and>
       denied_by p pattern (read_line pattern) = None \<longrightarrow> local_exec_decide p pattern = RunIt)"
proof
  assume "kind = ''allow''"
  then have ok: "\<not> eq_ignore_ascii_case (first_command pattern) ''sudo''"
    "\<not> eq_ignore_ascii_case (first_command pattern) ''sudo.exe''" "ln_plain (read_line pattern) \<noteq> None"
    using assms by (auto simp: standing_rule_refusal_def Let_def split: if_splits)
  then obtain ws where ws: "ln_plain (read_line pattern) = Some ws" by blast
  note calm = plain_calm [OF ws]
  have "rule_allows pattern ws" using ws calm(2) by (auto simp: rule_allows_iff)
  then have "pattern \<in> set (le_allow p) \<Longrightarrow> allowed_by p (read_line pattern)"
    using ws by (auto simp: allowed_by_def list_ex_iff)
  then show "\<not> eq_ignore_ascii_case (first_command pattern) ''sudo'' \<and>
    \<not> eq_ignore_ascii_case (first_command pattern) ''sudo.exe'' \<and>
    calm True (live None pattern) \<and>
    (le_mode p = AskMode \<and> pattern \<in> set (le_allow p) \<and> length pattern \<le> 65536 \<and>
       denied_by p pattern (read_line pattern) = None \<longrightarrow> local_exec_decide p pattern = RunIt)"
    using ok calm(1) by (simp add: gate_runs_iff max_judged_bytes_def)
qed

theorem standing_allow_is_live_witness:
  "standing_rule_refusal ''allow'' ''git status'' = None \<and>
   local_exec_decide sample_policy ''git status'' = RunIt"
proof -
  have ok: "standing_rule_refusal ''allow'' ''git status'' = None" by code_simp
  have "le_mode sample_policy = AskMode" "''git status'' \<in> set (le_allow sample_policy)"
    by (simp_all add: sample_policy_def)
  moreover have "denied_by sample_policy ''git status'' (read_line ''git status'') = None" by code_simp
  ultimately show ?thesis using standing_allow_is_live [OF ok] ok by simp
qed

end
