(* ===== verification/Agui.thy ===== *)
theory Agui
  imports Json
begin

text \<open>
  The AG-UI protocol (\<open>opengrok-wire/src/agui.rs\<close>): the event types and the words the wire
  spells them with, the envelope every event shares, and what a client sends. An event's own
  fields are \<open>extra\<close>, members in insertion order.
\<close>

datatype event_type =
    EvTextMessageStart | EvTextMessageContent | EvTextMessageEnd | EvTextMessageChunk
  | EvToolCallStart | EvToolCallArgs | EvToolCallEnd | EvToolCallChunk
  | EvToolCallResult | EvThinkingStart | EvThinkingEnd | EvThinkingTextMessageStart
  | EvThinkingTextMessageContent | EvThinkingTextMessageEnd | EvStateSnapshot | EvStateDelta
  | EvMessagesSnapshot | EvActivitySnapshot | EvActivityDelta | EvRaw
  | EvCustom | EvRunStarted | EvRunFinished | EvRunError
  | EvStepStarted | EvStepFinished | EvReasoningStart | EvReasoningMessageStart
  | EvReasoningMessageContent | EvReasoningMessageEnd | EvReasoningMessageChunk | EvReasoningEnd
  | EvReasoningEncryptedValue

fun event_word :: "event_type \<Rightarrow> string" where
  "event_word EvTextMessageStart = ''TEXT_MESSAGE_START''"
| "event_word EvTextMessageContent = ''TEXT_MESSAGE_CONTENT''"
| "event_word EvTextMessageEnd = ''TEXT_MESSAGE_END''"
| "event_word EvTextMessageChunk = ''TEXT_MESSAGE_CHUNK''"
| "event_word EvToolCallStart = ''TOOL_CALL_START''"
| "event_word EvToolCallArgs = ''TOOL_CALL_ARGS''"
| "event_word EvToolCallEnd = ''TOOL_CALL_END''"
| "event_word EvToolCallChunk = ''TOOL_CALL_CHUNK''"
| "event_word EvToolCallResult = ''TOOL_CALL_RESULT''"
| "event_word EvThinkingStart = ''THINKING_START''"
| "event_word EvThinkingEnd = ''THINKING_END''"
| "event_word EvThinkingTextMessageStart = ''THINKING_TEXT_MESSAGE_START''"
| "event_word EvThinkingTextMessageContent = ''THINKING_TEXT_MESSAGE_CONTENT''"
| "event_word EvThinkingTextMessageEnd = ''THINKING_TEXT_MESSAGE_END''"
| "event_word EvStateSnapshot = ''STATE_SNAPSHOT''"
| "event_word EvStateDelta = ''STATE_DELTA''"
| "event_word EvMessagesSnapshot = ''MESSAGES_SNAPSHOT''"
| "event_word EvActivitySnapshot = ''ACTIVITY_SNAPSHOT''"
| "event_word EvActivityDelta = ''ACTIVITY_DELTA''"
| "event_word EvRaw = ''RAW''"
| "event_word EvCustom = ''CUSTOM''"
| "event_word EvRunStarted = ''RUN_STARTED''"
| "event_word EvRunFinished = ''RUN_FINISHED''"
| "event_word EvRunError = ''RUN_ERROR''"
| "event_word EvStepStarted = ''STEP_STARTED''"
| "event_word EvStepFinished = ''STEP_FINISHED''"
| "event_word EvReasoningStart = ''REASONING_START''"
| "event_word EvReasoningMessageStart = ''REASONING_MESSAGE_START''"
| "event_word EvReasoningMessageContent = ''REASONING_MESSAGE_CONTENT''"
| "event_word EvReasoningMessageEnd = ''REASONING_MESSAGE_END''"
| "event_word EvReasoningMessageChunk = ''REASONING_MESSAGE_CHUNK''"
| "event_word EvReasoningEnd = ''REASONING_END''"
| "event_word EvReasoningEncryptedValue = ''REASONING_ENCRYPTED_VALUE''"

definition event_types :: "event_type list" where
  "event_types =
     [EvTextMessageStart, EvTextMessageContent, EvTextMessageEnd, EvTextMessageChunk,
      EvToolCallStart, EvToolCallArgs, EvToolCallEnd, EvToolCallChunk,
      EvToolCallResult, EvThinkingStart, EvThinkingEnd, EvThinkingTextMessageStart,
      EvThinkingTextMessageContent, EvThinkingTextMessageEnd, EvStateSnapshot, EvStateDelta,
      EvMessagesSnapshot, EvActivitySnapshot, EvActivityDelta, EvRaw,
      EvCustom, EvRunStarted, EvRunFinished, EvRunError,
      EvStepStarted, EvStepFinished, EvReasoningStart, EvReasoningMessageStart,
      EvReasoningMessageContent, EvReasoningMessageEnd, EvReasoningMessageChunk, EvReasoningEnd,
      EvReasoningEncryptedValue]"

text \<open>Reading the \<open>type\<close> field back: serde's derived reader takes exactly the words it writes.\<close>

definition event_parse :: "string \<Rightarrow> event_type option" where
  "event_parse w = find (\<lambda>t. event_word t = w) event_types"

record event =
  ev_type :: event_type
  ev_timestamp :: "int option"
  ev_raw :: "json option"
  ev_extra :: "(string \<times> json) list"

definition event_new :: "event_type \<Rightarrow> int \<Rightarrow> event" where
  "event_new t ms = \<lparr>ev_type = t, ev_timestamp = Some ms, ev_raw = None, ev_extra = []\<rparr>"

definition with_json :: "string \<Rightarrow> json \<Rightarrow> event \<Rightarrow> event" where
  "with_json k v e = e\<lparr>ev_extra := jm_insert k v (ev_extra e)\<rparr>"

abbreviation with_str :: "string \<Rightarrow> string \<Rightarrow> event \<Rightarrow> event" where
  "with_str k s \<equiv> with_json k (JString s)"

definition extra_str :: "event \<Rightarrow> string \<Rightarrow> string option" where
  "extra_str e k = Option.bind (map_of (ev_extra e) k) as_str"

text \<open>
  The event as JSON, in the order the derived writer gives its members: the type, the stamp and
  the raw event where there are any, then the flattened fields. An SSE frame is one \<open>data:\<close>
  line of it.
\<close>

definition event_json :: "event \<Rightarrow> json" where
  "event_json e = JObject
     ((''type'', JString (event_word (ev_type e))) #
      (case ev_timestamp e of None \<Rightarrow> [] | Some ms \<Rightarrow> [(''timestamp'', JInt ms)]) @
      (case ev_raw e of None \<Rightarrow> [] | Some v \<Rightarrow> [(''rawEvent'', v)]) @ ev_extra e)"

definition to_sse_frame :: "serde \<Rightarrow> event \<Rightarrow> string" where
  "to_sse_frame sd e = ''data: '' @ sd_to_string sd (event_json e) @ [CHR 0x0A, CHR 0x0A]"

section \<open>What a client sends\<close>

datatype content = TextContent string | Parts "json list"

record message =
  msg_id :: string
  msg_role :: string
  msg_content :: "content option"
  msg_name :: "string option"
  msg_extra :: "(string \<times> json) list"

record run_agent_input =
  ri_thread_id :: string
  ri_run_id :: string
  ri_parent_run_id :: "string option"
  ri_state :: json
  ri_messages :: "message list"
  ri_tools :: json
  ri_context :: json
  ri_forwarded_props :: json
  ri_extra :: "(string \<times> json) list"

record file_part =
  fp_kind :: string
  fp_artifact_id :: string
  fp_filename :: "string option"

fun content_text :: "content \<Rightarrow> string" where
  "content_text (TextContent t) = t"
| "content_text (Parts parts) =
     join [CHR 0x0A, CHR 0x0A]
       (List.map_filter (\<lambda>part. str_at part ''text'')
         (filter (\<lambda>part. str_at part ''type'' = Some ''text'') parts))"

definition message_text :: "message \<Rightarrow> string" where
  "message_text m = (case msg_content m of Some c \<Rightarrow> content_text c | None \<Rightarrow> [])"

definition file_of :: "json \<Rightarrow> file_part option" where
  "file_of part =
     Option.bind (str_at part ''type'') (\<lambda>kind.
     if kind \<noteq> ''image'' \<and> kind \<noteq> ''document'' then None
     else Option.bind (json_get part ''source'') (\<lambda>source.
     Option.bind (str_at source ''type'') (\<lambda>t.
     if t \<noteq> ''file'' \<or> str_at source ''provider'' \<noteq> Some ''opengrok'' then None
     else Option.bind (str_at source ''value'') (\<lambda>a.
       Some \<lparr>fp_kind = kind, fp_artifact_id = a,
         fp_filename = Option.bind (json_pointer part [''metadata'', ''filename'']) as_str\<rparr>))))"

fun content_files :: "content \<Rightarrow> file_part list" where
  "content_files (TextContent t) = []"
| "content_files (Parts parts) = List.map_filter file_of parts"

section \<open>What this server sends\<close>

definition duration_ms_key :: string where
  "duration_ms_key = ''durationMs''"

definition sent_types :: "event_type list" where
  "sent_types =
     [EvRunStarted, EvRunFinished, EvRunError, EvTextMessageStart, EvTextMessageContent,
      EvTextMessageEnd, EvToolCallStart, EvToolCallArgs, EvToolCallEnd, EvToolCallResult,
      EvReasoningMessageStart, EvReasoningMessageContent, EvReasoningMessageEnd, EvCustom]"

definition custom_names :: "string list" where
  "custom_names =
     [''run-awaiting-approval'', ''run-stopped'', ''box-waking'', ''run-timing'',
      ''pending-user-message'', ''user-form'', ''credential.offer_save'',
      ''opengrok.inferenceSource'', ''opengrok.timeline'', ''opengrok.pluginNeeds'']"

text \<open>A run's ending on the wire.\<close>

definition ends_run :: "event \<Rightarrow> bool" where
  "ends_run e \<longleftrightarrow> ev_type e = EvRunFinished \<or> ev_type e = EvRunError"

section \<open>Lemmas\<close>

lemma event_new_simps [simp]:
  "ev_type (event_new t ms) = t" "ev_extra (event_new t ms) = []"
  "ev_timestamp (event_new t ms) = Some ms" "ev_raw (event_new t ms) = None"
  by (simp_all add: event_new_def)

lemma with_json_simps [simp]:
  "ev_type (with_json k v e) = ev_type e"
  "ev_timestamp (with_json k v e) = ev_timestamp e" "ev_raw (with_json k v e) = ev_raw e"
  by (simp_all add: with_json_def)

lemma extra_with_json [simp]:
  "map_of (ev_extra (with_json k v e)) k' = (if k' = k then Some v else map_of (ev_extra e) k')"
  by (simp add: with_json_def)

lemma extra_str_with [simp]:
  "extra_str (with_json k v e) k' = (if k' = k then as_str v else extra_str e k')"
  by (simp add: extra_str_def)

lemma extra_str_new [simp]: "extra_str (event_new t ms) k = None"
  by (simp add: extra_str_def)

lemma ends_run_with [simp]: "ends_run (with_json k v e) = ends_run e"
  by (simp add: ends_run_def)

lemma ends_run_new [simp]: "ends_run (event_new t ms) \<longleftrightarrow> t = EvRunFinished \<or> t = EvRunError"
  by (simp add: ends_run_def)

lemma event_parse_word [simp]: "event_parse (event_word t) = Some t"
  by (cases t) (simp_all add: event_parse_def event_types_def)

lemma event_parse_Some: "event_parse w = Some t \<Longrightarrow> w = event_word t"
  by (auto simp: event_parse_def find_Some_iff)

end
