(* ===== verification/Text_Search.thy ===== *)
theory Text_Search
  imports Text_Words
begin

text \<open>
  Searching in text, as \<open>str\<close> does it: \<open>find\<close> and \<open>rfind\<close> of a piece,
  \<open>split_once\<close>, \<open>split\<close> and \<open>replace\<close> with a piece or a set of characters,
  \<open>trim_matches\<close>, \<open>lines\<close>, and the integer readers that take a sign. The pieces the
  sources search for are never empty.
\<close>

fun split_once_str :: "string \<Rightarrow> string \<Rightarrow> (string \<times> string) option" where
  "split_once_str p [] = (if p = [] then Some ([], []) else None)"
| "split_once_str p (c # s) =
     (if prefix p (c # s) then Some ([], drop (length p) (c # s))
      else map_option (\<lambda>(a, b). (c # a, b)) (split_once_str p s))"

definition rsplit_once_str :: "string \<Rightarrow> string \<Rightarrow> (string \<times> string) option" where
  "rsplit_once_str p s =
     map_option (\<lambda>(a, b). (rev b, rev a)) (split_once_str (rev p) (rev s))"

lemma split_once_str_Some: "split_once_str p s = Some (a, b) \<Longrightarrow> s = a @ p @ b"
proof (induction p s arbitrary: a rule: split_once_str.induct)
  case (1 p)
  then show ?case by (auto split: if_splits)
next
  case (2 p c s)
  show ?case
  proof (cases "prefix p (c # s)")
    case True
    with 2 show ?thesis by (auto simp: prefix_def)
  next
    case False
    with 2 show ?thesis by auto
  qed
qed

lemma split_once_str_None: "split_once_str p s = None \<longleftrightarrow> \<not> contains_str p s"
  by (induction p s rule: split_once_str.induct) (auto simp: take_prefix starts_with_def)

lemma rsplit_once_str_Some: "rsplit_once_str p s = Some (a, b) \<Longrightarrow> s = a @ p @ b"
proof -
  assume "rsplit_once_str p s = Some (a, b)"
  then have "rev s = rev b @ rev p @ rev a"
    by (auto simp: rsplit_once_str_def dest: split_once_str_Some)
  then have "rev (rev s) = rev (rev b @ rev p @ rev a)" by (rule arg_cong)
  then show "s = a @ p @ b" by simp
qed

lemma split_once_str_shorter:
  "split_once_str p s = Some (a, b) \<Longrightarrow> p \<noteq> [] \<Longrightarrow> length b < length s"
  by (drule split_once_str_Some) auto

text \<open>\<open>str::replace\<close> and \<open>str::split\<close> with a piece.\<close>

function replace_str :: "string \<Rightarrow> string \<Rightarrow> string \<Rightarrow> string" where
  "replace_str p q s =
     (if p = [] then s
      else case split_once_str p s of None \<Rightarrow> s | Some (a, b) \<Rightarrow> a @ q @ replace_str p q b)"
  by pat_completeness auto
termination
  by (relation "measure (\<lambda>(p, q, s). length s)") (auto dest: split_once_str_shorter)

declare replace_str.simps [simp del]

function split_str :: "string \<Rightarrow> string \<Rightarrow> string list" where
  "split_str p s =
     (if p = [] then [s]
      else case split_once_str p s of None \<Rightarrow> [s] | Some (a, b) \<Rightarrow> a # split_str p b)"
  by pat_completeness auto
termination
  by (relation "measure (\<lambda>(p, s). length s)") (auto dest: split_once_str_shorter)

declare split_str.simps [simp del]

text \<open>\<open>str::split\<close> with a set of ASCII characters.\<close>

fun split_chars :: "(char \<Rightarrow> bool) \<Rightarrow> string \<Rightarrow> string list" where
  "split_chars P [] = [[]]"
| "split_chars P (c # s) =
     (if P c then [] # split_chars P s
      else case split_chars P s of [] \<Rightarrow> [[c]] | p # ps \<Rightarrow> (c # p) # ps)"

definition trim_start_matches :: "(char \<Rightarrow> bool) \<Rightarrow> string \<Rightarrow> string" where
  "trim_start_matches P s = dropWhile P s"

definition trim_end_matches :: "(char \<Rightarrow> bool) \<Rightarrow> string \<Rightarrow> string" where
  "trim_end_matches P s = rev (dropWhile P (rev s))"

definition trim_matches :: "(char \<Rightarrow> bool) \<Rightarrow> string \<Rightarrow> string" where
  "trim_matches P s = trim_end_matches P (trim_start_matches P s)"

definition ends_with :: "string \<Rightarrow> string \<Rightarrow> bool" where
  "ends_with p s \<longleftrightarrow> length p \<le> length s \<and> drop (length s - length p) s = p"

text \<open>\<open>str::lines\<close>: a line ends at a line feed, a carriage return before it goes with it.\<close>

definition strip_cr :: "string \<Rightarrow> string" where
  "strip_cr l = (case strip_suffix [CHR 0x0D] l of Some k \<Rightarrow> k | None \<Rightarrow> l)"

definition text_lines :: "string \<Rightarrow> string list" where
  "text_lines s =
     (let ps = split_on (CHR 0x0A) s
      in map strip_cr (butlast ps) @ (if last ps = [] then [] else [last ps]))"

text \<open>
  \<open>str::parse::<i32>\<close>: an optional sign and at least one digit, within range. \<open>int_str\<close> is
  the \<open>Display\<close> of a signed integer.
\<close>

definition parse_int :: "int \<Rightarrow> int \<Rightarrow> string \<Rightarrow> int option" where
  "parse_int lo hi s =
     (let (neg, ds) = (case s of
            c # cs \<Rightarrow> if c = CHR ''-'' then (True, cs) else if c = CHR ''+'' then (False, cs) else (False, s)
          | [] \<Rightarrow> (False, []));
          v = (if neg then - int (digits_value ds) else int (digits_value ds))
      in if ds = [] \<or> \<not> list_all is_ascii_digit ds \<or> v < lo \<or> hi < v then None else Some v)"

definition parse_i32 :: "string \<Rightarrow> int option" where
  "parse_i32 = parse_int (- (2 ^ 31)) (2 ^ 31 - 1)"

definition int_str :: "int \<Rightarrow> string" where
  "int_str i = (if i < 0 then CHR ''-'' # nat_str (nat (- i)) else nat_str (nat i))"

text \<open>\<open>chars().take(n)\<close>: the bytes of the first \<open>n\<close> characters.\<close>

fun take_chars :: "nat \<Rightarrow> string \<Rightarrow> string" where
  "take_chars n [] = []"
| "take_chars n (c # s) =
     (if continues c then c # take_chars n s
      else case n of 0 \<Rightarrow> [] | Suc k \<Rightarrow> c # take_chars k s)"

lemma ends_with_iff: "ends_with p s \<longleftrightarrow> (\<exists>a. s = a @ p)"
proof
  assume "ends_with p s"
  then have "s = take (length s - length p) s @ p"
    unfolding ends_with_def by (metis append_take_drop_id)
  then show "\<exists>a. s = a @ p" by blast
qed (auto simp: ends_with_def)

lemma split_chars_nonempty [simp]: "split_chars P s \<noteq> []"
  by (cases s) (auto split: list.splits)

lemma split_chars_pieces: "p \<in> set (split_chars P s) \<Longrightarrow> c \<in> set p \<Longrightarrow> \<not> P c"
  by (induction s arbitrary: p) (fastforce split: if_splits list.splits)+

lemma trim_end_matches_prefix: "prefix (trim_end_matches P s) s"
  unfolding trim_end_matches_def
  by (metis rev_rev_ident suffix_dropWhile suffix_to_prefix)

lemma trim_start_matches_suffix: "suffix (trim_start_matches P s) s"
  by (simp add: trim_start_matches_def suffix_dropWhile)

lemma chars_count_Nil [simp]: "chars_count [] = 0"
  by (simp add: chars_count_def)

lemma chars_count_Cons: "chars_count (c # s) = of_bool (\<not> continues c) + chars_count s"
  by (simp add: chars_count_def continues_def)

lemma chars_count_take_chars: "chars_count (take_chars n s) \<le> n"
proof (induction n s rule: take_chars.induct)
  case (2 n c s)
  then show ?case by (cases n) (auto simp: chars_count_Cons)
qed simp

lemma take_chars_prefix: "prefix (take_chars n s) s"
  by (induction n s rule: take_chars.induct) (auto split: nat.split)

end
