(* ===== verification/Forms.thy ===== *)
theory Forms
  imports Json Ids BTree_Map Text_Search
begin

text \<open>
  The in-chat form (\<open>opengrok-forms/src/user_form.rs\<close>, \<open>front_page.rs\<close>): the card's
  schema and how it is read out of a call's arguments, what of it may be stored, what the model
  may see of the answers, and the fill that types them into the page. The computer a fill acts on
  is a parameter: each answer it gives is a function of everything asked of it so far, newest
  first, so nothing is assumed of it.
\<close>

section \<open>The card\<close>

definition request_user_form :: string where
  "request_user_form = ''request_user_form''"

definition secret_types :: "string list" where
  "secret_types = [''password'', ''otp'']"

record field_at =
  fa_x :: int
  fa_y :: int

record form_field =
  ff_id :: string
  ff_label :: string
  ff_type :: string
  ff_required :: bool
  ff_secret :: bool
  ff_at :: "field_at option"

record form_request =
  fr_title :: string
  fr_instruction :: string
  fr_fields :: "form_field list"
  fr_domain :: "string option"
  fr_live_host :: "string option"
  fr_challenge_kind :: "string option"
  fr_passkey_mode :: "string option"
  fr_same_page :: bool
  fr_submit :: bool

definition secret_type :: "string \<Rightarrow> bool" where
  "secret_type t \<longleftrightarrow> list_ex (\<lambda>k. eq_ignore_ascii_case k t) secret_types"

definition field_is_secret :: "form_field \<Rightarrow> bool" where
  "field_is_secret f \<longleftrightarrow> ff_secret f \<or> secret_type (ff_type f)"

text \<open>
  A coordinate: a number from 0 to 10000, rounded. A double is read from its bits: \<open>ex\<close> its
  biased exponent and \<open>m\<close> its significand, so its value is \<open>m / 2 ^ (1075 - ex)\<close>; half goes
  up, as \<open>f64::round\<close> does for what is not negative.
\<close>

definition f64_point :: "64 word \<Rightarrow> int option" where
  "f64_point b =
     (let ex = unat (take_bit 11 (drop_bit 52 b));
          fr = int (unat (take_bit 52 b));
          m = (if ex = 0 then fr else fr + 2 ^ 52);
          k = 1075 - (if ex = 0 then 1 else ex)
      in if m = 0 then Some 0
         else if ex = 2047 \<or> bit b 63 \<or> 1075 \<le> ex \<or> 10000 * 2 ^ k < m then None
         else Some ((2 * m + 2 ^ k) div 2 ^ (k + 1)))"

definition point_number :: "json \<Rightarrow> int option" where
  "point_number v =
     (case v of
        JInt i \<Rightarrow> if 0 \<le> i \<and> i \<le> 10000 then Some i else None
      | JFloat b \<Rightarrow> f64_point b
      | _ \<Rightarrow> None)"

definition field_at_of :: "json \<Rightarrow> field_at option" where
  "field_at_of field =
     Option.bind (json_get field ''at'') (\<lambda>at.
     Option.bind (Option.bind (json_get at ''x'') point_number) (\<lambda>x.
     Option.bind (Option.bind (json_get at ''y'') point_number) (\<lambda>y.
       Some \<lparr>fa_x = x, fa_y = y\<rparr>)))"

definition fully_positioned :: "form_request \<Rightarrow> bool" where
  "fully_positioned form \<longleftrightarrow>
     fr_fields form \<noteq> [] \<and> list_all (\<lambda>f. ff_at f \<noteq> None) (fr_fields form)"

definition form_source :: "json \<Rightarrow> json" where
  "form_source v =
     (case json_get v ''formRequest'' of
        Some w \<Rightarrow> w
      | None \<Rightarrow> (case json_pointer v [''message'', ''formRequest''] of Some w \<Rightarrow> w | None \<Rightarrow> v))"

abbreviation str_or_empty :: "json \<Rightarrow> string \<Rightarrow> string" where
  "str_or_empty v k \<equiv> (case str_at v k of Some s \<Rightarrow> s | None \<Rightarrow> [])"

definition flag_at :: "json \<Rightarrow> string \<Rightarrow> bool" where
  "flag_at v k \<longleftrightarrow> Option.bind (json_get v k) as_bool = Some True"

definition word_at :: "json \<Rightarrow> string \<Rightarrow> string option" where
  "word_at v k = (case str_at v k of Some s \<Rightarrow> if s = [] then None else Some s | None \<Rightarrow> None)"

definition form_field_of :: "json \<Rightarrow> form_field option" where
  "form_field_of field =
     (case str_at field ''id'' of
        None \<Rightarrow> None
      | Some i \<Rightarrow>
          if i = [] then None
          else Some \<lparr>ff_id = i, ff_label = str_or_empty field ''label'',
                 ff_type = str_or_empty field ''type'', ff_required = flag_at field ''required'',
                 ff_secret = flag_at field ''secret'', ff_at = field_at_of field\<rparr>)"

definition rows_of :: "json \<Rightarrow> json list" where
  "rows_of source =
     (case Option.bind (json_get source ''fields'') as_array of Some rows \<Rightarrow> rows | None \<Rightarrow> [])"

definition form_request_from :: "json \<Rightarrow> form_request" where
  "form_request_from v =
     (let source = form_source v
      in \<lparr>fr_title = str_or_empty source ''title'', fr_instruction = str_or_empty source ''instruction'',
          fr_fields = List.map_filter form_field_of (rows_of source),
          fr_domain = word_at source ''domain'', fr_live_host = word_at source ''liveHost'',
          fr_challenge_kind = word_at source ''challengeKind'',
          fr_passkey_mode = word_at source ''passkeyMode'',
          fr_same_page = flag_at source ''samePage'', fr_submit = flag_at source ''submit''\<rparr>)"

definition is_chat_collection :: "json \<Rightarrow> bool" where
  "is_chat_collection v \<longleftrightarrow> flag_at (form_source v) ''collect''"

text \<open>A string, a number or a flag as text.\<close>

fun scalar_text :: "serde \<Rightarrow> json \<Rightarrow> string option" where
  "scalar_text sd (JString t) = Some t"
| "scalar_text sd (JInt i) = Some (sd_to_string sd (JInt i))"
| "scalar_text sd (JFloat b) = Some (sd_to_string sd (JFloat b))"
| "scalar_text sd (JBool b) = Some (if b then ''true'' else ''false'')"
| "scalar_text sd _ = None"

section \<open>What of a card is stored\<close>

definition field_json :: "form_field \<Rightarrow> json" where
  "field_json f = JObject
     ([(''id'', JString (ff_id f)), (''label'', JString (ff_label f)), (''type'', JString (ff_type f)),
       (''required'', JBool (ff_required f)), (''secret'', JBool (ff_secret f))] @
      (case ff_at f of
         None \<Rightarrow> []
       | Some a \<Rightarrow> [(''at'', JObject [(''x'', JInt (fa_x a)), (''y'', JInt (fa_y a))])]))"

definition row_is_secret :: "json \<Rightarrow> bool" where
  "row_is_secret field \<longleftrightarrow>
     flag_at field ''secret'' \<or>
     (case str_at field ''type'' of Some kind \<Rightarrow> secret_type kind | None \<Rightarrow> False)"

text \<open>\<open>v[k] = w\<close> on an object.\<close>

fun json_set :: "json \<Rightarrow> string \<Rightarrow> json \<Rightarrow> json" where
  "json_set (JObject m) k w = JObject (jm_insert k w m)"
| "json_set v k w = v"

text \<open>
  The prefill of one field of a collect card: none for a secret, none where its id is not the one
  of exactly one row of the request.
\<close>

definition prefill :: "serde \<Rightarrow> json list \<Rightarrow> json \<Rightarrow> json" where
  "prefill sd in_fields field =
     (if row_is_secret field then field
      else case filter (\<lambda>row. str_at row ''id'' = str_at field ''id'') in_fields of
        [source] \<Rightarrow>
          (case Option.bind (json_get source ''value'') (scalar_text sd) of
             Some v \<Rightarrow> if trim v \<noteq> [] then json_set field ''value'' (JString (trim v)) else field
           | None \<Rightarrow> field)
      | _ \<Rightarrow> field)"

definition opt_member :: "string \<Rightarrow> json option \<Rightarrow> (string \<times> json) list" where
  "opt_member k v = (case v of None \<Rightarrow> [] | Some w \<Rightarrow> [(k, w)])"

text \<open>
  The members in the order the code writes them. On a collect card the \<open>fields\<close> are the same
  rows with their prefills, where the request itself has rows.
\<close>

definition sanitize_arguments :: "serde \<Rightarrow> json \<Rightarrow> json" where
  "sanitize_arguments sd arguments =
     (let form = form_request_from arguments;
          collect = is_chat_collection arguments;
          rows = map field_json (fr_fields form);
          kept = (if collect then map (prefill sd (rows_of (form_source arguments))) rows else rows)
      in JObject
        ([(''title'', JString (fr_title form)), (''instruction'', JString (fr_instruction form)),
          (''fields'', JArray kept)] @
         opt_member ''domain'' (map_option JString (fr_domain form)) @
         opt_member ''liveHost'' (map_option JString (fr_live_host form)) @
         opt_member ''passkeyMode'' (map_option JString (fr_passkey_mode form)) @
         opt_member ''challengeKind'' (map_option JString (fr_challenge_kind form)) @
         (if fr_same_page form then [(''samePage'', JBool True)] else []) @
         (if fr_submit form then [(''submit'', JBool True)] else []) @
         (if collect then [(''collect'', JBool True)] else [])))"

fun all_new :: "string list \<Rightarrow> string list \<Rightarrow> bool" where
  "all_new seen [] = True"
| "all_new seen (i # is) = (if i \<in> set seen then False else all_new (i # seen) is)"

definition validate_field_ids :: "json \<Rightarrow> bool" where
  "validate_field_ids arguments =
     all_new [] (filter (\<lambda>i. i \<noteq> [])
       (List.map_filter (\<lambda>row. str_at row ''id'') (rows_of (form_source arguments))))"

section \<open>Cards in a transcript\<close>

definition is_user_form_entry :: "json \<Rightarrow> bool" where
  "is_user_form_entry entry \<longleftrightarrow>
     Option.bind (json_pointer entry [''message'', ''type'']) as_str = Some ''user-form''"

definition is_unresolved :: "json \<Rightarrow> bool" where
  "is_unresolved entry \<longleftrightarrow>
     is_user_form_entry entry \<and> word_at entry ''formResolution'' = None \<and>
     \<not> flag_at entry ''widgetDismissed''"

definition is_live_handoff :: "json \<Rightarrow> bool" where
  "is_live_handoff entry \<longleftrightarrow>
     word_at entry ''boxRequestId'' \<noteq> None \<and>
     json_get entry ''boxResolution'' \<in> {None, Some JNull, Some (JString [])}"

definition holds_the_screen :: "json \<Rightarrow> bool" where
  "holds_the_screen entry \<longleftrightarrow> is_unresolved entry \<or> is_live_handoff entry"

section \<open>The answers\<close>

type_synonym answers = "(string, string) bmap"

definition submitted_values :: "serde \<Rightarrow> form_request \<Rightarrow> json \<Rightarrow> answers" where
  "submitted_values sd form raw =
     (case raw of
        JObject members \<Rightarrow>
          bm_extend (List.map_filter (\<lambda>f.
            map_option (Pair (ff_id f)) (Option.bind (map_of members (ff_id f)) (scalar_text sd)))
            (fr_fields form)) []
      | _ \<Rightarrow> [])"

definition sole_field :: "form_request \<Rightarrow> form_field \<Rightarrow> bool" where
  "sole_field form f \<longleftrightarrow> length (filter (\<lambda>g. ff_id g = ff_id f) (fr_fields form)) = 1"

definition shared_values :: "form_request \<Rightarrow> answers \<Rightarrow> answers" where
  "shared_values form values =
     bm_extend (List.map_filter (\<lambda>f. map_option (Pair (ff_id f)) (bm_get values (ff_id f)))
       (filter (\<lambda>f. \<not> field_is_secret f \<and> sole_field form f) (fr_fields form))) []"

definition contains_secret_value :: "string \<Rightarrow> form_request \<Rightarrow> answers \<Rightarrow> bool" where
  "contains_secret_value haystack form values \<longleftrightarrow>
     list_ex (\<lambda>f. field_is_secret f \<and>
       (case bm_get values (ff_id f) of Some v \<Rightarrow> v \<noteq> [] \<and> contains_str v haystack | None \<Rightarrow> False))
       (fr_fields form)"

section \<open>What the model reads\<close>

datatype form_resolution = Submitted | FillFailed | Dismissed | Escalated

fun form_resolution_as_str :: "form_resolution \<Rightarrow> string" where
  "form_resolution_as_str Submitted = ''submitted''"
| "form_resolution_as_str FillFailed = ''fill_failed''"
| "form_resolution_as_str Dismissed = ''dismissed''"
| "form_resolution_as_str Escalated = ''escalated''"

definition types_only_first_field :: "form_request \<Rightarrow> bool" where
  "types_only_first_field form \<longleftrightarrow>
     1 < length (fr_fields form) \<and> \<not> fr_same_page form \<and> \<not> fully_positioned form"

definition title_or :: "string \<Rightarrow> form_request \<Rightarrow> string" where
  "title_or other form = (if fr_title form = [] then other else fr_title form)"

definition listed :: "answers \<Rightarrow> string" where
  "listed shared = join '', '' (map (\<lambda>(i, v). i @ ''='' @ v) shared)"

abbreviation quote :: string where "quote \<equiv> [CHR 0x22]"
abbreviation dash :: string where "dash \<equiv> [CHR '' '', CHR 0xE2, CHR 0x80, CHR 0x94, CHR '' '']"
abbreviation tick :: string where "tick \<equiv> [CHR 0x60]"
abbreviation apos :: string where "apos \<equiv> [CHR 0x27]"

definition collection_tool_result :: "form_request \<Rightarrow> answers \<Rightarrow> string" where
  "collection_tool_result form shared =
     ''The person submitted '' @ quote @ title_or ''a form'' form @ quote @
     ''. Nothing was typed into a page. '' @
     (if shared = [] then ''No fields were filled.'' else ''Shared fields: '' @ listed shared @ ''.'') @
     '' Use these values. Do not ask for a field they already filled.''"

definition hand_back_tool_result :: string where
  "hand_back_tool_result = ''Person finished on computer. Screenshot and confirm login; if another challenge, call request_user_form.''"

definition handoff_declined_tool_result :: string where
  "handoff_declined_tool_result =
     ''The person declined to finish on the computer. Continue without those credentials; do not type secrets with '' @
     tick @ ''computer'' @ tick @ '', and do not raise the same form again.''"

definition hold_timed_out_tool_result :: string where
  "hold_timed_out_tool_result =
     ''The wait timed out. Continue without those credentials; do not type secrets with '' @
     tick @ ''computer'' @ tick @ '', and do not raise the same form again.''"

definition after_fill :: string where
  "after_fill =
     ''If another in-sandbox challenge (OTP, phone verification on the same page) appears, call request_user_form again with otp fields'' @
     dash @ ''never re-raise a form that already settled. A passkey prompt is a passkey card (challengeKind '' @
     quote @ ''passkey'' @ quote @
     ''); a captcha, or a page outside this box, is handoff, not another password form.''"

definition observe_words :: "form_request \<Rightarrow> string" where
  "observe_words form =
     (if types_only_first_field form then
        ''Only the FIRST field was typed: this card had several fields but no '' @ tick @ ''samePage'' @ tick @
        '', and not every field had a position, so the rest could not be placed. Screenshot and confirm what the page shows now; do not claim login succeeded. If the remaining fields are on the same page, raise ONE new card for them with '' @
        tick @ ''samePage: true'' @ tick @ '' and each field'' @ apos @ ''s '' @ tick @ ''at'' @ tick @
        ''; if a password page is next, call request_user_form with a password-only form (new entryId, challengeKind '' @
        quote @ ''password'' @ quote @ ''). Never re-raise a form that already settled.''
      else if fully_positioned form then
        ''Each field was clicked at the position you gave, then typed. Screenshot and confirm what the page shows now; do not claim login succeeded until you see it. If the page had moved since your screenshot and a value landed in the wrong field, raise the card again with fresh positions. '' @
        after_fill
      else
        ''Screenshot and confirm what the page shows now; do not claim login succeeded until you see it. '' @
        after_fill)"

definition secret_note :: string where
  "secret_note = ''Secret field values were typed into the page and never shown to you.''"

fun tool_result_content :: "form_request \<Rightarrow> form_resolution \<Rightarrow> answers \<Rightarrow> bool \<Rightarrow> string" where
  "tool_result_content form Submitted shared timed_out =
     ''The person submitted the form '' @ quote @ title_or ''a form'' form @ quote @
     ''. It was filled into the page. '' @ observe_words form @ '' '' @
     (if shared = [] then ''No non-secret fields were shared.''
      else ''Shared fields: '' @ listed shared @ ''.'') @ '' '' @ secret_note"
| "tool_result_content form FillFailed shared timed_out =
     ''The person submitted the form '' @ quote @ title_or ''a form'' form @ quote @
     '' but it could not be filled into the page'' @ dash @ ''the page may have moved or changed. '' @
     observe_words form @ '' '' @ secret_note @ '' Do not type secrets with '' @ tick @ ''computer'' @ tick @ ''.''"
| "tool_result_content form Dismissed shared timed_out =
     (if timed_out then hold_timed_out_tool_result
      else ''The person dismissed the form '' @ quote @ title_or ''a form'' form @ quote @
        '' without filling anything. Continue without those credentials; do not type secrets with '' @
        tick @ ''computer'' @ tick @ '', and do not raise the same form again.'')"
| "tool_result_content form Escalated shared timed_out =
     ''The person chose to finish the form '' @ quote @ title_or ''a form'' form @ quote @
     '' on the computer. Wait for them to hand it back. Do not type secrets. Do not claim the form is done.''"

fun collection_resolution :: "form_request \<Rightarrow> form_resolution \<Rightarrow> answers \<Rightarrow> bool \<Rightarrow> string" where
  "collection_resolution form Submitted shared timed_out = collection_tool_result form shared"
| "collection_resolution form FillFailed shared timed_out =
     ''The person submitted '' @ quote @ title_or ''a form'' form @ quote @
     '' but the answers were not kept. Nothing was typed into a page. Ask again with request_user_form and collect true.''"
| "collection_resolution form Dismissed shared timed_out =
     (if timed_out then
        ''The wait for '' @ quote @ title_or ''a form'' form @ quote @
        '' timed out. Continue without those fields. Do not invent them, and do not raise the same form again.''
      else
        ''The person dismissed '' @ quote @ title_or ''a form'' form @ quote @
        '' without answering. Continue without those fields. Do not invent them, and do not raise the same form again.'')"
| "collection_resolution form Escalated shared timed_out =
     ''The person chose to finish '' @ quote @ title_or ''a form'' form @ quote @
     '' on the computer. Wait for them. Do not invent the fields.''"

definition model_facing_result ::
  "json \<Rightarrow> form_request \<Rightarrow> form_resolution \<Rightarrow> answers \<Rightarrow> bool \<Rightarrow> string"
where
  "model_facing_result entry form resolution shared timed_out =
     (if is_chat_collection entry
      then collection_resolution form resolution (shared_values form shared) timed_out
      else tool_result_content form resolution shared timed_out)"

definition handoff_instruction :: "form_request \<Rightarrow> string" where
  "handoff_instruction form =
     (if fr_instruction form = [] then ''Finish '' @ title_or ''this form'' form @ '' on the computer.''
      else title_or ''this form'' form @ '': '' @ fr_instruction form)"

definition resolution_of_word :: "string \<Rightarrow> form_resolution option" where
  "resolution_of_word w =
     (if w = ''submitted'' then Some Submitted else if w = ''fill_failed'' then Some FillFailed
      else if w = ''dismissed'' then Some Dismissed else if w = ''escalated'' then Some Escalated
      else None)"

definition shared_on_entry :: "json \<Rightarrow> answers" where
  "shared_on_entry entry =
     (case Option.bind (json_get entry ''sharedValues'') as_object of
        Some members \<Rightarrow>
          bm_extend (List.map_filter (\<lambda>(i, v). map_option (Pair i) (as_str v)) members) []
      | None \<Rightarrow> [])"

definition history_line :: "json \<Rightarrow> string option" where
  "history_line entry =
     (if \<not> is_user_form_entry entry then None
      else case Option.bind (str_at entry ''formResolution'') resolution_of_word of
        None \<Rightarrow> None
      | Some resolution \<Rightarrow>
          let form = form_request_from entry;
              timed_out = flag_at entry ''timedOut'';
              shared = shared_on_entry entry;
              line = model_facing_result entry form resolution shared timed_out
          in Some (if contains_secret_value line form shared
                   then model_facing_result entry form resolution [] timed_out else line))"

section \<open>The fill\<close>

datatype cua_action =
    Click int int "nat option"
  | DoubleClick int int
  | MoveTo int int
  | Drag int int int int
  | TypeText string
  | Key string
  | Scroll int int int int

record focus =
  fc_kind :: "string option"
  fc_seq :: nat

record field_outcome =
  fo_id :: string
  fo_filled :: bool
  fo_failed :: bool

text \<open>What was asked of the computer, newest first, and what it answered.\<close>

datatype box_step = Acted cua_action bool | Looked "focus option"

text \<open>
  The computer: whether an action went through, what it says of the focused box, and whether by
  now the wait for a report is over.
\<close>

record computer =
  cp_act :: "box_step list \<Rightarrow> cua_action \<Rightarrow> bool"
  cp_focus :: "box_step list \<Rightarrow> focus option"
  cp_late :: "box_step list \<Rightarrow> bool"

definition box_do :: "computer \<Rightarrow> box_step list \<Rightarrow> cua_action \<Rightarrow> bool \<times> box_step list" where
  "box_do cp h a = (cp_act cp h a, Acted a (cp_act cp h a) # h)"

definition box_look :: "computer \<Rightarrow> box_step list \<Rightarrow> focus option \<times> box_step list" where
  "box_look cp h = (cp_focus cp h, Looked (cp_focus cp h) # h)"

definition wants_a_password_box :: "form_field \<Rightarrow> bool" where
  "wants_a_password_box f \<longleftrightarrow>
     \<not> eq_ignore_ascii_case (ff_type f) ''otp'' \<and>
     (eq_ignore_ascii_case (ff_type f) ''password'' \<or> ff_secret f)"

definition focus_wait_ms :: nat where "focus_wait_ms = 1500"
definition focus_poll_ms :: nat where "focus_poll_ms = 50"

text \<open>
  The wait for a fresh report. A turn sleeps 50 ms, so after 30 of them 1500 ms have gone by and
  the loop ends whatever the clock of the model says.
\<close>

fun await_focus :: "computer \<Rightarrow> nat option \<Rightarrow> bool \<Rightarrow> nat \<Rightarrow> box_step list \<Rightarrow> focus option \<times> box_step list" where
  "await_focus cp before reached turns h =
     (case box_look cp h of
        (f, h1) \<Rightarrow>
          let fresh = (case f of Some g \<Rightarrow> \<not> reached \<or> Some (fc_seq g) \<noteq> before | None \<Rightarrow> False)
          in if fresh \<or> cp_late cp h1 then (f, h1)
             else case turns of 0 \<Rightarrow> (f, h1) | Suc n \<Rightarrow> await_focus cp before reached n h1)"

declare await_focus.simps [simp del]

definition lands_in_its_box ::
  "computer \<Rightarrow> form_field \<Rightarrow> nat option \<Rightarrow> bool \<Rightarrow> box_step list \<Rightarrow> bool \<times> box_step list"
where
  "lands_in_its_box cp field before reached h =
     (if \<not> wants_a_password_box field then (True, h)
      else case await_focus cp before reached (focus_wait_ms div focus_poll_ms) h of
        (f, h1) \<Rightarrow> (Option.bind f fc_kind = Some ''password'', h1))"

definition aim_at :: "computer \<Rightarrow> field_at \<Rightarrow> box_step list \<Rightarrow> bool \<times> box_step list" where
  "aim_at cp at h =
     (case box_do cp h (Click (fa_x at) (fa_y at) None) of
        (went, h1) \<Rightarrow> if went then box_do cp h1 (Key ''ctrl+a'') else (False, h1))"

record fill =
  fl_outcomes :: "field_outcome list"
  fl_typed :: nat
  fl_gave_up :: bool
  fl_steps :: "box_step list"

definition outcome :: "form_field \<Rightarrow> bool \<Rightarrow> bool \<Rightarrow> field_outcome" where
  "outcome f filled failed = \<lparr>fo_id = ff_id f, fo_filled = filled, fo_failed = failed\<rparr>"

definition answer_of :: "answers \<Rightarrow> form_field \<Rightarrow> string" where
  "answer_of values f = (case bm_get values (ff_id f) of Some v \<Rightarrow> v | None \<Rightarrow> [])"

definition fill_blank :: "computer \<Rightarrow> bool \<Rightarrow> form_field \<Rightarrow> fill \<Rightarrow> fill" where
  "fill_blank cp tab_here f st =
     (case if tab_here then box_do cp (fl_steps st) (Key ''Tab'') else (True, fl_steps st) of
        (went, h) \<Rightarrow>
          st\<lparr>fl_outcomes := fl_outcomes st @ [outcome f (\<not> ff_required f \<and> went) (ff_required f \<or> \<not> went)],
             fl_gave_up := \<not> went, fl_steps := h\<rparr>)"

text \<open>Reaching a field: a click at its position, or a Tab.\<close>

definition reach_field :: "computer \<Rightarrow> bool \<Rightarrow> form_field \<Rightarrow> box_step list \<Rightarrow> bool \<times> box_step list" where
  "reach_field cp tab_here f h =
     (case ff_at f of
        Some at \<Rightarrow> aim_at cp at h
      | None \<Rightarrow> if tab_here then box_do cp h (Key ''Tab'') else (True, h))"

definition moves_focus :: "bool \<Rightarrow> form_field \<Rightarrow> bool" where
  "moves_focus tab_here f \<longleftrightarrow> ff_at f \<noteq> None \<or> tab_here"

definition fill_stuck :: "form_field \<Rightarrow> box_step list \<Rightarrow> fill \<Rightarrow> fill" where
  "fill_stuck f h st =
     st\<lparr>fl_outcomes := fl_outcomes st @ [outcome f False True], fl_gave_up := True, fl_steps := h\<rparr>"

definition fill_typed :: "computer \<Rightarrow> bool \<Rightarrow> form_field \<Rightarrow> string \<Rightarrow> fill \<Rightarrow> fill" where
  "fill_typed cp tab_here f v st =
     (case box_look cp (fl_steps st) of (look, h0) \<Rightarrow>
      case reach_field cp tab_here f h0 of (reached, h1) \<Rightarrow>
      if \<not> reached then fill_stuck f h1 st
      else case lands_in_its_box cp f (map_option fc_seq look) (moves_focus tab_here f) h1 of (lands, h2) \<Rightarrow>
      if \<not> lands then fill_stuck f h2 st
      else case box_do cp h2 (TypeText v) of (went, h3) \<Rightarrow>
        st\<lparr>fl_outcomes := fl_outcomes st @ [outcome f went (\<not> went)],
           fl_typed := fl_typed st + (if went then 1 else 0), fl_steps := h3\<rparr>)"

definition fill_field ::
  "computer \<Rightarrow> form_request \<Rightarrow> answers \<Rightarrow> nat \<Rightarrow> form_field \<Rightarrow> fill \<Rightarrow> fill"
where
  "fill_field cp form values index f st =
     (let v = answer_of values f;
          tab_here = (fr_same_page form \<and> 0 < index \<and> ff_at f = None)
      in if fl_gave_up st then st\<lparr>fl_outcomes := fl_outcomes st @ [outcome f False True]\<rparr>
         else if v = [] then fill_blank cp tab_here f st
         else fill_typed cp tab_here f v st)"

fun fill_fields ::
  "computer \<Rightarrow> form_request \<Rightarrow> answers \<Rightarrow> nat \<Rightarrow> form_field list \<Rightarrow> fill \<Rightarrow> fill"
where
  "fill_fields cp form values index [] st = st"
| "fill_fields cp form values index (f # fs) st =
     fill_fields cp form values (Suc index) fs (fill_field cp form values index f st)"

definition overall_resolution :: "field_outcome list \<Rightarrow> form_resolution" where
  "overall_resolution outcomes = (if list_ex fo_failed outcomes then FillFailed else Submitted)"

definition should_press_return :: "form_request \<Rightarrow> nat \<Rightarrow> bool" where
  "should_press_return form typed \<longleftrightarrow>
     (if typed = 0 then False
      else if fr_submit form then True
      else if types_only_first_field form then False
      else if length (fr_fields form) = 1 then True
      else if fully_positioned form \<and> (fr_same_page form \<or> fr_submit form) \<and>
              typed = length (fr_fields form) \<and> list_ex field_is_secret (fr_fields form) then True
      else let kind = (case fr_challenge_kind form of Some k \<Rightarrow> k | None \<Rightarrow> [])
           in typed = 1 \<and> (eq_ignore_ascii_case kind ''otp'' \<or> eq_ignore_ascii_case kind ''password''))"

definition type_limit :: "form_request \<Rightarrow> nat" where
  "type_limit form =
     (if types_only_first_field form then min (length (fr_fields form)) 1 else length (fr_fields form))"

definition fill_into_focus ::
  "computer \<Rightarrow> form_request \<Rightarrow> answers \<Rightarrow> box_step list \<Rightarrow> field_outcome list \<times> box_step list"
where
  "fill_into_focus cp form values h =
     (let st = fill_fields cp form values 0 (take (type_limit form) (fr_fields form))
                 \<lparr>fl_outcomes = [], fl_typed = 0, fl_gave_up = False, fl_steps = h\<rparr>;
          outcomes = fl_outcomes st @
            map (\<lambda>f. outcome f False False) (drop (length (fl_outcomes st)) (fr_fields form))
      in if overall_resolution outcomes = Submitted \<and> should_press_return form (fl_typed st)
         then (outcomes, snd (box_do cp (fl_steps st) (Key ''Return'')))
         else (outcomes, fl_steps st))"

section \<open>Where values are typed\<close>

text \<open>\<open>each_type P h\<close>: \<open>P\<close> holds of every text typed in \<open>h\<close> and the steps before it.\<close>

definition each_type :: "(string \<Rightarrow> box_step list \<Rightarrow> bool) \<Rightarrow> box_step list \<Rightarrow> bool" where
  "each_type P h \<longleftrightarrow> (\<forall>post t w pre. h = post @ Acted (TypeText t) w # pre \<longrightarrow> P t pre)"

lemma each_type_Nil [simp]: "each_type P []"
  by (simp add: each_type_def)

lemma each_type_Cons [simp]:
  "each_type P (s # h) \<longleftrightarrow> (\<forall>t w. s = Acted (TypeText t) w \<longrightarrow> P t h) \<and> each_type P h"
  by (auto simp: each_type_def Cons_eq_append_conv)

lemma each_type_look [simp]: "each_type P (snd (box_look cp h)) = each_type P h"
  by (simp add: box_look_def Let_def)

lemma each_type_do:
  "each_type P (snd (box_do cp h a)) \<longleftrightarrow> (\<forall>t. a = TypeText t \<longrightarrow> P t h) \<and> each_type P h"
  by (auto simp: box_do_def Let_def)

lemma await_focus_last:
  "await_focus cp before reached turns h = (f, h1) \<Longrightarrow>
     (\<exists>rest. h1 = Looked f # rest) \<and> each_type P h1 = each_type P h"
  by (induction cp before reached turns h rule: await_focus.induct)
    (subst (asm) await_focus.simps, auto simp: box_look_def Let_def split: if_splits nat.splits)

definition saw_password :: "box_step list \<Rightarrow> bool" where
  "saw_password h \<longleftrightarrow> (\<exists>g rest. h = Looked (Some g) # rest \<and> fc_kind g = Some ''password'')"

lemma lands_saw_password:
  assumes "lands_in_its_box cp f before reached h = (lands, h1)"
  shows "each_type P h1 = each_type P h"
    and "lands \<Longrightarrow> wants_a_password_box f \<Longrightarrow> saw_password h1"
proof -
  obtain g h2 where a: "await_focus cp before reached (focus_wait_ms div focus_poll_ms) h = (g, h2)"
    by fastforce
  from await_focus_last [OF a, of P] assms a
  show "each_type P h1 = each_type P h"
    by (auto simp: lands_in_its_box_def split: if_splits)
  from await_focus_last [OF a, of P] assms a
  show "lands \<Longrightarrow> wants_a_password_box f \<Longrightarrow> saw_password h1"
    by (auto simp: lands_in_its_box_def saw_password_def bind_eq_Some_conv split: if_splits)
qed

lemma reach_field_keeps [simp]: "each_type P (snd (reach_field cp tab f h)) = each_type P h"
  by (auto simp: reach_field_def aim_at_def box_do_def Let_def split: option.split)

definition right_box :: "form_request \<Rightarrow> answers \<Rightarrow> string \<Rightarrow> box_step list \<Rightarrow> bool" where
  "right_box form vals t pre \<longleftrightarrow>
     (\<exists>f\<in>set (fr_fields form). t = answer_of vals f \<and> \<not> wants_a_password_box f) \<or> saw_password pre"

lemma fill_typed_right:
  assumes "f \<in> set (fr_fields form)" "v = answer_of vals f"
    "each_type (right_box form vals) (fl_steps st)"
  shows "each_type (right_box form vals) (fl_steps (fill_typed cp tab_here f v st))"
proof -
  obtain look h0 where l: "box_look cp (fl_steps st) = (look, h0)" by fastforce
  obtain reached h1 where r: "reach_field cp tab_here f h0 = (reached, h1)" by fastforce
  obtain lands h2 where b:
    "lands_in_its_box cp f (map_option fc_seq look) (moves_focus tab_here f) h1 = (lands, h2)"
    by fastforce
  have "each_type (right_box form vals) h0" using l assms(3) by (metis each_type_look snd_conv)
  then have h1: "each_type (right_box form vals) h1" using r by (metis reach_field_keeps snd_conv)
  then have h2: "each_type (right_box form vals) h2"
    using lands_saw_password(1) [OF b] by simp
  have "right_box form vals v h2" if lands
    using lands_saw_password(2) [OF b that] assms(1, 2) by (auto simp: right_box_def)
  with h1 h2 show ?thesis
    by (simp add: fill_typed_def fill_stuck_def l r b box_do_def)
qed

lemma fill_field_right:
  assumes "f \<in> set (fr_fields form)" "each_type (right_box form vals) (fl_steps st)"
  shows "each_type (right_box form vals) (fl_steps (fill_field cp form vals i f st))"
  using assms fill_typed_right [of f form "answer_of vals f" vals st]
  by (auto simp: fill_field_def Let_def fill_blank_def box_do_def)

lemma fill_fields_right:
  "set fs \<subseteq> set (fr_fields form) \<Longrightarrow> each_type (right_box form vals) (fl_steps st) \<Longrightarrow>
   each_type (right_box form vals) (fl_steps (fill_fields cp form vals i fs st))"
  by (induction cp form vals i fs st rule: fill_fields.induct) (auto intro: fill_field_right)

lemma fill_into_focus_right:
  "each_type (right_box form vals) h \<Longrightarrow>
   each_type (right_box form vals) (snd (fill_into_focus cp form vals h))"
  using fill_fields_right [of "take (type_limit form) (fr_fields form)" form vals
      "\<lparr>fl_outcomes = [], fl_typed = 0, fl_gave_up = False, fl_steps = h\<rparr>" cp 0]
  by (auto simp: fill_into_focus_def Let_def box_do_def set_take_subset)

text \<open>C11: a value is typed into the page only as the answer of a field that is no password, or into a box
  the computer has just said is a password box, whatever the computer answers and however the
  page moves.
\<close>

theorem passwords_in_password_boxes:
  assumes "snd (fill_into_focus cp form vals []) = post @ Acted (TypeText t) went # pre"
  shows "(\<exists>f\<in>set (fr_fields form). t = answer_of vals f \<and> \<not> wants_a_password_box f) \<or>
         (\<exists>g rest. pre = Looked (Some g) # rest \<and> fc_kind g = Some ''password'')"
proof -
  have "each_type (right_box form vals) (snd (fill_into_focus cp form vals []))"
    by (rule fill_into_focus_right) simp
  with assms have "right_box form vals t pre" unfolding each_type_def by blast
  then show ?thesis unfolding right_box_def saw_password_def .
qed

definition sample_login :: form_request where
  "sample_login =
     \<lparr>fr_title = ''Log in'', fr_instruction = [],
      fr_fields =
        [\<lparr>ff_id = ''email'', ff_label = ''Email'', ff_type = ''email'', ff_required = True,
          ff_secret = False, ff_at = None\<rparr>,
         \<lparr>ff_id = ''pw'', ff_label = ''Password'', ff_type = ''password'', ff_required = True,
          ff_secret = False, ff_at = Some \<lparr>fa_x = 4, fa_y = 5\<rparr>\<rparr>],
      fr_domain = None, fr_live_host = None, fr_challenge_kind = None, fr_passkey_mode = None,
      fr_same_page = True, fr_submit = True\<rparr>"

definition sample_answers :: answers where
  "sample_answers = [(''email'', ''a@b''), (''pw'', ''hunter2'')]"

definition sample_computer :: computer where
  "sample_computer =
     \<lparr>cp_act = \<lambda>h a. True, cp_focus = \<lambda>h. Some \<lparr>fc_kind = Some ''password'', fc_seq = length h\<rparr>,
      cp_late = \<lambda>h. False\<rparr>"

theorem passwords_in_password_boxes_witness:
  "\<exists>post pre. snd (fill_into_focus sample_computer sample_login sample_answers []) =
      post @ Acted (TypeText ''hunter2'') True # pre \<and>
    ((\<exists>f\<in>set (fr_fields sample_login). ''hunter2'' = answer_of sample_answers f \<and>
        \<not> wants_a_password_box f) \<or>
     (\<exists>g rest. pre = Looked (Some g) # rest \<and> fc_kind g = Some ''password''))"
proof -
  let ?h = "snd (fill_into_focus sample_computer sample_login sample_answers [])"
  have h: "?h = [Acted (Key ''Return'') True] @ Acted (TypeText ''hunter2'') True #
      drop 2 ?h"
    by code_simp
  from passwords_in_password_boxes [OF h] h show ?thesis by blast
qed

section \<open>What a fill reports\<close>

lemma box_do_steps: "snd (box_do cp h a) = Acted a (fst (box_do cp h a)) # h"
  by (simp add: box_do_def Let_def)

lemma fill_typed_outcomes:
  "map fo_id (fl_outcomes (fill_typed cp tab f v st)) = map fo_id (fl_outcomes st) @ [ff_id f]"
  by (simp add: fill_typed_def fill_stuck_def outcome_def split: prod.split)

lemma fill_field_outcomes:
  "map fo_id (fl_outcomes (fill_field cp form vals i f st)) = map fo_id (fl_outcomes st) @ [ff_id f]"
  by (simp add: fill_field_def fill_blank_def fill_typed_outcomes Let_def outcome_def split: prod.split)

lemma fill_fields_outcomes:
  "map fo_id (fl_outcomes (fill_fields cp form vals i fs st)) =
     map fo_id (fl_outcomes st) @ map ff_id fs"
  by (induction cp form vals i fs st rule: fill_fields.induct) (simp_all add: fill_field_outcomes)

definition no_return :: "box_step list \<Rightarrow> bool" where
  "no_return h \<longleftrightarrow> (\<forall>w. Acted (Key ''Return'') w \<notin> set h)"

lemma no_return_simps [simp]:
  "no_return []" "no_return (Looked f # h) = no_return h"
  "no_return (Acted a w # h) \<longleftrightarrow> a \<noteq> Key ''Return'' \<and> no_return h"
  by (auto simp: no_return_def)

lemma await_focus_no_return: "no_return (snd (await_focus cp before reached turns h)) = no_return h"
proof (induction turns arbitrary: h)
  case 0
  show ?case by (subst await_focus.simps) (simp add: box_look_def Let_def)
next
  case (Suc n)
  then show ?case by (subst await_focus.simps) (simp add: box_look_def Let_def)
qed

lemma lands_no_return: "no_return (snd (lands_in_its_box cp f before reached h)) = no_return h"
  using await_focus_no_return [of cp before reached "focus_wait_ms div focus_poll_ms" h]
  by (auto simp: lands_in_its_box_def split: prod.splits)

lemma reach_field_no_return: "no_return (snd (reach_field cp tab f h)) = no_return h"
  by (auto simp: reach_field_def aim_at_def box_do_def Let_def split: option.split)

lemma fill_typed_no_return:
  "no_return (fl_steps (fill_typed cp tab f v st)) = no_return (fl_steps st)"
proof -
  obtain look h0 where l: "box_look cp (fl_steps st) = (look, h0)" by fastforce
  obtain reached h1 where r: "reach_field cp tab f h0 = (reached, h1)" by fastforce
  obtain lands h2 where b:
    "lands_in_its_box cp f (map_option fc_seq look) (moves_focus tab f) h1 = (lands, h2)"
    by fastforce
  have "no_return h0 = no_return (fl_steps st)" using l by (auto simp: box_look_def Let_def)
  moreover have "no_return h1 = no_return h0" using reach_field_no_return r by (metis snd_conv)
  moreover have "no_return h2 = no_return h1" using lands_no_return b by (metis snd_conv)
  ultimately show ?thesis by (simp add: fill_typed_def fill_stuck_def l r b box_do_def)
qed

lemma fill_field_no_return:
  "no_return (fl_steps (fill_field cp form vals i f st)) = no_return (fl_steps st)"
  by (simp add: fill_field_def fill_blank_def Let_def box_do_def fill_typed_no_return)

lemma fill_fields_no_return:
  "no_return (fl_steps (fill_fields cp form vals i fs st)) = no_return (fl_steps st)"
  by (induction cp form vals i fs st rule: fill_fields.induct) (simp_all add: fill_field_no_return)

text \<open>Something counted as typed is reported as filled.\<close>

definition counts_typed :: "fill \<Rightarrow> bool" where
  "counts_typed st \<longleftrightarrow> (0 < fl_typed st \<longrightarrow> list_ex fo_filled (fl_outcomes st))"

lemma fill_typed_counts: "counts_typed st \<Longrightarrow> counts_typed (fill_typed cp tab f v st)"
  by (auto simp: counts_typed_def fill_typed_def fill_stuck_def outcome_def box_do_def split: prod.split)

lemma fill_field_counts: "counts_typed st \<Longrightarrow> counts_typed (fill_field cp form vals i f st)"
  using fill_typed_counts [of st cp]
  by (auto simp: fill_field_def Let_def fill_blank_def counts_typed_def outcome_def split: prod.split)

lemma fill_fields_counts: "counts_typed st \<Longrightarrow> counts_typed (fill_fields cp form vals i fs st)"
  by (induction cp form vals i fs st rule: fill_fields.induct) (auto intro: fill_field_counts)

text \<open>
  A fill reports every field of the form once, in order, and presses Return only after a fill in
  which nothing failed and something was typed.
\<close>

theorem fill_reports_every_field:
  "map fo_id (fst (fill_into_focus cp form vals [])) = map ff_id (fr_fields form) \<and>
   (Acted (Key ''Return'') went \<in> set (snd (fill_into_focus cp form vals [])) \<longrightarrow>
      \<not> list_ex fo_failed (fst (fill_into_focus cp form vals [])) \<and>
      list_ex fo_filled (fst (fill_into_focus cp form vals [])))"
proof -
  let ?fs = "take (type_limit form) (fr_fields form)"
  let ?st = "fill_fields cp form vals 0 ?fs
      \<lparr>fl_outcomes = [], fl_typed = 0, fl_gave_up = False, fl_steps = []\<rparr>"
  let ?rest = "map (\<lambda>f. outcome f False False) (drop (length (fl_outcomes ?st)) (fr_fields form))"
  have ids: "map fo_id (fl_outcomes ?st) = map ff_id ?fs"
    by (simp add: fill_fields_outcomes)
  then have len: "length (fl_outcomes ?st) = length ?fs" by (metis length_map)
  have "map fo_id (fl_outcomes ?st @ ?rest) = map ff_id (?fs @ drop (length ?fs) (fr_fields form))"
    unfolding map_append ids by (simp add: len outcome_def)
  also have "?fs @ drop (length ?fs) (fr_fields form) = fr_fields form"
    by (metis append_take_drop_id length_take min.commute min_def take_all_iff drop_all nle_le append_Nil2)
  finally have all: "map fo_id (fl_outcomes ?st @ ?rest) = map ff_id (fr_fields form)" .
  have "no_return (fl_steps ?st)" by (simp add: fill_fields_no_return)
  moreover have "counts_typed ?st" by (rule fill_fields_counts) (simp add: counts_typed_def)
  moreover have "should_press_return form (fl_typed ?st) \<Longrightarrow> 0 < fl_typed ?st"
    by (simp add: should_press_return_def split: if_splits)
  ultimately show ?thesis
    using all
    by (auto simp: fill_into_focus_def Let_def box_do_def no_return_def counts_typed_def
        overall_resolution_def split: if_splits)
qed

theorem fill_reports_every_field_witness:
  "map fo_id (fst (fill_into_focus sample_computer sample_login sample_answers [])) = [''email'', ''pw''] \<and>
   Acted (Key ''Return'') True \<in> set (snd (fill_into_focus sample_computer sample_login sample_answers [])) \<and>
   \<not> list_ex fo_failed (fst (fill_into_focus sample_computer sample_login sample_answers []))"
proof -
  have r: "hd (snd (fill_into_focus sample_computer sample_login sample_answers [])) =
      Acted (Key ''Return'') True" "snd (fill_into_focus sample_computer sample_login sample_answers []) \<noteq> []"
    by code_simp+
  then have "Acted (Key ''Return'') True \<in>
      set (snd (fill_into_focus sample_computer sample_login sample_answers []))"
    by (metis list.set_sel(1))
  with fill_reports_every_field [of sample_computer sample_login sample_answers True]
  show ?thesis by (simp add: sample_login_def)
qed

section \<open>What is stored and what the model may see\<close>

lemma field_json_get [simp]: "json_get (field_json f) ''value'' = None"
  by (simp add: field_json_def split: option.split)

lemma field_json_id [simp]: "str_at (field_json f) ''id'' = Some (ff_id f)"
  by (simp add: field_json_def split: option.split)

lemma field_json_secret [simp]: "row_is_secret (field_json f) = field_is_secret f"
  by (auto simp: row_is_secret_def field_is_secret_def flag_at_def field_json_def str_at_def
      split: option.split)

lemma json_set_get [simp]:
  "json_get (json_set (JObject m) k w) k' = (if k' = k then Some w else map_of m k')"
  by simp

lemma row_is_secret_set: "row_is_secret (json_set (field_json f) ''value'' w) = field_is_secret f"
  unfolding field_json_secret [symmetric]
  by (simp add: row_is_secret_def flag_at_def field_json_def str_at_def)

lemma prefill_field:
  "prefill sd rows (field_json f) = field_json f \<or>
   \<not> field_is_secret f \<and> (\<exists>v. prefill sd rows (field_json f) = json_set (field_json f) ''value'' (JString v))"
  by (auto simp: prefill_def split: list.split option.split)

lemma stored_row:
  assumes "row \<in> set (rows_of (sanitize_arguments sd arguments))"
  shows "\<exists>f\<in>set (fr_fields (form_request_from arguments)).
     row = field_json f \<or>
     is_chat_collection arguments \<and> \<not> field_is_secret f \<and>
       (\<exists>v. row = json_set (field_json f) ''value'' (JString v))"
proof -
  let ?form = "form_request_from arguments"
  have "rows_of (sanitize_arguments sd arguments) =
      (if is_chat_collection arguments
       then map (prefill sd (rows_of (form_source arguments))) (map field_json (fr_fields ?form))
       else map field_json (fr_fields ?form))"
    by (simp add: rows_of_def sanitize_arguments_def Let_def)
  with assms prefill_field show ?thesis
    by (auto split: if_splits) metis
qed

lemma sanitize_keys:
  "sanitize_arguments sd arguments = JObject m \<Longrightarrow>
   fst ` set m \<subseteq> {''title'', ''instruction'', ''fields'', ''domain'', ''liveHost'', ''passkeyMode'',
     ''challengeKind'', ''samePage'', ''submit'', ''collect''}"
proof -
  have opt: "fst ` set (opt_member k v) \<subseteq> {k}" for k v by (auto simp: opt_member_def split: option.split)
  have flag: "fst ` set (if b then [(k, v)] else []) \<subseteq> {k}" for b and k :: string and v :: json by auto
  assume "sanitize_arguments sd arguments = JObject m"
  then show ?thesis
    unfolding sanitize_arguments_def Let_def json.inject
    by (elim subst) (use opt flag in \<open>simp add: image_Un; blast\<close>)
qed

text \<open>C32: what a call stores of a form keeps no value but a collect card's prefill of a field that is not
  secret, and keeps no member beside the ten of the card, so values the model put anywhere else
  in the arguments are gone.
\<close>

theorem stored_card_keeps_no_secret:
  assumes "sanitize_arguments sd arguments = JObject m"
  shows "fst ` set m \<subseteq> {''title'', ''instruction'', ''fields'', ''domain'', ''liveHost'', ''passkeyMode'',
           ''challengeKind'', ''samePage'', ''submit'', ''collect''} \<and>
    (\<forall>row\<in>set (rows_of (JObject m)). json_get row ''value'' \<noteq> None \<longrightarrow>
       is_chat_collection arguments \<and> \<not> row_is_secret row)"
proof -
  have "is_chat_collection arguments \<and> \<not> row_is_secret row"
    if row: "row \<in> set (rows_of (JObject m))" and v: "json_get row ''value'' \<noteq> None" for row
  proof -
    from row assms obtain f where "row = field_json f \<or>
        is_chat_collection arguments \<and> \<not> field_is_secret f \<and>
        (\<exists>v. row = json_set (field_json f) ''value'' (JString v))"
      using stored_row [of row sd arguments] by auto
    with v show ?thesis by (auto simp: row_is_secret_set)
  qed
  with sanitize_keys [OF assms] show ?thesis by blast
qed

definition sample_serde :: serde where
  "sample_serde = \<lparr>sd_from_str = \<lambda>_. None, sd_to_string = \<lambda>_. []\<rparr>"

definition sample_card :: json where
  "sample_card = JObject
     [(''collect'', JBool True), (''values'', JObject [(''pw'', JString ''hunter2'')]),
      (''fields'', JArray
        [JObject [(''id'', JString ''tin''), (''value'', JString '' 123 '')],
         JObject [(''id'', JString ''pw''), (''type'', JString ''Password''), (''value'', JString ''hunter2'')]])]"

theorem stored_card_keeps_no_secret_witness:
  "\<exists>m. sanitize_arguments sample_serde sample_card = JObject m \<and>
     map (\<lambda>row. json_get row ''value'') (rows_of (JObject m)) = [Some (JString ''123''), None] \<and>
     ''values'' \<notin> fst ` set m \<and>
     (\<forall>row\<in>set (rows_of (JObject m)). json_get row ''value'' \<noteq> None \<longrightarrow> \<not> row_is_secret row)"
proof -
  obtain m where m: "sanitize_arguments sample_serde sample_card = JObject m"
    by (simp add: sanitize_arguments_def Let_def)
  have "map (\<lambda>row. json_get row ''value'') (rows_of (sanitize_arguments sample_serde sample_card)) =
      [Some (JString ''123''), None]"
    by code_simp
  with stored_card_keeps_no_secret [OF m] m show ?thesis by auto
qed

lemma map_filter_cong':
  "(\<And>x. x \<in> set xs \<Longrightarrow> f x = g x) \<Longrightarrow> List.map_filter f xs = List.map_filter g xs"
  by (induction xs) (auto simp: List.map_filter_simps split: option.split)

lemma shared_agree:
  assumes "\<forall>f\<in>set (fr_fields form). \<not> field_is_secret f \<and> sole_field form f \<longrightarrow>
     bm_get v1 (ff_id f) = bm_get v2 (ff_id f)"
  shows "shared_values form v1 = shared_values form v2"
  unfolding shared_values_def
  by (rule arg_cong [where f = "\<lambda>l. bm_extend l []"], rule map_filter_cong') (use assms in auto)

lemma bm_extend_keys:
  "fst ` set (bm_extend kvs m) = fst ` set kvs \<union> fst ` set m"
proof (induction kvs arbitrary: m)
  case (Cons kv kvs)
  have "bm_extend (kv # kvs) m = bm_extend kvs (bm_insert (fst kv) (snd kv) m)"
    by (simp add: bm_extend_def case_prod_beta)
  with Cons show ?case by (simp add: bm_insert_keys)
qed (simp add: bm_extend_def)

lemma shared_keys:
  "k \<in> fst ` set (shared_values form vals) \<Longrightarrow>
     \<exists>f\<in>set (fr_fields form). ff_id f = k \<and> \<not> field_is_secret f"
  by (auto simp: shared_values_def bm_extend_keys List.map_filter_def)

text \<open>C33: what the model is told of a submitted form does not depend on the secrets: answers that differ
  in secret fields only are told in the same words, and no secret field is among the shared ones.
\<close>

theorem model_never_learns_a_secret:
  assumes "\<forall>f\<in>set (fr_fields form). \<not> field_is_secret f \<and> sole_field form f \<longrightarrow>
     bm_get v1 (ff_id f) = bm_get v2 (ff_id f)"
  shows "model_facing_result entry form r (shared_values form v1) t =
         model_facing_result entry form r (shared_values form v2) t \<and>
    (\<forall>k\<in>fst ` set (shared_values form v1). \<exists>f\<in>set (fr_fields form). ff_id f = k \<and> \<not> field_is_secret f)"
  using shared_agree [OF assms] shared_keys [of _ form v1] by auto

theorem model_never_learns_a_secret_witness:
  "model_facing_result JNull sample_login Submitted (shared_values sample_login sample_answers) False =
   model_facing_result JNull sample_login Submitted
     (shared_values sample_login [(''email'', ''a@b''), (''pw'', ''letmein'')]) False \<and>
   shared_values sample_login sample_answers = [(''email'', ''a@b'')]"
proof -
  have "\<forall>f\<in>set (fr_fields sample_login). \<not> field_is_secret f \<and> sole_field sample_login f \<longrightarrow>
      bm_get sample_answers (ff_id f) = bm_get [(''email'', ''a@b''), (''pw'', ''letmein'')] (ff_id f)"
    by code_simp
  from model_never_learns_a_secret [OF this, of JNull Submitted False]
  have "model_facing_result JNull sample_login Submitted (shared_values sample_login sample_answers) False =
   model_facing_result JNull sample_login Submitted
     (shared_values sample_login [(''email'', ''a@b''), (''pw'', ''letmein'')]) False" by blast
  moreover have "shared_values sample_login sample_answers = [(''email'', ''a@b'')]" by code_simp
  ultimately show ?thesis by blast
qed

end
