(* ===== verification/Tool_Call.thy ===== *)
theory Tool_Call
  imports Agui Forms
begin

text \<open>
  A call the model makes and the result it reads (\<open>opengrok-tools/src/lib.rs\<close>,
  \<open>review.rs\<close>), and the scrub that keeps a password off every event and journal row
  (\<open>opengrok-tools/src/credential.rs\<close>).
\<close>

section \<open>Calls and results\<close>

record tool_call =
  tc_id :: string
  tc_name :: string
  tc_arguments :: json

datatype awaiting_reason = AwaitExecConsent | AwaitPolicyApproval | AwaitAutoReview | AwaitUserForm

fun awaiting_reason_as_str :: "awaiting_reason \<Rightarrow> string" where
  "awaiting_reason_as_str AwaitExecConsent = ''exec-consent''"
| "awaiting_reason_as_str AwaitPolicyApproval = ''policy-approval''"
| "awaiting_reason_as_str AwaitAutoReview = ''auto-review''"
| "awaiting_reason_as_str AwaitUserForm = ''user-form''"

datatype image_visibility = AgentImage | TranscriptImage | FailureImage | EndImage

fun image_visibility_as_str :: "image_visibility \<Rightarrow> string" where
  "image_visibility_as_str AgentImage = ''agent''"
| "image_visibility_as_str TranscriptImage = ''transcript''"
| "image_visibility_as_str FailureImage = ''failure''"
| "image_visibility_as_str EndImage = ''end''"

record tool_image =
  ti_mime :: string
  ti_base64 :: string
  ti_width :: "32 word"
  ti_height :: "32 word"
  ti_visibility :: image_visibility

record tool_result =
  tr_call_id :: string
  tr_ok :: bool
  tr_content :: string
  tr_awaiting_approval :: bool
  tr_awaiting_reason :: "awaiting_reason option"
  tr_image :: "tool_image option"
  tr_stopped_part_way :: bool
  tr_customs :: "(string \<times> json) list"

definition result_ok :: "string \<Rightarrow> string \<Rightarrow> tool_result" where
  "result_ok i c =
     \<lparr>tr_call_id = i, tr_ok = True, tr_content = c, tr_awaiting_approval = False,
      tr_awaiting_reason = None, tr_image = None, tr_stopped_part_way = False, tr_customs = []\<rparr>"

definition result_awaiting :: "string \<Rightarrow> awaiting_reason \<Rightarrow> string \<Rightarrow> tool_result" where
  "result_awaiting i reason why =
     \<lparr>tr_call_id = i, tr_ok = False, tr_content = ''waiting for approval: '' @ why,
      tr_awaiting_approval = True, tr_awaiting_reason = Some reason, tr_image = None,
      tr_stopped_part_way = False, tr_customs = []\<rparr>"

definition result_refused :: "string \<Rightarrow> string \<Rightarrow> tool_result" where
  "result_refused i why =
     \<lparr>tr_call_id = i, tr_ok = False, tr_content = ''refused: '' @ why, tr_awaiting_approval = False,
      tr_awaiting_reason = None, tr_image = None, tr_stopped_part_way = False, tr_customs = []\<rparr>"

definition part_way :: "tool_result \<Rightarrow> tool_result" where
  "part_way r = r\<lparr>tr_stopped_part_way := True\<rparr>"

definition user_machine_shell :: string where
  "user_machine_shell = ''user_machine_shell''"

definition run_recipe :: string where
  "run_recipe = ''run_recipe''"

section \<open>The scrub\<close>

definition secret_keys :: "string list" where
  "secret_keys = [''password'', ''passwd'', ''pwd'']"

definition is_secret_key :: "string \<Rightarrow> json \<Rightarrow> bool" where
  "is_secret_key key v \<longleftrightarrow>
     (let lower = to_ascii_lowercase key
      in if lower \<in> set secret_keys \<or> contains_str ''password'' lower then True
         else if lower = ''secret'' \<or> lower = ''pass'' then as_bool v = None
         else False)"

definition looks_like_json :: "string \<Rightarrow> bool" where
  "looks_like_json t \<longleftrightarrow>
     starts_with ''{'' t \<and> ends_with ''}'' t \<or> starts_with ''['' t \<and> ends_with '']'' t"

text \<open>
  A text that reads as JSON is scrubbed inside, and so on into the texts it holds. Those are
  shorter than the text itself, so \<open>n\<close> levels are enough for a value whose texts are at most
  \<open>n\<close> long (\<open>scrub_enough\<close> below); \<open>scrub_secret_keys\<close> goes as deep as its longest text.
\<close>

fun longest :: "json \<Rightarrow> nat" where
  "longest (JString t) = length t"
| "longest (JArray vs) = fold max (map longest vs) 0"
| "longest (JObject m) = fold max (map (\<lambda>kv. longest (snd kv)) m) 0"
| "longest _ = 0"

lemma json_size_member [termination_simp]:
  "(k, v) \<in> set m \<Longrightarrow> size v < Suc (size_list (size_prod (\<lambda>_. 0) size) m)"
  by (induction m) (auto simp: less_Suc_eq_le)

function scrub :: "serde \<Rightarrow> nat \<Rightarrow> json \<Rightarrow> json" where
  "scrub sd n (JObject m) =
     JObject (map (\<lambda>kv. (fst kv, scrub sd n (snd kv))) (filter (\<lambda>kv. \<not> is_secret_key (fst kv) (snd kv)) m))"
| "scrub sd n (JArray vs) = JArray (map (scrub sd n) vs)"
| "scrub sd n (JString t) =
     (case n of
        0 \<Rightarrow> JString t
      | Suc k \<Rightarrow>
          if looks_like_json (trim t)
          then case sd_from_str sd (trim t) of
                 Some v \<Rightarrow> JString (sd_to_string sd (scrub sd k v))
               | None \<Rightarrow> JString t
          else JString t)"
| "scrub sd n JNull = JNull"
| "scrub sd n (JBool b) = JBool b"
| "scrub sd n (JInt i) = JInt i"
| "scrub sd n (JFloat w) = JFloat w"
  by pat_completeness auto
termination
  by (relation "measures [\<lambda>(sd, n, v). n, \<lambda>(sd, n, v). size v]")
    (auto simp: json_size_member less_Suc_eq_le intro: size_list_estimation')

definition scrub_secret_keys :: "serde \<Rightarrow> json \<Rightarrow> json" where
  "scrub_secret_keys sd v = scrub sd (longest v) v"

text \<open>
  What a value may look like after the scrub: no member under a secret key, at any depth, and a
  text either is no JSON text or is the writing of a value that is scrubbed itself.
\<close>

inductive scrubbed :: "serde \<Rightarrow> json \<Rightarrow> bool" for sd where
  scrubbed_object: "(\<And>k v. (k, v) \<in> set m \<Longrightarrow> \<not> is_secret_key k v \<and> scrubbed sd v) \<Longrightarrow>
     scrubbed sd (JObject m)"
| scrubbed_array: "(\<And>v. v \<in> set vs \<Longrightarrow> scrubbed sd v) \<Longrightarrow> scrubbed sd (JArray vs)"
| scrubbed_plain: "\<not> looks_like_json (trim t) \<or> sd_from_str sd (trim t) = None \<Longrightarrow> scrubbed sd (JString t)"
| scrubbed_again: "scrubbed sd v \<Longrightarrow> scrubbed sd (JString (sd_to_string sd v))"
| scrubbed_null: "scrubbed sd JNull"
| scrubbed_bool: "scrubbed sd (JBool b)"
| scrubbed_int: "scrubbed sd (JInt i)"
| scrubbed_float: "scrubbed sd (JFloat w)"

inductive_cases scrubbed_objectE: "scrubbed sd (JObject m)"

text \<open>What is relied on of the JSON reader: the texts in a value are shorter than its own text.\<close>

definition reads_shorter :: "serde \<Rightarrow> bool" where
  "reads_shorter sd \<longleftrightarrow> (\<forall>t v. sd_from_str sd t = Some v \<longrightarrow> longest v < length t)"

lemma fold_max_le: "fold max ns (a::nat) \<le> b \<longleftrightarrow> a \<le> b \<and> (\<forall>n\<in>set ns. n \<le> b)"
  by (induction ns arbitrary: a) auto

lemma longest_member: "longest (JObject m) \<le> n \<Longrightarrow> (k, v) \<in> set m \<Longrightarrow> longest v \<le> n"
  by (auto simp: fold_max_le)

lemma as_bool_scrub: "as_bool (scrub sd n v) = as_bool v"
  by (cases v) (auto split: nat.split option.split)

lemma is_secret_key_scrub: "is_secret_key k (scrub sd n v) = is_secret_key k v"
  by (simp add: is_secret_key_def as_bool_scrub)

lemma looks_like_json_nonempty: "looks_like_json t \<Longrightarrow> t \<noteq> []"
  by (auto simp: looks_like_json_def starts_with_def)

lemma reads_shorterD:
  "reads_shorter sd \<Longrightarrow> sd_from_str sd (trim t) = Some v \<Longrightarrow> longest v < length t"
  unfolding reads_shorter_def by (meson length_trim_le less_le_trans)

lemma scrub_scrubbed: "reads_shorter sd \<Longrightarrow> longest v \<le> n \<Longrightarrow> scrubbed sd (scrub sd n v)"
proof (induction sd n v rule: scrub.induct)
  case (1 sd n m)
  have "\<not> is_secret_key k w \<and> scrubbed sd w"
    if "(k, w) \<in> set (map (\<lambda>kv. (fst kv, scrub sd n (snd kv)))
          (filter (\<lambda>kv. \<not> is_secret_key (fst kv) (snd kv)) m))" for k w
  proof -
    from that obtain v where v: "(k, v) \<in> set m" "\<not> is_secret_key k v" "w = scrub sd n v" by auto
    with "1.IH" [of "(k, v)"] "1.prems"(1) longest_member [OF "1.prems"(2) v(1)] show ?thesis
      by (simp add: is_secret_key_scrub)
  qed
  then show ?case by (simp only: scrub.simps) (rule scrubbed_object)
next
  case (2 sd n vs)
  then show ?case by (auto intro!: scrubbed_array simp: fold_max_le)
next
  case (3 sd n t)
  show ?case
  proof (cases "looks_like_json (trim t)")
    case True
    then have "length t \<noteq> 0" using looks_like_json_nonempty by fastforce
    with 3 obtain k where k: "n = Suc k" by (cases n) auto
    show ?thesis
    proof (cases "sd_from_str sd (trim t)")
      case None
      with True k show ?thesis by (auto intro: scrubbed_plain)
    next
      case (Some v)
      then have "longest v \<le> k" using reads_shorterD "3.prems" k by fastforce
      with "3.IH" [OF k True Some] "3.prems"(1) True Some k show ?thesis by (auto intro: scrubbed_again)
    qed
  next
    case False
    then show ?thesis by (auto intro: scrubbed_plain split: nat.split)
  qed
qed (auto intro: scrubbed.intros)

lemma scrub_secret_keys_scrubbed: "reads_shorter sd \<Longrightarrow> scrubbed sd (scrub_secret_keys sd v)"
  by (simp add: scrub_secret_keys_def scrub_scrubbed)

text \<open>Going deeper than the longest text changes nothing.\<close>

lemma scrub_enough:
  "reads_shorter sd \<Longrightarrow> longest v \<le> n \<Longrightarrow> longest v \<le> n' \<Longrightarrow> scrub sd n v = scrub sd n' v"
proof (induction sd n v arbitrary: n' rule: scrub.induct)
  case (1 sd n m)
  have "scrub sd n (snd kv) = scrub sd n' (snd kv)"
    if "kv \<in> set (filter (\<lambda>kv. \<not> is_secret_key (fst kv) (snd kv)) m)" for kv
  proof -
    have "(fst kv, snd kv) \<in> set m" using that by simp
    from "1.IH" [OF that "1.prems"(1)] longest_member [OF "1.prems"(2) this]
      longest_member [OF "1.prems"(3) this]
    show ?thesis by blast
  qed
  then show ?case by simp
next
  case (2 sd n vs)
  then show ?case by (auto simp: fold_max_le)
next
  case (3 sd n t)
  show ?case
  proof (cases "looks_like_json (trim t) \<and> sd_from_str sd (trim t) \<noteq> None")
    case True
    then obtain v where v: "sd_from_str sd (trim t) = Some v" by auto
    have "length t \<noteq> 0" using True looks_like_json_nonempty by fastforce
    with "3.prems" obtain k k' where k: "n = Suc k" "n' = Suc k'" by (cases n; cases n') auto
    have le: "longest v \<le> k" "longest v \<le> k'" using reads_shorterD v "3.prems" k by fastforce+
    from "3.IH" [OF k(1) conjunct1 [OF True] v "3.prems"(1) le] True v k show ?thesis by simp
  qed (auto split: nat.split)
qed auto

end
