(* ===== verification/Model_Door.thy ===== *)
theory Model_Door
  imports Tool_Call Vocabulary
begin

text \<open>
  What the loop asks a model for and what may go wrong at the door
  (\<open>opengrok-harness/src/model.rs\<close>): messages, the request, the errors with the sentence a person
  is shown, and when a door that did not open is asked again. A relay's broker is not part of
  what a request says, so a relay is its account, run and machines.
\<close>

section \<open>Messages and requests\<close>

record image_part =
  ip_mime :: string
  ip_base64 :: string

record tool_call_ref =
  rf_id :: string
  rf_name :: string
  rf_arguments :: string

record chat_message =
  cm_role :: string
  cm_content :: string
  cm_images :: "image_part list"
  cm_tool_calls :: "tool_call_ref list"
  cm_tool_call_id :: "string option"

definition message_of :: "string \<Rightarrow> string \<Rightarrow> chat_message" where
  "message_of role txt =
     \<lparr>cm_role = role, cm_content = txt, cm_images = [], cm_tool_calls = [], cm_tool_call_id = None\<rparr>"

definition message_calls :: "string \<Rightarrow> tool_call_ref list \<Rightarrow> chat_message" where
  "message_calls txt calls = (message_of ''assistant'' txt)\<lparr>cm_tool_calls := calls\<rparr>"

definition message_result :: "string \<Rightarrow> string \<Rightarrow> chat_message" where
  "message_result call txt = (message_of ''tool'' txt)\<lparr>cm_tool_call_id := Some call\<rparr>"

definition is_json_whitespace :: "char \<Rightarrow> bool" where
  "is_json_whitespace c \<longleftrightarrow> c \<in> {CHR '' '', CHR 0x09, CHR 0x0A, CHR 0x0D}"

definition provider_arguments :: "serde \<Rightarrow> tool_call_ref \<Rightarrow> string" where
  "provider_arguments sd r =
     (let txt = trim_matches is_json_whitespace (rf_arguments r)
      in if starts_with ''{'' txt \<and> sd_from_str sd txt \<noteq> None then rf_arguments r else ''{}'')"

definition called_line :: "tool_call_ref \<Rightarrow> string" where
  "called_line r = ''[called '' @ rf_name r @ '' '' @ rf_arguments r @ '' as '' @ rf_id r @ '']''"

definition as_text :: "chat_message \<Rightarrow> string" where
  "as_text m =
     (let txt = foldl (\<lambda>t r. (if t = [] then t else t @ [CHR 0x0A]) @ called_line r)
                  (cm_content m) (cm_tool_calls m)
      in case cm_tool_call_id m of
           Some i \<Rightarrow> ''[tool '' @ i @ '' result] '' @ txt
         | None \<Rightarrow> txt)"

datatype gateway_key = OwnKey string "string option" | UnavailableKey string

fun key_id :: "gateway_key \<Rightarrow> string option" where
  "key_id (OwnKey key i) = i"
| "key_id (UnavailableKey why) = None"

record relay_to =
  rl_account :: string
  rl_run_id :: string
  rl_machines :: "string list"

datatype model_endpoint =
    ProxyEndpoint string "(string \<times> string) option"
  | RelayEndpoint relay_to
  | UnavailableEndpoint string "via option" bool

fun endpoint_via :: "model_endpoint \<Rightarrow> via option" where
  "endpoint_via (ProxyEndpoint url auth) = Some Loopback"
| "endpoint_via (RelayEndpoint to) = Some Mac"
| "endpoint_via (UnavailableEndpoint why way unset) = way"

record model_request =
  mr_model :: string
  mr_effort :: effort
  mr_messages :: "chat_message list"
  mr_system :: "string option"
  mr_tools :: "json list"
  mr_gateway_key :: "gateway_key option"
  mr_spend_scope :: "string option"
  mr_spend_actor :: "string option"
  mr_context_tokens :: "nat option"
  mr_endpoint :: "model_endpoint option"
  mr_fallback_for :: "string option"
  mr_customs :: "(string \<times> json) list"

section \<open>What goes wrong\<close>

datatype model_error =
    Unreachable string
  | RefusedByGateway nat string "nat option"
  | StreamBroke string
  | TimedOut string
  | SpendCap string
  | Held string
  | ProxyError string
  | RelayError string string
  | PlanUnavailable string

fun error_code :: "model_error \<Rightarrow> string option" where
  "error_code (RelayError code sentence) = Some code"
| "error_code (PlanUnavailable sentence) = Some ''plan_unavailable''"
| "error_code _ = None"

abbreviation ellipsis :: string where "ellipsis \<equiv> [CHR 0xE2, CHR 0x80, CHR 0xA6]"

definition bounded :: "string \<Rightarrow> string" where
  "bounded msg =
     (let flat = join '' '' (split_whitespace msg)
      in if 200 < chars_count flat then take_chars 200 flat @ ellipsis else flat)"

definition error_kind :: "serde \<Rightarrow> string \<Rightarrow> string" where
  "error_kind sd body =
     (case sd_from_str sd body of
        Some v \<Rightarrow> (case as_str (json_index (json_index v ''error'') ''type'') of Some k \<Rightarrow> k | None \<Rightarrow> [])
      | None \<Rightarrow> [])"

definition gateway_message :: "serde \<Rightarrow> string \<Rightarrow> string option" where
  "gateway_message sd body =
     (let trimmed = trim body;
          said = (case sd_from_str sd trimmed of
              Some v \<Rightarrow>
                (case as_str (json_index (json_index v ''error'') ''message'') of
                   Some m \<Rightarrow> Some m
                 | None \<Rightarrow> (case as_str (json_index v ''error'') of
                     Some m \<Rightarrow> Some m
                   | None \<Rightarrow> (case as_str (json_index v ''message'') of
                       Some m \<Rightarrow> Some m
                     | None \<Rightarrow> as_str (json_index v ''detail''))))
            | None \<Rightarrow> if starts_with ''<'' trimmed \<or> starts_with ''{'' trimmed then None else Some trimmed)
      in case said of
           Some m \<Rightarrow> if bounded m = [] then None else Some (bounded m)
         | None \<Rightarrow> None)"

definition refused_sentence :: "serde \<Rightarrow> nat \<Rightarrow> string \<Rightarrow> nat option \<Rightarrow> string" where
  "refused_sentence sd status body retry_after =
     (let again = (case retry_after of
            Some s \<Rightarrow> ''Try again in '' @ nat_str s @ '' seconds.''
          | None \<Rightarrow> ''Try again in a moment.'');
          kind = error_kind sd body
      in if status = 401 \<or> status = 403 then
           ''The model gateway did not accept the key this turn was sent with, so no model was asked. Whoever runs this server needs to check its gateway key.''
         else if status = 429 then
           ''The model'' @ apos @ ''s provider is limiting how often it can be asked. '' @ again
         else if status = 503 \<and> kind = ''at_capacity'' then
           ''Every credential for this model is busy. '' @ again
         else if status = 503 \<and> (kind = ''no_credential'' \<or> kind = ''no_credential_of_kind'') then
           ''There is no provider credential for this model'' @ apos @ ''s route, so no model was asked. Pin the coworker to another model, or add a credential for this one.''
         else if status = 503 \<and> kind = ''quota_reserve_held'' then
           ''This model'' @ apos @ ''s remaining quota is held back for other work. Try again later, or pin the coworker to another model.''
         else if status = 504 then ''The model stopped answering before it finished.''
         else if 400 \<le> status \<and> status \<le> 499 then
           (case gateway_message sd body of
              Some m \<Rightarrow> ''The model gateway could not take this request: '' @ m
            | None \<Rightarrow> ''The model gateway could not take this request ('' @ nat_str status @ '').'')
         else if 500 \<le> status \<and> status \<le> 599 then
           ''The model gateway failed on its side ('' @ nat_str status @ ''). '' @ again
         else ''The model gateway refused this turn ('' @ nat_str status @ '').'')"

fun error_sentence :: "serde \<Rightarrow> model_error \<Rightarrow> string" where
  "error_sentence sd (Unreachable detail) =
     ''The model gateway could not be reached, so no model was asked. Try again in a moment.''"
| "error_sentence sd (RefusedByGateway status body retry_after) = refused_sentence sd status body retry_after"
| "error_sentence sd (StreamBroke detail) = ''The model'' @ apos @ ''s answer broke off: '' @ bounded detail"
| "error_sentence sd (TimedOut sentence) = sentence"
| "error_sentence sd (SpendCap sentence) = sentence"
| "error_sentence sd (Held sentence) = sentence"
| "error_sentence sd (ProxyError sentence) = sentence"
| "error_sentence sd (PlanUnavailable sentence) = sentence"
| "error_sentence sd (RelayError code sentence) = sentence"

definition max_retry_after_s :: nat where
  "max_retry_after_s = 5"

text \<open>How many seconds to wait before asking the door again, or not at all.\<close>

fun retry_wait :: "serde \<Rightarrow> model_error \<Rightarrow> nat \<Rightarrow> nat option" where
  "retry_wait sd (Unreachable detail) attempt = (if attempt = 0 then Some 1 else None)"
| "retry_wait sd (RefusedByGateway status body (Some s)) attempt =
     (if attempt = 0 \<and> s \<le> max_retry_after_s \<and>
         (status = 429 \<or> status = 503 \<and> error_kind sd body = ''at_capacity'')
      then Some s else None)"
| "retry_wait sd _ attempt = None"

lemma retry_wait_first: "retry_wait sd e attempt = Some s \<Longrightarrow> attempt = 0 \<and> s \<le> max_retry_after_s"
  by (induction sd e attempt rule: retry_wait.induct) (auto simp: max_retry_after_s_def split: if_splits)

lemma bounded_short: "chars_count (bounded msg) \<le> 201"
proof -
  have "chars_count (s @ t) = chars_count s + chars_count t" for s t
    by (simp add: chars_count_def)
  moreover have "chars_count ellipsis = 1" by code_simp
  ultimately show ?thesis
    using chars_count_take_chars [of 200 "join '' '' (split_whitespace msg)"]
    by (auto simp: bounded_def Let_def)
qed

end
