(* ===== verification/Intent.thy ===== *)
theory Intent
  imports Model_Door
begin

text \<open>
  What of a round's words may be shown, and what a tool's answer says about it
  (\<open>opengrok-harness/src/intent.rs\<close>). Pure text functions; JSON inside a tool's output is read
  with the JSON reader's parameter.
\<close>

definition readonly_shell_nudge :: string where
  "readonly_shell_nudge =
     ''[harness] The listing or show result is above. Answer the user with the facts from it. An empty result is the answer: say what was not found. Do not announce another probe or run the same listing again. Do not narrate I'' @
     apos @ ''ll / let me / isn'' @ apos @ ''t answering.''"

definition empty_result_nudge :: string where
  "empty_result_nudge = ''[harness] No matches. Do not repeat the same query. Answer with what was not found.''"

definition opened_target_nudge :: string where
  "opened_target_nudge = ''[harness] That selected the target. Answer with the name and where it opened. Do not run the same command again.''"

definition opened_editor_nudge :: string where
  "opened_editor_nudge = ''[harness] That opened the editor and wrote nothing. Arguments on this command were ignored. Ask for the missing fields with request_user_form and collect set to true. Put values the person already gave on each field as value. Do not call profile.save until that form is answered. set-value is not an invoke name.''"

definition failed_tool_nudge :: string where
  "failed_tool_nudge =
     ''[harness] That call failed. If a one-step fix is obvious (wrong port, missing flag), retry once with no narration. If it fails again, stop'' @
     dash @ ''the harness will report one short failure fact. Do not write a diary of retries.''"

definition max_failed_work_rounds :: nat where
  "max_failed_work_rounds = 2"

definition intent_openers :: "string list" where
  "intent_openers =
     [''i'' @ apos @ ''ll '', ''i will '', ''first i'' @ apos @ ''ll '', ''first i will '', ''first i '',
      ''let me '', ''i'' @ apos @ ''m going '', ''i am going '', ''going to '', ''i am about to '',
      ''i'' @ apos @ ''m about to '', ''now i'' @ apos @ ''ll '', ''next i'' @ apos @ ''ll '',
      ''then i'' @ apos @ ''ll '']"

definition status_markers :: "string list" where
  "status_markers =
     [''isn'' @ apos @ ''t answering'', ''is not answering'', ''isn'' @ apos @ ''t responding'',
      ''is not responding'', ''isn'' @ apos @ ''t running'', ''is not running'', ''isn'' @ apos @ ''t live'',
      ''already live'', ''i'' @ apos @ ''ll probe'', ''i'' @ apos @ ''ll list'', ''i'' @ apos @ ''ll pull'',
      ''i'' @ apos @ ''ll look'', ''i'' @ apos @ ''ll try'', ''i'' @ apos @ ''ll check'',
      ''i'' @ apos @ ''ll fetch'', ''let me check'', ''let me look'', ''let me pull'', ''let me try'',
      ''one moment'', ''hold on'', ''give me a'', ''trying to'', ''trying again'', ''retrying'',
      ''looking up'', ''pulling the'', ''probing '']"

definition closers :: "string list" where
  "closers =
     [''let me know'', ''i'' @ apos @ ''ll be happy'', ''i'' @ apos @ ''ll be glad'',
      ''i'' @ apos @ ''ll be here'', ''i will be happy'', ''i will be glad'', ''i will be here'']"

section \<open>Sentences\<close>

definition normalize :: "string \<Rightarrow> string" where
  "normalize txt =
     to_ascii_lowercase (join '' '' (split_whitespace
       (replace_str [CHR 0xE2, CHR 0x80, CHR 0x98] apos
         (replace_str [CHR 0xE2, CHR 0x80, CHR 0x99] apos txt))))"

definition has_fact_signal :: "string \<Rightarrow> bool" where
  "has_fact_signal txt \<longleftrightarrow> 6 \<le> length (filter is_ascii_digit txt)"

definition opens_with :: "string list \<Rightarrow> string \<Rightarrow> bool" where
  "opens_with ps n \<longleftrightarrow> list_ex (\<lambda>p. starts_with p n) ps"

definition opens_with_intent :: "string \<Rightarrow> bool" where
  "opens_with_intent sentence \<longleftrightarrow>
     (let n = normalize sentence in \<not> opens_with closers n \<and> opens_with intent_openers n)"

definition sentence_is_intent :: "string \<Rightarrow> bool" where
  "sentence_is_intent sentence \<longleftrightarrow>
     (let n = normalize sentence
      in if n = [] then True
         else if opens_with closers n then False
         else if opens_with intent_openers n then True
         else list_ex (\<lambda>m. contains_str m n) status_markers \<and> \<not> has_fact_signal n)"

text \<open>A sentence ends at a line's end, or at a stop before white space or the end of the text.\<close>

definition is_sentence_end :: "char \<Rightarrow> string \<Rightarrow> bool" where
  "is_sentence_end c rest \<longleftrightarrow>
     c = CHR 0x0A \<or>
     (c = CHR ''.'' \<or> c = CHR ''!'' \<or> c = CHR ''?'') \<and>
       (rest = [] \<or> strip_one white_spaces rest \<noteq> None)"

definition slice :: "nat \<Rightarrow> nat \<Rightarrow> string \<Rightarrow> string" where
  "slice a b s = take (b - a) (drop a s)"

definition trimmed_span :: "string \<Rightarrow> nat \<Rightarrow> nat \<Rightarrow> bool \<Rightarrow> (nat \<times> nat \<times> bool) list" where
  "trimmed_span txt a b ended =
     (let piece = slice a b txt;
          lead = length piece - length (trim_start piece);
          tail = length piece - length (trim_end piece)
      in if lead + tail < length piece then [(a + lead, b - tail, ended)] else [])"

fun spans_from :: "string \<Rightarrow> nat \<Rightarrow> nat \<Rightarrow> string \<Rightarrow> (nat \<times> nat \<times> bool) list" where
  "spans_from txt start at [] = trimmed_span txt start at False"
| "spans_from txt start at (c # rest) =
     (if is_sentence_end c rest
      then trimmed_span txt start (at + 1) True @ spans_from txt (at + 1) (at + 1) rest
      else spans_from txt start (at + 1) rest)"

definition sentence_spans :: "string \<Rightarrow> (nat \<times> nat \<times> bool) list" where
  "sentence_spans txt = spans_from txt 0 0 txt"

definition split_sentences :: "string \<Rightarrow> string list" where
  "split_sentences txt = map (\<lambda>(a, b, _). slice a b txt) (sentence_spans txt)"

definition is_retry_diary :: "string \<Rightarrow> bool" where
  "is_retry_diary txt \<longleftrightarrow>
     (let trimmed = trim txt
      in if trimmed = [] then False
         else let sentences = split_sentences trimmed;
                  intents = length (filter sentence_is_intent sentences)
              in if intents = 0 \<or> intents * 2 < length sentences then False
                 else let paragraphs = length (filter (\<lambda>p. trim p \<noteq> []) (split_str [CHR 0x0A, CHR 0x0A] trimmed))
                      in 2 \<le> paragraphs \<or> 3 \<le> intents \<or> 400 < chars_count trimmed \<and> \<not> has_fact_signal trimmed)"

fun intent_until :: "string \<Rightarrow> bool \<Rightarrow> nat \<Rightarrow> (nat \<times> nat \<times> bool) list \<Rightarrow> nat" where
  "intent_until txt finished at [] = at"
| "intent_until txt finished at ((a, b, ended) # spans) =
     (if \<not> (ended \<or> finished) \<or> \<not> opens_with_intent (slice a b txt) then at
      else intent_until txt finished b spans)"

definition leading_intent_end :: "string \<Rightarrow> bool \<Rightarrow> nat" where
  "leading_intent_end txt finished =
     (let at = intent_until txt finished 0 (sentence_spans txt)
      in if at = 0 then 0 else at + (length (drop at txt) - length (trim_start (drop at txt))))"

definition goes_live :: "string \<Rightarrow> nat \<Rightarrow> bool" where
  "goes_live txt min_chars \<longleftrightarrow>
     (let rest = drop (leading_intent_end txt False) txt
      in if chars_count rest < min_chars then False
         else \<not> opens_with_intent
           (case sentence_spans rest of (a, b, _) # _ \<Rightarrow> slice a b rest | [] \<Rightarrow> rest))"

definition strip_intent_keep_facts :: "string \<Rightarrow> string option" where
  "strip_intent_keep_facts txt =
     (if trim txt = [] then None
      else let kept = drop (leading_intent_end txt True) txt
           in if trim kept = [] \<or> is_retry_diary kept then None else Some kept)"

definition visible_chat :: "string \<Rightarrow> string option \<Rightarrow> string option" where
  "visible_chat withheld last_failure =
     (case strip_intent_keep_facts withheld of Some s \<Rightarrow> Some s | None \<Rightarrow> last_failure)"

section \<open>A tool's answer\<close>

definition bracketed_exit_code :: "string \<Rightarrow> int option" where
  "bracketed_exit_code txt =
     (case rsplit_once_str ''[exit code '' txt of
        None \<Rightarrow> None
      | Some (_, rest) \<Rightarrow>
          (case split_once (CHR '']'') rest of
             None \<Rightarrow> None
           | Some (code, _) \<Rightarrow> parse_i32 (trim code)))"

definition leading_render_exit_code :: "string \<Rightarrow> int option" where
  "leading_render_exit_code txt =
     (case text_lines txt of
        [] \<Rightarrow> None
      | first_line # others \<Rightarrow>
          (case strip_prefix ''exit '' (trim first_line) of
             None \<Rightarrow> None
           | Some rest \<Rightarrow>
               (case parse_i32 (trim rest) of
                  None \<Rightarrow> None
                | Some code \<Rightarrow>
                    if list_ex (starts_with ''--- '') others \<or>
                       length (filter (\<lambda>l. trim l \<noteq> []) (first_line # others)) = 1
                    then Some code else None)))"

definition shell_exit_code :: "string \<Rightarrow> int option" where
  "shell_exit_code txt =
     (case bracketed_exit_code txt of Some code \<Rightarrow> Some code | None \<Rightarrow> leading_render_exit_code txt)"

fun position :: "('a \<Rightarrow> bool) \<Rightarrow> 'a list \<Rightarrow> nat option" where
  "position P [] = None"
| "position P (x # xs) = (if P x then Some 0 else map_option Suc (position P xs))"

definition is_quote_mark :: "char \<Rightarrow> bool" where
  "is_quote_mark c \<longleftrightarrow> c = CHR 0x27 \<or> c = CHR 0x22 \<or> c = CHR 0x5C"

definition shell_action_key :: "string \<Rightarrow> string" where
  "shell_action_key command =
     (let tokens = split_whitespace command
      in case position (\<lambda>t. t = ''invoke'') tokens of
           None \<Rightarrow> command
         | Some i \<Rightarrow>
             if i + 1 < length tokens
             then let name = trim_matches is_quote_mark (tokens ! (i + 1))
                  in if name = [] \<or> starts_with ''-'' name then command else name
             else command)"

definition is_invoke_argv_mistake :: "string \<Rightarrow> bool" where
  "is_invoke_argv_mistake txt \<longleftrightarrow>
     contains_str ''requires args.'' (to_ascii_lowercase txt) \<or>
     contains_str ''unexpected argument'' (to_ascii_lowercase txt)"

definition is_unrecoverable_command_miss :: "string \<Rightarrow> bool" where
  "is_unrecoverable_command_miss txt \<longleftrightarrow>
     (let lower = to_ascii_lowercase txt
      in contains_str ''command not found'' lower \<or> shell_exit_code txt = Some 127 \<or>
         contains_str ''no such file or directory'' lower \<and>
           (contains_str ''gpui-agent'' lower \<or> contains_str ''not found'' lower \<or> contains_str ''command'' lower))"

definition counts_as_work_failure :: "bool \<Rightarrow> string \<Rightarrow> bool" where
  "counts_as_work_failure ok txt \<longleftrightarrow>
     (if \<not> ok then True
      else case shell_exit_code txt of
        Some code \<Rightarrow> code \<noteq> 0
      | None \<Rightarrow> is_unrecoverable_command_miss txt)"

definition stdout_json_result :: "serde \<Rightarrow> string \<Rightarrow> json option" where
  "stdout_json_result sd txt =
     (if counts_as_work_failure True txt then None
      else case split_once_str ''--- stdout ---'' txt of
        None \<Rightarrow> None
      | Some (_, stdout) \<Rightarrow>
          (case split_once (CHR ''{'') stdout of
             None \<Rightarrow> None
           | Some (_, b) \<Rightarrow>
               (case rsplit_once (CHR ''}'') (CHR ''{'' # b) of
                  None \<Rightarrow> None
                | Some (body, _) \<Rightarrow>
                    (case sd_from_str sd (body @ ''}'') of
                       None \<Rightarrow> None
                     | Some v \<Rightarrow> Some (case json_get v ''result'' of Some r \<Rightarrow> r | None \<Rightarrow> v)))))"

definition trimmed_word :: "json \<Rightarrow> string \<Rightarrow> string option" where
  "trimmed_word v k =
     (case str_at v k of Some s \<Rightarrow> if trim s = [] then None else Some (trim s) | None \<Rightarrow> None)"

definition opened_target_sentence :: "serde \<Rightarrow> string \<Rightarrow> string option" where
  "opened_target_sentence sd txt =
     Option.bind (stdout_json_result sd txt) (\<lambda>result.
     Option.bind (trimmed_word result ''name'') (\<lambda>name.
       Some (case trimmed_word result ''view'' of
           Some view \<Rightarrow> name @ '' is selected on '' @ view @ ''.''
         | None \<Rightarrow> name @ '' is selected.'')))"

definition opened_editor_sentence :: "serde \<Rightarrow> string \<Rightarrow> string option" where
  "opened_editor_sentence sd txt =
     Option.bind (stdout_json_result sd txt) (\<lambda>result.
     if str_at result ''name'' \<noteq> None then None
     else Option.bind (as_object result) (\<lambda>members.
     if length members \<noteq> 1 then None
     else Option.bind (trimmed_word result ''view'') (\<lambda>view.
       Some (''Opened '' @ view @ ''. Nothing was saved.''))))"

definition is_shell_wrapper_line :: "string \<Rightarrow> bool" where
  "is_shell_wrapper_line line \<longleftrightarrow>
     starts_with ''[harness]'' line \<or> starts_with ''--- '' line \<or>
     (case strip_prefix ''exit '' line of Some rest \<Rightarrow> parse_i32 (trim rest) \<noteq> None | None \<Rightarrow> False)"

text \<open>The text before the first stop that is not an ellipsis'; \<open>pre\<close> is what was passed, backwards.\<close>

fun stop_at :: "string \<Rightarrow> string \<Rightarrow> string option" where
  "stop_at pre (c # d # s) =
     (if c = CHR ''.'' \<and> d = CHR '' '' \<and> \<not> starts_with ''.'' pre then Some (rev pre)
      else stop_at (c # pre) (d # s))"
| "stop_at pre _ = None"

definition fact_line :: "string \<Rightarrow> string" where
  "fact_line txt =
     (let ls = map trim (text_lines (trim txt))
      in case find (\<lambda>l. l \<noteq> [] \<and> \<not> is_shell_wrapper_line l) ls of
           Some l \<Rightarrow> l
         | None \<Rightarrow> (case find (\<lambda>l. l \<noteq> [] \<and> \<not> starts_with ''[harness]'' l) ls of
             Some l \<Rightarrow> l
           | None \<Rightarrow> ''the tool failed''))"

definition short_failure_fact :: "string \<Rightarrow> string" where
  "short_failure_fact txt =
     (let line = fact_line txt;
          sentence = (case stop_at [] line of
              Some p \<Rightarrow> if trim p = [] then line else trim p
            | None \<Rightarrow> line);
          fact = (if 240 < chars_count sentence then take_chars 240 sentence @ ellipsis else sentence)
      in if fact = [] then ''the tool failed'' else fact)"

definition is_empty_or_not_found :: "serde \<Rightarrow> string \<Rightarrow> bool" where
  "is_empty_or_not_found sd txt \<longleftrightarrow>
     (case Option.bind (sd_from_str sd (trim txt)) as_object of
        None \<Rightarrow> False
      | Some members \<Rightarrow>
          Option.bind (map_of members ''result'') as_array = Some [] \<or>
          (case map_of members ''not_found'' of
             Some (JBool True) \<Rightarrow> True
           | Some (JString flag) \<Rightarrow> flag \<noteq> [] \<or> list_ex (\<lambda>kv. as_str (snd kv) = Some ''not_found'') members
           | Some (JInt i) \<Rightarrow> i = 1 \<or> list_ex (\<lambda>kv. as_str (snd kv) = Some ''not_found'') members
           | _ \<Rightarrow> list_ex (\<lambda>kv. as_str (snd kv) = Some ''not_found'') members))"

definition annotate_empty_result :: "serde \<Rightarrow> string \<Rightarrow> string" where
  "annotate_empty_result sd txt =
     (if \<not> is_empty_or_not_found sd txt then txt
      else txt @ (if ends_with [CHR 0x0A] txt then [] else [CHR 0x0A]) @ [CHR 0x0A] @ empty_result_nudge)"

section \<open>Lemmas\<close>

lemma strip_intent_suffix:
  "strip_intent_keep_facts txt = Some kept \<Longrightarrow> suffix kept txt \<and> trim kept \<noteq> []"
  by (auto simp: strip_intent_keep_facts_def Let_def suffix_drop split: if_splits)

lemma chars_count_append [simp]: "chars_count (s @ t) = chars_count s + chars_count t"
  by (simp add: chars_count_def)

text \<open>
  What is shown of withheld words is an end of them as the model wrote it, never rewritten, or the
  failure fact; and a failure fact is never empty and never longer than 241 characters, whatever
  the tool printed.
\<close>

theorem shown_words_are_the_models:
  "(visible_chat withheld last_failure = Some shown \<longrightarrow>
      suffix shown withheld \<and> trim shown \<noteq> [] \<or> last_failure = Some shown) \<and>
   short_failure_fact txt \<noteq> [] \<and> chars_count (short_failure_fact txt) \<le> 241"
proof -
  have "chars_count ellipsis = 1" "chars_count ''the tool failed'' \<le> 241" by code_simp+
  moreover have "chars_count (take_chars 240 s) \<le> 240" for s by (rule chars_count_take_chars)
  ultimately have "short_failure_fact txt \<noteq> [] \<and> chars_count (short_failure_fact txt) \<le> 241"
    by (auto simp: short_failure_fact_def Let_def)
  moreover have "visible_chat withheld last_failure = Some shown \<Longrightarrow>
      suffix shown withheld \<and> trim shown \<noteq> [] \<or> last_failure = Some shown"
    by (auto simp: visible_chat_def dest: strip_intent_suffix split: option.splits)
  ultimately show ?thesis by blast
qed

end
