(* ===== verification/Front_Page.thy ===== *)
theory Front_Page
  imports Forms
begin

text \<open>
  Whether a fill may type into the page in front (\<open>opengrok-forms/src/front_page.rs\<close>), with the
  host comparison of \<open>opengrok-box/src/devtools.rs\<close>. What the browser answers is a parameter.
\<close>

definition or_else :: "'a option \<Rightarrow> 'a option \<Rightarrow> 'a option" where
  "or_else a b = (case a of Some x \<Rightarrow> Some x | None \<Rightarrow> b)"

definition nonempty :: "string \<Rightarrow> string option" where
  "nonempty s = (if s = [] then None else Some s)"

definition is_bracket :: "char \<Rightarrow> bool" where
  "is_bracket c \<longleftrightarrow> c = CHR ''['' \<or> c = CHR '']''"

definition ends_authority :: "char \<Rightarrow> bool" where
  "ends_authority c \<longleftrightarrow> c = CHR ''/'' \<or> c = CHR ''?'' \<or> c = CHR ''#''"

section \<open>Hosts\<close>

definition is_scheme :: "string \<Rightarrow> bool" where
  "is_scheme s \<longleftrightarrow>
     (case s of [] \<Rightarrow> False | c # _ \<Rightarrow> is_ascii_alphabetic c) \<and>
     list_all (\<lambda>c. is_ascii_alphanumeric c \<or> c = CHR ''+'' \<or> c = CHR ''-'' \<or> c = CHR ''.'') s"

text \<open>\<open>rsplit(c).next()\<close> and \<open>split(c).next()\<close> of a text.\<close>

definition after_last :: "char \<Rightarrow> string \<Rightarrow> string" where
  "after_last c s = last (split_on c s)"

definition before_first :: "char \<Rightarrow> string \<Rightarrow> string" where
  "before_first c s = hd (split_on c s)"

definition page_host :: "string \<Rightarrow> string option" where
  "page_host url =
     (case split_once_str ''://'' url of
        None \<Rightarrow> None
      | Some (scheme, rest) \<Rightarrow>
          if \<not> is_scheme scheme then None
          else let authority = after_last (CHR ''@'') (hd (split_chars ends_authority rest));
                   host = (case strip_prefix ''['' authority of
                       Some after \<Rightarrow> before_first (CHR '']'') after
                     | None \<Rightarrow> before_first (CHR '':'') authority)
               in nonempty (to_ascii_lowercase host))"

definition url_is_on_host :: "string \<Rightarrow> string \<Rightarrow> bool" where
  "url_is_on_host url host \<longleftrightarrow>
     (case page_host url of
        Some page \<Rightarrow>
          let h = to_ascii_lowercase (trim_matches is_bracket host)
          in h \<noteq> [] \<and> (page = h \<or> ends_with (''.'' @ h) page)
      | None \<Rightarrow> False)"

definition host_of :: "string \<Rightarrow> string" where
  "host_of raw =
     (let rest = (case split_once_str ''://'' (trim raw) of Some (_, r) \<Rightarrow> r | None \<Rightarrow> trim raw);
          host = hd (split_chars ends_authority rest);
          host = (case rsplit_once (CHR ''@'') host of Some (_, h) \<Rightarrow> h | None \<Rightarrow> host);
          host = before_first (CHR '':'') host
      in to_ascii_lowercase (trim_matches is_bracket host))"

section \<open>The refusal\<close>

datatype front = Page string | NoBrowser | UnknownFront

definition front_of :: "'e + string option \<Rightarrow> front" where
  "front_of answer =
     (case answer of Inr (Some url) \<Rightarrow> Page url | Inr None \<Rightarrow> NoBrowser | Inl _ \<Rightarrow> UnknownFront)"

definition card_site :: "form_request \<Rightarrow> string option" where
  "card_site form =
     or_else (Option.bind (fr_live_host form) (\<lambda>h. nonempty (host_of h)))
       (Option.bind (fr_domain form) (\<lambda>h. nonempty (host_of h)))"

definition origin_site :: "string \<Rightarrow> string option" where
  "origin_site origin = nonempty (host_of origin)"

definition without_www :: "string \<Rightarrow> string" where
  "without_www site = (case strip_prefix ''www.'' site of Some s \<Rightarrow> s | None \<Rightarrow> site)"

definition shown :: "string \<Rightarrow> string" where
  "shown url =
     (if host_of url = [] \<or> \<not> contains_str ''://'' url then ''a blank page'' else host_of url)"

definition front_page_refusal :: "string option \<Rightarrow> front \<Rightarrow> bool \<Rightarrow> string option" where
  "front_page_refusal site front unknown_refuses =
     (if front = NoBrowser then
        Some (''No browser page is open on this computer, so nothing was typed. Open '' @
          (case site of Some s \<Rightarrow> without_www s | None \<Rightarrow> ''the page'') @ '' and try again.'')
      else case site of
        None \<Rightarrow>
          if unknown_refuses then
            Some (''This card doesn'' @ apos @ ''t say which site it is for, and this computer is shared with your other Bots, so nothing was typed. Type the login by hand.'')
          else None
      | Some s \<Rightarrow>
          let s = without_www s
          in case front of
            Page url \<Rightarrow>
              if url_is_on_host url s then None
              else Some (''The page in front is '' @ shown url @ '', not '' @ s @
                '', so nothing was typed. Bring '' @ s @ '' to the front and try again.'')
          | UnknownFront \<Rightarrow>
              if unknown_refuses then
                Some (''This computer can'' @ apos @ ''t say which page is in front, and it is shared with your other Bots, so nothing was typed. Type the login by hand on '' @ s @ ''.'')
              else None
          | NoBrowser \<Rightarrow> None)"



lemma look_alike_is_refused:
  "front_page_refusal (Some ''facebook.com'') (Page ''https://facebook.com.evil.example/'') b \<noteq> None"
proof -
  have "\<not> url_is_on_host ''https://facebook.com.evil.example/'' (without_www ''facebook.com'')"
    by code_simp
  then show ?thesis by (simp add: front_page_refusal_def Let_def)
qed

end
