(* ===== verification/Projection.thy ===== *)
theory Projection
  imports Model_Door Run
begin

text \<open>
  From a model's deltas to a run a client can draw (\<open>opengrok-harness/src/projection.rs\<close>, the
  deltas in \<open>model.rs\<close>). Each operation gives the events it emits and the projection after it.
  The projection is a refinement of a bracket grammar, \<open>grammar\<close>: whatever the model sends and in
  whatever order the operations come, messages are started before they are filled, filled under
  their own id and ended before anything else begins.
\<close>

section \<open>The projection\<close>

datatype model_delta =
    DText string
  | DReasoning string
  | DToolCallStart string string
  | DToolCallArgs string string
  | DToolCallEnd string

datatype opened = OpenNothing | OpenText string | OpenReasoning string | OpenToolCall string

record projection =
  pj_thread_id :: string
  pj_run_id :: string
  pj_at_ms :: int
  pj_open :: opened
  pj_started :: bool
  pj_finished :: bool
  pj_finish_reason :: "finish_reason option"
  pj_fail_code :: "string option"
  pj_message_seq :: "32 word"

definition projection_new :: "string \<Rightarrow> string \<Rightarrow> int \<Rightarrow> projection" where
  "projection_new thread run at =
     \<lparr>pj_thread_id = thread, pj_run_id = run, pj_at_ms = at, pj_open = OpenNothing, pj_started = False,
      pj_finished = False, pj_finish_reason = None, pj_fail_code = None, pj_message_seq = 0\<rparr>"

definition projection_resumed :: "string \<Rightarrow> string \<Rightarrow> int \<Rightarrow> 32 word \<Rightarrow> projection" where
  "projection_resumed thread run at seq =
     (projection_new thread run at)\<lparr>pj_started := True, pj_message_seq := seq\<rparr>"

definition pj_event :: "projection \<Rightarrow> event_type \<Rightarrow> event" where
  "pj_event p t = event_new t (pj_at_ms p)"

definition message_id :: "string \<Rightarrow> 32 word \<Rightarrow> string" where
  "message_id run seq = ''msg_'' @ run @ ''_'' @ nat_str (unat seq)"

definition next_message_id :: "projection \<Rightarrow> string \<times> projection" where
  "next_message_id p =
     (let seq = pj_message_seq p + 1 in (message_id (pj_run_id p) seq, p\<lparr>pj_message_seq := seq\<rparr>))"

definition named_run :: "projection \<Rightarrow> event \<Rightarrow> event" where
  "named_run p e = with_str ''runId'' (pj_run_id p) (with_str ''threadId'' (pj_thread_id p) e)"

definition pj_start :: "projection \<Rightarrow> event list \<times> projection" where
  "pj_start p =
     (if pj_started p then ([], p)
      else ([named_run p (pj_event p EvRunStarted)], p\<lparr>pj_started := True\<rparr>))"

definition close_open :: "projection \<Rightarrow> event list \<times> projection" where
  "close_open p =
     ((case pj_open p of
         OpenNothing \<Rightarrow> []
       | OpenText i \<Rightarrow> [with_str ''messageId'' i (pj_event p EvTextMessageEnd)]
       | OpenReasoning i \<Rightarrow> [with_str ''messageId'' i (pj_event p EvReasoningMessageEnd)]
       | OpenToolCall i \<Rightarrow> [with_str ''toolCallId'' i (pj_event p EvToolCallEnd)]),
      p\<lparr>pj_open := OpenNothing\<rparr>)"

definition push_text :: "string \<Rightarrow> projection \<Rightarrow> event list \<times> projection" where
  "push_text txt p =
     (case pj_open p of
        OpenText i \<Rightarrow>
          ([with_str ''delta'' txt (with_str ''messageId'' i (pj_event p EvTextMessageContent))], p)
      | _ \<Rightarrow>
          let (closing, p1) = close_open p;
              (i, p2) = next_message_id p1;
              p3 = p2\<lparr>pj_open := OpenText i\<rparr>
          in (closing @
              [with_str ''role'' ''assistant'' (with_str ''messageId'' i (pj_event p EvTextMessageStart)),
               with_str ''delta'' txt (with_str ''messageId'' i (pj_event p EvTextMessageContent))], p3))"

definition push_reasoning :: "string \<Rightarrow> projection \<Rightarrow> event list \<times> projection" where
  "push_reasoning txt p =
     (case pj_open p of
        OpenReasoning i \<Rightarrow>
          ([with_str ''delta'' txt (with_str ''messageId'' i (pj_event p EvReasoningMessageContent))], p)
      | _ \<Rightarrow>
          let (closing, p1) = close_open p;
              (i, p2) = next_message_id p1;
              p3 = p2\<lparr>pj_open := OpenReasoning i\<rparr>
          in (closing @
              [with_str ''messageId'' i (pj_event p EvReasoningMessageStart),
               with_str ''delta'' txt (with_str ''messageId'' i (pj_event p EvReasoningMessageContent))], p3))"

fun push_delta :: "model_delta \<Rightarrow> projection \<Rightarrow> event list \<times> projection" where
  "push_delta (DText txt) p = push_text txt p"
| "push_delta (DReasoning txt) p = push_reasoning txt p"
| "push_delta (DToolCallStart i name) p =
     (case close_open p of
        (closing, p1) \<Rightarrow>
          (closing @ [with_str ''toolCallName'' name (with_str ''toolCallId'' i (pj_event p EvToolCallStart))],
           p1\<lparr>pj_open := OpenToolCall i\<rparr>))"
| "push_delta (DToolCallArgs i d) p =
     ([with_str ''delta'' d (with_str ''toolCallId'' i (pj_event p EvToolCallArgs))], p)"
| "push_delta (DToolCallEnd i) p =
     ([with_str ''toolCallId'' i (pj_event p EvToolCallEnd)],
      if pj_open p = OpenToolCall i then p\<lparr>pj_open := OpenNothing\<rparr> else p)"

definition pj_push :: "model_delta \<Rightarrow> projection \<Rightarrow> event list \<times> projection" where
  "pj_push d p = (case pj_start p of (es, p1) \<Rightarrow> case push_delta d p1 of (es', p2) \<Rightarrow> (es @ es', p2))"

definition pj_custom :: "string \<Rightarrow> json \<Rightarrow> projection \<Rightarrow> event" where
  "pj_custom name v p =
     with_json ''value'' v (named_run p (with_str ''name'' name (pj_event p EvCustom)))"

definition image_json :: "tool_image \<Rightarrow> json" where
  "image_json im = JObject
     [(''mime'', JString (ti_mime im)), (''base64'', JString (ti_base64 im)),
      (''width'', JInt (uint (ti_width im))), (''height'', JInt (uint (ti_height im))),
      (''visibility'', JString (image_visibility_as_str (ti_visibility im)))]"

definition with_opt :: "string \<Rightarrow> json option \<Rightarrow> event \<Rightarrow> event" where
  "with_opt k v e = (case v of None \<Rightarrow> e | Some w \<Rightarrow> with_json k w e)"

definition result_event :: "tool_result \<Rightarrow> nat option \<Rightarrow> projection \<Rightarrow> event" where
  "result_event r ms p =
     with_opt ''image'' (map_option image_json (tr_image r))
       (with_opt duration_ms_key (map_option (\<lambda>n. JInt (int n)) ms)
         (with_json ''ok'' (JBool (tr_ok r))
           (with_str ''content'' (tr_content r)
             (with_str ''toolCallId'' (tr_call_id r) (pj_event p EvToolCallResult)))))"

text \<open>The two steps every operation that is not text begins with: the opening, then the closing brackets.\<close>

definition begin_frame :: "projection \<Rightarrow> event list \<times> projection" where
  "begin_frame p = (case pj_start p of (es, p1) \<Rightarrow> case close_open p1 of (es', p2) \<Rightarrow> (es @ es', p2))"

definition push_tool_result :: "tool_result \<Rightarrow> nat option \<Rightarrow> projection \<Rightarrow> event list \<times> projection" where
  "push_tool_result r ms p =
     (case begin_frame p of
        (es, p1) \<Rightarrow>
          (es @ result_event r ms p # map (\<lambda>(name, v). pj_custom name v p) (tr_customs r), p1))"

definition awaiting_approval ::
  "serde \<Rightarrow> tool_call \<Rightarrow> awaiting_reason \<Rightarrow> string option \<Rightarrow> projection \<Rightarrow> event list \<times> projection"
where
  "awaiting_approval sd call reason why p =
     (if pj_finished p then ([], snd (pj_start p))
      else case begin_frame p of
        (es, p1) \<Rightarrow>
          let arguments = (if reason = AwaitUserForm then sanitize_arguments sd (tc_arguments call)
                           else tc_arguments call)
          in (es @
              [with_str ''why'' (case why of Some w \<Rightarrow> w | None \<Rightarrow> [])
                (with_str ''reason'' (awaiting_reason_as_str reason)
                  (with_json ''arguments'' arguments
                    (with_str ''tool'' (tc_name call)
                      (with_str ''callId'' (tc_id call)
                        (named_run p (with_str ''name'' ''run-awaiting-approval'' (pj_event p EvCustom)))))))],
              p1))"

definition pj_finish :: "projection \<Rightarrow> event list \<times> projection" where
  "pj_finish p =
     (if pj_finished p then ([], snd (pj_start p))
      else case begin_frame p of
        (es, p1) \<Rightarrow>
          (es @ [with_opt ''reason'' (map_option (\<lambda>r. JString (finish_reason_as_str r)) (pj_finish_reason p))
                  (named_run p (pj_event p EvRunFinished))],
           p1\<lparr>pj_finished := True\<rparr>))"

definition finishing_because :: "finish_reason \<Rightarrow> projection \<Rightarrow> projection" where
  "finishing_because r p = p\<lparr>pj_finish_reason := Some r\<rparr>"

definition failing_with :: "string option \<Rightarrow> projection \<Rightarrow> projection" where
  "failing_with code p = p\<lparr>pj_fail_code := code\<rparr>"

definition box_waking :: "string \<Rightarrow> projection \<Rightarrow> event list \<times> projection" where
  "box_waking coworker p =
     (if pj_finished p then ([], snd (pj_start p))
      else case begin_frame p of
        (es, p1) \<Rightarrow>
          (es @ [with_str ''coworkerId'' coworker
                  (named_run p (with_str ''name'' ''box-waking'' (pj_event p EvCustom)))], p1))"

definition pj_stopped :: "projection \<Rightarrow> event list \<times> projection" where
  "pj_stopped p =
     (if pj_finished p then ([], snd (pj_start p))
      else case begin_frame p of
        (es, p1) \<Rightarrow>
          (es @ [named_run p (with_str ''name'' ''run-stopped'' (pj_event p EvCustom)),
                 named_run p (pj_event p EvRunFinished)],
           p1\<lparr>pj_finished := True\<rparr>))"

definition pj_fail :: "string \<Rightarrow> projection \<Rightarrow> event list \<times> projection" where
  "pj_fail msg p =
     (if pj_finished p then ([], snd (pj_start p))
      else case begin_frame p of
        (es, p1) \<Rightarrow>
          (es @ [with_opt ''code'' (map_option JString (pj_fail_code p))
                  (with_str ''message'' msg (named_run p (pj_event p EvRunError)))],
           p1\<lparr>pj_finished := True\<rparr>))"

definition run_timing_name :: string where
  "run_timing_name = ''run-timing''"

definition kept_when_unrecorded :: "event \<Rightarrow> bool" where
  "kept_when_unrecorded e \<longleftrightarrow>
     ev_type e \<in> {EvTextMessageEnd, EvReasoningMessageEnd, EvToolCallEnd} \<or>
     ev_type e = EvCustom \<and> extra_str e ''name'' = Some run_timing_name"

definition unrecorded :: "event list \<Rightarrow> string \<Rightarrow> projection \<Rightarrow> event list" where
  "unrecorded refused msg p =
     filter kept_when_unrecorded refused @
     [with_str ''message'' msg (named_run p (pj_event p EvRunError))]"

section \<open>The bracket grammar\<close>

text \<open>
  What is open after an event, nothing if the event may not come there. \<open>None\<close> is a stream not
  yet started. A tool call's arguments, and the end of a call that is not the open one, are the
  model's own and change nothing.
\<close>

definition only_if :: "bool \<Rightarrow> 'a \<Rightarrow> 'a option" where
  "only_if b x = (if b then Some x else None)"

fun g_event :: "event_type \<Rightarrow> string \<Rightarrow> string \<Rightarrow> opened \<Rightarrow> opened option" where
  "g_event EvTextMessageStart m c s = only_if (s = OpenNothing) (OpenText m)"
| "g_event EvTextMessageContent m c s = only_if (s = OpenText m) s"
| "g_event EvTextMessageEnd m c s = only_if (s = OpenText m) OpenNothing"
| "g_event EvReasoningMessageStart m c s = only_if (s = OpenNothing) (OpenReasoning m)"
| "g_event EvReasoningMessageContent m c s = only_if (s = OpenReasoning m) s"
| "g_event EvReasoningMessageEnd m c s = only_if (s = OpenReasoning m) OpenNothing"
| "g_event EvToolCallStart m c s = only_if (s = OpenNothing) (OpenToolCall c)"
| "g_event EvToolCallArgs m c s = Some s"
| "g_event EvToolCallEnd m c s = Some (if s = OpenToolCall c then OpenNothing else s)"
| "g_event EvToolCallResult m c s = only_if (s = OpenNothing) s"
| "g_event EvCustom m c s = only_if (s = OpenNothing) s"
| "g_event EvRunFinished m c s = only_if (s = OpenNothing) s"
| "g_event EvRunError m c s = only_if (s = OpenNothing) s"
| "g_event _ m c s = None"

definition str_of :: "event \<Rightarrow> string \<Rightarrow> string" where
  "str_of e k = (case extra_str e k of Some s \<Rightarrow> s | None \<Rightarrow> [])"

definition g_step :: "event \<Rightarrow> opened option \<Rightarrow> opened option option" where
  "g_step e s =
     (case s of
        None \<Rightarrow> only_if (ev_type e = EvRunStarted) (Some OpenNothing)
      | Some s \<Rightarrow> map_option Some (g_event (ev_type e) (str_of e ''messageId'') (str_of e ''toolCallId'') s))"

fun grammar :: "event list \<Rightarrow> opened option \<Rightarrow> opened option option" where
  "grammar [] s = Some s"
| "grammar (e # es) s = Option.bind (g_step e s) (grammar es)"

definition bracket_state :: "projection \<Rightarrow> opened option" where
  "bracket_state p = (if pj_started p then Some (pj_open p) else None)"

definition pj_ok :: "projection \<Rightarrow> bool" where
  "pj_ok p \<longleftrightarrow> (pj_finished p \<longrightarrow> pj_started p) \<and> (\<not> pj_started p \<longrightarrow> pj_open p = OpenNothing)"

text \<open>The operations, and a sequence of them with everything it emits.\<close>

datatype pj_op =
    OpStart
  | OpPush model_delta
  | OpResult tool_result "nat option"
  | OpAwaiting tool_call awaiting_reason "string option"
  | OpWaking string
  | OpBecause finish_reason
  | OpFailing "string option"
  | OpFinish
  | OpStopped
  | OpFail string

fun pj_do :: "serde \<Rightarrow> pj_op \<Rightarrow> projection \<Rightarrow> event list \<times> projection" where
  "pj_do sd OpStart p = pj_start p"
| "pj_do sd (OpPush d) p = pj_push d p"
| "pj_do sd (OpResult r ms) p = push_tool_result r ms p"
| "pj_do sd (OpAwaiting call reason why) p = awaiting_approval sd call reason why p"
| "pj_do sd (OpWaking c) p = box_waking c p"
| "pj_do sd (OpBecause r) p = ([], finishing_because r p)"
| "pj_do sd (OpFailing c) p = ([], failing_with c p)"
| "pj_do sd OpFinish p = pj_finish p"
| "pj_do sd OpStopped p = pj_stopped p"
| "pj_do sd (OpFail msg) p = pj_fail msg p"

fun pj_run :: "serde \<Rightarrow> pj_op list \<Rightarrow> projection \<Rightarrow> event list \<times> projection" where
  "pj_run sd [] p = ([], p)"
| "pj_run sd (op # ops) p =
     (case pj_do sd op p of (es, p1) \<Rightarrow> case pj_run sd ops p1 of (es', p2) \<Rightarrow> (es @ es', p2))"

subsection \<open>Every operation follows the grammar\<close>

lemma only_if_simps [simp]: "only_if True x = Some x" "only_if False x = None"
  by (simp_all add: only_if_def)

lemma grammar_append [simp]: "grammar (es @ es') s = Option.bind (grammar es s) (grammar es')"
proof (induction es arbitrary: s)
  case (Cons e es)
  then show ?case by (cases "g_step e s") simp_all
qed simp

lemma str_of_with [simp]: "str_of (with_json k v e) k' = (if k' = k then (case as_str v of Some s \<Rightarrow> s | None \<Rightarrow> []) else str_of e k')"
  by (simp add: str_of_def)

lemma named_run_simps [simp]:
  "ev_type (named_run p e) = ev_type e" "ends_run (named_run p e) = ends_run e"
  "k \<noteq> ''runId'' \<Longrightarrow> k \<noteq> ''threadId'' \<Longrightarrow> str_of (named_run p e) k = str_of e k"
  by (simp_all add: named_run_def)

lemma with_opt_simps [simp]:
  "ev_type (with_opt k v e) = ev_type e" "ends_run (with_opt k v e) = ends_run e"
  by (simp_all add: with_opt_def split: option.split)

lemma pj_event_simps [simp]: "ev_type (pj_event p t) = t"
  "ends_run (pj_event p t) \<longleftrightarrow> t = EvRunFinished \<or> t = EvRunError"
  by (simp_all add: pj_event_def)

lemma pj_custom_type [simp]: "ev_type (pj_custom name v p) = EvCustom" "\<not> ends_run (pj_custom name v p)"
  by (simp_all add: pj_custom_def)

lemma result_event_type [simp]: "ev_type (result_event r ms p) = EvToolCallResult"
  "\<not> ends_run (result_event r ms p)"
  by (simp_all add: result_event_def)

lemma grammar_customs: "grammar (map (\<lambda>(name, v). pj_custom name v p) cs) (Some OpenNothing) = Some (Some OpenNothing)"
  by (induction cs) (auto simp: g_step_def)

definition follows :: "(projection \<Rightarrow> event list \<times> projection) \<Rightarrow> bool" where
  "follows f \<longleftrightarrow> (\<forall>p. pj_ok p \<longrightarrow>
     grammar (fst (f p)) (bracket_state p) = Some (bracket_state (snd (f p))) \<and> pj_ok (snd (f p)))"

lemma pj_start_follows: "follows pj_start"
  by (auto simp: follows_def pj_start_def bracket_state_def pj_ok_def g_step_def)

lemma close_open_follows:
  "pj_started p \<Longrightarrow> grammar (fst (close_open p)) (Some (pj_open p)) = Some (Some OpenNothing)"
  by (cases "pj_open p") (simp_all add: close_open_def g_step_def)

lemma close_open_snd [simp]: "snd (close_open p) = p\<lparr>pj_open := OpenNothing\<rparr>"
  by (simp add: close_open_def)

lemma begin_frame_snd [simp]: "snd (begin_frame p) = p\<lparr>pj_started := True, pj_open := OpenNothing\<rparr>"
  by (cases p) (simp add: begin_frame_def pj_start_def close_open_def)

lemma begin_frame_grammar:
  "pj_ok p \<Longrightarrow> grammar (fst (begin_frame p)) (bracket_state p) = Some (Some OpenNothing)"
  using close_open_follows [of p] close_open_follows [of "p\<lparr>pj_started := True\<rparr>"]
  by (auto simp: begin_frame_def pj_start_def bracket_state_def pj_ok_def g_step_def split: prod.split)

lemma push_delta_grammar:
  assumes "pj_started p"
  shows "grammar (fst (push_delta d p)) (Some (pj_open p)) = Some (Some (pj_open (snd (push_delta d p))))"
    and "pj_started (snd (push_delta d p))"
    and "pj_finished (snd (push_delta d p)) = pj_finished p"
  using assms close_open_follows [OF assms]
  by (cases d; cases "pj_open p";
      simp add: push_text_def push_reasoning_def close_open_def next_message_id_def Let_def g_step_def)+

lemma pj_push_follows: "follows (pj_push d)"
proof -
  have "grammar (fst (pj_push d p)) (bracket_state p) = Some (bracket_state (snd (pj_push d p))) \<and>
      pj_ok (snd (pj_push d p))" if ok: "pj_ok p" for p
  proof -
    obtain es p1 where s: "pj_start p = (es, p1)" by fastforce
    have "grammar es (bracket_state p) = Some (bracket_state p1)" "pj_started p1" "pj_ok p1"
      using pj_start_follows ok s
      by (auto simp: follows_def pj_start_def pj_ok_def split: if_splits)
    with push_delta_grammar [of p1 d] s show ?thesis
      by (auto simp: pj_push_def bracket_state_def pj_ok_def split: prod.split)
  qed
  then show ?thesis by (auto simp: follows_def)
qed

lemmas frame_defs = push_tool_result_def awaiting_approval_def box_waking_def pj_finish_def
  pj_stopped_def pj_fail_def finishing_because_def failing_with_def

lemma frame_follows: "op \<notin> range OpPush \<Longrightarrow> follows (pj_do sd op)"
proof -
  assume np: "op \<notin> range OpPush"
  have "grammar (fst (pj_do sd op p)) (bracket_state p) = Some (bracket_state (snd (pj_do sd op p))) \<and>
      pj_ok (snd (pj_do sd op p))" if ok: "pj_ok p" for p
  proof -
    obtain es p1 where b: "begin_frame p = (es, p1)" by fastforce
    then have "p1 = snd (begin_frame p)" "es = fst (begin_frame p)" by simp_all
    then have p1: "p1 = p\<lparr>pj_started := True, pj_open := OpenNothing\<rparr>"
      and g: "grammar es (bracket_state p) = Some (Some OpenNothing)"
      using begin_frame_grammar [OF ok] by simp_all
    have st: "pj_finished p \<Longrightarrow> pj_start p = ([], p)" using ok by (simp add: pj_ok_def pj_start_def)
    show ?thesis
    proof (cases op)
      case OpStart
      with pj_start_follows ok show ?thesis by (simp add: follows_def)
    next
      case (OpResult r ms)
      with b g p1 ok grammar_customs show ?thesis
        by (simp add: frame_defs bracket_state_def pj_ok_def g_step_def)
    qed (use b g p1 ok st np in
        \<open>auto simp: frame_defs bracket_state_def pj_ok_def g_step_def Let_def\<close>)
  qed
  then show ?thesis by (simp add: follows_def)
qed

lemma pj_do_follows: "follows (pj_do sd op)"
proof (cases "op \<in> range OpPush")
  case True
  then obtain d where "op = OpPush d" by blast
  moreover have "pj_do sd (OpPush d) = pj_push d" by (rule ext) simp
  ultimately show ?thesis using pj_push_follows by simp
qed (rule frame_follows)

lemma pj_run_follows: "follows (pj_run sd ops)"
proof (induction ops)
  case Nil
  show ?case by (simp add: follows_def)
next
  case (Cons op ops)
  with pj_do_follows [of sd op] show ?case
    by (auto simp: follows_def split: prod.split) (metis bind.bind_lunit fst_conv snd_conv)
qed

subsection \<open>One ending, and no id twice\<close>

definition endings :: "event list \<Rightarrow> nat" where
  "endings es = length (filter ends_run es)"

lemma endings_simps [simp]:
  "endings [] = 0" "endings (e # es) = (if ends_run e then 1 else 0) + endings es"
  "endings (es @ es') = endings es + endings es'"
  by (simp_all add: endings_def)

lemma endings_customs [simp]: "endings (map (\<lambda>(name, v). pj_custom name v p) cs) = 0"
  by (induction cs) auto

text \<open>The ids of the messages a list of events starts.\<close>

definition started_ids :: "event list \<Rightarrow> string list" where
  "started_ids es =
     map (\<lambda>e. str_of e ''messageId'')
       (filter (\<lambda>e. ev_type e = EvTextMessageStart \<or> ev_type e = EvReasoningMessageStart) es)"

lemma started_ids_simps [simp]:
  "started_ids [] = []"
  "started_ids (e # es) =
     (if ev_type e = EvTextMessageStart \<or> ev_type e = EvReasoningMessageStart
      then [str_of e ''messageId''] else []) @ started_ids es"
  "started_ids (es @ es') = started_ids es @ started_ids es'"
  by (simp_all add: started_ids_def)

lemma started_ids_customs [simp]: "started_ids (map (\<lambda>(name, v). pj_custom name v p) cs) = []"
  by (induction cs) auto

definition ids_from :: "string \<Rightarrow> 32 word \<Rightarrow> nat \<Rightarrow> string list" where
  "ids_from run seq n = map (\<lambda>k. message_id run (seq + of_nat (Suc k))) [0..<n]"

lemma ids_from_simps [simp]: "ids_from run seq 0 = []" "ids_from run seq (Suc 0) = [message_id run (seq + 1)]"
  by (simp_all add: ids_from_def)

lemma ids_from_add: "ids_from run seq (m + n) = ids_from run seq m @ ids_from run (seq + of_nat m) n"
proof -
  have "[0..<m + n] = [0..<m] @ map (\<lambda>k. m + k) [0..<n]"
    using upt_add_eq_append [of 0 m n] map_add_upt [of m n] by (simp add: add.commute)
  then show ?thesis by (simp add: ids_from_def algebra_simps)
qed

text \<open>
  What an operation does to the two counts: it brings at most the one ending, and starts messages
  under the next ids of its run.
\<close>

definition counted :: "(projection \<Rightarrow> event list \<times> projection) \<Rightarrow> bool" where
  "counted f \<longleftrightarrow> (\<forall>p. endings (fst (f p)) + of_bool (pj_finished p) = of_bool (pj_finished (snd (f p))) \<and>
     (\<exists>n. started_ids (fst (f p)) = ids_from (pj_run_id p) (pj_message_seq p) n \<and>
          pj_message_seq (snd (f p)) = pj_message_seq p + of_nat n) \<and>
     pj_run_id (snd (f p)) = pj_run_id p)"

lemma begin_frame_counts [simp]: "endings (fst (begin_frame p)) = 0" "started_ids (fst (begin_frame p)) = []"
  by (auto simp: begin_frame_def pj_start_def close_open_def split: opened.split)

lemma pj_start_counts [simp]: "endings (fst (pj_start p)) = 0" "started_ids (fst (pj_start p)) = []"
  by (auto simp: pj_start_def)

lemma pj_start_snd [simp]: "snd (pj_start p) = p\<lparr>pj_started := True\<rparr>"
  by (simp add: pj_start_def)

lemma push_delta_counts:
  "endings (fst (push_delta d p)) = 0"
  "\<exists>n. started_ids (fst (push_delta d p)) = ids_from (pj_run_id p) (pj_message_seq p) n \<and>
      pj_message_seq (snd (push_delta d p)) = pj_message_seq p + of_nat n"
  "pj_run_id (snd (push_delta d p)) = pj_run_id p"
  "pj_finished (snd (push_delta d p)) = pj_finished p"
proof -
  show "\<exists>n. started_ids (fst (push_delta d p)) = ids_from (pj_run_id p) (pj_message_seq p) n \<and>
      pj_message_seq (snd (push_delta d p)) = pj_message_seq p + of_nat n"
  proof (cases "started_ids (fst (push_delta d p)) = []")
    case True
    then show ?thesis
      by (intro exI [of _ 0], cases d; cases "pj_open p")
        (auto simp: push_text_def push_reasoning_def close_open_def next_message_id_def Let_def)
  next
    case False
    then show ?thesis
      by (intro exI [of _ 1], cases d; cases "pj_open p")
        (auto simp: push_text_def push_reasoning_def close_open_def next_message_id_def Let_def)
  qed
qed (cases d; cases "pj_open p";
    simp add: push_text_def push_reasoning_def close_open_def next_message_id_def Let_def)+

lemma pj_do_counted: "counted (pj_do sd op)"
proof (cases op)
  case (OpPush d)
  have "endings (fst (pj_push d p)) + of_bool (pj_finished p) = of_bool (pj_finished (snd (pj_push d p))) \<and>
     (\<exists>n. started_ids (fst (pj_push d p)) = ids_from (pj_run_id p) (pj_message_seq p) n \<and>
          pj_message_seq (snd (pj_push d p)) = pj_message_seq p + of_nat n) \<and>
     pj_run_id (snd (pj_push d p)) = pj_run_id p" for p
  proof -
    obtain es p1 where s: "pj_start p = (es, p1)" by fastforce
    then have "p1 = p\<lparr>pj_started := True\<rparr>" "endings es = 0" "started_ids es = []"
      using pj_start_counts [of p] pj_start_snd [of p] by simp_all
    with push_delta_counts [of d p1] s show ?thesis by (auto simp: pj_push_def split: prod.split)
  qed
  with OpPush show ?thesis by (simp add: counted_def)
next
  case OpStart
  then show ?thesis by (auto simp: counted_def intro: exI [of _ 0])
next
  case (OpBecause r)
  then show ?thesis by (auto simp: counted_def frame_defs intro: exI [of _ 0])
next
  case (OpFailing c)
  then show ?thesis by (auto simp: counted_def frame_defs intro: exI [of _ 0])
qed (auto simp: counted_def frame_defs Let_def case_prod_beta intro!: exI [of _ 0])

lemma pj_run_counted: "counted (pj_run sd ops)"
proof (induction ops)
  case Nil
  show ?case by (auto simp: counted_def intro: exI [of _ 0])
next
  case (Cons op ops)
  show ?case unfolding counted_def
  proof
    fix p
    obtain es p1 where d: "pj_do sd op p = (es, p1)" by fastforce
    obtain es' p2 where r: "pj_run sd ops p1 = (es', p2)" by fastforce
    from pj_do_counted [of sd op] d obtain m where m: "endings es + of_bool (pj_finished p) = of_bool (pj_finished p1)"
      "started_ids es = ids_from (pj_run_id p) (pj_message_seq p) m"
      "pj_message_seq p1 = pj_message_seq p + of_nat m" "pj_run_id p1 = pj_run_id p"
      unfolding counted_def by (metis fst_conv snd_conv)
    from Cons r obtain n where n: "endings es' + of_bool (pj_finished p1) = of_bool (pj_finished p2)"
      "started_ids es' = ids_from (pj_run_id p1) (pj_message_seq p1) n"
      "pj_message_seq p2 = pj_message_seq p1 + of_nat n" "pj_run_id p2 = pj_run_id p1"
      unfolding counted_def by (metis fst_conv snd_conv)
    from m n d r show "endings (fst (pj_run sd (op # ops) p)) + of_bool (pj_finished p) =
         of_bool (pj_finished (snd (pj_run sd (op # ops) p))) \<and>
       (\<exists>n. started_ids (fst (pj_run sd (op # ops) p)) = ids_from (pj_run_id p) (pj_message_seq p) n \<and>
          pj_message_seq (snd (pj_run sd (op # ops) p)) = pj_message_seq p + of_nat n) \<and>
       pj_run_id (snd (pj_run sd (op # ops) p)) = pj_run_id p"
      by (auto simp: ids_from_add intro!: exI [of _ "m + n"])
  qed
qed

lemma message_id_inject [simp]: "message_id run a = message_id run b \<longleftrightarrow> a = b"
  by (simp add: message_id_def word_unat_eq_iff)

lemma distinct_ids_from: "n \<le> 2 ^ 32 \<Longrightarrow> distinct (ids_from run seq n)"
proof -
  assume n: "n \<le> 2 ^ 32"
  have "i = j" if "i < n" "j < n" "(of_nat (Suc i) :: 32 word) = of_nat (Suc j)" for i j
  proof -
    have "(of_nat i :: 32 word) = of_nat j" using that(3) by simp
    then have "unat (of_nat i :: 32 word) = unat (of_nat j :: 32 word)" by simp
    moreover have "i < 2 ^ 32" "j < 2 ^ 32" using that n by simp_all
    ultimately show ?thesis by (simp add: unat_of_nat)
  qed
  then show ?thesis by (auto simp: ids_from_def distinct_map inj_on_def)
qed

text \<open>C25: a run drawn through a projection, whatever the model sends and in whatever order the loop asks:
  it opens with RUN_STARTED and follows the bracket grammar to whatever is still open, says at
  most one ending, exactly one once it finished, and starts no two messages under one id unless
  it starts more than 2^32 of them.
\<close>

theorem drawn_run_is_well_formed:
  assumes "pj_run sd ops (projection_new thread run at) = (es, p)"
    and "length (started_ids es) \<le> 2 ^ 32"
  shows "grammar es None = Some (bracket_state p) \<and>
    length (filter ends_run es) = of_bool (pj_finished p) \<and> distinct (started_ids es)"
proof -
  let ?p = "projection_new thread run at"
  have "grammar es None = Some (bracket_state p)"
  proof -
    have "pj_ok ?p" "bracket_state ?p = None"
      by (simp_all add: projection_new_def pj_ok_def bracket_state_def)
    with pj_run_follows [of sd ops] assms(1) show ?thesis unfolding follows_def by (metis fst_conv snd_conv)
  qed
  moreover from pj_run_counted [of sd ops] assms(1)
  obtain n where n: "endings es + of_bool (pj_finished ?p) = of_bool (pj_finished p)"
    "started_ids es = ids_from (pj_run_id ?p) (pj_message_seq ?p) n"
    unfolding counted_def by (metis fst_conv snd_conv)
  moreover have "distinct (started_ids es)"
  proof -
    have "length (started_ids es) = n" by (simp add: n(2) ids_from_def)
    with assms(2) show ?thesis unfolding n(2) by (intro distinct_ids_from) simp
  qed
  ultimately show ?thesis by (simp add: endings_def projection_new_def)
qed

definition sample_ops :: "pj_op list" where
  "sample_ops =
     [OpPush (DReasoning ''hm''), OpPush (DText ''a''), OpPush (DText ''b''),
      OpPush (DToolCallStart ''c1'' ''shell''), OpPush (DToolCallEnd ''c1''),
      OpResult (result_ok ''c1'' ''done'') (Some 3), OpPush (DText ''c''), OpFinish, OpFail ''late'']"

theorem drawn_run_is_well_formed_witness:
  "length (started_ids (fst (pj_run sample_serde sample_ops (projection_new ''t'' ''r'' 1)))) = 3 \<and>
   grammar (fst (pj_run sample_serde sample_ops (projection_new ''t'' ''r'' 1))) None =
     Some (Some OpenNothing) \<and>
   length (filter ends_run (fst (pj_run sample_serde sample_ops (projection_new ''t'' ''r'' 1)))) = 1"
proof -
  let ?r = "pj_run sample_serde sample_ops (projection_new ''t'' ''r'' 1)"
  have n: "length (started_ids (fst ?r)) = 3" "bracket_state (snd ?r) = Some OpenNothing"
    "pj_finished (snd ?r)"
    by code_simp+
  have "?r = (fst ?r, snd ?r)" by simp
  from drawn_run_is_well_formed [OF this] n show ?thesis by simp
qed

end
