(* ===== verification/Loop_Calls.thy ===== *)
theory Loop_Calls
  imports Projection Intent
begin

text \<open>
  What the loop decides about a round's calls before it runs any
  (\<open>opengrok-harness/src/lib.rs\<close>, and \<open>collect_tool_calls\<close> of \<open>tools.rs\<close>): which calls the
  stream's frames make up, which are the client's own widgets, which walk a whole home directory,
  which replay a recipe, and what the loop answers in their place.
\<close>

section \<open>Whole calls out of frames\<close>

record open_call =
  oc_id :: string
  oc_name :: string
  oc_args :: string

text \<open>The first open call with an id, changed, or taken out.\<close>

fun add_args :: "string \<Rightarrow> string \<Rightarrow> open_call list \<Rightarrow> open_call list" where
  "add_args i d [] = []"
| "add_args i d (oc # ocs) =
     (if oc_id oc = i then oc\<lparr>oc_args := oc_args oc @ d\<rparr> # ocs else oc # add_args i d ocs)"

fun take_open :: "string \<Rightarrow> open_call list \<Rightarrow> (open_call \<times> open_call list) option" where
  "take_open i [] = None"
| "take_open i (oc # ocs) =
     (if oc_id oc = i then Some (oc, ocs)
      else map_option (\<lambda>(x, rest). (x, oc # rest)) (take_open i ocs))"

definition whole_call :: "serde \<Rightarrow> open_call \<Rightarrow> tool_call" where
  "whole_call sd oc =
     (let blank = (trim_matches is_json_whitespace (oc_args oc) = []);
          args = (case sd_from_str sd (if blank then ''{}'' else oc_args oc) of Some v \<Rightarrow> v | None \<Rightarrow> JNull)
      in \<lparr>tc_id = oc_id oc, tc_name = oc_name oc,
          tc_arguments = (if oc_name oc = request_user_form then sanitize_arguments sd args else args)\<rparr>)"

definition collect_step ::
  "serde \<Rightarrow> open_call list \<times> tool_call list \<Rightarrow> event \<Rightarrow> open_call list \<times> tool_call list"
where
  "collect_step sd st e =
     (case st of (ocs, calls) \<Rightarrow>
      let i = str_of e ''toolCallId''
      in if i = [] then st
         else if ev_type e = EvToolCallStart then
           (ocs @ [\<lparr>oc_id = i, oc_name = str_of e ''toolCallName'', oc_args = []\<rparr>], calls)
         else if ev_type e = EvToolCallArgs then
           (case extra_str e ''delta'' of Some d \<Rightarrow> (add_args i d ocs, calls) | None \<Rightarrow> st)
         else if ev_type e = EvToolCallEnd then
           (case take_open i ocs of
              Some (oc, rest) \<Rightarrow> (rest, calls @ [whole_call sd oc])
            | None \<Rightarrow> st)
         else st)"

definition collect_tool_calls :: "serde \<Rightarrow> event list \<Rightarrow> tool_call list" where
  "collect_tool_calls sd es = snd (foldl (collect_step sd) ([], []) es)"

section \<open>Kinds of call\<close>

definition client_render_names :: "string list" where
  "client_render_names =
     [''bar-chart'', ''barchart'', ''show-bar-chart'', ''render-bar-chart'', ''form'', ''show-form'', ''render-form'']"

definition is_client_render_tool :: "string \<Rightarrow> bool" where
  "is_client_render_tool name \<longleftrightarrow>
     map (\<lambda>c. if c = CHR ''_'' \<or> c = CHR '' '' then CHR ''-'' else c) (to_ascii_lowercase (trim name))
       \<in> set client_render_names"

definition work_tools_offered :: "json list \<Rightarrow> bool" where
  "work_tools_offered schemas \<longleftrightarrow>
     list_ex (\<lambda>s. case as_str (json_index (json_index s ''function'') ''name'') of
       Some name \<Rightarrow> \<not> is_client_render_tool name | None \<Rightarrow> False) schemas"

definition shell_command :: "json \<Rightarrow> string" where
  "shell_command arguments =
     (let v = (case json_get arguments ''command'' of Some w \<Rightarrow> Some w | None \<Rightarrow> json_get arguments ''cmd'')
      in case Option.bind v as_str of Some s \<Rightarrow> s | None \<Rightarrow> [])"

definition write_markers :: "string list" where
  "write_markers =
     [''rm '', ''rm'' @ [CHR 0x09], ''mkdir'', '' mv '', [CHR 0x09] @ ''mv '', '' cp '', [CHR 0x09] @ ''cp '',
      ''>'', ''tee '', ''chmod'', ''chown'', ''shutdown'', ''kill '', ''profile.save'', ''profile.ensure'',
      ''profile.set'', ''nav.go'', '' unlink'', ''truncate'', ''bir-headless serve'']"

definition looks_like_write :: "string \<Rightarrow> bool" where
  "looks_like_write command \<longleftrightarrow> list_ex (\<lambda>m. contains_str m command) write_markers"

definition looks_like_listing_or_show :: "string \<Rightarrow> bool" where
  "looks_like_listing_or_show command \<longleftrightarrow>
     (let name = shell_action_key command
      in name \<noteq> command \<and> list_ex (\<lambda>verb. ends_with verb name) [''.list'', ''.search'', ''.get''])"

definition home_child :: "string \<Rightarrow> string option" where
  "home_child path =
     (case strip_prefix ''~/'' path of
        Some r \<Rightarrow> Some r
      | None \<Rightarrow> (case strip_prefix ''$HOME/'' path of
          Some r \<Rightarrow> Some r
        | None \<Rightarrow> strip_prefix ''${HOME}/'' path))"

definition one_component :: "string \<Rightarrow> bool" where
  "one_component rest \<longleftrightarrow> rest \<noteq> [] \<and> CHR ''/'' \<notin> set rest"

definition is_broad_find_root :: "string \<Rightarrow> bool" where
  "is_broad_find_root path0 \<longleftrightarrow>
     (let path = trim_end_matches (\<lambda>c. c = CHR ''/'') path0
      in if path = ''~'' \<or> path = ''$HOME'' \<or> path = ''${HOME}'' then True
         else case home_child path of
           Some rest \<Rightarrow> one_component rest
         | None \<Rightarrow>
             if path = ''/Users'' \<or> path = ''/Volumes'' then True
             else case strip_prefix ''/Users/'' path of
               Some rest \<Rightarrow> one_component rest
             | None \<Rightarrow> (case strip_prefix ''/Volumes/'' path of
                 Some rest \<Rightarrow> one_component rest
               | None \<Rightarrow> False))"

definition before_find :: "string \<Rightarrow> bool" where
  "before_find t \<longleftrightarrow> CHR ''='' \<in> set t \<or> t = ''export'' \<or> t = ''command'' \<or> t = ''sudo''"

text \<open>The roots of a \<open>find\<close>: its words up to the first option or expression.\<close>

fun names_broad_root :: "string list \<Rightarrow> bool" where
  "names_broad_root [] = False"
| "names_broad_root (t # ts) =
     (let token = trim_matches (\<lambda>c. c = CHR 0x22 \<or> c = CHR 0x27) t
      in if starts_with ''-'' token \<or> token = ''('' \<or> token = ''!'' then False
         else if is_broad_find_root token then True
         else names_broad_root ts)"

definition segment_is_broad_find :: "string \<Rightarrow> bool" where
  "segment_is_broad_find segment \<longleftrightarrow>
     (case dropWhile before_find (split_whitespace segment) of
        t # ts \<Rightarrow> t = ''find'' \<and> names_broad_root ts
      | [] \<Rightarrow> False)"

definition is_broad_filesystem_walk :: "string \<Rightarrow> bool" where
  "is_broad_filesystem_walk command \<longleftrightarrow>
     list_ex segment_is_broad_find
       (split_chars (\<lambda>c. c = CHR 0x0A \<or> c = CHR '';'' \<or> c = CHR ''|'')
         (replace_str ''||'' '';'' (replace_str ''&&'' '';'' command)))"

definition is_shell_call :: "tool_call \<Rightarrow> bool" where
  "is_shell_call call \<longleftrightarrow> tc_name call = ''shell'' \<or> tc_name call = user_machine_shell"

definition is_broad_walk_call :: "tool_call \<Rightarrow> bool" where
  "is_broad_walk_call call \<longleftrightarrow>
     is_shell_call call \<and> is_broad_filesystem_walk (shell_command (tc_arguments call))"

definition refused_broad_walk :: "tool_call \<Rightarrow> tool_result" where
  "refused_broad_walk call =
     result_refused (tc_id call)
       ''that search walks the whole home directory. The invoke names already in the skill are the catalog.''"

section \<open>Recipes\<close>

definition recipe_of :: "tool_call \<Rightarrow> string option" where
  "recipe_of call =
     (if tc_name call \<noteq> run_recipe then None else str_at (tc_arguments call) ''recipe'')"

definition played_recipe :: "tool_call \<Rightarrow> tool_result \<Rightarrow> string option" where
  "played_recipe call result =
     (if tr_ok result \<or> tr_stopped_part_way result then recipe_of call else None)"

fun replays :: "tool_call list \<Rightarrow> string set \<Rightarrow> bool list" where
  "replays [] asked = []"
| "replays (call # calls) asked =
     (case recipe_of call of
        Some recipe \<Rightarrow> (recipe \<in> asked) # replays calls (insert recipe asked)
      | None \<Rightarrow> False # replays calls asked)"

definition answered_here :: "tool_call \<Rightarrow> bool \<Rightarrow> string set \<Rightarrow> tool_result option" where
  "answered_here call replay played =
     (if is_broad_walk_call call then Some (refused_broad_walk call)
      else case recipe_of call of
        None \<Rightarrow> None
      | Some recipe \<Rightarrow>
          if \<not> replay then None
          else Some (result_ok (tc_id call)
            (if recipe \<in> played
             then ''Not played again: the recipe '' @ tick @ recipe @ tick @
               '' already ran in this request, and a replay repeats what it did rather than correcting it. Say what its screenshot showed, finish by hand with '' @
               tick @ ''computer'' @ tick @ '', or ask.''
             else ''Not played twice: an earlier call in this reply already asks for the recipe '' @
               tick @ recipe @ tick @
               '', and a recipe plays at most once per request. Read that call'' @ apos @
               ''s result; if it was refused, correct it and ask once more.'')))"

section \<open>Failures and listings\<close>

definition names_the_catalog :: "tool_call \<Rightarrow> bool" where
  "names_the_catalog call \<longleftrightarrow> contains_str ''gpui-agent'' (shell_command (tc_arguments call))"

definition is_readonly_listing_shell :: "tool_call \<Rightarrow> bool" where
  "is_readonly_listing_shell call \<longleftrightarrow>
     is_shell_call call \<and> names_the_catalog call \<and>
     (let trimmed = trim (to_ascii_lowercase (shell_command (tc_arguments call)))
      in trimmed \<noteq> [] \<and> \<not> looks_like_write trimmed \<and> looks_like_listing_or_show trimmed)"

definition failure_key :: "serde \<Rightarrow> tool_call \<Rightarrow> string" where
  "failure_key sd call =
     (let command = shell_command (tc_arguments call)
      in if command = [] then tc_name call @ '':'' @ sd_to_string sd (tc_arguments call)
         else shell_action_key command)"

definition repeats_last_failure :: "serde \<Rightarrow> tool_call \<Rightarrow> string option \<Rightarrow> bool" where
  "repeats_last_failure sd call last_key \<longleftrightarrow> last_key = Some (failure_key sd call)"

definition is_missing_catalog_binary :: "tool_call \<Rightarrow> string \<Rightarrow> bool" where
  "is_missing_catalog_binary call txt \<longleftrightarrow> names_the_catalog call \<and> is_unrecoverable_command_miss txt"

text \<open>
  One chart or form a round, the last of them, behind the other calls.
\<close>

definition one_widget :: "tool_call list \<Rightarrow> tool_call list" where
  "one_widget calls =
     (case find (\<lambda>c. is_client_render_tool (tc_name c)) (rev calls) of
        Some ui \<Rightarrow> filter (\<lambda>c. \<not> is_client_render_tool (tc_name c)) calls @ [ui]
      | None \<Rightarrow> calls)"

section \<open>Which calls play a recipe\<close>

lemma replays_length [simp]: "length (replays calls asked) = length calls"
  by (induction calls asked rule: replays.induct) (auto split: option.split)

text \<open>
  Calls of one reply that the loop does not answer itself name no recipe played before and no
  recipe twice.
\<close>

fun fresh_recipes :: "tool_call list \<Rightarrow> string set \<Rightarrow> bool" where
  "fresh_recipes [] asked = True"
| "fresh_recipes (call # calls) asked =
     (case recipe_of call of
        Some recipe \<Rightarrow> recipe \<notin> asked \<and> fresh_recipes calls (insert recipe asked)
      | None \<Rightarrow> fresh_recipes calls asked)"

lemma fresh_recipes_mono: "fresh_recipes calls B \<Longrightarrow> A \<subseteq> B \<Longrightarrow> fresh_recipes calls A"
proof (induction calls arbitrary: A B)
  case (Cons call calls)
  show ?case
  proof (cases "recipe_of call")
    case (Some recipe)
    with Cons.prems Cons.IH [of "insert recipe B" "insert recipe A"] show ?thesis by auto
  next
    case None
    with Cons.prems Cons.IH [of B A] show ?thesis by simp
  qed
qed simp

definition runnable_of :: "tool_call list \<Rightarrow> bool list \<Rightarrow> string set \<Rightarrow> tool_call list" where
  "runnable_of calls flags played =
     map fst (filter (\<lambda>(call, flag). answered_here call flag played = None) (zip calls flags))"

lemma runnable_fresh: "fresh_recipes (runnable_of calls (replays calls asked) played) asked"
proof (induction calls arbitrary: asked)
  case (Cons call calls)
  show ?case
  proof (cases "recipe_of call")
    case None
    with Cons [of asked] show ?thesis by (simp add: runnable_of_def)
  next
    case (Some recipe)
    have "fresh_recipes (runnable_of calls (replays calls (insert recipe asked)) played) asked"
      using Cons [of "insert recipe asked"] by (rule fresh_recipes_mono) blast
    with Cons [of "insert recipe asked"] Some show ?thesis
      by (auto simp: runnable_of_def answered_here_def split: if_splits)
  qed
qed (simp add: runnable_of_def)

end
