(* ===== verification/Context_Window.thy ===== *)
theory Context_Window
  imports Model_Door
begin

text \<open>
  How much of a conversation fits the model (\<open>opengrok-harness/src/context.rs\<close>): the estimate, and
  the window that leaves out whole earlier turns until a request fits. The source's \<open>u64\<close> sums are
  natural numbers, its \<open>saturating_sub\<close> their subtraction: a sum of texts held in memory stays far
  from 2^64.
\<close>

definition image_tokens :: nat where "image_tokens = 1600"
definition message_tokens_flat :: nat where "message_tokens_flat = 4"
definition answer_tokens :: nat where "answer_tokens = 8192"

definition text_tokens :: "string \<Rightarrow> nat" where
  "text_tokens t = (length t + 2) div 3"

definition message_tokens :: "chat_message \<Rightarrow> nat" where
  "message_tokens m =
     message_tokens_flat + text_tokens (cm_content m) + image_tokens * length (cm_images m) +
     sum_list (map (\<lambda>c. text_tokens (rf_name c) + text_tokens (rf_arguments c)) (cm_tool_calls m))"

definition starts_a_turn :: "chat_message \<Rightarrow> bool" where
  "starts_a_turn m \<longleftrightarrow>
     cm_role m = ''user'' \<and> \<not> starts_with ''[harness]'' (cm_content m) \<and>
     \<not> starts_with ''[earlier '' (cm_content m)"

definition estimate_tokens :: "serde \<Rightarrow> model_request \<Rightarrow> nat" where
  "estimate_tokens sd r =
     (case mr_system r of Some s \<Rightarrow> text_tokens s | None \<Rightarrow> 0) +
     sum_list (map message_tokens (mr_messages r)) +
     sum_list (map (\<lambda>t. text_tokens (sd_to_string sd t)) (mr_tools r))"

record window =
  wn_keep :: nat
  wn_head :: nat
  wn_left_out :: nat
  wn_system :: "string option"

text \<open>\<open>Iterator::rposition\<close>: the last index where a test holds.\<close>

fun rposition :: "('a \<Rightarrow> bool) \<Rightarrow> 'a list \<Rightarrow> nat option" where
  "rposition P [] = None"
| "rposition P (x # xs) =
     (case rposition P xs of Some i \<Rightarrow> Some (Suc i) | None \<Rightarrow> if P x then Some 0 else None)"

definition window_at_entry :: "model_request \<Rightarrow> window" where
  "window_at_entry r =
     (let keep = length (takeWhile (\<lambda>m. cm_role m = ''system'') (mr_messages r));
          last_user = (case rposition (\<lambda>m. cm_role m = ''user'') (mr_messages r) of Some i \<Rightarrow> i | None \<Rightarrow> 0)
      in \<lparr>wn_keep = keep, wn_head = max last_user keep, wn_left_out = 0, wn_system = mr_system r\<rparr>)"

definition tokens_at :: "chat_message list \<Rightarrow> nat \<Rightarrow> nat" where
  "tokens_at ms i = (if i < length ms then message_tokens (ms ! i) else 0)"

definition turn_at :: "chat_message list \<Rightarrow> nat \<Rightarrow> bool" where
  "turn_at ms i \<longleftrightarrow> length ms \<le> i \<or> starts_a_turn (ms ! i)"

text \<open>One turn off the front: up to the next message that starts one, or to the head.\<close>

function cut_turn :: "chat_message list \<Rightarrow> nat \<Rightarrow> nat \<Rightarrow> nat \<Rightarrow> nat \<times> nat" where
  "cut_turn ms head gone freed =
     (let freed' = freed + tokens_at ms gone; gone' = gone + 1
      in if head \<le> gone' \<or> turn_at ms gone' then (gone', freed') else cut_turn ms head gone' freed')"
  by pat_completeness auto
termination by (relation "measure (\<lambda>(ms, head, gone, freed). head - gone)") auto

declare cut_turn.simps [simp del]

lemma cut_turn_forward: "gone < fst (cut_turn ms head gone freed)"
proof (induction ms head gone freed rule: cut_turn.induct)
  case (1 ms head gone freed)
  from 1 [OF refl refl] show ?case by (subst cut_turn.simps) (auto simp: Let_def)
qed

lemma cut_turn_forward': "(gone', freed') = cut_turn ms head gone freed \<Longrightarrow> gone < gone'"
  using cut_turn_forward [of gone ms head freed] by (metis fst_conv)

function cut_turns :: "chat_message list \<Rightarrow> nat \<Rightarrow> nat \<Rightarrow> nat \<Rightarrow> nat \<Rightarrow> nat \<Rightarrow> nat \<times> nat" where
  "cut_turns ms head estimate target gone freed =
     (if target < estimate - freed \<and> gone < head
      then case cut_turn ms head gone freed of
             (gone', freed') \<Rightarrow> cut_turns ms head estimate target gone' freed'
      else (gone, freed))"
  by pat_completeness auto
termination
proof (relation "measure (\<lambda>(ms, head, estimate, target, gone, freed). head - gone)", goal_cases)
  case (2 ms head estimate target gone freed g f)
  then have "gone < g" using cut_turn_forward' [of g f ms head gone freed] by simp
  with 2(1) show ?case by auto
qed simp

declare cut_turns.simps [simp del]

definition left_out_note :: "nat \<Rightarrow> string" where
  "left_out_note n =
     ''[harness] The '' @ nat_str n @
     '' oldest messages of this conversation were left out so it fits the model'' @ apos @
     ''s context. Ask the person if you need something from them.''"

definition too_long :: "string \<Rightarrow> nat \<Rightarrow> nat \<Rightarrow> string" where
  "too_long model estimate limit =
     ''This conversation is too long for '' @ model @ '' (about '' @ nat_str estimate @ '' of '' @
     nat_str limit @
     '' tokens) even with its earlier messages left out. Start a new conversation, or ask for less at once: a command whose output is this long will not fit the next time either.''"

definition room_of :: "nat \<Rightarrow> nat" where
  "room_of limit = limit - min answer_tokens (limit div 4)"

definition trim_window :: "nat \<Rightarrow> window \<Rightarrow> model_request \<Rightarrow> window \<times> model_request" where
  "trim_window gone w r =
     (if wn_keep w < gone
      then (w\<lparr>wn_head := wn_head w - (gone - wn_keep w), wn_left_out := wn_left_out w + (gone - wn_keep w)\<rparr>,
            r\<lparr>mr_messages := take (wn_keep w) (mr_messages r) @ drop gone (mr_messages r)\<rparr>)
      else (w, r))"

definition note_left_out :: "window \<Rightarrow> model_request \<Rightarrow> model_request" where
  "note_left_out w r =
     (if 0 < wn_left_out w
      then r\<lparr>mr_system := Some (case wn_system w of
               Some s \<Rightarrow> s @ [CHR 0x0A, CHR 0x0A] @ left_out_note (wn_left_out w)
             | None \<Rightarrow> left_out_note (wn_left_out w))\<rparr>
      else r)"

definition window_fit :: "serde \<Rightarrow> window \<Rightarrow> model_request \<Rightarrow> (string + nat) \<times> window \<times> model_request" where
  "window_fit sd w r =
     (let estimate = estimate_tokens sd r
      in case mr_context_tokens r of
           None \<Rightarrow> (Inr estimate, w, r)
         | Some limit \<Rightarrow>
             let room = room_of limit
             in if estimate \<le> room then (Inr estimate, w, r)
                else let (gone, freed) = cut_turns (mr_messages r) (wn_head w) estimate (room div 10 * 8) (wn_keep w) 0;
                         (w1, r1) = trim_window gone w r;
                         r2 = note_left_out w1 r1;
                         estimate' = estimate_tokens sd r2
                     in (if estimate' \<le> room then Inr estimate'
                         else Inl (too_long (mr_model r2) estimate' limit), w1, r2))"

section \<open>What a fit keeps\<close>

definition window_ok :: "window \<Rightarrow> chat_message list \<Rightarrow> bool" where
  "window_ok w ms \<longleftrightarrow> wn_keep w \<le> wn_head w \<and> wn_head w \<le> length ms"

lemma rposition_less: "rposition P xs = Some i \<Longrightarrow> i < length xs"
  by (induction xs arbitrary: i) (auto split: option.splits if_splits)

lemma window_at_entry_ok: "window_ok (window_at_entry r) (mr_messages r)"
  using rposition_less [of "\<lambda>m. cm_role m = ''user''" "mr_messages r"] length_takeWhile_le
  by (auto simp: window_ok_def window_at_entry_def Let_def less_imp_le split: option.split)

lemma window_ok_append: "window_ok w ms \<Longrightarrow> window_ok w (ms @ ms')"
  by (simp add: window_ok_def)

lemma cut_turn_bound:
  "gone < head \<Longrightarrow> fst (cut_turn ms head gone freed) \<le> head \<and>
     (fst (cut_turn ms head gone freed) = head \<or> turn_at ms (fst (cut_turn ms head gone freed)))"
proof (induction ms head gone freed rule: cut_turn.induct)
  case (1 ms head gone freed)
  then show ?case by (subst (1 2 3) cut_turn.simps) (auto simp: Let_def)
qed

lemma cut_turns_bound:
  "gone \<le> head \<Longrightarrow> gone \<le> fst (cut_turns ms head e t gone freed) \<and> fst (cut_turns ms head e t gone freed) \<le> head \<and>
     (fst (cut_turns ms head e t gone freed) = gone \<or> fst (cut_turns ms head e t gone freed) = head \<or>
      turn_at ms (fst (cut_turns ms head e t gone freed)))"
proof (induction ms head e t gone freed rule: cut_turns.induct)
  case (1 ms head e t gone freed)
  show ?case
  proof (cases "t < e - freed \<and> gone < head")
    case True
    obtain c f where c: "cut_turn ms head gone freed = (c, f)" by fastforce
    have "gone < c" "c \<le> head" "c = head \<or> turn_at ms c"
      using cut_turn_forward [of gone ms head freed] cut_turn_bound [of gone head ms freed] True c by auto
    with "1.IH" [OF True c [symmetric]] True c show ?thesis
      by (subst (1 2 3 4 5) cut_turns.simps) auto
  next
    case False
    with "1.prems" show ?thesis by (subst (1 2 3 4 5) cut_turns.simps) auto
  qed
qed

lemma window_fit_shape:
  assumes "window_fit sd w r = (res, w', r')" "window_ok w (mr_messages r)"
  obtains (shape) gone where "wn_keep w \<le> gone" "gone \<le> wn_head w"
    "gone = wn_keep w \<or> gone = wn_head w \<or> turn_at (mr_messages r) gone"
    "w' = w\<lparr>wn_head := wn_head w - (gone - wn_keep w), wn_left_out := wn_left_out w + (gone - wn_keep w)\<rparr>"
    "mr_messages r' = take (wn_keep w) (mr_messages r) @ drop gone (mr_messages r)"
proof -
  have stay: thesis if "w' = w" "mr_messages r' = mr_messages r"
    using assms(2) by (intro shape [of "wn_keep w"]) (auto simp: window_ok_def that)
  show thesis
  proof (cases "mr_context_tokens r")
    case None
    with assms show ?thesis by (intro stay) (auto simp: window_fit_def)
  next
    case (Some limit)
    show ?thesis
    proof (cases "estimate_tokens sd r \<le> room_of limit")
      case True
      with Some assms show ?thesis by (intro stay) (auto simp: window_fit_def Let_def)
    next
      case False
      obtain gone freed where c: "cut_turns (mr_messages r) (wn_head w) (estimate_tokens sd r)
          (room_of limit div 10 * 8) (wn_keep w) 0 = (gone, freed)" by fastforce
      have b: "wn_keep w \<le> gone" "gone \<le> wn_head w"
        "gone = wn_keep w \<or> gone = wn_head w \<or> turn_at (mr_messages r) gone"
        using cut_turns_bound [of "wn_keep w" "wn_head w" "mr_messages r" "estimate_tokens sd r"
            "room_of limit div 10 * 8" 0] assms(2) c
        by (auto simp: window_ok_def)
      with Some False assms c show ?thesis
        by (intro shape [of gone])
          (auto simp: window_fit_def Let_def trim_window_def note_left_out_def split: if_splits)
    qed
  qed
qed

lemma window_fit_room:
  "window_fit sd w r = (Inr n, w', r') \<Longrightarrow> n = estimate_tokens sd r' \<and>
     (\<forall>limit. mr_context_tokens r = Some limit \<longrightarrow> n \<le> room_of limit)"
  by (auto simp: window_fit_def Let_def split: option.splits if_splits prod.splits)

text \<open>A fit leaves out nothing of this turn and nothing of the client's own configuration: the
  messages from the head on are still there behind the leading ones, the head still points at the
  first of them, and what is gone is a run of whole earlier turns, counted. What it lets through
  fits the room the limit leaves.
\<close>

theorem fit_keeps_this_turn:
  assumes "window_fit sd w r = (res, w', r')" "window_ok w (mr_messages r)"
  shows "take (wn_keep w) (mr_messages r') = take (wn_keep w) (mr_messages r) \<and>
    drop (wn_head w') (mr_messages r') = drop (wn_head w) (mr_messages r) \<and>
    length (mr_messages r) = length (mr_messages r') + (wn_left_out w' - wn_left_out w) \<and>
    (length (mr_messages r') = length (mr_messages r) \<or> wn_head w' = wn_keep w \<or>
       turn_at (mr_messages r') (wn_keep w)) \<and>
    window_ok w' (mr_messages r') \<and>
    (\<forall>n limit. res = Inr n \<and> mr_context_tokens r = Some limit \<longrightarrow>
       estimate_tokens sd r' = n \<and> n \<le> room_of limit)"
proof -
  from assms obtain gone where g: "wn_keep w \<le> gone" "gone \<le> wn_head w"
    "gone = wn_keep w \<or> gone = wn_head w \<or> turn_at (mr_messages r) gone"
    "w' = w\<lparr>wn_head := wn_head w - (gone - wn_keep w), wn_left_out := wn_left_out w + (gone - wn_keep w)\<rparr>"
    "mr_messages r' = take (wn_keep w) (mr_messages r) @ drop gone (mr_messages r)"
    by (rule window_fit_shape)
  have len: "wn_head w \<le> length (mr_messages r)" using assms(2) by (simp add: window_ok_def)
  have d: "drop (wn_head w') (mr_messages r') = drop (wn_head w) (mr_messages r)"
    using g len by (simp add: min_def)
  have t: "length (mr_messages r') = length (mr_messages r) \<or> wn_head w' = wn_keep w \<or>
      turn_at (mr_messages r') (wn_keep w)"
    using g len by (auto simp: turn_at_def nth_append min_def)
  have o: "window_ok w' (mr_messages r')" "length (mr_messages r) = length (mr_messages r') + (wn_left_out w' - wn_left_out w)"
    using g len by (auto simp: window_ok_def min_def)
  have k: "take (wn_keep w) (mr_messages r') = take (wn_keep w) (mr_messages r)"
    using g len by (simp add: min_def)
  have "estimate_tokens sd r' = n \<and> n \<le> room_of limit"
    if "res = Inr n" "mr_context_tokens r = Some limit" for n limit
    using window_fit_room [of sd w r n w' r'] assms(1) that by simp
  with k d t o show ?thesis by blast
qed

definition sample_request :: model_request where
  "sample_request =
     \<lparr>mr_model = ''m'', mr_effort = Inherit,
      mr_messages = [message_of ''system'' ''be brief'', message_of ''user'' ''an older question'',
        message_of ''assistant'' ''an older and rather long answer'', message_of ''user'' ''now?''],
      mr_system = None, mr_tools = [], mr_gateway_key = None, mr_spend_scope = None,
      mr_spend_actor = None, mr_context_tokens = Some 40, mr_endpoint = None, mr_fallback_for = None,
      mr_customs = []\<rparr>"

theorem fit_keeps_this_turn_witness:
  "wn_left_out (fst (snd (window_fit sample_serde (window_at_entry sample_request) sample_request))) = 2 \<and>
   (let r' = snd (snd (window_fit sample_serde (window_at_entry sample_request) sample_request));
        w' = fst (snd (window_fit sample_serde (window_at_entry sample_request) sample_request))
    in drop (wn_head w') (mr_messages r') = [message_of ''user'' ''now?''])"
proof -
  let ?f = "window_fit sample_serde (window_at_entry sample_request) sample_request"
  have f: "?f = (fst ?f, fst (snd ?f), snd (snd ?f))" by simp
  have d: "drop (wn_head (window_at_entry sample_request)) (mr_messages sample_request) =
      [message_of ''user'' ''now?'']" "wn_left_out (fst (snd ?f)) = 2"
    by code_simp+
  from fit_keeps_this_turn [OF f window_at_entry_ok] d show ?thesis by (simp add: Let_def)
qed

end
