(* ===== verification/Run_Budget.thy ===== *)
theory Run_Budget
  imports Model_Door Limits
begin

text \<open>
  What one run may spend (\<open>opengrok-harness/src/budget.rs\<close>): the server's own budget, the budget a
  run is held to once its org and its routine have spoken, and how a limit is said. The clocks of a
  single model call are part of the loop's world.
\<close>

definition MAX_ROUNDS :: nat where "MAX_ROUNDS = 8"
definition MAX_COMPUTER_ROUNDS :: nat where "MAX_COMPUTER_ROUNDS = 24"

record run_budget =
  bu_max_rounds :: nat
  bu_max_computer_rounds :: nat
  bu_max_wall_ms :: nat
  bu_call_timeout_ms :: nat
  bu_idle_ms :: nat

definition budget_default :: run_budget where
  "budget_default =
     \<lparr>bu_max_rounds = MAX_ROUNDS, bu_max_computer_rounds = MAX_COMPUTER_ROUNDS,
      bu_max_wall_ms = 15 * 60 * 1000, bu_call_timeout_ms = 180000, bu_idle_ms = 240000\<rparr>"

definition held_at :: "'a::len word option \<Rightarrow> nat \<Rightarrow> nat" where
  "held_at limit most = (case limit of Some l \<Rightarrow> min (unat l) most | None \<Rightarrow> most)"

definition budget_held_to :: "run_limits \<Rightarrow> run_budget" where
  "budget_held_to limits =
     budget_default
       \<lparr>bu_max_rounds := held_at (max_rounds limits) (bu_max_rounds budget_default),
        bu_max_computer_rounds := held_at (max_computer_rounds limits) (bu_max_computer_rounds budget_default),
        bu_max_wall_ms := held_at (max_wall_ms limits) (bu_max_wall_ms budget_default)\<rparr>"

text \<open>\<open>u32::try_from(n).ok().and_then(NonZeroU32::new)\<close>, and the same for the clock.\<close>

definition as_limit :: "nat \<Rightarrow> 'a::len word option" where
  "as_limit n = (if n = 0 \<or> 2 ^ LENGTH('a) \<le> n then None else Some (of_nat n))"

definition budget_limits :: "run_budget \<Rightarrow> run_limits" where
  "budget_limits b =
     \<lparr>max_rounds = as_limit (bu_max_rounds b), max_computer_rounds = as_limit (bu_max_computer_rounds b),
      max_wall_ms = as_limit (bu_max_wall_ms b)\<rparr>"

text \<open>A limit as a person reads it.\<close>

definition spoken :: "nat \<Rightarrow> string" where
  "spoken ms =
     (if ms < 1000 then nat_str ms @ '' ms''
      else if ms < 120000 then nat_str (ms div 1000) @ '' seconds''
      else nat_str (ms div 60000) @ '' minutes'')"

definition budget_json :: "run_budget \<Rightarrow> json" where
  "budget_json b = JObject
     [(''max_rounds'', JInt (int (bu_max_rounds b))), (''max_computer_rounds'', JInt (int (bu_max_computer_rounds b))),
      (''max_wall_ms'', JInt (int (bu_max_wall_ms b))), (''call_timeout_ms'', JInt (int (bu_call_timeout_ms b))),
      (''idle_ms'', JInt (int (bu_idle_ms b)))]"

lemma held_at_le: "held_at limit most \<le> most"
  by (simp add: held_at_def split: option.split)

lemma held_at_tighter: "held_at (tighter a b) most = min (held_at a most) (held_at b most)"
  by (cases a; cases b) (auto simp: held_at_def min_def word_le_nat_alt)

lemma held_at_pos: "limit \<noteq> Some 0 \<Longrightarrow> 0 < most \<Longrightarrow> 0 < held_at limit most"
  by (cases limit) (auto simp: held_at_def unat_gt_0)

lemma held_at_as_limit:
  "0 < n \<Longrightarrow> n < 2 ^ LENGTH('a) \<Longrightarrow> held_at (as_limit n :: 'a::len word option) n = n"
  by (simp add: held_at_def as_limit_def unat_of_nat)

text \<open>
  A run is held to its limits and never past the server's own: two levels hold it to the tighter of
  each, no level raises anything, a limit that is not zero leaves every kind of round possible, and
  the limits read off the server's budget are the ones that change nothing.
\<close>

theorem held_budget_only_narrows:
  "bu_max_rounds (budget_held_to (limits_and a b)) =
     min (bu_max_rounds (budget_held_to a)) (bu_max_rounds (budget_held_to b)) \<and>
   bu_max_computer_rounds (budget_held_to (limits_and a b)) =
     min (bu_max_computer_rounds (budget_held_to a)) (bu_max_computer_rounds (budget_held_to b)) \<and>
   bu_max_wall_ms (budget_held_to (limits_and a b)) =
     min (bu_max_wall_ms (budget_held_to a)) (bu_max_wall_ms (budget_held_to b)) \<and>
   bu_max_rounds (budget_held_to a) \<le> MAX_ROUNDS \<and>
   bu_max_computer_rounds (budget_held_to a) \<le> MAX_COMPUTER_ROUNDS \<and>
   budget_held_to (budget_limits budget_default) = budget_default \<and>
   budget_held_to run_limits_default = budget_default"
  by (simp add: budget_held_to_def limits_and_def held_at_tighter held_at_le budget_default_def
      budget_limits_def held_at_as_limit MAX_ROUNDS_def MAX_COMPUTER_ROUNDS_def run_limits_default_def)
    (simp add: held_at_def)

lemma held_budget_positive:
  "limits_nonzero l \<Longrightarrow> 0 < bu_max_rounds (budget_held_to l) \<and> 0 < bu_max_computer_rounds (budget_held_to l)"
  by (auto simp: budget_held_to_def limits_nonzero_def budget_default_def MAX_ROUNDS_def
      MAX_COMPUTER_ROUNDS_def intro!: held_at_pos)

end
