(* ===== verification/Harness_World.thy ===== *)
theory Harness_World
  imports Loop_Calls Context_Window Run_Budget
begin

text \<open>
  What the agent loop touches and how it ends a run (\<open>opengrok-harness/src/lib.rs\<close>,
  \<open>journal.rs\<close>, \<open>timing.rs\<close>, and the clocks of \<open>budget.rs\<close>).

  The door, the tools, the journal, the live watcher and the clock are implemented elsewhere, so
  they are parameters of the model: \<open>world\<close> holds their answers, each a function of everything
  the loop has done so far, newest first (\<open>act list\<close>). Every theorem about the loop holds for
  every world, a journal that fails at any moment, a Stop that lands between any two steps and a
  model that sends anything included. What a stream sends is a finite list; an entry \<open>None\<close> is a
  silence longer than the idle clock allows.
\<close>

section \<open>The world\<close>

datatype journal_error = Unwritable string | EndedUnder string | Fenced string

fun journal_error_text :: "journal_error \<Rightarrow> string" where
  "journal_error_text (Unwritable why) = ''the run could not be recorded: '' @ why"
| "journal_error_text (EndedUnder why) = ''the run ended before this could be recorded: '' @ why"
| "journal_error_text (Fenced why) = ''the run was carried on by another loop: '' @ why"

type_synonym delta_stream = "(model_error + model_delta) option list"

datatype act =
    Asked model_request
  | Wrote "event list" round_spent "journal_error option"
  | Starting "started_tool list" "journal_error option"
  | StopAsked bool
  | Ran tool_call tool_result
  | Told "event list"

record world =
  w_serde :: serde
  w_door :: "act list \<Rightarrow> model_request \<Rightarrow> (model_error + delta_stream) option"
  w_write :: "act list \<Rightarrow> event list \<Rightarrow> round_spent option \<Rightarrow> journal_error option"
  w_starting :: "act list \<Rightarrow> started_tool list \<Rightarrow> journal_error option"
  w_stopped :: "act list \<Rightarrow> bool"
  w_run :: "act list \<Rightarrow> tool_call \<Rightarrow> tool_result \<times> nat"
  w_tools :: bool
  w_schemas :: "json list"
  w_needs_wake :: "act list \<Rightarrow> tool_call \<Rightarrow> bool"
  w_coworker :: "string option"
  w_sink :: bool
  w_now :: "act list \<Rightarrow> nat"
  w_review_ms :: "act list \<Rightarrow> nat"
  w_hash :: "string \<Rightarrow> nat"

definition ask_stopped :: "world \<Rightarrow> act list \<Rightarrow> bool \<times> act list" where
  "ask_stopped w tr = (w_stopped w tr, StopAsked (w_stopped w tr) # tr)"

definition tools_starting :: "world \<Rightarrow> started_tool list \<Rightarrow> act list \<Rightarrow> journal_error option \<times> act list" where
  "tools_starting w ts tr = (w_starting w tr ts, Starting ts (w_starting w tr ts) # tr)"

text \<open>
  One call after another, each with its own time: \<open>ToolRunner::run_all\<close>. A call is answered in
  process, by a skill, by a Bot's mail or by the executor; which of them it is is the world's.
\<close>

fun run_all :: "world \<Rightarrow> tool_call list \<Rightarrow> act list \<Rightarrow> (tool_result \<times> nat) list \<times> act list" where
  "run_all w [] tr = ([], tr)"
| "run_all w (call # calls) tr =
     (case w_run w tr call of
        (result, ms) \<Rightarrow>
          (case run_all w calls (Ran call result # tr) of (rest, tr') \<Rightarrow> ((result, ms) # rest, tr')))"

section \<open>What leaves the process\<close>

definition scrub_event_secrets :: "serde \<Rightarrow> event \<Rightarrow> event" where
  "scrub_event_secrets sd e =
     (case scrub_secret_keys sd (JObject (ev_extra e)) of
        JObject m \<Rightarrow> e\<lparr>ev_extra := m\<rparr>
      | _ \<Rightarrow> e)"

text \<open>What the watcher is told is what was produced, scrubbed event by event.\<close>

definition emit_live :: "world \<Rightarrow> event list \<Rightarrow> act list \<Rightarrow> act list" where
  "emit_live w es tr = (if w_sink w \<and> es \<noteq> [] then Told es # tr else tr)"

definition told_events :: "serde \<Rightarrow> event list \<Rightarrow> event list" where
  "told_events sd es = map (scrub_event_secrets sd) es"

definition strip_agent_png :: "event \<Rightarrow> event" where
  "strip_agent_png e =
     (if ev_type e \<noteq> EvToolCallResult then e
      else case map_of (ev_extra e) ''image'' of
        None \<Rightarrow> e
      | Some im \<Rightarrow>
          if (case str_at im ''visibility'' of Some v \<Rightarrow> v | None \<Rightarrow> ''transcript'') = ''agent''
          then (case im of
                  JObject m \<Rightarrow> e\<lparr>ev_extra := jm_insert ''image'' (JObject (jm_remove ''base64'' m)) (ev_extra e)\<rparr>
                | _ \<Rightarrow> e)
          else e)"

text \<open>
  The fragments of a form's arguments, put together, scrubbed and put back as one where the first
  was.
\<close>

definition sensitive_ids :: "event list \<Rightarrow> string list" where
  "sensitive_ids es =
     List.map_filter (\<lambda>e. extra_str e ''toolCallId'')
       (filter (\<lambda>e. extra_str e ''toolCallName'' = Some request_user_form)
         (filter (\<lambda>e. ev_type e = EvToolCallStart) es))"

definition fragments_of :: "string \<Rightarrow> event list \<Rightarrow> string list" where
  "fragments_of i es =
     List.map_filter (\<lambda>e. extra_str e ''delta'')
       (filter (\<lambda>e. ev_type e = EvToolCallArgs \<and> extra_str e ''toolCallId'' = Some i) es)"

definition clean_args :: "serde \<Rightarrow> string list \<Rightarrow> string" where
  "clean_args sd fragments =
     (case sd_from_str sd (trim (concat fragments)) of
        Some v \<Rightarrow> sd_to_string sd (scrub_secret_keys sd v)
      | None \<Rightarrow> ''{}'')"

text \<open>The ids that were joined: sensitive, with at least one fragment of text.\<close>

definition is_joined :: "event list \<Rightarrow> string \<Rightarrow> bool" where
  "is_joined es i \<longleftrightarrow> i \<in> set (sensitive_ids es) \<and> fragments_of i es \<noteq> []"

fun place_args :: "serde \<Rightarrow> event list \<Rightarrow> string set \<Rightarrow> event list \<Rightarrow> event list" where
  "place_args sd whole placed [] = []"
| "place_args sd whole placed (e # es) =
     (if ev_type e \<noteq> EvToolCallArgs then e # place_args sd whole placed es
      else case extra_str e ''toolCallId'' of
        None \<Rightarrow> e # place_args sd whole placed es
      | Some i \<Rightarrow>
          if \<not> is_joined whole i then e # place_args sd whole placed es
          else if i \<in> placed then place_args sd whole placed es
          else with_str ''delta'' (clean_args sd (fragments_of i whole)) e #
               place_args sd whole (insert i placed) es)"

definition scrub_streamed_tool_args :: "serde \<Rightarrow> event list \<Rightarrow> event list" where
  "scrub_streamed_tool_args sd es = (if sensitive_ids es = [] then es else place_args sd es {} es)"

definition for_journal :: "serde \<Rightarrow> event list \<Rightarrow> event list" where
  "for_journal sd es =
     map (\<lambda>e. scrub_event_secrets sd (strip_agent_png e)) (scrub_streamed_tool_args sd es)"

definition spent_nothing :: round_spent where
  "spent_nothing = \<lparr>sp_recipes = [], sp_round = None\<rparr>"

definition record_round :: "world \<Rightarrow> event list \<Rightarrow> round_spent \<Rightarrow> act list \<Rightarrow> journal_error option \<times> act list" where
  "record_round w es sp tr =
     (let r = w_write w tr (for_journal (w_serde w) es) (if round_spent_is_empty sp then None else Some sp)
      in (r, Wrote es sp r # tr))"

text \<open>\<open>journal.record\<close> on its own, for the opening: nothing is stripped from it.\<close>

definition record_opening :: "world \<Rightarrow> event list \<Rightarrow> act list \<Rightarrow> journal_error option \<times> act list" where
  "record_opening w es tr = (w_write w tr es None, Wrote es spent_nothing (w_write w tr es None) # tr)"

section \<open>Timing\<close>

record turn_timing =
  tt_started :: nat
  tt_model_ms :: "nat list"
  tt_tools :: "(string \<times> nat) list"
  tt_tool_wait_ms :: nat
  tt_auto_review_ms :: nat
  tt_tool_rounds :: nat
  tt_budget :: "json option"
  tt_wrapped_up :: "string option"
  tt_context :: "(nat option \<times> nat list \<times> nat) option"

definition timing_new :: "nat \<Rightarrow> turn_timing" where
  "timing_new now =
     \<lparr>tt_started = now, tt_model_ms = [], tt_tools = [], tt_tool_wait_ms = 0, tt_auto_review_ms = 0,
      tt_tool_rounds = 0, tt_budget = None, tt_wrapped_up = None, tt_context = None\<rparr>"

definition timing_budget :: "run_budget \<Rightarrow> turn_timing \<Rightarrow> turn_timing" where
  "timing_budget b t = t\<lparr>tt_budget := Some (budget_json b)\<rparr>"

definition timing_wrapped_up :: "string \<Rightarrow> turn_timing \<Rightarrow> turn_timing" where
  "timing_wrapped_up why t = t\<lparr>tt_wrapped_up := Some why\<rparr>"

definition timing_context :: "nat option \<Rightarrow> nat \<Rightarrow> nat \<Rightarrow> turn_timing \<Rightarrow> turn_timing" where
  "timing_context limit estimate left_out t =
     t\<lparr>tt_context := Some (limit,
         (case tt_context t of Some (_, es, _) \<Rightarrow> es | None \<Rightarrow> []) @ [estimate], left_out)\<rparr>"

definition timing_model :: "nat \<Rightarrow> turn_timing \<Rightarrow> turn_timing" where
  "timing_model ms t = t\<lparr>tt_model_ms := tt_model_ms t @ [ms]\<rparr>"

definition timing_tools :: "(string \<times> nat) list \<Rightarrow> nat \<Rightarrow> nat \<Rightarrow> turn_timing \<Rightarrow> turn_timing" where
  "timing_tools phases wait_ms review_ms t =
     t\<lparr>tt_tool_wait_ms := tt_tool_wait_ms t + wait_ms, tt_auto_review_ms := tt_auto_review_ms t + review_ms,
       tt_tool_rounds := tt_tool_rounds t + 1, tt_tools := tt_tools t @ phases\<rparr>"

abbreviation jnat :: "nat \<Rightarrow> json" where "jnat n \<equiv> JInt (int n)"

definition timing_value :: "nat \<Rightarrow> turn_timing \<Rightarrow> json" where
  "timing_value now t = JObject
     ([(''model_ms'', JArray (map jnat (tt_model_ms t))),
       (''tools'', JArray (map (\<lambda>(n, ms). JObject [(''name'', JString n), (''ms'', jnat ms)]) (tt_tools t))),
       (''tool_wait_ms'', jnat (tt_tool_wait_ms t)), (''auto_review_ms'', jnat (tt_auto_review_ms t)),
       (''total_ms'', jnat (now - tt_started t)), (''tool_rounds'', jnat (tt_tool_rounds t))] @
      opt_member ''budget'' (tt_budget t) @
      opt_member ''wrapped_up'' (map_option JString (tt_wrapped_up t)) @
      opt_member ''context'' (map_option (\<lambda>(limit, es, out).
        JObject [(''limit'', case limit of Some l \<Rightarrow> jnat l | None \<Rightarrow> JNull),
          (''estimated'', JArray (map jnat es)), (''left_out'', jnat out)]) (tt_context t)))"

definition timing_event :: "nat \<Rightarrow> turn_timing \<Rightarrow> projection \<Rightarrow> event" where
  "timing_event now t p =
     with_json ''tool_rounds'' (jnat (tt_tool_rounds t))
       (with_json ''total_ms'' (jnat (now - tt_started t))
         (pj_custom run_timing_name (timing_value now t) p))"

definition splice_before_run_end :: "event \<Rightarrow> event list \<Rightarrow> event list" where
  "splice_before_run_end extra es =
     (let at = (case rposition ends_run es of Some i \<Rightarrow> i | None \<Rightarrow> length es)
      in take at es @ extra # drop at es)"

section \<open>The clocks of a model call\<close>

definition door_answer :: "world \<Rightarrow> run_budget \<Rightarrow> model_request \<Rightarrow> act list \<Rightarrow> model_error + delta_stream" where
  "door_answer w b r tr =
     (case w_door w tr r of
        Some a \<Rightarrow> a
      | None \<Rightarrow> Inl (TimedOut (''the model did not start answering within '' @ spoken (bu_call_timeout_ms b))))"

text \<open>Asked again only where \<open>retry_wait\<close> says so, which is on a first attempt.\<close>

function budget_open ::
  "world \<Rightarrow> run_budget \<Rightarrow> model_request \<Rightarrow> nat \<Rightarrow> act list \<Rightarrow> (model_error + delta_stream) \<times> act list"
where
  "budget_open w b r attempt tr =
     (let opened = door_answer w b r tr
      in case opened of
           Inr s \<Rightarrow> (opened, Asked r # tr)
         | Inl e \<Rightarrow>
             (case retry_wait (w_serde w) e attempt of
                None \<Rightarrow> (opened, Asked r # tr)
              | Some wait \<Rightarrow> budget_open w b r (attempt + 1) (Asked r # tr)))"
  by pat_completeness auto
termination
  by (relation "measure (\<lambda>(w, b, r, attempt, tr). 1 - attempt)") (auto dest: retry_wait_first)

declare budget_open.simps [simp del]

definition next_delta :: "run_budget \<Rightarrow> (model_error + model_delta) option \<Rightarrow> model_error + model_delta" where
  "next_delta b item =
     (case item of
        Some d \<Rightarrow> d
      | None \<Rightarrow> Inl (TimedOut (''the model stopped answering for '' @ spoken (bu_idle_ms b))))"

section \<open>Pictures\<close>

definition is_agent_shot :: "event \<Rightarrow> bool" where
  "is_agent_shot e \<longleftrightarrow>
     ev_type e = EvToolCallResult \<and>
     (case map_of (ev_extra e) ''image'' of
        Some im \<Rightarrow> str_at im ''visibility'' = Some ''agent''
      | None \<Rightarrow> False)"

definition remember_agent_shot :: "event list \<Rightarrow> event option \<Rightarrow> event option" where
  "remember_agent_shot produced slot =
     (case find is_agent_shot (rev produced) of Some e \<Rightarrow> Some e | None \<Rightarrow> slot)"

definition set_image_visibility :: "image_visibility \<Rightarrow> event \<Rightarrow> event" where
  "set_image_visibility v e =
     (case map_of (ev_extra e) ''image'' of
        Some (JObject m) \<Rightarrow>
          e\<lparr>ev_extra := jm_insert ''image''
             (JObject (jm_insert ''visibility'' (JString (image_visibility_as_str v)) m)) (ev_extra e)\<rparr>
      | _ \<Rightarrow> e)"

text \<open>The last agent shot of a batch, promoted where it is.\<close>

definition promote_agent_in :: "image_visibility \<Rightarrow> event list \<Rightarrow> event list option" where
  "promote_agent_in v es =
     (case rposition is_agent_shot es of
        Some i \<Rightarrow> Some (es[i := set_image_visibility v (es ! i)])
      | None \<Rightarrow> None)"

definition pin_last_agent_shot ::
  "world \<Rightarrow> image_visibility \<Rightarrow> event option \<Rightarrow> event list \<Rightarrow> act list \<Rightarrow> event option \<times> event list \<times> act list"
where
  "pin_last_agent_shot w v slot round tr =
     (case promote_agent_in v round of
        Some round' \<Rightarrow> (None, round', tr)
      | None \<Rightarrow>
          (case slot of
             None \<Rightarrow> (None, round, tr)
           | Some shot \<Rightarrow>
               (None, round @ [set_image_visibility v shot],
                emit_live w [set_image_visibility v shot] tr)))"

definition recent_images :: nat where "recent_images = 2"

text \<open>From the newest message back: past the first \<open>keep\<close> with pictures, pictures are dropped.\<close>

fun drop_old_images :: "nat \<Rightarrow> chat_message list \<Rightarrow> chat_message list" where
  "drop_old_images keep [] = []"
| "drop_old_images keep (m # ms) =
     (if cm_images m = [] then m # drop_old_images keep ms
      else case keep of
        0 \<Rightarrow> m\<lparr>cm_images := []\<rparr> # drop_old_images 0 ms
      | Suc k \<Rightarrow> m # drop_old_images k ms)"

definition keep_recent_images :: "nat \<Rightarrow> chat_message list \<Rightarrow> chat_message list" where
  "keep_recent_images keep ms = rev (drop_old_images keep (rev ms))"

section \<open>How a run ends\<close>

type_synonym waiting = "tool_call \<times> awaiting_reason \<times> string"

datatype ending = FinishEnding "string option" | FailEnding string | StopEnding | ParkEnding "waiting list"

definition start_refused :: "journal_error \<Rightarrow> ending" where
  "start_refused e =
     (case e of
        Unwritable why \<Rightarrow> FailEnding (''the run could not record that a tool was starting, so the tool did not run: '' @ why)
      | _ \<Rightarrow> StopEnding)"

definition round_has_assistant_text :: "event list \<Rightarrow> bool" where
  "round_has_assistant_text es \<longleftrightarrow> list_ex (\<lambda>e. ev_type e = EvTextMessageContent) es"

definition emit_visible_text ::
  "world \<Rightarrow> string \<Rightarrow> projection \<times> event list \<times> act list \<Rightarrow> projection \<times> event list \<times> act list"
where
  "emit_visible_text w txt st =
     (case st of (p, round, tr) \<Rightarrow>
      if txt = [] then st
      else case pj_push (DText txt) p of (es, p1) \<Rightarrow> (p1, round @ es, emit_live w es tr))"

definition awaiting_why :: "string \<Rightarrow> string option" where
  "awaiting_why txt =
     (case strip_prefix ''waiting for approval: '' txt of
        Some why \<Rightarrow> if trim why = [] then None else Some (trim why)
      | None \<Rightarrow> None)"

fun park_cards :: "serde \<Rightarrow> waiting list \<Rightarrow> projection \<Rightarrow> event list \<times> projection" where
  "park_cards sd [] p = ([], p)"
| "park_cards sd ((call, reason, why) # ws) p =
     (case awaiting_approval sd call reason (awaiting_why why) p of
        (es, p1) \<Rightarrow> case park_cards sd ws p1 of (es', p2) \<Rightarrow> (es @ es', p2))"

definition park_awaiting :: "serde \<Rightarrow> waiting list \<Rightarrow> projection \<Rightarrow> event list \<times> projection" where
  "park_awaiting sd ws p =
     (case park_cards sd ws p of (es, p1) \<Rightarrow> case pj_finish p1 of (es', p2) \<Rightarrow> (es @ es', p2))"

text \<open>The frames an ending closes with. A clean finish and a park ask once more whether the run was stopped.\<close>

definition closing_frames :: "world \<Rightarrow> ending \<Rightarrow> projection \<Rightarrow> act list \<Rightarrow> (event list \<times> projection) \<times> act list" where
  "closing_frames w ending p tr =
     (case ending of
        FinishEnding _ \<Rightarrow>
          (case ask_stopped w tr of (stop, tr1) \<Rightarrow> (if stop then pj_stopped p else pj_finish p, tr1))
      | ParkEnding ws \<Rightarrow>
          (case ask_stopped w tr of
             (stop, tr1) \<Rightarrow> (if stop then pj_stopped p else park_awaiting (w_serde w) ws p, tr1))
      | StopEnding \<Rightarrow> (pj_stopped p, tr)
      | FailEnding msg \<Rightarrow> (pj_fail msg p, tr))"

definition timed_closing :: "world \<Rightarrow> turn_timing \<Rightarrow> projection \<Rightarrow> act list \<Rightarrow> event list \<Rightarrow> event list" where
  "timed_closing w t p tr es =
     (if es = [] then es else splice_before_run_end (timing_event (w_now w tr) t p) es)"

definition pinned_as :: "ending \<Rightarrow> image_visibility option" where
  "pinned_as ending =
     (case ending of
        FailEnding _ \<Rightarrow> Some FailureImage
      | ParkEnding _ \<Rightarrow> None
      | _ \<Rightarrow> Some EndImage)"

text \<open>
  The last step of an ending: what the log took is told, and what it refused is replaced by the one
  true thing, that the run could not be recorded.
\<close>

definition tell_ending ::
  "world \<Rightarrow> projection \<Rightarrow> event list \<Rightarrow> event list \<Rightarrow> journal_error option \<Rightarrow> act list \<Rightarrow> event list \<times> act list"
where
  "tell_ending w p round closing written tr =
     (let said = (case written of None \<Rightarrow> closing | Some e \<Rightarrow> unrecorded closing (journal_error_text e) p)
      in (round @ said, emit_live w said tr))"

definition ended_under :: "journal_error option \<Rightarrow> bool" where
  "ended_under written \<longleftrightarrow> (case written of Some (EndedUnder _) \<Rightarrow> True | _ \<Rightarrow> False)"

definition is_park :: "ending \<Rightarrow> bool" where
  "is_park ending \<longleftrightarrow> (case ending of ParkEnding _ \<Rightarrow> True | _ \<Rightarrow> False)"

text \<open>Before the closing frames: the sentence a silent finish shows, and the picture that is kept.\<close>

definition close_prepare ::
  "world \<Rightarrow> ending \<Rightarrow> event option \<Rightarrow> projection \<times> event list \<times> act list \<Rightarrow>
   event option \<times> projection \<times> event list \<times> act list"
where
  "close_prepare w ending shot st =
     (let (p, round, tr) =
            (case ending of
               FinishEnding (Some sentence) \<Rightarrow>
                 (case st of (_, round, _) \<Rightarrow>
                  if round_has_assistant_text round then st else emit_visible_text w sentence st)
             | _ \<Rightarrow> st)
      in case pinned_as ending of
           None \<Rightarrow> (shot, p, round, tr)
         | Some v \<Rightarrow> (case pin_last_agent_shot w v shot round tr of (shot', round', tr') \<Rightarrow> (shot', p, round', tr')))"

text \<open>
  The one place a run ends. A park whose write found the run already ended is written again with
  the stop's ending, from the projection as it was before the park.
\<close>

definition close_run ::
  "world \<Rightarrow> turn_timing \<Rightarrow> event option \<Rightarrow> projection \<Rightarrow> event list \<Rightarrow> round_spent \<Rightarrow> ending \<Rightarrow> act list \<Rightarrow>
   event list \<times> act list"
where
  "close_run w t shot0 p0 round0 sp ending tr0 =
     (case close_prepare w ending shot0 (p0, round0, tr0) of (shot, p, round, tr1) \<Rightarrow>
      case closing_frames w ending p tr1 of ((es, p1), tr2) \<Rightarrow>
      let closing = timed_closing w t p1 tr2 es
      in case record_round w (round @ closing) sp tr2 of (written, tr3) \<Rightarrow>
      if is_park ending \<and> ended_under written then
        (case pin_last_agent_shot w EndImage shot round tr3 of (_, round', tr4) \<Rightarrow>
         case pj_stopped p of (es', p2) \<Rightarrow>
         let closing' = timed_closing w t p2 tr4 es'
         in case record_round w (round' @ closing') sp tr4 of (written', tr5) \<Rightarrow>
            tell_ending w p2 round' closing' written' tr5)
      else tell_ending w p1 round closing written tr3)"

end
