(* ===== verification/Agent_Loop.thy ===== *)
theory Agent_Loop
  imports Harness_World
begin

text \<open>
  The agent loop (\<open>opengrok-harness/src/lib.rs\<close>): model, tools, model again, until the run ends.
  The loop's local variables are the record \<open>conv\<close>; a step gives either the finished run, its
  events and everything done, or the loop as it goes on, so Rust's early \<open>return\<close> inside
  \<open>end_run!\<close> is \<open>Inl\<close> and \<open>rbind\<close> is what comes after it.
\<close>

definition SAME_SCREEN_LIMIT :: nat where "SAME_SCREEN_LIMIT = 4"
definition PLAN_ONLY_TEXT_LIMIT :: nat where "PLAN_ONLY_TEXT_LIMIT = 1500"
definition LIVE_TEXT_AFTER :: nat where "LIVE_TEXT_AFTER = 200"

definition inference_source_name :: string where
  "inference_source_name = ''opengrok.inferenceSource''"

record carried =
  ca_started_a_tool :: bool
  ca_played :: "string set"
  ca_budget :: run_budget
  ca_spent_rounds :: "nat \<times> nat"

definition carried_default :: carried where
  "carried_default =
     \<lparr>ca_started_a_tool = False, ca_played = {}, ca_budget = budget_default, ca_spent_rounds = (0, 0)\<rparr>"

record conv =
  cv_request :: model_request
  cv_proj :: projection
  cv_all :: "event list"
  cv_tr :: "act list"
  cv_played :: "string set"
  cv_last_refused :: "(string \<times> json) list option"
  cv_started_a_tool :: bool
  cv_plan_only_chars :: nat
  cv_spoken :: nat
  cv_computer :: nat
  cv_last_screen :: "nat option"
  cv_same_screen :: nat
  cv_last_agent_shot :: "event option"
  cv_round_spent :: round_spent
  cv_any_delta :: bool
  cv_last_failure :: "string option"
  cv_work_fail_streak :: nat
  cv_last_failed_key :: "string option"
  cv_last_ok_keys :: "string list"
  cv_had_listing :: bool
  cv_skipped_listing :: bool
  cv_on_the_catalog :: bool
  cv_skipped_replay :: bool
  cv_last_listing :: "string option"
  cv_opened :: "(string \<times> string) option"
  cv_timing :: turn_timing
  cv_window :: window
  cv_clock :: nat
  cv_round :: "event list"
  cv_said :: string
  cv_withheld :: string
  cv_text_live :: bool
  cv_round_tool :: bool
  cv_round_work_tool :: bool
  cv_model_started :: nat

type_synonym step = "(event list \<times> act list) + conv"

definition conv_start :: "world \<Rightarrow> model_request \<Rightarrow> projection \<Rightarrow> carried \<Rightarrow> act list \<Rightarrow> conv" where
  "conv_start w r p ca tr =
     (let r' = (if w_tools w then r\<lparr>mr_tools := w_schemas w\<rparr> else r)
      in \<lparr>cv_request = r', cv_proj = p, cv_all = [], cv_tr = tr, cv_played = ca_played ca,
          cv_last_refused = None, cv_started_a_tool = ca_started_a_tool ca, cv_plan_only_chars = 0,
          cv_spoken = fst (ca_spent_rounds ca), cv_computer = snd (ca_spent_rounds ca),
          cv_last_screen = None, cv_same_screen = 0, cv_last_agent_shot = None,
          cv_round_spent = spent_nothing, cv_any_delta = False, cv_last_failure = None,
          cv_work_fail_streak = 0, cv_last_failed_key = None, cv_last_ok_keys = [],
          cv_had_listing = False, cv_skipped_listing = False, cv_on_the_catalog = False,
          cv_skipped_replay = False, cv_last_listing = None, cv_opened = None,
          cv_timing = timing_budget (ca_budget ca) (timing_new (w_now w tr)),
          cv_window = window_at_entry r', cv_clock = w_now w tr,
          cv_round = [], cv_said = [], cv_withheld = [], cv_text_live = False, cv_round_tool = False,
          cv_round_work_tool = False, cv_model_started = 0\<rparr>)"

text \<open>\<open>end_run!\<close>.\<close>

definition end_run :: "world \<Rightarrow> event list \<Rightarrow> ending \<Rightarrow> conv \<Rightarrow> step" where
  "end_run w round ending c =
     (case close_run w (cv_timing c) (cv_last_agent_shot c) (cv_proj c) round (cv_round_spent c) ending (cv_tr c) of
        (es, tr) \<Rightarrow> Inl (cv_all c @ es, tr))"

text \<open>\<open>journal.stopped\<close> at a step boundary: stopped, the run ends there.\<close>

definition unless_stopped :: "world \<Rightarrow> event list \<Rightarrow> conv \<Rightarrow> step" where
  "unless_stopped w round c =
     (case ask_stopped w (cv_tr c) of
        (stop, tr) \<Rightarrow>
          let c1 = c\<lparr>cv_tr := tr\<rparr> in if stop then end_run w round StopEnding c1 else Inr c1)"

definition show_text :: "world \<Rightarrow> string \<Rightarrow> conv \<Rightarrow> conv" where
  "show_text w txt c =
     (case emit_visible_text w txt (cv_proj c, cv_round c, cv_tr c) of
        (p, round, tr) \<Rightarrow> c\<lparr>cv_proj := p, cv_round := round, cv_tr := tr\<rparr>)"

definition flush_withheld_text :: "world \<Rightarrow> string option \<Rightarrow> conv \<Rightarrow> conv" where
  "flush_withheld_text w blank c =
     (let c1 = c\<lparr>cv_withheld := []\<rparr>;
          shown = (case visible_chat (cv_withheld c) (cv_last_failure c) of Some v \<Rightarrow> Some v | None \<Rightarrow> blank)
      in case shown of None \<Rightarrow> c1 | Some txt \<Rightarrow> show_text w txt c1)"

definition blank_turn_text :: "event list \<Rightarrow> event list \<Rightarrow> string option \<Rightarrow> string \<Rightarrow> string option" where
  "blank_turn_text all round last_listing withheld =
     (if round_has_assistant_text all \<or> round_has_assistant_text round then None
      else case last_listing of
        Some l \<Rightarrow> Some l
      | None \<Rightarrow> if trim withheld = [] then None else Some (trim withheld))"

section \<open>The last call\<close>

definition last_call :: "string \<Rightarrow> model_request \<Rightarrow> model_request" where
  "last_call why r =
     r\<lparr>mr_tools := [],
       mr_messages := keep_recent_images recent_images (mr_messages r @
         [message_of ''user'' (''[harness] '' @ why @
           '', so this is the last call and no tools are offered. In two or three sentences, tell the person what was done and what is left. Do not ask for a tool.'')])\<rparr>"

text \<open>Only words and reasoning are painted. \<open>False\<close> where the stream broke.\<close>

fun wrap_deltas :: "world \<Rightarrow> run_budget \<Rightarrow> delta_stream \<Rightarrow> conv \<Rightarrow> bool \<times> conv" where
  "wrap_deltas w b [] c = (True, c)"
| "wrap_deltas w b (item # items) c =
     (case next_delta b item of
        Inl e \<Rightarrow> (False, c)
      | Inr d \<Rightarrow>
          (case d of
             DText _ \<Rightarrow>
               (case pj_push d (cv_proj c) of (es, p) \<Rightarrow>
                wrap_deltas w b items (c\<lparr>cv_proj := p, cv_round := cv_round c @ es, cv_tr := emit_live w es (cv_tr c)\<rparr>))
           | DReasoning _ \<Rightarrow>
               (case pj_push d (cv_proj c) of (es, p) \<Rightarrow>
                wrap_deltas w b items (c\<lparr>cv_proj := p, cv_round := cv_round c @ es, cv_tr := emit_live w es (cv_tr c)\<rparr>))
           | _ \<Rightarrow> wrap_deltas w b items c))"

definition wrap_up_call :: "world \<Rightarrow> run_budget \<Rightarrow> model_request \<Rightarrow> string \<Rightarrow> conv \<Rightarrow> step" where
  "wrap_up_call w b ask why c =
     (let started = w_now w (cv_tr c);
          (opened, tr) = budget_open w b ask 0 (cv_tr c);
          (streamed, c1) = (case opened of
              Inl e \<Rightarrow> (False, c\<lparr>cv_tr := tr, cv_round := []\<rparr>)
            | Inr s \<Rightarrow> wrap_deltas w b s (c\<lparr>cv_tr := tr, cv_round := []\<rparr>));
          c2 = c1\<lparr>cv_timing := timing_model (w_now w (cv_tr c1) - started) (cv_timing c1)\<rparr>
      in if streamed \<and> round_has_assistant_text (cv_round c2)
         then end_run w (cv_round c2) (FinishEnding None)
                (c2\<lparr>cv_timing := timing_wrapped_up why (cv_timing c2),
                    cv_proj := finishing_because Budget (cv_proj c2)\<rparr>)
         else end_run w (cv_round c2) (FailEnding why) c2)"

definition wrap_up :: "world \<Rightarrow> run_budget \<Rightarrow> string \<Rightarrow> conv \<Rightarrow> step" where
  "wrap_up w b why c =
     rbind (unless_stopped w [] c) (\<lambda>c1.
       case window_fit (w_serde w) (cv_window c1) (last_call why (cv_request c1)) of
         (Inl _, _, _) \<Rightarrow> end_run w [] (FailEnding why) c1
       | (Inr estimate, win, ask) \<Rightarrow>
           wrap_up_call w b ask why
             (c1\<lparr>cv_timing := timing_context (mr_context_tokens ask) estimate (wn_left_out win) (cv_timing c1)\<rparr>))"

section \<open>Opening\<close>

definition source_said :: "model_request \<Rightarrow> json" where
  "source_said r =
     (let kind = (case mr_endpoint r of Some _ \<Rightarrow> LocalProxy | None \<Rightarrow> Gateway)
      in JObject
        ([(''kind'', JString (source_kind_as_str kind))] @
         (case Option.bind (mr_endpoint r) endpoint_via of
            Some way \<Rightarrow> [(''via'', JString (via_as_str way))]
          | None \<Rightarrow> []) @
         [(''model'', JString (mr_model r))] @
         opt_member ''fallbackFor'' (map_option JString (mr_fallback_for r))))"

definition open_run :: "world \<Rightarrow> conv \<Rightarrow> step" where
  "open_run w c =
     (let (es, p) = pj_start (cv_proj c);
          r = cv_request c;
          opening = (if es = [] then es
                     else es @ pj_custom inference_source_name (source_said r) p #
                          map (\<lambda>(name, v). pj_custom name v p) (mr_customs r));
          (written, tr) = record_opening w opening (cv_tr c);
          c1 = c\<lparr>cv_proj := p, cv_tr := emit_live w opening tr, cv_all := cv_all c @ opening\<rparr>
      in case written of
           None \<Rightarrow> Inr c1
         | Some e \<Rightarrow> end_run w [] (FailEnding (''the run could not be recorded: '' @ journal_error_text e)) c1)"

section \<open>A round's stream\<close>

definition begin_round :: "world \<Rightarrow> run_budget \<Rightarrow> nat \<Rightarrow> conv \<Rightarrow> step" where
  "begin_round w b i c =
     rbind (unless_stopped w [] (c\<lparr>cv_round := [], cv_round_spent := spent_nothing\<rparr>)) (\<lambda>c1.
     if 0 < i \<and> bu_max_wall_ms b \<le> w_now w (cv_tr c1) - cv_clock c1
     then wrap_up w b (''this run reached its time limit of '' @ spoken (bu_max_wall_ms b)) c1
     else
       let r = (cv_request c1)\<lparr>mr_messages := keep_recent_images recent_images (mr_messages (cv_request c1))\<rparr>
       in case window_fit (w_serde w) (cv_window c1) r of
            (Inl why, win, r1) \<Rightarrow> end_run w [] (FailEnding why) (c1\<lparr>cv_window := win, cv_request := r1\<rparr>)
          | (Inr estimate, win, r1) \<Rightarrow>
              Inr (c1\<lparr>cv_window := win, cv_request := r1,
                cv_timing := timing_context (mr_context_tokens r1) estimate (wn_left_out win) (cv_timing c1)\<rparr>))"

definition model_took :: "world \<Rightarrow> conv \<Rightarrow> conv" where
  "model_took w c = c\<lparr>cv_timing := timing_model (w_now w (cv_tr c) - cv_model_started c) (cv_timing c)\<rparr>"

definition fail_on :: "world \<Rightarrow> model_error \<Rightarrow> conv \<Rightarrow> step" where
  "fail_on w e c =
     end_run w (cv_round c) (FailEnding (error_sentence (w_serde w) e))
       (c\<lparr>cv_proj := failing_with (error_code e) (cv_proj c)\<rparr>)"

text \<open>What a delta says about the round before anything is shown of it.\<close>

definition note_delta :: "model_delta \<Rightarrow> conv \<Rightarrow> conv" where
  "note_delta d c =
     (case d of
        DText txt \<Rightarrow> if trim txt = [] then c else c\<lparr>cv_any_delta := True\<rparr>
      | DToolCallStart i name \<Rightarrow>
          c\<lparr>cv_any_delta := True, cv_started_a_tool := True, cv_round_tool := True,
            cv_round_work_tool := cv_round_work_tool c \<or> \<not> is_client_render_tool name\<rparr>
      | _ \<Rightarrow> c\<lparr>cv_any_delta := True\<rparr>)"

definition withhold :: "world \<Rightarrow> string \<Rightarrow> conv \<Rightarrow> step" where
  "withhold w txt c =
     (let c1 = c\<lparr>cv_withheld := cv_withheld c @ txt,
            cv_plan_only_chars := cv_plan_only_chars c + (if cv_started_a_tool c then 0 else chars_count txt)\<rparr>
      in if goes_live (cv_withheld c1) LIVE_TEXT_AFTER
         then Inr (show_text w (cv_withheld c1)
                (c1\<lparr>cv_text_live := True, cv_withheld := [], cv_said := cv_said c1 @ cv_withheld c1\<rparr>))
         else if \<not> cv_started_a_tool c1 \<and> PLAN_ONLY_TEXT_LIMIT < cv_plan_only_chars c1
         then let c2 = show_text w (cv_withheld c1) (model_took w (c1\<lparr>cv_withheld := []\<rparr>))
              in end_run w (cv_round c2)
                   (FailEnding (''the coworker described '' @ nat_str (cv_plan_only_chars c1) @
                     '' characters of work without starting any of it, so the turn was stopped'')) c2
         else Inr c1)"

definition push_live :: "world \<Rightarrow> model_delta \<Rightarrow> conv \<Rightarrow> conv" where
  "push_live w d c =
     (case pj_push d (cv_proj c) of
        (es, p) \<Rightarrow>
          c\<lparr>cv_said := cv_said c @ (case d of DText txt \<Rightarrow> txt | _ \<Rightarrow> []), cv_proj := p,
            cv_tr := emit_live w es (cv_tr c), cv_round := cv_round c @ es\<rparr>)"

definition take_delta :: "world \<Rightarrow> model_delta \<Rightarrow> conv \<Rightarrow> step" where
  "take_delta w d c =
     (let c1 = note_delta d c
      in case d of
           DText txt \<Rightarrow> if cv_text_live c1 then Inr (push_live w d c1) else withhold w txt c1
         | _ \<Rightarrow> Inr (push_live w d c1))"

text \<open>A stream that breaks shows what it withheld, unless a work tool was asked for.\<close>

definition break_stream :: "world \<Rightarrow> model_error \<Rightarrow> conv \<Rightarrow> step" where
  "break_stream w e c =
     (let c1 = model_took w c;
          written = (if \<not> cv_round_tool c1 \<and> trim (cv_withheld c1) \<noteq> [] then Some (trim (cv_withheld c1)) else None);
          c2 = (if \<not> cv_round_work_tool c1 \<and> \<not> cv_text_live c1 then flush_withheld_text w written c1 else c1)
      in fail_on w e c2)"

fun read_deltas :: "world \<Rightarrow> run_budget \<Rightarrow> delta_stream \<Rightarrow> conv \<Rightarrow> step" where
  "read_deltas w b [] c = Inr c"
| "read_deltas w b (item # items) c =
     (case next_delta b item of
        Inl e \<Rightarrow> break_stream w e c
      | Inr d \<Rightarrow> rbind (take_delta w d c) (read_deltas w b items))"

text \<open>The round's own variables, before its stream is read.\<close>

definition fresh_round :: "world \<Rightarrow> conv \<Rightarrow> conv" where
  "fresh_round w c =
     c\<lparr>cv_said := [], cv_withheld := [], cv_text_live := \<not> work_tools_offered (mr_tools (cv_request c)),
       cv_round_tool := False, cv_round_work_tool := False\<rparr>"

text \<open>What is shown once the stream is over.\<close>

definition settle_text :: "world \<Rightarrow> conv \<Rightarrow> conv" where
  "settle_text w c =
     (if cv_round_work_tool c then c\<lparr>cv_withheld := []\<rparr>
      else if \<not> cv_text_live c \<and> \<not> cv_round_tool c \<and> \<not> cv_on_the_catalog c \<and> trim (cv_withheld c) \<noteq> []
      then show_text w (cv_withheld c) (c\<lparr>cv_withheld := []\<rparr>)
      else if \<not> cv_text_live c
      then flush_withheld_text w
             (if cv_round_tool c then None
              else blank_turn_text (cv_all c) (cv_round c) (cv_last_listing c) (cv_withheld c)) c
      else c)"

definition ask_model :: "world \<Rightarrow> run_budget \<Rightarrow> conv \<Rightarrow> step" where
  "ask_model w b c =
     (let c0 = c\<lparr>cv_model_started := w_now w (cv_tr c)\<rparr>;
          (opened, tr) = budget_open w b (cv_request c0) 0 (cv_tr c0);
          c1 = c0\<lparr>cv_tr := tr\<rparr>
      in case opened of
           Inl e \<Rightarrow> fail_on w e (model_took w c1)
         | Inr s \<Rightarrow> rbind (read_deltas w b s (fresh_round w c1)) (\<lambda>c2. Inr (settle_text w (model_took w c2))))"

section \<open>A round's calls\<close>

text \<open>What the loop decided about the calls of a round, and what came of them.\<close>

record batch =
  bt_calls :: "tool_call list"
  bt_replays :: "bool list"
  bt_answers :: "tool_result option list"
  bt_skip_listing :: bool
  bt_results :: "tool_result list"
  bt_durations :: "nat option list"

definition zip_calls :: "batch \<Rightarrow> (tool_call \<times> tool_result) list" where
  "zip_calls bt = zip (bt_calls bt) (bt_results bt)"

definition loop_answered :: "batch \<Rightarrow> bool list" where
  "loop_answered bt = map (\<lambda>a. bt_skip_listing bt \<or> a \<noteq> None) (bt_answers bt)"

definition is_listing_only :: "tool_call list \<Rightarrow> bool" where
  "is_listing_only calls \<longleftrightarrow>
     list_ex is_readonly_listing_shell calls \<and>
     list_all (\<lambda>c. is_client_render_tool (tc_name c) \<or> is_readonly_listing_shell c) calls"

definition same_open :: "tool_call list \<Rightarrow> (string \<times> string) option \<Rightarrow> bool" where
  "same_open calls opened \<longleftrightarrow>
     (case opened of
        None \<Rightarrow> False
      | Some (previous, _) \<Rightarrow>
          calls \<noteq> [] \<and> list_all (\<lambda>c. is_shell_call c \<and>
            shell_action_key (shell_command (tc_arguments c)) = previous) calls)"

definition replay_only :: "tool_call list \<Rightarrow> bool list \<Rightarrow> bool" where
  "replay_only calls flags \<longleftrightarrow>
     True \<in> set flags \<and>
     list_all (\<lambda>(c, flag). is_client_render_tool (tc_name c) \<or> flag) (zip calls flags)"

definition first_recipe :: "tool_call list \<Rightarrow> string" where
  "first_recipe calls = (case List.map_filter recipe_of calls of r # _ \<Rightarrow> r | [] \<Rightarrow> [])"

definition plan_batch :: "conv \<Rightarrow> tool_call list \<Rightarrow> batch" where
  "plan_batch c calls =
     (let flags = replays calls (cv_played c)
      in \<lparr>bt_calls = calls, bt_replays = flags,
          bt_answers = map (\<lambda>(call, flag). answered_here call flag (cv_played c)) (zip calls flags),
          bt_skip_listing = cv_had_listing c \<and> is_listing_only calls,
          bt_results = [], bt_durations = []\<rparr>)"

text \<open>The calls that end the run instead of running: repeated listings, openings and replays.\<close>

definition guard_calls :: "world \<Rightarrow> tool_call list \<Rightarrow> conv \<Rightarrow> step" where
  "guard_calls w calls c =
     rbind (unless_stopped w (cv_round c) c) (\<lambda>c1.
     if cv_had_listing c1 \<and> is_listing_only calls \<and> cv_skipped_listing c1
     then end_run w (cv_round c1) (FinishEnding (cv_last_listing c1)) c1
     else if same_open calls (cv_opened c1)
     then end_run w (cv_round c1) (FinishEnding (map_option snd (cv_opened c1))) c1
     else if replay_only calls (replays calls (cv_played c1)) \<and> cv_skipped_replay c1
     then end_run w (cv_round c1)
            (FinishEnding (Some (''The recipe '' @ first_recipe calls @
              '' already ran for this request, so it was not played again.''))) c1
     else Inr c1)"

definition runnable :: "batch \<Rightarrow> tool_call list" where
  "runnable bt = map fst (filter (\<lambda>(call, a). a = None) (zip (bt_calls bt) (bt_answers bt)))"

definition started_of :: "tool_call \<Rightarrow> started_tool" where
  "started_of call = \<lparr>st_call_id = tc_id call, st_tool = tc_name call\<rparr>"

definition start_calls :: "world \<Rightarrow> batch \<Rightarrow> conv \<Rightarrow> step" where
  "start_calls w bt c =
     (let starting = (if bt_skip_listing bt then [] else map started_of (runnable bt))
      in if starting = [] then Inr c
         else case tools_starting w starting (cv_tr c) of
           (None, tr) \<Rightarrow> Inr (c\<lparr>cv_tr := tr\<rparr>)
         | (Some e, tr) \<Rightarrow> end_run w (cv_round c) (start_refused e) (c\<lparr>cv_tr := tr\<rparr>))"

definition box_wake_frame :: "world \<Rightarrow> tool_call list \<Rightarrow> act list \<Rightarrow> projection \<Rightarrow> event list \<times> projection" where
  "box_wake_frame w calls tr p =
     (if list_ex (w_needs_wake w tr) calls
      then box_waking (case w_coworker w of Some i \<Rightarrow> i | None \<Rightarrow> []) p else ([], p))"

definition wake_box :: "world \<Rightarrow> tool_call list \<Rightarrow> conv \<Rightarrow> conv" where
  "wake_box w calls c =
     (case box_wake_frame w calls (cv_tr c) (cv_proj c) of
        (es, p) \<Rightarrow> c\<lparr>cv_proj := p, cv_tr := emit_live w es (cv_tr c), cv_round := cv_round c @ es\<rparr>)"

definition already_listed :: string where
  "already_listed = ''A listing already succeeded this turn. Answer from that result; do not list again.''"

text \<open>Each call with its answer: the loop's own, the next result of the run, or that it did not run.\<close>

fun take_results ::
  "(tool_call \<times> tool_result option) list \<Rightarrow> (tool_result \<times> nat) list \<Rightarrow> (tool_result \<times> nat option) list"
where
  "take_results [] rs = []"
| "take_results ((call, Some a) # rest) rs = (a, Some 0) # take_results rest rs"
| "take_results ((call, None) # rest) ((r, ms) # rs) = (r, Some ms) # take_results rest rs"
| "take_results ((call, None) # rest) [] =
     (result_refused (tc_id call) ''the tool did not run'', None) # take_results rest []"

definition run_calls :: "world \<Rightarrow> batch \<Rightarrow> conv \<Rightarrow> batch \<times> conv" where
  "run_calls w bt c =
     (let started = w_now w (cv_tr c);
          (timed, tr, review_ms) =
            (if bt_skip_listing bt
             then (map (\<lambda>call. (result_ok (tc_id call) already_listed, Some 0)) (bt_calls bt), cv_tr c, 0)
             else case run_all w (runnable bt) (cv_tr c) of
               (rs, tr) \<Rightarrow>
                 (take_results (zip (bt_calls bt) (bt_answers bt)) rs, tr,
                  if runnable bt = [] then 0 else w_review_ms w tr));
          bt1 = bt\<lparr>bt_results := map fst timed, bt_durations := map snd timed\<rparr>
      in (bt1, c\<lparr>cv_tr := tr,
            cv_skipped_listing := cv_skipped_listing c \<or> bt_skip_listing bt,
            cv_timing := timing_tools
              (map (\<lambda>(call, ms). (tc_name call, case ms of Some n \<Rightarrow> n | None \<Rightarrow> 0))
                (zip (bt_calls bt1) (bt_durations bt1)))
              (w_now w tr - started) review_ms (cv_timing c)\<rparr>))"

definition now_played :: "batch \<Rightarrow> string list" where
  "now_played bt =
     List.map_filter (\<lambda>((call, result), answered). if answered then None else played_recipe call result)
       (zip (zip_calls bt) (loop_answered bt))"

definition tool_call_ref :: "serde \<Rightarrow> tool_call \<Rightarrow> tool_call_ref" where
  "tool_call_ref sd call =
     \<lparr>rf_id = tc_id call, rf_name = tc_name call, rf_arguments = sd_to_string sd (tc_arguments call)\<rparr>"

definition tool_result_message :: "serde \<Rightarrow> tool_result \<Rightarrow> chat_message" where
  "tool_result_message sd result =
     (message_result (tr_call_id result) (annotate_empty_result sd (tr_content result)))
       \<lparr>cm_images := (case tr_image result of
          Some im \<Rightarrow> [\<lparr>ip_mime = ti_mime im, ip_base64 = ti_base64 im\<rparr>]
        | None \<Rightarrow> [])\<rparr>"

definition note_plays :: "world \<Rightarrow> batch \<Rightarrow> conv \<Rightarrow> conv" where
  "note_plays w bt c =
     (let r = cv_request c
      in c\<lparr>cv_skipped_replay := cv_skipped_replay c \<or> True \<in> set (bt_replays bt),
           cv_round_spent := (cv_round_spent c)\<lparr>sp_recipes := now_played bt\<rparr>,
           cv_played := cv_played c \<union> set (now_played bt),
           cv_request := r\<lparr>mr_messages := mr_messages r @
             [message_calls (cv_said c) (map (tool_call_ref (w_serde w)) (bt_calls bt))]\<rparr>,
           cv_said := []\<rparr>)"

definition work_failure :: "tool_result \<Rightarrow> bool" where
  "work_failure result \<longleftrightarrow> counts_as_work_failure (tr_ok result) (tr_content result)"

definition nudged :: "string \<Rightarrow> chat_message \<Rightarrow> chat_message" where
  "nudged nudge m = m\<lparr>cm_content := cm_content m @ [CHR 0x0A, CHR 0x0A] @ nudge\<rparr>"

definition opened_now :: "serde \<Rightarrow> string \<Rightarrow> (string \<times> string) option" where
  "opened_now sd txt =
     (case opened_target_sentence sd txt of
        Some s \<Rightarrow> Some (s, opened_target_nudge)
      | None \<Rightarrow> map_option (\<lambda>s. (s, opened_editor_nudge)) (opened_editor_sentence sd txt))"

text \<open>One result: its frames go out, the model's message is made, and the loop remembers what it says.\<close>

definition note_listing :: "world \<Rightarrow> bool \<Rightarrow> tool_call \<Rightarrow> tool_result \<Rightarrow> chat_message \<Rightarrow> conv \<Rightarrow> chat_message \<times> conv" where
  "note_listing w skip_listing call result m c =
     (let failed = work_failure result
      in if tr_ok result \<and> \<not> failed \<and> is_readonly_listing_shell call \<and> \<not> skip_listing
         then (nudged readonly_shell_nudge m,
               c\<lparr>cv_had_listing := True, cv_last_listing := Some (short_failure_fact (tr_content result))\<rparr>)
         else if failed \<and> \<not> tr_awaiting_approval result
         then (if \<not> repeats_last_failure (w_serde w) call (cv_last_failed_key c) \<and>
                  \<not> is_missing_catalog_binary call (tr_content result) \<and> \<not> is_broad_walk_call call
               then nudged failed_tool_nudge m else m,
               c\<lparr>cv_last_failure := Some (short_failure_fact (tr_content result))\<rparr>)
         else (m, c))"

definition note_opened :: "world \<Rightarrow> tool_call \<Rightarrow> tool_result \<Rightarrow> chat_message \<Rightarrow> conv \<Rightarrow> chat_message \<times> conv" where
  "note_opened w call result m c =
     (if \<not> is_shell_call call then (m, c)
      else case opened_now (w_serde w) (tr_content result) of
        None \<Rightarrow> (m, c)
      | Some (sentence, nudge) \<Rightarrow>
          let key = shell_action_key (shell_command (tc_arguments call))
          in if key = [] then (m, c) else (nudged nudge m, c\<lparr>cv_opened := Some (key, sentence)\<rparr>))"

definition take_result :: "world \<Rightarrow> bool \<Rightarrow> tool_call \<Rightarrow> tool_result \<Rightarrow> nat option \<Rightarrow> conv \<Rightarrow> conv" where
  "take_result w skip_listing call result ms c =
     (case push_tool_result result ms (cv_proj c) of (es, p) \<Rightarrow>
      let c1 = c\<lparr>cv_proj := p, cv_tr := emit_live w es (cv_tr c),
                cv_last_agent_shot := remember_agent_shot es (cv_last_agent_shot c),
                cv_round := cv_round c @ es\<rparr>
      in case note_listing w skip_listing call result (tool_result_message (w_serde w) result) c1 of (m1, c2) \<Rightarrow>
         case note_opened w call result m1 c2 of (m2, c3) \<Rightarrow>
           c3\<lparr>cv_request := (cv_request c3)\<lparr>mr_messages := mr_messages (cv_request c3) @ [m2]\<rparr>\<rparr>)"

fun take_all ::
  "world \<Rightarrow> bool \<Rightarrow> ((tool_result \<times> tool_call) \<times> nat option) list \<Rightarrow> conv \<Rightarrow> conv"
where
  "take_all w skip_listing [] c = c"
| "take_all w skip_listing (((result, call), ms) # rest) c =
     take_all w skip_listing rest (take_result w skip_listing call result ms c)"

section \<open>What the round came to\<close>

definition is_work :: "tool_call \<times> tool_result \<Rightarrow> bool" where
  "is_work cr \<longleftrightarrow> \<not> is_client_render_tool (tc_name (fst cr))"

definition failed_calls :: "batch \<Rightarrow> (tool_call \<times> tool_result) list" where
  "failed_calls bt =
     filter (\<lambda>cr. is_work cr \<and> \<not> tr_awaiting_approval (snd cr) \<and> work_failure (snd cr)) (zip_calls bt)"

definition work_ok :: "batch \<Rightarrow> bool" where
  "work_ok bt \<longleftrightarrow>
     list_ex (\<lambda>cr. is_work cr \<and> tr_ok (snd cr) \<and> \<not> counts_as_work_failure True (tr_content (snd cr))) (zip_calls bt)"

definition ok_keys :: "serde \<Rightarrow> batch \<Rightarrow> string list" where
  "ok_keys sd bt =
     map (\<lambda>(cr, _). failure_key sd (fst cr))
       (filter (\<lambda>(cr, answered). \<not> answered \<and> is_work cr \<and> tr_ok (snd cr) \<and> \<not> tr_awaiting_approval (snd cr) \<and>
          \<not> counts_as_work_failure True (tr_content (snd cr))) (zip (zip_calls bt) (loop_answered bt)))"

definition judge_work :: "world \<Rightarrow> batch \<Rightarrow> conv \<Rightarrow> conv" where
  "judge_work w bt c =
     (let failed = failed_calls bt;
          keys = ok_keys (w_serde w) bt;
          progressed = list_ex (\<lambda>k. k \<notin> set (cv_last_ok_keys c)) keys;
          c1 = c\<lparr>cv_last_ok_keys := keys\<rparr>
      in if failed \<noteq> [] then
           let argv_mistake = list_all (\<lambda>r. \<not> work_failure r \<or> is_invoke_argv_mistake (tr_content r)) (bt_results bt);
               repeated_or_refused = (\<not> progressed \<and>
                 list_ex (\<lambda>(call, r). \<not> tr_ok r \<and> (names_the_catalog call \<or> is_broad_walk_call call) \<or>
                   repeats_last_failure (w_serde w) call (cv_last_failed_key c)) failed);
               streak = (if list_ex (\<lambda>(call, r). is_missing_catalog_binary call (tr_content r)) failed
                         then max_failed_work_rounds
                         else if \<not> argv_mistake
                         then (if repeated_or_refused then cv_work_fail_streak c + 1 else 1)
                         else cv_work_fail_streak c)
           in c1\<lparr>cv_work_fail_streak := streak,
                 cv_last_failed_key := Some (failure_key (w_serde w) (fst (last failed)))\<rparr>
         else if work_ok bt \<and> \<not> bt_skip_listing bt then
           c1\<lparr>cv_work_fail_streak := 0, cv_last_failure := None, cv_last_failed_key := None\<rparr>
         else c1)"

definition waiting_of :: "batch \<Rightarrow> waiting list" where
  "waiting_of bt =
     map (\<lambda>(call, r). (call, case tr_awaiting_reason r of Some x \<Rightarrow> x | None \<Rightarrow> AwaitExecConsent, tr_content r))
       (filter (\<lambda>(call, r). tr_awaiting_approval r) (zip_calls bt))"

definition refused_of :: "batch \<Rightarrow> (string \<times> json) list" where
  "refused_of bt =
     map (\<lambda>(call, r). (tc_name call,
            if tc_name call = user_machine_shell then JNull else tc_arguments call))
       (filter (\<lambda>(call, r). \<not> tr_ok r) (zip_calls bt))"

fun look_at_screens :: "world \<Rightarrow> tool_result list \<Rightarrow> nat option \<times> nat \<Rightarrow> nat option \<times> nat" where
  "look_at_screens w [] seen = seen"
| "look_at_screens w (r # rs) (last_screen, same) =
     (case if tr_ok r then tr_image r else None of
        None \<Rightarrow> look_at_screens w rs (last_screen, same)
      | Some im \<Rightarrow>
          let h = w_hash w (ti_base64 im)
          in look_at_screens w rs (if last_screen = Some h then (last_screen, same + 1) else (Some h, 0)))"

text \<open>The ways a round of calls ends the run: a card, the same refusal twice, a still screen, failures, a widget.\<close>

definition end_refused :: "world \<Rightarrow> batch \<Rightarrow> conv \<Rightarrow> step" where
  "end_refused w bt c =
     (let refused = refused_of bt;
          every = (bt_results bt \<noteq> [] \<and> length refused = length (bt_results bt))
      in if every \<and> \<not> list_ex is_broad_walk_call (bt_calls bt) \<and> cv_last_refused c = Some refused
         then end_run w (cv_round c)
                (FailEnding (tick @ join (tick @ '', '' @ tick) (map fst refused) @ tick @
                  '' was refused the same way twice ('' @
                  (case bt_results bt of r # _ \<Rightarrow> tr_content r | [] \<Rightarrow> ''refused'') @
                  ''); stopping instead of retrying'')) c
         else Inr (c\<lparr>cv_last_refused := if every then Some refused else None\<rparr>))"

definition end_screens :: "world \<Rightarrow> batch \<Rightarrow> conv \<Rightarrow> step" where
  "end_screens w bt c =
     (case look_at_screens w (bt_results bt) (cv_last_screen c, cv_same_screen c) of
        (seen, same) \<Rightarrow>
          let c1 = c\<lparr>cv_last_screen := seen, cv_same_screen := same\<rparr>
          in if SAME_SCREEN_LIMIT \<le> same + 1
             then end_run w (cv_round c1)
                    (FailEnding (''the screen has not changed after '' @ nat_str SAME_SCREEN_LIMIT @
                      '' looks; stopping instead of waiting'')) c1
             else Inr c1)"

definition end_round :: "world \<Rightarrow> batch \<Rightarrow> conv \<Rightarrow> step" where
  "end_round w bt c =
     (if waiting_of bt \<noteq> [] then end_run w (cv_round c) (ParkEnding (waiting_of bt)) c
      else rbind (end_refused w bt c) (\<lambda>c1.
           rbind (end_screens w bt c1) (\<lambda>c2.
           if max_failed_work_rounds \<le> cv_work_fail_streak c2
           then end_run w (cv_round c2) (FinishEnding (cv_last_failure c2)) c2
           else if list_ex (\<lambda>call. is_client_render_tool (tc_name call)) (bt_calls bt)
           then end_run w (cv_round c2) (FinishEnding None) c2
           else Inr c2)))"

section \<open>Spending the round\<close>

definition on_screen :: "batch \<Rightarrow> bool" where
  "on_screen bt \<longleftrightarrow> list_all (\<lambda>(call, r). tc_name call = ''computer'' \<and> tr_ok r) (zip_calls bt)"

definition count_spent :: "batch \<Rightarrow> conv \<Rightarrow> conv" where
  "count_spent bt c =
     (if on_screen bt
      then c\<lparr>cv_computer := cv_computer c + 1,
             cv_round_spent := (cv_round_spent c)\<lparr>sp_round := Some OnScreen\<rparr>\<rparr>
      else c\<lparr>cv_spoken := cv_spoken c + 1,
             cv_round_spent := (cv_round_spent c)\<lparr>sp_round := Some Spoken\<rparr>\<rparr>)"

definition over_budget :: "run_budget \<Rightarrow> conv \<Rightarrow> string option" where
  "over_budget b c =
     (if bu_max_rounds b \<le> cv_spoken c
      then Some (''this run reached its limit of '' @ nat_str (bu_max_rounds b) @ '' model calls'')
      else if bu_max_computer_rounds b \<le> cv_computer c
      then Some (''this run reached its limit of '' @ nat_str (bu_max_computer_rounds b) @
        '' looks and actions on its computer'')
      else None)"

text \<open>
  The round is written before anything else is asked of a model. A write that failed is not tried
  again with the round: only the ending is written then.
\<close>

definition write_round :: "world \<Rightarrow> conv \<Rightarrow> step" where
  "write_round w c =
     (case record_round w (cv_round c) (cv_round_spent c) (cv_tr c) of
        (written, tr) \<Rightarrow>
          let c1 = c\<lparr>cv_tr := tr, cv_round_spent := spent_nothing, cv_all := cv_all c @ cv_round c, cv_round := []\<rparr>
          in case written of
               None \<Rightarrow> Inr c1
             | Some e \<Rightarrow> end_run w [] (FailEnding (''the run could not be recorded: '' @ journal_error_text e)) c1)"

definition spend_round :: "world \<Rightarrow> run_budget \<Rightarrow> batch \<Rightarrow> conv \<Rightarrow> step" where
  "spend_round w b bt c =
     (let c1 = count_spent bt c
      in case over_budget b c1 of
           None \<Rightarrow> write_round w c1
         | Some why \<Rightarrow>
             (case cv_opened c1 of
                Some (_, sentence) \<Rightarrow>
                  end_run w (cv_round c1) (FinishEnding (Some sentence))
                    (c1\<lparr>cv_proj := finishing_because Budget (cv_proj c1)\<rparr>)
              | None \<Rightarrow> rbind (write_round w c1) (wrap_up w b why)))"

definition take_batch :: "world \<Rightarrow> batch \<Rightarrow> conv \<Rightarrow> conv" where
  "take_batch w bt c =
     judge_work w bt
       (take_all w (bt_skip_listing bt) (zip (zip (bt_results bt) (bt_calls bt)) (bt_durations bt))
         (note_plays w bt c))"

definition tool_round :: "world \<Rightarrow> run_budget \<Rightarrow> tool_call list \<Rightarrow> conv \<Rightarrow> step" where
  "tool_round w b calls c =
     rbind (guard_calls w calls c) (\<lambda>c1.
     let bt = plan_batch c1 calls
     in rbind (start_calls w bt c1) (\<lambda>c2.
        case run_calls w bt (wake_box w calls c2) of
          (bt1, c3) \<Rightarrow> rbind (end_round w bt1 (take_batch w bt1 c3)) (spend_round w b bt1)))"

section \<open>Rounds\<close>

definition last_round :: "world \<Rightarrow> conv \<Rightarrow> step" where
  "last_round w c =
     (if cv_any_delta c then end_run w (cv_round c) (FinishEnding None) c
      else case ask_stopped w (cv_tr c) of
        (stop, tr) \<Rightarrow>
          end_run w (cv_round c)
            (if stop then StopEnding else FailEnding ''the model returned no text'') (c\<lparr>cv_tr := tr\<rparr>))"

definition run_round :: "world \<Rightarrow> run_budget \<Rightarrow> nat \<Rightarrow> conv \<Rightarrow> step" where
  "run_round w b i c =
     rbind (begin_round w b i c) (\<lambda>c1.
     rbind (ask_model w b c1) (\<lambda>c2.
       let calls = one_widget (collect_tool_calls (w_serde w) (cv_round c2));
           c3 = c2\<lparr>cv_on_the_catalog := cv_on_the_catalog c2 \<or> list_ex names_the_catalog calls\<rparr>
       in if w_tools w \<and> calls \<noteq> [] then tool_round w b calls c3 else last_round w c3))"

text \<open>\<open>for round in 0..(max_rounds + max_computer_rounds)\<close>.\<close>

fun rounds_from :: "world \<Rightarrow> run_budget \<Rightarrow> nat \<Rightarrow> nat \<Rightarrow> conv \<Rightarrow> step" where
  "rounds_from w b i 0 c = Inr c"
| "rounds_from w b i (Suc n) c = rbind (run_round w b i c) (rounds_from w b (Suc i) n)"

definition loop_bound :: "run_budget \<Rightarrow> nat" where
  "loop_bound b = bu_max_rounds b + bu_max_computer_rounds b"

definition bound_ending :: "run_budget \<Rightarrow> ending" where
  "bound_ending b =
     FailEnding (''this run reached its loop bound of '' @ nat_str (loop_bound b) @ '' rounds'')"

definition finished_step :: "step \<Rightarrow> event list \<times> act list" where
  "finished_step s = (case s of Inl r \<Rightarrow> r | Inr c \<Rightarrow> (cv_all c, cv_tr c))"

definition converse_raw ::
  "world \<Rightarrow> model_request \<Rightarrow> projection \<Rightarrow> carried \<Rightarrow> act list \<Rightarrow> event list \<times> act list"
where
  "converse_raw w r p ca tr =
     finished_step
       (rbind (open_run w (conv_start w r p ca tr)) (\<lambda>c.
        rbind (rounds_from w (ca_budget ca) 0 (loop_bound (ca_budget ca)) c) (\<lambda>c1.
          end_run w [] (bound_ending (ca_budget ca)) c1)))"

definition converse ::
  "world \<Rightarrow> model_request \<Rightarrow> projection \<Rightarrow> carried \<Rightarrow> act list \<Rightarrow> event list \<times> act list"
where
  "converse w r p ca tr =
     (case converse_raw w r p ca tr of (es, tr') \<Rightarrow> (scrub_streamed_tool_args (w_serde w) es, tr'))"

section \<open>The doors into the loop\<close>

record run_context =
  rx_thread_id :: string
  rx_run_id :: string
  rx_at_ms :: int

definition run_conversation_within ::
  "world \<Rightarrow> model_request \<Rightarrow> run_context \<Rightarrow> run_budget \<Rightarrow> act list \<Rightarrow> event list \<times> act list"
where
  "run_conversation_within w r x b tr =
     converse w r (projection_new (rx_thread_id x) (rx_run_id x) (rx_at_ms x)) (carried_default\<lparr>ca_budget := b\<rparr>) tr"

definition run_conversation ::
  "world \<Rightarrow> model_request \<Rightarrow> string \<Rightarrow> string \<Rightarrow> int \<Rightarrow> act list \<Rightarrow> event list \<times> act list"
where
  "run_conversation w r thread run at tr = converse w r (projection_new thread run at) carried_default tr"

record spent_before =
  sb_recipes :: "string set"
  sb_spoken_rounds :: nat
  sb_computer_rounds :: nat
  sb_started_a_tool :: bool

definition spent_recipes_of :: "run \<Rightarrow> spent_before" where
  "spent_recipes_of s =
     \<lparr>sb_recipes = run_played_recipes s, sb_spoken_rounds = 0, sb_computer_rounds = 0, sb_started_a_tool = False\<rparr>"

definition spent_of :: "run \<Rightarrow> spent_before" where
  "spent_of s =
     \<lparr>sb_recipes = run_played_recipes s, sb_spoken_rounds = fst (run_rounds_spent s),
      sb_computer_rounds = snd (run_rounds_spent s),
      sb_started_a_tool = list_ex (\<lambda>frame. str_at frame ''type'' = Some ''TOOL_CALL_START'') (run_emitted s)\<rparr>"

definition carried_from :: "run_budget \<Rightarrow> spent_before \<Rightarrow> carried" where
  "carried_from b sp =
     \<lparr>ca_started_a_tool = sb_started_a_tool sp, ca_played = sb_recipes sp, ca_budget = b,
      ca_spent_rounds = (sb_spoken_rounds sp, sb_computer_rounds sp)\<rparr>"

definition continue_interrupted ::
  "world \<Rightarrow> model_request \<Rightarrow> run_context \<Rightarrow> 32 word \<Rightarrow> spent_before \<Rightarrow> run_budget \<Rightarrow> act list \<Rightarrow>
   event list \<times> act list"
where
  "continue_interrupted w r x seq sp b tr =
     converse (w\<lparr>w_sink := False\<rparr>) r (projection_resumed (rx_thread_id x) (rx_run_id x) (rx_at_ms x) seq)
       (carried_from b sp) tr"

datatype resume_outcome = ApprovedOutcome | RefusedOutcome string | SettledOutcome string

record resumption =
  re_approved :: tool_call
  re_message_seq :: "32 word"
  re_outcome :: resume_outcome
  re_spent :: spent_before
  re_budget :: run_budget

definition spent_default :: spent_before where
  "spent_default =
     \<lparr>sb_recipes = {}, sb_spoken_rounds = 0, sb_computer_rounds = 0, sb_started_a_tool = False\<rparr>"

definition resumption_answered :: "tool_call \<Rightarrow> 32 word \<Rightarrow> resume_outcome \<Rightarrow> resumption" where
  "resumption_answered call seq answer =
     \<lparr>re_approved = call, re_message_seq = seq, re_outcome = answer, re_spent = spent_default,
      re_budget = budget_default\<rparr>"

definition having_spent :: "spent_before \<Rightarrow> resumption \<Rightarrow> resumption" where
  "having_spent sp re = re\<lparr>re_spent := sp\<rparr>"

text \<open>The approved call, run with its start on record; a no or a settled card is a result nothing ran for.\<close>

definition resume_call ::
  "world \<Rightarrow> turn_timing \<Rightarrow> tool_call \<Rightarrow> projection \<Rightarrow> act list \<Rightarrow>
   (event list \<times> act list) + (event list \<times> (tool_result \<times> nat option) list \<times> projection \<times> act list)"
where
  "resume_call w t call p tr =
     (case tools_starting w [started_of call] tr of
        (Some e, tr1) \<Rightarrow> Inl (close_run w t None p [] spent_nothing (start_refused e) tr1)
      | (None, tr1) \<Rightarrow>
          (case box_wake_frame w [call] tr1 p of (waking, p1) \<Rightarrow>
           case run_all w [call] tr1 of (rs, tr2) \<Rightarrow>
             Inr (waking, map (\<lambda>(r, ms). (r, Some ms)) rs, p1, tr2)))"

definition resume_results ::
  "world \<Rightarrow> turn_timing \<Rightarrow> resumption \<Rightarrow> projection \<Rightarrow> act list \<Rightarrow>
   (event list \<times> act list) + (event list \<times> (tool_result \<times> nat option) list \<times> projection \<times> act list)"
where
  "resume_results w t re p tr =
     (case re_outcome re of
        ApprovedOutcome \<Rightarrow> resume_call w t (re_approved re) p tr
      | RefusedOutcome why \<Rightarrow> Inr ([], [(result_refused (tc_id (re_approved re)) why, Some 0)], p, tr)
      | SettledOutcome txt \<Rightarrow> Inr ([], [(result_ok (tc_id (re_approved re)) txt, None)], p, tr))"

fun push_results :: "(tool_result \<times> nat option) list \<Rightarrow> projection \<Rightarrow> event list \<times> projection" where
  "push_results [] p = ([], p)"
| "push_results ((r, ms) # rest) p =
     (case push_tool_result r ms p of (es, p1) \<Rightarrow> case push_results rest p1 of (es', p2) \<Rightarrow> (es @ es', p2))"

definition approved_plays :: "resumption \<Rightarrow> tool_result list \<Rightarrow> string list" where
  "approved_plays re results =
     (if re_outcome re = ApprovedOutcome
      then List.map_filter (\<lambda>r. if tr_call_id r = tc_id (re_approved re) then played_recipe (re_approved re) r else None) results
      else [])"

definition resume_converse ::
  "world \<Rightarrow> turn_timing \<Rightarrow> model_request \<Rightarrow> resumption \<Rightarrow> event list \<Rightarrow> tool_result list \<Rightarrow> projection \<Rightarrow> act list \<Rightarrow>
   event list \<times> act list"
where
  "resume_converse w t r re all results p tr =
     (let plays = approved_plays re results;
          sp = \<lparr>sp_recipes = plays, sp_round = None\<rparr>
      in case find tr_awaiting_approval results of
           Some still \<Rightarrow>
             close_run w t None p all sp
               (ParkEnding [(re_approved re,
                 case tr_awaiting_reason still of Some x \<Rightarrow> x | None \<Rightarrow> AwaitExecConsent, tr_content still)]) tr
         | None \<Rightarrow>
             (case record_round w all sp tr of
                (Some e, tr1) \<Rightarrow>
                  (case close_run w t None p [] spent_nothing
                     (FailEnding (''the run could not be recorded: '' @ journal_error_text e)) tr1 of
                     (es, tr2) \<Rightarrow> (all @ es, tr2))
              | (None, tr1) \<Rightarrow>
                  (case converse (w\<lparr>w_tools := True, w_sink := False\<rparr>)
                     (r\<lparr>mr_messages := mr_messages r @ map (tool_result_message (w_serde w)) results\<rparr>) p
                     \<lparr>ca_started_a_tool = True, ca_played = sb_recipes (re_spent re) \<union> set plays,
                      ca_budget = re_budget re,
                      ca_spent_rounds = (sb_spoken_rounds (re_spent re), sb_computer_rounds (re_spent re))\<rparr> tr1 of
                     (rest, tr2) \<Rightarrow> (all @ rest, tr2))))"

text \<open>A Stop pressed while the card was up wins over its answer.\<close>

definition resume_conversation ::
  "world \<Rightarrow> model_request \<Rightarrow> run_context \<Rightarrow> resumption \<Rightarrow> act list \<Rightarrow> event list \<times> act list"
where
  "resume_conversation w0 r x re tr0 =
     (let w = w0\<lparr>w_sink := False\<rparr>;
          p = projection_resumed (rx_thread_id x) (rx_run_id x) (rx_at_ms x) (re_message_seq re);
          t = timing_new (w_now w tr0)
      in case ask_stopped w tr0 of
           (stop, tr1) \<Rightarrow>
             if stop then close_run w t None p [] spent_nothing StopEnding tr1
             else case resume_results w t re p tr1 of
               Inl closed \<Rightarrow> closed
             | Inr (waking, timed, p1, tr2) \<Rightarrow>
                 (case push_results timed p1 of
                    (es, p2) \<Rightarrow> resume_converse w t r re (waking @ es) (map fst timed) p2 tr2))"

end
