(* ===== verification/Agent_Loop_Laws.thy ===== *)
theory Agent_Loop_Laws
  imports Agent_Loop
begin

text \<open>
  What the agent loop promises in every world. The laws are stated over everything a run did, newest
  first: \<open>lawful\<close> says what had to come before each act. They are proved with one invariant of the
  loop's variables, \<open>conv_ok\<close>, and triples over its steps: \<open>step_ok R Q s\<close> says that a step that goes
  on gives a loop in \<open>R\<close> and one that ended gives a run in \<open>Q\<close>.
\<close>

section \<open>The laws of a trace\<close>

definition shows_result :: "event \<Rightarrow> tool_result \<Rightarrow> bool" where
  "shows_result e r \<longleftrightarrow>
     ev_type e = EvToolCallResult \<and> extra_str e ''toolCallId'' = Some (tr_call_id r) \<and>
     extra_str e ''content'' = Some (tr_content r)"

text \<open>The results no good write has taken yet, and the events the log took and the watcher was told.\<close>

fun owing :: "act list \<Rightarrow> tool_result set" where
  "owing [] = {}"
| "owing (Ran call r # tr) = insert r (owing tr)"
| "owing (Wrote es sp None # tr) = {r \<in> owing tr. \<forall>e \<in> set es. \<not> shows_result e r}"
| "owing (_ # tr) = owing tr"

fun recorded :: "act list \<Rightarrow> event set" where
  "recorded [] = {}"
| "recorded (Wrote es sp None # tr) = set es \<union> recorded tr"
| "recorded (_ # tr) = recorded tr"

fun told :: "act list \<Rightarrow> event set" where
  "told [] = {}"
| "told (Told es # tr) = set es \<union> told tr"
| "told (_ # tr) = told tr"

text \<open>The starts on record since a model was last asked, the recipes that played, and the count of asks.\<close>

fun on_record :: "act list \<Rightarrow> started_tool set" where
  "on_record [] = {}"
| "on_record (Starting ts None # tr) = set ts \<union> on_record tr"
| "on_record (Asked r # tr) = {}"
| "on_record (_ # tr) = on_record tr"

fun plays :: "act list \<Rightarrow> string set" where
  "plays [] = {}"
| "plays (Ran call r # tr) = set_option (played_recipe call r) \<union> plays tr"
| "plays (_ # tr) = plays tr"

definition was_stopped :: "act list \<Rightarrow> bool" where
  "was_stopped tr \<longleftrightarrow> StopAsked True \<in> set tr"

fun asks :: "act list \<Rightarrow> nat" where
  "asks [] = 0"
| "asks (Asked r # tr) = Suc (asks tr)"
| "asks (_ # tr) = asks tr"

text \<open>
  An ending may be told only right after the write that carried it: as written where the log took
  it, and where the log refused it only as a failure.
\<close>

definition may_tell :: "event list \<Rightarrow> act list \<Rightarrow> bool" where
  "may_tell es tr \<longleftrightarrow>
     endings es = 0 \<or>
     (case tr of
        Wrote es' sp None # _ \<Rightarrow> set es \<subseteq> set es'
      | Wrote es' sp (Some e) # _ \<Rightarrow> (\<forall>e \<in> set es. ev_type e \<noteq> EvRunFinished)
      | _ \<Rightarrow> False)"

fun allowed :: "string set \<Rightarrow> act \<Rightarrow> act list \<Rightarrow> bool" where
  "allowed P (Asked r) tr \<longleftrightarrow> owing tr = {} \<and> told tr \<subseteq> recorded tr \<and> \<not> was_stopped tr"
| "allowed P (Ran call r) tr \<longleftrightarrow>
     started_of call \<in> on_record tr \<and> \<not> was_stopped tr \<and> set_option (recipe_of call) \<inter> (P \<union> plays tr) = {}"
| "allowed P (Told es) tr \<longleftrightarrow> may_tell es tr"
| "allowed P _ tr \<longleftrightarrow> True"

fun lawful :: "string set \<Rightarrow> act list \<Rightarrow> bool" where
  "lawful P [] = True"
| "lawful P (a # tr) = (allowed P a tr \<and> lawful P tr)"

lemma was_stopped_simps [simp]:
  "\<not> was_stopped []" "was_stopped (a # tr) \<longleftrightarrow> a = StopAsked True \<or> was_stopped tr"
  by (auto simp: was_stopped_def)

lemma endings_zero_iff: "endings es = 0 \<longleftrightarrow> (\<forall>e \<in> set es. \<not> ends_run e)"
  by (auto simp: endings_def filter_empty_conv)

subsection \<open>A step of telling\<close>

lemma emit_live_facts [simp]:
  "owing (emit_live w es tr) = owing tr" "recorded (emit_live w es tr) = recorded tr"
  "on_record (emit_live w es tr) = on_record tr" "plays (emit_live w es tr) = plays tr"
  "was_stopped (emit_live w es tr) = was_stopped tr" "asks (emit_live w es tr) = asks tr"
  "told (emit_live w es tr) \<subseteq> set es \<union> told tr"
  by (simp_all add: emit_live_def)

lemma lawful_emit_live: "lawful P tr \<Longrightarrow> may_tell es tr \<Longrightarrow> lawful P (emit_live w es tr)"
  by (simp add: emit_live_def)

lemma may_tell_open [simp]: "endings es = 0 \<Longrightarrow> may_tell es tr"
  by (simp add: may_tell_def)

section \<open>How a run closes\<close>

text \<open>A list of events that ends a run: one ending, and it comes last.\<close>

definition ends_once :: "event list \<Rightarrow> bool" where
  "ends_once es \<longleftrightarrow> endings es = 1 \<and> es \<noteq> [] \<and> ends_run (last es)"

lemma ends_once_append [simp]: "endings es = 0 \<Longrightarrow> ends_once es' \<Longrightarrow> ends_once (es @ es')"
  by (auto simp: ends_once_def)

lemma ends_once_snoc: "endings es = 0 \<Longrightarrow> ends_run e \<Longrightarrow> ends_once (es @ [e])"
  by (simp add: ends_once_def)

lemma rposition_snoc [simp]: "P x \<Longrightarrow> rposition P (xs @ [x]) = Some (length xs)"
  by (induction xs) simp_all

lemma timed_closing_once: "ends_once es \<Longrightarrow> ends_once (timed_closing w t p tr es)"
proof -
  assume es: "ends_once es"
  then obtain xs e where e: "es = xs @ [e]" by (metis ends_once_def append_butlast_last_id)
  moreover from es e have "ends_run e" "endings xs = 0" by (auto simp: ends_once_def)
  ultimately show ?thesis
    by (simp add: timed_closing_def splice_before_run_end_def timing_event_def ends_once_def)
qed

lemma begin_frameD:
  "begin_frame p = (es, p1) \<Longrightarrow> endings es = 0 \<and> p1 = p\<lparr>pj_started := True, pj_open := OpenNothing\<rparr>"
  by (metis begin_frame_counts(1) begin_frame_snd fst_conv snd_conv)

lemma ends_run_named [simp]: "ends_run (named_run p e) = ends_run e"
  by (simp add: named_run_def)

lemma ends_run_opt [simp]: "ends_run (with_opt k v e) = ends_run e"
  by (simp add: with_opt_def split: option.split)

lemma pj_end_once:
  assumes "\<not> pj_finished p"
  shows "ends_once (fst (pj_finish p))" "ends_once (fst (pj_stopped p))" "ends_once (fst (pj_fail msg p))"
  using assms
  by (auto simp: pj_finish_def pj_stopped_def pj_fail_def ends_once_def pj_event_def split: prod.split
      dest!: begin_frameD)

lemma awaiting_open:
  assumes "\<not> pj_finished p" "awaiting_approval sd call reason why p = (es, p1)"
  shows "endings es = 0" "\<not> pj_finished p1"
  using assms by (auto simp: awaiting_approval_def Let_def pj_event_def split: prod.splits dest!: begin_frameD)

lemma park_cards_open:
  "\<not> pj_finished p \<Longrightarrow> park_cards sd ws p = (es, p1) \<Longrightarrow> endings es = 0 \<and> \<not> pj_finished p1"
proof (induction sd ws p arbitrary: es p1 rule: park_cards.induct)
  case (2 sd call reason why ws p)
  obtain es1 q1 where a: "awaiting_approval sd call reason (awaiting_why why) p = (es1, q1)" by fastforce
  obtain es2 q2 where b: "park_cards sd ws q1 = (es2, q2)" by fastforce
  from awaiting_open [OF "2.prems"(1) a] "2.IH" [OF a [symmetric] _ b] "2.prems"(2) a b
  show ?case by auto
qed simp

lemma park_awaiting_once: "\<not> pj_finished p \<Longrightarrow> ends_once (fst (park_awaiting sd ws p))"
proof -
  assume p: "\<not> pj_finished p"
  obtain es p1 where c: "park_cards sd ws p = (es, p1)" by fastforce
  with park_cards_open [OF p c] pj_end_once(1) [of p1] show ?thesis
    by (auto simp: park_awaiting_def split: prod.split)
qed

lemma closing_frames_facts:
  assumes "\<not> pj_finished p" "closing_frames w ending p tr = ((es, p1), tr1)"
  shows "ends_once es" "tr1 = tr \<or> (\<exists>b. tr1 = StopAsked b # tr)"
proof -
  from assms(1) pj_end_once [OF assms(1)] park_awaiting_once [OF assms(1)]
  have "ends_once (fst (fst (closing_frames w ending p tr)))"
    by (cases ending) (simp_all add: closing_frames_def ask_stopped_def)
  with assms(2) show "ends_once es" by simp
  from assms(2) show "tr1 = tr \<or> (\<exists>b. tr1 = StopAsked b # tr)"
    by (cases ending) (auto simp: closing_frames_def ask_stopped_def)
qed

subsection \<open>What is kept before the closing frames\<close>

definition open_shot :: "event option \<Rightarrow> bool" where
  "open_shot shot \<longleftrightarrow> (case shot of Some e \<Rightarrow> \<not> ends_run e | None \<Rightarrow> True)"

lemma open_shot_None [simp]: "open_shot None"
  by (simp add: open_shot_def)

lemma set_image_ends [simp]: "ends_run (set_image_visibility v e) = ends_run e"
  by (auto simp: set_image_visibility_def ends_run_def split: option.split json.split)

lemma agent_shot_open: "is_agent_shot e \<Longrightarrow> \<not> ends_run e"
  by (simp add: is_agent_shot_def ends_run_def)

lemma remember_open: "open_shot slot \<Longrightarrow> open_shot (remember_agent_shot es slot)"
  by (auto simp: remember_agent_shot_def open_shot_def find_Some_iff split: option.splits dest: agent_shot_open)

lemma endings_update: "i < length es \<Longrightarrow> ends_run x = ends_run (es ! i) \<Longrightarrow> endings (es[i := x]) = endings es"
  by (induction es arbitrary: i) (auto simp: nth_Cons split: nat.splits)

lemma promote_endings: "promote_agent_in v es = Some es' \<Longrightarrow> endings es' = endings es"
  by (auto simp: promote_agent_in_def endings_update rposition_less split: option.splits)

text \<open>What closing needs of the loop, in the order closing takes it.\<close>

definition closable :: "string set \<Rightarrow> nat \<Rightarrow> event option \<Rightarrow> projection \<Rightarrow> event list \<Rightarrow> act list \<Rightarrow> bool" where
  "closable P K shot p round tr \<longleftrightarrow>
     lawful P tr \<and> asks tr \<le> K \<and> \<not> pj_finished p \<and> endings round = 0 \<and> open_shot shot"

lemma closable_emit:
  "closable P K shot p round tr \<Longrightarrow> endings es = 0 \<Longrightarrow> \<not> pj_finished p' \<Longrightarrow>
   closable P K shot p' (round @ es) (emit_live w es tr)"
  by (simp add: closable_def lawful_emit_live)

lemma closable_pin:
  assumes "closable P K shot p round tr" "pin_last_agent_shot w v shot round tr = (shot', round', tr')"
  shows "closable P K shot' p round' tr'"
  using assms
  by (auto simp: pin_last_agent_shot_def closable_def open_shot_def promote_endings lawful_emit_live
      split: option.splits)

lemma pj_push_open:
  assumes "pj_push d p = (es, p1)"
  shows "endings es = 0" "pj_finished p1 = pj_finished p"
proof -
  obtain es0 p0 where s: "pj_start p = (es0, p0)" by fastforce
  with pj_start_counts(1) [of p] pj_start_snd [of p]
  have "endings es0 = 0" "pj_finished p0 = pj_finished p" by auto
  with assms s push_delta_counts(1,4) [of d p0]
  show "endings es = 0" "pj_finished p1 = pj_finished p" by (auto simp: pj_push_def split: prod.splits)
qed

lemma pj_push_openD: "pj_push d p = (es, p1) \<Longrightarrow> endings es = 0 \<and> pj_finished p1 = pj_finished p"
  using pj_push_open by blast

lemma closable_visible:
  assumes "closable P K shot p round tr" "emit_visible_text w txt (p, round, tr) = (p', round', tr')"
  shows "closable P K shot p' round' tr'"
  using assms
  by (auto simp: emit_visible_text_def split: if_splits prod.splits dest!: pj_push_openD
      simp: closable_def lawful_emit_live)

lemma closable_prepare:
  assumes "closable P K shot p round tr" "close_prepare w ending shot (p, round, tr) = (shot', p', round', tr')"
  shows "closable P K shot' p' round' tr'"
proof -
  let ?st = "case ending of
      FinishEnding (Some sentence) \<Rightarrow> if round_has_assistant_text round then (p, round, tr)
        else emit_visible_text w sentence (p, round, tr)
    | _ \<Rightarrow> (p, round, tr)"
  obtain p1 r1 t1 where st: "?st = (p1, r1, t1)" by (metis prod_cases3)
  have "closable P K shot p1 r1 t1"
    using assms(1) st closable_visible [OF assms(1)]
    by (auto split: ending.splits option.splits if_splits)
  with st assms(2) closable_pin show ?thesis
    by (cases "pinned_as ending") (auto simp: close_prepare_def split: prod.splits ending.splits option.splits)
qed

subsection \<open>The one place a run ends\<close>

text \<open>
  A run that ended: a lawful trace, one ending and it comes last, told to a watcher, and in the log
  where it says the run finished.
\<close>

definition closed :: "world \<Rightarrow> string set \<Rightarrow> nat \<Rightarrow> event list \<times> act list \<Rightarrow> bool" where
  "closed w P K r \<longleftrightarrow>
     lawful P (snd r) \<and> asks (snd r) \<le> K \<and> ends_once (fst r) \<and>
     (w_sink w \<longrightarrow> last (fst r) \<in> told (snd r)) \<and>
     (ev_type (last (fst r)) = EvRunFinished \<longrightarrow> last (fst r) \<in> recorded (snd r))"

lemma told_emit: "w_sink w \<Longrightarrow> told (emit_live w es tr) = set es \<union> told tr"
  by (simp add: emit_live_def)

lemma unrecorded_once: "ends_once (unrecorded refused msg p)"
  "\<forall>e \<in> set (unrecorded refused msg p). ev_type e \<noteq> EvRunFinished"
  by (auto simp: ends_once_def unrecorded_def pj_event_def kept_when_unrecorded_def endings_zero_iff ends_run_def
      named_run_def)

lemma tell_ending_closed:
  assumes "lawful P tr" "asks tr \<le> K" "endings round = 0" "ends_once closing"
  shows "closed w P K (tell_ending w p round closing written (Wrote (round @ closing) sp written # tr))"
proof (cases written)
  case None
  with assms show ?thesis
    by (auto simp: tell_ending_def Let_def closed_def may_tell_def told_emit ends_once_def intro!: lawful_emit_live)
next
  case (Some e)
  let ?said = "unrecorded closing (journal_error_text e) p"
  have "may_tell ?said (Wrote (round @ closing) sp (Some e) # tr)"
    using unrecorded_once(2) by (simp add: may_tell_def)
  moreover have "last ?said \<in> set ?said" "ev_type (last ?said) \<noteq> EvRunFinished"
    using unrecorded_once(2) [of closing "journal_error_text e" p] by (auto simp: unrecorded_def)
  ultimately show ?thesis
    using Some assms unrecorded_once(1) [of closing "journal_error_text e" p]
    by (auto simp: tell_ending_def Let_def closed_def told_emit ends_once_def intro!: lawful_emit_live)
qed

lemma record_roundD: "record_round w es sp tr = (written, tr') \<Longrightarrow> tr' = Wrote es sp written # tr"
  by (auto simp: record_round_def Let_def)

lemma close_run_closed:
  assumes ok: "closable P K shot p round tr"
  shows "closed w P K (close_run w t shot p round sp ending tr)"
proof -
  obtain shot1 p1 r1 t1 where prep: "close_prepare w ending shot (p, round, tr) = (shot1, p1, r1, t1)"
    by (metis prod_cases4)
  obtain es p2 t2 where fr: "closing_frames w ending p1 t1 = ((es, p2), t2)" by (metis surj_pair)
  let ?closing = "timed_closing w t p2 t2 es"
  obtain written t3 where rec: "record_round w (r1 @ ?closing) sp t2 = (written, t3)" by fastforce
  have c1: "closable P K shot1 p1 r1 t1" by (rule closable_prepare [OF ok prep])
  then have nf: "\<not> pj_finished p1" by (simp add: closable_def)
  have t2: "lawful P t2" "asks t2 \<le> K" "endings r1 = 0" "ends_once ?closing"
    using c1 closing_frames_facts [OF nf fr] timed_closing_once by (auto simp: closable_def)
  have t3: "t3 = Wrote (r1 @ ?closing) sp written # t2"
    using rec by (rule record_roundD)
  show ?thesis
  proof (cases "is_park ending \<and> ended_under written")
    case False
    with prep fr rec t3 tell_ending_closed [OF t2, of w p2 written sp] show ?thesis
      by (auto simp: close_run_def Let_def)
  next
    case True
    obtain shot2 r2 t4 where pin: "pin_last_agent_shot w EndImage shot1 r1 t3 = (shot2, r2, t4)"
      by (metis prod_cases3)
    obtain es' p3 where st: "pj_stopped p1 = (es', p3)" by fastforce
    have "closable P K shot1 p1 r1 t3" using c1 t2 t3 by (simp add: closable_def)
    from closable_pin [OF this pin] have c2: "lawful P t4" "asks t4 \<le> K" "endings r2 = 0"
      by (simp_all add: closable_def)
    have "ends_once (timed_closing w t p3 t4 es')"
      using pj_end_once(2) [OF nf] st timed_closing_once by simp
    moreover obtain written' t5 where rec': "record_round w (r2 @ timed_closing w t p3 t4 es') sp t4 = (written', t5)"
      by fastforce
    ultimately show ?thesis
      using tell_ending_closed [OF c2, of "timed_closing w t p3 t4 es'" w p3 written' sp] True prep fr rec pin st
      by (simp add: close_run_def Let_def record_roundD [OF rec'])
  qed
qed

section \<open>The loop's invariant\<close>

text \<open>\<open>rest\<close> holds the results that came back and are not drawn yet.\<close>

definition loop_ok ::
  "string set \<Rightarrow> nat \<Rightarrow> tool_result set \<Rightarrow> act list \<Rightarrow> projection \<Rightarrow> event list \<Rightarrow> event list \<Rightarrow> string set \<Rightarrow> event option \<Rightarrow> bool"
where
  "loop_ok P k rest tr p all round played shot \<longleftrightarrow>
     closable P k shot p round tr \<and> \<not> was_stopped tr \<and> endings all = 0 \<and>
     told tr \<subseteq> recorded tr \<union> set round \<and> 
     (\<forall>r \<in> owing tr. r \<in> rest \<or> (\<exists>e \<in> set round. shows_result e r)) \<and> P \<union> plays tr \<subseteq> played"

text \<open>With the rounds spent, \<open>n\<close>, and a bound on the asks made, \<open>k\<close>.\<close>

definition mid_ok :: "string set \<Rightarrow> nat \<Rightarrow> nat \<Rightarrow> tool_result set \<Rightarrow> conv \<Rightarrow> bool" where
  "mid_ok P n k rest c \<longleftrightarrow>
     loop_ok P k rest (cv_tr c) (cv_proj c) (cv_all c) (cv_round c) (cv_played c) (cv_last_agent_shot c) \<and>
     cv_spoken c + cv_computer c = n"

definition conv_ok :: "string set \<Rightarrow> nat \<Rightarrow> nat \<Rightarrow> conv \<Rightarrow> bool" where
  "conv_ok P n k c \<longleftrightarrow>
     loop_ok P k {} (cv_tr c) (cv_proj c) (cv_all c) (cv_round c) (cv_played c) (cv_last_agent_shot c) \<and>
     cv_spoken c + cv_computer c = n"

definition step_ok :: "(conv \<Rightarrow> bool) \<Rightarrow> (event list \<times> act list \<Rightarrow> bool) \<Rightarrow> step \<Rightarrow> bool" where
  "step_ok R Q s \<longleftrightarrow> (case s of Inl r \<Rightarrow> Q r | Inr c \<Rightarrow> R c)"

lemma step_ok_simps [simp]: "step_ok R Q (Inl r) = Q r" "step_ok R Q (Inr c) = R c"
  by (simp_all add: step_ok_def)

lemma step_ok_rbind: "step_ok R Q s \<Longrightarrow> (\<And>c. R c \<Longrightarrow> step_ok R' Q (f c)) \<Longrightarrow> step_ok R' Q (rbind s f)"
  by (cases s) simp_all

lemma step_ok_mono: "step_ok R Q s \<Longrightarrow> (\<And>c. R c \<Longrightarrow> R' c) \<Longrightarrow> step_ok R' Q s"
  by (cases s) simp_all

subsection \<open>Ending\<close>

lemma closed_append: "endings es = 0 \<Longrightarrow> closed w P K (es', tr) \<Longrightarrow> closed w P K (es @ es', tr)"
  by (auto simp: closed_def ends_once_def)

lemma closable_mono: "closable P k shot p round tr \<Longrightarrow> k \<le> K \<Longrightarrow> closable P K shot p round tr"
  by (simp add: closable_def)

lemma end_run_closed:
  "closable P K (cv_last_agent_shot c) (cv_proj c) round (cv_tr c) \<Longrightarrow> endings (cv_all c) = 0 \<Longrightarrow>
   step_ok R (closed w P K) (end_run w round ending c)"
  using close_run_closed [of P K "cv_last_agent_shot c" "cv_proj c" round "cv_tr c" w "cv_timing c"
      "cv_round_spent c" ending]
  by (auto simp: end_run_def closed_append split: prod.split)

lemma conv_ok_end:
  assumes "conv_ok P n k c" "k \<le> K"
  shows "step_ok R (closed w P K) (end_run w (cv_round c) ending c)"
    and "step_ok R (closed w P K) (end_run w [] ending c)"
  using assms
  by (auto simp: conv_ok_def loop_ok_def closable_def intro!: end_run_closed)

text \<open>What the rest of the loop's variables hold does not matter.\<close>

lemma conv_ok_updates [simp]:
  "conv_ok P n k (c\<lparr>cv_request := x1\<rparr>) = conv_ok P n k c"
  "conv_ok P n k (c\<lparr>cv_last_refused := x2\<rparr>) = conv_ok P n k c"
  "conv_ok P n k (c\<lparr>cv_started_a_tool := x3\<rparr>) = conv_ok P n k c"
  "conv_ok P n k (c\<lparr>cv_plan_only_chars := x4\<rparr>) = conv_ok P n k c"
  "conv_ok P n k (c\<lparr>cv_last_screen := x5\<rparr>) = conv_ok P n k c"
  "conv_ok P n k (c\<lparr>cv_same_screen := x6\<rparr>) = conv_ok P n k c"
  "conv_ok P n k (c\<lparr>cv_round_spent := x7\<rparr>) = conv_ok P n k c"
  "conv_ok P n k (c\<lparr>cv_any_delta := x8\<rparr>) = conv_ok P n k c"
  "conv_ok P n k (c\<lparr>cv_last_failure := x9\<rparr>) = conv_ok P n k c"
  "conv_ok P n k (c\<lparr>cv_work_fail_streak := y1\<rparr>) = conv_ok P n k c"
  "conv_ok P n k (c\<lparr>cv_last_failed_key := y2\<rparr>) = conv_ok P n k c"
  "conv_ok P n k (c\<lparr>cv_last_ok_keys := y3\<rparr>) = conv_ok P n k c"
  "conv_ok P n k (c\<lparr>cv_had_listing := y4\<rparr>) = conv_ok P n k c"
  "conv_ok P n k (c\<lparr>cv_skipped_listing := y5\<rparr>) = conv_ok P n k c"
  "conv_ok P n k (c\<lparr>cv_on_the_catalog := y6\<rparr>) = conv_ok P n k c"
  "conv_ok P n k (c\<lparr>cv_skipped_replay := y7\<rparr>) = conv_ok P n k c"
  "conv_ok P n k (c\<lparr>cv_last_listing := y8\<rparr>) = conv_ok P n k c"
  "conv_ok P n k (c\<lparr>cv_opened := y9\<rparr>) = conv_ok P n k c"
  "conv_ok P n k (c\<lparr>cv_timing := z1\<rparr>) = conv_ok P n k c"
  "conv_ok P n k (c\<lparr>cv_window := z2\<rparr>) = conv_ok P n k c"
  "conv_ok P n k (c\<lparr>cv_said := z3\<rparr>) = conv_ok P n k c"
  "conv_ok P n k (c\<lparr>cv_withheld := z4\<rparr>) = conv_ok P n k c"
  "conv_ok P n k (c\<lparr>cv_text_live := z5\<rparr>) = conv_ok P n k c"
  "conv_ok P n k (c\<lparr>cv_round_tool := z6\<rparr>) = conv_ok P n k c"
  "conv_ok P n k (c\<lparr>cv_round_work_tool := z7\<rparr>) = conv_ok P n k c"
  "conv_ok P n k (c\<lparr>cv_model_started := z8\<rparr>) = conv_ok P n k c"
  "conv_ok P n k (c\<lparr>cv_proj := finishing_because fr (cv_proj c)\<rparr>) = conv_ok P n k c"
  "conv_ok P n k (c\<lparr>cv_proj := failing_with code (cv_proj c)\<rparr>) = conv_ok P n k c"
  by (simp_all add: conv_ok_def loop_ok_def closable_def finishing_because_def failing_with_def)

lemma conv_ok_emit:
  assumes "conv_ok P n k c" "endings es = 0" "\<not> pj_finished p"
  shows "conv_ok P n k (c\<lparr>cv_proj := p, cv_round := cv_round c @ es, cv_tr := emit_live w es (cv_tr c)\<rparr>)"
  using assms
  by (auto simp: conv_ok_def loop_ok_def intro: closable_emit dest: subsetD [OF emit_live_facts(7)])

lemma conv_ok_open: "conv_ok P n k c \<Longrightarrow> \<not> pj_finished (cv_proj c)"
  by (simp add: conv_ok_def loop_ok_def closable_def)

lemma conv_ok_push:
  assumes "conv_ok P n k c" "pj_push d (cv_proj c) = (es, p)"
  shows "conv_ok P n k (c\<lparr>cv_proj := p, cv_round := cv_round c @ es, cv_tr := emit_live w es (cv_tr c)\<rparr>)"
  using assms pj_push_open [OF assms(2)] conv_ok_open [OF assms(1)] by (intro conv_ok_emit) auto

lemma conv_ok_more_asks: "conv_ok P n k c \<Longrightarrow> k \<le> k' \<Longrightarrow> conv_ok P n k' c"
  by (auto simp: conv_ok_def loop_ok_def closable_def)

section \<open>A round's stream\<close>

lemma unless_stopped_ok:
  assumes "conv_ok P n k c" "k \<le> K" "endings round = 0"
  shows "step_ok (\<lambda>c1. conv_ok P n k c1 \<and> cv_round c1 = cv_round c) (closed w P K) (unless_stopped w round c)"
proof (cases "w_stopped w (cv_tr c)")
  case True
  with assms show ?thesis
    by (auto simp: unless_stopped_def ask_stopped_def Let_def conv_ok_def loop_ok_def closable_def
        intro!: end_run_closed)
next
  case False
  with assms show ?thesis
    by (auto simp: unless_stopped_def ask_stopped_def Let_def conv_ok_def loop_ok_def closable_def)
qed

lemma budget_open_second: "0 < attempt \<Longrightarrow> snd (budget_open w b r attempt tr) = Asked r # tr"
  using retry_wait_first by (subst budget_open.simps) (auto simp: Let_def split: sum.split option.split)

lemma budget_open_trace:
  "snd (budget_open w b r 0 tr) = Asked r # tr \<or> snd (budget_open w b r 0 tr) = Asked r # Asked r # tr"
  using budget_open_second [of 1 w b r "Asked r # tr"]
  by (subst (1 2) budget_open.simps) (auto simp: Let_def split: sum.split option.split)

text \<open>A model is asked with nothing of the round pending, so the log holds all that was done and said.\<close>

lemma conv_ok_asked:
  assumes "conv_ok P n k c" "cv_round c = []" "budget_open w b r 0 (cv_tr c) = (opened, tr)"
  shows "conv_ok P n (k + 2) (c\<lparr>cv_tr := tr\<rparr>)"
  using assms budget_open_trace [of w b r "cv_tr c"]
  by (auto simp: conv_ok_def loop_ok_def closable_def)

lemma conv_ok_show_text: "conv_ok P n k c \<Longrightarrow> conv_ok P n k (show_text w txt c)"
  using conv_ok_push [of P n k c "DText txt" _ _ w]
  by (auto simp: show_text_def emit_visible_text_def split: prod.split)

lemma conv_ok_model_took [simp]: "conv_ok P n k (model_took w c) = conv_ok P n k c"
  by (simp add: model_took_def)

lemma conv_ok_note_delta [simp]: "conv_ok P n k (note_delta d c) = conv_ok P n k c"
  by (simp add: note_delta_def split: model_delta.split)

lemma conv_ok_flush: "conv_ok P n k c \<Longrightarrow> conv_ok P n k (flush_withheld_text w blank c)"
  by (auto simp: flush_withheld_text_def Let_def conv_ok_show_text split: option.split)

lemma conv_ok_push_live: "conv_ok P n k c \<Longrightarrow> conv_ok P n k (push_live w d c)"
proof -
  assume c: "conv_ok P n k c"
  obtain es p where push: "pj_push d (cv_proj c) = (es, p)" by fastforce
  then show ?thesis using conv_ok_push [OF c, of d es p w] by (simp add: push_live_def conv_ok_def)
qed

lemma fail_on_closed: "conv_ok P n k c \<Longrightarrow> k \<le> K \<Longrightarrow> step_ok R (closed w P K) (fail_on w e c)"
  using conv_ok_end(1) [of P n k "c\<lparr>cv_proj := failing_with (error_code e) (cv_proj c)\<rparr>" K R w]
  by (simp add: fail_on_def)

lemma withhold_ok: "conv_ok P n k c \<Longrightarrow> k \<le> K \<Longrightarrow> step_ok (conv_ok P n k) (closed w P K) (withhold w txt c)"
  by (auto simp: withhold_def Let_def intro!: conv_ok_end(1) [where n = n and k = k] conv_ok_show_text)

lemma take_delta_ok: "conv_ok P n k c \<Longrightarrow> k \<le> K \<Longrightarrow> step_ok (conv_ok P n k) (closed w P K) (take_delta w d c)"
  by (cases d) (simp_all add: take_delta_def Let_def conv_ok_push_live withhold_ok)

lemma break_stream_closed: "conv_ok P n k c \<Longrightarrow> k \<le> K \<Longrightarrow> step_ok R (closed w P K) (break_stream w e c)"
  by (auto simp: break_stream_def Let_def intro!: fail_on_closed [where n = n and k = k] conv_ok_flush)

lemma read_deltas_ok:
  "conv_ok P n k c \<Longrightarrow> k \<le> K \<Longrightarrow> step_ok (conv_ok P n k) (closed w P K) (read_deltas w b items c)"
proof (induction w b items c rule: read_deltas.induct)
  case (2 w b item items c)
  show ?case
  proof (cases "next_delta b item")
    case (Inl e)
    with "2.prems" show ?thesis by (simp add: break_stream_closed)
  next
    case (Inr d)
    have "step_ok (conv_ok P n k) (closed w P K) (rbind (take_delta w d c) (read_deltas w b items))"
      by (rule step_ok_rbind [OF take_delta_ok [OF "2.prems"]]) (rule "2.IH" [OF Inr _ "2.prems"(2)])
    with Inr show ?thesis by simp
  qed
qed simp

lemma conv_ok_fresh_round [simp]: "conv_ok P n k (fresh_round w c) = conv_ok P n k c"
  by (simp add: fresh_round_def)

lemma conv_ok_settle: "conv_ok P n k c \<Longrightarrow> conv_ok P n k (settle_text w c)"
  by (auto simp: settle_text_def conv_ok_show_text conv_ok_flush)

lemma ask_model_ok:
  assumes c: "conv_ok P n k c" "cv_round c = []" and K: "k + 2 \<le> K"
  shows "step_ok (conv_ok P n (k + 2)) (closed w P K) (ask_model w b c)"
proof -
  let ?c0 = "c\<lparr>cv_model_started := w_now w (cv_tr c)\<rparr>"
  obtain opened tr where o: "budget_open w b (cv_request ?c0) 0 (cv_tr ?c0) = (opened, tr)" by fastforce
  let ?c1 = "?c0\<lparr>cv_tr := tr\<rparr>"
  have c1: "conv_ok P n (k + 2) ?c1" using c o by (intro conv_ok_asked) simp_all
  show ?thesis
  proof (cases opened)
    case (Inl e)
    with o c1 K show ?thesis by (simp add: ask_model_def fail_on_closed)
  next
    case (Inr s)
    have "step_ok (conv_ok P n (k + 2)) (closed w P K)
        (rbind (read_deltas w b s (fresh_round w ?c1)) (\<lambda>c2. Inr (settle_text w (model_took w c2))))"
      using c1 K by (intro step_ok_rbind [OF read_deltas_ok]) (auto simp: conv_ok_settle)
    with o Inr show ?thesis by (simp add: ask_model_def)
  qed
qed

section \<open>Opening, wrapping up and beginning a round\<close>

text \<open>Between rounds nothing is pending: the round's events are all written.\<close>

definition between_rounds :: "string set \<Rightarrow> nat \<Rightarrow> nat \<Rightarrow> conv \<Rightarrow> bool" where
  "between_rounds P n k c \<longleftrightarrow> conv_ok P n k c \<and> cv_round c = []"

lemma wrap_deltas_ok: "conv_ok P n k c \<Longrightarrow> conv_ok P n k (snd (wrap_deltas w b items c))"
proof (induction w b items c rule: wrap_deltas.induct)
  case (2 w b item items c)
  show ?case
  proof (cases "next_delta b item")
    case (Inl e)
    with "2.prems" show ?thesis by simp
  next
    case (Inr d)
    obtain es p where push: "pj_push d (cv_proj c) = (es, p)" by fastforce
    note ok = conv_ok_push [OF "2.prems" push, of w]
    show ?thesis
    proof (cases d)
      case (DText x)
      with "2.IH"(1) [OF Inr DText push [symmetric] ok] Inr push show ?thesis by simp
    next
      case (DReasoning x)
      with "2.IH"(2) [OF Inr DReasoning push [symmetric] ok] Inr push show ?thesis by simp
    qed (use "2.IH" "2.prems" Inr in \<open>simp_all\<close>)
  qed
qed simp

lemma round_nil: "cv_round c = [] \<Longrightarrow> conv_ok P n k (c\<lparr>cv_round := []\<rparr>) = conv_ok P n k c"
  by (simp add: conv_ok_def)

lemma wrap_up_call_closed:
  assumes c: "between_rounds P n k c" and K: "k + 2 \<le> K"
  shows "step_ok R (closed w P K) (wrap_up_call w b ask why c)"
proof -
  obtain opened tr where o: "budget_open w b ask 0 (cv_tr c) = (opened, tr)" by fastforce
  let ?c1 = "c\<lparr>cv_tr := tr, cv_round := []\<rparr>"
  have c1: "conv_ok P n (k + 2) ?c1"
    using c conv_ok_asked [of P n k c w b ask opened tr] o round_nil [of "c\<lparr>cv_tr := tr\<rparr>"]
    by (auto simp add: between_rounds_def)
  obtain streamed c2 where s: "(case opened of Inl e \<Rightarrow> (False, ?c1) | Inr s \<Rightarrow> wrap_deltas w b s ?c1) = (streamed, c2)"
    by fastforce
  have c2: "conv_ok P n (k + 2) c2"
    using c1 s wrap_deltas_ok [OF c1, of w b] by (cases opened) (auto simp: prod_eq_iff)
  let ?c3 = "c2\<lparr>cv_timing := timing_model (w_now w (cv_tr c2) - w_now w (cv_tr c)) (cv_timing c2)\<rparr>"
  let ?c4 = "?c3\<lparr>cv_timing := timing_wrapped_up why (cv_timing ?c3), cv_proj := finishing_because Budget (cv_proj ?c3)\<rparr>"
  have "conv_ok P n (k + 2) ?c3" "conv_ok P n (k + 2) ?c4"
    using c2 by (simp_all add: conv_ok_def loop_ok_def closable_def finishing_because_def)
  from conv_ok_end(1) [OF this(1) K] conv_ok_end(1) [OF this(2) K] o s show ?thesis
    by (simp add: wrap_up_call_def Let_def)
qed

lemma between_rounds_timing [simp]:
  "between_rounds P n k (c\<lparr>cv_timing := t\<rparr>) = between_rounds P n k c"
  by (simp add: between_rounds_def)

lemma wrap_up_closed:
  assumes c: "between_rounds P n k c" and K: "k + 2 \<le> K"
  shows "step_ok R (closed w P K) (wrap_up w b why c)"
proof -
  have "step_ok (between_rounds P n k) (closed w P K) (unless_stopped w [] c)"
    using unless_stopped_ok [of P n k c K "[]" w] c K by (auto simp: between_rounds_def elim: step_ok_mono)
  then show ?thesis unfolding wrap_up_def
  proof (rule step_ok_rbind)
    fix c1 assume c1: "between_rounds P n k c1"
    obtain r win ask where f: "window_fit (w_serde w) (cv_window c1) (last_call why (cv_request c1)) = (r, win, ask)"
      by (metis prod_cases3)
    have "step_ok R (closed w P K) (end_run w [] (FailEnding why) c1)"
      using c1 K conv_ok_end(2) [of P n k c1 K] by (simp add: between_rounds_def)
    with f c1 K wrap_up_call_closed [of P n k _ K R w b ask why]
    show "step_ok R (closed w P K)
        (case window_fit (w_serde w) (cv_window c1) (last_call why (cv_request c1)) of
           (Inl _, _, _) \<Rightarrow> end_run w [] (FailEnding why) c1
         | (Inr estimate, win, ask) \<Rightarrow>
             wrap_up_call w b ask why
               (c1\<lparr>cv_timing := timing_context (mr_context_tokens ask) estimate (wn_left_out win) (cv_timing c1)\<rparr>))"
      by (cases r) simp_all
  qed
qed

lemma begin_round_ok:
  assumes c: "between_rounds P n k c" and K: "k + 2 \<le> K"
  shows "step_ok (between_rounds P n k) (closed w P K) (begin_round w b i c)"
proof -
  let ?c0 = "c\<lparr>cv_round := [], cv_round_spent := spent_nothing\<rparr>"
  have "conv_ok P n k ?c0" using c round_nil [of c] by (auto simp: between_rounds_def)
  from unless_stopped_ok [OF this, of K "[]" w] K
  have "step_ok (between_rounds P n k) (closed w P K) (unless_stopped w [] ?c0)"
    by (auto simp: between_rounds_def elim: step_ok_mono)
  then show ?thesis unfolding begin_round_def
  proof (rule step_ok_rbind)
    fix c1 assume c1: "between_rounds P n k c1"
    let ?r = "(cv_request c1)\<lparr>mr_messages := keep_recent_images recent_images (mr_messages (cv_request c1))\<rparr>"
    obtain r win r1 where f: "window_fit (w_serde w) (cv_window c1) ?r = (r, win, r1)" by (metis prod_cases3)
    have "step_ok (between_rounds P n k) (closed w P K) (end_run w [] (FailEnding why) (c1\<lparr>cv_window := win, cv_request := r1\<rparr>))" for why
      using c1 K conv_ok_end(2) [of P n k "c1\<lparr>cv_window := win, cv_request := r1\<rparr>" K]
      by (simp add: between_rounds_def)
    with c1 K f show "step_ok (between_rounds P n k) (closed w P K)
        (if 0 < i \<and> bu_max_wall_ms b \<le> w_now w (cv_tr c1) - cv_clock c1
         then wrap_up w b (''this run reached its time limit of '' @ spoken (bu_max_wall_ms b)) c1
         else let r = ?r in case window_fit (w_serde w) (cv_window c1) r of
            (Inl why, win, r1) \<Rightarrow> end_run w [] (FailEnding why) (c1\<lparr>cv_window := win, cv_request := r1\<rparr>)
          | (Inr estimate, win, r1) \<Rightarrow>
              Inr (c1\<lparr>cv_window := win, cv_request := r1,
                cv_timing := timing_context (mr_context_tokens r1) estimate (wn_left_out win) (cv_timing c1)\<rparr>))"
      by (cases r) (auto simp: Let_def wrap_up_closed between_rounds_def)
  qed
qed

lemma open_run_ok:
  assumes "lawful P tr" "owing tr = {}" "told tr \<subseteq> recorded tr" "\<not> was_stopped tr" "asks tr \<le> k"
    and "P \<union> plays tr \<subseteq> ca_played ca" "\<not> pj_finished p" "k \<le> K"
  shows "step_ok (between_rounds P (fst (ca_spent_rounds ca) + snd (ca_spent_rounds ca)) k) (closed w P K)
    (open_run w (conv_start w r p ca tr))"
proof -
  let ?c = "conv_start w r p ca tr"
  obtain es p1 where s: "pj_start p = (es, p1)" by fastforce
  then have e: "endings es = 0" "\<not> pj_finished p1"
    using pj_start_counts(1) [of p] pj_start_snd [of p] assms(7) by auto
  define opens where "opens = (if es = [] then es
     else es @ pj_custom inference_source_name (source_said (cv_request ?c)) p1 #
       map (\<lambda>(name, v). pj_custom name v p1) (mr_customs (cv_request ?c)))"
  have o: "endings opens = 0" using e by (simp add: opens_def)
  let ?err = "w_write w tr opens None"
  let ?c1 = "?c\<lparr>cv_proj := p1, cv_tr := emit_live w opens (Wrote opens spent_nothing ?err # tr),
    cv_all := opens\<rparr>"
  have law: "closable P K None p1 [] (cv_tr ?c1)" "endings (cv_all ?c1) = 0" "cv_last_agent_shot ?c1 = None"
    using assms e o by (simp_all add: closable_def lawful_emit_live conv_start_def Let_def)
  have c: "cv_proj ?c = p" "cv_tr ?c = tr" "cv_all ?c = []" by (simp_all add: conv_start_def Let_def)
  have step: "open_run w ?c = (case ?err of None \<Rightarrow> Inr ?c1
      | Some e \<Rightarrow> end_run w [] (FailEnding (''the run could not be recorded: '' @ journal_error_text e)) ?c1)"
    by (cases ?err) (simp_all add: open_run_def record_opening_def Let_def c s opens_def [symmetric])
  show ?thesis
  proof (cases ?err)
    case (Some er)
    with law show ?thesis unfolding step Some option.case by (intro end_run_closed) simp_all
  next
    case None
    have "told (cv_tr ?c1) \<subseteq> recorded (cv_tr ?c1)"
      using assms(3) None by (auto dest!: subsetD [OF emit_live_facts(7)])
    then have "between_rounds P (fst (ca_spent_rounds ca) + snd (ca_spent_rounds ca)) k ?c1"
      using assms e o None
      by (auto simp: between_rounds_def conv_ok_def loop_ok_def closable_def lawful_emit_live conv_start_def Let_def)
    then show ?thesis unfolding step None option.case by simp
  qed
qed

section \<open>A round's calls\<close>

lemma guard_calls_ok:
  assumes "conv_ok P n k c" "k \<le> K"
  shows "step_ok (conv_ok P n k) (closed w P K) (guard_calls w calls c)"
proof -
  have "endings (cv_round c) = 0" using assms(1) by (simp add: conv_ok_def loop_ok_def closable_def)
  from unless_stopped_ok [OF assms this]
  have "step_ok (conv_ok P n k) (closed w P K) (unless_stopped w (cv_round c) c)"
    by (rule step_ok_mono) blast
  then show ?thesis unfolding guard_calls_def
    by (rule step_ok_rbind) (use assms(2) in \<open>simp add: conv_ok_end\<close>)
qed

text \<open>Past this step every call that will run has its start on record.\<close>

definition started_ok :: "string set \<Rightarrow> nat \<Rightarrow> nat \<Rightarrow> string set \<Rightarrow> tool_call list \<Rightarrow> conv \<Rightarrow> bool" where
  "started_ok P n k played calls c \<longleftrightarrow>
     conv_ok P n k c \<and> cv_played c = played \<and> started_of ` set calls \<subseteq> on_record (cv_tr c)"

definition to_run :: "batch \<Rightarrow> tool_call list" where
  "to_run bt = (if bt_skip_listing bt then [] else runnable bt)"

lemma start_calls_ok:
  assumes c: "conv_ok P n k c" and K: "k \<le> K"
  shows "step_ok (started_ok P n k (cv_played c) (to_run bt)) (closed w P K) (start_calls w bt c)"
proof (cases "to_run bt = []")
  case True
  with c show ?thesis by (auto simp: start_calls_def started_ok_def to_run_def Let_def split: if_splits)
next
  case False
  let ?ts = "map started_of (to_run bt)"
  have ok: "conv_ok P n k (c\<lparr>cv_tr := Starting ?ts e # cv_tr c\<rparr>)" for e
    using c by (cases e) (auto simp: conv_ok_def loop_ok_def closable_def)
  show ?thesis
  proof (cases "w_starting w (cv_tr c) ?ts")
    case None
    with False ok [of None] show ?thesis
      by (auto simp: start_calls_def tools_starting_def Let_def to_run_def started_ok_def split: if_splits)
  next
    case (Some e)
    with False conv_ok_end(1) [OF ok [of "Some e"] K] show ?thesis
      by (auto simp: start_calls_def tools_starting_def Let_def to_run_def split: if_splits)
  qed
qed

lemma box_waking_open:
  assumes "\<not> pj_finished p" "box_wake_frame w calls tr p = (es, p1)"
  shows "endings es = 0 \<and> \<not> pj_finished p1"
  using assms
  by (auto simp: box_wake_frame_def box_waking_def pj_event_def split: if_splits prod.splits dest!: begin_frameD)

lemma wake_box_ok:
  assumes c: "started_ok P n k played calls c"
  shows "started_ok P n k played calls (wake_box w calls' c)"
proof -
  obtain es p where b: "box_wake_frame w calls' (cv_tr c) (cv_proj c) = (es, p)" by fastforce
  have "conv_ok P n k (c\<lparr>cv_proj := p, cv_round := cv_round c @ es, cv_tr := emit_live w es (cv_tr c)\<rparr>)"
    using c box_waking_open [OF _ b] conv_ok_open [of P n k c] by (intro conv_ok_emit) (auto simp: started_ok_def)
  with c b show ?thesis by (simp add: started_ok_def wake_box_def conv_ok_def)
qed

text \<open>Running the calls: lawful act by act, with every result owed to the log.\<close>

lemma run_all_lawful:
  "\<lbrakk>run_all w calls tr = (rs, tr'); lawful P tr; \<not> was_stopped tr; started_of ` set calls \<subseteq> on_record tr;
    fresh_recipes calls (P \<union> plays tr)\<rbrakk> \<Longrightarrow>
   lawful P tr' \<and> \<not> was_stopped tr' \<and> asks tr' = asks tr \<and> told tr' = told tr \<and> recorded tr' = recorded tr \<and>
   owing tr' = owing tr \<union> set (map fst rs) \<and> length rs = length calls \<and>
   plays tr' = plays tr \<union> set (List.map_filter (\<lambda>(call, r). played_recipe call r) (zip calls (map fst rs)))"
proof (induction calls arbitrary: tr rs tr')
  case Nil
  then show ?case by (simp add: map_filter_simps)
next
  case (Cons call calls)
  obtain r ms where r: "w_run w tr call = (r, ms)" by fastforce
  obtain rs1 tr1 where rec: "run_all w calls (Ran call r # tr) = (rs1, tr1)" by fastforce
  have eq: "rs = (r, ms) # rs1" "tr' = tr1" using Cons.prems(1) r rec by auto
  have played: "set_option (played_recipe call r) \<subseteq> set_option (recipe_of call)"
    by (simp add: played_recipe_def)
  have fresh: "set_option (recipe_of call) \<inter> (P \<union> plays tr) = {}"
    "fresh_recipes calls (P \<union> plays tr \<union> set_option (recipe_of call))"
    using Cons.prems(5) by (auto split: option.splits)
  have "fresh_recipes calls (P \<union> plays (Ran call r # tr))"
    using fresh(2) by (rule fresh_recipes_mono) (use played in auto)
  from Cons.IH [OF rec _ _ _ this] Cons.prems fresh(1) eq show ?case
    by (auto simp: map_filter_simps split: option.splits)
qed

text \<open>Each result that came back is in the batch, beside the call it answers.\<close>

abbreviation unanswered :: "(tool_call \<times> tool_result option) list \<Rightarrow> tool_call list" where
  "unanswered cas \<equiv> map fst (filter (\<lambda>(call, a). a = None) cas)"

lemma take_results_facts:
  "length rs = length (unanswered cas) \<Longrightarrow>
   length (take_results cas rs) = length cas \<and> fst ` set rs \<subseteq> fst ` set (take_results cas rs) \<and>
   set (List.map_filter (\<lambda>(call, r). played_recipe call r) (zip (unanswered cas) (map fst rs))) \<subseteq>
   set (List.map_filter (\<lambda>((call, r), answered). if answered then None else played_recipe call r)
     (zip (zip (map fst cas) (map fst (take_results cas rs))) (map (\<lambda>(call, a). a \<noteq> None) cas)))"
proof (induction cas rs rule: take_results.induct)
  case (3 call rest r ms rs)
  then show ?case by (auto simp: map_filter_simps split: option.splits)
qed (auto simp: map_filter_simps)

lemma map_zip_snd: "length xs = length ys \<Longrightarrow> map (\<lambda>(x, y). f y) (zip xs ys) = map f ys"
  by (induction xs ys rule: list_induct2) simp_all

lemma runnable_planned: "runnable (plan_batch c calls) = runnable_of calls (replays calls (cv_played c)) (cv_played c)"
proof -
  have "map fst (filter (\<lambda>(call, a). a = None)
      (zip calls (map (\<lambda>(call, flag). answered_here call flag played) (zip calls flags)))) =
    map fst (filter (\<lambda>(call, flag). answered_here call flag played = None) (zip calls flags))"
    if "length calls = length flags" for calls flags played
    using that by (induction calls flags rule: list_induct2) auto
  from this [of calls "replays calls (cv_played c)" "cv_played c"] show ?thesis
    by (simp add: runnable_def plan_batch_def runnable_of_def Let_def)
qed

definition batch_sized :: "batch \<Rightarrow> bool" where
  "batch_sized bt \<longleftrightarrow> length (bt_results bt) = length (bt_calls bt) \<and> length (bt_durations bt) = length (bt_calls bt)"

lemma mid_ok_note_plays:
  assumes "closable P k (cv_last_agent_shot c) (cv_proj c) (cv_round c) (cv_tr c)" "\<not> was_stopped (cv_tr c)"
    "endings (cv_all c) = 0" "told (cv_tr c) \<subseteq> recorded (cv_tr c) \<union> set (cv_round c)"
    "\<forall>r \<in> owing (cv_tr c). r \<in> rest \<or> (\<exists>e \<in> set (cv_round c). shows_result e r)"
    "P \<union> plays (cv_tr c) \<subseteq> cv_played c \<union> set (now_played bt)" "cv_spoken c + cv_computer c = n"
  shows "mid_ok P n k rest (note_plays w bt c)"
  using assms by (simp add: mid_ok_def loop_ok_def note_plays_def Let_def)

lemma run_calls_ok:
  fixes calls c
  defines "bt \<equiv> plan_batch c calls"
  assumes c2: "started_ok P n k (cv_played c) (to_run bt) c2" and r: "run_calls w bt c2 = (bt1, c3)"
  shows "mid_ok P n k (set (bt_results bt1)) (note_plays w bt1 c3) \<and> batch_sized bt1 \<and> bt_calls bt1 = calls"
proof (cases "bt_skip_listing bt")
  case True
  from c2 have ok: "conv_ok P n k c2" by (simp add: started_ok_def)
  from r True have "bt_calls bt1 = calls" "batch_sized bt1" "cv_tr c3 = cv_tr c2" "cv_proj c3 = cv_proj c2"
    "cv_all c3 = cv_all c2" "cv_round c3 = cv_round c2" "cv_played c3 = cv_played c2"
    "cv_last_agent_shot c3 = cv_last_agent_shot c2" "cv_spoken c3 = cv_spoken c2" "cv_computer c3 = cv_computer c2"
    by (auto simp: run_calls_def Let_def batch_sized_def bt_def plan_batch_def)
  with ok show ?thesis by (auto intro!: mid_ok_note_plays simp: conv_ok_def loop_ok_def)
next
  case False
  let ?cas = "zip calls (bt_answers bt)"
  have calls: "bt_calls bt = calls" "length (bt_answers bt) = length calls"
    by (simp_all add: bt_def plan_batch_def Let_def)
  have run: "runnable bt = unanswered ?cas" by (simp add: runnable_def calls)
  obtain rs tr where ran: "run_all w (runnable bt) (cv_tr c2) = (rs, tr)" by fastforce
  have ok: "conv_ok P n k c2" "cv_played c2 = cv_played c" "started_of ` set (runnable bt) \<subseteq> on_record (cv_tr c2)"
    using c2 False by (simp_all add: started_ok_def to_run_def)
  then have pl: "P \<union> plays (cv_tr c2) \<subseteq> cv_played c" "lawful P (cv_tr c2)" "\<not> was_stopped (cv_tr c2)"
    by (auto simp: conv_ok_def loop_ok_def closable_def)
  have "fresh_recipes (runnable bt) (P \<union> plays (cv_tr c2))"
    unfolding bt_def runnable_planned by (rule fresh_recipes_mono [OF runnable_fresh pl(1)])
  note law = run_all_lawful [OF ran pl(2,3) ok(3) this]
  let ?timed = "take_results ?cas rs"
  have tk: "length ?timed = length calls" "fst ` set rs \<subseteq> fst ` set ?timed"
    "set (List.map_filter (\<lambda>(call, r). played_recipe call r) (zip (runnable bt) (map fst rs))) \<subseteq>
     set (List.map_filter (\<lambda>((call, r), answered). if answered then None else played_recipe call r)
       (zip (zip calls (map fst ?timed)) (map (\<lambda>(call, a). a \<noteq> None) ?cas)))"
    using take_results_facts [of rs ?cas] law run calls(2) by simp_all
  have c3: "bt_calls bt1 = calls" "bt_results bt1 = map fst ?timed" "bt_durations bt1 = map snd ?timed"
    "bt_answers bt1 = bt_answers bt" "\<not> bt_skip_listing bt1" "cv_tr c3 = tr" "cv_proj c3 = cv_proj c2"
    "cv_all c3 = cv_all c2" "cv_round c3 = cv_round c2" "cv_played c3 = cv_played c2"
    "cv_last_agent_shot c3 = cv_last_agent_shot c2" "cv_spoken c3 = cv_spoken c2" "cv_computer c3 = cv_computer c2"
    using r False ran by (auto simp: run_calls_def Let_def calls)
  have "loop_answered bt1 = map (\<lambda>(call, a). a \<noteq> None) ?cas"
    using c3 calls(2) by (simp add: loop_answered_def map_zip_snd)
  then have "plays tr \<subseteq> plays (cv_tr c2) \<union> set (now_played bt1)"
    using law tk(3) c3 by (simp add: now_played_def zip_calls_def) blast
  then have "mid_ok P n k (set (bt_results bt1)) (note_plays w bt1 c3)"
    using ok law tk(2) c3 pl(1)
    by (intro mid_ok_note_plays) (auto simp: conv_ok_def loop_ok_def closable_def)
  with tk(1) c3 show ?thesis by (simp add: batch_sized_def)
qed

section \<open>Drawing the results and spending the round\<close>

definition core :: "conv \<Rightarrow> act list \<times> projection \<times> event list \<times> event list \<times> string set \<times> event option \<times> nat" where
  "core c = (cv_tr c, cv_proj c, cv_all c, cv_round c, cv_played c, cv_last_agent_shot c, cv_spoken c + cv_computer c)"

lemma mid_ok_core: "core c' = core c \<Longrightarrow> mid_ok P n k rest c' = mid_ok P n k rest c"
  by (simp add: core_def mid_ok_def)

lemma mid_ok_empty: "mid_ok P n k {} = conv_ok P n k"
  by (simp add: mid_ok_def conv_ok_def fun_eq_iff)

lemma note_listing_core: "core (snd (note_listing w skip call r m c)) = core c"
  by (simp add: note_listing_def Let_def core_def)

lemma note_opened_core: "core (snd (note_opened w call r m c)) = core c"
  by (auto simp: note_opened_def Let_def core_def split: option.split)

lemma result_event_shows: "shows_result (result_event r ms p) r"
  by (cases "tr_image r"; cases ms)
    (simp_all add: shows_result_def result_event_def with_opt_def duration_ms_key_def)

lemma push_tool_result_facts:
  assumes "push_tool_result r ms p = (es, p1)" "\<not> pj_finished p"
  shows "endings es = 0 \<and> \<not> pj_finished p1 \<and> (\<exists>e \<in> set es. shows_result e r)"
  using assms result_event_shows [of r ms p]
  by (auto simp: push_tool_result_def split: prod.splits dest!: begin_frameD)

lemma take_result_ok:
  assumes c: "mid_ok P n k (insert r rest) c"
  shows "mid_ok P n k rest (take_result w skip call r ms c)"
proof -
  obtain es p where push: "push_tool_result r ms (cv_proj c) = (es, p)" by fastforce
  let ?c1 = "c\<lparr>cv_proj := p, cv_tr := emit_live w es (cv_tr c),
    cv_last_agent_shot := remember_agent_shot es (cv_last_agent_shot c), cv_round := cv_round c @ es\<rparr>"
  have f: "endings es = 0 \<and> \<not> pj_finished p \<and> (\<exists>e \<in> set es. shows_result e r)"
    using c push_tool_result_facts [OF push] by (simp add: mid_ok_def loop_ok_def closable_def)
  have "mid_ok P n k rest ?c1"
    using c f by (auto simp: mid_ok_def loop_ok_def closable_def lawful_emit_live remember_open
        dest!: subsetD [OF emit_live_facts(7)])
  moreover obtain m1 c2 where l: "note_listing w skip call r (tool_result_message (w_serde w) r) ?c1 = (m1, c2)"
    by fastforce
  moreover obtain m2 c3 where o: "note_opened w call r m1 c2 = (m2, c3)" by fastforce
  moreover have "core c3 = core ?c1"
    using note_listing_core [of w skip call r "tool_result_message (w_serde w) r" ?c1]
      note_opened_core [of w call r m1 c2] l o by simp
  moreover have "take_result w skip call r ms c =
      c3\<lparr>cv_request := (cv_request c3)\<lparr>mr_messages := mr_messages (cv_request c3) @ [m2]\<rparr>\<rparr>"
    using push l o by (simp add: take_result_def Let_def)
  moreover have "core (c3\<lparr>cv_request := x\<rparr>) = core c3" for x by (simp add: core_def)
  ultimately show ?thesis by (metis mid_ok_core)
qed

lemma take_all_ok:
  "mid_ok P n k ((\<lambda>x. fst (fst x)) ` set xs) c \<Longrightarrow> conv_ok P n k (take_all w skip xs c)"
proof (induction w skip xs c rule: take_all.induct)
  case (2 w skip result call ms rest c)
  then show ?case by (simp add: take_result_ok)
qed (simp add: mid_ok_empty)

lemma conv_ok_judge [simp]: "conv_ok P n k (judge_work w bt c) = conv_ok P n k c"
  by (simp add: judge_work_def Let_def)

lemma take_batch_ok:
  assumes "mid_ok P n k (set (bt_results bt)) (note_plays w bt c)" "batch_sized bt"
  shows "conv_ok P n k (take_batch w bt c)"
proof -
  have "map (\<lambda>x. fst (fst x)) (zip (zip (bt_results bt) (bt_calls bt)) (bt_durations bt)) = bt_results bt"
    using assms(2) by (auto simp: batch_sized_def intro: nth_equalityI)
  then have "(\<lambda>x. fst (fst x)) ` set (zip (zip (bt_results bt) (bt_calls bt)) (bt_durations bt)) = set (bt_results bt)"
    by (metis list.set_map)
  with assms(1) show ?thesis by (simp add: take_batch_def take_all_ok)
qed

lemma end_round_ok:
  assumes c: "conv_ok P n k c" and K: "k \<le> K"
  shows "step_ok (conv_ok P n k) (closed w P K) (end_round w bt c)"
proof -
  have refused: "step_ok (conv_ok P n k) (closed w P K) (end_refused w bt c)"
    using c K by (simp add: end_refused_def Let_def conv_ok_end)
  have screens: "step_ok (conv_ok P n k) (closed w P K) (end_screens w bt c1)" if "conv_ok P n k c1" for c1
  proof -
    obtain seen same where l: "look_at_screens w (bt_results bt) (cv_last_screen c1, cv_same_screen c1) = (seen, same)"
      by fastforce
    have "conv_ok P n k (c1\<lparr>cv_last_screen := seen, cv_same_screen := same\<rparr>)" using that by simp
    from conv_ok_end(1) [OF this K] that l show ?thesis by (simp add: end_screens_def Let_def)
  qed
  have "step_ok (conv_ok P n k) (closed w P K)
     (rbind (end_refused w bt c) (\<lambda>c1. rbind (end_screens w bt c1) (\<lambda>c2.
        if max_failed_work_rounds \<le> cv_work_fail_streak c2
        then end_run w (cv_round c2) (FinishEnding (cv_last_failure c2)) c2
        else if list_ex (\<lambda>call. is_client_render_tool (tc_name call)) (bt_calls bt)
        then end_run w (cv_round c2) (FinishEnding None) c2
        else Inr c2)))"
    by (intro step_ok_rbind [OF refused] step_ok_rbind [OF screens]) (use K in \<open>auto intro: conv_ok_end\<close>)
  with c K show ?thesis by (simp add: end_round_def conv_ok_end)
qed

lemma write_round_ok:
  assumes c: "conv_ok P n k c" and K: "k \<le> K"
  shows "step_ok (\<lambda>c1. between_rounds P n k c1 \<and> cv_spoken c1 = cv_spoken c \<and> cv_computer c1 = cv_computer c)
    (closed w P K) (write_round w c)"
proof -
  obtain written tr where r: "record_round w (cv_round c) (cv_round_spent c) (cv_tr c) = (written, tr)" by fastforce
  note tr = record_roundD [OF r]
  let ?c1 = "c\<lparr>cv_tr := tr, cv_round_spent := spent_nothing, cv_all := cv_all c @ cv_round c, cv_round := []\<rparr>"
  have e: "closable P K (cv_last_agent_shot ?c1) (cv_proj ?c1) [] (cv_tr ?c1)" "endings (cv_all ?c1) = 0"
    using c K tr by (simp_all add: conv_ok_def loop_ok_def closable_def)
  show ?thesis
  proof (cases written)
    case None
    have "between_rounds P n k ?c1"
      using c tr None by (auto simp: between_rounds_def conv_ok_def loop_ok_def closable_def)
    with None r show ?thesis by (simp add: write_round_def Let_def)
  next
    case (Some er)
    with r end_run_closed [OF e] show ?thesis by (simp add: write_round_def Let_def)
  qed
qed

text \<open>A round that goes on has spent one unit and left some of each budget.\<close>

definition spends :: "run_budget \<Rightarrow> string set \<Rightarrow> nat \<Rightarrow> nat \<Rightarrow> conv \<Rightarrow> bool" where
  "spends b P n k c \<longleftrightarrow>
     between_rounds P n k c \<and> cv_spoken c < bu_max_rounds b \<and> cv_computer c < bu_max_computer_rounds b"

lemma conv_ok_count: "conv_ok P n k c \<Longrightarrow> conv_ok P (Suc n) k (count_spent bt c)"
  by (simp add: count_spent_def conv_ok_def)

lemma spend_round_ok:
  assumes c: "conv_ok P n k c" and K: "k + 2 \<le> K"
  shows "step_ok (spends b P (Suc n) k) (closed w P K) (spend_round w b bt c)"
proof -
  let ?c1 = "count_spent bt c"
  have c1: "conv_ok P (Suc n) k ?c1" using c by (rule conv_ok_count)
  have K': "k \<le> K" using K by simp
  note wr = write_round_ok [OF c1 K', of w]
  show ?thesis
  proof (cases "over_budget b ?c1")
    case None
    then have "cv_spoken ?c1 < bu_max_rounds b" "cv_computer ?c1 < bu_max_computer_rounds b"
      by (auto simp: over_budget_def split: if_splits)
    with None wr show ?thesis
      by (auto simp: spend_round_def Let_def spends_def elim!: step_ok_mono)
  next
    case (Some why)
    show ?thesis
    proof (cases "cv_opened ?c1")
      case None
      have "step_ok (spends b P (Suc n) k) (closed w P K) (rbind (write_round w ?c1) (wrap_up w b why))"
        by (rule step_ok_rbind [OF wr]) (use K in \<open>auto intro: wrap_up_closed\<close>)
      with Some None show ?thesis by (simp add: spend_round_def Let_def)
    next
      case (Some op)
      have "conv_ok P (Suc n) k (?c1\<lparr>cv_proj := finishing_because Budget (cv_proj ?c1)\<rparr>)" using c1 by simp
      from conv_ok_end(1) [OF this K'] Some \<open>over_budget b ?c1 = Some why\<close> show ?thesis
        by (simp add: spend_round_def Let_def split: prod.split)
    qed
  qed
qed

section \<open>Rounds\<close>

lemma tool_round_ok:
  assumes c: "conv_ok P n k c" and K: "k + 2 \<le> K"
  shows "step_ok (spends b P (Suc n) k) (closed w P K) (tool_round w b calls c)"
proof -
  have K': "k \<le> K" using K by simp
  show ?thesis unfolding tool_round_def Let_def
  proof (rule step_ok_rbind [OF guard_calls_ok [OF c K']])
    fix c1 assume c1: "conv_ok P n k c1"
    let ?bt = "plan_batch c1 calls"
    show "step_ok (spends b P (Suc n) k) (closed w P K) (rbind (start_calls w ?bt c1) (\<lambda>c2.
        case run_calls w ?bt (wake_box w calls c2) of
          (bt1, c3) \<Rightarrow> rbind (end_round w bt1 (take_batch w bt1 c3)) (spend_round w b bt1)))"
    proof (rule step_ok_rbind [OF start_calls_ok [OF c1 K']])
      fix c2 assume c2: "started_ok P n k (cv_played c1) (to_run ?bt) c2"
      obtain bt1 c3 where r: "run_calls w ?bt (wake_box w calls c2) = (bt1, c3)" by fastforce
      from run_calls_ok [OF wake_box_ok [OF c2] r]
      have "conv_ok P n k (take_batch w bt1 c3)" by (simp add: take_batch_ok)
      from step_ok_rbind [OF end_round_ok [OF this K'] spend_round_ok [OF _ K]] r
      show "step_ok (spends b P (Suc n) k) (closed w P K) (case run_calls w ?bt (wake_box w calls c2) of
          (bt1, c3) \<Rightarrow> rbind (end_round w bt1 (take_batch w bt1 c3)) (spend_round w b bt1))"
        by simp
    qed
  qed
qed

lemma last_round_closed:
  assumes c: "conv_ok P n k c" and K: "k \<le> K"
  shows "step_ok R (closed w P K) (last_round w c)"
proof -
  have "step_ok R (closed w P K) (end_run w (cv_round c) ending (c\<lparr>cv_tr := StopAsked s # cv_tr c\<rparr>))" for ending s
    using c K by (intro end_run_closed) (simp_all add: conv_ok_def loop_ok_def closable_def)
  with c K show ?thesis by (simp add: last_round_def ask_stopped_def conv_ok_end)
qed

lemma run_round_ok:
  assumes c: "between_rounds P n k c" and K: "k + 4 \<le> K"
  shows "step_ok (spends b P (Suc n) (k + 2)) (closed w P K) (run_round w b i c)"
  unfolding run_round_def
proof (rule step_ok_rbind [OF begin_round_ok [OF c]])
  fix c1 assume c1: "between_rounds P n k c1"
  show "step_ok (spends b P (Suc n) (k + 2)) (closed w P K) (rbind (ask_model w b c1) (\<lambda>c2.
       let calls = one_widget (collect_tool_calls (w_serde w) (cv_round c2));
           c3 = c2\<lparr>cv_on_the_catalog := cv_on_the_catalog c2 \<or> list_ex names_the_catalog calls\<rparr>
       in if w_tools w \<and> calls \<noteq> [] then tool_round w b calls c3 else last_round w c3))"
  proof (rule step_ok_rbind [OF ask_model_ok])
    fix c2 assume "conv_ok P n (k + 2) c2"
    then show "step_ok (spends b P (Suc n) (k + 2)) (closed w P K)
       (let calls = one_widget (collect_tool_calls (w_serde w) (cv_round c2));
           c3 = c2\<lparr>cv_on_the_catalog := cv_on_the_catalog c2 \<or> list_ex names_the_catalog calls\<rparr>
       in if w_tools w \<and> calls \<noteq> [] then tool_round w b calls c3 else last_round w c3)"
      using K by (auto simp: Let_def intro!: tool_round_ok last_round_closed [where n = n and k = "k + 2"])
  qed (use c1 K in \<open>simp_all add: between_rounds_def\<close>)
qed (use K in simp)

lemma rounds_from_ok:
  "between_rounds P n k c \<Longrightarrow> k + 2 * m + 2 \<le> K \<Longrightarrow>
   step_ok (\<lambda>c1. \<exists>n k. between_rounds P n k c1 \<and> k \<le> K) (closed w P K) (rounds_from w b i m c)"
proof (induction m arbitrary: i n k c)
  case 0
  then have "between_rounds P n k c \<and> k \<le> K" by simp
  then show ?case by auto
next
  case (Suc m)
  have "step_ok (spends b P (Suc n) (k + 2)) (closed w P K) (run_round w b i c)"
    using Suc.prems by (intro run_round_ok) simp_all
  then have "step_ok (between_rounds P (Suc n) (k + 2)) (closed w P K) (run_round w b i c)"
    by (rule step_ok_mono) (simp add: spends_def)
  then show ?case unfolding rounds_from.simps
    by (rule step_ok_rbind) (use Suc in simp)
qed

text \<open>
  With something to spend of each budget the bound of the \<open>for\<close> is never met: every round that goes
  on has spent a unit and left one of each.
\<close>

lemma rounds_from_never_out:
  "between_rounds P n (k + 2 * i) c \<Longrightarrow> i \<le> n \<Longrightarrow> i + 2 \<le> loop_bound b \<Longrightarrow> i + m = loop_bound b \<Longrightarrow>
   k + 2 * loop_bound b \<le> K \<Longrightarrow> step_ok (\<lambda>c1. False) (closed w P K) (rounds_from w b i m c)"
proof (induction m arbitrary: i n c)
  case 0
  then show ?case by simp
next
  case (Suc m)
  have "step_ok (spends b P (Suc n) (k + 2 * i + 2)) (closed w P K) (run_round w b i c)"
    using Suc.prems by (intro run_round_ok) simp_all
  then show ?case unfolding rounds_from.simps
  proof (rule step_ok_rbind)
    fix c1 assume c1: "spends b P (Suc n) (k + 2 * i + 2) c1"
    then have "cv_spoken c1 + cv_computer c1 = Suc n" "cv_spoken c1 < bu_max_rounds b"
      "cv_computer c1 < bu_max_computer_rounds b"
      by (simp_all add: spends_def between_rounds_def conv_ok_def)
    then have "Suc i + 2 \<le> loop_bound b" using Suc.prems(2) by (simp add: loop_bound_def)
    with c1 Suc.prems show "step_ok (\<lambda>c1. False) (closed w P K) (rounds_from w b (Suc i) m c1)"
      by (intro Suc.IH [where n = "Suc n"]) (simp_all add: spends_def)
  qed
qed

section \<open>A conversation\<close>

definition both_left :: "run_budget \<Rightarrow> bool" where
  "both_left b \<longleftrightarrow> 0 < bu_max_rounds b \<and> 0 < bu_max_computer_rounds b"

definition enough :: "run_budget \<Rightarrow> nat \<Rightarrow> nat \<Rightarrow> bool" where
  "enough b k K \<longleftrightarrow> k + 2 * loop_bound b + 2 \<le> K \<or> both_left b \<and> k + 2 * loop_bound b \<le> K"

lemma finished_step_closed: "step_ok (\<lambda>c. False) Q s \<Longrightarrow> Q (finished_step s)"
  by (cases s) (simp_all add: finished_step_def)

lemma converse_raw_closed:
  assumes "lawful P tr" "owing tr = {}" "told tr \<subseteq> recorded tr" "\<not> was_stopped tr"
    and "P \<union> plays tr \<subseteq> ca_played ca" "\<not> pj_finished p" "enough (ca_budget ca) (asks tr) K"
  shows "closed w P K (converse_raw w r p ca tr)"
  unfolding converse_raw_def
proof (rule finished_step_closed, rule step_ok_rbind [OF open_run_ok [OF assms(1-4) order_refl assms(5,6)]])
  let ?b = "ca_budget ca" and ?n = "fst (ca_spent_rounds ca) + snd (ca_spent_rounds ca)"
  show "asks tr \<le> K" using assms(7) by (auto simp: enough_def)
  fix c assume c: "between_rounds P ?n (asks tr) c"
  show "step_ok (\<lambda>c. False) (closed w P K)
      (rbind (rounds_from w ?b 0 (loop_bound ?b) c) (\<lambda>c1. end_run w [] (bound_ending ?b) c1))"
  proof (cases "asks tr + 2 * loop_bound ?b + 2 \<le> K")
    case True
    have "step_ok (\<lambda>c. False) (closed w P K) (end_run w [] (bound_ending ?b) c1)"
      if "\<exists>n k. between_rounds P n k c1 \<and> k \<le> K" for c1
      using that by (auto simp: between_rounds_def intro: conv_ok_end(2))
    from step_ok_rbind [OF rounds_from_ok [OF c True] this] show ?thesis .
  next
    case False
    with assms(7) have "0 + 2 \<le> loop_bound ?b" "asks tr + 2 * loop_bound ?b \<le> K"
      by (auto simp: enough_def both_left_def loop_bound_def)
    with c have "step_ok (\<lambda>c. False) (closed w P K) (rounds_from w ?b 0 (loop_bound ?b) c)"
      by (intro rounds_from_never_out [where k = "asks tr" and n = ?n]) simp_all
    then show ?thesis by (rule step_ok_rbind) simp
  qed
qed

subsection \<open>The gate every run goes through\<close>

lemma place_args_endings:
  "endings (place_args sd whole placed es) = endings es"
  "es \<noteq> [] \<Longrightarrow> ends_run (last es) \<Longrightarrow>
     place_args sd whole placed es \<noteq> [] \<and> last (place_args sd whole placed es) = last es"
proof -
  have args: "ev_type e = EvToolCallArgs \<Longrightarrow> \<not> ends_run e" for e by (simp add: ends_run_def)
  show "endings (place_args sd whole placed es) = endings es"
    by (induction es arbitrary: placed) (auto split: option.split dest: args)
  show "es \<noteq> [] \<Longrightarrow> ends_run (last es) \<Longrightarrow>
     place_args sd whole placed es \<noteq> [] \<and> last (place_args sd whole placed es) = last es"
  proof (induction es arbitrary: placed)
    case (Cons e es)
    show ?case
    proof (cases "es = []")
      case True
      with Cons.prems args [of e] show ?thesis by auto
    next
      case False
      with Cons.IH Cons.prems show ?thesis by (auto split: option.split)
    qed
  qed simp
qed

lemma scrub_closed: "closed w P K (es, tr) \<Longrightarrow> closed w P K (scrub_streamed_tool_args sd es, tr)"
  using place_args_endings(1) [of sd es "{}" es] place_args_endings(2) [of es sd es "{}"]
  by (auto simp: closed_def ends_once_def scrub_streamed_tool_args_def)

lemma converse_closed:
  assumes "lawful P tr" "owing tr = {}" "told tr \<subseteq> recorded tr" "\<not> was_stopped tr"
    and "P \<union> plays tr \<subseteq> ca_played ca" "\<not> pj_finished p" "enough (ca_budget ca) (asks tr) K"
  shows "closed w P K (converse w r p ca tr)"
proof -
  obtain es tr' where raw: "converse_raw w r p ca tr = (es, tr')" by fastforce
  with converse_raw_closed [OF assms, of w r] show ?thesis by (simp add: converse_def scrub_closed)
qed

subsection \<open>A run carried on after a card\<close>

text \<open>Documented of a tool: its result names the call it answers.\<close>

definition answers_calls :: "world \<Rightarrow> bool" where
  "answers_calls w \<longleftrightarrow> (\<forall>tr call. tr_call_id (fst (w_run w tr call)) = tc_id call)"

lemma push_results_facts:
  "push_results rs p = (es, p1) \<Longrightarrow> \<not> pj_finished p \<Longrightarrow>
   endings es = 0 \<and> \<not> pj_finished p1 \<and> (\<forall>x \<in> set rs. \<exists>e \<in> set es. shows_result e (fst x))"
proof (induction rs p arbitrary: es p1 rule: push_results.induct)
  case (2 r ms rest p)
  obtain es1 q1 where a: "push_tool_result r ms p = (es1, q1)" by fastforce
  obtain es2 q2 where b: "push_results rest q1 = (es2, q2)" by fastforce
  from push_tool_result_facts [OF a "2.prems"(2)] "2.IH" [OF a [symmetric] b] "2.prems"(1) a b
  show ?case by (auto simp: bex_Un) (metis fst_conv)
qed simp

lemma projection_resumed_open [simp]: "\<not> pj_finished (projection_resumed thread run at seq)"
  "\<not> pj_finished (projection_new thread run at)"
  by (simp_all add: projection_resumed_def projection_new_def)

text \<open>What is known once the answer of the card is in hand.\<close>

definition resumed_ok :: "string set \<Rightarrow> nat \<Rightarrow> resumption \<Rightarrow> event list \<Rightarrow> tool_result list \<Rightarrow> projection \<Rightarrow> act list \<Rightarrow> bool" where
  "resumed_ok P k re all results p tr \<longleftrightarrow>
     lawful P tr \<and> \<not> was_stopped tr \<and> asks tr \<le> k \<and> told tr = {} \<and>
     (\<forall>r \<in> owing tr. \<exists>e \<in> set all. shows_result e r) \<and>
     plays tr \<subseteq> set (approved_plays re results) \<and> \<not> pj_finished p \<and> endings all = 0"

lemma resume_converse_closed:
  assumes ok: "resumed_ok P 0 re all results p tr" and P: "P \<subseteq> sb_recipes (re_spent re)"
    and K: "enough (re_budget re) 0 K" and w: "\<not> w_sink w"
  shows "closed w P K (resume_converse w t r re all results p tr)"
proof -
  let ?sp = "\<lparr>sp_recipes = approved_plays re results, sp_round = None\<rparr>"
  have c: "closable P K None p all tr"
    using ok by (simp add: resumed_ok_def closable_def)
  show ?thesis
  proof (cases "find tr_awaiting_approval results")
    case (Some still)
    with close_run_closed [OF c] show ?thesis by (simp add: resume_converse_def Let_def)
  next
    case None
    obtain written tr1 where rec: "record_round w all ?sp tr = (written, tr1)" by fastforce
    note tr1 = record_roundD [OF rec]
    show ?thesis
    proof (cases written)
      case (Some e)
      have "closable P K None p [] tr1" using c tr1 by (simp add: closable_def)
      then have "closed w P K (close_run w t None p [] spent_nothing ending tr1)" for ending
        by (rule close_run_closed)
      then have "closed w P K (all @ fst (close_run w t None p [] spent_nothing ending tr1),
          snd (close_run w t None p [] spent_nothing ending tr1))" for ending
        using ok by (intro closed_append) (simp_all add: resumed_ok_def)
      with None rec Some show ?thesis
        by (simp add: resume_converse_def Let_def case_prod_beta)
    next
      case written: None
      let ?ca = "\<lparr>ca_started_a_tool = True,
        ca_played = sb_recipes (re_spent re) \<union> set (approved_plays re results), ca_budget = re_budget re,
        ca_spent_rounds = (sb_spoken_rounds (re_spent re), sb_computer_rounds (re_spent re))\<rparr>"
      have "owing tr1 = {}" "told tr1 \<subseteq> recorded tr1" "lawful P tr1" "\<not> was_stopped tr1" "asks tr1 = 0"
        "P \<union> plays tr1 \<subseteq> ca_played ?ca" "\<not> pj_finished p"
        using ok tr1 written P by (auto simp: resumed_ok_def)
      then have "closed (w\<lparr>w_tools := True, w_sink := False\<rparr>) P K (converse (w\<lparr>w_tools := True, w_sink := False\<rparr>) r' p ?ca tr1)" for r'
        using K by (intro converse_closed) simp_all
      then have "closed w P K (converse (w\<lparr>w_tools := True, w_sink := False\<rparr>) r' p ?ca tr1)" for r'
        using w by (simp add: closed_def)
      with ok have "closed w P K (all @ fst (converse (w\<lparr>w_tools := True, w_sink := False\<rparr>) r' p ?ca tr1),
          snd (converse (w\<lparr>w_tools := True, w_sink := False\<rparr>) r' p ?ca tr1))" for r'
        by (intro closed_append) (simp_all add: resumed_ok_def)
      with None rec written show ?thesis
        by (simp add: resume_converse_def Let_def case_prod_beta)
    qed
  qed
qed

definition in_hand ::
  "string set \<Rightarrow> resumption \<Rightarrow> event list \<times> (tool_result \<times> nat option) list \<times> projection \<times> act list \<Rightarrow> bool"
where
  "in_hand P re st \<longleftrightarrow> (case st of (waking, timed, p, tr) \<Rightarrow>
     lawful P tr \<and> \<not> was_stopped tr \<and> asks tr = 0 \<and> told tr = {} \<and> owing tr \<subseteq> fst ` set timed \<and>
     plays tr \<subseteq> set (approved_plays re (map fst timed)) \<and> \<not> pj_finished p \<and> endings waking = 0)"

lemma resume_call_in_hand:
  assumes w: "answers_calls w" and fresh: "set_option (recipe_of (re_approved re)) \<inter> P = {}"
    and re: "re_outcome re = ApprovedOutcome" and p: "\<not> pj_finished p"
    and a: "resume_call w t (re_approved re) p [StopAsked False] = Inr st"
  shows "in_hand P re st"
proof -
  let ?call = "re_approved re" and ?tr = "[Starting [started_of (re_approved re)] None, StopAsked False]"
  obtain waking q where wk: "box_wake_frame w [?call] ?tr p = (waking, q)" by fastforce
  obtain res ms where run: "w_run w ?tr ?call = (res, ms)" by fastforce
  have st: "st = (waking, [(res, Some ms)], q, Ran ?call res # ?tr)"
    using a wk run by (auto simp: resume_call_def tools_starting_def split: option.splits)
  have "tr_call_id res = tc_id ?call" using w run by (metis answers_calls_def fst_conv)
  then have "plays (Ran ?call res # ?tr) \<subseteq> set (approved_plays re [res])"
    using re by (auto simp: approved_plays_def map_filter_simps split: option.splits)
  with st fresh box_waking_open [OF p wk] show ?thesis by (simp add: in_hand_def)
qed

lemma resume_conversation_closed:
  assumes w: "answers_calls w" and P: "P \<subseteq> sb_recipes (re_spent re)"
    and fresh: "set_option (recipe_of (re_approved re)) \<inter> P = {}" and K: "enough (re_budget re) 0 K"
  shows "closed (w\<lparr>w_sink := False\<rparr>) P K (resume_conversation w r x re [])"
proof -
  let ?w = "w\<lparr>w_sink := False\<rparr>"
  let ?p = "projection_resumed (rx_thread_id x) (rx_run_id x) (rx_at_ms x) (re_message_seq re)"
  let ?t = "timing_new (w_now ?w [])"
  have w': "answers_calls ?w" using w by (simp add: answers_calls_def)
  have closes: "closed ?w P K (close_run ?w ?t None ?p [] spent_nothing ending tr)" if "lawful P tr" "asks tr = 0" for tr ending
    using that by (intro close_run_closed) (simp add: closable_def)
  have answered: "closed ?w P K (case resume_results ?w ?t re ?p [StopAsked False] of
      Inl over \<Rightarrow> over
    | Inr (waking, timed, p1, tr2) \<Rightarrow>
        (case push_results timed p1 of (es, p2) \<Rightarrow> resume_converse ?w ?t r re (waking @ es) (map fst timed) p2 tr2))"
  proof (cases "resume_results ?w ?t re ?p [StopAsked False]")
    case (Inl over)
    then have "\<exists>ts e. over = close_run ?w ?t None ?p [] spent_nothing (start_refused e) [Starting ts (Some e), StopAsked False]"
      by (auto simp: resume_results_def resume_call_def tools_starting_def
          split: resume_outcome.splits option.splits prod.splits)
    with Inl closes show ?thesis by auto
  next
    case (Inr st)
    obtain waking timed p1 tr2 where st: "st = (waking, timed, p1, tr2)" by (metis prod_cases4)
    obtain es p2 where push: "push_results timed p1 = (es, p2)" by fastforce
    have "in_hand P re st"
      using Inr resume_call_in_hand [OF w' fresh, of ?p ?t st]
      by (cases "re_outcome re") (auto simp: resume_results_def in_hand_def)
    with push_results_facts [OF push] st have "resumed_ok P 0 re (waking @ es) (map fst timed) p2 tr2"
      by (auto simp: resumed_ok_def in_hand_def) blast
    with Inr st push P K show ?thesis by (simp add: resume_converse_closed)
  qed
  with closes [of "[StopAsked True]" StopEnding] show ?thesis
    by (simp add: resume_conversation_def ask_stopped_def Let_def)
qed

end
