(* ===== verification/Agent_Promises.thy ===== *)
theory Agent_Promises
  imports Agent_Loop_Laws
begin

text \<open>
  The promises of the agent loop, over every world and every way a segment of a run begins: it ends
  once and says so last, its calls to a model are bounded, what was done is in the log before a
  model is asked again, a tool runs only with its start on record, a recipe plays once per request,
  and no ending is told that the log does not hold. Each is drawn from the laws of
  \<open>Agent_Loop_Laws\<close>.
\<close>

section \<open>What a run promises\<close>

text \<open>The three ways a segment of a run begins: a message, a restart, a card answered.\<close>

definition segments ::
  "world \<Rightarrow> model_request \<Rightarrow> run_context \<Rightarrow> run_budget \<Rightarrow> 32 word \<Rightarrow> spent_before \<Rightarrow> resumption \<Rightarrow>
   (event list \<times> act list) list"
where
  "segments w r x b seq sp re =
     [run_conversation_within w r x b [], continue_interrupted w r x seq sp b [], resume_conversation w r x re []]"

lemma segment_closed:
  assumes "answers_calls w" "s \<in> set (segments w r x b seq sp re)"
  shows "\<exists>w' K. closed w' {} K s"
proof -
  have "enough b' (asks []) (2 * loop_bound b' + 2)" for b' by (simp add: enough_def)
  then have "closed w {} (2 * loop_bound b + 2) (run_conversation_within w r x b [])"
    "closed (w\<lparr>w_sink := False\<rparr>) {} (2 * loop_bound b + 2) (continue_interrupted w r x seq sp b [])"
    unfolding run_conversation_within_def continue_interrupted_def
    by (intro converse_closed; simp add: carried_from_def carried_default_def)+
  moreover have "closed (w\<lparr>w_sink := False\<rparr>) {} (2 * loop_bound (re_budget re) + 2) (resume_conversation w r x re [])"
    using assms(1) by (intro resume_conversation_closed) (simp_all add: enough_def)
  ultimately show ?thesis using assms(2) by (auto simp: segments_def)
qed

lemma lawful_nth: "lawful P tr \<Longrightarrow> n < length tr \<Longrightarrow> allowed P (tr ! n) (drop (Suc n) tr)"
proof (induction tr arbitrary: n)
  case (Cons a tr)
  then show ?case by (cases n) simp_all
qed simp

lemma segment_allowed:
  assumes "answers_calls w" "s \<in> set (segments w r x b seq sp re)" "n < length (snd s)"
  shows "allowed {} (snd s ! n) (drop (Suc n) (snd s))"
  using segment_closed [OF assms(1,2)] lawful_nth [OF _ assms(3)] by (auto simp: closed_def)

definition sample_world :: world where
  "sample_world =
     \<lparr>w_serde = sample_serde,
      w_door = \<lambda>tr r. Some (Inr (
         if asks tr = 0
         then [Some (Inr (DToolCallStart ''c'' ''x'')), Some (Inr (DToolCallEnd ''c''))]
         else [Some (Inr (DText ''Hi''))])),
      w_write = \<lambda>tr es sp. None, w_starting = \<lambda>tr ts. None, w_stopped = \<lambda>tr. False,
      w_run = \<lambda>tr call. (result_ok (tc_id call) ''ok'', 5), w_tools = True, w_schemas = [],
      w_needs_wake = \<lambda>tr call. False, w_coworker = None, w_sink = False, w_now = \<lambda>tr. 0,
      w_review_ms = \<lambda>tr. 0, w_hash = \<lambda>s. 0\<rparr>"

definition sample_request :: model_request where
  "sample_request =
     \<lparr>mr_model = ''m'', mr_effort = Medium, mr_messages = [message_of ''user'' ''Go''], mr_system = None,
      mr_tools = [], mr_gateway_key = None, mr_spend_scope = None, mr_spend_actor = None, mr_context_tokens = None,
      mr_endpoint = None, mr_fallback_for = None, mr_customs = []\<rparr>"

definition sample_context :: run_context where
  "sample_context = \<lparr>rx_thread_id = ''t'', rx_run_id = ''r'', rx_at_ms = 1\<rparr>"

definition sample_budget :: run_budget where
  "sample_budget =
     \<lparr>bu_max_rounds = 3, bu_max_computer_rounds = 1, bu_max_wall_ms = 9, bu_call_timeout_ms = 9, bu_idle_ms = 9\<rparr>"

definition sample_carried :: carried where
  "sample_carried =
     \<lparr>ca_started_a_tool = False, ca_played = {}, ca_budget = sample_budget, ca_spent_rounds = (0, 0)\<rparr>"

lemma sample_answers: "answers_calls sample_world"
  by (simp add: answers_calls_def sample_world_def result_ok_def)

abbreviation sample_run :: "event list \<times> act list" where
  "sample_run \<equiv> run_conversation_within sample_world sample_request sample_context sample_budget []"

lemma sample_run_eq: "sample_run = converse sample_world sample_request (projection_new ''t'' ''r'' 1) sample_carried []"
  by (simp add: run_conversation_within_def sample_context_def carried_default_def sample_carried_def)

fun act_word :: "act \<Rightarrow> string" where
  "act_word (Asked r) = ''asked''"
| "act_word (Wrote es sp e) = ''wrote''"
| "act_word (Starting ts e) = ''start''"
| "act_word (StopAsked b) = ''stop''"
| "act_word (Ran call r) = ''ran''"
| "act_word (Told es) = ''told''"

lemma act_wordD:
  "act_word a = ''asked'' \<Longrightarrow> \<exists>r. a = Asked r" "act_word a = ''ran'' \<Longrightarrow> \<exists>call r. a = Ran call r"
  "act_word a = ''told'' \<Longrightarrow> \<exists>es. a = Told es"
  by (cases a; simp)+

definition summary :: "event list \<times> act list \<Rightarrow> string list \<times> event_type \<times> string option list" where
  "summary s = (case s of (es, tr) \<Rightarrow>
     (map act_word tr, ev_type (last es), map (\<lambda>a. case a of Ran call r \<Rightarrow> recipe_of call | _ \<Rightarrow> None) tr))"

lemma sample_run_acts:
  "summary sample_run =
     ([''wrote'', ''stop'', ''asked'', ''stop'', ''wrote'', ''ran'', ''start'', ''stop'', ''asked'', ''stop'', ''wrote''],
      EvRunFinished, replicate 11 None)"
  unfolding sample_run_eq by code_simp

text \<open>A card answered yes, for a recipe, for a tool that asks again.\<close>

definition sample_resumption :: resumption where
  "sample_resumption =
     \<lparr>re_approved = \<lparr>tc_id = ''c'', tc_name = ''run_recipe'', tc_arguments = JObject [(''recipe'', JString ''m'')]\<rparr>,
      re_message_seq = 3, re_outcome = ApprovedOutcome, re_spent = spent_default\<lparr>sb_recipes := {''n''}\<rparr>,
      re_budget = sample_budget\<rparr>"

definition asking_world :: world where
  "asking_world = sample_world\<lparr>w_run := \<lambda>tr call. ((result_refused (tc_id call) ''w'')\<lparr>tr_awaiting_approval := True\<rparr>, 0)\<rparr>"

abbreviation sample_resumed :: "event list \<times> act list" where
  "sample_resumed \<equiv> resume_conversation asking_world sample_request sample_context sample_resumption []"


lemma sample_segments:
  "sample_run \<in> set (segments sample_world sample_request sample_context sample_budget 0 spent_default sample_resumption)"
  "sample_resumed \<in> set (segments asking_world sample_request sample_context sample_budget 0 spent_default sample_resumption)"
  by (simp_all add: segments_def)


lemma summary_nth:
  "summary s = (words, t, rs) \<Longrightarrow> n < length words \<Longrightarrow>
   n < length (snd s) \<and> act_word (snd s ! n) = words ! n \<and>
   (case snd s ! n of Ran call r \<Rightarrow> recipe_of call | _ \<Rightarrow> None) = rs ! n"
  by (cases s) (auto simp: summary_def)

lemma sample_run_nth: "\<exists>q. 2 < length (snd sample_run) \<and> snd sample_run ! 2 = Asked q"
  "\<exists>call r. 5 < length (snd sample_run) \<and> snd sample_run ! 5 = Ran call r"
  using summary_nth [OF sample_run_acts, of 2] summary_nth [OF sample_run_acts, of 5]
  by (auto dest: act_wordD)

section \<open>Ending\<close>

text \<open>C2: every segment of a run ends, whatever the model sends, the tools answer and the journal does: its
  events hold exactly one ending, RUN_FINISHED or RUN_ERROR, and it comes last. An ending that says
  the run finished is in the log.
\<close>

theorem every_run_ends_once:
  assumes "answers_calls w" and "s \<in> set (segments w r x b seq sp re)"
  shows "length (filter ends_run (fst s)) = 1 \<and> fst s \<noteq> [] \<and> ends_run (last (fst s)) \<and>
    (ev_type (last (fst s)) = EvRunFinished \<longrightarrow> last (fst s) \<in> recorded (snd s))"
  using segment_closed [OF assms] by (auto simp: closed_def ends_once_def endings_def)

theorem every_run_ends_once_witness:
  "length (filter ends_run (fst sample_run)) = 1 \<and> ev_type (last (fst sample_run)) = EvRunFinished \<and>
   last (fst sample_run) \<in> recorded (snd sample_run)"
proof -
  have "ev_type (last (fst sample_run)) = EvRunFinished"
    using sample_run_acts by (simp add: summary_def case_prod_beta)
  with every_run_ends_once [OF sample_answers sample_segments(1)] show ?thesis by simp
qed

text \<open>C23: the \<open>for\<close> of the loop never runs out: with something to spend of each budget, the rounds of a run
  that opened end the run themselves, so the ending kept after the loop is never reached.
\<close>

theorem loop_bound_is_never_met:
  assumes "open_run w (conv_start w r p ca []) = Inr c" and "\<not> pj_finished p"
    and "0 < bu_max_rounds (ca_budget ca)" and "0 < bu_max_computer_rounds (ca_budget ca)"
  shows "\<exists>ended. rounds_from w (ca_budget ca) 0 (loop_bound (ca_budget ca)) c = Inl ended"
proof -
  let ?b = "ca_budget ca" and ?n = "fst (ca_spent_rounds ca) + snd (ca_spent_rounds ca)"
  have "step_ok (between_rounds {} ?n 0) (closed w {} 0) (open_run w (conv_start w r p ca []))"
    using assms(2) by (intro open_run_ok) simp_all
  with assms(1) have "between_rounds {} ?n (0 + 2 * 0) c" by simp
  from rounds_from_never_out [OF this, of ?b "loop_bound ?b" "2 * loop_bound ?b" w] assms(3,4)
  have "step_ok (\<lambda>c1. False) (closed w {} (2 * loop_bound ?b)) (rounds_from w ?b 0 (loop_bound ?b) c)"
    by (simp add: loop_bound_def)
  then show ?thesis by (cases "rounds_from w ?b 0 (loop_bound ?b) c") auto
qed

theorem loop_bound_is_never_met_witness:
  "\<exists>c ended. open_run sample_world (conv_start sample_world sample_request (projection_new ''t'' ''r'' 1) sample_carried []) = Inr c \<and>
     rounds_from sample_world sample_budget 0 (loop_bound sample_budget) c = Inl ended"
proof -
  let ?s = "open_run sample_world (conv_start sample_world sample_request (projection_new ''t'' ''r'' 1) sample_carried [])"
  have "isl ?s = False" by code_simp
  then obtain c where c: "?s = Inr c" by (cases ?s) auto
  have b: "ca_budget sample_carried = sample_budget" by (simp add: sample_carried_def)
  have "0 < bu_max_rounds (ca_budget sample_carried)" "0 < bu_max_computer_rounds (ca_budget sample_carried)"
    by (simp_all add: b sample_budget_def)
  from loop_bound_is_never_met [OF c _ this] c b show ?thesis by (auto simp: projection_new_def)
qed



section \<open>Order\<close>



text \<open>C4: a tool touches the world only with its start on record, written since the model was last asked,
  and never once a Stop was seen.
\<close>

theorem tools_run_only_on_record:
  assumes "answers_calls w" and "s \<in> set (segments w r x b seq sp re)"
    and "n < length (snd s)" and "snd s ! n = Ran call res"
  shows "started_of call \<in> on_record (drop (Suc n) (snd s)) \<and> StopAsked True \<notin> set (drop (Suc n) (snd s))"
  using segment_allowed [OF assms(1-3)] assms(4) by (simp add: was_stopped_def)

theorem tools_run_only_on_record_witness:
  "\<exists>call res. snd sample_run ! 5 = Ran call res \<and> started_of call \<in> on_record (drop 6 (snd sample_run))"
proof -
  obtain call res where q: "5 < length (snd sample_run)" "snd sample_run ! 5 = Ran call res"
    using sample_run_nth(2) by blast
  from tools_run_only_on_record [OF sample_answers sample_segments(1) q] q(2) show ?thesis by auto
qed



section \<open>What is told, and a log that cannot be written\<close>

text \<open>C14: no ending is told that the log does not hold: a watcher hears an ending only right after the write
  that carried it, the very event the log took, and where the log refused it only as a failure.
\<close>

theorem endings_are_told_as_written:
  assumes "answers_calls w" and "s \<in> set (segments w r x b seq sp re)"
    and "n < length (snd s)" and "snd s ! n = Told es" and "e \<in> set es" and "ends_run e"
  shows "\<exists>es' spent written older. drop (Suc n) (snd s) = Wrote es' spent written # older \<and>
    (written = None \<longrightarrow> e \<in> set es') \<and> (written \<noteq> None \<longrightarrow> ev_type e = EvRunError)"
proof -
  have "may_tell es (drop (Suc n) (snd s))" using segment_allowed [OF assms(1-3)] assms(4) by simp
  moreover have "endings es \<noteq> 0" using assms(5,6) by (auto simp: endings_zero_iff)
  ultimately show ?thesis
    using assms(5,6) by (auto simp: may_tell_def ends_run_def split: list.splits act.splits option.splits)
qed

definition watched_world :: world where
  "watched_world = sample_world\<lparr>w_tools := False, w_sink := True, w_door := \<lambda>tr r. Some (Inr [Some (Inr (DText ''Hi''))])\<rparr>"

abbreviation sample_watched :: "event list \<times> act list" where
  "sample_watched \<equiv> run_conversation_within watched_world sample_request sample_context sample_budget []"

lemma sample_watched_eq:
  "sample_watched = converse watched_world sample_request (projection_new ''t'' ''r'' 1) sample_carried []"
  by (simp add: run_conversation_within_def sample_context_def carried_default_def sample_carried_def)

definition first_told :: "event list \<times> act list \<Rightarrow> event_type list" where
  "first_told s = (case s of (es, tr) \<Rightarrow> case tr of Told es # _ \<Rightarrow> map ev_type es | _ \<Rightarrow> [])"

lemma sample_watched_acts: "first_told sample_watched = [EvTextMessageEnd, EvCustom, EvRunFinished]"
  unfolding sample_watched_eq by code_simp

theorem endings_are_told_as_written_witness:
  "\<exists>es e es' spent written older. snd sample_watched = Told es # Wrote es' spent written # older \<and>
     e \<in> set es \<and> ev_type e = EvRunFinished \<and> (written = None \<longrightarrow> e \<in> set es')"
proof -
  obtain es rest where t: "snd sample_watched = Told es # rest" and m: "map ev_type es = [EvTextMessageEnd, EvCustom, EvRunFinished]"
    using sample_watched_acts by (cases sample_watched) (auto simp: first_told_def split: list.splits act.splits)
  define e where "e = last es"
  have e: "e \<in> set es" "ev_type e = EvRunFinished" using m by (auto simp: e_def map_eq_Cons_conv)
  have "answers_calls watched_world"
    by (simp add: answers_calls_def watched_world_def sample_world_def result_ok_def)
  moreover have "sample_watched \<in> set (segments watched_world sample_request sample_context sample_budget 0 spent_default sample_resumption)"
    by (simp add: segments_def)
  moreover have "0 < length (snd sample_watched)" "snd sample_watched ! 0 = Told es" "drop (Suc 0) (snd sample_watched) = rest"
    by (simp_all add: t)
  ultimately show ?thesis
    using endings_are_told_as_written [of watched_world sample_watched sample_request sample_context sample_budget 0
        spent_default sample_resumption 0 es e] e t by (auto simp: ends_run_def)
qed

text \<open>Closing a run writes, tells and asks for a Stop, and does nothing else.\<close>

fun closing_act :: "act \<Rightarrow> bool" where
  "closing_act (Asked r) = False"
| "closing_act (Starting ts e) = False"
| "closing_act (Ran call r) = False"
| "closing_act _ = True"

definition closing_only :: "act list \<Rightarrow> act list \<Rightarrow> bool" where
  "closing_only tr tr' \<longleftrightarrow> (\<forall>a \<in> set tr'. a \<in> set tr \<or> closing_act a)"

lemma closing_only_refl [simp]: "closing_only tr tr"
  by (simp add: closing_only_def)

lemma closing_only_trans: "closing_only a b \<Longrightarrow> closing_only b c \<Longrightarrow> closing_only a c"
  by (auto simp: closing_only_def)

lemma closing_only_cons: "closing_act a \<Longrightarrow> closing_only tr tr' \<Longrightarrow> closing_only tr (a # tr')"
  by (auto simp: closing_only_def)

lemma closing_only_emit [simp]: "closing_only tr tr' \<Longrightarrow> closing_only tr (emit_live w es tr')"
  by (auto simp: emit_live_def intro: closing_only_cons)

lemma closing_only_pin:
  "pin_last_agent_shot w v shot round tr = (shot', round', tr') \<Longrightarrow> closing_only tr tr'"
  by (auto simp: pin_last_agent_shot_def split: option.splits)

lemma closing_only_prepare:
  assumes "close_prepare w ending shot (p, round, tr) = (shot', p', round', tr')"
  shows "closing_only tr tr'"
proof -
  let ?st = "case ending of
      FinishEnding (Some sentence) \<Rightarrow> if round_has_assistant_text round then (p, round, tr)
        else emit_visible_text w sentence (p, round, tr)
    | _ \<Rightarrow> (p, round, tr)"
  obtain p1 r1 t1 where st: "?st = (p1, r1, t1)" by (metis prod_cases3)
  then have "closing_only tr t1"
    by (auto simp: emit_visible_text_def split: ending.splits option.splits if_splits prod.splits)
  moreover have "closing_only t1 tr'"
    using assms st closing_only_pin
    by (cases "pinned_as ending") (auto simp: close_prepare_def split: prod.splits ending.splits option.splits)
  ultimately show ?thesis by (rule closing_only_trans)
qed

lemma closing_only_tell: "closing_only tr tr' \<Longrightarrow> closing_only tr (snd (tell_ending w p round closing written tr'))"
  by (simp add: tell_ending_def Let_def)

lemma close_run_acts: "closing_only tr (snd (close_run w t shot p round sp ending tr))"
proof -
  obtain shot1 p1 r1 t1 where prep: "close_prepare w ending shot (p, round, tr) = (shot1, p1, r1, t1)"
    by (metis prod_cases4)
  obtain es p2 t2 where fr: "closing_frames w ending p1 t1 = ((es, p2), t2)" by (metis surj_pair)
  obtain written t3 where rec: "record_round w (r1 @ timed_closing w t p2 t2 es) sp t2 = (written, t3)" by fastforce
  obtain shot2 r2 t4 where pin: "pin_last_agent_shot w EndImage shot1 r1 t3 = (shot2, r2, t4)" by (metis prod_cases3)
  obtain es' p3 where st: "pj_stopped p1 = (es', p3)" by fastforce
  obtain written' t5 where rec': "record_round w (r2 @ timed_closing w t p3 t4 es') sp t4 = (written', t5)" by fastforce
  have "t2 = t1 \<or> (\<exists>b. t2 = StopAsked b # t1)"
    using fr by (cases ending) (auto simp: closing_frames_def ask_stopped_def)
  with closing_only_prepare [OF prep] have "closing_only tr t2" by (auto intro: closing_only_cons)
  with record_roundD [OF rec] have t3: "closing_only tr t3" by (simp add: closing_only_cons)
  with closing_only_pin [OF pin] have "closing_only tr t4" by (blast intro: closing_only_trans)
  with record_roundD [OF rec'] have "closing_only tr t5" by (simp add: closing_only_cons)
  with t3 prep fr rec pin st rec' show ?thesis
    by (simp add: close_run_def Let_def closing_only_tell)
qed

lemma closing_only_all: "closing_only tr tr' \<Longrightarrow> list_all closing_act tr \<Longrightarrow> list_all closing_act tr'"
  by (auto simp: closing_only_def list_all_iff)

text \<open>A run whose opening the log does not take does no work: it asks no model, starts and runs no tool,
  and still ends, with the failure the client is told.
\<close>

theorem unwritable_run_does_nothing:
  assumes "\<forall>es. w_write w [] es None \<noteq> None"
  shows "list_all closing_act (snd (run_conversation_within w r x b [])) \<and>
    ends_run (last (fst (run_conversation_within w r x b [])))"
proof -
  let ?p = "projection_new (rx_thread_id x) (rx_run_id x) (rx_at_ms x)" and ?ca = "carried_default\<lparr>ca_budget := b\<rparr>"
  let ?c = "conv_start w r ?p ?ca []"
  obtain es p where s: "pj_start (cv_proj ?c) = (es, p)" by fastforce
  have c: "cv_tr ?c = []" "cv_all ?c = []" by (simp_all add: conv_start_def Let_def)
  define opens where "opens = (if es = [] then es
     else es @ pj_custom inference_source_name (source_said (cv_request ?c)) p #
       map (\<lambda>(name, v). pj_custom name v p) (mr_customs (cv_request ?c)))"
  from assms obtain e where e: "w_write w [] opens None = Some e" by blast
  let ?c1 = "?c\<lparr>cv_proj := p, cv_tr := emit_live w opens [Wrote opens spent_nothing (Some e)], cv_all := opens\<rparr>"
  have o: "open_run w ?c = end_run w [] (FailEnding (''the run could not be recorded: '' @ journal_error_text e)) ?c1"
    by (simp add: open_run_def record_opening_def Let_def s c opens_def [symmetric] e)
  then have "snd (converse w r ?p ?ca []) = snd (close_run w (cv_timing ?c1) (cv_last_agent_shot ?c1) p []
      (cv_round_spent ?c1) (FailEnding (''the run could not be recorded: '' @ journal_error_text e)) (cv_tr ?c1))"
    by (simp add: converse_def converse_raw_def finished_step_def end_run_def case_prod_beta)
  moreover have "list_all closing_act (cv_tr ?c1)" by (simp add: emit_live_def)
  ultimately have "list_all closing_act (snd (converse w r ?p ?ca []))"
    using closing_only_all [OF close_run_acts] by metis
  moreover have "closed w {} (2 * loop_bound b + 2) (converse w r ?p ?ca [])"
    by (intro converse_closed) (simp_all add: carried_default_def enough_def)
  ultimately show ?thesis by (simp add: run_conversation_within_def closed_def ends_once_def)
qed

theorem unwritable_run_does_nothing_witness:
  "list_all closing_act (snd (run_conversation_within (sample_world\<lparr>w_write := \<lambda>tr es sp. Some (Unwritable ''d'')\<rparr>)
     sample_request sample_context sample_budget []))"
  using unwritable_run_does_nothing [of "sample_world\<lparr>w_write := \<lambda>tr es sp. Some (Unwritable ''d'')\<rparr>"
      sample_request sample_context sample_budget] by simp

end
