(* ===== verification/Recipe.thy ===== *)
theory Recipe
  imports Json Ids BTree_Map Text_Search
begin

text \<open>
  From a taught tape to a recipe the box will run (\<open>opengrok-recipes/src/lib.rs\<close>): the parameters
  a recipe declares and how a run's values are bound to them, the placeholders in its steps, the
  filter that reads steps off a tape, the lint that keeps them runnable, and the one road from a
  tape to steps of \<open>opengrok-server/src/recipes.rs\<close>. \<open>i32\<close> and \<open>i64\<close> are \<open>int\<close>
  with the wrap-around of a release build written out; a panic is \<open>None\<close>.
\<close>

section \<open>Parameters and values\<close>

datatype parameter_kind = TextKind | NumberKind | BooleanKind

record parameter =
  pm_name :: string
  pm_description :: string
  pm_required :: bool
  pm_kind :: parameter_kind
  pm_default :: "string option"
  pm_values :: "string list option"

type_synonym bindings = "(string, string) bmap"

abbreviation tick :: string where "tick \<equiv> [CHR 0x27]"

definition is_valid_param_name :: "string \<Rightarrow> bool" where
  "is_valid_param_name n \<longleftrightarrow>
     n \<noteq> [] \<and> list_all (\<lambda>c. is_ascii_lowercase c \<or> is_ascii_digit c \<or> c = CHR ''_'') n"

text \<open>
  Whether \<open>str::parse::<f64>\<close> takes a text: an optional sign, then \<open>inf\<close>, \<open>infinity\<close> or
  \<open>nan\<close> in any case, or digits with at most one point and at least one digit about it, and an
  optional exponent.
\<close>

definition strip_sign :: "string \<Rightarrow> string" where
  "strip_sign s = (case s of c # cs \<Rightarrow> if c = CHR ''+'' \<or> c = CHR ''-'' then cs else s | [] \<Rightarrow> [])"

definition exponent_parses :: "string \<Rightarrow> bool" where
  "exponent_parses s =
     (case s of
        [] \<Rightarrow> True
      | e # q \<Rightarrow> (e = CHR ''e'' \<or> e = CHR ''E'') \<and> strip_sign q \<noteq> [] \<and> list_all is_ascii_digit (strip_sign q))"

definition f64_parses :: "string \<Rightarrow> bool" where
  "f64_parses s =
     (let t = strip_sign s;
          whole = takeWhile is_ascii_digit t;
          (part, rest) = (case dropWhile is_ascii_digit t of
             c # q \<Rightarrow> if c = CHR ''.'' then (takeWhile is_ascii_digit q, dropWhile is_ascii_digit q) else ([], c # q)
           | [] \<Rightarrow> ([], []))
      in list_ex (eq_ignore_ascii_case t) [''inf'', ''infinity'', ''nan'']
         \<or> (whole \<noteq> [] \<or> part \<noteq> []) \<and> exponent_parses rest)"

definition bad_name :: "string \<Rightarrow> string" where
  "bad_name n = ''parameter name '' @ tick @ n @ tick @
     '' must contain only lowercase letters, digits, and underscores''"

text \<open>One round of \<open>bind\<close>: what one parameter does to the values bound so far.\<close>

definition value_of_kind :: "parameter \<Rightarrow> string \<Rightarrow> string + unit" where
  "value_of_kind p v =
     (case pm_kind p of
        TextKind \<Rightarrow> Inr ()
      | NumberKind \<Rightarrow> ensure (f64_parses v) (''parameter '' @ tick @ pm_name p @ tick @ '' expects a number'')
      | BooleanKind \<Rightarrow> ensure (v = ''true'' \<or> v = ''false'')
          (''parameter '' @ tick @ pm_name p @ tick @ '' expects '' @ tick @ ''true'' @ tick @ '' or '' @
           tick @ ''false'' @ tick))"

definition value_is_listed :: "parameter \<Rightarrow> string \<Rightarrow> string + unit" where
  "value_is_listed p v =
     (case pm_values p of
        None \<Rightarrow> Inr ()
      | Some allowed \<Rightarrow> ensure (v \<in> set allowed)
          (''parameter '' @ tick @ pm_name p @ tick @ '' must be one of: '' @ join '', '' allowed))"

definition bind_one :: "parameter \<Rightarrow> bindings \<Rightarrow> string + bindings" where
  "bind_one p bound =
     (if \<not> is_valid_param_name (pm_name p) then Inl (bad_name (pm_name p))
      else case bm_get bound (pm_name p) of
          Some v \<Rightarrow>
            rbind (value_of_kind p v) (\<lambda>_.
            rbind (value_is_listed p v) (\<lambda>_. Inr bound))
        | None \<Rightarrow>
            (case pm_default p of
               Some d \<Rightarrow> Inr (bm_insert (pm_name p) d bound)
             | None \<Rightarrow>
                 if pm_required p
                 then Inl (''parameter '' @ tick @ pm_name p @ tick @ '' is required'')
                 else Inr bound))"

fun bind_all :: "parameter list \<Rightarrow> bindings \<Rightarrow> string + bindings" where
  "bind_all [] bound = Inr bound"
| "bind_all (p # ps) bound = rbind (bind_one p bound) (bind_all ps)"

definition bind :: "parameter list \<Rightarrow> bindings \<Rightarrow> string + bindings" where
  "bind ps given = bind_all ps given"

fun check_from :: "string set \<Rightarrow> parameter list \<Rightarrow> string + unit" where
  "check_from seen [] = Inr ()"
| "check_from seen (p # ps) =
     rbind (ensure (is_valid_param_name (pm_name p)) (bad_name (pm_name p))) (\<lambda>_.
     rbind (ensure (pm_name p \<notin> seen)
       (''parameter '' @ tick @ pm_name p @ tick @ '' is declared twice'')) (\<lambda>_.
     rbind (ensure (pm_values p \<noteq> Some [])
       (''parameter '' @ tick @ pm_name p @ tick @
        '' allows no values at all, so nothing could ever be given for it'')) (\<lambda>_.
     rbind (case pm_default p of
         None \<Rightarrow> Inr ()
       | Some d \<Rightarrow>
           rbind (map_err (\<lambda>why. ''the default for '' @ tick @ pm_name p @ tick @ '' is not allowed: '' @ why)
             (bind [p] [(pm_name p, d)])) (\<lambda>_. Inr ())) (\<lambda>_.
     check_from (insert (pm_name p) seen) ps))))"

definition check_parameters :: "parameter list \<Rightarrow> string + unit" where
  "check_parameters ps = check_from {} ps"

section \<open>Placeholders\<close>

text \<open>The name up to the closing braces, and what follows them if they are there.\<close>

fun placeholder :: "string \<Rightarrow> string \<times> string option" where
  "placeholder [] = ([], None)"
| "placeholder (c # cs) =
     (if c = CHR ''}'' \<and> cs \<noteq> [] \<and> hd cs = CHR ''}'' then ([], Some (tl cs))
      else (let (n, r) = placeholder cs in (c # n, r)))"

lemma placeholder_shorter: "placeholder s = (n, Some r) \<Longrightarrow> length r < length s"
proof (induction s arbitrary: n)
  case (Cons c cs)
  show ?case
  proof (cases "c = CHR ''}'' \<and> cs \<noteq> [] \<and> hd cs = CHR ''}''")
    case False
    obtain m q where "placeholder cs = (m, q)" by fastforce
    with Cons False show ?thesis by (cases "c = CHR ''}''") (auto dest!: Cons.IH)
  qed (use Cons.prems in auto)
qed simp

function substitute_placeholders :: "string \<Rightarrow> bindings \<Rightarrow> string + string" where
  "substitute_placeholders [] bound = Inr []"
| "substitute_placeholders (c # cs) bound =
     (if c = CHR ''{'' \<and> cs \<noteq> [] \<and> hd cs = CHR ''{'' then
        (case placeholder (tl cs) of
           (n, None) \<Rightarrow> Inl (''unclosed placeholder '' @ tick @ ''{{'' @ n @ tick @ '' in text'')
         | (n, Some r) \<Rightarrow>
             (case bm_get bound n of
                None \<Rightarrow> Inl (''unknown placeholder '' @ tick @ ''{{'' @ n @ ''}}'' @ tick @ '' in text'')
              | Some v \<Rightarrow> rbind (substitute_placeholders r bound) (\<lambda>t. Inr (v @ t))))
      else rbind (substitute_placeholders cs bound) (\<lambda>t. Inr (c # t)))"
  by pat_completeness auto
termination
proof (relation "measure (\<lambda>(s, b). length s)", goal_cases)
  case (2 c cs bound x n r)
  then show ?case by (cases cs) (auto dest!: placeholder_shorter [OF sym])
qed auto


text \<open>\<open>substitute\<close>, the same rule for text that is not a step.\<close>

definition substitute :: "string \<Rightarrow> bindings \<Rightarrow> string + string" where
  "substitute s bound = substitute_placeholders s bound"

section \<open>Steps\<close>

record screen =
  scr_width :: int
  scr_height :: int

definition screen_default :: screen where
  "screen_default = \<lparr>scr_width = 1280, scr_height = 800\<rparr>"

record tape_event =
  te_kind :: string
  te_x :: int
  te_y :: int
  te_button :: int
  te_dx :: int
  te_dy :: int
  te_key :: string
  te_code :: string
  te_at :: int

datatype recipe_step =
    Click int int int
  | DoubleClick int int
  | Drag int int int int
  | TypeText string
  | KeyPress string
  | Scroll int int int int
  | WaitMs nat

definition MAX_STEPS :: nat where "MAX_STEPS = 256"
definition MAX_WAIT_MS :: nat where "MAX_WAIT_MS = 10000"
definition CLICK_MS :: int where "CLICK_MS = 300"
definition CLICK_PX :: int where "CLICK_PX = 4"
definition DOUBLE_CLICK_MS :: int where "DOUBLE_CLICK_MS = 350"
definition PAUSE_MS :: int where "PAUSE_MS = 700"

fun fill_step :: "bindings \<Rightarrow> recipe_step \<Rightarrow> string + recipe_step" where
  "fill_step bound (TypeText t) = rbind (substitute_placeholders t bound) (\<lambda>f. Inr (TypeText f))"
| "fill_step bound (KeyPress k) = rbind (substitute_placeholders k bound) (\<lambda>f. Inr (KeyPress f))"
| "fill_step bound other = Inr other"

fun fill_steps :: "recipe_step list \<Rightarrow> bindings \<Rightarrow> string + recipe_step list" where
  "fill_steps [] bound = Inr []"
| "fill_steps (s # ss) bound = rbind (fill_step bound s) (\<lambda>f. rbind (fill_steps ss bound) (\<lambda>fs. Inr (f # fs)))"

section \<open>The filter\<close>

text \<open>32-bit arithmetic of a release build: it wraps around, and so does \<open>abs\<close> of the least number.\<close>

definition i32_wrap :: "int \<Rightarrow> int" where
  "i32_wrap i = (i + 2 ^ 31) mod 2 ^ 32 - 2 ^ 31"

definition i32_distance :: "int \<Rightarrow> int \<Rightarrow> int" where
  "i32_distance a b = i32_wrap \<bar>i32_wrap (a - b)\<bar>"

record wheel_burst =
  wb_x :: int
  wb_y :: int
  wb_dx :: int
  wb_dy :: int
  wb_at :: int

record filtering =
  fl_steps :: "recipe_step list"
  fl_typed :: string
  fl_last_at :: "int option"
  fl_down :: "tape_event option"
  fl_wheel :: "wheel_burst option"

definition is_modifier :: "string \<Rightarrow> bool" where
  "is_modifier k \<longleftrightarrow> k \<in> set [''Shift'', ''Control'', ''Alt'', ''Meta'', ''CapsLock'', ''Fn'', ''Hyper'', ''Super'', ''OS'']"

definition printable :: "string \<Rightarrow> string option" where
  "printable k =
     (if k = '' '' \<or> k = ''Spacebar'' then Some '' ''
      else if chars_count k = 1 then Some k
      else None)"

definition box_keys :: "(string \<times> string) list" where
  "box_keys =
     [(''Enter'', ''Return''), (''Tab'', ''Tab''), (''Escape'', ''Escape''),
      (''Backspace'', ''BackSpace''), (''Delete'', ''Delete''), (''ArrowUp'', ''Up''),
      (''ArrowDown'', ''Down''), (''ArrowLeft'', ''Left''), (''ArrowRight'', ''Right''),
      (''Home'', ''Home''), (''End'', ''End''), (''PageUp'', ''Prior''), (''PageDown'', ''Next''),
      (''F1'', ''F1''), (''F2'', ''F2''), (''F3'', ''F3''), (''F4'', ''F4''), (''F5'', ''F5''),
      (''F6'', ''F6''), (''F7'', ''F7''), (''F8'', ''F8''), (''F9'', ''F9''), (''F10'', ''F10''),
      (''F11'', ''F11''), (''F12'', ''F12'')]"

definition box_key :: "string \<Rightarrow> string option" where
  "box_key k = map_of box_keys k"

definition pause :: "int \<Rightarrow> filtering \<Rightarrow> filtering" where
  "pause at f =
     (let steps = (case fl_last_at f of
            None \<Rightarrow> fl_steps f
          | Some prev \<Rightarrow>
              (let gap = i64_wrapping_sub at prev
               in if PAUSE_MS < gap then fl_steps f @ [WaitMs (min (nat gap) MAX_WAIT_MS)] else fl_steps f))
      in f\<lparr>fl_steps := steps, fl_last_at := Some at\<rparr>)"

definition flush_typed :: "filtering \<Rightarrow> filtering" where
  "flush_typed f =
     (if fl_typed f = [] then f else f\<lparr>fl_steps := fl_steps f @ [TypeText (fl_typed f)], fl_typed := []\<rparr>)"

definition flush_wheel :: "filtering \<Rightarrow> filtering" where
  "flush_wheel f =
     (case fl_wheel f of
        None \<Rightarrow> f
      | Some w \<Rightarrow>
          (if wb_dx w \<noteq> 0 \<or> wb_dy w \<noteq> 0
           then f\<lparr>fl_steps := fl_steps f @ [Scroll (wb_x w) (wb_y w) (wb_dx w) (wb_dy w)], fl_wheel := None\<rparr>
           else f\<lparr>fl_wheel := None\<rparr>))"

text \<open>
  A click after the pause was told: whether the step before it is the first half of a double
  click. \<open>last_at\<close> is what \<open>pause\<close> left there.
\<close>

definition doubles :: "tape_event \<Rightarrow> int \<Rightarrow> filtering \<Rightarrow> (int \<times> int) option" where
  "doubles start button f =
     (if fl_steps f = [] then None
      else case last (fl_steps f) of
          Click x y previous \<Rightarrow>
            (if previous = 1 \<and> button = 1 \<and> i32_distance x (te_x start) \<le> CLICK_PX
                \<and> i32_distance y (te_y start) \<le> CLICK_PX
                \<and> (case fl_last_at f of None \<Rightarrow> False | Some prev \<Rightarrow> i64_wrapping_sub (te_at start) prev \<le> DOUBLE_CLICK_MS)
             then Some (x, y) else None)
        | _ \<Rightarrow> None)"

definition released :: "tape_event \<Rightarrow> tape_event \<Rightarrow> filtering \<Rightarrow> filtering" where
  "released start e f0 =
     (let moved = max (i32_distance (te_x e) (te_x start)) (i32_distance (te_y e) (te_y start));
          f = pause (te_at start) f0;
          steps =
            (if moved \<le> CLICK_PX \<and> i64_wrapping_sub (te_at e) (te_at start) \<le> CLICK_MS then
               (let button = (if te_button start = 2 then 3 else 1)
                in case doubles start button f of
                     Some (x, y) \<Rightarrow> butlast (fl_steps f) @ [DoubleClick x y]
                   | None \<Rightarrow> fl_steps f @ [Click (te_x start) (te_y start) button])
             else fl_steps f @ [Drag (te_x start) (te_y start) (te_x e) (te_y e)])
      in f\<lparr>fl_steps := steps, fl_last_at := Some (te_at e)\<rparr>)"

definition wheeled :: "tape_event \<Rightarrow> filtering \<Rightarrow> filtering" where
  "wheeled e f0 =
     (let f = flush_typed f0;
          fresh = (let g = pause (te_at e) (flush_wheel f)
                   in g\<lparr>fl_wheel := Some \<lparr>wb_x = te_x e, wb_y = te_y e, wb_dx = te_dx e, wb_dy = te_dy e, wb_at = te_at e\<rparr>\<rparr>);
          g = (case fl_wheel f of
                 Some w \<Rightarrow>
                   (if i64_wrapping_sub (te_at e) (wb_at w) \<le> CLICK_MS
                    then f\<lparr>fl_wheel := Some (w\<lparr>wb_dx := i32_wrap (wb_dx w + te_dx e),
                                                wb_dy := i32_wrap (wb_dy w + te_dy e), wb_at := te_at e\<rparr>)\<rparr>
                    else fresh)
               | None \<Rightarrow> fresh)
      in g\<lparr>fl_last_at := Some (te_at e)\<rparr>)"

definition key_down :: "tape_event \<Rightarrow> filtering \<Rightarrow> filtering" where
  "key_down e f0 =
     (let f = flush_wheel f0
      in if is_modifier (te_key e) then f
         else (case printable (te_key e) of
             Some t \<Rightarrow> (let g = (if fl_typed f = [] then pause (te_at e) f else f)
                        in g\<lparr>fl_typed := fl_typed g @ t, fl_last_at := Some (te_at e)\<rparr>)
           | None \<Rightarrow>
               (case box_key (te_key e) of
                  Some k \<Rightarrow> (let g = pause (te_at e) (flush_typed f)
                             in g\<lparr>fl_steps := fl_steps g @ [KeyPress k], fl_last_at := Some (te_at e)\<rparr>)
                | None \<Rightarrow> f\<lparr>fl_last_at := Some (te_at e)\<rparr>)))"

definition filter_event :: "filtering \<Rightarrow> tape_event \<Rightarrow> filtering" where
  "filter_event f e =
     (if te_kind e = ''down'' then (flush_wheel (flush_typed f))\<lparr>fl_down := Some e\<rparr>
      else if te_kind e = ''up'' then
        (case fl_down f of None \<Rightarrow> f | Some start \<Rightarrow> released start e (f\<lparr>fl_down := None\<rparr>))
      else if te_kind e = ''wheel'' then wheeled e f
      else if te_kind e = ''keydown'' then key_down e f
      else f)"

definition filtering_start :: filtering where
  "filtering_start = \<lparr>fl_steps = [], fl_typed = [], fl_last_at = None, fl_down = None, fl_wheel = None\<rparr>"

definition unclamped :: "tape_event list \<Rightarrow> recipe_step list" where
  "unclamped events = fl_steps (flush_wheel (flush_typed (foldl filter_event filtering_start events)))"

text \<open>\<open>i32::clamp\<close> panics where its bounds cross, which a screen without a pixel makes them do.\<close>

definition clamp_side :: "int \<Rightarrow> int \<Rightarrow> int option" where
  "clamp_side side v = (let hi = i32_wrap (side - 1) in if hi < 0 then None else Some (max 0 (min hi v)))"

definition clamp_point :: "screen \<Rightarrow> int \<Rightarrow> int \<Rightarrow> (int \<times> int) option" where
  "clamp_point scr x y =
     Option.bind (clamp_side (scr_width scr) x) (\<lambda>x'. map_option (Pair x') (clamp_side (scr_height scr) y))"

fun clamp_step :: "screen \<Rightarrow> recipe_step \<Rightarrow> recipe_step option" where
  "clamp_step scr (Click x y b) = map_option (\<lambda>(x, y). Click x y b) (clamp_point scr x y)"
| "clamp_step scr (DoubleClick x y) = map_option (\<lambda>(x, y). DoubleClick x y) (clamp_point scr x y)"
| "clamp_step scr (Scroll x y dx dy) = map_option (\<lambda>(x, y). Scroll x y dx dy) (clamp_point scr x y)"
| "clamp_step scr (Drag x1 y1 x2 y2) =
     Option.bind (clamp_point scr x1 y1) (\<lambda>(x1, y1).
       map_option (\<lambda>(x2, y2). Drag x1 y1 x2 y2) (clamp_point scr x2 y2))"
| "clamp_step scr (WaitMs ms) = Some (WaitMs (min ms MAX_WAIT_MS))"
| "clamp_step scr other = Some other"

fun clamp_all :: "screen \<Rightarrow> recipe_step list \<Rightarrow> recipe_step list option" where
  "clamp_all scr [] = Some []"
| "clamp_all scr (s # ss) = Option.bind (clamp_step scr s) (\<lambda>s. map_option ((#) s) (clamp_all scr ss))"

definition clamp_steps :: "recipe_step list \<Rightarrow> screen \<Rightarrow> recipe_step list option" where
  "clamp_steps steps scr = map_option (take MAX_STEPS) (clamp_all scr steps)"

definition filter_tape :: "tape_event list \<Rightarrow> screen \<Rightarrow> recipe_step list option" where
  "filter_tape events scr = clamp_steps (unclamped events) scr"

section \<open>The lint\<close>

datatype lint_error =
    LintEmpty
  | TooManySteps nat
  | OutOfScreen nat
  | WaitTooLong nat
  | EmptyText nat

fun lint_error_text :: "lint_error \<Rightarrow> string" where
  "lint_error_text LintEmpty = ''the recipe has no steps''"
| "lint_error_text (TooManySteps n) = nat_str n @ '' steps; the box takes at most '' @ nat_str MAX_STEPS"
| "lint_error_text (OutOfScreen i) = ''step '' @ nat_str i @ '' is outside the screen''"
| "lint_error_text (WaitTooLong i) = ''step '' @ nat_str i @ '' waits longer than '' @ nat_str MAX_WAIT_MS @ '' ms''"
| "lint_error_text (EmptyText i) = ''step '' @ nat_str i @ '' types nothing''"

definition inside :: "screen \<Rightarrow> int \<Rightarrow> int \<Rightarrow> bool" where
  "inside scr x y \<longleftrightarrow> 0 \<le> x \<and> x < scr_width scr \<and> 0 \<le> y \<and> y < scr_height scr"

fun lint_step :: "screen \<Rightarrow> nat \<Rightarrow> recipe_step \<Rightarrow> lint_error + unit" where
  "lint_step scr i (Click x y b) = ensure (inside scr x y) (OutOfScreen i)"
| "lint_step scr i (DoubleClick x y) = ensure (inside scr x y) (OutOfScreen i)"
| "lint_step scr i (Scroll x y dx dy) = ensure (inside scr x y) (OutOfScreen i)"
| "lint_step scr i (Drag x1 y1 x2 y2) = ensure (inside scr x1 y1 \<and> inside scr x2 y2) (OutOfScreen i)"
| "lint_step scr i (WaitMs ms) = ensure (ms \<le> MAX_WAIT_MS) (WaitTooLong i)"
| "lint_step scr i (TypeText t) = ensure (t \<noteq> []) (EmptyText i)"
| "lint_step scr i (KeyPress k) = Inr ()"

fun lint_from :: "screen \<Rightarrow> nat \<Rightarrow> recipe_step list \<Rightarrow> lint_error + unit" where
  "lint_from scr i [] = Inr ()"
| "lint_from scr i (s # ss) = rbind (lint_step scr i s) (\<lambda>_. lint_from scr (Suc i) ss)"

definition lint :: "recipe_step list \<Rightarrow> screen \<Rightarrow> lint_error + unit" where
  "lint steps scr =
     rbind (ensure (steps \<noteq> []) LintEmpty) (\<lambda>_.
     rbind (ensure (length steps \<le> MAX_STEPS) (TooManySteps (length steps))) (\<lambda>_.
       lint_from scr 0 steps))"


section \<open>What is sent and stored\<close>

fun step_json :: "recipe_step \<Rightarrow> json" where
  "step_json (Click x y b) = JObject [(''op'', JString ''click''), (''x'', JInt x), (''y'', JInt y), (''button'', JInt b)]"
| "step_json (DoubleClick x y) = JObject [(''op'', JString ''double_click''), (''x'', JInt x), (''y'', JInt y)]"
| "step_json (Drag x1 y1 x2 y2) =
     JObject [(''op'', JString ''drag''), (''x1'', JInt x1), (''y1'', JInt y1), (''x2'', JInt x2), (''y2'', JInt y2)]"
| "step_json (TypeText t) = JObject [(''op'', JString ''type''), (''text'', JString t)]"
| "step_json (KeyPress k) = JObject [(''op'', JString ''key''), (''key'', JString k)]"
| "step_json (Scroll x y dx dy) =
     JObject [(''op'', JString ''scroll''), (''x'', JInt x), (''y'', JInt y), (''dx'', JInt dx), (''dy'', JInt dy)]"
| "step_json (WaitMs ms) = JObject [(''op'', JString ''wait''), (''ms'', JInt (int ms))]"

fun parameter_kind_word :: "parameter_kind \<Rightarrow> string" where
  "parameter_kind_word TextKind = ''text''"
| "parameter_kind_word NumberKind = ''number''"
| "parameter_kind_word BooleanKind = ''boolean''"

definition parameter_json :: "parameter \<Rightarrow> json" where
  "parameter_json p =
     JObject [(''name'', JString (pm_name p)), (''description'', JString (pm_description p)),
       (''required'', JBool (pm_required p)), (''kind'', JString (parameter_kind_word (pm_kind p))),
       (''default'', case pm_default p of None \<Rightarrow> JNull | Some d \<Rightarrow> JString d),
       (''values'', case pm_values p of None \<Rightarrow> JNull | Some vs \<Rightarrow> JArray (map JString vs))]"

definition bindings_json :: "bindings \<Rightarrow> json" where
  "bindings_json b = JObject (map (\<lambda>(k, v). (k, JString v)) b)"

definition recipe_request :: "string \<Rightarrow> parameter list \<Rightarrow> recipe_step list \<Rightarrow> bindings \<Rightarrow> json" where
  "recipe_request n ps steps given =
     JObject ([(''name'', JString n), (''stop_on_error'', JBool True), (''screenshot'', JString ''end''),
       (''steps'', JArray (map step_json steps))]
       @ (if ps = [] then [] else [(''params'', JArray (map parameter_json ps))])
       @ (if given = [] then [] else [(''values'', bindings_json given)]))"

definition tape_event_json :: "tape_event \<Rightarrow> json" where
  "tape_event_json e =
     JObject [(''kind'', JString (te_kind e)), (''x'', JInt (te_x e)), (''y'', JInt (te_y e)),
       (''button'', JInt (te_button e)), (''dx'', JInt (te_dx e)), (''dy'', JInt (te_dy e)),
       (''key'', JString (te_key e)), (''code'', JString (te_code e)), (''at'', JInt (te_at e))]"

fun holds_nul :: "json \<Rightarrow> bool" where
  "holds_nul (JString t) \<longleftrightarrow> CHR 0x00 \<in> set t"
| "holds_nul (JArray vs) \<longleftrightarrow> list_ex holds_nul vs"
| "holds_nul (JObject m) \<longleftrightarrow> list_ex (\<lambda>(k, v). CHR 0x00 \<in> set k \<or> holds_nul v) m"
| "holds_nul _ \<longleftrightarrow> False"

definition MAX_RAW_BYTES :: nat where "MAX_RAW_BYTES = 5 * 1024 * 1024"

text \<open>
  The one road from a tape to steps. \<open>None\<close> is the panic of \<open>filter\<close>; a refusal is a status
  and a sentence.
\<close>

definition tape_into_steps :: "serde \<Rightarrow> tape_event list \<Rightarrow> screen \<Rightarrow> ((nat \<times> string) + json \<times> recipe_step list) option" where
  "tape_into_steps sd raw scr =
     (let v = JArray (map tape_event_json raw)
      in if MAX_RAW_BYTES < length (sd_to_string sd v)
         then Some (Inl (413, ''the tape is over 5 MB; teach a shorter task''))
         else if holds_nul v
         then Some (Inl (422, ''the tape holds a NUL character (U+0000), which cannot be stored; teach it again''))
         else map_option (\<lambda>steps.
             (case lint steps scr of
                Inl why \<Rightarrow> Inl (422, ''the tape did not filter into usable steps: '' @ lint_error_text why)
              | Inr _ \<Rightarrow> Inr (v, steps))) (filter_tape raw scr))"

section \<open>A filtered tape lints\<close>

text \<open>What \<open>lint\<close> asks of a step, whatever its index.\<close>

definition sound_step :: "screen \<Rightarrow> recipe_step \<Rightarrow> bool" where
  "sound_step scr s \<longleftrightarrow> is_ok (lint_step scr 0 s)"

lemma lint_step_ok: "lint_step scr i s = Inr u \<longleftrightarrow> sound_step scr s"
  by (cases s) (auto simp: sound_step_def is_ok_iff)

lemma lint_from_ok: "lint_from scr i ss = Inr u \<longleftrightarrow> list_all (sound_step scr) ss"
  by (induction ss arbitrary: i) (auto simp: lint_step_ok)

lemma lint_ok_iff:
  "lint ss scr = Inr u \<longleftrightarrow> ss \<noteq> [] \<and> length ss \<le> MAX_STEPS \<and> list_all (sound_step scr) ss"
  by (auto simp: lint_def lint_from_ok)

definition screen_wf :: "screen \<Rightarrow> bool" where
  "screen_wf scr \<longleftrightarrow> 0 < scr_width scr \<and> scr_width scr < 2 ^ 31 \<and> 0 < scr_height scr \<and> scr_height scr < 2 ^ 31"

lemma clamp_side_wf:
  assumes "0 < side" and "side < 2 ^ 31"
  shows "\<exists>w. clamp_side side v = Some w \<and> 0 \<le> w \<and> w < side"
proof -
  have "(side - 1 + 2 ^ 31) mod 2 ^ 32 = side - 1 + 2 ^ 31"
    using assms by (intro mod_pos_pos_trivial) auto
  then have "i32_wrap (side - 1) = side - 1" by (simp add: i32_wrap_def)
  with assms show ?thesis by (auto simp: clamp_side_def Let_def)
qed

lemma clamp_point_wf:
  assumes "screen_wf scr"
  shows "\<exists>x' y'. clamp_point scr x y = Some (x', y') \<and> inside scr x' y'"
  using assms clamp_side_wf [of "scr_width scr" x] clamp_side_wf [of "scr_height scr" y]
  by (auto simp: screen_wf_def clamp_point_def inside_def)

lemma clamp_step_wf:
  assumes "screen_wf scr" and "s \<noteq> TypeText []"
  shows "\<exists>t. clamp_step scr s = Some t \<and> sound_step scr t"
proof (cases s)
  case (Drag x1 y1 x2 y2)
  then show ?thesis
    using clamp_point_wf [OF assms(1), of x1 y1] clamp_point_wf [OF assms(1), of x2 y2]
    by (auto simp: sound_step_def)
next
  case (Click x y b)
  then show ?thesis using clamp_point_wf [OF assms(1), of x y] by (auto simp: sound_step_def)
next
  case (DoubleClick x y)
  then show ?thesis using clamp_point_wf [OF assms(1), of x y] by (auto simp: sound_step_def)
next
  case (Scroll x y dx dy)
  then show ?thesis using clamp_point_wf [OF assms(1), of x y] by (auto simp: sound_step_def)
qed (use assms in \<open>auto simp: sound_step_def\<close>)

lemma clamp_all_wf:
  assumes "screen_wf scr" and "TypeText [] \<notin> set ss"
  shows "\<exists>ts. clamp_all scr ss = Some ts \<and> list_all (sound_step scr) ts \<and> length ts = length ss"
  using assms(2)
proof (induction ss)
  case (Cons s ss)
  then obtain ts where ts: "clamp_all scr ss = Some ts" "list_all (sound_step scr) ts" "length ts = length ss"
    by auto
  obtain t where "clamp_step scr s = Some t" "sound_step scr t"
    using clamp_step_wf [OF assms(1), of s] Cons.prems by auto
  with ts show ?case by simp
qed simp

text \<open>No event puts an empty text among the steps.\<close>

abbreviation types_something :: "filtering \<Rightarrow> bool" where
  "types_something f \<equiv> TypeText [] \<notin> set (fl_steps f)"

lemma types_something_start: "types_something filtering_start"
  by (simp add: filtering_start_def)

lemma types_something_pause: "types_something f \<Longrightarrow> types_something (pause at f)"
  by (auto simp: pause_def Let_def split: option.splits)

lemma types_something_flush_typed: "types_something f \<Longrightarrow> types_something (flush_typed f)"
  by (auto simp: flush_typed_def)

lemma types_something_flush_wheel: "types_something f \<Longrightarrow> types_something (flush_wheel f)"
  by (auto simp: flush_wheel_def split: option.splits)

lemmas types_something_flushes =
  types_something_pause types_something_flush_typed types_something_flush_wheel

lemma types_something_released: "types_something f \<Longrightarrow> types_something (released start e f)"
  using types_something_pause [of f "te_at start"]
  by (auto simp: released_def Let_def split: option.splits dest: in_set_butlastD)

lemma types_something_wheeled: "types_something f \<Longrightarrow> types_something (wheeled e f)"
  by (auto simp: wheeled_def Let_def types_something_flushes split: option.splits)

lemma types_something_key_down: "types_something f \<Longrightarrow> types_something (key_down e f)"
  by (auto simp: key_down_def Let_def types_something_flushes split: option.splits)

lemma types_something_event: "types_something f \<Longrightarrow> types_something (filter_event f e)"
  by (auto simp: filter_event_def types_something_flushes types_something_released
      types_something_wheeled types_something_key_down split: option.splits)

lemma types_something_foldl: "types_something f \<Longrightarrow> types_something (foldl filter_event f es)"
  by (induction es arbitrary: f) (auto simp: types_something_event)

lemma unclamped_types_something: "TypeText [] \<notin> set (unclamped es)"
  by (simp add: unclamped_def types_something_flushes types_something_foldl types_something_start)

lemma filter_tape_wf:
  assumes "screen_wf scr"
  shows "\<exists>ss. filter_tape es scr = Some ss \<and> list_all (sound_step scr) ss \<and> length ss \<le> MAX_STEPS
    \<and> (ss = [] \<longleftrightarrow> unclamped es = [])"
proof -
  obtain ts where "clamp_all scr (unclamped es) = Some ts" "list_all (sound_step scr) ts"
      "length ts = length (unclamped es)"
    using clamp_all_wf [OF assms unclamped_types_something] by auto
  then show ?thesis
    by (auto simp: filter_tape_def clamp_steps_def list_all_iff MAX_STEPS_def dest: in_set_takeD)
qed

text \<open>C26: on a screen that has pixels a tape never panics the server, and what is read off it is what the
  box takes: every click, drag and scroll inside the screen, no wait over ten seconds, nothing
  typed that is empty, no more steps than the box allows. A tape is refused only for its size, for a
  NUL in it, or because nothing was done on it.
\<close>

theorem tape_steps_are_runnable:
  assumes "screen_wf scr"
  shows "\<exists>r. tape_into_steps sd raw scr = Some r \<and>
    (case r of
       Inr (v, steps) \<Rightarrow> lint steps scr = Inr () \<and> v = JArray (map tape_event_json raw) \<and> filter_tape raw scr = Some steps
     | Inl (status, why) \<Rightarrow>
         MAX_RAW_BYTES < length (sd_to_string sd (JArray (map tape_event_json raw))) \<and> status = 413
         \<or> holds_nul (JArray (map tape_event_json raw)) \<and> status = 422
         \<or> unclamped raw = [] \<and> status = 422)"
proof -
  obtain ss where ss: "filter_tape raw scr = Some ss" "list_all (sound_step scr) ss" "length ss \<le> MAX_STEPS"
      "ss = [] \<longleftrightarrow> unclamped raw = []"
    using filter_tape_wf [OF assms] by blast
  have "lint ss scr = (if ss = [] then Inl LintEmpty else Inr ())"
    using ss by (cases "lint ss scr") (auto simp: lint_def result_simps lint_from_ok)
  with ss show ?thesis by (auto simp: tape_into_steps_def Let_def)
qed


section \<open>What the filter gets wrong\<close>

text \<open>
  A screen without a pixel, which a request may name, makes the clamp of the first pointer step
  panic: \<open>i32::clamp\<close> asserts its bounds.
\<close>

fun points :: "recipe_step \<Rightarrow> bool" where
  "points (TypeText t) = False"
| "points (KeyPress k) = False"
| "points (WaitMs ms) = False"
| "points _ = True"

lemma clamp_all_panics: "s \<in> set ss \<Longrightarrow> clamp_step scr s = None \<Longrightarrow> clamp_all scr ss = None"
  by (induction ss) (auto split: bind_splits)

lemma clamp_step_panics: "clamp_side (scr_width scr) = (\<lambda>v. None) \<Longrightarrow> points s \<Longrightarrow> clamp_step scr s = None"
  by (cases s) (simp_all add: clamp_point_def)

theorem pixelless_screen_panics:
  assumes "- (2 ^ 31) < scr_width scr" and "scr_width scr \<le> 0" and "list_ex points (unclamped es)"
  shows "filter_tape es scr = None"
proof -
  have "(scr_width scr - 1 + 2 ^ 31) mod 2 ^ 32 = scr_width scr - 1 + 2 ^ 31"
    using assms by (intro mod_pos_pos_trivial) auto
  then have "clamp_side (scr_width scr) = (\<lambda>v. None)"
    using assms by (auto simp: clamp_side_def i32_wrap_def Let_def)
  then have "clamp_all scr (unclamped es) = None"
    using assms(3) by (auto simp: list_ex_iff intro: clamp_all_panics clamp_step_panics)
  then show ?thesis by (simp add: filter_tape_def clamp_steps_def)
qed

text \<open>
  \<open>pause\<close> sets \<open>last_at\<close> to the second press before the double click is looked for, so the
  guard on \<open>DOUBLE_CLICK_MS\<close> compares that press with itself: any two clicks on one spot that
  are not a whole pause apart are read as a double click.
\<close>

lemma distance_self [simp]: "i32_distance a a = 0"
  by (simp add: i32_distance_def i32_wrap_def)

theorem double_click_guard_is_dead:
  assumes "fl_steps f \<noteq> []" and "last (fl_steps f) = Click x y 1" and "fl_last_at f = Some prev"
    and "i64_wrapping_sub (te_at start) prev \<le> PAUSE_MS" and "te_button start \<noteq> 2"
    and "te_x start = x" and "te_y start = y" and "te_x e = x" and "te_y e = y"
    and "i64_wrapping_sub (te_at e) (te_at start) \<le> CLICK_MS"
  shows "fl_steps (released start e f) = butlast (fl_steps f) @ [DoubleClick x y]"
  using assms
  by (simp add: released_def pause_def Let_def doubles_def i64_wrapping_sub_def DOUBLE_CLICK_MS_def CLICK_PX_def)

section \<open>Binding is exact\<close>

definition fits :: "parameter \<Rightarrow> string \<Rightarrow> bool" where
  "fits p v \<longleftrightarrow>
     (case pm_kind p of TextKind \<Rightarrow> True | NumberKind \<Rightarrow> f64_parses v | BooleanKind \<Rightarrow> v \<in> {''true'', ''false''})
     \<and> (case pm_values p of None \<Rightarrow> True | Some allowed \<Rightarrow> v \<in> set allowed)"

lemma fits_iff: "fits p v \<longleftrightarrow> value_of_kind p v = Inr () \<and> value_is_listed p v = Inr ()"
  by (auto simp: fits_def value_of_kind_def value_is_listed_def split: parameter_kind.splits option.splits)

text \<open>What a run ends up with for a parameter: what was given, else the default.\<close>

definition supplied :: "parameter \<Rightarrow> bindings \<Rightarrow> string option" where
  "supplied p given = (case bm_get given (pm_name p) of Some v \<Rightarrow> Some v | None \<Rightarrow> pm_default p)"

definition declared_default :: "parameter list \<Rightarrow> string \<Rightarrow> string option" where
  "declared_default ps k = Option.bind (find (\<lambda>p. pm_name p = k) ps) pm_default"

lemma check_from_ok:
  "check_from seen ps = Inr () \<longleftrightarrow>
     distinct (map pm_name ps) \<and> seen \<inter> pm_name ` set ps = {} \<and>
     (\<forall>p\<in>set ps. is_valid_param_name (pm_name p) \<and> pm_values p \<noteq> Some [] \<and>
        (\<forall>d. pm_default p = Some d \<longrightarrow> fits p d))"
proof (induction ps arbitrary: seen)
  case (Cons p ps)
  define default_ok where "default_ok =
      (case pm_default p of None \<Rightarrow> Inr ()
       | Some d \<Rightarrow>
           rbind (map_err (\<lambda>why. ''the default for '' @ tick @ pm_name p @ tick @ '' is not allowed: '' @ why)
             (bind [p] [(pm_name p, d)])) (\<lambda>_. Inr ()))"
  have "is_valid_param_name (pm_name p) \<Longrightarrow>
      default_ok = Inr () \<longleftrightarrow> (\<forall>d. pm_default p = Some d \<longrightarrow> fits p d)"
    by (auto simp: default_ok_def bind_def bind_one_def bm_get_def fits_iff split: option.splits)
  moreover have "check_from seen (p # ps) = Inr () \<longleftrightarrow>
      is_valid_param_name (pm_name p) \<and> pm_name p \<notin> seen \<and> pm_values p \<noteq> Some [] \<and>
      default_ok = Inr () \<and> check_from (insert (pm_name p) seen) ps = Inr ()"
    by (simp add: default_ok_def)
  ultimately show ?case
    unfolding Cons.IH by auto
qed simp

lemmas check_parameters_ok = check_from_ok [of "{}", folded check_parameters_def, simplified]

lemma bind_one_ok:
  "is_valid_param_name (pm_name p) \<Longrightarrow> bind_one p bound = Inr b \<longleftrightarrow>
     (case bm_get bound (pm_name p) of
        Some v \<Rightarrow> fits p v \<and> b = bound
      | None \<Rightarrow> (case pm_default p of Some d \<Rightarrow> b = bm_insert (pm_name p) d bound | None \<Rightarrow> \<not> pm_required p \<and> b = bound))"
  by (auto simp: bind_one_def fits_iff split: option.splits)

lemma names_differ: "distinct (map pm_name (p # ps)) \<Longrightarrow> \<forall>q\<in>set ps. pm_name q \<noteq> pm_name p"
  by (auto simp: image_iff)

lemma bind_all_get:
  assumes "bind_all ps given = Inr b" and "bm_ordered given"
    and "list_all (\<lambda>p. is_valid_param_name (pm_name p)) ps" and "distinct (map pm_name ps)"
  shows "bm_get b = declared_default ps ++ bm_get given"
  using assms
proof (induction ps arbitrary: given)
  case Nil
  then show ?case by (auto simp: declared_default_def fun_eq_iff map_add_def split: option.splits)
next
  case (Cons p ps)
  then obtain g where g: "bind_one p given = Inr g" "bind_all ps g = Inr b" by auto
  have g_cases: "g = given \<and> (bm_get given (pm_name p) \<noteq> None \<or> pm_default p = None)
      \<or> (\<exists>d. pm_default p = Some d \<and> bm_get given (pm_name p) = None \<and> g = bm_insert (pm_name p) d given)"
    using g(1) Cons.prems(3) by (auto simp: bind_one_ok split: option.splits)
  then have "bm_ordered g" using Cons.prems(2) by (auto simp: bm_ordered_insert)
  then have "bm_get b = declared_default ps ++ bm_get g"
    using Cons.IH [OF g(2)] Cons.prems(3,4) by simp
  moreover have "find (\<lambda>q. pm_name q = pm_name p) ps = None"
    using names_differ [OF Cons.prems(4)] by (simp add: find_None_iff)
  ultimately have "bm_get b = declared_default (p # ps) ++ bm_get given"
    using g_cases Cons.prems(2)
    by (auto simp: bm_get_insert declared_default_def fun_eq_iff map_add_def split: option.splits)
  then show ?case .
qed

lemma bind_all_is_ok:
  assumes "bm_ordered given" and "list_all (\<lambda>p. is_valid_param_name (pm_name p)) ps"
    and "distinct (map pm_name ps)"
  shows "is_ok (bind_all ps given) \<longleftrightarrow>
    (\<forall>p\<in>set ps. case bm_get given (pm_name p) of Some v \<Rightarrow> fits p v | None \<Rightarrow> pm_default p \<noteq> None \<or> \<not> pm_required p)"
  using assms
proof (induction ps arbitrary: given)
  case (Cons p ps)
  let ?ok = "\<lambda>given p. case bm_get given (pm_name p) of Some v \<Rightarrow> fits p v | None \<Rightarrow> pm_default p \<noteq> None \<or> \<not> pm_required p"
  have first_ok: "is_ok (bind_one p given) \<longleftrightarrow> ?ok given p"
    using Cons.prems(2) by (cases "pm_default p") (auto simp: is_ok_iff bind_one_ok split: option.splits)
  have rest: "bind_one p given = Inr g \<Longrightarrow> is_ok (bind_all ps g) \<longleftrightarrow> (\<forall>q\<in>set ps. ?ok given q)" for g
  proof -
    assume g: "bind_one p given = Inr g"
    have "g = given \<or> (\<exists>d. g = bm_insert (pm_name p) d given)"
      using g Cons.prems(2) by (auto simp: bind_one_ok split: option.splits)
    then have "bm_ordered g" and "\<forall>q\<in>set ps. bm_get g (pm_name q) = bm_get given (pm_name q)"
      using Cons.prems names_differ [OF Cons.prems(3)] by (auto simp: bm_ordered_insert bm_get_insert)
    then show ?thesis using Cons.IH [of g] Cons.prems by (auto split: option.splits)
  qed
  show ?case
  proof (cases "bind_one p given")
    case (Inl e)
    then show ?thesis using first_ok by auto
  next
    case (Inr g)
    then show ?thesis using first_ok rest [OF Inr] by auto
  qed
qed simp

text \<open>For a declaration that passed \<open>check\<close>, a run is allowed exactly when every parameter ends up
  with a value its kind and its list allow, or has none and is not required; and what is bound is
  what was given, with the declared defaults where nothing was. Nothing given is ever replaced.
\<close>

theorem binding_is_exact:
  assumes "check_parameters ps = Inr ()" and "bm_ordered given"
  shows "(is_ok (bind ps given) \<longleftrightarrow>
      (\<forall>p\<in>set ps. case supplied p given of Some v \<Rightarrow> fits p v | None \<Rightarrow> \<not> pm_required p)) \<and>
    (\<forall>b. bind ps given = Inr b \<longrightarrow> bm_get b = declared_default ps ++ bm_get given)"
proof (intro conjI allI impI)
  have checked: "distinct (map pm_name ps)" "list_all (\<lambda>p. is_valid_param_name (pm_name p)) ps"
      "\<And>p d. p \<in> set ps \<Longrightarrow> pm_default p = Some d \<Longrightarrow> fits p d"
    using assms(1) by (auto simp: check_parameters_ok list_all_iff)
  show "is_ok (bind ps given) \<longleftrightarrow>
      (\<forall>p\<in>set ps. case supplied p given of Some v \<Rightarrow> fits p v | None \<Rightarrow> \<not> pm_required p)"
    unfolding bind_def bind_all_is_ok [OF assms(2) checked(2,1)] supplied_def
    using checked(3) by (force split: option.splits)
  show "bm_get b = declared_default ps ++ bm_get given" if "bind ps given = Inr b" for b
    using that bind_all_get assms(2) checked(1,2) by (simp add: bind_def)
qed

section \<open>Substitution is what the template says\<close>

text \<open>
  A text as pieces: a character that begins no placeholder, or a placeholder by its name. The
  names are those up to the first closing braces.
\<close>

datatype piece = Plain char | Hole string

inductive template :: "string \<Rightarrow> piece list \<Rightarrow> bool" where
  template_end: "template [] []"
| template_plain: "template s ps \<Longrightarrow> \<not> starts_with ''{{'' (c # s) \<Longrightarrow> template (c # s) (Plain c # ps)"
| template_hole: "template s ps \<Longrightarrow> \<not> contains_str ''}}'' (n @ ''}'') \<Longrightarrow>
    template (''{{'' @ n @ ''}}'' @ s) (Hole n # ps)"

fun piece_text :: "bindings \<Rightarrow> piece \<Rightarrow> string option" where
  "piece_text bound (Plain c) = Some [c]"
| "piece_text bound (Hole n) = bm_get bound n"

lemma placeholder_Some:
  "placeholder s = (n, Some r) \<longleftrightarrow> s = n @ ''}}'' @ r \<and> \<not> contains_str ''}}'' (n @ ''}'')"
proof (induction s arbitrary: n)
  case (Cons c s)
  show ?case
  proof (cases n)
    case Nil
    then show ?thesis
      by (cases s) (auto simp: starts_with_def split: prod.splits)
  next
    case (Cons d m)
    have "placeholder (c # s) = (n, Some r) \<longleftrightarrow>
        \<not> (c = CHR ''}'' \<and> s \<noteq> [] \<and> hd s = CHR ''}'') \<and> d = c \<and> placeholder s = (m, Some r)"
      using Cons by (auto split: prod.splits)
    moreover have "s = m @ ''}}'' @ r \<Longrightarrow> starts_with ''}}'' (c # m @ ''}'') \<longleftrightarrow> c = CHR ''}'' \<and> hd s = CHR ''}''"
      by (cases m) (auto simp: starts_with_def)
    ultimately show ?thesis
      using Cons Cons.IH [of m] by auto
  qed
qed simp


lemma opens_iff: "starts_with ''{{'' (c # s) \<longleftrightarrow> c = CHR ''{'' \<and> s \<noteq> [] \<and> hd s = CHR ''{''"
  by (cases s) (auto simp: starts_with_def)

lemma those_Cons_Some: "those (x # xs) = Some ys \<longleftrightarrow> (\<exists>y zs. x = Some y \<and> those xs = Some zs \<and> ys = y # zs)"
  by (auto split: option.splits)

lemma substitute_template:
  "template s ps \<Longrightarrow> those (map (piece_text b) ps) = Some ts \<Longrightarrow> substitute_placeholders s b = Inr (concat ts)"
proof (induction s ps arbitrary: ts rule: template.induct)
  case (template_plain s ps c)
  then show ?case by (auto simp: opens_iff those_Cons_Some simp del: those.simps)
next
  case (template_hole s ps n)
  have "placeholder (n @ ''}}'' @ s) = (n, Some s)"
    using template_hole.hyps by (simp add: placeholder_Some)
  then show ?case using template_hole by (auto simp: those_Cons_Some simp del: those.simps)
qed simp

lemma substitute_is_template:
  "substitute_placeholders s b = Inr t \<Longrightarrow>
     \<exists>ps ts. template s ps \<and> those (map (piece_text b) ps) = Some ts \<and> t = concat ts"
proof (induction s b arbitrary: t rule: substitute_placeholders.induct)
  case (1 b)
  have "template [] []" by (rule template_end)
  then show ?case using 1 by (intro exI [of _ "[]"]) auto
next
  case (2 c cs b)
  show ?case
  proof (cases "c = CHR ''{'' \<and> cs \<noteq> [] \<and> hd cs = CHR ''{''")
    case True
    obtain n q where nq: "placeholder (tl cs) = (n, q)" by fastforce
    obtain r v u where hole: "q = Some r" "bm_get b n = Some v" "substitute_placeholders r b = Inr u" "t = v @ u"
      using 2(3) True nq by (auto split: option.splits)
    obtain ps ts where "template r ps" "those (map (piece_text b) ps) = Some ts" "u = concat ts"
      using 2(1) [OF True nq [symmetric] _ hole(2) hole(3)] hole(1) by auto
    moreover have "tl cs = n @ ''}}'' @ r" "\<not> contains_str ''}}'' (n @ ''}'')"
      using nq hole(1) by (auto simp: placeholder_Some)
    moreover have "c # cs = ''{{'' @ tl cs" using True by (cases cs) auto
    ultimately have "template (c # cs) (Hole n # ps)" "those (map (piece_text b) (Hole n # ps)) = Some (v # ts)"
        "t = concat (v # ts)"
      using hole template_hole [of r ps n] by auto
    then show ?thesis by blast
  next
    case False
    then obtain u where u: "substitute_placeholders cs b = Inr u" "t = c # u" using 2(3) by auto
    obtain ps ts where "template cs ps" "those (map (piece_text b) ps) = Some ts" "u = concat ts"
      using 2(2) [OF False u(1)] by auto
    then have "template (c # cs) (Plain c # ps)" "those (map (piece_text b) (Plain c # ps)) = Some ([c] # ts)"
        "t = concat ([c] # ts)"
      using False u template_plain [of cs ps c] by (auto simp: opens_iff)
    then show ?thesis by blast
  qed
qed

text \<open>C35: filling a text in succeeds exactly when every placeholder in it is closed and bound, and the
  result is the text with each replaced by its value, read once from the left: nothing else of the
  text changes, and no placeholder is left in place.
\<close>

theorem substitution_is_the_template:
  "substitute s b = Inr t \<longleftrightarrow>
     (\<exists>ps ts. template s ps \<and> those (map (piece_text b) ps) = Some ts \<and> t = concat ts)"
  using substitute_template substitute_is_template by (auto simp: substitute_def)

text \<open>The pieces of a text are unique, so the value is too.\<close>

lemma template_unique: "template s ps \<Longrightarrow> template s qs \<Longrightarrow> ps = qs"
proof (induction s ps arbitrary: qs rule: template.induct)
  case template_end
  then show ?case by (cases rule: template.cases) auto
next
  case (template_plain s ps c)
  note outer = template_plain
  from outer(4) show ?case
  proof (cases rule: template.cases)
    case (template_plain ps')
    with outer(3) show ?thesis by simp
  next
    case (template_hole s' ps' n')
    with outer(2) show ?thesis by (simp add: opens_iff)
  qed
next
  case (template_hole s ps n)
  note outer = template_hole
  from outer(4) show ?case
  proof (cases rule: template.cases)
    case (template_plain s' ps' c')
    then show ?thesis by (auto simp: opens_iff)
  next
    case (template_hole s' ps' n')
    then have "placeholder (n @ ''}}'' @ s) = (n, Some s)" "placeholder (n @ ''}}'' @ s) = (n', Some s')"
      using outer(2) by (simp_all add: placeholder_Some)
    then show ?thesis using template_hole outer(3) by auto
  qed simp
qed


section \<open>Samples\<close>

definition sample_tape :: "tape_event list" where
  "sample_tape =
     (let e = \<lparr>te_kind = ''down'', te_x = 1300, te_y = 62, te_button = 0, te_dx = 0, te_dy = 0,
               te_key = [], te_code = [], te_at = 100\<rparr>
      in [e, e\<lparr>te_kind := ''up'', te_at := 180\<rparr>, e\<lparr>te_kind := ''keydown'', te_key := ''a'', te_at := 400\<rparr>,
          e\<lparr>te_kind := ''keydown'', te_key := ''Enter'', te_at := 500\<rparr>])"

definition sample_serde :: serde where
  "sample_serde = \<lparr>sd_from_str = (\<lambda>_. None), sd_to_string = (\<lambda>_. ''[]'')\<rparr>"

theorem tape_steps_are_runnable_witness:
  "filter_tape sample_tape screen_default = Some [Click 1279 62 1, TypeText ''a'', KeyPress ''Return''] \<and>
   lint [Click 1279 62 1, TypeText ''a'', KeyPress ''Return''] screen_default = Inr () \<and>
   (\<exists>r. tape_into_steps sample_serde sample_tape screen_default = Some r)"
proof -
  have steps: "filter_tape sample_tape screen_default = Some [Click 1279 62 1, TypeText ''a'', KeyPress ''Return'']"
    by code_simp
  have clean: "\<not> holds_nul (JArray (map tape_event_json sample_tape))" "unclamped sample_tape \<noteq> []" by code_simp+
  have "screen_wf screen_default" by (simp add: screen_wf_def screen_default_def)
  note runnable = tape_steps_are_runnable [OF this, of sample_serde sample_tape]
  then obtain r where r: "tape_into_steps sample_serde sample_tape screen_default = Some r" by blast
  show ?thesis
  proof (cases r)
    case (Inl refusal)
    with runnable r clean show ?thesis
      by (cases refusal) (simp add: sample_serde_def MAX_RAW_BYTES_def)
  next
    case (Inr kept)
    with runnable r steps show ?thesis by (cases kept) simp
  qed
qed

definition sample_parameters :: "parameter list" where
  "sample_parameters =
     [\<lparr>pm_name = ''term'', pm_description = [], pm_required = True, pm_kind = TextKind, pm_default = None, pm_values = None\<rparr>,
      \<lparr>pm_name = ''count'', pm_description = [], pm_required = False, pm_kind = NumberKind, pm_default = Some ''1e3'', pm_values = None\<rparr>]"

theorem binding_is_exact_witness:
  "check_parameters sample_parameters = Inr () \<and>
   is_ok (bind sample_parameters [(''term'', ''rust'')]) \<and> \<not> is_ok (bind sample_parameters []) \<and>
   (\<forall>b. bind sample_parameters [(''term'', ''rust'')] = Inr b \<longrightarrow> bm_get b ''count'' = Some ''1e3'')"
proof -
  have checked: "check_parameters sample_parameters = Inr ()" by code_simp
  have ordered: "bm_ordered [(''term'', ''rust'')]" "bm_ordered ([] :: bindings)" by (simp_all add: bm_ordered_def)
  have "declared_default sample_parameters ''count'' = Some ''1e3''" "bm_get [(''term'', ''rust'')] ''count'' = None"
    by code_simp+
  moreover have "list_all (\<lambda>p. case supplied p [(''term'', ''rust'')] of Some v \<Rightarrow> fits p v | None \<Rightarrow> \<not> pm_required p) sample_parameters"
      "\<not> list_all (\<lambda>p. case supplied p [] of Some v \<Rightarrow> fits p v | None \<Rightarrow> \<not> pm_required p) sample_parameters"
    by code_simp+
  ultimately show ?thesis
    using checked binding_is_exact [OF checked ordered(1)] binding_is_exact [OF checked ordered(2)]
    by (auto simp: list_all_iff map_add_def)
qed

theorem pixelless_screen_panics_witness:
  "filter_tape sample_tape \<lparr>scr_width = 0, scr_height = 800\<rparr> = None"
proof -
  have "list_ex points (unclamped sample_tape)" by code_simp
  then show ?thesis using pixelless_screen_panics [of "\<lparr>scr_width = 0, scr_height = 800\<rparr>" sample_tape] by simp
qed

end
