(* ===== verification/Observe.thy ===== *)
theory Observe
  imports Recipe Model_Door
begin

text \<open>
  What the box saw while a recipe played (\<open>opengrok-recipes/src/observe.rs\<close>): asking for it,
  reading it back from a receipt, the words a model reads and the facts a workflow tests, and what
  may be kept of a receipt.
\<close>

section \<open>The level\<close>

datatype observe = ObserveOff | ObserveInput | ObservePage

fun observe_word :: "observe \<Rightarrow> string" where
  "observe_word ObserveOff = ''off''"
| "observe_word ObserveInput = ''input''"
| "observe_word ObservePage = ''page''"

definition observe_read :: "string \<Rightarrow> observe option" where
  "observe_read w =
     (if trim w = ''off'' then Some ObserveOff
      else if trim w = ''input'' then Some ObserveInput
      else if trim w = ''page'' then Some ObservePage
      else None)"

lemma observe_words_trimmed: "trim (observe_word l) = observe_word l"
proof -
  have "trim ''off'' = ''off''" "trim ''input'' = ''input''" "trim ''page'' = ''page''" by code_simp+
  then show ?thesis by (cases l) simp_all
qed

interpretation observe_code: word_code observe_word observe_read
proof unfold_locales
  show "observe_read (observe_word l) = Some l" for l
    unfolding observe_read_def observe_words_trimmed by (cases l) simp_all
qed

text \<open>\<open>wanted\<close>: what the deployment's variable says, \<open>input\<close> where it is unset or unknown.\<close>

definition wanted :: "string option \<Rightarrow> observe" where
  "wanted var =
     (case var of None \<Rightarrow> ObserveInput
      | Some w \<Rightarrow> (case observe_read w of Some l \<Rightarrow> l | None \<Rightarrow> ObserveInput))"

definition ask :: "json \<Rightarrow> observe \<Rightarrow> json" where
  "ask request level =
     (if level = ObserveOff then request
      else case request of
          JObject m \<Rightarrow> JObject (jm_insert ''observe'' (JString (observe_word level)) m)
        | v \<Rightarrow> v)"

section \<open>Reading a receipt\<close>

definition WORD_CHARS :: nat where "WORD_CHARS = 160"
definition URL_CHARS :: nat where "URL_CHARS = 200"
definition STEPS_LISTED :: nat where "STEPS_LISTED = 6"
definition GROUPS_LISTED :: nat where "GROUPS_LISTED = 6"
definition PAGES_LISTED :: nat where "PAGES_LISTED = 8"
definition NOTHING_NAMED :: string where "NOTHING_NAMED = ''(none)''"
definition NOT_READ :: string where "NOT_READ = ''(unread)''"

record where_group =
  wg_window :: "string option"
  wg_steps :: "nat list"

record keys_group =
  kg_state :: "string option"
  kg_window :: "string option"
  kg_steps :: "nat list"

record seen =
  sn_mode :: observe
  sn_steps :: nat
  sn_looked_at :: nat
  sn_observe_ms :: nat
  sn_targets :: "where_group list"
  sn_keys :: "keys_group list"
  sn_pages :: "string list"

definition clip_observed :: "string \<Rightarrow> nat \<Rightarrow> string" where
  "clip_observed t n =
     (if chars_count t \<le> n then t
      else take_chars n t @ ellipsis @ ''[clipped '' @ nat_str (chars_count t - n) @ '' chars]'')"

definition u64_saturating_add :: "nat \<Rightarrow> nat \<Rightarrow> nat" where
  "u64_saturating_add a b = min (a + b) (2 ^ 64 - 1)"

text \<open>A member's text, trimmed, unless that leaves nothing.\<close>

definition trimmed_text :: "json \<Rightarrow> string \<Rightarrow> string option" where
  "trimmed_text v k =
     Option.bind (str_at v k) (\<lambda>t. if trim t = [] then None else Some (trim t))"

definition window_word :: "json \<Rightarrow> string option" where
  "window_word w =
     map_option (\<lambda>t. clip_observed t WORD_CHARS)
       (case (trimmed_text w ''class'', trimmed_text w ''title'') of
          (Some c, Some t) \<Rightarrow> Some (c @ '' '' @ [CHR 0x22] @ t @ [CHR 0x22])
        | (Some c, None) \<Rightarrow> Some c
        | (None, Some t) \<Rightarrow> Some ([CHR 0x22] @ t @ [CHR 0x22])
        | (None, None) \<Rightarrow> map_option (\<lambda>i. ''window '' @ i) (trimmed_text w ''id''))"

fun add_target :: "string option \<Rightarrow> nat \<Rightarrow> where_group list \<Rightarrow> where_group list" where
  "add_target w i [] = [\<lparr>wg_window = w, wg_steps = [i]\<rparr>]"
| "add_target w i (g # gs) =
     (if wg_window g = w then g\<lparr>wg_steps := wg_steps g @ [i]\<rparr> # gs else g # add_target w i gs)"

fun add_keys :: "string option \<Rightarrow> string option \<Rightarrow> nat \<Rightarrow> keys_group list \<Rightarrow> keys_group list" where
  "add_keys st w i [] = [\<lparr>kg_state = st, kg_window = w, kg_steps = [i]\<rparr>]"
| "add_keys st w i (g # gs) =
     (if kg_state g = st \<and> kg_window g = w then g\<lparr>kg_steps := kg_steps g @ [i]\<rparr> # gs
      else g # add_keys st w i gs)"

definition add_page :: "json \<Rightarrow> string list \<Rightarrow> string \<Rightarrow> string list" where
  "add_page observed pages field =
     (case trimmed_text observed field of
        None \<Rightarrow> pages
      | Some url \<Rightarrow>
          (let u = clip_observed url URL_CHARS
           in if pages \<noteq> [] \<and> last pages = u then pages else pages @ [u]))"

definition cost_of :: "json \<Rightarrow> nat" where
  "cost_of observed = (case Option.bind (json_get observed ''observe_ms'') as_u64 of Some n \<Rightarrow> n | None \<Rightarrow> 0)"

definition is_keyboard :: "json \<Rightarrow> json \<Rightarrow> bool" where
  "is_keyboard st observed =
     (let op = (case str_at st ''op'' of Some w \<Rightarrow> w | None \<Rightarrow> [])
      in if op = ''type'' \<or> op = ''key'' then True
         else if op = [] then json_get observed ''focus'' \<noteq> None
         else False)"

definition see_step :: "nat \<Rightarrow> json \<Rightarrow> seen \<Rightarrow> seen" where
  "see_step position st sn =
     (case json_get st ''observed'' of
        None \<Rightarrow> sn
      | Some observed \<Rightarrow>
          (let index = (case Option.bind (json_get st ''index'') as_u64 of Some n \<Rightarrow> n | None \<Rightarrow> position);
               s1 = sn\<lparr>sn_looked_at := sn_looked_at sn + 1,
                       sn_observe_ms := u64_saturating_add (sn_observe_ms sn) (cost_of observed)\<rparr>;
               s2 = (if is_keyboard st observed
                     then (let focus = json_get observed ''focus''
                           in s1\<lparr>sn_keys := add_keys (Option.bind focus (\<lambda>f. str_at f ''state''))
                                  (Option.bind (Option.bind focus (\<lambda>f. json_get f ''window'')) window_word) index (sn_keys s1)\<rparr>)
                     else s1\<lparr>sn_targets := add_target (Option.bind (json_get observed ''target'') window_word) index (sn_targets s1)\<rparr>)
           in s2\<lparr>sn_pages := foldl (add_page observed) (sn_pages s2) [''url_before'', ''url_after'']\<rparr>))"

fun see_steps :: "nat \<Rightarrow> json list \<Rightarrow> seen \<Rightarrow> seen" where
  "see_steps i [] sn = sn"
| "see_steps i (st # sts) sn = see_steps (Suc i) sts (see_step i st sn)"

definition seen_read :: "json \<Rightarrow> seen option" where
  "seen_read receipt =
     Option.bind (Option.bind (str_at receipt ''observe'') observe_read) (\<lambda>mode.
       if mode = ObserveOff then None
       else map_option (\<lambda>steps.
           see_steps 0 steps
             \<lparr>sn_mode = mode, sn_steps = length steps, sn_looked_at = 0, sn_observe_ms = 0,
              sn_targets = [], sn_keys = [], sn_pages = []\<rparr>)
         (Option.bind (json_get receipt ''steps'') as_array))"

section \<open>The words and the facts\<close>

abbreviation em_dash :: string where "em_dash \<equiv> [CHR 0xE2, CHR 0x80, CHR 0x94]"
abbreviation arrow :: string where "arrow \<equiv> '' '' @ [CHR 0xE2, CHR 0x86, CHR 0x92] @ '' ''"

definition steps_word :: "nat list \<Rightarrow> string" where
  "steps_word ns =
     (let shown = join '', '' (map nat_str (take STEPS_LISTED ns))
      in if STEPS_LISTED < length ns then ''steps '' @ shown @ '' and '' @ nat_str (length ns - STEPS_LISTED) @ '' more''
         else if length ns = 1 then ''step '' @ shown
         else ''steps '' @ shown)"

definition keys_word :: "keys_group \<Rightarrow> string" where
  "keys_word g =
     (case kg_state g of
        None \<Rightarrow> ''the box looked for the keyboard focus and got no answer''
      | Some st \<Rightarrow>
          if st = ''window'' then
            (case kg_window g of Some w \<Rightarrow> ''keys went to '' @ w
             | None \<Rightarrow> ''keys went to a window the box could not name'')
          else if st = ''pointer_root'' then
            (case kg_window g of Some w \<Rightarrow> ''keys followed the pointer, which was over '' @ w
             | None \<Rightarrow> ''keys followed the pointer, which was over no window'')
          else if st = ''none'' then ''keys had nowhere to go: no window held the focus''
          else if st = ''root'' then ''keys went to the root window, which nothing on this desktop reads''
          else (case kg_window g of
              Some w \<Rightarrow> ''keys were about to go to '' @ w @ '' (focus: '' @ st @ '')''
            | None \<Rightarrow> ''the box read the focus as '' @ [CHR 0x22] @ st @ [CHR 0x22]))"

definition target_clause :: "where_group \<Rightarrow> string" where
  "target_clause g =
     (case wg_window g of
        Some w \<Rightarrow> ''pointer steps landed on '' @ w @ '' (at '' @ steps_word (wg_steps g) @ '')''
      | None \<Rightarrow> ''no window the box could name was under the pointer (at '' @ steps_word (wg_steps g) @
          '') '' @ em_dash @ '' nothing was mapped there, or the X server did not answer'')"

definition further :: "nat \<Rightarrow> nat \<Rightarrow> string \<Rightarrow> string list" where
  "further n shown what = (if shown < n then [''and '' @ nat_str (n - shown) @ what] else [])"

definition page_clause :: "string list \<Rightarrow> string list" where
  "page_clause pages =
     (case pages of
        [] \<Rightarrow> []
      | [p] \<Rightarrow> [''the page stayed on '' @ p @ '' throughout'']
      | _ \<Rightarrow>
          (let walked = join arrow (take PAGES_LISTED pages)
           in if PAGES_LISTED < length pages
              then [''the page went '' @ walked @ arrow @ ''and '' @ nat_str (length pages - PAGES_LISTED) @ '' more'']
              else [''the page went '' @ walked]))"

definition sentence :: "seen \<Rightarrow> string" where
  "sentence sn =
     (let lead = ''the box also watched while it played, and reports what was on the screen '' @ em_dash @
            '' not whether this achieved anything (observe: '' @ observe_word (sn_mode sn) @ '')''
      in if sn_looked_at sn = 0 then lead @ '': no step had anything for it to look at.''
         else lead @ '': '' @ join ''; ''
           ([nat_str (sn_looked_at sn) @ '' of '' @ nat_str (sn_steps sn) @ '' steps observed'']
            @ map target_clause (take GROUPS_LISTED (sn_targets sn))
            @ further (length (sn_targets sn)) GROUPS_LISTED '' further windows under the pointer''
            @ map (\<lambda>g. keys_word g @ '' (at '' @ steps_word (kg_steps g) @ '')'') (take GROUPS_LISTED (sn_keys sn))
            @ further (length (sn_keys sn)) GROUPS_LISTED '' further places the keys went''
            @ page_clause (sn_pages sn)
            @ [''the looking cost '' @ nat_str (sn_observe_ms sn) @ ''ms'']) @ ''.'')"

text \<open>\<open>joined\<close>: distinct words in the order first seen, one per line.\<close>

definition joined :: "string list \<Rightarrow> string" where
  "joined ws = join [CHR 0x0A] (foldl (\<lambda>kept w. if w \<in> set kept then kept else kept @ [w]) [] ws)"

definition target_fact :: "seen \<Rightarrow> string" where
  "target_fact sn = joined (map (\<lambda>g. case wg_window g of Some w \<Rightarrow> w | None \<Rightarrow> NOTHING_NAMED) (sn_targets sn))"

definition focus_fact :: "seen \<Rightarrow> string" where
  "focus_fact sn = joined (map (\<lambda>g. case kg_state g of Some s \<Rightarrow> s | None \<Rightarrow> NOT_READ) (sn_keys sn))"

definition page_fact :: "seen \<Rightarrow> string" where
  "page_fact sn = join [CHR 0x0A] (sn_pages sn)"

section \<open>What may be kept\<close>

fun strip_step :: "json \<Rightarrow> (nat \<times> bool) \<Rightarrow> json \<times> (nat \<times> bool)" where
  "strip_step (JObject m) (cost, looked) =
     (case map_of m ''observed'' of
        None \<Rightarrow> (JObject m, cost, looked)
      | Some observed \<Rightarrow>
          (JObject (jm_remove ''observed'' m), u64_saturating_add cost (cost_of observed), True))"
| "strip_step v acc = (v, acc)"

fun strip_steps :: "json list \<Rightarrow> (nat \<times> bool) \<Rightarrow> json list \<times> (nat \<times> bool)" where
  "strip_steps [] acc = ([], acc)"
| "strip_steps (st # sts) acc =
     (let (st', acc1) = strip_step st acc; (sts', acc2) = strip_steps sts acc1 in (st' # sts', acc2))"

definition strip_observations :: "json \<Rightarrow> json" where
  "strip_observations receipt =
     (case receipt of
        JObject m \<Rightarrow>
          (case Option.bind (map_of m ''steps'') as_array of
             None \<Rightarrow> JObject m
           | Some steps \<Rightarrow>
               (let (steps', cost, looked) = strip_steps steps (0, False);
                    m' = jm_insert ''steps'' (JArray steps') m
                in JObject (if looked then jm_insert ''observe_ms'' (JInt (int cost)) m' else m')))
      | v \<Rightarrow> v)"


section \<open>Every look is told, once\<close>

definition steps_told :: "seen \<Rightarrow> nat" where
  "steps_told sn = length (concat (map wg_steps (sn_targets sn))) + length (concat (map kg_steps (sn_keys sn)))"

lemma add_target_length:
  "length (concat (map wg_steps (add_target w i gs))) = Suc (length (concat (map wg_steps gs)))"
  by (induction gs) auto

lemma add_keys_length:
  "length (concat (map kg_steps (add_keys st w i gs))) = Suc (length (concat (map kg_steps gs)))"
  by (induction gs) auto

lemma add_target_windows: "set (map wg_window (add_target w i gs)) = insert w (set (map wg_window gs))"
  by (induction gs) auto

lemma add_target_distinct:
  "distinct (map wg_window gs) \<Longrightarrow> distinct (map wg_window (add_target w i gs))"
proof (induction gs)
  case (Cons g gs)
  then show ?case using add_target_windows [of w i gs] by auto
qed simp

definition seen_ok :: "nat \<Rightarrow> seen \<Rightarrow> bool" where
  "seen_ok n sn \<longleftrightarrow>
     steps_told sn = sn_looked_at sn \<and> sn_looked_at sn \<le> n \<and> sn_observe_ms sn < 2 ^ 64 \<and>
     distinct (map wg_window (sn_targets sn)) \<and> distinct_adj (sn_pages sn)"

lemma add_page_adj: "distinct_adj pages \<Longrightarrow> distinct_adj (add_page observed pages field)"
  by (auto simp: add_page_def Let_def distinct_adj_append_iff split: option.splits)

lemma saturating_bound: "u64_saturating_add a b < 2 ^ 64"
  by (simp add: u64_saturating_add_def min_def)

lemma seen_ok_step: "seen_ok n sn \<Longrightarrow> seen_ok (Suc n) (see_step i st sn)"
  by (auto simp: see_step_def seen_ok_def steps_told_def Let_def add_target_length add_keys_length
      add_target_distinct add_page_adj saturating_bound [simplified] split: option.splits)

lemma seen_ok_steps: "seen_ok n sn \<Longrightarrow> seen_ok (n + length sts) (see_steps i sts sn)"
proof (induction sts arbitrary: i n sn)
  case (Cons st sts)
  then show ?case using Cons.IH [OF seen_ok_step [OF Cons.prems]] by simp
qed simp

lemma see_steps_count [simp]: "sn_steps (see_steps i sts sn) = sn_steps sn"
proof (induction sts arbitrary: i sn)
  case (Cons st sts)
  have "sn_steps (see_step i st sn) = sn_steps sn"
    by (simp add: see_step_def Let_def split: option.splits)
  with Cons show ?case by simp
qed simp

text \<open>
  What is read from a receipt accounts for every step the box looked at, once: each is in exactly
  one group of windows or of focus, no window is named twice, no page follows itself, and the cost
  is a number of milliseconds that did not wrap.
\<close>

theorem every_look_is_told:
  assumes "seen_read receipt = Some sn"
  shows "steps_told sn = sn_looked_at sn \<and> sn_looked_at sn \<le> sn_steps sn \<and> sn_observe_ms sn < 2 ^ 64 \<and>
    distinct (map wg_window (sn_targets sn)) \<and> distinct_adj (sn_pages sn) \<and> sn_mode sn \<noteq> ObserveOff"
proof -
  obtain mode steps where read: "mode \<noteq> ObserveOff"
      "sn = see_steps 0 steps \<lparr>sn_mode = mode, sn_steps = length steps, sn_looked_at = 0, sn_observe_ms = 0,
              sn_targets = [], sn_keys = [], sn_pages = []\<rparr>"
    using assms by (auto simp: seen_read_def Option.bind_eq_Some_conv split: if_splits)
  have mode_kept: "sn_mode (see_steps i sts s) = sn_mode s" for i sts s
  proof (induction sts arbitrary: i s)
    case (Cons st sts)
    have "sn_mode (see_step i st s) = sn_mode s"
      by (simp add: see_step_def Let_def split: option.splits)
    with Cons show ?case by simp
  qed simp
  have "seen_ok 0 \<lparr>sn_mode = mode, sn_steps = length steps, sn_looked_at = 0, sn_observe_ms = 0,
      sn_targets = [], sn_keys = [], sn_pages = []\<rparr>"
    by (simp add: seen_ok_def steps_told_def)
  from seen_ok_steps [OF this, of steps 0] read mode_kept show ?thesis
    by (simp add: seen_ok_def)
qed

section \<open>The history keeps nobody's screen\<close>

text \<open>A value no object of which names a key twice, as \<open>serde_json::Map\<close> keeps them.\<close>

fun json_wf :: "json \<Rightarrow> bool" where
  "json_wf (JArray vs) \<longleftrightarrow> list_all json_wf vs"
| "json_wf (JObject m) \<longleftrightarrow> distinct (map fst m) \<and> list_all (\<lambda>(k, v). json_wf v) m"
| "json_wf _ \<longleftrightarrow> True"

text \<open>The same receipt, with everything a step's block says but its cost taken out of it.\<close>

fun blind_step :: "json \<Rightarrow> json" where
  "blind_step (JObject m) =
     (case map_of m ''observed'' of
        None \<Rightarrow> JObject m
      | Some v \<Rightarrow> JObject (jm_insert ''observed'' (JObject [(''observe_ms'', JInt (int (cost_of v)))]) m))"
| "blind_step v = v"

definition blinded :: "json \<Rightarrow> json" where
  "blinded receipt =
     (case receipt of
        JObject m \<Rightarrow>
          (case Option.bind (map_of m ''steps'') as_array of
             None \<Rightarrow> JObject m
           | Some steps \<Rightarrow> JObject (jm_insert ''steps'' (JArray (map blind_step steps)) m))
      | v \<Rightarrow> v)"

lemma jm_remove_insert: "map_of m k \<noteq> None \<Longrightarrow> jm_remove k (jm_insert k v m) = jm_remove k m"
  by (induction m) (auto split: if_splits)

lemma jm_insert_twice: "jm_insert k v (jm_insert k w m) = jm_insert k v m"
  by (induction m) auto

lemma cost_of_bound: "cost_of v < 2 ^ 64"
  by (auto simp: cost_of_def as_u64_Some Option.bind_eq_Some_conv split: option.splits)

lemma cost_of_blind: "cost_of (JObject [(''observe_ms'', JInt (int (cost_of v)))]) = cost_of v"
  using cost_of_bound [of v] by (simp add: cost_of_def [of "JObject _"] as_u64_Some)

lemma strip_blind_step: "strip_step (blind_step st) acc = strip_step st acc"
proof (cases st)
  case (JObject m)
  obtain c l where "acc = (c, l)" by fastforce
  with JObject show ?thesis
    by (cases "map_of m ''observed''") (auto simp: jm_remove_insert cost_of_blind)
qed auto

lemma strip_blind_steps: "strip_steps (map blind_step sts) acc = strip_steps sts acc"
  by (induction sts arbitrary: acc) (simp_all add: strip_blind_step)


lemma strip_blinded: "strip_observations (blinded receipt) = strip_observations receipt"
proof (cases receipt)
  case (JObject m)
  show ?thesis
  proof (cases "Option.bind (map_of m ''steps'') as_array")
    case (Some steps)
    then show ?thesis
      using JObject by (simp add: strip_observations_def blinded_def strip_blind_steps jm_insert_twice)
  qed (simp add: JObject blinded_def)
qed (simp_all add: blinded_def)

lemma set_last_butlast: "m \<noteq> [] \<Longrightarrow> set (last m # butlast m) = set m"
  by (induction m rule: rev_induct) auto

lemma jm_remove_gone: "distinct (map fst m) \<Longrightarrow> map_of (jm_remove k m) k = None"
proof (induction m)
  case (Cons kv m)
  obtain k' v where kv: "kv = (k', v)" by fastforce
  show ?case
  proof (cases "k' = k")
    case True
    with Cons.prems kv have "k \<notin> fst ` set m" by auto
    then have "k \<notin> fst ` set (if m = [] then [] else last m # butlast m)"
      using set_last_butlast [of m] by (cases "m = []") simp_all
    then show ?thesis
      using True kv by (simp add: map_of_eq_None_iff)
  next
    case False
    then show ?thesis using Cons kv by simp
  qed
qed simp

lemma strip_step_clean: "json_wf st \<Longrightarrow> json_get (fst (strip_step st acc)) ''observed'' = None"
proof (cases st)
  case (JObject m)
  assume "json_wf st"
  obtain c l where "acc = (c, l)" by fastforce
  with JObject \<open>json_wf st\<close> show ?thesis
    by (cases "map_of m ''observed''") (simp_all add: jm_remove_gone)
qed auto

lemma strip_steps_clean:
  "list_all json_wf sts \<Longrightarrow> st \<in> set (fst (strip_steps sts acc)) \<Longrightarrow> json_get st ''observed'' = None"
proof (induction sts arbitrary: acc)
  case (Cons s sts)
  obtain s' acc1 where s: "strip_step s acc = (s', acc1)" by (cases "strip_step s acc")
  obtain sts' acc2 where sts: "strip_steps sts acc1 = (sts', acc2)" by (cases "strip_steps sts acc1")
  have "json_get s' ''observed'' = None" using strip_step_clean [of s acc] Cons.prems s by simp
  with Cons s sts Cons.IH [of acc1] show ?case by auto
qed simp

lemma json_wf_steps:
  "json_wf (JObject m) \<Longrightarrow> Option.bind (map_of m ''steps'') as_array = Some steps \<Longrightarrow> list_all json_wf steps"
proof -
  assume wf: "json_wf (JObject m)" and "Option.bind (map_of m ''steps'') as_array = Some steps"
  then obtain v where v: "map_of m ''steps'' = Some v" "as_array v = Some steps"
    by (auto simp: Option.bind_eq_Some_conv)
  then have "(''steps'', v) \<in> set m" by (auto dest: map_of_SomeD)
  with wf have "json_wf v" by (auto simp: list_all_iff)
  with v(2) show ?thesis by (cases v) auto
qed

text \<open>What is written into a recipe's history of what the box saw is what looking cost: a receipt that
  says nothing else is stripped to the same value, and no step of the stripped receipt has a block
  left.
\<close>

theorem history_keeps_no_screen:
  assumes "json_wf receipt"
  shows "strip_observations receipt = strip_observations (blinded receipt) \<and>
    (\<forall>steps st. Option.bind (json_get (strip_observations receipt) ''steps'') as_array = Some steps \<longrightarrow>
      st \<in> set steps \<longrightarrow> json_get st ''observed'' = None)"
proof (intro conjI allI impI)
  show "strip_observations receipt = strip_observations (blinded receipt)"
    by (simp add: strip_blinded)
next
  fix steps st
  assume steps: "Option.bind (json_get (strip_observations receipt) ''steps'') as_array = Some steps"
    and st: "st \<in> set steps"
  show "json_get st ''observed'' = None"
  proof (cases receipt)
    case (JObject m)
    show ?thesis
    proof (cases "Option.bind (map_of m ''steps'') as_array")
      case None
      then show ?thesis using steps JObject by (simp add: strip_observations_def)
    next
      case (Some before)
      obtain after cost looked where after: "strip_steps before (0, False) = (after, cost, looked)"
        by (metis prod_cases3)
      have "steps = after"
        using steps JObject Some after by (cases looked) (auto simp: strip_observations_def Let_def)
      then show ?thesis
        using strip_steps_clean [of before st "(0, False)"] json_wf_steps [of m before] assms JObject Some after st
        by simp
    qed
  qed (use steps in \<open>auto simp: strip_observations_def\<close>)
qed

text \<open>\<open>off\<close> leaves a request exactly as it was; any other level is in it.\<close>

lemma ask_off: "ask request ObserveOff = request"
  by (simp add: ask_def)

lemma ask_says_the_level:
  "level \<noteq> ObserveOff \<Longrightarrow> Option.bind (str_at (ask (JObject m) level) ''observe'') observe_read = Some level"
  by (simp add: ask_def str_at_def observe_code.read_as_word)


section \<open>A sample receipt\<close>

definition sample_receipt :: json where
  "sample_receipt =
     JObject [(''observe'', JString ''input''),
       (''steps'', JArray
         [JObject [(''op'', JString ''click''),
            (''observed'', JObject [(''target'', JObject [(''class'', JString ''xterm''), (''title'', JString ''mail'')]), (''observe_ms'', JInt 7)]),
            (''ms'', JInt 12)],
          JObject [(''op'', JString ''wait'')]])]"

theorem history_keeps_no_screen_witness:
  "json_wf sample_receipt \<and>
   strip_observations sample_receipt =
     JObject [(''observe'', JString ''input''),
       (''steps'', JArray [JObject [(''op'', JString ''click''), (''ms'', JInt 12)], JObject [(''op'', JString ''wait'')]]),
       (''observe_ms'', JInt 7)] \<and>
   strip_observations (blinded sample_receipt) = strip_observations sample_receipt"
proof -
  have wf: "json_wf sample_receipt" by code_simp
  have "strip_observations sample_receipt =
     JObject [(''observe'', JString ''input''),
       (''steps'', JArray [JObject [(''op'', JString ''click''), (''ms'', JInt 12)], JObject [(''op'', JString ''wait'')]]),
       (''observe_ms'', JInt 7)]"
    by (simp add: sample_receipt_def strip_observations_def cost_of_def u64_saturating_add_def)
  with wf history_keeps_no_screen [OF wf] show ?thesis by simp
qed

end
