(* ===== verification/Workflow.thy ===== *)
theory Workflow
  imports Observe Tool_Call
begin

text \<open>
  Workflows (\<open>opengrok-tools/src/workflow.rs\<close>): the decision tree that calls recipes. The body
  as it is stored and linted, the search for a reachable \<open>stop\<close>, and the walk, a loop bounded by
  a budget of steps, a clock and a breaker on standing still. With it the receipt of a recipe
  (\<open>RecipeReceipt\<close> of \<open>opengrok-tools/src/lib.rs\<close>).

  What the walk reaches, the computer, the recipes' source, the judge and the clock, answers as a
  function of everything done so far, newest first, so nothing is assumed of it. Reading a body's
  JSON is \<open>serde\<close>'s derived reader, a parameter of \<open>workflow_parse\<close>; the standard hasher, whose
  algorithm is unspecified, is a function of what is fed to it.
\<close>

section \<open>The body\<close>

abbreviation dq :: string where "dq \<equiv> [CHR 0x22]"
abbreviation bq :: string where "bq \<equiv> [CHR 0x60]"

definition SHAPE :: nat where "SHAPE = 1"
definition WORKFLOW_MAX_STEPS :: nat where "WORKFLOW_MAX_STEPS = 200"
definition FACT_CHARS :: nat where "FACT_CHARS = 2000"
definition PROBE_SECONDS :: nat where "PROBE_SECONDS = 30"
definition PROBE_SECONDS_MAX :: nat where "PROBE_SECONDS_MAX = 120"
definition SAME_PLACE_ALLOWED :: nat where "SAME_PLACE_ALLOWED = 3"

record walk_budget =
  wkb_steps :: nat
  wkb_seconds :: nat

definition walk_budget_default :: walk_budget where
  "walk_budget_default = \<lparr>wkb_steps = 40, wkb_seconds = 600\<rparr>"

definition BUDGET_MAX_STEPS :: nat where "BUDGET_MAX_STEPS = 500"
definition BUDGET_MAX_SECONDS :: nat where "BUDGET_MAX_SECONDS = 3600"

definition walk_budget_clamped :: "walk_budget \<Rightarrow> walk_budget" where
  "walk_budget_clamped b =
     \<lparr>wkb_steps = max 1 (min BUDGET_MAX_STEPS (wkb_steps b)),
      wkb_seconds = max 1 (min BUDGET_MAX_SECONDS (wkb_seconds b))\<rparr>"

datatype fact_test = TestIs string | TestContains string | TestEmpty

fun fact_test_word :: "fact_test \<Rightarrow> string" where
  "fact_test_word (TestIs s) = ''is''"
| "fact_test_word (TestContains s) = ''contains''"
| "fact_test_word TestEmpty = ''empty''"

datatype choice = BareChoice string | DescribedChoice string string

fun choice_label :: "choice \<Rightarrow> string" where
  "choice_label (BareChoice l) = l"
| "choice_label (DescribedChoice l m) = l"

fun choice_means :: "choice \<Rightarrow> string option" where
  "choice_means (BareChoice l) = None"
| "choice_means (DescribedChoice l m) = Some m"

datatype question =
    Noul string "string option" "string option"
  | ChoiceQuestion string "choice list"
  | ScoreQuestion string "string list"

fun question_instructions :: "question \<Rightarrow> string" where
  "question_instructions (Noul i y n) = i"
| "question_instructions (ChoiceQuestion i cs) = i"
| "question_instructions (ScoreQuestion i ls) = i"

fun question_kind_word :: "question \<Rightarrow> string" where
  "question_kind_word (Noul i y n) = ''noul''"
| "question_kind_word (ChoiceQuestion i cs) = ''choice''"
| "question_kind_word (ScoreQuestion i ls) = ''score''"

fun with_instructions :: "question \<Rightarrow> string \<Rightarrow> question" where
  "with_instructions (Noul i y n) t = Noul t y n"
| "with_instructions (ChoiceQuestion i cs) t = ChoiceQuestion t cs"
| "with_instructions (ScoreQuestion i ls) t = ScoreQuestion t ls"

text \<open>The agreed answer when nobody can answer, and the words for why that one.\<close>

fun fallback :: "question \<Rightarrow> (string \<times> string) option" where
  "fallback (Noul i y n) = Some (''no'', ''the branch that skips'')"
| "fallback (ChoiceQuestion i cs) =
     (case cs of [] \<Rightarrow> None | c # _ \<Rightarrow> Some (choice_label c, ''the first option offered''))"
| "fallback (ScoreQuestion i ls) =
     (if length ls div 2 < length ls then Some (ls ! (length ls div 2), ''the middle level'') else None)"

datatype workflow_act =
    RunAct string bindings string "string option" "observe option"
  | ObserveAct string string "nat option" string
  | WhenAct string fact_test string string
  | AskAct string question "string option" "string option" bindings
  | StopAct string string

fun workflow_act_word :: "workflow_act \<Rightarrow> string" where
  "workflow_act_word (RunAct r vs t els lv) = ''run''"
| "workflow_act_word (ObserveAct f sh s t) = ''observe''"
| "workflow_act_word (WhenAct f t y n) = ''when''"
| "workflow_act_word (AskAct nm q y n go) = ''ask''"
| "workflow_act_word (StopAct out say) = ''stop''"

definition option_list :: "'a option \<Rightarrow> 'a list" where
  "option_list x = (case x of None \<Rightarrow> [] | Some y \<Rightarrow> [y])"

fun exits :: "workflow_act \<Rightarrow> string list" where
  "exits (RunAct r vs t els lv) = t # option_list els"
| "exits (ObserveAct f sh s t) = [t]"
| "exits (WhenAct f t y n) = [y, n]"
| "exits (AskAct nm q y n go) = option_list y @ option_list n @ map snd go"
| "exits (StopAct out say) = []"

record workflow =
  wf_start :: string
  wf_steps :: "(string, workflow_act) bmap"
  wf_parameters :: "parameter list"
  wf_budget :: walk_budget

record workflow_body =
  bo_workflow :: nat
  bo_start :: string
  bo_steps :: "(string, workflow_act) bmap"
  bo_parameters :: "parameter list"
  bo_budget :: "walk_budget option"

section \<open>The lint\<close>

definition is_a_fact_name :: "string \<Rightarrow> bool" where
  "is_a_fact_name n \<longleftrightarrow>
     n \<noteq> [] \<and> list_all (\<lambda>c. is_ascii_lowercase c \<or> is_ascii_digit c \<or> c = CHR ''_'' \<or> c = CHR ''.'') n"

definition reject_yes_no :: "string \<Rightarrow> string option \<Rightarrow> string option \<Rightarrow> string + unit" where
  "reject_yes_no st y n =
     ensure (y = None \<and> n = None)
       (''step '' @ dq @ st @ dq @ '' does not ask a yes-or-no question, so its branches go in `go`'')"

definition question_in :: "string \<Rightarrow> string \<Rightarrow> string" where
  "question_in q st = ''the question '' @ dq @ q @ dq @ '' in step '' @ dq @ st @ dq"

text \<open>The options of a choice, in order: each has a word, is offered once and goes somewhere.\<close>

fun lint_choices :: "string \<Rightarrow> string \<Rightarrow> bindings \<Rightarrow> string set \<Rightarrow> string list \<Rightarrow> string + unit" where
  "lint_choices st q go seen [] = Inr ()"
| "lint_choices st q go seen (l # ls) =
     rbind (ensure (trim l \<noteq> []) (question_in q st @ '' has a choice with no label'')) (\<lambda>_.
     rbind (ensure (l \<notin> seen)
       (question_in q st @ '' offers '' @ dq @ l @ dq @ '' twice, and an answer is found by its label'')) (\<lambda>_.
     rbind (ensure (bm_get go l \<noteq> None)
       (''step '' @ dq @ st @ dq @ '' offers the answer '' @ dq @ l @ dq @ '' and does not say where it goes'')) (\<lambda>_.
     lint_choices st q go (insert l seen) ls)))"

fun lint_levels :: "string \<Rightarrow> string \<Rightarrow> bindings \<Rightarrow> string set \<Rightarrow> string list \<Rightarrow> string + unit" where
  "lint_levels st q go seen [] = Inr ()"
| "lint_levels st q go seen (l # ls) =
     rbind (ensure (trim l \<noteq> []) (question_in q st @ '' has a level with no words'')) (\<lambda>_.
     rbind (ensure (l \<notin> seen)
       (question_in q st @ '' has two levels called '' @ dq @ l @ dq @
        '', and a branch is found by a level'' @ tick @ ''s words'')) (\<lambda>_.
     rbind (ensure (bm_get go l \<noteq> None)
       (''step '' @ dq @ st @ dq @ '' scores against '' @ dq @ l @ dq @ '' and does not say where it goes'')) (\<lambda>_.
     lint_levels st q go (insert l seen) ls)))"

fun lint_question :: "string \<Rightarrow> string \<Rightarrow> question \<Rightarrow> string option \<Rightarrow> string option \<Rightarrow> bindings \<Rightarrow> string + unit" where
  "lint_question st nm (Noul i ym nom) y n go =
     rbind (ensure (go = [])
       (''step '' @ dq @ st @ dq @ '' asks a yes-or-no question, so it goes by `yes` and `no`, not by `go`'')) (\<lambda>_.
     ensure (y \<noteq> None \<and> n \<noteq> None)
       (''step '' @ dq @ st @ dq @ '' asks a yes-or-no question and must say where each answer goes''))"
| "lint_question st nm (ChoiceQuestion i cs) y n go =
     rbind (ensure (2 \<le> length cs)
       (question_in nm st @ '' needs at least two choices to choose between'')) (\<lambda>_.
     rbind (lint_choices st nm go {} (map choice_label cs)) (\<lambda>_.
     reject_yes_no st y n))"
| "lint_question st nm (ScoreQuestion i ls) y n go =
     rbind (ensure (ls \<noteq> []) (question_in nm st @ '' has no levels to score against'')) (\<lambda>_.
     rbind (lint_levels st nm go {} ls) (\<lambda>_.
     reject_yes_no st y n))"

definition lint_ask :: "string \<Rightarrow> string \<Rightarrow> question \<Rightarrow> string option \<Rightarrow> string option \<Rightarrow> bindings \<Rightarrow> string + unit" where
  "lint_ask st nm q y n go =
     rbind (ensure (trim nm \<noteq> [])
       (''step '' @ dq @ st @ dq @ '' asks a question with no name: its answer comes back under it'')) (\<lambda>_.
     rbind (ensure (trim (question_instructions q) \<noteq> []) (question_in nm st @ '' has no words to it'')) (\<lambda>_.
     lint_question st nm q y n go))"

fun lint_act :: "string \<Rightarrow> workflow_act \<Rightarrow> string + unit" where
  "lint_act nm (RunAct r vs t els lv) =
     ensure (trim r \<noteq> []) (''step '' @ dq @ nm @ dq @ '' runs a recipe with no id'')"
| "lint_act nm (ObserveAct f sh s t) =
     rbind (ensure (is_a_fact_name f)
       (''step '' @ dq @ nm @ dq @ '' keeps what it sees as '' @ dq @ f @ dq @ ''; a fact'' @ tick @
        ''s name is lowercase letters, digits, underscores and dots'')) (\<lambda>_.
     ensure (trim sh \<noteq> []) (''step '' @ dq @ nm @ dq @ '' looks at the box with no command''))"
| "lint_act nm (WhenAct f t y n) =
     ensure (trim f \<noteq> []) (''step '' @ dq @ nm @ dq @ '' tests a fact with no name'')"
| "lint_act nm (AskAct qn q y n go) = lint_ask nm qn q y n go"
| "lint_act nm (StopAct out say) =
     ensure (trim out \<noteq> []) (''step '' @ dq @ nm @ dq @ '' ends the workflow without saying how it ended'')"


lemma unseen_smaller:
  assumes "bm_get steps n = Some a" and "n \<notin> seen"
  shows "card (fst ` set steps - insert n seen) < card (fst ` set steps - seen)"
proof (rule psubset_card_mono)
  have "n \<in> fst ` set steps" using assms(1) by (force simp: bm_get_def dest: map_of_SomeD)
  then show "fst ` set steps - insert n seen \<subset> fst ` set steps - seen" using assms(2) by blast
qed simp

text \<open>
  The search for a \<open>stop\<close>. The vector \<open>queue\<close> is used at its end, so the list here is that
  vector reversed. Each pop takes a name off it or a step off the unseen ones.
\<close>

function search_stop :: "(string, workflow_act) bmap \<Rightarrow> string set \<Rightarrow> string list \<Rightarrow> bool" where
  "search_stop steps seen [] = False"
| "search_stop steps seen (n # queue) =
     (if n \<in> seen then search_stop steps seen queue
      else case bm_get steps n of
          None \<Rightarrow> search_stop steps (insert n seen) queue
        | Some (StopAct out say) \<Rightarrow> True
        | Some a \<Rightarrow> search_stop steps (insert n seen) (rev (exits a) @ queue))"
  by pat_completeness auto
termination
proof (relation "measures [\<lambda>(steps, seen, queue). card (fst ` set steps - seen), \<lambda>(steps, seen, queue). length queue]",
    goal_cases)
  case (3 steps seen n queue)
  have "fst ` set steps - insert n seen = fst ` set steps - seen"
    using 3 by (force simp: bm_get_def map_of_eq_None_iff)
  then show ?case by simp
qed (auto simp: unseen_smaller)

definition reaches_a_stop :: "workflow \<Rightarrow> bool" where
  "reaches_a_stop w = search_stop (wf_steps w) {} [wf_start w]"

fun lint_exits :: "(string, workflow_act) bmap \<Rightarrow> string \<Rightarrow> string list \<Rightarrow> string + unit" where
  "lint_exits steps nm [] = Inr ()"
| "lint_exits steps nm (x # xs) =
     rbind (ensure (bm_get steps x \<noteq> None)
       (''step '' @ dq @ nm @ dq @ '' goes to '' @ dq @ x @ dq @ '', and there is no step called that'')) (\<lambda>_.
     lint_exits steps nm xs)"

fun lint_named :: "(string, workflow_act) bmap \<Rightarrow> (string \<times> workflow_act) list \<Rightarrow> string + unit" where
  "lint_named steps [] = Inr ()"
| "lint_named steps ((nm, a) # rest) =
     rbind (ensure (trim nm \<noteq> []) ''a step with no name cannot be jumped to'') (\<lambda>_.
     rbind (lint_exits steps nm (exits a)) (\<lambda>_.
     rbind (lint_act nm a) (\<lambda>_.
     lint_named steps rest)))"

definition lint_workflow :: "workflow \<Rightarrow> string + unit" where
  "lint_workflow w =
     rbind (ensure (wf_steps w \<noteq> []) ''a workflow needs at least one step'') (\<lambda>_.
     rbind (ensure (length (wf_steps w) \<le> WORKFLOW_MAX_STEPS)
       (''a workflow may have '' @ nat_str WORKFLOW_MAX_STEPS @ '' steps; this one has '' @ nat_str (length (wf_steps w)))) (\<lambda>_.
     rbind (check_parameters (wf_parameters w)) (\<lambda>_.
     rbind (ensure (trim (wf_start w) \<noteq> []) ''a workflow needs a `start`: the step it begins at'') (\<lambda>_.
     rbind (ensure (bm_get (wf_steps w) (wf_start w) \<noteq> None)
       (''`start` names '' @ dq @ wf_start w @ dq @ '', and there is no step called that'')) (\<lambda>_.
     rbind (lint_named (wf_steps w) (wf_steps w)) (\<lambda>_.
     ensure (reaches_a_stop w)
       ''no `stop` step can be reached from `start`, so this workflow could never end''))))))"

text \<open>\<open>read_body\<close> is \<open>serde_json::from_value::<Body>\<close>, its error as text.\<close>

definition workflow_parse :: "(json \<Rightarrow> string + workflow_body) \<Rightarrow> json \<Rightarrow> string + workflow" where
  "workflow_parse read_body v =
     (let shape = (case Option.bind (json_get v ''workflow'') as_u64 of Some n \<Rightarrow> n | None \<Rightarrow> 0)
      in if shape \<noteq> SHAPE then
           Inl (if shape = 0
                then ''a workflow body must say which shape it is written in: '' @ dq @ ''workflow'' @ dq @ '': '' @ nat_str SHAPE
                else ''this workflow is written in shape '' @ nat_str shape @ ''; this server understands shape '' @ nat_str SHAPE)
         else
           rbind (map_err (\<lambda>e. ''unreadable: '' @ e) (read_body v)) (\<lambda>b.
           let w = \<lparr>wf_start = bo_start b, wf_steps = bo_steps b, wf_parameters = bo_parameters b,
                    wf_budget = walk_budget_clamped (case bo_budget b of Some u \<Rightarrow> u | None \<Rightarrow> walk_budget_default)\<rparr>
           in rbind (lint_workflow w) (\<lambda>_. Inr w)))"

definition workflow_to_body :: "workflow \<Rightarrow> workflow_body" where
  "workflow_to_body w =
     \<lparr>bo_workflow = SHAPE, bo_start = wf_start w, bo_steps = wf_steps w,
      bo_parameters = wf_parameters w, bo_budget = Some (wf_budget w)\<rparr>"

definition workflow_recipes :: "workflow \<Rightarrow> string set" where
  "workflow_recipes w =
     set (concat (map (\<lambda>(n, a). case a of RunAct r vs t els lv \<Rightarrow> [r] | _ \<Rightarrow> []) (wf_steps w)))"

section \<open>The receipt of a recipe\<close>

record recipe_receipt =
  rr_ok :: bool
  rr_ran :: nat
  rr_stopped_at :: "nat option"
  rr_error :: "string option"
  rr_image :: "tool_image option"
  rr_raw :: json

fun first_error :: "json list \<Rightarrow> string option" where
  "first_error [] = None"
| "first_error (st # sts) = (case str_at st ''error'' of Some e \<Rightarrow> Some e | None \<Rightarrow> first_error sts)"

definition receipt_image :: "json \<Rightarrow> tool_image option" where
  "receipt_image shot =
     Option.bind (str_at shot ''mime'') (\<lambda>mime.
     Option.bind (str_at shot ''png_base64'') (\<lambda>png.
     Option.bind (Option.bind (json_get shot ''width'') as_u64) (\<lambda>w.
     Option.bind (Option.bind (json_get shot ''height'') as_u64) (\<lambda>h.
       Some \<lparr>ti_mime = mime, ti_base64 = png, ti_width = of_nat w, ti_height = of_nat h,
             ti_visibility = AgentImage\<rparr>))))"

definition receipt_from_value :: "json \<Rightarrow> recipe_receipt" where
  "receipt_from_value raw =
     \<lparr>rr_ok = (case Option.bind (json_get raw ''ok'') as_bool of Some b \<Rightarrow> b | None \<Rightarrow> False),
      rr_ran = (case Option.bind (json_get raw ''ran'') as_u64 of Some n \<Rightarrow> n | None \<Rightarrow> 0),
      rr_stopped_at = Option.bind (json_get raw ''stopped_at'') as_u64,
      rr_error = Option.bind (Option.bind (json_get raw ''steps'') as_array) first_error,
      rr_image = Option.bind (json_get raw ''screenshot'') receipt_image,
      rr_raw = raw\<rparr>"


section \<open>What a walk reaches\<close>

datatype judge_error = Malformed string | Unavailable string

record verdict =
  vd_answer :: string
  vd_confidence :: "64 word"

datatype judging = JudgingAsk | JudgingOff string

datatype walk_deed =
    ReadClock
  | Probed string string nat
  | FetchedRecipe string bindings
  | PlayedRecipe string string json
  | RecordedRun string int recipe_receipt
  | PutToJudge json string question

record walker =
  wk_box_id :: string
  wk_allowed :: "string set"
  wk_judging :: judging
  wk_name :: string
  wk_observe :: observe
  wk_elapsed :: "walk_deed list \<Rightarrow> nat"
  wk_run :: "walk_deed list \<Rightarrow> string + int \<times> string"
  wk_recipe_request :: "walk_deed list \<Rightarrow> string + int \<times> json"
  wk_run_recipe :: "walk_deed list \<Rightarrow> string + json"
  wk_record_run :: "walk_deed list \<Rightarrow> string option"
  wk_judge :: "walk_deed list \<Rightarrow> judge_error + verdict"
  wk_hash :: "string list \<Rightarrow> nat"

datatype walk_ending =
    Stopped string string
  | OutOfSteps string nat
  | OutOfTime string nat
  | GoingInCircles string nat
  | RecipeFailed string string string
  | Broken string string

fun ending_word :: "walk_ending \<Rightarrow> string" where
  "ending_word (Stopped out say) = ''stopped''"
| "ending_word (OutOfSteps at b) = ''out-of-steps''"
| "ending_word (OutOfTime at s) = ''out-of-time''"
| "ending_word (GoingInCircles at n) = ''going-in-circles''"
| "ending_word (RecipeFailed at r why) = ''recipe-failed''"
| "ending_word (Broken at why) = ''broken''"

fun ending_say :: "walk_ending \<Rightarrow> string" where
  "ending_say (Stopped out say) = (if trim say = [] then out else say)"
| "ending_say (OutOfSteps at b) =
     ''this workflow took all '' @ nat_str b @ '' of its steps and was still at '' @ dq @ at @ dq @
     '', so it was stopped rather than left running''"
| "ending_say (OutOfTime at s) =
     ''this workflow ran for its whole '' @ nat_str s @ ''s and was still at '' @ dq @ at @ dq @
     '', so no further step was started''"
| "ending_say (GoingInCircles at n) =
     ''this workflow came back to '' @ dq @ at @ dq @ '' '' @ nat_str n @
     '' times with nothing new to go on, so it was stopped rather than left repeating itself''"
| "ending_say (RecipeFailed at r why) =
     ''the recipe '' @ bq @ r @ bq @ '' at step '' @ dq @ at @ dq @ '' stopped short ('' @ why @
     ''), and that step does not say where a stopped recipe goes''"
| "ending_say (Broken at why) = ''step '' @ dq @ at @ dq @ '' could not be taken: '' @ why"

record walking =
  wl_at :: string
  wl_facts :: bindings
  wl_trail :: "json list"
  wl_visits :: "nat \<Rightarrow> nat"
  wl_taken :: nat
  wl_fallbacks :: nat
  wl_asked_jev :: bool
  wl_done :: "walk_deed list"

definition deed :: "walk_deed \<Rightarrow> walking \<Rightarrow> walking" where
  "deed d s = s\<lparr>wl_done := d # wl_done s\<rparr>"

definition learn :: "string \<Rightarrow> string \<Rightarrow> walking \<Rightarrow> walking" where
  "learn k v s = s\<lparr>wl_facts := bm_insert k v (wl_facts s)\<rparr>"

definition clip_fact :: "string \<Rightarrow> nat \<Rightarrow> string" where
  "clip_fact t n =
     (if chars_count t \<le> n then t
      else take_chars n t @ '' '' @ ellipsis @ ''[clipped '' @ nat_str (chars_count t - n) @ '' chars]'')"

definition mark :: "walker \<Rightarrow> string \<Rightarrow> bindings \<Rightarrow> nat" where
  "mark k at facts = wk_hash k (at # concat (map (\<lambda>(f, v). [f, v]) facts))"

text \<open>\<open>push\<close>: the fields of a kind merged into the step's entry, filed.\<close>

definition push_trail :: "workflow_act \<Rightarrow> (string \<times> json) list \<Rightarrow> walking \<Rightarrow> walking" where
  "push_trail a extra s =
     s\<lparr>wl_trail := wl_trail s @
        [JObject (foldl (\<lambda>m (f, v). jm_insert f v m)
           [(''step'', JString (wl_at s)), (''do'', JString (workflow_act_word a))] extra)]\<rparr>"

definition opt_json :: "('a \<Rightarrow> json) \<Rightarrow> 'a option \<Rightarrow> json" where
  "opt_json f x = (case x of None \<Rightarrow> JNull | Some y \<Rightarrow> f y)"

definition branch_for :: "question \<Rightarrow> string \<Rightarrow> string option \<Rightarrow> string option \<Rightarrow> bindings \<Rightarrow> string option" where
  "branch_for q answer y n go =
     (case q of
        Noul i ym nom \<Rightarrow> if answer = ''yes'' then y else if answer = ''no'' then n else None
      | _ \<Rightarrow> bm_get go answer)"

definition state_of :: "walker \<Rightarrow> walking \<Rightarrow> json" where
  "state_of k s =
     JObject [(''workflow'', JString (wk_name k)), (''at'', JString (wl_at s)),
       (''facts'', bindings_json (wl_facts s)),
       (''did'', JArray (drop (length (wl_trail s) - 8) (wl_trail s)))]"

section \<open>One step\<close>

type_synonym walk_result = "(walk_ending + string) \<times> walking"

definition take_observe :: "walker \<Rightarrow> bindings \<Rightarrow> string \<Rightarrow> string \<Rightarrow> nat option \<Rightarrow> string \<Rightarrow> walking \<Rightarrow> walk_result" where
  "take_observe k bound fname shell seconds onward s =
     (case substitute shell bound of
        Inl why \<Rightarrow> (Inl (Broken (wl_at s) why), s)
      | Inr command \<Rightarrow>
          (let patience = max 1 (min PROBE_SECONDS_MAX (case seconds of Some n \<Rightarrow> n | None \<Rightarrow> PROBE_SECONDS));
               s1 = deed (Probed (wk_box_id k) command patience) s
           in case wk_run k (wl_done s1) of
                Inl e \<Rightarrow> (Inl (Broken (wl_at s) (''looking at the box failed: '' @ e)), s1)
              | Inr (exit_code, stdout) \<Rightarrow>
                  (let found = clip_fact (trim stdout) FACT_CHARS;
                       s2 = learn (fname @ ''.exit'') (int_str exit_code) (learn fname found s1)
                   in (Inr onward,
                       push_trail (ObserveAct fname shell seconds onward)
                         [(''as'', JString fname), (''shell'', JString command), (''exit'', JInt exit_code),
                          (''chars'', JInt (int (chars_count found))), (''went'', JString onward)] s2))))"

definition test_holds :: "bindings \<Rightarrow> fact_test \<Rightarrow> string \<Rightarrow> string + bool" where
  "test_holds bound t v =
     (case t of
        TestIs want \<Rightarrow> rbind (substitute want bound) (\<lambda>w. Inr (v = trim w))
      | TestContains part \<Rightarrow> rbind (substitute part bound) (\<lambda>p. Inr (contains_str p v))
      | TestEmpty \<Rightarrow> Inr (v = []))"

definition take_when :: "bindings \<Rightarrow> string \<Rightarrow> fact_test \<Rightarrow> string \<Rightarrow> string \<Rightarrow> walking \<Rightarrow> walk_result" where
  "take_when bound fname t y n s =
     (let v = trim (case bm_get (wl_facts s) fname of Some f \<Rightarrow> f | None \<Rightarrow> [])
      in case test_holds bound t v of
           Inl why \<Rightarrow> (Inl (Broken (wl_at s) why), s)
         | Inr held \<Rightarrow>
             (let went = (if held then y else n)
              in (Inr went,
                  push_trail (WhenAct fname t y n)
                    [(''fact'', JString fname), (''test'', JString (fact_test_word t)), (''held'', JBool held),
                     (''went'', JString went)] s)))"

fun fill_values :: "bindings \<Rightarrow> bindings \<Rightarrow> string + bindings" where
  "fill_values [] bound = Inr []"
| "fill_values ((key, v) # rest) bound =
     (case substitute v bound of
        Inl why \<Rightarrow> Inl (''the value for '' @ bq @ key @ bq @ '' could not be filled in: '' @ why)
      | Inr filled \<Rightarrow> rbind (fill_values rest bound) (\<lambda>m. Inr (bm_insert key filled m)))"

definition learn_receipt :: "string \<Rightarrow> recipe_receipt \<Rightarrow> walking \<Rightarrow> walking" where
  "learn_receipt r rc s =
     (let sn = seen_read (rr_raw rc);
          of_seen = (\<lambda>f. clip_fact (case sn of Some v \<Rightarrow> f v | None \<Rightarrow> []) FACT_CHARS)
      in learn ''last.urls'' (of_seen page_fact)
        (learn ''last.focus'' (of_seen focus_fact)
        (learn ''last.targets'' (of_seen target_fact)
        (learn ''last.observe'' (case sn of Some v \<Rightarrow> observe_word (sn_mode v) | None \<Rightarrow> [])
        (learn ''last.error'' (clip_fact (case rr_error rc of Some e \<Rightarrow> e | None \<Rightarrow> []) FACT_CHARS)
        (learn ''last.stopped_at'' (case rr_stopped_at rc of Some n \<Rightarrow> nat_str n | None \<Rightarrow> [])
        (learn ''last.ran'' (nat_str (rr_ran rc))
        (learn ''last.ok'' (if rr_ok rc then ''true'' else ''false'')
        (learn ''last.recipe'' r s)))))))))"

definition take_run ::
  "walker \<Rightarrow> bindings \<Rightarrow> string \<Rightarrow> bindings \<Rightarrow> string \<Rightarrow> string option \<Rightarrow> observe option \<Rightarrow> walking \<Rightarrow> walk_result" where
  "take_run k bound r vs onward els lv s =
     (if r \<notin> wk_allowed k
      then (Inl (Broken (wl_at s) (''recipe '' @ bq @ r @ bq @ '' is not one this run may play'')), s)
      else case fill_values vs bound of
          Inl why \<Rightarrow> (Inl (Broken (wl_at s) why), s)
        | Inr filled \<Rightarrow>
            (let s1 = deed (FetchedRecipe r filled) s
             in case wk_recipe_request k (wl_done s1) of
                  Inl why \<Rightarrow> (Inl (Broken (wl_at s) why), s1)
                | Inr (version, request) \<Rightarrow>
                    (let level = (case lv of Some l \<Rightarrow> l | None \<Rightarrow> wk_observe k);
                         s2 = deed (PlayedRecipe r (wk_box_id k) (ask request level)) s1
                     in case wk_run_recipe k (wl_done s2) of
                          Inl e \<Rightarrow> (Inl (Broken (wl_at s) (''the box would not play '' @ bq @ r @ bq @ '': '' @ e)), s2)
                        | Inr raw \<Rightarrow>
                            (let rc = receipt_from_value raw;
                                 s3 = deed (RecordedRun r version rc) s2;
                                 run_id = wk_record_run k (wl_done s3);
                                 went = (if rr_ok rc then Some onward else els);
                                 s4 = push_trail (RunAct r vs onward els lv)
                                   [(''recipe'', JString r), (''version'', JInt version), (''ok'', JBool (rr_ok rc)),
                                    (''ran'', JInt (int (rr_ran rc))),
                                    (''stoppedAt'', opt_json (\<lambda>n. JInt (int n)) (rr_stopped_at rc)),
                                    (''error'', opt_json JString (rr_error rc)), (''runId'', opt_json JString run_id),
                                    (''observe'', JString (observe_word level)),
                                    (''observed'', JInt (int (case seen_read raw of Some sn \<Rightarrow> sn_looked_at sn | None \<Rightarrow> 0))),
                                    (''went'', opt_json JString went)] (learn_receipt r rc s3)
                             in (case went of
                                   Some n \<Rightarrow> Inr n
                                 | None \<Rightarrow> Inl (RecipeFailed (wl_at s) r
                                     (case rr_error rc of Some e \<Rightarrow> e | None \<Rightarrow> ''a step failed'')), s4)))))"

text \<open>\<open>json!\<close> of a double: a number that is not finite is \<open>null\<close>.\<close>

definition float_json :: "64 word \<Rightarrow> json" where
  "float_json b = (if unat (take_bit 11 (drop_bit 52 b)) = 2047 then JNull else JFloat b)"

text \<open>What the judge said, or why nobody did; a question that could not be put ends the walk.\<close>

definition put_question ::
  "walker \<Rightarrow> string \<Rightarrow> question \<Rightarrow> walking \<Rightarrow> (walk_ending + (string + verdict)) \<times> walking" where
  "put_question k nm q s =
     (case wk_judging k of
        JudgingOff because \<Rightarrow> (Inr (Inl because), s)
      | JudgingAsk \<Rightarrow>
          (let s1 = deed (PutToJudge (state_of k s) nm q) (s\<lparr>wl_asked_jev := True\<rparr>)
           in case wk_judge k (wl_done s1) of
                Inr v \<Rightarrow> (Inr (Inr v), s1)
              | Inl (Malformed why) \<Rightarrow>
                  (Inl (Broken (wl_at s) (''the question '' @ dq @ nm @ dq @ '' could not be put to Jev: '' @ why)), s1)
              | Inl (Unavailable why) \<Rightarrow> (Inr (Inl why), s1)))"

text \<open>The answer, how sure it is, and the fallback it is if it is one.\<close>

definition settle_verdict ::
  "string \<Rightarrow> question \<Rightarrow> string + verdict \<Rightarrow> string option \<Rightarrow> string option \<Rightarrow> bindings \<Rightarrow>
     string + (string \<times> 64 word option \<times> (string \<times> string) option \<times> string option)" where
  "settle_verdict nm q asked y n go =
     (case asked of
        Inl why \<Rightarrow>
          (case fallback q of
             None \<Rightarrow> Inl (''the question '' @ dq @ nm @ dq @ '' has no options to fall back to'')
           | Some (answer, rule) \<Rightarrow> Inr (answer, None, Some (why, rule), branch_for q answer y n go))
      | Inr v \<Rightarrow>
          (case branch_for q (vd_answer v) y n go of
             Some went \<Rightarrow> Inr (vd_answer v, Some (vd_confidence v), None, Some went)
           | None \<Rightarrow>
               (case fallback q of
                  None \<Rightarrow> Inr (vd_answer v, Some (vd_confidence v), None, None)
                | Some (answer, rule) \<Rightarrow>
                    Inr (answer, Some (vd_confidence v),
                      Some (''Jev answered '' @ dq @ vd_answer v @ dq @
                        '', which is not one of the answers this question offered'', rule),
                      branch_for q answer y n go))))"

definition take_ask ::
  "walker \<Rightarrow> bindings \<Rightarrow> string \<Rightarrow> question \<Rightarrow> string option \<Rightarrow> string option \<Rightarrow> bindings \<Rightarrow> walking \<Rightarrow> walk_result" where
  "take_ask k bound nm q0 y n go s =
     (case substitute (question_instructions q0) bound of
        Inl why \<Rightarrow> (Inl (Broken (wl_at s) why), s)
      | Inr text \<Rightarrow>
          (let q = with_instructions q0 text
           in case put_question k nm q s of
                (Inl e, s1) \<Rightarrow> (Inl e, s1)
              | (Inr asked, s1) \<Rightarrow>
                  (case settle_verdict nm q asked y n go of
                     Inl why \<Rightarrow> (Inl (Broken (wl_at s) why), s1)
                   | Inr (answer, confidence, because, None) \<Rightarrow>
                       (Inl (Broken (wl_at s) (''step does not say where the answer '' @ dq @ answer @ dq @ '' goes'')), s1)
                   | Inr (answer, confidence, because, Some went) \<Rightarrow>
                       (let said = [(''question'', JString nm), (''kind'', JString (question_kind_word q)),
                              (''answer'', JString answer), (''confidence'', opt_json float_json confidence),
                              (''went'', JString went)];
                            (said', s2) = (case because of
                               None \<Rightarrow> (said, s1)
                             | Some (why, rule) \<Rightarrow>
                                 (said @ [(''fallback'', JObject [(''because'', JString why), (''rule'', JString rule)])],
                                  s1\<lparr>wl_fallbacks := wl_fallbacks s1 + 1\<rparr>))
                        in (Inr went, push_trail (AskAct nm q0 y n go) said' s2)))))"

fun take_step :: "walker \<Rightarrow> bindings \<Rightarrow> workflow_act \<Rightarrow> walking \<Rightarrow> walk_result" where
  "take_step k bound (StopAct out say) s =
     (Inl (Stopped out say), push_trail (StopAct out say) [(''outcome'', JString out)] s)"
| "take_step k bound (ObserveAct f sh secs t) s = take_observe k bound f sh secs t s"
| "take_step k bound (WhenAct f t y n) s = take_when bound f t y n s"
| "take_step k bound (RunAct r vs t els lv) s = take_run k bound r vs t els lv s"
| "take_step k bound (AskAct nm q y n go) s = take_ask k bound nm q y n go s"


definition keeps_place :: "walking \<Rightarrow> walking \<Rightarrow> bool" where
  "keeps_place s t \<longleftrightarrow> wl_at t = wl_at s \<and> wl_taken t = wl_taken s \<and> wl_visits t = wl_visits s"

lemma keeps_place_refl [simp]: "keeps_place s s"
  by (simp add: keeps_place_def)

lemma keeps_place_trans: "keeps_place s t \<Longrightarrow> keeps_place t u \<Longrightarrow> keeps_place s u"
  by (simp add: keeps_place_def)

lemma keeps_place_simps [simp]:
  "keeps_place s (deed d t) = keeps_place s t"
  "keeps_place s (learn f v t) = keeps_place s t"
  "keeps_place s (push_trail a extra t) = keeps_place s t"
  "keeps_place s (learn_receipt r rc t) = keeps_place s t"
  "keeps_place s (t\<lparr>wl_fallbacks := m\<rparr>) = keeps_place s t"
  "keeps_place s (t\<lparr>wl_asked_jev := b\<rparr>) = keeps_place s t"
  by (simp_all add: keeps_place_def deed_def learn_def push_trail_def learn_receipt_def Let_def)

lemma put_question_keeps: "put_question k nm q s = (r, t) \<Longrightarrow> keeps_place s t"
  by (auto simp: put_question_def Let_def split: judging.splits sum.splits judge_error.splits)

lemma take_step_keeps: "keeps_place s (snd (take_step k bound a s))"
proof (cases a)
  case (RunAct r vs t els lv)
  then show ?thesis
    by (simp add: take_run_def Let_def split: sum.splits prod.splits)
next
  case (ObserveAct f sh secs t)
  then show ?thesis by (simp add: take_observe_def Let_def split: sum.splits prod.splits)
next
  case (WhenAct f t y n)
  then show ?thesis by (simp add: take_when_def Let_def split: sum.splits)
next
  case (AskAct nm q y n go)
  then show ?thesis
    by (auto simp: take_ask_def Let_def split: sum.splits prod.splits option.splits dest!: put_question_keeps)
qed simp

section \<open>The walk\<close>

text \<open>The checks made before a step is taken, then the step; the loop's body.\<close>

definition walk_round :: "walker \<Rightarrow> workflow \<Rightarrow> bindings \<Rightarrow> walking \<Rightarrow> walk_result" where
  "walk_round k w bound s =
     (if wkb_steps (wf_budget w) \<le> wl_taken s
      then (Inl (OutOfSteps (wl_at s) (wkb_steps (wf_budget w))), s)
      else
        (let s1 = deed ReadClock s
         in if wkb_seconds (wf_budget w) * 1000 \<le> wk_elapsed k (wl_done s1)
            then (Inl (OutOfTime (wl_at s) (wkb_seconds (wf_budget w))), s1)
            else
              (let here = mark k (wl_at s) (wl_facts s);
                   times = wl_visits s here + 1;
                   s2 = s1\<lparr>wl_visits := (wl_visits s)(here := times)\<rparr>
               in if SAME_PLACE_ALLOWED < times then (Inl (GoingInCircles (wl_at s) times), s2)
                  else case bm_get (wf_steps w) (wl_at s) of
                      None \<Rightarrow> (Inl (Broken (wl_at s) (''there is no step called '' @ dq @ wl_at s @ dq)), s2)
                    | Some a \<Rightarrow> take_step k bound a (s2\<lparr>wl_taken := wl_taken s + 1\<rparr>))))"

text \<open>The state a step is taken in: the clock read, the place counted.\<close>

definition enter :: "walker \<Rightarrow> walking \<Rightarrow> walking" where
  "enter k s =
     (let here = mark k (wl_at s) (wl_facts s)
      in (deed ReadClock s)\<lparr>wl_visits := (wl_visits s)(here := wl_visits s here + 1), wl_taken := wl_taken s + 1\<rparr>)"

definition may_enter :: "walker \<Rightarrow> workflow \<Rightarrow> walking \<Rightarrow> bool" where
  "may_enter k w s \<longleftrightarrow>
     wl_taken s < wkb_steps (wf_budget w) \<and>
     wk_elapsed k (ReadClock # wl_done s) < wkb_seconds (wf_budget w) * 1000 \<and>
     wl_visits s (mark k (wl_at s) (wl_facts s)) < SAME_PLACE_ALLOWED"

lemma walk_round_enters:
  assumes "may_enter k w s" and "bm_get (wf_steps w) (wl_at s) = Some a"
  shows "walk_round k w bound s = take_step k bound a (enter k s)"
  using assms by (simp add: walk_round_def may_enter_def enter_def deed_def Let_def)

lemma walk_round_refuses:
  assumes "\<not> (may_enter k w s \<and> bm_get (wf_steps w) (wl_at s) \<noteq> None)"
  shows "\<exists>e t. walk_round k w bound s = (Inl e, t) \<and> wl_taken t = wl_taken s"
  using assms by (auto simp: walk_round_def may_enter_def deed_def Let_def)

lemma enter_simps [simp]:
  "wl_at (enter k s) = wl_at s" "wl_taken (enter k s) = wl_taken s + 1" "wl_facts (enter k s) = wl_facts s"
  "wl_trail (enter k s) = wl_trail s" "wl_done (enter k s) = ReadClock # wl_done s"
  "wl_fallbacks (enter k s) = wl_fallbacks s" "wl_asked_jev (enter k s) = wl_asked_jev s"
  by (simp_all add: enter_def deed_def Let_def)

text \<open>How a round goes: it ends the walk before a step is taken, or takes one.\<close>

lemma walk_round_cases:
  obtains (refused) e t where "walk_round k w bound s = (Inl e, t)" "wl_taken t = wl_taken s"
  | (entered) a where "may_enter k w s" "bm_get (wf_steps w) (wl_at s) = Some a"
      "walk_round k w bound s = take_step k bound a (enter k s)"
proof (cases "may_enter k w s \<and> bm_get (wf_steps w) (wl_at s) \<noteq> None")
  case True
  then obtain a where "bm_get (wf_steps w) (wl_at s) = Some a" by auto
  with True show ?thesis using entered walk_round_enters by blast
next
  case False
  then show ?thesis using refused walk_round_refuses by blast
qed

lemma walk_round_goes_on:
  assumes "walk_round k w bound s = (Inr n, t)"
  shows "wl_taken s < wkb_steps (wf_budget w) \<and> wl_taken t = wl_taken s + 1"
proof (cases rule: walk_round_cases [of k w bound s])
  case (entered a)
  then have "take_step k bound a (enter k s) = (Inr n, t)" using assms by simp
  with entered(1) show ?thesis
    using take_step_keeps [of "enter k s" k bound a] by (simp add: may_enter_def keeps_place_def)
qed (use assms in simp)

function walk_from :: "walker \<Rightarrow> workflow \<Rightarrow> bindings \<Rightarrow> walking \<Rightarrow> walk_ending \<times> walking" where
  "walk_from k w bound s =
     (case walk_round k w bound s of
        (Inl e, t) \<Rightarrow> (e, t)
      | (Inr n, t) \<Rightarrow> walk_from k w bound (t\<lparr>wl_at := n\<rparr>))"
  by pat_completeness auto
termination
  by (relation "measure (\<lambda>(k, w, bound, s). wkb_steps (wf_budget w) - wl_taken s)")
    (auto dest: walk_round_goes_on [OF sym])

declare walk_from.simps [simp del]

record walk_report =
  rp_ending :: walk_ending
  rp_steps :: nat
  rp_ms :: nat
  rp_fallbacks :: nat
  rp_asked_jev :: bool
  rp_trail :: "json list"

definition walk_start :: "workflow \<Rightarrow> walking" where
  "walk_start w =
     \<lparr>wl_at = wf_start w, wl_facts = [], wl_trail = [], wl_visits = (\<lambda>_. 0), wl_taken = 0,
      wl_fallbacks = 0, wl_asked_jev = False, wl_done = []\<rparr>"

definition walk :: "walker \<Rightarrow> workflow \<Rightarrow> bindings \<Rightarrow> walk_report \<times> walk_deed list" where
  "walk k w bound =
     (let (e, s) = walk_from k w bound (walk_start w);
          t = deed ReadClock s
      in (\<lparr>rp_ending = e, rp_steps = wl_taken s, rp_ms = min (wk_elapsed k (wl_done t)) (2 ^ 64 - 1),
           rp_fallbacks = wl_fallbacks s, rp_asked_jev = wl_asked_jev s, rp_trail = wl_trail s\<rparr>, wl_done t))"

definition walk_ok :: "walk_report \<Rightarrow> bool" where
  "walk_ok r = (case rp_ending r of Stopped out say \<Rightarrow> True | _ \<Rightarrow> False)"

definition walk_receipt :: "walk_report \<Rightarrow> json" where
  "walk_receipt r =
     JObject ([(''shape'', JInt (int SHAPE)), (''ok'', JBool (walk_ok r)),
        (''ending'', JString (ending_word (rp_ending r))), (''say'', JString (ending_say (rp_ending r))),
        (''steps'', JInt (int (rp_steps r))), (''ms'', JInt (int (rp_ms r))),
        (''jev'', JString (if rp_asked_jev r then ''asked'' else ''off'')),
        (''fallbacks'', JInt (int (rp_fallbacks r))), (''trail'', JArray (rp_trail r))]
       @ (case rp_ending r of Stopped out say \<Rightarrow> [(''outcome'', JString out)] | _ \<Rightarrow> []))"

end
