(* ===== verification/Workflow_Laws.thy ===== *)
theory Workflow_Laws
  imports Workflow
begin

text \<open>
  What a workflow promises: the lint's search for a \<open>stop\<close> is reachability; a walk takes no more
  steps than its budget, none after its deadline, none more than three times with the facts it had;
  it plays only recipes it was allowed; a linted tree with its placeholders bound never breaks on
  its own; and every answer nobody gave is written down.
\<close>

section \<open>A reachable end\<close>

definition leads_to :: "(string, workflow_act) bmap \<Rightarrow> string \<Rightarrow> string \<Rightarrow> bool" where
  "leads_to steps a b \<longleftrightarrow> (\<exists>act. bm_get steps a = Some act \<and> b \<in> set (exits act))"

definition is_stop :: "(string, workflow_act) bmap \<Rightarrow> string \<Rightarrow> bool" where
  "is_stop steps n \<longleftrightarrow> (\<exists>out say. bm_get steps n = Some (StopAct out say))"

definition ends_from :: "(string, workflow_act) bmap \<Rightarrow> string \<Rightarrow> bool" where
  "ends_from steps n \<longleftrightarrow> (\<exists>m. (leads_to steps)\<^sup>*\<^sup>* n m \<and> is_stop steps m)"

lemma ends_from_unfold: "ends_from steps n \<longleftrightarrow> is_stop steps n \<or> (\<exists>m. leads_to steps n m \<and> ends_from steps m)"
  unfolding ends_from_def by (metis converse_rtranclpE converse_rtranclp_into_rtranclp rtranclp.rtrancl_refl)

text \<open>The search's invariant: what was seen is no end, and leads only to what was seen or is queued.\<close>

definition explored :: "(string, workflow_act) bmap \<Rightarrow> string set \<Rightarrow> string list \<Rightarrow> bool" where
  "explored steps seen queue \<longleftrightarrow>
     (\<forall>n\<in>seen. \<not> is_stop steps n \<and> (\<forall>m. leads_to steps n m \<longrightarrow> m \<in> seen \<union> set queue))"

lemma explored_escapes:
  assumes "explored steps seen queue" and "ends_from steps n" and "n \<in> seen"
  shows "\<exists>q\<in>set queue. ends_from steps q"
proof -
  obtain m where path: "(leads_to steps)\<^sup>*\<^sup>* n m" and stop: "is_stop steps m"
    using assms(2) by (auto simp: ends_from_def)
  from path assms(3) show ?thesis
  proof (induction rule: converse_rtranclp_induct)
    case base
    with stop assms(1) show ?case by (auto simp: explored_def)
  next
    case (step a b)
    then have "ends_from steps b" using stop by (auto simp: ends_from_def)
    with step assms(1) show ?case by (auto simp: explored_def)
  qed
qed

lemma search_stop_iff:
  "explored steps seen queue \<Longrightarrow> search_stop steps seen queue \<longleftrightarrow> (\<exists>q\<in>set queue. ends_from steps q)"
proof (induction steps seen queue rule: search_stop.induct)
  case (2 steps seen n queue)
  show ?case
  proof (cases "n \<in> seen")
    case True
    then have ex: "explored steps seen queue" using "2.prems" by (auto simp: explored_def)
    with True 2(1) show ?thesis using explored_escapes [OF ex] by auto
  next
    case new: False
    show ?thesis
    proof (cases "bm_get steps n")
      case None
      then have dead: "\<not> is_stop steps n" "\<not> leads_to steps n m" for m
        by (simp_all add: is_stop_def leads_to_def)
      then have "explored steps (insert n seen) queue" using "2.prems" by (auto simp: explored_def)
      moreover have "\<not> ends_from steps n" using dead by (subst ends_from_unfold) simp
      ultimately show ?thesis using 2(2) [OF new None] new None by simp
    next
      case (Some a)
      show ?thesis
      proof (cases "\<exists>out say. a = StopAct out say")
        case True
        then have "ends_from steps n" using Some by (subst ends_from_unfold) (auto simp: is_stop_def)
        with True Some new show ?thesis by auto
      next
        case False
        then have go: "\<not> is_stop steps n" "leads_to steps n m \<longleftrightarrow> m \<in> set (exits a)" for m
          using Some by (auto simp: is_stop_def leads_to_def)
        have "search_stop steps seen (n # queue) = search_stop steps (insert n seen) (rev (exits a) @ queue)"
          using new Some False by (cases a) auto
        moreover have ex: "explored steps (insert n seen) (rev (exits a) @ queue)"
          using "2.prems" go by (auto simp: explored_def)
        moreover have "search_stop steps (insert n seen) (rev (exits a) @ queue) \<longleftrightarrow>
            (\<exists>q\<in>set (rev (exits a) @ queue). ends_from steps q)"
          using "2.IH" new Some False ex by (cases a) auto
        moreover have "ends_from steps n \<longleftrightarrow> (\<exists>m\<in>set (exits a). ends_from steps m)"
          using go by (subst ends_from_unfold) auto
        ultimately show ?thesis by auto
      qed
    qed
  qed
qed simp


section \<open>What one step does\<close>

fun is_play :: "walk_deed \<Rightarrow> bool" where
  "is_play (PlayedRecipe r b q) = True"
| "is_play _ = False"

definition tells_fallback :: "json \<Rightarrow> bool" where
  "tells_fallback entry \<longleftrightarrow> json_get entry ''fallback'' \<noteq> None"

definition plays_of :: "walker \<Rightarrow> workflow_act \<Rightarrow> walk_deed \<Rightarrow> bool" where
  "plays_of k a d \<longleftrightarrow>
     (\<forall>r b q. d = PlayedRecipe r b q \<longrightarrow>
        r \<in> wk_allowed k \<and> b = wk_box_id k \<and> (\<exists>vs t els lv. a = RunAct r vs t els lv))"

text \<open>
  The effect of a step: what it adds to the deeds and to the trail, with the last entry's fallback
  counted.
\<close>

definition added :: "'a list \<Rightarrow> 'a list \<Rightarrow> 'a list" where
  "added old new = take (length new - length old) new"

lemma added_simps [simp]:
  "added xs xs = []" "added xs (a # xs) = [a]" "added xs (b # a # xs) = [b, a]" "added xs (c # b # a # xs) = [c, b, a]"
  by (simp_all add: added_def Suc_diff_le)

lemma added_suffix: "suffix old new \<Longrightarrow> new = added old new @ old"
  by (auto simp: added_def suffix_def)

definition step_effect :: "walker \<Rightarrow> workflow_act \<Rightarrow> walking \<Rightarrow> walking \<Rightarrow> bool" where
  "step_effect k a s t \<longleftrightarrow>
     (let ds = added (wl_done s) (wl_done t); es = drop (length (wl_trail s)) (wl_trail t)
      in suffix (wl_done s) (wl_done t) \<and> prefix (wl_trail s) (wl_trail t) \<and> length es \<le> 1 \<and>
         length (filter is_play ds) \<le> 1 \<and> ReadClock \<notin> set ds \<and> list_all (plays_of k a) ds \<and>
         wl_fallbacks t = wl_fallbacks s + length (filter tells_fallback es))"

lemma deed_fields [simp]:
  "wl_done (deed d s) = d # wl_done s" "wl_trail (deed d s) = wl_trail s"
  "wl_fallbacks (deed d s) = wl_fallbacks s" "wl_at (deed d s) = wl_at s"
  "wl_facts (deed d s) = wl_facts s" "wl_taken (deed d s) = wl_taken s" "wl_visits (deed d s) = wl_visits s"
  by (simp_all add: deed_def)

lemma learn_fields [simp]:
  "wl_done (learn f v s) = wl_done s" "wl_trail (learn f v s) = wl_trail s"
  "wl_fallbacks (learn f v s) = wl_fallbacks s" "wl_at (learn f v s) = wl_at s"
  by (simp_all add: learn_def)

lemma learn_receipt_fields [simp]:
  "wl_done (learn_receipt r rc s) = wl_done s" "wl_trail (learn_receipt r rc s) = wl_trail s"
  "wl_fallbacks (learn_receipt r rc s) = wl_fallbacks s" "wl_at (learn_receipt r rc s) = wl_at s"
  by (simp_all add: learn_receipt_def Let_def)

definition entry_of :: "string \<Rightarrow> workflow_act \<Rightarrow> (string \<times> json) list \<Rightarrow> json" where
  "entry_of at a extra =
     JObject (foldl (\<lambda>m (f, v). jm_insert f v m) [(''step'', JString at), (''do'', JString (workflow_act_word a))] extra)"

lemma push_trail_fields [simp]:
  "wl_done (push_trail a extra s) = wl_done s"
  "wl_trail (push_trail a extra s) = wl_trail s @ [entry_of (wl_at s) a extra]"
  "wl_fallbacks (push_trail a extra s) = wl_fallbacks s"
  "wl_facts (push_trail a extra s) = wl_facts s"
  by (simp_all add: push_trail_def entry_of_def)

lemma map_of_foldl_insert:
  "map_of (foldl (\<lambda>m (f, v). jm_insert f v m) m0 extra) k =
     (case map_of (rev extra) k of Some v \<Rightarrow> Some v | None \<Rightarrow> map_of m0 k)"
  by (induction extra arbitrary: m0) (auto simp: map_add_def split: option.splits)

lemma tells_fallback_entry: "tells_fallback (entry_of at a extra) \<longleftrightarrow> ''fallback'' \<in> fst ` set extra"
  by (auto simp: tells_fallback_def entry_of_def map_of_foldl_insert map_of_eq_None_iff split: option.splits)
    (force dest: map_of_SomeD)+

lemmas effect_simps = step_effect_def Let_def plays_of_def tells_fallback_entry suffix_Cons

lemma observe_effect: "step_effect k a s (snd (take_observe k bound f sh secs t s))"
  by (simp add: take_observe_def effect_simps split: sum.splits prod.splits)

lemma when_effect: "step_effect k a s (snd (take_when bound f t y n s))"
  by (simp add: take_when_def effect_simps split: sum.splits)

lemma run_effect: "step_effect k (RunAct r vs t els lv) s (snd (take_run k bound r vs t els lv s))"
  by (simp add: take_run_def effect_simps split: sum.splits prod.splits)

lemma put_question_effect:
  "put_question k nm q s = (r, t) \<Longrightarrow>
     wl_trail t = wl_trail s \<and> wl_fallbacks t = wl_fallbacks s \<and> wl_at t = wl_at s \<and>
     (wl_done t = wl_done s \<or> (\<exists>v. wl_done t = PutToJudge v nm q # wl_done s))"
  by (auto simp: put_question_def Let_def split: judging.splits sum.splits judge_error.splits)

lemma ask_effect: "step_effect k a s (snd (take_ask k bound nm q y n go s))"
  by (auto simp: take_ask_def effect_simps split: sum.splits prod.splits option.splits
      dest!: put_question_effect)

lemma take_step_effect: "take_step k bound a s = (r, t) \<Longrightarrow> step_effect k a s t"
  using observe_effect when_effect run_effect ask_effect
  by (cases a) (metis snd_conv take_step.simps, metis snd_conv take_step.simps, metis snd_conv take_step.simps,
    metis snd_conv take_step.simps, auto simp: effect_simps)


section \<open>Every walk\<close>

text \<open>An invariant of the rounds that take a step gives what holds at the end.\<close>

lemma walk_from_rule [consumes 2, case_names goes_on ends refused]:
  assumes "walk_from k w bound s = (e, t)" and "I s"
    and goes_on: "\<And>s a n t. I s \<Longrightarrow> may_enter k w s \<Longrightarrow> bm_get (wf_steps w) (wl_at s) = Some a \<Longrightarrow>
      take_step k bound a (enter k s) = (Inr n, t) \<Longrightarrow> I (t\<lparr>wl_at := n\<rparr>)"
    and ends: "\<And>s a e t. I s \<Longrightarrow> may_enter k w s \<Longrightarrow> bm_get (wf_steps w) (wl_at s) = Some a \<Longrightarrow>
      take_step k bound a (enter k s) = (Inl e, t) \<Longrightarrow> Q e t"
    and refused: "\<And>s e t. I s \<Longrightarrow> \<not> (may_enter k w s \<and> bm_get (wf_steps w) (wl_at s) \<noteq> None) \<Longrightarrow>
      walk_round k w bound s = (Inl e, t) \<Longrightarrow> Q e t"
  shows "Q e t"
  using assms(1,2)
proof (induction "wkb_steps (wf_budget w) - wl_taken s" arbitrary: s rule: less_induct)
  case less
  show ?case
  proof (cases "may_enter k w s \<and> bm_get (wf_steps w) (wl_at s) \<noteq> None")
    case True
    then obtain a where a: "bm_get (wf_steps w) (wl_at s) = Some a" by auto
    then have rnd: "walk_round k w bound s = take_step k bound a (enter k s)"
      using True walk_round_enters by blast
    show ?thesis
    proof (cases "take_step k bound a (enter k s)")
      case (Pair r t')
      show ?thesis
      proof (cases r)
        case (Inl e')
        then have "walk_from k w bound s = (e', t')" using Pair rnd by (simp add: walk_from.simps [of k w bound s])
        then show ?thesis using ends [OF less.prems(2) _ a] True Pair Inl less.prems(1) by simp
      next
        case (Inr n)
        then have "walk_from k w bound s = walk_from k w bound (t'\<lparr>wl_at := n\<rparr>)"
          using Pair rnd by (simp add: walk_from.simps [of k w bound s])
        moreover have "wkb_steps (wf_budget w) - wl_taken (t'\<lparr>wl_at := n\<rparr>) < wkb_steps (wf_budget w) - wl_taken s"
          using walk_round_goes_on [of k w bound s n t'] Pair Inr rnd by auto
        moreover have "I (t'\<lparr>wl_at := n\<rparr>)" using goes_on [OF less.prems(2) _ a] True Pair Inr by simp
        ultimately show ?thesis using less.hyps [of "t'\<lparr>wl_at := n\<rparr>"] less.prems(1) by simp
      qed
    qed
  next
    case False
    then obtain e' t' where "walk_round k w bound s = (Inl e', t')" using walk_round_refuses by blast
    moreover from this have "walk_from k w bound s = (e', t')" by (simp add: walk_from.simps [of k w bound s])
    ultimately show ?thesis using refused [OF less.prems(2) False] less.prems(1) by simp
  qed
qed

lemma refused_round:
  assumes "walk_round k w bound s = (Inl e, t)" and "\<not> (may_enter k w s \<and> bm_get (wf_steps w) (wl_at s) \<noteq> None)"
  shows "wl_at t = wl_at s \<and> wl_trail t = wl_trail s \<and> wl_taken t = wl_taken s \<and> wl_fallbacks t = wl_fallbacks s
    \<and> wl_done t \<in> {wl_done s, ReadClock # wl_done s}
    \<and> (bm_get (wf_steps w) (wl_at s) \<noteq> None \<longrightarrow> (\<forall>at why. e \<noteq> Broken at why) \<and> (\<forall>at r why. e \<noteq> RecipeFailed at r why))"
  using assms by (auto simp: walk_round_def may_enter_def Let_def split: if_splits)


lemma entered_effect:
  assumes "take_step k bound a (enter k s) = (r, t)"
  obtains ds es where "wl_done t = ds @ ReadClock # wl_done s" and "wl_trail t = wl_trail s @ es"
    and "length es \<le> 1" and "length (filter is_play ds) \<le> 1" and "ReadClock \<notin> set ds"
    and "list_all (plays_of k a) ds" and "wl_fallbacks t = wl_fallbacks s + length (filter tells_fallback es)"
    and "wl_taken t = wl_taken s + 1" and "wl_at t = wl_at s"
    and "wl_visits t = wl_visits (enter k s)"
proof -
  have eff: "step_effect k a (enter k s) t" using take_step_effect [OF assms] .
  have place: "keeps_place (enter k s) t" using take_step_keeps [of "enter k s" k bound a] assms by simp
  have "wl_done t = added (ReadClock # wl_done s) (wl_done t) @ ReadClock # wl_done s"
    using eff by (intro added_suffix) (simp add: step_effect_def Let_def)
  moreover have "wl_trail t = wl_trail s @ drop (length (wl_trail s)) (wl_trail t)"
    using eff by (auto simp: step_effect_def Let_def prefix_def)
  ultimately show thesis
    using that eff place by (auto simp: step_effect_def Let_def keeps_place_def)
qed

definition recipes_played :: "walk_deed list \<Rightarrow> nat" where
  "recipes_played ds = length (filter is_play ds)"

lemma recipes_played_simps [simp]:
  "recipes_played [] = 0" "recipes_played (ReadClock # ds) = recipes_played ds"
  "recipes_played (xs @ ys) = recipes_played xs + recipes_played ys"
  by (simp_all add: recipes_played_def)

definition within :: "workflow \<Rightarrow> walking \<Rightarrow> bool" where
  "within w s \<longleftrightarrow>
     wl_taken s \<le> wkb_steps (wf_budget w) \<and> length (wl_trail s) \<le> wl_taken s \<and>
     recipes_played (wl_done s) \<le> wl_taken s \<and>
     wl_fallbacks s = length (filter tells_fallback (wl_trail s))"

lemma within_step:
  assumes "within w s" and "may_enter k w s" and "take_step k bound a (enter k s) = (r, t)"
  shows "within w t"
proof -
  obtain ds es where "wl_done t = ds @ ReadClock # wl_done s" "wl_trail t = wl_trail s @ es" "length es \<le> 1"
      "recipes_played ds \<le> 1" "wl_fallbacks t = wl_fallbacks s + length (filter tells_fallback es)"
      "wl_taken t = wl_taken s + 1"
    using entered_effect [OF assms(3)] unfolding recipes_played_def by metis
  with assms(1,2) show ?thesis by (simp add: within_def may_enter_def)
qed

lemma within_walk: "walk_from k w bound s = (e, t) \<Longrightarrow> within w s \<Longrightarrow> within w t"
proof (induction rule: walk_from_rule)
  case (goes_on s a n t)
  then show ?case using within_step [OF goes_on(1,2,4)] by (simp add: within_def)
next
  case (ends s a e t)
  then show ?case using within_step by blast
next
  case (refused s e t)
  from refused_round [OF refused(3,2)] refused(1) show ?case by (auto simp: within_def)
qed

lemma walk_report_within:
  "walk k w bound = (r, ds) \<Longrightarrow>
     \<exists>s. walk_from k w bound (walk_start w) = (rp_ending r, s) \<and> within w s \<and> rp_steps r = wl_taken s \<and>
       rp_trail r = wl_trail s \<and> rp_fallbacks r = wl_fallbacks s \<and> ds = ReadClock # wl_done s"
proof -
  assume walk: "walk k w bound = (r, ds)"
  obtain e s where s: "walk_from k w bound (walk_start w) = (e, s)" by fastforce
  have "within w (walk_start w)" by (simp add: within_def walk_start_def)
  with within_walk [OF s] walk s show ?thesis by (auto simp: walk_def Let_def)
qed

lemma parsed_is_linted:
  "workflow_parse read_body v = Inr w \<Longrightarrow> lint_workflow w = Inr () \<and>
     1 \<le> wkb_steps (wf_budget w) \<and> wkb_steps (wf_budget w) \<le> 500 \<and>
     1 \<le> wkb_seconds (wf_budget w) \<and> wkb_seconds (wf_budget w) \<le> 3600"
  by (auto simp: workflow_parse_def Let_def walk_budget_clamped_def BUDGET_MAX_STEPS_def
      BUDGET_MAX_SECONDS_def split: if_splits)

text \<open>C18: a walk always ends, within its budget: it takes no more steps than that, plays at most one recipe
  a step, and writes at most one line of its trail a step. A body's budget is never over five
  hundred steps, whatever it asks for.
\<close>

theorem walk_is_bounded:
  assumes "workflow_parse read_body v = Inr w"
  shows "rp_steps (fst (walk k w bound)) \<le> wkb_steps (wf_budget w) \<and> wkb_steps (wf_budget w) \<le> 500 \<and>
    recipes_played (snd (walk k w bound)) \<le> rp_steps (fst (walk k w bound)) \<and>
    length (rp_trail (fst (walk k w bound))) \<le> rp_steps (fst (walk k w bound))"
proof -
  obtain s where "within w s" "rp_steps (fst (walk k w bound)) = wl_taken s"
      "rp_trail (fst (walk k w bound)) = wl_trail s" "snd (walk k w bound) = ReadClock # wl_done s"
    using walk_report_within [OF surjective_pairing, of k w bound] by auto
  with parsed_is_linted [OF assms(1)] show ?thesis by (simp add: within_def)
qed

text \<open>
  Every answer nobody gave is written down: the fallbacks a report counts are exactly the lines of
  its trail that tell one.
\<close>

theorem fallbacks_are_written:
  "rp_fallbacks (fst (walk k w bound)) = length (filter tells_fallback (rp_trail (fst (walk k w bound))))"
  using walk_report_within [OF surjective_pairing, of k w bound] by (auto simp: within_def)

section \<open>What may be played\<close>

definition only_allowed :: "walker \<Rightarrow> workflow \<Rightarrow> walk_deed list \<Rightarrow> bool" where
  "only_allowed k w ds \<longleftrightarrow>
     (\<forall>r b q. PlayedRecipe r b q \<in> set ds \<longrightarrow>
        r \<in> wk_allowed k \<and> r \<in> workflow_recipes w \<and> b = wk_box_id k)"

lemma only_allowed_clock [simp]: "only_allowed k w (ReadClock # ds) = only_allowed k w ds"
  by (simp add: only_allowed_def)

lemma only_allowed_step:
  assumes "only_allowed k w (wl_done s)" and "bm_get (wf_steps w) (wl_at s) = Some a"
    and "take_step k bound a (enter k s) = (r, t)"
  shows "only_allowed k w (wl_done t)"
proof -
  obtain ds where ds: "wl_done t = ds @ ReadClock # wl_done s" "list_all (plays_of k a) ds"
    using entered_effect [OF assms(3)] by metis
  have "(wl_at s, a) \<in> set (wf_steps w)" using assms(2) by (auto simp: bm_get_def dest: map_of_SomeD)
  then have named: "a = RunAct rc vs n els lv \<Longrightarrow> rc \<in> workflow_recipes w" for rc vs n els lv
    by (force simp: workflow_recipes_def)
  have "rc \<in> wk_allowed k \<and> rc \<in> workflow_recipes w \<and> b = wk_box_id k" if "PlayedRecipe rc b q \<in> set ds" for rc b q
  proof -
    have "plays_of k a (PlayedRecipe rc b q)" using that ds(2) by (simp add: list_all_iff)
    with named show ?thesis by (auto simp: plays_of_def)
  qed
  with ds(1) assms(1) show ?thesis unfolding only_allowed_def by auto
qed

lemma only_allowed_walk:
  "walk_from k w bound s = (e, t) \<Longrightarrow> only_allowed k w (wl_done s) \<Longrightarrow> only_allowed k w (wl_done t)"
proof (induction rule: walk_from_rule)
  case (goes_on s a n t)
  then show ?case using only_allowed_step [OF goes_on(1,3,4)] by simp
next
  case (ends s a e t)
  then show ?case using only_allowed_step by blast
next
  case (refused s e t)
  from refused_round [OF refused(3,2)] refused(1) show ?case by auto
qed

text \<open>C20: a walk plays only the recipes the caller allowed, only those its own tree names, and only on the
  box it was given.
\<close>

theorem only_allowed_recipes_play: "only_allowed k w (snd (walk k w bound))"
proof -
  obtain e s where "walk_from k w bound (walk_start w) = (e, s)" and ds: "snd (walk k w bound) = ReadClock # wl_done s"
    using walk_report_within [OF surjective_pairing, of k w bound] by auto
  moreover have "only_allowed k w (wl_done (walk_start w))" by (simp add: only_allowed_def walk_start_def)
  ultimately have "only_allowed k w (wl_done s)" using only_allowed_walk by blast
  with ds show ?thesis by simp
qed


section \<open>The clock\<close>

text \<open>
  Whether every deed was begun in time: the clock read last before it showed less than the deadline.
\<close>

definition in_time :: "walker \<Rightarrow> nat \<Rightarrow> walk_deed list \<Rightarrow> bool" where
  "in_time k deadline past =
     (case dropWhile (\<lambda>d. d \<noteq> ReadClock) past of [] \<Rightarrow> False | c # cs \<Rightarrow> wk_elapsed k (c # cs) < deadline)"

fun timely :: "walker \<Rightarrow> nat \<Rightarrow> walk_deed list \<Rightarrow> bool" where
  "timely k deadline [] \<longleftrightarrow> True"
| "timely k deadline (d # past) \<longleftrightarrow> (d = ReadClock \<or> in_time k deadline past) \<and> timely k deadline past"

lemma timely_entered:
  assumes "timely k deadline past" and "wk_elapsed k (ReadClock # past) < deadline" and "ReadClock \<notin> set ds"
  shows "timely k deadline (ds @ ReadClock # past)"
  using assms(3)
proof (induction ds)
  case (Cons d ds)
  have "dropWhile (\<lambda>d. d \<noteq> ReadClock) (ds @ ReadClock # past) = ReadClock # past"
    using Cons.prems by (subst dropWhile_append2) auto
  then show ?case using Cons assms(2) by (simp add: in_time_def)
qed (use assms in simp)

lemma timely_walk:
  "walk_from k w bound s = (e, t) \<Longrightarrow> timely k (wkb_seconds (wf_budget w) * 1000) (wl_done s) \<Longrightarrow>
     timely k (wkb_seconds (wf_budget w) * 1000) (wl_done t)"
proof (induction rule: walk_from_rule)
  case (goes_on s a n t)
  then show ?case using entered_effect [OF goes_on(4)] timely_entered by (fastforce simp: may_enter_def)
next
  case (ends s a e t)
  then show ?case using entered_effect [OF ends(4)] timely_entered by (fastforce simp: may_enter_def)
next
  case (refused s e t)
  from refused_round [OF refused(3,2)] refused(1) show ?case by auto
qed

text \<open>
  No step is begun after the deadline: every probe, every fetch, every play, every record and every
  question comes after a reading of the clock that was under it.
\<close>

theorem nothing_starts_late: "timely k (wkb_seconds (wf_budget w) * 1000) (snd (walk k w bound))"
proof -
  obtain e s where "walk_from k w bound (walk_start w) = (e, s)" and ds: "snd (walk k w bound) = ReadClock # wl_done s"
    using walk_report_within [OF surjective_pairing, of k w bound] by auto
  then show ?thesis using timely_walk by (simp add: walk_start_def)
qed

section \<open>Standing still\<close>

text \<open>The steps a walk takes, each with the facts it was taken on.\<close>

function places :: "walker \<Rightarrow> workflow \<Rightarrow> bindings \<Rightarrow> walking \<Rightarrow> (string \<times> bindings) list" where
  "places k w bound s =
     (if may_enter k w s \<and> bm_get (wf_steps w) (wl_at s) \<noteq> None
      then (wl_at s, wl_facts s) #
        (case walk_round k w bound s of (Inl e, t) \<Rightarrow> [] | (Inr n, t) \<Rightarrow> places k w bound (t\<lparr>wl_at := n\<rparr>))
      else [])"
  by pat_completeness auto
termination
  by (relation "measure (\<lambda>(k, w, bound, s). wkb_steps (wf_budget w) - wl_taken s)")
    (auto dest: walk_round_goes_on [OF sym])

declare places.simps [simp del]

definition marks :: "walker \<Rightarrow> (string \<times> bindings) list \<Rightarrow> nat list" where
  "marks k ps = map (\<lambda>(at, facts). mark k at facts) ps"

lemma count_marks: "count_list ps p \<le> count_list (marks k ps) (mark k (fst p) (snd p))"
  by (induction ps) (auto simp: marks_def)

lemma marks_bounded:
  "count_list (marks k (places k w bound s)) m + wl_visits s m \<le> max SAME_PLACE_ALLOWED (wl_visits s m)"
proof (induction "wkb_steps (wf_budget w) - wl_taken s" arbitrary: s rule: less_induct)
  case less
  show ?case
  proof (cases "may_enter k w s \<and> bm_get (wf_steps w) (wl_at s) \<noteq> None")
    case False
    then have "places k w bound s = []" by (simp add: places.simps [of k w bound s])
    then show ?thesis by (simp add: marks_def)
  next
    case True
    then obtain a where a: "bm_get (wf_steps w) (wl_at s) = Some a" by auto
    let ?here = "mark k (wl_at s) (wl_facts s)"
    obtain r t where r: "take_step k bound a (enter k s) = (r, t)" by fastforce
    have rnd: "walk_round k w bound s = (r, t)" using True a r walk_round_enters by simp
    have "wl_visits t = wl_visits (enter k s)" using entered_effect [OF r] by metis
    then have visits: "wl_visits t = (wl_visits s)(?here := wl_visits s ?here + 1)"
      by (simp add: enter_def Let_def)
    have here: "wl_visits s ?here < SAME_PLACE_ALLOWED" using True by (simp add: may_enter_def)
    show ?thesis
    proof (cases r)
      case (Inl e)
      then show ?thesis using True rnd here by (auto simp: places.simps [of k w bound s] marks_def)
    next
      case (Inr n)
      have "count_list (marks k (places k w bound (t\<lparr>wl_at := n\<rparr>))) m + wl_visits t m
          \<le> max SAME_PLACE_ALLOWED (wl_visits t m)"
        using less [of "t\<lparr>wl_at := n\<rparr>"] walk_round_goes_on [of k w bound s n t] rnd Inr by auto
      then show ?thesis
        using True rnd here visits Inr by (auto simp: places.simps [of k w bound s] marks_def split: if_splits)
    qed
  qed
qed

lemma places_length:
  "walk_from k w bound s = (e, t) \<Longrightarrow> wl_taken s + length (places k w bound s) = wl_taken t"
proof (induction "wkb_steps (wf_budget w) - wl_taken s" arbitrary: s rule: less_induct)
  case less
  show ?case
  proof (cases "may_enter k w s \<and> bm_get (wf_steps w) (wl_at s) \<noteq> None")
    case False
    then have "places k w bound s = []" by (simp add: places.simps [of k w bound s])
    moreover obtain e' t' where "walk_round k w bound s = (Inl e', t')" "wl_taken t' = wl_taken s"
      using walk_round_refuses [OF False] by blast
    ultimately show ?thesis using less.prems by (simp add: walk_from.simps [of k w bound s])
  next
    case True
    then obtain a where a: "bm_get (wf_steps w) (wl_at s) = Some a" by auto
    obtain r t' where r: "take_step k bound a (enter k s) = (r, t')" by fastforce
    have rnd: "walk_round k w bound s = (r, t')" using True a r walk_round_enters by simp
    have taken: "wl_taken t' = wl_taken s + 1" using entered_effect [OF r] by metis
    show ?thesis
    proof (cases r)
      case (Inl e')
      then show ?thesis
        using True rnd taken less.prems by (simp add: places.simps [of k w bound s] walk_from.simps [of k w bound s])
    next
      case (Inr n)
      then have "walk_from k w bound (t'\<lparr>wl_at := n\<rparr>) = (e, t)"
        using rnd less.prems by (simp add: walk_from.simps [of k w bound s])
      then have "wl_taken t' + length (places k w bound (t'\<lparr>wl_at := n\<rparr>)) = wl_taken t"
        using less.hyps [of "t'\<lparr>wl_at := n\<rparr>"] walk_round_goes_on [of k w bound s n t'] rnd Inr by auto
      then show ?thesis using True rnd taken Inr by (simp add: places.simps [of k w bound s])
    qed
  qed
qed

text \<open>A walk that stands still is cut: of all the steps it takes, none is taken more than three times
  with the same facts, whatever the hash of the two is.
\<close>

theorem standing_still_is_cut:
  "length (places k w bound (walk_start w)) = rp_steps (fst (walk k w bound)) \<and>
    count_list (places k w bound (walk_start w)) (at, facts) \<le> 3"
proof
  obtain e s where "walk_from k w bound (walk_start w) = (e, s)" "rp_steps (fst (walk k w bound)) = wl_taken s"
    using walk_report_within [OF surjective_pairing, of k w bound] by auto
  then show "length (places k w bound (walk_start w)) = rp_steps (fst (walk k w bound))"
    using places_length [of k w bound "walk_start w"] by (simp add: walk_start_def)
  show "count_list (places k w bound (walk_start w)) (at, facts) \<le> 3"
    using marks_bounded [of k w bound "walk_start w" "mark k at facts"]
      count_marks [of "places k w bound (walk_start w)" "(at, facts)" k]
    by (simp add: walk_start_def SAME_PLACE_ALLOWED_def)
qed


section \<open>A linted tree does not break\<close>

text \<open>Every text a step fills in can be.\<close>

fun fillable :: "bindings \<Rightarrow> workflow_act \<Rightarrow> bool" where
  "fillable bound (RunAct r vs t els lv) \<longleftrightarrow> list_all (\<lambda>(f, v). is_ok (substitute v bound)) vs"
| "fillable bound (ObserveAct f sh secs t) \<longleftrightarrow> is_ok (substitute sh bound)"
| "fillable bound (WhenAct f t y n) \<longleftrightarrow>
     (case t of TestIs x \<Rightarrow> is_ok (substitute x bound) | TestContains x \<Rightarrow> is_ok (substitute x bound) | TestEmpty \<Rightarrow> True)"
| "fillable bound (AskAct nm q y n go) \<longleftrightarrow> is_ok (substitute (question_instructions q) bound)"
| "fillable bound (StopAct out say) \<longleftrightarrow> True"

text \<open>
  A world that answers: the box and the recipes' source never fail, the judge may say anything or
  nothing but never that a question was malformed, and the caller allowed the tree's recipes.
\<close>

definition answering :: "walker \<Rightarrow> workflow \<Rightarrow> bool" where
  "answering k w \<longleftrightarrow>
     (\<forall>h. is_ok (wk_run k h) \<and> is_ok (wk_recipe_request k h) \<and> is_ok (wk_run_recipe k h) \<and>
        (\<forall>why. wk_judge k h \<noteq> Inl (Malformed why))) \<and>
     workflow_recipes w \<subseteq> wk_allowed k"

fun is_broken :: "walk_ending \<Rightarrow> bool" where
  "is_broken (Broken at why) = True"
| "is_broken _ = False"

lemma lint_choices_go: "lint_choices st q go seen ls = Inr () \<Longrightarrow> l \<in> set ls \<Longrightarrow> bm_get go l \<noteq> None"
  by (induction ls arbitrary: seen) auto

lemma lint_levels_go: "lint_levels st q go seen ls = Inr () \<Longrightarrow> l \<in> set ls \<Longrightarrow> bm_get go l \<noteq> None"
  by (induction ls arbitrary: seen) auto

lemma linted_question_falls_back:
  assumes "lint_question st nm q y n go = Inr ()"
  shows "\<exists>answer rule went. fallback q = Some (answer, rule) \<and> branch_for q answer y n go = Some went"
proof (cases q)
  case (Noul i ym nom)
  then show ?thesis using assms by (auto simp: branch_for_def)
next
  case (ChoiceQuestion i cs)
  then obtain c cs' where cs: "cs = c # cs'" using assms by (cases cs) auto
  then have "bm_get go (choice_label c) \<noteq> None"
    using assms ChoiceQuestion lint_choices_go [of st nm go "{}" "map choice_label cs" "choice_label c"] by simp
  then show ?thesis using ChoiceQuestion cs by (auto simp: branch_for_def)
next
  case (ScoreQuestion i ls)
  then have "ls \<noteq> []" using assms by auto
  then have mid: "length ls div 2 < length ls" by (cases ls) auto
  then have "bm_get go (ls ! (length ls div 2)) \<noteq> None"
    using assms ScoreQuestion lint_levels_go [of st nm go "{}" ls] by simp
  then show ?thesis using ScoreQuestion mid by (auto simp: branch_for_def)
qed

lemma with_instructions_same [simp]:
  "fallback (with_instructions q t) = fallback q" "branch_for (with_instructions q t) = branch_for q"
  by (cases q; simp add: branch_for_def fun_eq_iff)+

lemma settled_goes:
  assumes "lint_question st nm' q y n go = Inr ()"
  shows "\<exists>answer confidence because went.
    settle_verdict nm (with_instructions q t) asked y n go = Inr (answer, confidence, because, Some went)"
proof -
  obtain answer rule went where "fallback q = Some (answer, rule)" "branch_for q answer y n go = Some went"
    using linted_question_falls_back [OF assms] by blast
  then show ?thesis by (auto simp: settle_verdict_def split: sum.splits option.splits)
qed

lemma branch_for_exits:
  "branch_for q answer y n go = Some went \<Longrightarrow> went \<in> set (option_list y @ option_list n @ map snd go)"
  by (cases q) (force simp: branch_for_def option_list_def bm_get_def dest: map_of_SomeD split: if_splits)+

lemma settled_exits:
  "settle_verdict nm q asked y n go = Inr (answer, confidence, because, Some went) \<Longrightarrow>
     went \<in> set (option_list y @ option_list n @ map snd go)"
  by (auto simp: settle_verdict_def simp del: set_append split: sum.splits option.splits dest!: branch_for_exits)

lemma take_step_exits: "take_step k bound a s = (Inr went, t) \<Longrightarrow> went \<in> set (exits a)"
proof (cases a)
  case (RunAct r vs onward els lv)
  then show "take_step k bound a s = (Inr went, t) \<Longrightarrow> ?thesis"
    by (auto simp: take_run_def Let_def option_list_def split: if_splits sum.splits prod.splits option.splits)
next
  case (AskAct nm q y n go)
  then show "take_step k bound a s = (Inr went, t) \<Longrightarrow> ?thesis"
    by (auto simp: take_ask_def Let_def simp del: set_append set_map split: sum.splits prod.splits option.splits
        dest!: settled_exits)
qed (auto simp: take_observe_def take_when_def Let_def split: sum.splits prod.splits if_splits)


lemma fill_values_ok: "list_all (\<lambda>(f, v). is_ok (substitute v bound)) vs \<Longrightarrow> is_ok (fill_values vs bound)"
  by (induction vs) (auto simp: is_ok_iff)

lemma put_question_answers:
  "answering k w \<Longrightarrow> \<exists>asked t. put_question k nm q s = (Inr asked, t)"
  by (auto simp: put_question_def answering_def Let_def split: judging.splits sum.splits judge_error.splits)

lemma take_ask_goes:
  assumes "answering k w" and "lint_act nm (AskAct qn q y n go) = Inr ()" and "fillable bound (AskAct qn q y n go)"
  shows "\<exists>went t. take_ask k bound qn q y n go s = (Inr went, t)"
proof -
  obtain words where words: "substitute (question_instructions q) bound = Inr words"
    using assms(3) by (auto simp: is_ok_iff)
  obtain asked t where put: "put_question k qn (with_instructions q words) s = (Inr asked, t)"
    using put_question_answers [OF assms(1)] by blast
  have "lint_question nm qn q y n go = Inr ()" using assms(2) by (auto simp: lint_ask_def)
  from settled_goes [OF this, of qn words asked] obtain answer confidence because went where
    "settle_verdict qn (with_instructions q words) asked y n go = Inr (answer, confidence, because, Some went)"
    by blast
  then show ?thesis using words put by (auto simp: take_ask_def Let_def split: prod.splits)
qed

lemma take_step_unbroken:
  assumes "answering k w" and "(nm, a) \<in> set (wf_steps w)" and "lint_act nm a = Inr ()" and "fillable bound a"
    and "take_step k bound a s = (Inl e, t)"
  shows "\<not> is_broken e"
proof (cases a)
  case (RunAct r vs onward els lv)
  have "r \<in> wk_allowed k"
    using assms(1,2) RunAct by (force simp: answering_def workflow_recipes_def)
  moreover obtain filled where "fill_values vs bound = Inr filled"
    using fill_values_ok [of bound vs] assms(4) RunAct by (auto simp: is_ok_iff)
  moreover have "is_ok (wk_recipe_request k h)" "is_ok (wk_run_recipe k h)" for h
    using assms(1) by (simp_all add: answering_def)
  ultimately show ?thesis
    using assms(5) RunAct
    by (auto simp: take_run_def Let_def split: sum.splits prod.splits option.splits if_splits)
       (metis is_ok_simps(1))+
next
  case (ObserveAct f sh secs onward)
  have "is_ok (wk_run k h)" for h using assms(1) by (simp add: answering_def)
  then show ?thesis
    using assms(4,5) ObserveAct
    by (auto simp: take_observe_def Let_def split: sum.splits prod.splits) (metis is_ok_simps(1))+
next
  case (WhenAct f x y n)
  then show ?thesis
    using assms(4,5) by (cases x) (auto simp: take_when_def test_holds_def Let_def is_ok_iff)
next
  case (AskAct qn q y n go)
  then show ?thesis using take_ask_goes [OF assms(1), of nm qn q y n go bound s] assms(3,4,5) by auto
next
  case (StopAct out say)
  then show ?thesis using assms(5) by auto
qed

lemma lint_exits_known: "lint_exits steps nm xs = Inr () \<Longrightarrow> x \<in> set xs \<Longrightarrow> bm_get steps x \<noteq> None"
  by (induction xs) auto

lemma lint_named_each:
  "lint_named steps rest = Inr () \<Longrightarrow> (nm, a) \<in> set rest \<Longrightarrow>
     lint_act nm a = Inr () \<and> (\<forall>x\<in>set (exits a). bm_get steps x \<noteq> None)"
  using lint_exits_known by (induction steps rest rule: lint_named.induct) auto

lemma linted_step:
  assumes "lint_workflow w = Inr ()" and "bm_get (wf_steps w) at = Some a"
  shows "(at, a) \<in> set (wf_steps w) \<and> lint_act at a = Inr () \<and>
    (\<forall>x\<in>set (exits a). bm_get (wf_steps w) x \<noteq> None)"
proof -
  have "(at, a) \<in> set (wf_steps w)" using assms(2) by (auto simp: bm_get_def dest: map_of_SomeD)
  with assms(1) show ?thesis using lint_named_each [of "wf_steps w" "wf_steps w" at a]
    by (auto simp: lint_workflow_def)
qed

lemma linted_walk_unbroken:
  assumes "walk_from k w bound s = (e, t)" and "bm_get (wf_steps w) (wl_at s) \<noteq> None"
    and "lint_workflow w = Inr ()" and "list_all (\<lambda>(nm, a). fillable bound a) (wf_steps w)" and "answering k w"
  shows "\<not> is_broken e"
  using assms(1,2)
proof (induction rule: walk_from_rule)
  case (goes_on s a n t)
  then show ?case using take_step_exits [OF goes_on(4)] linted_step [OF assms(3) goes_on(3)] by simp
next
  case (ends s a e t)
  note lint = linted_step [OF assms(3) ends(3)]
  then have "fillable bound a" using assms(4) by (auto simp: list_all_iff)
  then show ?case using take_step_unbroken [OF assms(5) _ _ _ ends(4)] lint by blast
next
  case (refused s e t)
  then show ?case using refused_round [OF refused(3,2)] by (cases e) auto
qed

text \<open>C17: a tree the lint passed, with every placeholder bound, in a world that answers, never breaks:
  wherever it goes there is a step, and every question is answered, by the judge or by its agreed
  fallback, with a branch to take, even when the judge says something nobody offered.
\<close>

theorem a_linted_tree_never_breaks:
  assumes "workflow_parse read_body v = Inr w"
    and "list_all (\<lambda>(nm, a). fillable bound a) (wf_steps w)" and "answering k w"
  shows "\<not> is_broken (rp_ending (fst (walk k w bound)))"
proof -
  have lint: "lint_workflow w = Inr ()" using parsed_is_linted [OF assms(1)] by simp
  then have "bm_get (wf_steps w) (wl_at (walk_start w)) \<noteq> None"
    by (auto simp: lint_workflow_def walk_start_def)
  moreover obtain s where "walk_from k w bound (walk_start w) = (rp_ending (fst (walk k w bound)), s)"
    using walk_report_within [OF surjective_pairing, of k w bound] by auto
  ultimately show ?thesis using linted_walk_unbroken lint assms(2,3) by blast
qed

text \<open>C27: the lint's search is reachability: a tree is refused for having no end exactly when no \<open>stop\<close>
  can be reached from its start along the steps' exits.
\<close>

theorem stop_search_is_reachability:
  "reaches_a_stop w \<longleftrightarrow>
     (\<exists>n out say. (leads_to (wf_steps w))\<^sup>*\<^sup>* (wf_start w) n \<and> bm_get (wf_steps w) n = Some (StopAct out say))"
  using search_stop_iff [of "wf_steps w" "{}" "[wf_start w]"]
  by (auto simp: reaches_a_stop_def explored_def ends_from_def is_stop_def)


section \<open>A sample walk\<close>

text \<open>
  A tree that looks, asks, plays one recipe and stops, in a world that answers everything and a
  judge that answers nothing anybody offered.
\<close>

definition sample_steps :: "(string, workflow_act) bmap" where
  "sample_steps =
     [(''ask'', AskAct ''clean'' (Noul ''Is {{what}} empty?'' None None) (Some ''play'') (Some ''play'') []),
      (''done'', StopAct ''done'' ''searched once''),
      (''look'', ObserveAct ''windows'' ''wmctrl -lx'' None ''see''),
      (''play'', RunAct ''rcp'' [(''q'', ''{{what}}'')] ''done'' None None),
      (''see'', WhenAct ''windows'' (TestContains ''chrome'') ''ask'' ''done'')]"

definition sample_body :: workflow_body where
  "sample_body =
     \<lparr>bo_workflow = 1, bo_start = ''look'', bo_steps = sample_steps, bo_parameters = [],
      bo_budget = Some \<lparr>wkb_steps = 9, wkb_seconds = 1\<rparr>\<rparr>"

definition sample_tree :: workflow where
  "sample_tree =
     \<lparr>wf_start = ''look'', wf_steps = sample_steps, wf_parameters = [],
      wf_budget = \<lparr>wkb_steps = 9, wkb_seconds = 1\<rparr>\<rparr>"

definition sample_walker :: walker where
  "sample_walker =
     \<lparr>wk_box_id = ''box_1'', wk_allowed = {''rcp''}, wk_judging = JudgingAsk, wk_name = ''search'',
      wk_observe = ObserveOff, wk_elapsed = length, wk_run = (\<lambda>h. Inr (0, ''chrome'')),
      wk_recipe_request = (\<lambda>h. Inr (3, JObject [])),
      wk_run_recipe = (\<lambda>h. Inr (JObject [(''ok'', JBool True), (''ran'', JInt 1)])),
      wk_record_run = (\<lambda>h. Some ''run_1''),
      wk_judge = (\<lambda>h. Inr \<lparr>vd_answer = ''maybe'', vd_confidence = 0\<rparr>),
      wk_hash = (\<lambda>xs. length (concat xs))\<rparr>"

definition sample_values :: bindings where
  "sample_values = [(''what'', ''it'')]"

lemma sample_parses:
  "workflow_parse (\<lambda>v. Inr sample_body) (JObject [(''workflow'', JInt 1)]) = Inr sample_tree"
  by code_simp

lemma sample_fillable: "list_all (\<lambda>(nm, a). fillable sample_values a) (wf_steps sample_tree)"
  by code_simp

lemma sample_answering: "answering sample_walker sample_tree"
proof -
  have "workflow_recipes sample_tree = {''rcp''}" by code_simp
  then show ?thesis by (simp add: answering_def sample_walker_def)
qed

lemma sample_ending:
  "(case walk_from sample_walker sample_tree sample_values (walk_start sample_tree) of
      (e, s) \<Rightarrow> (e, wl_taken s, recipes_played (wl_done s)))
   = (Stopped ''done'' ''searched once'', 5, 1)"
  by code_simp

lemma sample_report:
  "rp_ending (fst (walk sample_walker sample_tree sample_values)) = Stopped ''done'' ''searched once''"
  "rp_steps (fst (walk sample_walker sample_tree sample_values)) = 5"
  using sample_ending by (auto simp: walk_def Let_def split: prod.splits)

theorem walk_is_bounded_witness:
  "workflow_parse (\<lambda>v. Inr sample_body) (JObject [(''workflow'', JInt 1)]) = Inr sample_tree \<and>
   rp_steps (fst (walk sample_walker sample_tree sample_values)) = 5 \<and>
   recipes_played (snd (walk sample_walker sample_tree sample_values)) \<le> 5 \<and>
   length (rp_trail (fst (walk sample_walker sample_tree sample_values))) \<le> 5"
  using walk_is_bounded [OF sample_parses, of sample_walker sample_values] sample_parses
  by (simp add: sample_report)

theorem a_linted_tree_never_breaks_witness:
  "rp_ending (fst (walk sample_walker sample_tree sample_values)) = Stopped ''done'' ''searched once'' \<and>
   \<not> is_broken (rp_ending (fst (walk sample_walker sample_tree sample_values)))"
  using a_linted_tree_never_breaks [OF sample_parses sample_fillable sample_answering]
  by (simp add: sample_report)

end
