(* ===== verification/Review.thy ===== *)
theory Review
  imports Tool_Call
begin

text \<open>
  Auto-review at the tool seam (\<open>opengrok-tools/src/review.rs\<close>): the policy a run carries, what
  the judge is shown of a call, the judge's word, and the ladder that combines it with the primary
  gate's verdict; and what is kept of a site login for next time
  (\<open>opengrok-tools/src/credential.rs\<close>; the scrub of the same file is in \<open>Tool_Call\<close>).
\<close>

section \<open>The policy and the judge\<close>

record review_policy =
  rp_allow :: string
  rp_ask :: string
  rp_block :: string

definition is_active :: "review_policy \<Rightarrow> bool" where
  "is_active p \<longleftrightarrow> list_ex (\<lambda>t. trim t \<noteq> []) [rp_allow p, rp_ask p, rp_block p]"

record review_ask =
  ra_call_id :: string
  ra_tool :: string
  ra_arguments :: string
  ra_allow :: string
  ra_ask :: string
  ra_block :: string

datatype judge_failure =
    SpendCap
  | Held
  | RefusedRoute nat
  | GatewayUnreachable
  | StreamBroke
  | JudgeTimedOut
  | Unparseable

datatype review_verdict = VerdictAllow | VerdictAsk | VerdictBlock | VerdictUnsure | Unavailable judge_failure

fun judge_failure_words :: "judge_failure \<Rightarrow> string" where
  "judge_failure_words SpendCap = ''this coworker'' @ apos @ ''s spend limit was reached''"
| "judge_failure_words Held = ''its call could not be metered, so it was held''"
| "judge_failure_words (RefusedRoute status) =
     ''the model gateway refused its route ('' @ nat_str status @ '')''"
| "judge_failure_words GatewayUnreachable = ''the model gateway could not be reached''"
| "judge_failure_words StreamBroke = ''its reply broke off part-way''"
| "judge_failure_words JudgeTimedOut = ''it timed out''"
| "judge_failure_words Unparseable =
     ''it replied with something other than allow, ask, block or unsure''"

datatype gate = GateAllow | GateAsk awaiting_reason string | GateDeny string

datatype review_outcome = ReviewAllow | ReviewAsk string | ReviewBlock string

datatype gate_outcome = OutcomeRun | OutcomeAsk awaiting_reason string | OutcomeRefuse string

section \<open>Words\<close>

text \<open>\<open>clip\<close> keeps the first \<open>most\<close> characters and says how many it left out.\<close>

definition review_clip :: "string \<Rightarrow> nat \<Rightarrow> string" where
  "review_clip t most =
     (let count = chars_count t
      in if count \<le> most then t
         else take_chars most t @ [CHR '' '', CHR 0xE2, CHR 0x80, CHR 0xA6] @ ''[clipped '' @
           nat_str (count - most) @ '' chars]'')"

definition REVIEW_ASK_REASON :: string where
  "REVIEW_ASK_REASON = ''Your auto-review instructions did not clearly allow this, so it is being asked rather than allowed.''"

definition EGRESS_TUNNEL_ASK_REASON :: string where
  "EGRESS_TUNNEL_ASK_REASON =
     ''This action would use your network through the egress tunnel. Review it before it runs.''"

definition ask_first_reason :: "string \<Rightarrow> string" where
  "ask_first_reason ask =
     ''Your auto-review instructions asked to check this first: '' @ quote @ review_clip (trim ask) 200 @ quote"

definition REVIEW_UNAVAILABLE_PREFIX :: string where
  "REVIEW_UNAVAILABLE_PREFIX = ''The reviewer did not answer''"

definition unavailable_reason :: "judge_failure \<Rightarrow> string" where
  "unavailable_reason cause =
     REVIEW_UNAVAILABLE_PREFIX @ '' ('' @ judge_failure_words cause @
       ''), so this is being asked rather than allowed.''"

definition is_unavailable_reason :: "string \<Rightarrow> bool" where
  "is_unavailable_reason why \<longleftrightarrow> starts_with REVIEW_UNAVAILABLE_PREFIX why"

definition JUDGE_DOWN_AFTER :: nat where "JUDGE_DOWN_AFTER = 3"

definition judge_down_reason :: "nat \<Rightarrow> string" where
  "judge_down_reason failures =
     ''the auto-reviewer is down: it failed '' @ nat_str failures @
     '' times in a row in this run, and each card said why. Reviewed actions are refused until it answers again, so tell the person the reviewer is down instead of retrying; their next message starts a run that asks it afresh''"

definition block_refusal :: "string \<Rightarrow> string" where
  "block_refusal block =
     ''auto-review blocked this'' @ dash @ ''your block instructions say: '' @ quote @
       review_clip (trim block) 200 @ quote"

section \<open>The ladder\<close>

definition combine :: "gate \<Rightarrow> review_outcome option \<Rightarrow> bool \<Rightarrow> gate_outcome" where
  "combine g review approved =
     (case g of
        GateDeny why \<Rightarrow> OutcomeRefuse why
      | _ \<Rightarrow>
          (case review of
             Some (ReviewBlock why) \<Rightarrow> OutcomeRefuse why
           | _ \<Rightarrow>
               (case g of
                  GateAsk reason why \<Rightarrow>
                    if \<not> approved then OutcomeAsk reason why
                    else (case review of
                            Some (ReviewAsk said) \<Rightarrow> OutcomeAsk AwaitAutoReview said
                          | _ \<Rightarrow> OutcomeRun)
                | _ \<Rightarrow> (case review of
                          Some (ReviewAsk said) \<Rightarrow> OutcomeAsk AwaitAutoReview said
                        | _ \<Rightarrow> OutcomeRun))))"

section \<open>What the judge is shown\<close>

definition IDENTITY_KEYS :: "string list" where
  "IDENTITY_KEYS = [''account_id'', ''accountId'', ''coworker_id'', ''coworkerId'', ''box_id'', ''boxId'']"

definition SECRET_KEY_FRAGMENTS :: "string list" where
  "SECRET_KEY_FRAGMENTS =
     [''token'', ''secret'', ''password'', ''passwd'', ''authorization'', ''api_key'', ''apikey'',
      ''credential'', ''cookie'']"

definition VALUE_CLIP :: nat where "VALUE_CLIP = 500"
definition TOTAL_CLIP :: nat where "TOTAL_CLIP = 2000"

definition REDACTED :: string where
  "REDACTED = [CHR 0xC2, CHR 0xAB] @ ''redacted'' @ [CHR 0xC2, CHR 0xBB]"

definition token_char :: "char \<Rightarrow> bool" where
  "token_char c \<longleftrightarrow> is_ascii_alphanumeric c \<or> c \<in> set ''-_.+/=''"

definition looks_like_a_secret :: "string \<Rightarrow> bool" where
  "looks_like_a_secret t \<longleftrightarrow>
     (let trimmed = trim t
      in if starts_with ''Bearer '' trimmed \<or> starts_with ''sk-'' trimmed \<or> starts_with ''xoxb-'' trimmed
         then True
         else 40 \<le> length trimmed \<and> CHR '' '' \<notin> set trimmed \<and> list_all token_char trimmed)"

definition secret_by_name :: "string \<Rightarrow> bool" where
  "secret_by_name key \<longleftrightarrow>
     (let lower = to_ascii_lowercase key in list_ex (\<lambda>f. contains_str f lower) SECRET_KEY_FRAGMENTS)"

definition named_secret :: "string option \<Rightarrow> bool" where
  "named_secret key \<longleftrightarrow> (case key of Some k \<Rightarrow> secret_by_name k | None \<Rightarrow> False)"

function redact_value :: "json \<Rightarrow> string option \<Rightarrow> json" where
  "redact_value (JObject m) key =
     (if named_secret key then JString REDACTED
      else JObject (map (\<lambda>kv. (fst kv, redact_value (snd kv) (Some (fst kv))))
                     (filter (\<lambda>kv. fst kv \<notin> set IDENTITY_KEYS) m)))"
| "redact_value (JArray vs) key =
     (if named_secret key then JString REDACTED else JArray (map (\<lambda>v. redact_value v None) vs))"
| "redact_value (JString t) key =
     (if named_secret key then JString REDACTED
      else JString (if looks_like_a_secret t then REDACTED else review_clip t VALUE_CLIP))"
| "redact_value JNull key = (if named_secret key then JString REDACTED else JNull)"
| "redact_value (JBool b) key = (if named_secret key then JString REDACTED else JBool b)"
| "redact_value (JInt i) key = (if named_secret key then JString REDACTED else JInt i)"
| "redact_value (JFloat w) key = (if named_secret key then JString REDACTED else JFloat w)"
  by pat_completeness auto
termination
  by (relation "measure (\<lambda>(v, key). size v)")
    (auto simp: json_size_member less_Suc_eq_le intro: size_list_estimation')

definition redact_arguments :: "serde \<Rightarrow> json \<Rightarrow> string" where
  "redact_arguments sd arguments =
     review_clip (sd_to_string sd (redact_value arguments None)) TOTAL_CLIP"


section \<open>What is kept of a login\<close>

definition OFFER_SAVE :: string where "OFFER_SAVE = ''credential.offer_save''"

definition normalize_origin :: "string \<Rightarrow> string" where
  "normalize_origin raw =
     (let trimmed = trim raw;
          after_scheme = (case split_once_str ''://'' trimmed of Some (_, rest) \<Rightarrow> rest | None \<Rightarrow> trimmed)
      in to_ascii_lowercase (trim_end_matches (\<lambda>c. c = CHR '']'') (trim_start_matches (\<lambda>c. c = CHR ''['')
           (trim (hd (split_on (CHR '':'') (hd (split_on (CHR ''/'') after_scheme))))))))"

definition origin_from_form :: "form_request \<Rightarrow> string option" where
  "origin_from_form form =
     Option.bind (case fr_live_host form of Some h \<Rightarrow> Some h | None \<Rightarrow> fr_domain form)
       (\<lambda>h. let origin = normalize_origin h in if origin \<noteq> [] then Some origin else None)"

definition preferred_names :: "string list" where
  "preferred_names = [''email'', ''username'', ''user'', ''login'', ''identifier'']"

text \<open>The first row whose id is the name, whatever its case, when what it holds is not blank.\<close>

definition preferred_value :: "answers \<Rightarrow> string \<Rightarrow> string option" where
  "preferred_value shared key =
     Option.bind (find (\<lambda>kv. eq_ignore_ascii_case (fst kv) key) shared)
       (\<lambda>kv. let v = trim (snd kv) in if v \<noteq> [] then Some v else None)"

fun preferred_username :: "answers \<Rightarrow> string list \<Rightarrow> string option" where
  "preferred_username shared [] = None"
| "preferred_username shared (key # keys) =
     (case preferred_value shared key of Some v \<Rightarrow> Some v | None \<Rightarrow> preferred_username shared keys)"

definition username_from_shared :: "answers \<Rightarrow> string" where
  "username_from_shared shared =
     (case preferred_username shared preferred_names of
        Some v \<Rightarrow> v
      | None \<Rightarrow> (case find (\<lambda>v. v \<noteq> []) (map (\<lambda>kv. trim (snd kv)) shared) of Some v \<Rightarrow> v | None \<Rightarrow> []))"

definition offer_save_payload :: "string \<Rightarrow> string \<Rightarrow> string \<Rightarrow> json" where
  "offer_save_payload origin username entry =
     JObject [(''origin'', JString origin), (''username'', JString username), (''formEntryId'', JString entry)]"

definition offer_save_frame :: "string \<Rightarrow> string \<Rightarrow> string \<Rightarrow> json" where
  "offer_save_frame origin username entry =
     JObject [(''type'', JString ''CUSTOM''), (''name'', JString OFFER_SAVE), (''origin'', JString origin),
       (''username'', JString username), (''formEntryId'', JString entry),
       (''value'', offer_save_payload origin username entry)]"

section \<open>The ladder keeps the strictest word\<close>

fun outcome_rank :: "gate_outcome \<Rightarrow> nat" where
  "outcome_rank OutcomeRun = 0"
| "outcome_rank (OutcomeAsk _ _) = 1"
| "outcome_rank (OutcomeRefuse _) = 2"

fun gate_rank :: "bool \<Rightarrow> gate \<Rightarrow> nat" where
  "gate_rank approved GateAllow = 0"
| "gate_rank approved (GateAsk _ _) = (if approved then 0 else 1)"
| "gate_rank approved (GateDeny _) = 2"

fun review_rank :: "review_outcome option \<Rightarrow> nat" where
  "review_rank (Some (ReviewAsk _)) = 1"
| "review_rank (Some (ReviewBlock _)) = 2"
| "review_rank _ = 0"

lemmas combine_splits = gate.splits option.splits review_outcome.splits

lemma review_rank_le: "review_rank r \<le> 2"
  by (cases r rule: review_rank.cases) simp_all

lemma combine_rank: "outcome_rank (combine g r a) = max (gate_rank a g) (review_rank r)"
proof (cases g)
  case (GateDeny why)
  with review_rank_le [of r] show ?thesis by (simp add: combine_def)
qed (cases r; auto simp: combine_def split: review_outcome.splits)+

lemma combine_run_iff:
  "combine g r a = OutcomeRun \<longleftrightarrow> gate_rank a g = 0 \<and> (r = None \<or> r = Some ReviewAllow)"
  by (cases g; cases r) (auto simp: combine_def split: review_outcome.splits)

lemma combine_deny [simp]: "combine (GateDeny why) r a = OutcomeRefuse why"
  by (simp add: combine_def)

lemma combine_ask_by_gate:
  "combine (GateAsk reason why) r False = OutcomeAsk reason why \<or>
   (\<exists>said. r = Some (ReviewBlock said) \<and> combine (GateAsk reason why) r False = OutcomeRefuse said)"
  by (cases r) (auto simp: combine_def split: review_outcome.splits)

section \<open>What the judge is not shown\<close>

text \<open>
  What the judge may be shown: no member under an identity key, at any depth; a member whose name
  says it is a secret shows only the one word; and a text is that word, or a text that does not
  look like a secret, clipped.
\<close>

inductive showable :: "json \<Rightarrow> bool" where
  showable_object: "(\<And>k v. (k, v) \<in> set m \<Longrightarrow>
       k \<notin> set IDENTITY_KEYS \<and> showable v \<and> (secret_by_name k \<longrightarrow> v = JString REDACTED)) \<Longrightarrow>
     showable (JObject m)"
| showable_array: "(\<And>v. v \<in> set vs \<Longrightarrow> showable v) \<Longrightarrow> showable (JArray vs)"
| showable_redacted: "showable (JString REDACTED)"
| showable_text: "\<not> looks_like_a_secret t \<Longrightarrow> showable (JString (review_clip t VALUE_CLIP))"
| showable_null: "showable JNull"
| showable_bool: "showable (JBool b)"
| showable_int: "showable (JInt i)"
| showable_float: "showable (JFloat w)"

inductive_cases showable_objectE: "showable (JObject m)"

lemma redact_named: "named_secret key \<Longrightarrow> redact_value v key = JString REDACTED"
  by (cases v) simp_all

lemma redact_showable: "showable (redact_value v key)"
proof (induction v key rule: redact_value.induct)
  case (1 m key)
  have members: "k \<notin> set IDENTITY_KEYS \<and> showable w \<and> (secret_by_name k \<longrightarrow> w = JString REDACTED)"
    if nk: "\<not> named_secret key" and mem: "(k, w) \<in> set (map (\<lambda>kv. (fst kv, redact_value (snd kv) (Some (fst kv))))
          (filter (\<lambda>kv. fst kv \<notin> set IDENTITY_KEYS) m))" for k w
  proof -
    from mem obtain v where v: "(k, v) \<in> set m" "k \<notin> set IDENTITY_KEYS" "w = redact_value v (Some k)"
      by auto
    then have "(k, v) \<in> set (filter (\<lambda>kv. fst kv \<notin> set IDENTITY_KEYS) m)" by simp
    from "1.IH" [OF nk this] v redact_named [of "Some k" v] show ?thesis
      by (simp add: named_secret_def)
  qed
  show ?case
  proof (cases "named_secret key")
    case True
    then show ?thesis by (simp only: redact_named showable_redacted)
  next
    case False
    show ?thesis
      unfolding redact_value.simps if_not_P [OF False] by (rule showable_object) (rule members [OF False])
  qed
next
  case (2 vs key)
  then show ?case by (auto intro!: showable_array showable_redacted)
qed (auto intro: showable.intros)

text \<open>
  Two values that differ only in what is hidden: under a member named as a secret or an identity
  key, or in texts that look like a secret.
\<close>

inductive alike :: "string option \<Rightarrow> json \<Rightarrow> json \<Rightarrow> bool" where
  alike_named: "named_secret key \<Longrightarrow> alike key v w"
| alike_secret: "looks_like_a_secret s \<Longrightarrow> looks_like_a_secret t \<Longrightarrow> alike key (JString s) (JString t)"
| alike_object: "list_all2 (\<lambda>a b. fst a = fst b \<and> alike (Some (fst a)) (snd a) (snd b))
       (filter (\<lambda>kv. fst kv \<notin> set IDENTITY_KEYS) m) (filter (\<lambda>kv. fst kv \<notin> set IDENTITY_KEYS) n) \<Longrightarrow>
     alike key (JObject m) (JObject n)"
| alike_array: "list_all2 (alike None) vs ws \<Longrightarrow> alike key (JArray vs) (JArray ws)"
| alike_same: "alike key v v"

lemma alike_redact: "alike key v w \<Longrightarrow> redact_value v key = redact_value w key"
proof (induction rule: alike.induct)
  case (alike_object m n key)
  then have "list_all2 (\<lambda>a b. (fst a, redact_value (snd a) (Some (fst a))) = (fst b, redact_value (snd b) (Some (fst b))))
      (filter (\<lambda>kv. fst kv \<notin> set IDENTITY_KEYS) m) (filter (\<lambda>kv. fst kv \<notin> set IDENTITY_KEYS) n)"
    by (rule list.rel_mono_strong) auto
  then show ?case by (simp add: list_all2_conv_all_nth list_eq_iff_nth_eq)
next
  case (alike_array vs ws key)
  then have "list_all2 (\<lambda>a b. redact_value a None = redact_value b None) vs ws"
    by (rule list.rel_mono_strong) auto
  then have "map (\<lambda>v. redact_value v None) vs = map (\<lambda>v. redact_value v None) ws"
    by (simp add: list_all2_conv_all_nth list_eq_iff_nth_eq)
  then show ?case by simp
qed (simp_all add: redact_named)

lemma alike_redact_arguments: "alike None v w \<Longrightarrow> redact_arguments sd v = redact_arguments sd w"
  by (simp add: redact_arguments_def alike_redact)

section \<open>Reasons\<close>

lemma starts_with_append [simp]: "starts_with p (p @ s)"
  by (simp add: starts_with_def)

text \<open>The server counts a run's failures by the reason's first words: every failure has them.\<close>

lemma unavailable_is_told_apart:
  "is_unavailable_reason (unavailable_reason cause)" "\<not> is_unavailable_reason REVIEW_ASK_REASON"
  "\<not> is_unavailable_reason (ask_first_reason a)" "\<not> is_unavailable_reason EGRESS_TUNNEL_ASK_REASON"
  by (simp_all add: is_unavailable_reason_def unavailable_reason_def REVIEW_UNAVAILABLE_PREFIX_def
      REVIEW_ASK_REASON_def ask_first_reason_def EGRESS_TUNNEL_ASK_REASON_def starts_with_def)

section \<open>Origins\<close>

lemma split_on_clean: "p \<in> set (split_on c s) \<Longrightarrow> c \<notin> set p \<and> set p \<subseteq> set s"
proof (rule conjI)
  show "p \<in> set (split_on c s) \<Longrightarrow> c \<notin> set p" by (rule split_on_no_sep)
  have "\<forall>p\<in>set (split_on c s). set p \<subseteq> set s"
    by (induction s) (auto split: list.splits)
  then show "p \<in> set (split_on c s) \<Longrightarrow> set p \<subseteq> set s" by blast
qed

lemma set_trim: "set (trim s) \<subseteq> set s"
proof -
  have "suffix (trim_start s) s" by (simp add: trim_start_def strip_all_suffix)
  moreover have "prefix (trim s) (trim_start s)" by (simp add: trim_def trim_end_prefix)
  ultimately show ?thesis by (meson set_mono_prefix set_mono_suffix subset_trans)
qed


lemma trim_matches_sets:
  "set (trim_start_matches P s) \<subseteq> set s" "set (trim_end_matches P s) \<subseteq> set s"
  by (auto simp: trim_start_matches_def trim_end_matches_def dest: set_dropWhileD)

lemma no_upper_after_lowering: "c \<in> set (to_ascii_lowercase s) \<Longrightarrow> \<not> is_ascii_uppercase c"
  by (auto simp: to_ascii_lowercase_def ascii_lower_char_def is_ascii_uppercase_def byte_char_of)

lemma lowered_keeps_out: "\<not> is_ascii_lowercase c \<Longrightarrow> c \<notin> set s \<Longrightarrow> c \<notin> set (to_ascii_lowercase s)"
  by (auto simp: to_ascii_lowercase_def ascii_lower_char_def is_ascii_uppercase_def is_ascii_lowercase_def
      byte_char_of split: if_splits)

text \<open>An origin is a host alone: no scheme, no path, no port, in lower case.\<close>

lemma origin_is_a_host:
  "CHR ''/'' \<notin> set (normalize_origin raw) \<and> CHR '':'' \<notin> set (normalize_origin raw) \<and>
   to_ascii_lowercase (normalize_origin raw) = normalize_origin raw"
proof -
  define u where "u = (let t = trim raw in case split_once_str ''://'' t of Some (_, rest) \<Rightarrow> rest | None \<Rightarrow> t)"
  define h where "h = hd (split_on (CHR '':'') (hd (split_on (CHR ''/'') u)))"
  define b where "b = trim_end_matches (\<lambda>c. c = CHR '']'') (trim_start_matches (\<lambda>c. c = CHR ''['') (trim h))"
  have n: "normalize_origin raw = to_ascii_lowercase b"
    by (simp add: normalize_origin_def u_def h_def b_def Let_def)
  have "hd (split_on (CHR ''/'') u) \<in> set (split_on (CHR ''/'') u)" by simp
  then have "CHR ''/'' \<notin> set (hd (split_on (CHR ''/'') u))" by (rule split_on_no_sep)
  moreover have "h \<in> set (split_on (CHR '':'') (hd (split_on (CHR ''/'') u)))" by (simp add: h_def)
  ultimately have "CHR ''/'' \<notin> set h" "CHR '':'' \<notin> set h" using split_on_clean by blast+
  moreover have "set b \<subseteq> set h"
    unfolding b_def using trim_matches_sets set_trim by (meson subset_trans)
  ultimately have "CHR ''/'' \<notin> set b" "CHR '':'' \<notin> set b" by auto
  moreover have "\<not> is_ascii_lowercase (CHR ''/'')" "\<not> is_ascii_lowercase (CHR '':'')"
    by (simp_all add: is_ascii_lowercase_def byte_def)
  ultimately show ?thesis by (simp add: n lowered_keeps_out)
qed

text \<open>
  The brackets of an IPv6 host are taken off after the port is, so such a host is cut at its first
  colon: every address that opens with the same group has one origin, and one that opens with a
  colon has none.
\<close>

lemma ipv6_origin_is_lost:
  "normalize_origin ''https://[2001:db8::1]:8443/login'' = ''2001'' \<and>
   normalize_origin ''https://[2001:db8:bad::9]/login'' = ''2001'' \<and>
   normalize_origin ''http://[::1]:3000/login'' = []"
  by code_simp

end
