(* ===== verification/Mcp.thy ===== *)
theory Mcp
  imports Review
begin

text \<open>
  Reaching a plugin's MCP server (\<open>opengrok-tools/src/mcp.rs\<close>): the argument schema a tool is
  offered with, the headers a credential is filled into, the names a tool goes by on the wire, and
  the pool of sessions a turn reuses. The protocol client itself is a third party's (\<open>rmcp\<close>):
  what connecting to a server and listing its tools answers is a parameter of the pool.
\<close>

section \<open>Errors and tools\<close>

datatype mcp_error =
    UnsupportedTransport string string
  | ServerUnreachable string string
  | ServerRefused string string
  | NoSuchTool string
  | ServerTimedOut string string

fun mcp_error_text :: "mcp_error \<Rightarrow> string" where
  "mcp_error_text (UnsupportedTransport server advice) =
     server @ '' speaks stdio, which this server does not launch; '' @ advice"
| "mcp_error_text (ServerUnreachable server detail) = server @ '' is unreachable: '' @ detail"
| "mcp_error_text (ServerRefused server detail) = server @ '' refused: '' @ detail"
| "mcp_error_text (NoSuchTool tool) = tool @ '' is not a tool this server offers''"
| "mcp_error_text (ServerTimedOut server detail) = server @ '' did not answer '' @ detail"

record mcp_tool =
  mt_qualified_name :: string
  mt_remote_name :: string
  mt_description :: "string option"
  mt_input_schema :: "(string \<times> json) list option"
  mt_annotations :: "json option"

section \<open>The schema a tool is offered with\<close>

definition MAX_ADVERTISED_SCHEMA_BYTES :: nat where "MAX_ADVERTISED_SCHEMA_BYTES = 16 * 1024"
definition MAX_ADVERTISED_SCHEMAS_BYTES :: nat where "MAX_ADVERTISED_SCHEMAS_BYTES = 64 * 1024"

definition ROOT_KEYWORDS_NOT_ADVERTISED :: "string list" where
  "ROOT_KEYWORDS_NOT_ADVERTISED =
     [''$schema'', ''$id'', ''$comment'', ''anyOf'', ''oneOf'', ''allOf'', ''not'', ''if'', ''then'', ''else'',
      ''enum'', ''const'']"

definition open_object :: "(string \<times> json) list" where
  "open_object = [(''type'', JString ''object'')]"

definition serialised_len :: "serde \<Rightarrow> json \<Rightarrow> nat" where
  "serialised_len sd v = length (sd_to_string sd v)"

definition jm_remove_all :: "string list \<Rightarrow> (string \<times> json) list \<Rightarrow> (string \<times> json) list" where
  "jm_remove_all ks m = foldl (\<lambda>m k. jm_remove k m) m ks"

definition object_type :: "json option \<Rightarrow> bool" where
  "object_type kind \<longleftrightarrow>
     (case kind of
        None \<Rightarrow> True
      | Some (JString k) \<Rightarrow> k = ''object''
      | Some (JArray ks) \<Rightarrow> list_ex (\<lambda>k. k = JString ''object'') ks
      | Some _ \<Rightarrow> False)"

text \<open>\<open>get_mut\<close>: the member's value in its place.\<close>

definition jm_put :: "string \<Rightarrow> json \<Rightarrow> (string \<times> json) list \<Rightarrow> (string \<times> json) list" where
  "jm_put k v m = map (\<lambda>kv. if fst kv = k then (k, v) else kv) m"

definition advertised_properties :: "(string \<times> json) list \<Rightarrow> string + (string \<times> json) list" where
  "advertised_properties schema =
     (case map_of schema ''properties'' of
        None \<Rightarrow> Inr schema
      | Some (JObject ps) \<Rightarrow> Inr (jm_put ''properties'' (JObject (jm_remove_all IDENTITY_KEYS ps)) schema)
      | Some _ \<Rightarrow> Inl (''its '' @ Forms.tick @ ''properties'' @ Forms.tick @ '' is not an object''))"

definition advertised_required :: "(string \<times> json) list \<Rightarrow> (string \<times> json) list" where
  "advertised_required schema =
     (let required = (case map_of schema ''required'' of
            Some (JArray names) \<Rightarrow>
              filter (\<lambda>n. \<not> (case as_str n of Some k \<Rightarrow> k \<in> set IDENTITY_KEYS | None \<Rightarrow> False)) names
          | _ \<Rightarrow> []);
          without = jm_remove ''required'' schema
      in if required \<noteq> [] then jm_insert ''required'' (JArray required) without else without)"

definition advertised_parameters :: "serde \<Rightarrow> (string \<times> json) list option \<Rightarrow> string + json" where
  "advertised_parameters sd raw =
     (case raw of
        None \<Rightarrow> Inl ''the server sent no input schema''
      | Some raw \<Rightarrow>
          if \<not> object_type (map_of raw ''type'')
          then Inl (''its input schema has type '' @ sd_to_string sd (the (map_of raw ''type'')) @
                 '', and a tool'' @ apos @ ''s arguments must be an object'')
          else
            let plain = jm_remove_all ROOT_KEYWORDS_NOT_ADVERTISED (jm_insert ''type'' (JString ''object'') raw)
            in rbind (advertised_properties plain) (\<lambda>cleaned.
                 let schema = advertised_required cleaned;
                     size = serialised_len sd (JObject schema)
                 in if MAX_ADVERTISED_SCHEMA_BYTES < size
                    then Inl (''its input schema is '' @ nat_str size @ '' bytes, over the '' @
                           nat_str MAX_ADVERTISED_SCHEMA_BYTES @ ''-byte cap'')
                    else Inr (JObject schema)))"

definition tool_parameters :: "serde \<Rightarrow> mcp_tool \<Rightarrow> json" where
  "tool_parameters sd tool =
     (case advertised_parameters sd (mt_input_schema tool) of Inr v \<Rightarrow> v | Inl _ \<Rightarrow> JObject open_object)"

definition within_budget :: "serde \<Rightarrow> json \<Rightarrow> nat \<Rightarrow> json \<times> nat" where
  "within_budget sd parameters budget =
     (let size = serialised_len sd parameters
      in if size \<le> budget then (parameters, budget - size) else (JObject open_object, budget))"

section \<open>Endpoints\<close>

text \<open>
  The function an installed bundle's session hardens its HTTP client with is not carried: it is a
  function of a third party's builder.
\<close>

record endpoint =
  ep_plugin :: string
  ep_server :: string
  ep_url :: string
  ep_headers :: "(string, string) bmap"

definition qualify :: "endpoint \<Rightarrow> string \<Rightarrow> string" where
  "qualify e tool = ep_plugin e @ ''.'' @ ep_server e @ ''.'' @ tool"

definition endpoint_key :: "endpoint \<Rightarrow> string" where
  "endpoint_key e = ep_plugin e @ ''.'' @ ep_server e"

text \<open>
  One header's template. \<open>None\<close> is a scan that never ends: what a placeholder stood for is put
  back into the text and scanned again. \<open>Inl\<close> names a placeholder nothing fills.
\<close>

partial_function (option) fill_template :: "(string, string) bmap \<Rightarrow> string \<Rightarrow> (string + string) option" where
  "fill_template vals value =
     (case split_once_str ''${'' value of
        None \<Rightarrow> Some (Inr value)
      | Some (before, rest) \<Rightarrow>
          (case split_once (CHR ''}'') rest of
             None \<Rightarrow> Some (Inr value)
           | Some (key, after) \<Rightarrow>
               (case bm_get vals key of
                  Some resolved \<Rightarrow> fill_template vals (before @ resolved @ after)
                | None \<Rightarrow> Some (Inl key))))"

fun fill_headers ::
  "(string \<times> string) list \<Rightarrow> (string, string) bmap \<Rightarrow> (string, string) bmap \<Rightarrow> string list \<Rightarrow>
   ((string, string) bmap \<times> string list) option" where
  "fill_headers [] vals filled unresolved = Some (filled, unresolved)"
| "fill_headers ((name, template) # ds) vals filled unresolved =
     (case fill_template vals template of
        None \<Rightarrow> None
      | Some (Inr value) \<Rightarrow> fill_headers ds vals (bm_insert name value filled) unresolved
      | Some (Inl key) \<Rightarrow> fill_headers ds vals filled (unresolved @ [key]))"

definition fill_placeholders ::
  "(string, string) bmap \<Rightarrow> (string, string) bmap \<Rightarrow> ((string, string) bmap \<times> string list) option" where
  "fill_placeholders declared vals = fill_headers declared vals [] []"

datatype mcp_server =
    StdioServer string "string list" "(string, string) bmap" "string option"
  | StreamableHttp string "(string, string) bmap"
  | SseServer string "(string, string) bmap"

definition transport_advice :: string where
  "transport_advice =
     ''it must declare a streamable-http or sse url, or wait for per-coworker containers''"

definition http_endpoint ::
  "string \<Rightarrow> string \<Rightarrow> string \<Rightarrow> (string, string) bmap \<Rightarrow> (string, string) bmap \<Rightarrow> (mcp_error + endpoint) option" where
  "http_endpoint plugin name url headers vals =
     map_option (\<lambda>(filled, unresolved).
        if unresolved \<noteq> []
        then Inl (ServerRefused (plugin @ ''.'' @ name)
               (''not connected: '' @ join '', '' unresolved @ '' has no value yet''))
        else Inr \<lparr>ep_plugin = plugin, ep_server = name, ep_url = url, ep_headers = filled\<rparr>)
       (fill_placeholders headers vals)"

fun endpoint_of :: "string \<Rightarrow> (string, string) bmap \<Rightarrow> string \<Rightarrow> mcp_server \<Rightarrow> (mcp_error + endpoint) option" where
  "endpoint_of plugin vals name (StdioServer c args env cwd) =
     Some (Inl (UnsupportedTransport (plugin @ ''.'' @ name) transport_advice))"
| "endpoint_of plugin vals name (StreamableHttp url headers) = http_endpoint plugin name url headers vals"
| "endpoint_of plugin vals name (SseServer url headers) = http_endpoint plugin name url headers vals"

fun endpoints_for ::
  "string \<Rightarrow> (string \<times> mcp_server) list \<Rightarrow> (string, string) bmap \<Rightarrow> (endpoint list \<times> mcp_error list) option" where
  "endpoints_for plugin [] vals = Some ([], [])"
| "endpoints_for plugin ((name, server) # ss) vals =
     (case endpoint_of plugin vals name server of
        None \<Rightarrow> None
      | Some r \<Rightarrow> map_option (\<lambda>(es, ps). case r of Inr e \<Rightarrow> (e # es, ps) | Inl p \<Rightarrow> (es, p # ps))
                   (endpoints_for plugin ss vals))"

section \<open>Names on the wire\<close>

text \<open>\<open>splitn(3, '.')\<close>, every part non-empty.\<close>

definition split_qualified :: "string \<Rightarrow> (string \<times> string \<times> string) option" where
  "split_qualified name =
     Option.bind (split_once (CHR ''.'') name) (\<lambda>(plugin, rest).
       Option.bind (split_once (CHR ''.'') rest) (\<lambda>(server, tool).
         if plugin = [] \<or> server = [] \<or> tool = [] then None else Some (plugin, server, tool)))"

definition wire_char :: "char \<Rightarrow> bool" where
  "wire_char c \<longleftrightarrow> is_ascii_alphanumeric c \<or> c = CHR ''_'' \<or> c = CHR ''-''"

definition openai_safe_tool_name :: "string \<Rightarrow> string" where
  "openai_safe_tool_name name =
     (let out = take 64 (map (\<lambda>c. if wire_char c then c else CHR ''_'') (filter (\<lambda>c. \<not> continues c) name))
      in if out = [] then ''_'' else out)"

definition numbered_name :: "string \<Rightarrow> nat \<Rightarrow> string" where
  "numbered_name base n =
     (let suffix = ''_'' @ nat_str n;
          keep = max (64 - length suffix) 1;
          kept = take keep base;
          candidate = (if kept = [] then ''_'' else kept) @ suffix
      in take 64 candidate)"

function first_free :: "string set \<Rightarrow> string \<Rightarrow> nat \<Rightarrow> string" where
  "first_free used base n =
     (let candidate = numbered_name base n
      in if candidate \<notin> used then candidate
         else if 2 ^ 32 - 1 \<le> n then candidate
         else first_free used base (n + 1))"
  by pat_completeness auto
termination by (relation "measure (\<lambda>(used, base, n). 2 ^ 32 - n)") auto

declare first_free.simps [simp del]

definition unique_openai_name :: "string set \<Rightarrow> string \<Rightarrow> string \<times> string set" where
  "unique_openai_name used name =
     (let base = openai_safe_tool_name name
      in if base \<notin> used then (base, insert base used)
         else let wire = first_free used base 2 in (wire, insert wire used))"

fun unique_names :: "string set \<Rightarrow> string list \<Rightarrow> (string \<times> string) list" where
  "unique_names used [] = []"
| "unique_names used (name # names) =
     (let (wire, used') = unique_openai_name used name in (name, wire) # unique_names used' names)"

definition openai_unique_tool_names :: "string list \<Rightarrow> string list \<Rightarrow> (string \<times> string) list" where
  "openai_unique_tool_names reserved qualified =
     unique_names (set (map openai_safe_tool_name reserved)) qualified"


section \<open>Deadlines\<close>

text \<open>Both are whole milliseconds. \<open>duration_debug\<close> is what \<open>{:?}\<close> prints of such a duration.\<close>

record deadlines =
  dl_connect :: nat
  dl_call :: nat

definition deadlines_default :: deadlines where
  "deadlines_default = \<lparr>dl_connect = 5 * 1000, dl_call = 60 * 1000\<rparr>"

definition millis_from_env :: "string option \<Rightarrow> nat option" where
  "millis_from_env var =
     Option.bind (case var of Some v \<Rightarrow> if trim v \<noteq> [] then Some v else None | None \<Rightarrow> None)
       (\<lambda>raw. case parse_usize (trim raw) of
          Some ms \<Rightarrow> if 0 < ms then Some ms else None
        | None \<Rightarrow> None)"

definition deadlines_from_env :: "string option \<Rightarrow> string option \<Rightarrow> deadlines" where
  "deadlines_from_env connect_var call_var =
     \<lparr>dl_connect = (case millis_from_env connect_var of Some ms \<Rightarrow> ms | None \<Rightarrow> dl_connect deadlines_default),
      dl_call = (case millis_from_env call_var of Some ms \<Rightarrow> ms | None \<Rightarrow> dl_call deadlines_default)\<rparr>"

definition thousandths :: "nat \<Rightarrow> string" where
  "thousandths r =
     (if r = 0 then []
      else ''.'' @ trim_end_matches (\<lambda>c. c = CHR ''0'')
             (replicate (3 - length (nat_str r)) (CHR ''0'') @ nat_str r))"

definition duration_debug :: "nat \<Rightarrow> string" where
  "duration_debug ms =
     (if 1000 \<le> ms then nat_str (ms div 1000) @ thousandths (ms mod 1000) @ ''s''
      else if 0 < ms then nat_str ms @ ''ms'' else ''0ns'')"

section \<open>Sessions\<close>

text \<open>
  The headers of a session: the bearer token that goes to the transport alone, and the rest. What
  the HTTP client takes as a header's name and value is its own: \<open>sendable\<close> says which pairs.
\<close>

definition bare_token :: "string \<Rightarrow> string option" where
  "bare_token v =
     (case strip_prefix ''Bearer '' v of
        Some t \<Rightarrow> Some t
      | None \<Rightarrow> (case strip_prefix ''bearer '' v of
                  Some t \<Rightarrow> Some t
                | None \<Rightarrow> if CHR '' '' \<notin> set v then Some v else None))"

definition header_put :: "string \<Rightarrow> string \<Rightarrow> (string \<times> string) list \<Rightarrow> (string \<times> string) list" where
  "header_put name value hs =
     filter (\<lambda>h. fst h \<noteq> to_ascii_lowercase name) hs @ [(to_ascii_lowercase name, value)]"

fun session_headers ::
  "(string \<Rightarrow> string \<Rightarrow> bool) \<Rightarrow> (string \<times> string) list \<Rightarrow> string option \<Rightarrow> (string \<times> string) list \<Rightarrow>
   string option \<times> (string \<times> string) list" where
  "session_headers sendable [] auth custom = (auth, custom)"
| "session_headers sendable ((name, value) # hs) auth custom =
     (case (if eq_ignore_ascii_case name ''authorization'' then bare_token value else None) of
        Some token \<Rightarrow> session_headers sendable hs (Some token) custom
      | None \<Rightarrow>
          if sendable name value then session_headers sendable hs auth (header_put name value custom)
          else session_headers sendable hs auth custom)"

record mcp_session =
  se_endpoint :: endpoint
  se_service :: nat

text \<open>What the client library answers: to the handshake, to the listing, and to a call.\<close>

datatype serve_answer = Served nat | ServeFailed string | ServeLate

record listed_tool =
  lt_name :: string
  lt_description :: "string option"
  lt_input_schema :: "(string \<times> json) list"
  lt_annotations :: "json option"

datatype list_answer = Listed "listed_tool list" | ListFailed string | ListLate

record dial_answer =
  da_client :: "string option"
  da_serve :: serve_answer
  da_list :: list_answer
  da_late :: bool

definition connect_within :: "deadlines \<Rightarrow> endpoint \<Rightarrow> dial_answer \<Rightarrow> mcp_error + mcp_session" where
  "connect_within d e a =
     (case da_client a of
        Some detail \<Rightarrow> Inl (ServerUnreachable (endpoint_key e) detail)
      | None \<Rightarrow>
          (case da_serve a of
             Served sv \<Rightarrow> Inr \<lparr>se_endpoint = e, se_service = sv\<rparr>
           | ServeFailed detail \<Rightarrow> Inl (ServerUnreachable (endpoint_key e) detail)
           | ServeLate \<Rightarrow> Inl (ServerTimedOut (endpoint_key e) (''initialize within '' @ duration_debug (dl_connect d)))))"

definition tool_from_listing :: "endpoint \<Rightarrow> listed_tool \<Rightarrow> mcp_tool" where
  "tool_from_listing e t =
     \<lparr>mt_qualified_name = qualify e (lt_name t), mt_remote_name = lt_name t,
      mt_description = lt_description t, mt_input_schema = Some (lt_input_schema t),
      mt_annotations = lt_annotations t\<rparr>"

definition session_tools :: "deadlines \<Rightarrow> mcp_session \<Rightarrow> list_answer \<Rightarrow> mcp_error + mcp_tool list" where
  "session_tools d s a =
     (case a of
        Listed ts \<Rightarrow> Inr (map (tool_from_listing (se_endpoint s)) ts)
      | ListFailed detail \<Rightarrow> Inl (ServerRefused (endpoint_key (se_endpoint s)) detail)
      | ListLate \<Rightarrow> Inl (ServerTimedOut (endpoint_key (se_endpoint s))
                     (''tools/list within '' @ duration_debug (dl_connect d))))"

definition connect_and_list ::
  "deadlines \<Rightarrow> endpoint \<Rightarrow> dial_answer \<Rightarrow> mcp_error + mcp_session \<times> mcp_tool list" where
  "connect_and_list d e a =
     (if da_late a
      then Inl (ServerTimedOut (endpoint_key e) (''initialize and tools/list within '' @ duration_debug (dl_connect d)))
      else rbind (connect_within d e a) (\<lambda>s. rbind (session_tools d s (da_list a)) (\<lambda>ts. Inr (s, ts))))"

datatype content_block = TextBlock string | ImageBlock | AudioBlock | ResourceBlock | ResourceLinkBlock | OtherBlock

fun kind_of_block :: "content_block \<Rightarrow> string" where
  "kind_of_block (TextBlock _) = ''text''"
| "kind_of_block ImageBlock = ''image''"
| "kind_of_block AudioBlock = ''audio''"
| "kind_of_block ResourceBlock = ''resource''"
| "kind_of_block ResourceLinkBlock = ''resource link''"
| "kind_of_block OtherBlock = ''other''"

fun block_text :: "content_block \<Rightarrow> string" where
  "block_text (TextBlock t) = t"
| "block_text b = ''['' @ kind_of_block b @ '' content]''"

definition render_result :: "serde \<Rightarrow> content_block list \<Rightarrow> json option \<Rightarrow> string" where
  "render_result sd blocks structured =
     (let parts = map block_text blocks @ (case structured of Some v \<Rightarrow> [sd_to_string sd v] | None \<Rightarrow> [])
      in if parts = [] then ''(the tool returned no content)'' else join [CHR 0x0A] parts)"

datatype call_answer =
    CallResult "content_block list" "json option"
  | CallSomethingElse
  | CallRanOut
  | CallFailed string bool

text \<open>
  A call by the server's own name, and whether the session may still be pooled after it:
  \<open>CallFailed\<close> carries whether the failure was the server's own answer.
\<close>

definition session_call ::
  "serde \<Rightarrow> deadlines \<Rightarrow> mcp_session \<Rightarrow> string \<Rightarrow> call_answer \<Rightarrow> (mcp_error + string) \<times> bool" where
  "session_call sd d s remote a =
     (let server = endpoint_key (se_endpoint s)
      in case a of
           CallResult blocks structured \<Rightarrow> (Inr (render_result sd blocks structured), True)
         | CallSomethingElse \<Rightarrow>
             (Inl (ServerRefused server (remote @
                '' answered with something other than a result (a request for input, or a task to poll), which this server cannot follow up'')), True)
         | CallRanOut \<Rightarrow>
             (Inl (ServerTimedOut server (Forms.tick @ remote @ Forms.tick @ '' within '' @ duration_debug (dl_call d) @
                ''. It was cancelled, but it may already have taken effect'' @ dash @ ''check before trying it again'')), False)
         | CallFailed detail own \<Rightarrow> (Inl (ServerRefused server detail), own))"

definition call_arguments :: "json \<Rightarrow> (string \<times> json) list option" where
  "call_arguments v = as_object v"

section \<open>The pool\<close>

record dial_slot =
  sl_scope :: string
  sl_url :: string
  sl_server :: string
  sl_headers :: "(string, string) bmap"

datatype pooled = Ready mcp_session "mcp_tool list" nat | Failed string nat

record pool =
  po_deadlines :: deadlines
  po_ttl :: nat
  po_retry_after :: nat
  po_slots :: "(dial_slot \<times> pooled) list"

definition POOL_TTL :: nat where "POOL_TTL = 60 * 1000"
definition POOL_RETRY_AFTER :: nat where "POOL_RETRY_AFTER = 30 * 1000"

definition pool_new :: "deadlines \<Rightarrow> pool" where
  "pool_new d = \<lparr>po_deadlines = d, po_ttl = POOL_TTL, po_retry_after = POOL_RETRY_AFTER, po_slots = []\<rparr>"

definition slot_of :: "string \<Rightarrow> endpoint \<Rightarrow> dial_slot" where
  "slot_of scope e =
     \<lparr>sl_scope = scope, sl_url = ep_url e, sl_server = endpoint_key e, sl_headers = ep_headers e\<rparr>"

text \<open>The world a dial sees, by the endpoint's place: the instants, and the client library's answers.\<close>

record dialler =
  dr_now :: "nat \<Rightarrow> nat"
  dr_usable :: "nat \<Rightarrow> mcp_session \<Rightarrow> bool"
  dr_answer :: "nat \<Rightarrow> dial_answer"
  dr_landed :: "nat \<Rightarrow> nat"

fun worth_using :: "pool \<Rightarrow> nat \<Rightarrow> (mcp_session \<Rightarrow> bool) \<Rightarrow> pooled \<Rightarrow> bool" where
  "worth_using p now usable (Ready s ts at) \<longleftrightarrow> now - at < po_ttl p \<and> usable s"
| "worth_using p now usable (Failed why at) \<longleftrightarrow> now - at < po_retry_after p"

definition pool_fresh :: "nat \<Rightarrow> (mcp_session \<Rightarrow> bool) \<Rightarrow> dial_slot \<Rightarrow> pool \<Rightarrow> pooled option \<times> pool" where
  "pool_fresh now usable slot p =
     (let kept = filter (\<lambda>sp. worth_using p now usable (snd sp)) (po_slots p)
      in (map_of kept slot, p\<lparr>po_slots := kept\<rparr>))"

definition pool_remember :: "dial_slot \<Rightarrow> pooled \<Rightarrow> pool \<Rightarrow> pool" where
  "pool_remember slot entry p = p\<lparr>po_slots := (slot, entry) # filter (\<lambda>sp. fst sp \<noteq> slot) (po_slots p)\<rparr>"

record dialled =
  di_sessions :: "(string, mcp_session) bmap"
  di_tools :: "mcp_tool list"
  di_unavailable :: "(string, string) bmap"

definition nothing_dialled :: dialled where
  "nothing_dialled = \<lparr>di_sessions = [], di_tools = [], di_unavailable = []\<rparr>"

text \<open>First every endpoint is looked up in the pool; what is not there is being dialled meanwhile.\<close>

fun dial_look :: "dialler \<Rightarrow> string \<Rightarrow> nat \<Rightarrow> endpoint list \<Rightarrow> pool \<Rightarrow> (endpoint \<times> pooled option) list \<times> pool" where
  "dial_look w scope i [] p = ([], p)"
| "dial_look w scope i (e # es) p =
     (let (found, p') = pool_fresh (dr_now w i) (dr_usable w i) (slot_of scope e) p;
          (pending, p'') = dial_look w scope (i + 1) es p'
      in ((e, found) # pending, p''))"

definition dial_land :: "dialler \<Rightarrow> pool \<Rightarrow> nat \<Rightarrow> endpoint \<Rightarrow> pooled" where
  "dial_land w p i e =
     (case connect_and_list (po_deadlines p) e (dr_answer w i) of
        Inr (s, ts) \<Rightarrow> Ready s ts (dr_landed w i)
      | Inl err \<Rightarrow> Failed (mcp_error_text err) (dr_landed w i))"

fun dial_take :: "(string \<Rightarrow> bool) \<Rightarrow> string \<Rightarrow> pooled \<Rightarrow> dialled \<Rightarrow> dialled" where
  "dial_take permitted key (Ready s ts at) d =
     d\<lparr>di_tools := di_tools d @ filter (\<lambda>t. permitted (mt_qualified_name t)) ts,
       di_sessions := bm_insert key s (di_sessions d)\<rparr>"
| "dial_take permitted key (Failed why at) d =
     d\<lparr>di_unavailable := bm_insert key why (di_unavailable d)\<rparr>"

text \<open>Then they are collected in the order given.\<close>

fun dial_collect ::
  "dialler \<Rightarrow> string \<Rightarrow> (string \<Rightarrow> bool) \<Rightarrow> nat \<Rightarrow> (endpoint \<times> pooled option) list \<Rightarrow> pool \<Rightarrow> dialled \<Rightarrow> dialled \<times> pool" where
  "dial_collect w scope permitted i [] p d = (d, p)"
| "dial_collect w scope permitted i ((e, found) # es) p d =
     (let (entry, p') = (case found of
            Some entry \<Rightarrow> (entry, p)
          | None \<Rightarrow> let entry = dial_land w p i e in (entry, pool_remember (slot_of scope e) entry p))
      in dial_collect w scope permitted (i + 1) es p' (dial_take permitted (endpoint_key e) entry d))"

definition dial :: "dialler \<Rightarrow> string \<Rightarrow> endpoint list \<Rightarrow> (string \<Rightarrow> bool) \<Rightarrow> pool \<Rightarrow> dialled \<times> pool" where
  "dial w scope es permitted p =
     (let (pending, p') = dial_look w scope 0 es p
      in dial_collect w scope permitted 0 pending p' nothing_dialled)"

end
