(* ===== verification/Mcp_Laws.thy ===== *)
theory Mcp_Laws
  imports Mcp
begin

text \<open>
  What is proved of a plugin's tools on the wire: the names a turn offers are legal, distinct and
  never a built-in's; a header's scan ends when no value holds a dollar sign, and does not when a
  value holds its own placeholder; no identity key is offered in a schema; and a session is only
  handed to an endpoint with the credential it was opened with.
\<close>

section \<open>Names\<close>

definition legal_wire :: "string \<Rightarrow> bool" where
  "legal_wire s \<longleftrightarrow> s \<noteq> [] \<and> length s \<le> 64 \<and> list_all wire_char s"

lemma wire_char_underscore [simp]: "wire_char (CHR ''_'')"
  by (simp add: wire_char_def)

lemma digit_is_wire: "is_ascii_digit c \<Longrightarrow> wire_char c"
  by (simp add: wire_char_def is_ascii_alphanumeric_def)

lemma safe_name_legal: "legal_wire (openai_safe_tool_name name)"
proof -
  have "list_all wire_char (take 64 (map (\<lambda>c. if wire_char c then c else CHR ''_'') xs))" for xs
    by (auto simp: list_all_iff dest!: in_set_takeD)
  then show ?thesis by (simp add: legal_wire_def openai_safe_tool_name_def Let_def)
qed

text \<open>A name that is legal already is its own.\<close>

lemma wire_char_single: "wire_char c \<Longrightarrow> \<not> continues c"
  by (auto simp: wire_char_def is_ascii_alphanumeric_def is_ascii_alphabetic_def is_ascii_digit_def
      is_ascii_lowercase_def is_ascii_uppercase_def continues_def byte_def)

lemma safe_name_of_legal: "legal_wire name \<Longrightarrow> openai_safe_tool_name name = name"
proof -
  assume name: "legal_wire name"
  then have all: "\<forall>c\<in>set name. wire_char c" by (simp add: legal_wire_def list_all_iff)
  then have "filter (\<lambda>c. \<not> continues c) name = name" by (auto simp: filter_id_conv wire_char_single)
  moreover from all have "map (\<lambda>c. if wire_char c then c else CHR ''_'') name = name"
    by (auto intro: map_idI)
  ultimately show ?thesis using name by (simp add: openai_safe_tool_name_def legal_wire_def)
qed

lemma length_nat_str: "n < 10 ^ Suc k \<Longrightarrow> length (nat_str n) \<le> Suc k"
proof (induction k arbitrary: n)
  case 0
  then show ?case by (simp add: nat_str.simps [of n])
next
  case (Suc k)
  then have "n div 10 < 10 ^ Suc k" by (simp add: less_mult_imp_div_less)
  with Suc.IH [of "n div 10"] show ?case by (simp add: nat_str.simps [of n])
qed

lemma length_u32_str: "n < 2 ^ 32 \<Longrightarrow> length (nat_str n) \<le> 10"
  using length_nat_str [of n 9] by simp

lemma underscore_not_digit: "CHR ''_'' \<notin> set (nat_str n)"
  using nat_str_digits [of n] by (auto simp: list_all_iff is_ascii_digit_def byte_def)

lemma numbered_name_shape:
  assumes "n < 2 ^ 32"
  shows "\<exists>kept. numbered_name base n = kept @ ''_'' @ nat_str n \<and> kept \<noteq> [] \<and>
     length kept \<le> 63 - length (nat_str n) \<and> (kept = ''_'' \<or> set kept \<subseteq> set base)"
proof -
  let ?keep = "max (64 - length (''_'' @ nat_str n)) 1"
  let ?kept = "if take ?keep base = [] then ''_'' else take ?keep base"
  have short: "length (nat_str n) \<le> 10" using assms by (rule length_u32_str)
  have len: "length ?kept \<le> 63 - length (nat_str n)" using short by (cases base) auto
  then have "length (?kept @ ''_'' @ nat_str n) \<le> 64" using short by simp
  then have "numbered_name base n = ?kept @ ''_'' @ nat_str n"
    unfolding numbered_name_def Let_def by (rule take_all)
  moreover have "?kept = ''_'' \<or> set ?kept \<subseteq> set base"
    by (cases "take ?keep base = []") (simp_all add: set_take_subset)
  moreover have "?kept \<noteq> []" by simp
  ultimately show ?thesis using len by blast
qed

lemma numbered_name_legal:
  assumes "n < 2 ^ 32" "list_all wire_char base"
  shows "legal_wire (numbered_name base n)"
proof -
  from numbered_name_shape [OF assms(1)] obtain kept where
    k: "numbered_name base n = kept @ ''_'' @ nat_str n" "length kept \<le> 63 - length (nat_str n)"
      "kept = ''_'' \<or> set kept \<subseteq> set base" by blast
  from assms(2) k(3) have "list_all wire_char kept" by (auto simp: list_all_iff)
  moreover have "list_all wire_char (nat_str n)"
    using nat_str_digits [of n] by (auto simp: list_all_iff digit_is_wire)
  ultimately show ?thesis using k length_u32_str [OF assms(1)] by (simp add: legal_wire_def)
qed

lemma numbered_name_inject:
  assumes "n < 2 ^ 32" "m < 2 ^ 32" "numbered_name base n = numbered_name base m"
  shows "n = m"
proof -
  have tail: "rev (takeWhile (\<lambda>c. c \<noteq> CHR ''_'') (rev (kept @ ''_'' @ nat_str j))) = nat_str j" for kept j
    using underscore_not_digit [of j] by (simp add: takeWhile_append)
  from numbered_name_shape [OF assms(1)] obtain k where k: "numbered_name base n = k @ ''_'' @ nat_str n" by blast
  from numbered_name_shape [OF assms(2)] obtain l where l: "numbered_name base m = l @ ''_'' @ nat_str m" by blast
  from assms(3) k l have "k @ ''_'' @ nat_str n = l @ ''_'' @ nat_str m" by simp
  then have "nat_str n = nat_str m" by (metis tail)
  then show ?thesis by simp
qed

lemma first_free_is:
  assumes "n < 2 ^ 32"
  shows "\<exists>m. n \<le> m \<and> m < 2 ^ 32 \<and> first_free used base n = numbered_name base m \<and>
     (numbered_name base m \<notin> used \<or> m = 2 ^ 32 - 1) \<and> (\<forall>j\<in>{n..<m}. numbered_name base j \<in> used)"
  using assms
proof (induction used base n rule: first_free.induct)
  case (1 used base n)
  show ?case
  proof (cases "numbered_name base n \<notin> used \<or> 2 ^ 32 - 1 \<le> n")
    case True
    then have "first_free used base n = numbered_name base n" by (simp add: first_free.simps [of used base n] Let_def)
    moreover have "numbered_name base n \<notin> used \<or> n = 2 ^ 32 - 1" using True "1.prems" by auto
    ultimately show ?thesis using "1.prems" by (intro exI [of _ n]) auto
  next
    case False
    then have step: "first_free used base n = first_free used base (n + 1)"
      by (simp add: first_free.simps [of used base n] Let_def)
    from False have "n + 1 < 2 ^ 32" by simp
    with "1.IH" [OF refl] False obtain m where
      m: "n + 1 \<le> m" "m < 2 ^ 32" "first_free used base (n + 1) = numbered_name base m"
        "numbered_name base m \<notin> used \<or> m = 2 ^ 32 - 1" "\<forall>j\<in>{n + 1..<m}. numbered_name base j \<in> used" by auto
    moreover have "\<forall>j\<in>{n..<m}. numbered_name base j \<in> used"
    proof
      fix j assume "j \<in> {n..<m}"
      then have "j = n \<or> j \<in> {n + 1..<m}" by auto
      with m(5) False show "numbered_name base j \<in> used" by blast
    qed
    ultimately show ?thesis using step by (intro exI [of _ m]) simp
  qed
qed

text \<open>With fewer names in use than a 32-bit counter counts, the first free name is free.\<close>

lemma first_free_fresh:
  assumes "finite used" "card used < 2 ^ 32 - 3"
  shows "first_free used base 2 \<notin> used"
proof -
  from first_free_is [of 2 used base] obtain m where
    m: "2 \<le> m" "m < 2 ^ 32" "first_free used base 2 = numbered_name base m"
      "numbered_name base m \<notin> used \<or> m = 2 ^ 32 - 1" "\<forall>j\<in>{2..<m}. numbered_name base j \<in> used" by auto
  have "inj_on (numbered_name base) {2..<m}"
    using m(2) by (auto intro!: inj_onI elim!: numbered_name_inject [rotated 2])
  then have "card {2..<m} \<le> card used"
    using card_inj_on_le [of "numbered_name base" "{2..<m}" used] m(5) assms(1) by auto
  with assms(2) m(4) have "numbered_name base m \<notin> used" by auto
  with m(3) show ?thesis by simp
qed

lemma unique_name_fresh:
  assumes "finite used" "card used < 2 ^ 32 - 3" "unique_openai_name used name = (wire, used')"
  shows "wire \<notin> used \<and> used' = insert wire used \<and> legal_wire wire"
proof -
  let ?base = "openai_safe_tool_name name"
  have base: "list_all wire_char ?base" using safe_name_legal by (simp add: legal_wire_def)
  from first_free_is [of 2 used ?base] obtain m where
    "m < 2 ^ 32" "first_free used ?base 2 = numbered_name ?base m" by auto
  then have "legal_wire (first_free used ?base 2)" using numbered_name_legal base by simp
  with assms(3) first_free_fresh [OF assms(1,2)] safe_name_legal show ?thesis
    by (auto simp: unique_openai_name_def Let_def split: if_splits)
qed

lemma unique_names_fst [simp]: "map fst (unique_names used names) = names"
  by (induction used names rule: unique_names.induct) (auto split: prod.splits)

lemma unique_names_sound:
  "finite used \<Longrightarrow> card used + length names < 2 ^ 32 - 3 \<Longrightarrow>
   distinct (map snd (unique_names used names)) \<and>
   (\<forall>wire\<in>snd ` set (unique_names used names). wire \<notin> used \<and> legal_wire wire)"
proof (induction used names rule: unique_names.induct)
  case (2 used name names)
  obtain wire used' where u: "unique_openai_name used name = (wire, used')" by fastforce
  from unique_name_fresh [OF "2.prems"(1) _ u] "2.prems"(2) have
    w: "wire \<notin> used" "used' = insert wire used" "legal_wire wire" by auto
  with "2.prems" have "finite used'" "card used' + length names < 2 ^ 32 - 3" by auto
  from "2.IH" [OF u [symmetric] refl this] w u show ?case by auto
qed simp

lemma card_reserved: "card (set (map openai_safe_tool_name reserved)) \<le> length reserved"
  by (metis card_length length_map)

lemma wire_names_sound:
  assumes "length reserved + length qualified < 2 ^ 32 - 3"
  shows "distinct (map snd (openai_unique_tool_names reserved qualified)) \<and>
    (\<forall>wire\<in>snd ` set (openai_unique_tool_names reserved qualified).
       wire \<notin> openai_safe_tool_name ` set reserved \<and> legal_wire wire)"
  using unique_names_sound [of "set (map openai_safe_tool_name reserved)" "qualified"]
    card_reserved [of reserved] assms
  by (simp add: openai_unique_tool_names_def)


section \<open>Headers\<close>

lemma bm_get_member: "bm_get m k = Some v \<Longrightarrow> v \<in> snd ` set m"
  by (auto simp: bm_get_def dest: map_of_SomeD intro: rev_image_eqI)

definition has_placeholder :: "string \<Rightarrow> bool" where
  "has_placeholder v \<longleftrightarrow> (\<exists>a k b. v = a @ ''${'' @ k @ ''}'' @ b)"

text \<open>The first opening is at or before every other.\<close>

lemma split_once_str_first:
  "p \<noteq> [] \<Longrightarrow> \<exists>x y. split_once_str p (a @ p @ b) = Some (x, y) \<and> suffix b y"
proof (induction a)
  case Nil
  then have "split_once_str p (p @ b) = Some ([], b)" by (cases p) auto
  then show ?case by simp
next
  case (Cons c a)
  then obtain x y where xy: "split_once_str p (a @ p @ b) = Some (x, y)" "suffix b y" by auto
  show ?case
  proof (cases "prefix p (c # a @ p @ b)")
    case True
    have "drop (length p) (c # a @ p @ b) = drop (length p) (c # a @ p) @ b"
      using drop_append [of "length p" "c # a @ p" b] by simp
    then have "suffix b (drop (length p) (c # a @ p @ b))" by (simp add: suffix_def)
    with True show ?thesis by simp
  next
    case False
    with xy show ?thesis by simp
  qed
qed

lemma no_placeholder:
  "has_placeholder v \<Longrightarrow> \<exists>before rest key after.
     split_once_str ''${'' v = Some (before, rest) \<and> split_once (CHR ''}'') rest = Some (key, after)"
proof -
  assume "has_placeholder v"
  then obtain a k b where v: "v = a @ ''${'' @ k @ ''}'' @ b" by (auto simp: has_placeholder_def)
  from split_once_str_first [of "''${''" a "k @ ''}'' @ b"] obtain x y where
    xy: "split_once_str ''${'' v = Some (x, y)" "suffix (k @ ''}'' @ b) y" by (auto simp: v)
  then have "CHR ''}'' \<in> set y" by (auto simp: suffix_def)
  then have "split_once (CHR ''}'') y \<noteq> None" by (simp add: split_once_None)
  with xy show ?thesis by auto
qed

lemma filled_has_no_placeholder:
  assumes "fill_template vals t = Some (Inr v)"
  shows "\<not> has_placeholder v"
proof -
  have "Inr v = (Inr v :: string + string) \<longrightarrow> \<not> has_placeholder v"
  proof (rule fill_template.raw_induct [where P = "\<lambda>vals t r. r = Inr v \<longrightarrow> \<not> has_placeholder v", OF _ assms])
    fix fill :: "(string, string) bmap \<Rightarrow> string \<Rightarrow> (string + string) option"
      and vals :: "(string, string) bmap" and t :: string and r :: "string + string"
    assume IH: "\<And>vals t r. fill vals t = Some r \<Longrightarrow> r = Inr v \<longrightarrow> \<not> has_placeholder v"
      and body: "(case split_once_str ''${'' t of None \<Rightarrow> Some (Inr t)
        | Some (before, rest) \<Rightarrow> (case split_once (CHR ''}'') rest of None \<Rightarrow> Some (Inr t)
          | Some (key, after) \<Rightarrow> (case bm_get vals key of
              None \<Rightarrow> Some (Inl key)
            | Some resolved \<Rightarrow> fill vals (before @ resolved @ after)))) = Some r"
    have again: "fill vals t = Some (Inr v) \<Longrightarrow> \<not> has_placeholder v" for vals t
      using IH by blast
    show "r = Inr v \<longrightarrow> \<not> has_placeholder v"
    proof (cases "has_placeholder t")
      case True
      from no_placeholder [OF this] body show ?thesis by (auto split: option.splits dest: again)
    next
      case False
      with body show ?thesis by (auto split: option.splits) (use again in blast)
    qed
  qed
  then show ?thesis by simp
qed

lemma count_list_less: "c \<notin> set r \<Longrightarrow> count_list (a @ r @ b) c < count_list (a @ c # s @ b) c"
  by (simp add: count_list_append)

lemma fill_template_ends:
  assumes "\<forall>v\<in>snd ` set vals. CHR ''$'' \<notin> set v"
  shows "\<exists>r. fill_template vals t = Some r"
proof (induction "count_list t (CHR ''$'')" arbitrary: t rule: less_induct)
  case less
  show ?case
  proof (cases "\<exists>before rest key after resolved. split_once_str ''${'' t = Some (before, rest) \<and>
      split_once (CHR ''}'') rest = Some (key, after) \<and> bm_get vals key = Some resolved")
    case True
    then obtain before rest key after resolved where
      s: "split_once_str ''${'' t = Some (before, rest)" "split_once (CHR ''}'') rest = Some (key, after)"
        "bm_get vals key = Some resolved" by blast
    have t: "t = before @ CHR ''$'' # (''{'' @ key @ ''}'') @ after"
      using split_once_str_Some [OF s(1)] s(2) [unfolded split_once_Some] by simp
    have "CHR ''$'' \<notin> set resolved" using assms bm_get_member [OF s(3)] by blast
    then have "count_list (before @ resolved @ after) (CHR ''$'') < count_list t (CHR ''$'')"
      unfolding t by (rule count_list_less)
    from less [OF this] s show ?thesis by (subst fill_template.simps) simp
  next
    case False
    then show ?thesis
      by (subst fill_template.simps) (auto split: option.splits prod.splits)
  qed
qed

lemma fill_headers_ends:
  "(\<forall>v\<in>snd ` set vals. CHR ''$'' \<notin> set v) \<Longrightarrow> \<exists>r. fill_headers ds vals filled unresolved = Some r"
proof (induction ds vals filled unresolved rule: fill_headers.induct)
  case (2 name template ds vals filled unresolved)
  obtain r where r: "fill_template vals template = Some r" using fill_template_ends "2.prems" by blast
  then show ?case using 2 by (cases r) auto
qed simp

lemma bm_insert_set: "set (bm_insert k v m) \<subseteq> insert (k, v) (set m)"
  by (induction k v m rule: bm_insert.induct) auto

lemma fill_headers_filled:
  "fill_headers ds vals filled unresolved = Some (hs, us) \<Longrightarrow>
   \<forall>v\<in>snd ` set filled. \<not> has_placeholder v \<Longrightarrow> \<forall>v\<in>snd ` set hs. \<not> has_placeholder v"
proof (induction ds vals filled unresolved rule: fill_headers.induct)
  case (2 name template ds vals filled unresolved)
  show ?case
  proof (cases "fill_template vals template")
    case None
    with "2.prems" show ?thesis by simp
  next
    case (Some r)
    show ?thesis
    proof (cases r)
      case (Inr v)
      have "\<forall>v\<in>snd ` set (bm_insert name v filled). \<not> has_placeholder v"
        using bm_insert_set [of name v filled] "2.prems"(2) filled_has_no_placeholder Some Inr by fastforce
      with "2.IH"(2) [OF Some Inr] "2.prems" Some Inr show ?thesis by simp
    qed (use 2 Some in auto)
  qed
qed auto

lemma http_endpoint_filled:
  "http_endpoint plugin name url headers vals = Some (Inr e) \<Longrightarrow>
   \<forall>v\<in>snd ` set (ep_headers e). \<not> has_placeholder v"
  using fill_headers_filled [of headers vals "[]" "[]"]
  by (auto simp: http_endpoint_def fill_placeholders_def split: if_splits)

lemma endpoint_of_filled:
  "endpoint_of plugin vals name server = Some (Inr e) \<Longrightarrow> \<forall>v\<in>snd ` set (ep_headers e). \<not> has_placeholder v"
  by (cases server) (simp_all add: http_endpoint_filled)

lemma fill_placeholders_ends:
  "(\<forall>v\<in>snd ` set vals. CHR ''$'' \<notin> set v) \<Longrightarrow> \<exists>r. fill_placeholders headers vals = Some r"
  by (simp only: fill_placeholders_def fill_headers_ends)

lemma endpoint_of_ends:
  assumes "\<forall>v\<in>snd ` set vals. CHR ''$'' \<notin> set v"
  shows "\<exists>r. endpoint_of plugin vals name server = Some r"
proof (cases server)
  case (StreamableHttp url headers)
  from fill_placeholders_ends [OF assms, of headers] StreamableHttp show ?thesis
    by (auto simp: http_endpoint_def)
next
  case (SseServer url headers)
  from fill_placeholders_ends [OF assms, of headers] SseServer show ?thesis
    by (auto simp: http_endpoint_def)
qed simp

lemma endpoints_for_filled:
  "endpoints_for plugin ss vals = Some (es, ps) \<Longrightarrow>
   length es + length ps = length ss \<and> (\<forall>e\<in>set es. \<forall>v\<in>snd ` set (ep_headers e). \<not> has_placeholder v)"
proof (induction plugin ss vals arbitrary: es ps rule: endpoints_for.induct)
  case (2 plugin name server ss vals)
  then obtain r es' ps' where r: "endpoint_of plugin vals name server = Some r"
    "endpoints_for plugin ss vals = Some (es', ps')"
    "(es, ps) = (case r of Inr e \<Rightarrow> (e # es', ps') | Inl p \<Rightarrow> (es', p # ps'))"
    by (auto split: option.splits)
  from "2.IH" [OF r(1,2)] r endpoint_of_filled [of plugin vals name server] show ?case
    by (cases r) auto
qed simp

lemma endpoints_for_ends:
  "(\<forall>v\<in>snd ` set vals. CHR ''$'' \<notin> set v) \<Longrightarrow> \<exists>r. endpoints_for plugin ss vals = Some r"
proof (induction plugin ss vals rule: endpoints_for.induct)
  case (2 plugin name server ss vals)
  obtain r where "endpoint_of plugin vals name server = Some r" using endpoint_of_ends "2.prems" by blast
  with 2 show ?case by auto
qed simp

text \<open>A value that holds its own placeholder is put back into the text for ever.\<close>

definition echoing :: "(string, string) bmap" where
  "echoing = [(''GITHUB_TOKEN'', ''${GITHUB_TOKEN}'')]"

lemma echo_step:
  "split_once_str ''${'' ''Bearer ${GITHUB_TOKEN}'' = Some (''Bearer '', ''GITHUB_TOKEN}'')"
  "split_once (CHR ''}'') ''GITHUB_TOKEN}'' = Some (''GITHUB_TOKEN'', [])"
  "bm_get echoing ''GITHUB_TOKEN'' = Some ''${GITHUB_TOKEN}''"
  by code_simp+

lemma echo_never_ends: "fill_template echoing ''Bearer ${GITHUB_TOKEN}'' = None"
proof (rule ccontr)
  assume "fill_template echoing ''Bearer ${GITHUB_TOKEN}'' \<noteq> None"
  then obtain r where r: "fill_template echoing ''Bearer ${GITHUB_TOKEN}'' = Some r" by blast
  have "\<not> (echoing = echoing \<and> ''Bearer ${GITHUB_TOKEN}'' = ''Bearer ${GITHUB_TOKEN}'')"
  proof (rule fill_template.raw_induct
      [where P = "\<lambda>vals t r. \<not> (vals = echoing \<and> t = ''Bearer ${GITHUB_TOKEN}'')", OF _ r])
    fix fill :: "(string, string) bmap \<Rightarrow> string \<Rightarrow> (string + string) option"
      and vals :: "(string, string) bmap" and t :: string and r :: "string + string"
    assume IH: "\<And>vals t r. fill vals t = Some r \<Longrightarrow> \<not> (vals = echoing \<and> t = ''Bearer ${GITHUB_TOKEN}'')"
      and body: "(case split_once_str ''${'' t of None \<Rightarrow> Some (Inr t)
        | Some (before, rest) \<Rightarrow> (case split_once (CHR ''}'') rest of None \<Rightarrow> Some (Inr t)
          | Some (key, after) \<Rightarrow> (case bm_get vals key of
              None \<Rightarrow> Some (Inl key)
            | Some resolved \<Rightarrow> fill vals (before @ resolved @ after)))) = Some r"
    show "\<not> (vals = echoing \<and> t = ''Bearer ${GITHUB_TOKEN}'')"
    proof
      assume "vals = echoing \<and> t = ''Bearer ${GITHUB_TOKEN}''"
      with body have "fill echoing (''Bearer '' @ ''${GITHUB_TOKEN}'' @ []) = Some r"
        by (simp only: echo_step option.case prod.case)
      from IH [OF this] show False by simp
    qed
  qed
  then show False by simp
qed

lemma header_scan_hangs:
  "fill_placeholders [(''authorization'', ''Bearer ${GITHUB_TOKEN}'')] [(''GITHUB_TOKEN'', ''${GITHUB_TOKEN}'')] = None"
  using echo_never_ends by (simp add: fill_placeholders_def echoing_def)


section \<open>Schemas\<close>

lemma set_last_front: "m \<noteq> [] \<Longrightarrow> set (last m # butlast m) = set m"
  by (induction m) auto

lemma jm_remove_set:
  "distinct (map fst m) \<Longrightarrow> set (jm_remove k m) = {kv \<in> set m. fst kv \<noteq> k}"
proof (induction m)
  case (Cons kv m)
  obtain k' v' where kv: "kv = (k', v')" by (cases kv)
  show ?case
  proof (cases "k' = k")
    case True
    then have "k \<notin> fst ` set m" using Cons.prems kv by auto
    then have "{kv \<in> set m. fst kv \<noteq> k} = set m" by (auto intro: rev_image_eqI)
    with True kv show ?thesis using set_last_front [of m] by (cases "m = []") auto
  next
    case False
    with Cons kv show ?thesis by auto
  qed
qed simp

lemma distinct_last_butlast: "m \<noteq> [] \<Longrightarrow> distinct (map f (last m # butlast m)) \<longleftrightarrow> distinct (map f m)"
  by (induction m rule: rev_induct) auto

lemma jm_remove_distinct: "distinct (map fst m) \<Longrightarrow> distinct (map fst (jm_remove k m))"
proof (induction m)
  case (Cons kv m)
  obtain k' v' where kv: "kv = (k', v')" by (cases kv)
  show ?case
  proof (cases "k' = k")
    case True
    with Cons.prems kv distinct_last_butlast [of m fst] show ?thesis by (cases "m = []") auto
  next
    case False
    have "k' \<notin> fst ` set (jm_remove k m)" using jm_remove_set [of m k] Cons.prems kv by auto
    with False Cons kv show ?thesis by simp
  qed
qed simp

lemma jm_remove_all_sound:
  "distinct (map fst m) \<Longrightarrow>
   set (jm_remove_all ks m) = {kv \<in> set m. fst kv \<notin> set ks} \<and> distinct (map fst (jm_remove_all ks m))"
proof (induction ks arbitrary: m)
  case (Cons k ks)
  from Cons.IH [OF jm_remove_distinct [OF Cons.prems, of k]] jm_remove_set [OF Cons.prems, of k]
  show ?case by (auto simp: jm_remove_all_def)
qed (simp add: jm_remove_all_def)

lemma map_of_set: "distinct (map fst m) \<Longrightarrow> map_of m k = Some v \<longleftrightarrow> (k, v) \<in> set m"
  by simp

lemma jm_put_fst [simp]: "map fst (jm_put k v m) = map fst m"
  by (induction m) (auto simp: jm_put_def)

lemma map_of_jm_put:
  "map_of (jm_put k v m) j = (if j = k \<and> map_of m k \<noteq> None then Some v else map_of m j)"
  by (induction m) (auto simp: jm_put_def)

text \<open>A schema that is offered asks for no identity key, is of an object, and is within its cap.\<close>

definition asks_no_identity :: "(string \<times> json) list \<Rightarrow> bool" where
  "asks_no_identity schema \<longleftrightarrow>
     (\<forall>ps. map_of schema ''properties'' = Some (JObject ps) \<longrightarrow> (\<forall>k\<in>set IDENTITY_KEYS. map_of ps k = None)) \<and>
     (\<forall>names. map_of schema ''required'' = Some (JArray names) \<longrightarrow>
        (\<forall>k\<in>set IDENTITY_KEYS. JString k \<notin> set names))"

lemma map_of_jm_remove:
  "distinct (map fst m) \<Longrightarrow> map_of (jm_remove k m) j = (if j = k then None else map_of m j)"
proof -
  assume d: "distinct (map fst m)"
  have "map_of (jm_remove k m) j = Some v \<longleftrightarrow> (if j = k then None else map_of m j) = Some v" for v
    using jm_remove_set [OF d, of k] map_of_set [OF d, of j v]
      map_of_set [OF jm_remove_distinct [OF d], of k j v] by auto
  then show ?thesis by (metis not_None_eq)
qed

lemma advertised_properties_sound:
  assumes "advertised_properties m = Inr m'" "distinct (map fst m)"
    "\<And>ps. map_of m ''properties'' = Some (JObject ps) \<Longrightarrow> distinct (map fst ps)"
  shows "distinct (map fst m') \<and> (\<forall>j. j \<noteq> ''properties'' \<longrightarrow> map_of m' j = map_of m j) \<and>
    (\<forall>ps. map_of m' ''properties'' = Some (JObject ps) \<longrightarrow> (\<forall>k\<in>set IDENTITY_KEYS. map_of ps k = None))"
proof (cases "map_of m ''properties''")
  case None
  then have "m' = m" using assms(1) by (simp add: advertised_properties_def)
  with None assms(2) show ?thesis by simp
next
  case (Some v)
  with assms(1) obtain ps where ps: "v = JObject ps"
    by (auto simp: advertised_properties_def split: json.splits)
  then have m': "m' = jm_put ''properties'' (JObject (jm_remove_all IDENTITY_KEYS ps)) m"
    using assms(1) Some by (simp add: advertised_properties_def)
  have sound: "set (jm_remove_all IDENTITY_KEYS ps) = {kv \<in> set ps. fst kv \<notin> set IDENTITY_KEYS}"
    using jm_remove_all_sound assms(3) Some ps by blast
  have "map_of (jm_remove_all IDENTITY_KEYS ps) k = None" if "k \<in> set IDENTITY_KEYS" for k
    using that sound by (auto simp: map_of_eq_None_iff simp del: set_map)
  with Some assms(2) show ?thesis by (simp add: m' map_of_jm_put)
qed

lemma advertised_required_sound:
  assumes "distinct (map fst m)"
  shows "(\<forall>j. j \<noteq> ''required'' \<longrightarrow> map_of (advertised_required m) j = map_of m j) \<and>
    (\<forall>names. map_of (advertised_required m) ''required'' = Some (JArray names) \<longrightarrow>
       (\<forall>k\<in>set IDENTITY_KEYS. JString k \<notin> set names))"
proof (cases "map_of m ''required''")
  case None
  then show ?thesis using assms by (simp add: advertised_required_def map_of_jm_remove)
next
  case (Some v)
  then show ?thesis
    using assms by (cases v) (auto simp: advertised_required_def Let_def map_of_jm_remove split: if_splits)
qed

lemma advertised_is_safe:
  assumes "advertised_parameters sd (Some raw) = Inr v" "distinct (map fst raw)"
    "\<And>ps. map_of raw ''properties'' = Some (JObject ps) \<Longrightarrow> distinct (map fst ps)"
  shows "\<exists>m. v = JObject m \<and> map_of m ''type'' = Some (JString ''object'') \<and> asks_no_identity m \<and>
    serialised_len sd v \<le> MAX_ADVERTISED_SCHEMA_BYTES"
proof -
  define plain where
    "plain = jm_remove_all ROOT_KEYWORDS_NOT_ADVERTISED (jm_insert ''type'' (JString ''object'') raw)"
  have d: "distinct (map fst (jm_insert ''type'' (JString ''object'') raw))" using assms(2) by (rule jm_insert_distinct)
  note ps = jm_remove_all_sound [OF d, of ROOT_KEYWORDS_NOT_ADVERTISED, folded plain_def]
  from assms(1) obtain cleaned where c: "advertised_properties plain = Inr cleaned"
    "v = JObject (advertised_required cleaned)" "serialised_len sd v \<le> MAX_ADVERTISED_SCHEMA_BYTES"
    by (auto simp: advertised_parameters_def plain_def [symmetric] Let_def rbind_def
        split: if_splits sum.splits)
  have keep: "map_of plain j = map_of (jm_insert ''type'' (JString ''object'') raw) j"
    if "j \<notin> set ROOT_KEYWORDS_NOT_ADVERTISED" for j
  proof -
    have "map_of plain j = Some w \<longleftrightarrow> map_of (jm_insert ''type'' (JString ''object'') raw) j = Some w" for w
      using that ps map_of_set [OF d, of j w] map_of_set [of plain j w] by auto
    then show ?thesis by (metis not_None_eq)
  qed
  have "''properties'' \<notin> set ROOT_KEYWORDS_NOT_ADVERTISED" "''type'' \<notin> set ROOT_KEYWORDS_NOT_ADVERTISED"
    by (simp_all add: ROOT_KEYWORDS_NOT_ADVERTISED_def)
  with keep have p: "map_of plain ''properties'' = map_of raw ''properties''"
    "map_of plain ''type'' = Some (JString ''object'')" by simp_all
  have pd: "distinct (map fst ps)" if "map_of plain ''properties'' = Some (JObject ps)" for ps
    using that unfolding p(1) by (rule assms(3))
  from advertised_properties_sound [OF c(1) conjunct2 [OF ps] pd] have
    cl: "distinct (map fst cleaned)" "\<forall>j. j \<noteq> ''properties'' \<longrightarrow> map_of cleaned j = map_of plain j"
      "\<forall>ps. map_of cleaned ''properties'' = Some (JObject ps) \<longrightarrow> (\<forall>k\<in>set IDENTITY_KEYS. map_of ps k = None)"
    by blast+
  note req = advertised_required_sound [OF cl(1)]
  have "map_of (advertised_required cleaned) ''type'' = Some (JString ''object'')" using req cl(2) p(2) by simp
  moreover have "map_of (advertised_required cleaned) ''properties'' = map_of cleaned ''properties''" using req by simp
  then have "asks_no_identity (advertised_required cleaned)"
    unfolding asks_no_identity_def using req cl(3) by simp
  ultimately show ?thesis using c(2,3) by blast
qed


section \<open>Dialling\<close>

text \<open>A pooled session sits in the slot its own endpoint and the scope make.\<close>

definition pool_sound :: "pool \<Rightarrow> bool" where
  "pool_sound p \<longleftrightarrow>
     (\<forall>slot s ts at. (slot, Ready s ts at) \<in> set (po_slots p) \<longrightarrow> slot_of (sl_scope slot) (se_endpoint s) = slot)"

text \<open>
  How an endpoint may come by a session: from the slot of this very scope, URL, server and
  headers, while the entry is worth using; or opened for it now.
\<close>

definition serves :: "dialler \<Rightarrow> pool \<Rightarrow> string \<Rightarrow> endpoint \<Rightarrow> mcp_session \<Rightarrow> bool" where
  "serves w p scope e s \<longleftrightarrow>
     (\<exists>i ts at. (slot_of scope e, Ready s ts at) \<in> set (po_slots p) \<and>
        worth_using p (dr_now w i) (dr_usable w i) (Ready s ts at)) \<or>
     (\<exists>i ts. connect_and_list (po_deadlines p) e (dr_answer w i) = Inr (s, ts))"

definition pooled_serves :: "dialler \<Rightarrow> pool \<Rightarrow> string \<Rightarrow> endpoint \<Rightarrow> pooled \<Rightarrow> bool" where
  "pooled_serves w p scope e entry \<longleftrightarrow> (\<forall>s ts at. entry = Ready s ts at \<longrightarrow> serves w p scope e s)"

definition same_clocks :: "pool \<Rightarrow> pool \<Rightarrow> bool" where
  "same_clocks p q \<longleftrightarrow>
     po_deadlines p = po_deadlines q \<and> po_ttl p = po_ttl q \<and> po_retry_after p = po_retry_after q"

lemma same_clocks_refl [simp]: "same_clocks p p"
  by (simp add: same_clocks_def)

lemma worth_using_clocks: "same_clocks p q \<Longrightarrow> worth_using p now usable entry = worth_using q now usable entry"
  by (cases entry) (simp_all add: same_clocks_def)

lemma connect_opens_as_asked: "connect_and_list d e a = Inr (s, ts) \<Longrightarrow> se_endpoint s = e"
  by (auto simp: connect_and_list_def connect_within_def rbind_def
      split: if_splits sum.splits option.splits serve_answer.splits)

lemma dial_look_sound:
  assumes "dial_look w scope i es q = (pending, q')" "same_clocks q p" "set (po_slots q) \<subseteq> set (po_slots p)"
  shows "map fst pending = es \<and> same_clocks q' p \<and> set (po_slots q') \<subseteq> set (po_slots p) \<and>
    (\<forall>(e, found)\<in>set pending. \<forall>entry. found = Some entry \<longrightarrow> pooled_serves w p scope e entry)"
  using assms
proof (induction w scope i es q arbitrary: pending q' rule: dial_look.induct)
  case (2 w scope i e es q)
  define kept where "kept = filter (\<lambda>sp. worth_using q (dr_now w i) (dr_usable w i) (snd sp)) (po_slots q)"
  obtain later where l: "dial_look w scope (i + 1) es (q\<lparr>po_slots := kept\<rparr>) = (later, q')"
    "pending = (e, map_of kept (slot_of scope e)) # later"
    using "2.prems"(1) by (auto simp: pool_fresh_def kept_def Let_def split: prod.splits)
  have fresh: "pool_fresh (dr_now w i) (dr_usable w i) (slot_of scope e) q =
      (map_of kept (slot_of scope e), q\<lparr>po_slots := kept\<rparr>)"
    by (simp add: pool_fresh_def kept_def Let_def)
  have sub: "set kept \<subseteq> set (po_slots p)" using "2.prems"(3) by (auto simp: kept_def)
  have "pooled_serves w p scope e entry" if "map_of kept (slot_of scope e) = Some entry" for entry
  proof -
    have mem: "(slot_of scope e, entry) \<in> set kept" using that by (rule map_of_SomeD)
    then have "worth_using p (dr_now w i) (dr_usable w i) entry"
      using worth_using_clocks [OF "2.prems"(2)] by (auto simp: kept_def)
    with mem sub show ?thesis unfolding pooled_serves_def serves_def by blast
  qed
  moreover have "map fst later = es \<and> same_clocks q' p \<and> set (po_slots q') \<subseteq> set (po_slots p) \<and>
      (\<forall>(e, found)\<in>set later. \<forall>entry. found = Some entry \<longrightarrow> pooled_serves w p scope e entry)"
    using "2.IH" [OF fresh [symmetric] refl, of later q'] l(1) "2.prems"(2) sub by (simp add: same_clocks_def)
  ultimately show ?case using l(2) by auto
qed simp

lemma dial_land_serves:
  "same_clocks q p \<Longrightarrow> pooled_serves w p scope e (dial_land w q i e)"
  by (auto simp: pooled_serves_def serves_def dial_land_def same_clocks_def split: sum.splits)

definition dialled_sound :: "dialler \<Rightarrow> pool \<Rightarrow> string \<Rightarrow> (string \<Rightarrow> bool) \<Rightarrow> endpoint set \<Rightarrow> dialled \<Rightarrow> bool" where
  "dialled_sound w p scope permitted es d \<longleftrightarrow>
     (\<forall>(k, s)\<in>set (di_sessions d). \<exists>e\<in>es. endpoint_key e = k \<and> serves w p scope e s) \<and>
     (\<forall>t\<in>set (di_tools d). permitted (mt_qualified_name t))"

definition reached :: "dialled \<Rightarrow> string set" where
  "reached d = fst ` set (di_sessions d) \<union> fst ` set (di_unavailable d)"

lemma dial_take_sound:
  assumes "dialled_sound w p scope permitted es d" "pooled_serves w p scope e entry" "e \<in> es"
  shows "dialled_sound w p scope permitted es (dial_take permitted (endpoint_key e) entry d) \<and>
    reached (dial_take permitted (endpoint_key e) entry d) = insert (endpoint_key e) (reached d)"
proof (cases entry)
  case (Ready s ts at)
  then have "serves w p scope e s" using assms(2) by (simp add: pooled_serves_def)
  with Ready assms(1,3) bm_insert_set [of "endpoint_key e" s "di_sessions d"] show ?thesis
    by (fastforce simp: dialled_sound_def reached_def bm_insert_keys)
next
  case (Failed why at)
  with assms(1) show ?thesis by (simp add: dialled_sound_def reached_def bm_insert_keys)
qed

lemma dial_collect_sound:
  assumes "dialled_sound w p scope permitted all d" "same_clocks q p" "fst ` set pending \<subseteq> all"
    "\<forall>(e, found)\<in>set pending. \<forall>entry. found = Some entry \<longrightarrow> pooled_serves w p scope e entry"
    "dial_collect w scope permitted i pending q d = (d', q')"
  shows "dialled_sound w p scope permitted all d' \<and> reached d' = reached d \<union> endpoint_key ` fst ` set pending"
  using assms
proof (induction w scope permitted i pending q d rule: dial_collect.induct)
  case (2 w scope permitted i e found es q d)
  define entry where "entry = (case found of Some entry \<Rightarrow> entry | None \<Rightarrow> dial_land w q i e)"
  define q1 where "q1 = (case found of Some _ \<Rightarrow> q | None \<Rightarrow> pool_remember (slot_of scope e) entry q)"
  have step: "(entry, q1) = (case found of Some entry \<Rightarrow> (entry, q)
      | None \<Rightarrow> let entry = dial_land w q i e in (entry, pool_remember (slot_of scope e) entry q))"
    by (simp add: entry_def q1_def Let_def split: option.split)
  have serves: "pooled_serves w p scope e entry"
    using "2.prems"(4) dial_land_serves [OF "2.prems"(2)] by (auto simp: entry_def split: option.split)
  have clocks: "same_clocks q1 p"
    using "2.prems"(2) by (auto simp: q1_def pool_remember_def same_clocks_def split: option.split)
  let ?d = "dial_take permitted (endpoint_key e) entry d"
  have "e \<in> all" using "2.prems"(3) by simp
  from dial_take_sound [OF "2.prems"(1) serves this]
  have d: "dialled_sound w p scope permitted all ?d" "reached ?d = insert (endpoint_key e) (reached d)" by auto
  have rest: "dial_collect w scope permitted (i + 1) es q1 ?d = (d', q')"
    using "2.prems"(5) step by (auto split: prod.splits)
  from "2.IH" [OF step refl d(1) clocks _ _ rest] "2.prems"(3,4) d(2) show ?case by auto
qed simp

lemma dial_sound:
  assumes "dial w scope es permitted p = (d, q)"
  shows "dialled_sound w p scope permitted (set es) d \<and> reached d = endpoint_key ` set es"
proof -
  obtain pending p' where l: "dial_look w scope 0 es p = (pending, p')" by fastforce
  from dial_look_sound [OF l same_clocks_refl subset_refl] have
    look: "map fst pending = es" "same_clocks p' p"
      "\<forall>(e, found)\<in>set pending. \<forall>entry. found = Some entry \<longrightarrow> pooled_serves w p scope e entry" by auto
  have keys: "fst ` set pending = set es" using look(1) by (metis set_map)
  have "dialled_sound w p scope permitted (set es) nothing_dialled" "reached nothing_dialled = {}"
    by (simp_all add: dialled_sound_def nothing_dialled_def reached_def)
  with dial_collect_sound [OF _ look(2) _ look(3), of permitted "set es" nothing_dialled 0 d q] assms l keys
  show ?thesis by (auto simp: dial_def)
qed

text \<open>With the pool's slots sound, the session an endpoint gets was opened with its own credential.\<close>

lemma serves_own_credential:
  assumes "pool_sound p" "serves w p scope e s"
  shows "ep_url (se_endpoint s) = ep_url e \<and> ep_headers (se_endpoint s) = ep_headers e \<and>
    endpoint_key (se_endpoint s) = endpoint_key e"
  using assms(2) unfolding serves_def
proof (elim disjE exE conjE)
  fix i ts at
  assume "(slot_of scope e, Ready s ts at) \<in> set (po_slots p)"
  then have "slot_of (sl_scope (slot_of scope e)) (se_endpoint s) = slot_of scope e"
    using assms(1) unfolding pool_sound_def by blast
  then show ?thesis by (simp add: slot_of_def)
next
  fix i ts
  assume "connect_and_list (po_deadlines p) e (dr_answer w i) = Inr (s, ts)"
  then have "se_endpoint s = e" by (rule connect_opens_as_asked)
  then show ?thesis by simp
qed


lemma pool_sound_new: "pool_sound (pool_new d)"
  by (simp add: pool_sound_def pool_new_def)

lemma pool_sound_subset: "pool_sound p \<Longrightarrow> set (po_slots q) \<subseteq> set (po_slots p) \<Longrightarrow> pool_sound q"
  unfolding pool_sound_def by blast

lemma dial_land_own: "dial_land w q i e = Ready s ts at \<Longrightarrow> se_endpoint s = e"
  unfolding dial_land_def
  by (auto split: sum.splits dest: connect_opens_as_asked)

lemma pool_remember_sound:
  assumes "pool_sound q"
  shows "pool_sound (pool_remember (slot_of scope e) (dial_land w q i e) q)"
  unfolding pool_sound_def
proof (intro allI impI)
  fix slot s ts at
  assume "(slot, Ready s ts at) \<in> set (po_slots (pool_remember (slot_of scope e) (dial_land w q i e) q))"
  then consider "slot = slot_of scope e" "dial_land w q i e = Ready s ts at"
    | "(slot, Ready s ts at) \<in> set (po_slots q)"
    by (auto simp: pool_remember_def)
  then show "slot_of (sl_scope slot) (se_endpoint s) = slot"
  proof cases
    case 1
    then have "se_endpoint s = e" by (blast dest: dial_land_own)
    with 1 show ?thesis by (simp add: slot_of_def)
  next
    case 2
    with assms show ?thesis unfolding pool_sound_def by blast
  qed
qed

lemma dial_collect_pool_sound:
  "pool_sound q \<Longrightarrow> pool_sound (snd (dial_collect w scope permitted i pending q d))"
proof (induction w scope permitted i pending q d rule: dial_collect.induct)
  case (2 w scope permitted i e found es q d)
  then show ?case using pool_remember_sound [of q scope e w i] by (cases found) (simp_all add: Let_def)
qed simp

lemma dial_pool_sound: "pool_sound p \<Longrightarrow> pool_sound (snd (dial w scope es permitted p))"
proof -
  assume p: "pool_sound p"
  obtain pending p' where l: "dial_look w scope 0 es p = (pending, p')" by fastforce
  from dial_look_sound [OF l same_clocks_refl subset_refl] have "set (po_slots p') \<subseteq> set (po_slots p)" by simp
  with p have "pool_sound p'" by (rule pool_sound_subset)
  then show ?thesis using l by (simp add: dial_def dial_collect_pool_sound)
qed

section \<open>Properties\<close>

definition zones_endpoint :: "string \<Rightarrow> endpoint" where
  "zones_endpoint token = \<lparr>ep_plugin = ''cloudflare'', ep_server = ''api'', ep_url = ''https://mcp.example'',
     ep_headers = [(''authorization'', ''Bearer '' @ token)]\<rparr>"

definition sample_dialler :: dialler where
  "sample_dialler = \<lparr>dr_now = (\<lambda>i. 10), dr_usable = (\<lambda>i s. True),
     dr_answer = (\<lambda>i. \<lparr>da_client = None, da_serve = Served 7, da_list = Listed [], da_late = False\<rparr>),
     dr_landed = (\<lambda>i. 11)\<rparr>"

definition sample_pool :: pool where
  "sample_pool = \<lparr>po_deadlines = \<lparr>dl_connect = 5, dl_call = 60\<rparr>, po_ttl = 60, po_retry_after = 30,
     po_slots = [(slot_of ''alice'' (zones_endpoint ''a''),
       Ready \<lparr>se_endpoint = zones_endpoint ''a'', se_service = 3\<rparr> [] 9)]\<rparr>"

text \<open>C36: a session is never handed to another's endpoint. With the pool's slots sound, which a dial
  keeps, every session a dial returns is for one of its endpoints, was opened with that endpoint's
  URL and filled headers, and is either one opened just now or one pooled for the same scope and
  still worth using; every endpoint is accounted for, as a session or as unavailable; and only
  permitted tools are offered.
\<close>

theorem dialled_sessions_are_ones_own:
  assumes "pool_sound p"
  shows "pool_sound (snd (dial w scope es permitted p)) \<and>
    reached (fst (dial w scope es permitted p)) = endpoint_key ` set es \<and>
    (\<forall>t\<in>set (di_tools (fst (dial w scope es permitted p))). permitted (mt_qualified_name t)) \<and>
    (\<forall>(k, s)\<in>set (di_sessions (fst (dial w scope es permitted p))). \<exists>e\<in>set es.
       endpoint_key e = k \<and> serves w p scope e s \<and>
       ep_url (se_endpoint s) = ep_url e \<and> ep_headers (se_endpoint s) = ep_headers e)"
proof -
  obtain d q where d: "dial w scope es permitted p = (d, q)" by fastforce
  note sound = dial_sound [OF d]
  have "\<exists>e\<in>set es. endpoint_key e = k \<and> serves w p scope e s \<and>
       ep_url (se_endpoint s) = ep_url e \<and> ep_headers (se_endpoint s) = ep_headers e"
    if "(k, s) \<in> set (di_sessions d)" for k s
    using that sound serves_own_credential [OF assms] unfolding dialled_sound_def by blast
  then show ?thesis using dial_pool_sound [OF assms, of w scope es permitted] sound d
    by (auto simp: dialled_sound_def)
qed

lemma sample_pool_sound: "pool_sound sample_pool"
  by (simp add: pool_sound_def sample_pool_def slot_of_def)

lemma sample_dialled:
  "map (\<lambda>(k, s). (k, se_service s)) (di_sessions (fst (dial sample_dialler ''alice'' [zones_endpoint ''a''] (\<lambda>_. True) sample_pool))) =
     [(''cloudflare.api'', 3)]"
  "map (\<lambda>(k, s). (k, se_service s)) (di_sessions (fst (dial sample_dialler ''bob'' [zones_endpoint ''a''] (\<lambda>_. True) sample_pool))) =
     [(''cloudflare.api'', 7)]"
  "map (\<lambda>(k, s). (k, se_service s)) (di_sessions (fst (dial sample_dialler ''alice'' [zones_endpoint ''b''] (\<lambda>_. True) sample_pool))) =
     [(''cloudflare.api'', 7)]"
  by code_simp+

theorem dialled_sessions_are_ones_own_witness:
  "map (\<lambda>(k, s). (k, se_service s)) (di_sessions (fst (dial sample_dialler ''bob'' [zones_endpoint ''a''] (\<lambda>_. True) sample_pool))) =
     [(''cloudflare.api'', 7)] \<and>
   reached (fst (dial sample_dialler ''bob'' [zones_endpoint ''a''] (\<lambda>_. True) sample_pool)) = {''cloudflare.api''}"
  using dialled_sessions_are_ones_own [OF sample_pool_sound, of sample_dialler "''bob''" "[zones_endpoint ''a'']" "\<lambda>_. True"]
    sample_dialled(2)
  by (simp add: zones_endpoint_def endpoint_key_def)

text \<open>C37: no placeholder is sent for a credential. When no value holds a dollar sign, reading a
  plugin's servers ends; each server is then an endpoint or a problem, and no header of an endpoint
  still holds a placeholder.
\<close>

theorem headers_are_filled:
  assumes "\<forall>v\<in>snd ` set vals. CHR ''$'' \<notin> set v"
  shows "\<exists>es ps. endpoints_for plugin ss vals = Some (es, ps) \<and> length es + length ps = length ss \<and>
    (\<forall>e\<in>set es. \<forall>v\<in>snd ` set (ep_headers e). \<not> has_placeholder v)"
proof -
  obtain es ps where "endpoints_for plugin ss vals = Some (es, ps)"
    using endpoints_for_ends [OF assms, of plugin ss] by fastforce
  with endpoints_for_filled [OF this] show ?thesis by blast
qed

theorem headers_are_filled_witness:
  "\<exists>es ps. endpoints_for ''gmail'' [(''api'', StreamableHttp ''https://g'' [(''authorization'', ''Bearer ${GMAIL_TOKEN}'')])]
      [(''GMAIL_TOKEN'', ''ya29'')] = Some (es, ps) \<and> length es + length ps = 1 \<and>
    (\<forall>e\<in>set es. \<forall>v\<in>snd ` set (ep_headers e). \<not> has_placeholder v)"
  using headers_are_filled [of "[(''GMAIL_TOKEN'', ''ya29'')]" "''gmail''"
    "[(''api'', StreamableHttp ''https://g'' [(''authorization'', ''Bearer ${GMAIL_TOKEN}'')])]"]
  by simp

end
