(* ===== verification/Desks.thy ===== *)
theory Desks
  imports Review
begin

text \<open>
  The tools that are the server's own to answer: routines (\<open>opengrok-tools/src/routine.rs\<close>),
  this Bot's computer (\<open>computer_desk.rs\<close>), plugins (\<open>plugin_desk.rs\<close>) and office
  documents (\<open>office_desk.rs\<close>). Each reads a call's arguments into an ask before any gate is
  asked, and carries the ask out after every gate has passed. The desks themselves are traits the
  server implements over its store: what one answers is a parameter, as a function of the turn's
  context and the ask.
\<close>

section \<open>Who is running a tool\<close>

datatype screen_choice = SharedScreen | OwnScreen string

record group_box =
  gb_box :: box_id
  gb_name :: string

record tool_context =
  cx_account :: account_id
  cx_coworker :: coworker_id
  cx_box :: "box_id option"
  cx_group_box :: "group_box option"
  cx_screen_hold :: bool
  cx_screen_held_in :: "string option"
  cx_screen :: screen_choice
  cx_thread :: "string option"
  cx_run :: "string option"

definition held_where :: "tool_context \<Rightarrow> string" where
  "held_where cx =
     (case cx_screen_held_in cx of
        Some thread \<Rightarrow> ''in conversation '' @ thread
      | None \<Rightarrow> ''on this coworker'' @ apos @ ''s computer'')"

section \<open>Reading an argument\<close>

text \<open>A trimmed text, nothing where it is missing, null or blank; anything but a text is refused.\<close>

definition text_arg :: "json \<Rightarrow> string \<Rightarrow> string + string option" where
  "text_arg arguments key =
     (case json_get arguments key of
        None \<Rightarrow> Inr None
      | Some JNull \<Rightarrow> Inr None
      | Some (JString t) \<Rightarrow> Inr (if trim t \<noteq> [] then Some (trim t) else None)
      | Some _ \<Rightarrow> Inl (''bad arguments: '' @ key @ '' must be a string''))"

definition needed_arg :: "json \<Rightarrow> string \<Rightarrow> string \<Rightarrow> string + string" where
  "needed_arg arguments key why = rbind (text_arg arguments key) (\<lambda>t. ok_or t why)"

section \<open>Routines\<close>

abbreviation LIST_ROUTINES :: string where "LIST_ROUTINES \<equiv> ''list_routines''"
abbreviation CREATE_ROUTINE :: string where "CREATE_ROUTINE \<equiv> ''create_routine''"
abbreviation UPDATE_ROUTINE :: string where "UPDATE_ROUTINE \<equiv> ''update_routine''"
abbreviation DELETE_ROUTINE :: string where "DELETE_ROUTINE \<equiv> ''delete_routine''"
abbreviation RUN_ROUTINE :: string where "RUN_ROUTINE \<equiv> ''run_routine''"

definition ROUTINE_TOOLS :: "string list" where
  "ROUTINE_TOOLS = [LIST_ROUTINES, CREATE_ROUTINE, UPDATE_ROUTINE, DELETE_ROUTINE, RUN_ROUTINE]"

definition is_routine_tool :: "string \<Rightarrow> bool" where
  "is_routine_tool name \<longleftrightarrow> name \<in> set ROUTINE_TOOLS"

definition NO_WHEN :: string where
  "NO_WHEN = ''ask the person for the time and days with request_user_form first.''"

definition ONE_SCHEDULE :: string where
  "ONE_SCHEDULE = ''a routine has one schedule for now; make a second routine for another time''"

definition NO_WEBHOOK :: string where
  "NO_WEBHOOK = ''a Bot can'' @ apos @ ''t make a webhook trigger: its key must not pass through chat. Ask the person to add one in Routines.''"

definition ambiguous :: "string \<Rightarrow> string list \<Rightarrow> string" where
  "ambiguous name ids =
     ''more than one of your routines is called '' @ quote @ name @ quote @ '' ('' @ join '', '' ids @
       ''); run one by its id.''"

definition not_yours :: "string \<Rightarrow> string" where
  "not_yours routine = ''no routine '' @ routine @ '' is yours; call list_routines.''"

record routine_bot =
  rb_id :: string
  rb_label :: string
  rb_on_plan :: bool

definition routine_bots :: "(string \<times> string \<times> bool) list \<Rightarrow> routine_bot list" where
  "routine_bots owned =
     map (\<lambda>(i, name, on_plan).
       \<lparr>rb_id = i,
        rb_label = (if 1 < length (filter (\<lambda>(_, other, _). other = name) owned)
                    then name @ '' ('' @ i @ '')'' else name),
        rb_on_plan = on_plan\<rparr>) owned"

definition routine_own :: "routine_bot list \<Rightarrow> string \<Rightarrow> string + routine_bot" where
  "routine_own bots session =
     ok_or (find (\<lambda>b. rb_id b = session) bots)
       (''this Bot is not one of your person'' @ apos @ ''s own Bots, so it cannot hold a routine for them.'')"

record routine_fields =
  rf_name :: "string option"
  rf_prompt :: "string option"
  rf_when :: "string option"
  rf_tz :: "string option"
  rf_active :: "bool option"

definition no_fields :: routine_fields where
  "no_fields = \<lparr>rf_name = None, rf_prompt = None, rf_when = None, rf_tz = None, rf_active = None\<rparr>"

datatype routine_ask =
    RoutineList
  | RoutineCreate routine_fields
  | RoutineUpdate string routine_fields
  | RoutineDelete string
  | RoutineRun string

definition bad_cron :: string where
  "bad_cron = ''bad arguments: when is one 5-field cron, like '' @ quote @ ''0 9 * * MON-FRI'' @ quote"

definition wake_cron :: "json \<Rightarrow> string + string" where
  "wake_cron wake =
     rbind (case wake of
              JString cron \<Rightarrow> Inr (Some cron)
            | JObject m \<Rightarrow>
                if Option.bind (map_of m ''kind'') as_str = Some ''webhook'' then Inl NO_WEBHOOK
                else Inr (Option.bind (map_of m ''cron'') as_str)
            | _ \<Rightarrow> Inr None)
       (\<lambda>cron. case map_option trim cron of
          Some c \<Rightarrow> if c = ''webhook'' then Inl NO_WEBHOOK else if c \<noteq> [] then Inr c else Inl bad_cron
        | None \<Rightarrow> Inl bad_cron)"

fun wake_crons :: "json list \<Rightarrow> string + string list" where
  "wake_crons [] = Inr []"
| "wake_crons (w # ws) = rbind (wake_cron w) (\<lambda>c. rbind (wake_crons ws) (\<lambda>cs. Inr (c # cs)))"

definition routine_when :: "json option \<Rightarrow> string + string option" where
  "routine_when given =
     (let wakes = (case given of
            None \<Rightarrow> [] | Some JNull \<Rightarrow> [] | Some (JArray ws) \<Rightarrow> ws | Some one \<Rightarrow> [one])
      in rbind (wake_crons wakes) (\<lambda>crons.
           case crons of [] \<Rightarrow> Inr None | [c] \<Rightarrow> Inr (Some c) | _ \<Rightarrow> Inl ONE_SCHEDULE))"

definition routine_fields_of :: "json \<Rightarrow> string + routine_fields" where
  "routine_fields_of arguments =
     (let hook = (case json_get arguments ''webhook'' of
            None \<Rightarrow> False | Some JNull \<Rightarrow> False | Some (JBool b) \<Rightarrow> b | Some _ \<Rightarrow> True)
      in if hook \<or> str_at arguments ''kind'' = Some ''webhook'' then Inl NO_WEBHOOK
         else rbind (case json_get arguments ''active'' of
                None \<Rightarrow> Inr None
              | Some JNull \<Rightarrow> Inr None
              | Some (JBool b) \<Rightarrow> Inr (Some b)
              | Some _ \<Rightarrow> Inl ''bad arguments: active must be true or false'')
           (\<lambda>active. rbind (text_arg arguments ''name'') (\<lambda>name.
            rbind (text_arg arguments ''prompt'') (\<lambda>prompt.
            rbind (routine_when (json_get arguments ''when'')) (\<lambda>when.
            rbind (text_arg arguments ''tz'') (\<lambda>tz.
              Inr \<lparr>rf_name = name, rf_prompt = prompt, rf_when = when, rf_tz = tz, rf_active = active\<rparr>))))))"

definition routine_named :: "json \<Rightarrow> string + string" where
  "routine_named arguments =
     needed_arg arguments ''routine'' ''bad arguments: name the routine by its id, as list_routines gives it''"

definition routine_read :: "string \<Rightarrow> json \<Rightarrow> string + routine_ask" where
  "routine_read name arguments =
     (if name = LIST_ROUTINES then Inr RoutineList
      else if name = CREATE_ROUTINE then
        rbind (routine_fields_of arguments) (\<lambda>fs.
          if rf_when fs = None then Inl NO_WHEN
          else if rf_prompt fs = None then Inl ''bad arguments: prompt says what the Bot is told each time''
          else Inr (RoutineCreate fs))
      else if name = UPDATE_ROUTINE then
        rbind (routine_named arguments) (\<lambda>r. rbind (routine_fields_of arguments) (\<lambda>fs.
          if fs = no_fields then Inl ''nothing to change: give name, prompt, when, tz or active''
          else Inr (RoutineUpdate r fs)))
      else if name = DELETE_ROUTINE then rbind (routine_named arguments) (\<lambda>r. Inr (RoutineDelete r))
      else if name = RUN_ROUTINE then
        rbind (needed_arg arguments ''routine''
          ''bad arguments: name the routine by its id or its name from list_routines'') (\<lambda>r. Inr (RoutineRun r))
      else Inl (''there is no routine tool called '' @ name))"

record routine_desk =
  rd_answer :: "tool_context \<Rightarrow> routine_ask \<Rightarrow> string + json"
  rd_stored_name :: "tool_context \<Rightarrow> string \<Rightarrow> string + string"

definition LISTING_ONLY :: string where
  "LISTING_ONLY = ''a run a routine started may only list routines; making, changing or running one waits for the person''"

definition routine_admit ::
  "routine_desk \<Rightarrow> bool \<Rightarrow> tool_context \<Rightarrow> string \<Rightarrow> json \<Rightarrow> string + routine_ask \<times> string option" where
  "routine_admit desk listing cx name arguments =
     rbind (routine_read name arguments) (\<lambda>ask.
       if listing \<and> ask \<noteq> RoutineList then Inl LISTING_ONLY
       else case ask of
              RoutineDelete r \<Rightarrow>
                rbind (rd_stored_name desk cx r) (\<lambda>stored.
                  Inr (ask, Some (''Delete the routine '' @ quote @ take_chars 80 stored @ quote @ ''? It stops for good.'')))
            | _ \<Rightarrow> Inr (ask, None))"

text \<open>What a desk said, as the result the model reads.\<close>

definition desk_result :: "serde \<Rightarrow> string \<Rightarrow> string + json \<Rightarrow> tool_result" where
  "desk_result sd call_id answer =
     (case answer of Inr v \<Rightarrow> result_ok call_id (sd_to_string sd v) | Inl why \<Rightarrow> result_refused call_id why)"

definition routine_run :: "serde \<Rightarrow> routine_desk \<Rightarrow> tool_context \<Rightarrow> string \<Rightarrow> routine_ask \<Rightarrow> tool_result" where
  "routine_run sd desk cx call_id ask = desk_result sd call_id (rd_answer desk cx ask)"


section \<open>This Bot's computer\<close>

abbreviation COMPUTER_STATUS :: string where "COMPUTER_STATUS \<equiv> ''computer_status''"
abbreviation START_COMPUTER :: string where "START_COMPUTER \<equiv> ''start_computer''"
abbreviation SHUTDOWN_COMPUTER :: string where "SHUTDOWN_COMPUTER \<equiv> ''shutdown_computer''"
abbreviation RESTART_COMPUTER :: string where "RESTART_COMPUTER \<equiv> ''restart_computer''"
abbreviation RESET_COMPUTER :: string where "RESET_COMPUTER \<equiv> ''reset_computer''"
abbreviation UPDATE_COMPUTER :: string where "UPDATE_COMPUTER \<equiv> ''update_computer''"
abbreviation SET_NETWORK :: string where "SET_NETWORK \<equiv> ''set_network''"
abbreviation LOOK_AT_SCREEN :: string where "LOOK_AT_SCREEN \<equiv> ''look_at_screen''"

definition COMPUTER_TOOLS :: "string list" where
  "COMPUTER_TOOLS =
     [COMPUTER_STATUS, LOOK_AT_SCREEN, START_COMPUTER, SHUTDOWN_COMPUTER, RESTART_COMPUTER,
      RESET_COMPUTER, UPDATE_COMPUTER, SET_NETWORK]"

definition is_computer_tool :: "string \<Rightarrow> bool" where
  "is_computer_tool name \<longleftrightarrow> name \<in> set COMPUTER_TOOLS"

definition NETWORK_MODES :: "string list" where
  "NETWORK_MODES = [''always'', ''ask'', ''never'']"

datatype computer_ask =
    ComputerStatus
  | ComputerStart
  | ComputerShutdown
  | ComputerRestart
  | ComputerReset
  | ComputerUpdate
  | ComputerSetNetwork string
  | ComputerLookAt string

definition computer_read :: "string \<Rightarrow> json \<Rightarrow> string + computer_ask" where
  "computer_read name arguments =
     (if name = COMPUTER_STATUS then Inr ComputerStatus
      else if name = START_COMPUTER then Inr ComputerStart
      else if name = SHUTDOWN_COMPUTER then Inr ComputerShutdown
      else if name = RESTART_COMPUTER then Inr ComputerRestart
      else if name = RESET_COMPUTER then Inr ComputerReset
      else if name = UPDATE_COMPUTER then Inr ComputerUpdate
      else if name = SET_NETWORK then
        (case map_option trim (str_at arguments ''mode'') of
           Some mode \<Rightarrow> if mode \<in> set NETWORK_MODES then Inr (ComputerSetNetwork mode)
                       else Inl ''bad arguments: mode is always, ask or never''
         | None \<Rightarrow> Inl ''bad arguments: mode is always, ask or never'')
      else if name = LOOK_AT_SCREEN then
        (case map_option trim (str_at arguments ''bot'') of
           Some b \<Rightarrow> if b \<noteq> [] then Inr (ComputerLookAt b)
                    else Inl ''bad arguments: bot is the name or id of the Bot to look at''
         | None \<Rightarrow> Inl ''bad arguments: bot is the name or id of the Bot to look at'')
      else Inl (''there is no computer tool called '' @ name))"

record computer_desk =
  cd_answer :: "tool_context \<Rightarrow> computer_ask \<Rightarrow> string + json"
  cd_ask_first :: "tool_context \<Rightarrow> computer_ask \<Rightarrow> string + string option"
  cd_look_at_screen :: "tool_context \<Rightarrow> string \<Rightarrow> string + json \<times> tool_image"

definition computer_admit ::
  "computer_desk \<Rightarrow> tool_context \<Rightarrow> string \<Rightarrow> json \<Rightarrow> string + computer_ask \<times> string option" where
  "computer_admit desk cx name arguments =
     rbind (computer_read name arguments) (\<lambda>ask.
       rbind (cd_ask_first desk cx ask) (\<lambda>card. Inr (ask, card)))"

definition with_image :: "tool_image \<Rightarrow> tool_result \<Rightarrow> tool_result" where
  "with_image shot r = r\<lparr>tr_image := Some shot\<rparr>"

definition computer_run :: "serde \<Rightarrow> computer_desk \<Rightarrow> tool_context \<Rightarrow> string \<Rightarrow> computer_ask \<Rightarrow> tool_result" where
  "computer_run sd desk cx call_id ask =
     (case ask of
        ComputerLookAt b \<Rightarrow>
          (case cd_look_at_screen desk cx b of
             Inr (v, shot) \<Rightarrow> with_image shot (result_ok call_id (sd_to_string sd v))
           | Inl why \<Rightarrow> result_refused call_id why)
      | _ \<Rightarrow> desk_result sd call_id (cd_answer desk cx ask))"

section \<open>Plugins\<close>

abbreviation LIST_PLUGINS :: string where "LIST_PLUGINS \<equiv> ''list_plugins''"
abbreviation PLUGIN_DETAILS :: string where "PLUGIN_DETAILS \<equiv> ''plugin_details''"
abbreviation INSTALL_PLUGIN :: string where "INSTALL_PLUGIN \<equiv> ''install_plugin''"
abbreviation UNINSTALL_PLUGIN :: string where "UNINSTALL_PLUGIN \<equiv> ''uninstall_plugin''"
abbreviation LIST_PLUGIN_ACCOUNTS :: string where "LIST_PLUGIN_ACCOUNTS \<equiv> ''list_plugin_accounts''"
abbreviation ADD_PLUGIN_ACCOUNT :: string where "ADD_PLUGIN_ACCOUNT \<equiv> ''add_plugin_account''"
abbreviation RENAME_PLUGIN_ACCOUNT :: string where "RENAME_PLUGIN_ACCOUNT \<equiv> ''rename_plugin_account''"
abbreviation REMOVE_PLUGIN_ACCOUNT :: string where "REMOVE_PLUGIN_ACCOUNT \<equiv> ''remove_plugin_account''"
abbreviation SET_PLUGIN_FOR_BOT :: string where "SET_PLUGIN_FOR_BOT \<equiv> ''set_plugin_for_bot''"
abbreviation PICK_PLUGIN_ACCOUNT :: string where "PICK_PLUGIN_ACCOUNT \<equiv> ''pick_plugin_account''"

definition PLUGIN_DESK_TOOLS :: "string list" where
  "PLUGIN_DESK_TOOLS =
     [LIST_PLUGINS, PLUGIN_DETAILS, INSTALL_PLUGIN, UNINSTALL_PLUGIN, LIST_PLUGIN_ACCOUNTS,
      ADD_PLUGIN_ACCOUNT, RENAME_PLUGIN_ACCOUNT, REMOVE_PLUGIN_ACCOUNT, SET_PLUGIN_FOR_BOT,
      PICK_PLUGIN_ACCOUNT]"

definition is_plugin_desk_tool :: "string \<Rightarrow> bool" where
  "is_plugin_desk_tool name \<longleftrightarrow> name \<in> set PLUGIN_DESK_TOOLS"

datatype plugin_filter = AllPlugins | InstalledPlugins | AvailablePlugins

datatype plugin_ask =
    PluginList plugin_filter "string option" "string option"
  | PluginDetails string
  | PluginInstall string
  | PluginUninstall string
  | PluginAccounts "string option"
  | PluginAddAccount string "string option"
  | PluginRename string string
  | PluginRemove string
  | PluginSetForBot string bool "string option"
  | PluginPick string "string option" "string option" "string option"

definition CALL_SECRET_KEYS :: "string list" where
  "CALL_SECRET_KEYS = [''token'', ''key'', ''apiKey'', ''api_key'', ''password'', ''secret'']"

definition NO_SECRETS :: string where
  "NO_SECRETS = ''never pass a key, token or password to a tool: call add_plugin_account and the person pastes it into the card, which keeps it out of chat.''"

definition plugin_named :: "json \<Rightarrow> string + string" where
  "plugin_named arguments =
     needed_arg arguments ''plugin'' ''bad arguments: name the plugin as list_plugins gives it''"

definition account_named :: "json \<Rightarrow> string + string" where
  "account_named arguments =
     needed_arg arguments ''account'' ''bad arguments: name the account by its id, as list_plugin_accounts gives it''"

definition plugin_list_read :: "json \<Rightarrow> string + plugin_ask" where
  "plugin_list_read arguments =
     rbind (text_arg arguments ''filter'') (\<lambda>f.
     rbind (case f of
              None \<Rightarrow> Inr AllPlugins
            | Some w \<Rightarrow> if w = ''all'' then Inr AllPlugins else if w = ''installed'' then Inr InstalledPlugins
                       else if w = ''available'' then Inr AvailablePlugins
                       else Inl ''bad arguments: filter is installed, available or all'') (\<lambda>flt.
     rbind (text_arg arguments ''query'') (\<lambda>q. rbind (text_arg arguments ''category'') (\<lambda>c.
       Inr (PluginList flt q c)))))"

definition plugin_pick_read :: "json \<Rightarrow> string + plugin_ask" where
  "plugin_pick_read arguments =
     (let each_time = (json_get arguments ''ask_each_time'' = Some (JBool True))
      in rbind (text_arg arguments ''account'') (\<lambda>account.
           if each_time = (account \<noteq> None)
           then Inl ''bad arguments: give account, or ask_each_time true, and not both''
           else rbind (plugin_named arguments) (\<lambda>p. rbind (text_arg arguments ''connector'') (\<lambda>c.
                rbind (text_arg arguments ''bot'') (\<lambda>b. Inr (PluginPick p c account b))))))"

definition plugin_read :: "string \<Rightarrow> json \<Rightarrow> string + plugin_ask" where
  "plugin_read name arguments =
     (if list_ex (\<lambda>k. json_get arguments k \<noteq> None) CALL_SECRET_KEYS then Inl NO_SECRETS
      else if name = LIST_PLUGINS then plugin_list_read arguments
      else if name = PLUGIN_DETAILS then rbind (plugin_named arguments) (\<lambda>p. Inr (PluginDetails p))
      else if name = INSTALL_PLUGIN then rbind (plugin_named arguments) (\<lambda>p. Inr (PluginInstall p))
      else if name = UNINSTALL_PLUGIN then rbind (plugin_named arguments) (\<lambda>p. Inr (PluginUninstall p))
      else if name = LIST_PLUGIN_ACCOUNTS then rbind (text_arg arguments ''plugin'') (\<lambda>p. Inr (PluginAccounts p))
      else if name = ADD_PLUGIN_ACCOUNT then
        rbind (plugin_named arguments) (\<lambda>p. rbind (text_arg arguments ''connector'') (\<lambda>c. Inr (PluginAddAccount p c)))
      else if name = RENAME_PLUGIN_ACCOUNT then
        rbind (account_named arguments) (\<lambda>a.
        rbind (needed_arg arguments ''label'' (''bad arguments: label is the account'' @ apos @ ''s new name'')) (\<lambda>l.
          Inr (PluginRename a l)))
      else if name = REMOVE_PLUGIN_ACCOUNT then rbind (account_named arguments) (\<lambda>a. Inr (PluginRemove a))
      else if name = SET_PLUGIN_FOR_BOT then
        rbind (plugin_named arguments) (\<lambda>p.
        rbind (case json_get arguments ''on'' of
                 Some (JBool b) \<Rightarrow> Inr b | _ \<Rightarrow> Inl ''bad arguments: on is true or false'') (\<lambda>on.
        rbind (text_arg arguments ''bot'') (\<lambda>b. Inr (PluginSetForBot p on b))))
      else if name = PICK_PLUGIN_ACCOUNT then plugin_pick_read arguments
      else Inl (''there is no plugin tool called '' @ name))"

record plugin_desk =
  pd_answer :: "tool_context \<Rightarrow> plugin_ask \<Rightarrow> string + json"
  pd_ask_first :: "tool_context \<Rightarrow> plugin_ask \<Rightarrow> string + string option"

definition plugin_admit ::
  "plugin_desk \<Rightarrow> tool_context \<Rightarrow> string \<Rightarrow> json \<Rightarrow> string + plugin_ask \<times> string option" where
  "plugin_admit desk cx name arguments =
     rbind (plugin_read name arguments) (\<lambda>ask.
       rbind (pd_ask_first desk cx ask) (\<lambda>card. Inr (ask, card)))"

definition plugin_run :: "serde \<Rightarrow> plugin_desk \<Rightarrow> tool_context \<Rightarrow> string \<Rightarrow> plugin_ask \<Rightarrow> tool_result" where
  "plugin_run sd desk cx call_id ask = desk_result sd call_id (pd_answer desk cx ask)"


section \<open>Office documents\<close>

abbreviation OFFICE_FILES :: string where "OFFICE_FILES \<equiv> ''office_files''"
abbreviation OFFICE_OPEN :: string where "OFFICE_OPEN \<equiv> ''office_open''"
abbreviation OFFICE_CREATE :: string where "OFFICE_CREATE \<equiv> ''office_create''"
abbreviation OFFICE_OUTLINE :: string where "OFFICE_OUTLINE \<equiv> ''office_outline''"
abbreviation OFFICE_GREP :: string where "OFFICE_GREP \<equiv> ''office_grep''"
abbreviation OFFICE_READ :: string where "OFFICE_READ \<equiv> ''office_read''"
abbreviation OFFICE_CELLS :: string where "OFFICE_CELLS \<equiv> ''office_cells''"
abbreviation OFFICE_RENDER :: string where "OFFICE_RENDER \<equiv> ''office_render''"
abbreviation OFFICE_VERIFY :: string where "OFFICE_VERIFY \<equiv> ''office_verify''"
abbreviation OFFICE_CLOSE :: string where "OFFICE_CLOSE \<equiv> ''office_close''"
abbreviation OFFICE_PROPOSE :: string where "OFFICE_PROPOSE \<equiv> ''office_propose''"
abbreviation OFFICE_PROPOSE_CELLS :: string where "OFFICE_PROPOSE_CELLS \<equiv> ''office_propose_cells''"
abbreviation OFFICE_REVIEW :: string where "OFFICE_REVIEW \<equiv> ''office_review''"
abbreviation OFFICE_ACCEPT :: string where "OFFICE_ACCEPT \<equiv> ''office_accept''"
abbreviation OFFICE_REJECT :: string where "OFFICE_REJECT \<equiv> ''office_reject''"
abbreviation OFFICE_EXPORT :: string where "OFFICE_EXPORT \<equiv> ''office_export''"

definition OFFICE_TOOLS :: "string list" where
  "OFFICE_TOOLS =
     [OFFICE_FILES, OFFICE_OPEN, OFFICE_CREATE, OFFICE_OUTLINE, OFFICE_GREP, OFFICE_READ, OFFICE_CELLS,
      OFFICE_RENDER, OFFICE_VERIFY, OFFICE_CLOSE, OFFICE_PROPOSE, OFFICE_PROPOSE_CELLS, OFFICE_REVIEW,
      OFFICE_ACCEPT, OFFICE_REJECT, OFFICE_EXPORT]"

definition is_office_tool :: "string \<Rightarrow> bool" where
  "is_office_tool name \<longleftrightarrow> name \<in> set OFFICE_TOOLS"

definition OFFICE_DOC_EVENT :: string where "OFFICE_DOC_EVENT = ''opengrok.officeDoc''"

record outline_args =
  oa_document :: string
  oa_story :: "string option"
  oa_headings_only :: bool
  oa_offset :: nat
  oa_limit :: nat

record grep_args =
  ga_document :: string
  ga_query :: string
  ga_case_sensitive :: bool
  ga_story :: "string option"
  ga_limit :: nat
  ga_cursor :: "string option"

record read_args =
  re_document :: string
  re_ref :: string
  re_start :: nat
  re_length :: nat
  re_field :: "string option"

record cells_args =
  ce_document :: string
  ce_sheet :: string
  ce_range :: string
  ce_offset :: nat
  ce_limit :: nat

record propose_args =
  pr_document :: string
  pr_author :: string
  pr_note :: string
  pr_edits :: "(string \<times> string) list"

datatype office_ask =
    OfficeFiles "string option" nat
  | OfficeOpen string bool
  | OfficeCreate string json
  | OfficeOutline outline_args
  | OfficeGrep grep_args
  | OfficeRead read_args
  | OfficeCells cells_args
  | OfficeRender string nat "string option"
  | OfficeVerify string "string option"
  | OfficeClose string
  | OfficePropose propose_args
  | OfficeProposeCells propose_args
  | OfficeReview string "string option"
  | OfficeAccept string string bool
  | OfficeReject string string
  | OfficeExport string string "string option"

definition bad_args :: "string \<Rightarrow> string" where
  "bad_args what = ''bad arguments: '' @ what"

abbreviation backticked :: "string \<Rightarrow> string" where
  "backticked s \<equiv> Forms.tick @ s @ Forms.tick"

definition office_required :: "json \<Rightarrow> string \<Rightarrow> string + string" where
  "office_required arguments key =
     ok_or (Option.bind (str_at arguments key) (\<lambda>s. if s \<noteq> [] then Some s else None))
       (bad_args (backticked key @ '' is required''))"

text \<open>The bound is on the bytes of the text, though the refusal says characters.\<close>

definition bounded_string :: "json \<Rightarrow> string \<Rightarrow> nat \<Rightarrow> string + string" where
  "bounded_string arguments key most =
     rbind (office_required arguments key) (\<lambda>v.
       if most < length v
       then Inl (bad_args (backticked key @ '' must be at most '' @ nat_str most @ '' characters''))
       else Inr v)"

definition usize_arg :: "json \<Rightarrow> string \<Rightarrow> nat \<Rightarrow> string + nat" where
  "usize_arg arguments key otherwise =
     (case json_get arguments key of
        None \<Rightarrow> Inr otherwise
      | Some JNull \<Rightarrow> Inr otherwise
      | Some v \<Rightarrow> ok_or (as_u64 v) (bad_args (backticked key @ '' must be a non-negative integer'')))"

definition flag_arg :: "json \<Rightarrow> string \<Rightarrow> bool" where
  "flag_arg arguments key \<longleftrightarrow> Option.bind (json_get arguments key) as_bool = Some True"

definition field_arg :: "json \<Rightarrow> string + string option" where
  "field_arg arguments =
     (case str_at arguments ''field'' of
        None \<Rightarrow> Inr None
      | Some f \<Rightarrow>
          if f \<in> {''displayText'', ''formula'', ''value''} then Inr (Some f)
          else Inl (bad_args (''field is displayText, formula or value, not '' @ f)))"

fun edit_pairs :: "string \<Rightarrow> string \<Rightarrow> json list \<Rightarrow> string + (string \<times> string) list" where
  "edit_pairs a b [] = Inr []"
| "edit_pairs a b (e # es) =
     rbind (ok_or (str_at e a) (bad_args (''every edit needs '' @ backticked a))) (\<lambda>x.
     rbind (ok_or (str_at e b) (bad_args (''every edit needs '' @ backticked b))) (\<lambda>y.
     rbind (edit_pairs a b es) (\<lambda>rest. Inr ((x, y) # rest))))"

definition propose_read :: "string \<Rightarrow> string \<Rightarrow> string \<Rightarrow> json \<Rightarrow> string + propose_args" where
  "propose_read a b over arguments =
     rbind (ok_or (Option.bind (json_get arguments ''edits'') as_array) (bad_args (backticked ''edits'' @ '' is required''))) (\<lambda>rows.
     rbind (edit_pairs a b rows) (\<lambda>edits.
       if edits = [] \<or> 32 < length edits then Inl (bad_args (backticked ''edits'' @ '' carries 1 to 32 entries''))
       else if list_ex (\<lambda>e. 16000 < length (snd e)) edits then Inl (bad_args over)
       else rbind (office_required arguments ''document'') (\<lambda>d.
         Inr \<lparr>pr_document = d,
              pr_author = (case bounded_string arguments ''author'' 200 of Inr w \<Rightarrow> w | Inl _ \<Rightarrow> ''bot''),
              pr_note = (case str_at arguments ''note'' of Some n \<Rightarrow> n | None \<Rightarrow> []),
              pr_edits = edits\<rparr>)))"

definition outline_read :: "json \<Rightarrow> string + office_ask" where
  "outline_read arguments =
     rbind (office_required arguments ''document'') (\<lambda>d. rbind (usize_arg arguments ''offset'' 0) (\<lambda>off.
     rbind (usize_arg arguments ''limit'' 100) (\<lambda>lim.
       Inr (OfficeOutline \<lparr>oa_document = d, oa_story = str_at arguments ''story'',
         oa_headings_only = flag_arg arguments ''headingsOnly'', oa_offset = off, oa_limit = lim\<rparr>))))"

definition grep_read :: "json \<Rightarrow> string + office_ask" where
  "grep_read arguments =
     rbind (bounded_string arguments ''query'' 1000) (\<lambda>q. rbind (office_required arguments ''document'') (\<lambda>d.
     rbind (usize_arg arguments ''limit'' 100) (\<lambda>lim.
       Inr (OfficeGrep \<lparr>ga_document = d, ga_query = q, ga_case_sensitive = flag_arg arguments ''caseSensitive'',
         ga_story = str_at arguments ''story'', ga_limit = lim, ga_cursor = str_at arguments ''cursor''\<rparr>))))"

definition span_read :: "json \<Rightarrow> string + office_ask" where
  "span_read arguments =
     rbind (office_required arguments ''document'') (\<lambda>d. rbind (office_required arguments ''ref'') (\<lambda>r.
     rbind (usize_arg arguments ''start'' 0) (\<lambda>st. rbind (usize_arg arguments ''length'' 4000) (\<lambda>len.
     rbind (field_arg arguments) (\<lambda>f.
       Inr (OfficeRead \<lparr>re_document = d, re_ref = r, re_start = st, re_length = len, re_field = f\<rparr>))))))"

definition cells_read :: "json \<Rightarrow> string + office_ask" where
  "cells_read arguments =
     rbind (office_required arguments ''document'') (\<lambda>d. rbind (office_required arguments ''sheet'') (\<lambda>sh.
     rbind (bounded_string arguments ''range'' 40) (\<lambda>r. rbind (usize_arg arguments ''offset'' 0) (\<lambda>off.
     rbind (usize_arg arguments ''limit'' 100) (\<lambda>lim.
       Inr (OfficeCells \<lparr>ce_document = d, ce_sheet = sh, ce_range = r, ce_offset = off, ce_limit = lim\<rparr>))))))"

definition render_read :: "json \<Rightarrow> string + office_ask" where
  "render_read arguments =
     rbind (office_required arguments ''document'') (\<lambda>d. rbind (usize_arg arguments ''page'' 1) (\<lambda>p.
       if 2 ^ 32 \<le> int p then Inl (bad_args ''page overflows u32'')
       else Inr (OfficeRender d p (str_at arguments ''proposal''))))"

definition office_read :: "string \<Rightarrow> json \<Rightarrow> string + office_ask" where
  "office_read name arguments =
     (let document = office_required arguments ''document''; proposal = str_at arguments ''proposal''
      in if name = OFFICE_FILES then
           rbind (usize_arg arguments ''offset'' 0) (\<lambda>off. Inr (OfficeFiles (str_at arguments ''directory'') off))
         else if name = OFFICE_OPEN then
           rbind (office_required arguments ''path'') (\<lambda>p. Inr (OfficeOpen p (flag_arg arguments ''adoptKeptCopy'')))
         else if name = OFFICE_CREATE then
           rbind (office_required arguments ''path'') (\<lambda>p. Inr (OfficeCreate p arguments))
         else if name = OFFICE_OUTLINE then outline_read arguments
         else if name = OFFICE_GREP then grep_read arguments
         else if name = OFFICE_READ then span_read arguments
         else if name = OFFICE_CELLS then cells_read arguments
         else if name = OFFICE_RENDER then render_read arguments
         else if name = OFFICE_VERIFY then rbind document (\<lambda>d. Inr (OfficeVerify d proposal))
         else if name = OFFICE_CLOSE then rbind document (\<lambda>d. Inr (OfficeClose d))
         else if name = OFFICE_PROPOSE then
           rbind (propose_read ''match'' ''newText'' ''a newText may be at most 16000 characters'' arguments)
             (\<lambda>p. Inr (OfficePropose p))
         else if name = OFFICE_PROPOSE_CELLS then
           rbind (propose_read ''cell'' ''input'' ''an input may be at most 16000 characters'' arguments)
             (\<lambda>p. Inr (OfficeProposeCells p))
         else if name = OFFICE_REVIEW then rbind document (\<lambda>d. Inr (OfficeReview d proposal))
         else if name = OFFICE_ACCEPT then
           rbind document (\<lambda>d. rbind (office_required arguments ''proposal'') (\<lambda>p.
             Inr (OfficeAccept d p (flag_arg arguments ''tracked''))))
         else if name = OFFICE_REJECT then
           rbind document (\<lambda>d. rbind (office_required arguments ''proposal'') (\<lambda>p. Inr (OfficeReject d p)))
         else if name = OFFICE_EXPORT then
           rbind document (\<lambda>d. rbind (office_required arguments ''path'') (\<lambda>p. Inr (OfficeExport d p proposal)))
         else Inl (''there is no office tool called '' @ name))"

record office_reply =
  or_result :: json
  or_customs :: "json list"
  or_image :: "tool_image option"

text \<open>The desk is handed the box: which one is the executor's to say, never the call's.\<close>

record office_desk =
  od_answer :: "tool_context \<Rightarrow> string \<Rightarrow> office_ask \<Rightarrow> string + office_reply"
  od_close :: "tool_context \<Rightarrow> string \<Rightarrow> string + office_reply"

definition office_admit :: "string \<Rightarrow> json \<Rightarrow> string + office_ask" where
  "office_admit name arguments = office_read name arguments"

definition office_frames :: "office_reply \<Rightarrow> tool_result \<Rightarrow> tool_result" where
  "office_frames reply r = r\<lparr>tr_customs := tr_customs r @ map (\<lambda>f. (OFFICE_DOC_EVENT, f)) (or_customs reply)\<rparr>"

definition office_run :: "serde \<Rightarrow> office_desk \<Rightarrow> tool_context \<Rightarrow> string \<Rightarrow> string \<Rightarrow> office_ask \<Rightarrow> tool_result" where
  "office_run sd desk cx box call_id ask =
     (case od_answer desk cx box ask of
        Inr reply \<Rightarrow>
          let r = result_ok call_id (sd_to_string sd (or_result reply));
              r = (case or_image reply of Some i \<Rightarrow> with_image i r | None \<Rightarrow> r)
          in office_frames reply r
      | Inl why \<Rightarrow> result_refused call_id why)"

definition office_run_close :: "serde \<Rightarrow> office_desk \<Rightarrow> tool_context \<Rightarrow> string \<Rightarrow> string \<Rightarrow> tool_result" where
  "office_run_close sd desk cx call_id document =
     (case od_close desk cx document of
        Inr reply \<Rightarrow> office_frames reply (result_ok call_id (sd_to_string sd (or_result reply)))
      | Inl why \<Rightarrow> result_refused call_id why)"

section \<open>What a call cannot say\<close>

text \<open>Two sets of arguments that differ only under the identity keys.\<close>

definition same_but_identity :: "json \<Rightarrow> json \<Rightarrow> bool" where
  "same_but_identity v w \<longleftrightarrow> (\<forall>k. k \<notin> set IDENTITY_KEYS \<longrightarrow> json_get v k = json_get w k)"

lemma same_but_identity_get:
  "same_but_identity v w \<Longrightarrow> k \<notin> set IDENTITY_KEYS \<Longrightarrow> json_get v k = json_get w k"
  by (simp add: same_but_identity_def)

lemma same_but_identity_args:
  assumes "same_but_identity v w" "k \<notin> set IDENTITY_KEYS"
  shows "text_arg v k = text_arg w k" "str_at v k = str_at w k" "usize_arg v k n = usize_arg w k n"
    "flag_arg v k = flag_arg w k"
  using same_but_identity_get [OF assms]
  by (simp_all add: text_arg_def str_at_def usize_arg_def flag_arg_def)

end
