(* ===== verification/Executor.thy ===== *)
theory Executor
  imports Desks Mcp Workflow Local_Exec Tool_Policy
begin

text \<open>
  What runs a tool call (\<open>opengrok-tools/src/lib.rs\<close>, \<open>executor.rs\<close>,
  \<open>executor/execute.rs\<close>): whose call it is, the two gates, the reviewer, the cards, and the
  dispatch to the coworker's box, the person's machine, a plugin's server or a desk. What a box, a
  judge, a machine, a recipe source, a desk or a plugin's server answers is a parameter, as a
  function of everything this turn has asked of the world so far: \<open>turn_deed\<close>s are what leaves the
  executor, newest first. The laws are in \<open>Executor_Laws\<close>.
\<close>

section \<open>A box and what it says\<close>

datatype box_error =
    BoxUnreachable string
  | BoxRefused nat string
  | NoSuchBox
  | BoxSecret string
  | Interrupted string

fun box_error_text :: "box_error \<Rightarrow> string" where
  "box_error_text (BoxUnreachable detail) = ''the box is unreachable: '' @ detail"
| "box_error_text (BoxRefused status body) = ''the box refused: '' @ nat_str status @ '' '' @ body"
| "box_error_text NoSuchBox = ''no box with that id''"
| "box_error_text (BoxSecret reason) = ''could not mint a box secret: '' @ reason"
| "box_error_text (Interrupted detail) = ''the connection to the box was lost mid-request: '' @ detail"

definition box_error_code :: "box_error \<Rightarrow> string" where
  "box_error_code e =
     (case e of
        BoxUnreachable _ \<Rightarrow> ''provider_unreachable''
      | Interrupted _ \<Rightarrow> ''provider_unreachable''
      | BoxRefused status _ \<Rightarrow>
          if status = 401 \<or> status = 403 then ''invalid_key''
          else if status = 402 \<or> status = 429 then ''quota_exceeded''
          else ''provider_error''
      | _ \<Rightarrow> ''provider_error'')"

text \<open>\<open>describe\<close>: a failure in words a model can act on.\<close>

fun describe_box_error :: "box_error \<Rightarrow> string" where
  "describe_box_error NoSuchBox = ''that computer no longer exists''"
| "describe_box_error (BoxSecret reason) = reason"
| "describe_box_error (BoxUnreachable detail) = ''the computer is unreachable: '' @ detail"
| "describe_box_error (Interrupted detail) =
     ''the connection to the computer was lost before it answered: '' @ detail"
| "describe_box_error (BoxRefused status body) =
     ''the computer refused the request ('' @ nat_str status @ ''): '' @ body"

definition is_starting :: "string \<Rightarrow> bool" where
  "is_starting state \<longleftrightarrow>
     state \<in> set [''provisioning'', ''provisioned'', ''init'', ''cloning'', ''restarting'', ''resuming'', ''archiving'']"

record egress_tunnel =
  et_enabled :: bool
  et_ready :: bool

definition tunnel_from_info :: "json \<Rightarrow> egress_tunnel option" where
  "tunnel_from_info info =
     Option.bind (json_get info ''capabilities'') (\<lambda>caps.
     Option.bind (json_get caps ''egress_tunnel'') (\<lambda>cap.
     Option.bind (Option.bind (json_get cap ''enabled'') as_bool) (\<lambda>enabled.
     Option.bind (Option.bind (json_get cap ''ready'') as_bool) (\<lambda>ready.
       Some \<lparr>et_enabled = enabled, et_ready = ready\<rparr>))))"

definition tunnel_advertised :: "bool \<Rightarrow> egress_tunnel option \<Rightarrow> bool" where
  "tunnel_advertised host_wants cap \<longleftrightarrow>
     host_wants \<and> (case cap of Some c \<Rightarrow> et_ready c | None \<Rightarrow> False)"

record command_output =
  co_exit_code :: int
  co_stdout :: string
  co_stderr :: string
  co_stdout_truncated :: bool
  co_stderr_truncated :: bool
  co_timed_out :: bool

record screenshot =
  ss_mime :: string
  ss_png_base64 :: string
  ss_width :: "32 word"
  ss_height :: "32 word"

definition image_of_shot :: "screenshot \<Rightarrow> tool_image" where
  "image_of_shot s =
     \<lparr>ti_mime = ss_mime s, ti_base64 = ss_png_base64 s, ti_width = ss_width s, ti_height = ss_height s,
      ti_visibility = AgentImage\<rparr>"

datatype screen_action =
    CuaClick int int "nat option"
  | CuaDoubleClick int int
  | CuaMove int int
  | CuaDrag int int int int
  | CuaType string
  | CuaKey string
  | CuaScroll int int int int

definition point_str :: "int \<Rightarrow> int \<Rightarrow> string" where
  "point_str x y = int_str x @ '','' @ int_str y"

fun describe_action :: "screen_action \<Rightarrow> string" where
  "describe_action (CuaClick x y button) = ''clicking at '' @ point_str x y"
| "describe_action (CuaDoubleClick x y) = ''double-clicking at '' @ point_str x y"
| "describe_action (CuaMove x y) = ''moving to '' @ point_str x y"
| "describe_action (CuaDrag x1 y1 x2 y2) = ''dragging '' @ point_str x1 y1 @ '' to '' @ point_str x2 y2"
| "describe_action (CuaType t) = ''typing''"
| "describe_action (CuaKey key) = ''pressing '' @ key"
| "describe_action (CuaScroll x y dx dy) = ''scrolling''"

section \<open>The arguments a built-in tool reads\<close>

text \<open>
  The derived readers of the source's structs, on a JSON object: a member that is missing or of
  another type than the field's is an error, whose words are the deserialiser's (a parameter of the
  executor); members of other names are passed over.
\<close>

definition i32_of :: "json \<Rightarrow> int option" where
  "i32_of v = (case v of JInt i \<Rightarrow> if - (2 ^ 31) \<le> i \<and> i < 2 ^ 31 then Some i else None | _ \<Rightarrow> None)"

definition u32_of :: "json \<Rightarrow> nat option" where
  "u32_of v = (case v of JInt i \<Rightarrow> if 0 \<le> i \<and> i < 2 ^ 32 then Some (nat i) else None | _ \<Rightarrow> None)"

definition u8_of :: "json \<Rightarrow> nat option" where
  "u8_of v = (case v of JInt i \<Rightarrow> if 0 \<le> i \<and> i < 256 then Some (nat i) else None | _ \<Rightarrow> None)"

definition pair_of :: "json \<Rightarrow> (int \<times> int) option" where
  "pair_of v =
     (case v of
        JArray [a, b] \<Rightarrow> Option.bind (i32_of a) (\<lambda>x. Option.bind (i32_of b) (\<lambda>y. Some (x, y)))
      | _ \<Rightarrow> None)"

fun texts_of :: "(string \<times> json) list \<Rightarrow> bindings option" where
  "texts_of [] = Some []"
| "texts_of ((k, v) # kvs) =
     Option.bind (as_str v) (\<lambda>t. Option.bind (texts_of kvs) (\<lambda>rest. Some (bm_insert k t rest)))"

definition values_of :: "json \<Rightarrow> bindings option" where
  "values_of v = Option.bind (as_object v) texts_of"

text \<open>A field of type \<open>Option\<close> with a default: missing and null are none.\<close>

definition opt_field :: "(json \<Rightarrow> 'a option) \<Rightarrow> json \<Rightarrow> string \<Rightarrow> 'a option option" where
  "opt_field read v k =
     (case json_get v k of
        None \<Rightarrow> Some None
      | Some JNull \<Rightarrow> Some None
      | Some j \<Rightarrow> map_option Some (read j))"

record shell_args =
  sa_command :: string
  sa_timeout_seconds :: nat

definition default_timeout :: nat where "default_timeout = 30"

definition read_shell_args :: "json \<Rightarrow> shell_args option" where
  "read_shell_args v =
     Option.bind (str_at v ''command'') (\<lambda>command.
     Option.bind (case json_get v ''timeout_seconds'' of None \<Rightarrow> Some default_timeout | Some t \<Rightarrow> u32_of t) (\<lambda>timeout.
       Some \<lparr>sa_command = command, sa_timeout_seconds = timeout\<rparr>))"

record write_file_args =
  wa_path :: string
  wa_content :: string

definition read_write_file_args :: "json \<Rightarrow> write_file_args option" where
  "read_write_file_args v =
     Option.bind (str_at v ''path'') (\<lambda>path. Option.bind (str_at v ''content'') (\<lambda>content.
       Some \<lparr>wa_path = path, wa_content = content\<rparr>))"

record run_recipe_args =
  ua_recipe :: string
  ua_values :: "bindings option"

definition read_run_recipe_args :: "json \<Rightarrow> run_recipe_args option" where
  "read_run_recipe_args v =
     Option.bind (str_at v ''recipe'') (\<lambda>recipe. Option.bind (opt_field values_of v ''values'') (\<lambda>vals.
       Some \<lparr>ua_recipe = recipe, ua_values = vals\<rparr>))"

record computer_args =
  ca_action :: string
  ca_coordinate :: "(int \<times> int) option"
  ca_to :: "(int \<times> int) option"
  ca_text :: "string option"
  ca_key :: "string option"
  ca_scroll :: "(int \<times> int) option"
  ca_button :: "nat option"

definition read_computer_args :: "json \<Rightarrow> computer_args option" where
  "read_computer_args v =
     Option.bind (str_at v ''action'') (\<lambda>action.
     Option.bind (opt_field pair_of v ''coordinate'') (\<lambda>coordinate.
     Option.bind (opt_field pair_of v ''to'') (\<lambda>to.
     Option.bind (opt_field as_str v ''text'') (\<lambda>written.
     Option.bind (opt_field as_str v ''key'') (\<lambda>key.
     Option.bind (opt_field pair_of v ''scroll'') (\<lambda>scroll.
     Option.bind (opt_field u8_of v ''button'') (\<lambda>button.
       Some \<lparr>ca_action = action, ca_coordinate = coordinate, ca_to = to, ca_text = written, ca_key = key,
             ca_scroll = scroll, ca_button = button\<rparr>)))))))"

definition at_point :: "(int \<times> int) option \<Rightarrow> string \<Rightarrow> string + int \<times> int" where
  "at_point coordinate what = ok_or coordinate (what @ '' needs '' @ bq @ ''coordinate'' @ bq @ '': [x, y]'')"

definition needs_field :: "string \<Rightarrow> string \<Rightarrow> string \<Rightarrow> string" where
  "needs_field action field rest = action @ '' needs '' @ bq @ field @ bq @ rest"

definition into_action :: "computer_args \<Rightarrow> string + screen_action option" where
  "into_action a =
     (let action = ca_action a
      in if action = ''screenshot'' then Inr None
         else if action \<in> {''click'', ''left_click''} then
           rbind (at_point (ca_coordinate a) ''click'') (\<lambda>(x, y). Inr (Some (CuaClick x y (ca_button a))))
         else if action = ''right_click'' then
           rbind (at_point (ca_coordinate a) ''right_click'') (\<lambda>(x, y). Inr (Some (CuaClick x y (Some 3))))
         else if action = ''double_click'' then
           rbind (at_point (ca_coordinate a) ''double_click'') (\<lambda>(x, y). Inr (Some (CuaDoubleClick x y)))
         else if action \<in> {''move'', ''mouse_move''} then
           rbind (at_point (ca_coordinate a) ''move'') (\<lambda>(x, y). Inr (Some (CuaMove x y)))
         else if action \<in> {''drag'', ''left_click_drag''} then
           rbind (at_point (ca_coordinate a) ''drag'') (\<lambda>(x1, y1).
           rbind (ok_or (ca_to a) (needs_field ''drag'' ''to'' '': [x, y]'')) (\<lambda>(x2, y2).
             Inr (Some (CuaDrag x1 y1 x2 y2))))
         else if action = ''type'' then
           rbind (ok_or (ca_text a) (needs_field ''type'' ''text'' [])) (\<lambda>t. Inr (Some (CuaType t)))
         else if action = ''key'' then
           rbind (ok_or (ca_key a) (needs_field ''key'' ''key'' '', e.g. Return or ctrl+l'')) (\<lambda>k. Inr (Some (CuaKey k)))
         else if action = ''scroll'' then
           rbind (at_point (ca_coordinate a) ''scroll'') (\<lambda>(x, y).
           rbind (ok_or (ca_scroll a) (needs_field ''scroll'' ''scroll'' '': [dx, dy]'')) (\<lambda>(dx, dy).
             Inr (Some (CuaScroll x y dx dy))))
         else Inl (''unknown action '' @ bq @ action @ bq @
           ''; one of screenshot, click, right_click, double_click, move, drag, type, key, scroll''))"

section \<open>What a tool needs, by its name\<close>

definition REQUEST_USER_FORM :: string where "REQUEST_USER_FORM = ''request_user_form''"
definition MESSAGE_BOT :: string where "MESSAGE_BOT = ''message_bot''"

definition BIR_NOT_ON_THE_BOX :: string where
  "BIR_NOT_ON_THE_BOX = ''gpui-agent and bir-headless are not on this computer. Use user_machine_shell.''"

definition token_is_absent_bir_binary :: "string \<Rightarrow> bool" where
  "token_is_absent_bir_binary written \<longleftrightarrow>
     (let token = trim_matches (\<lambda>c. c \<in> set (quote @ apos @ ''()'')) written
      in if token = [] \<or> CHR ''='' \<in> set token then False
         else List.last (split_on (CHR ''/'') token) \<in> {''gpui-agent'', ''bir-headless''})"

text \<open>
  A command is split at white space and at the three operators; an empty token is never a binary,
  so the runs of separators in between make no difference.
\<close>

definition command_tokens :: "string \<Rightarrow> string list" where
  "command_tokens command =
     concat (map (\<lambda>w. concat (map (\<lambda>p. concat (map (split_on (CHR ''&'')) (split_on (CHR ''|'') p)))
       (split_on (CHR '';'') w))) (split_whitespace command))"

definition command_targets_absent_bir_binary :: "string \<Rightarrow> bool" where
  "command_targets_absent_bir_binary command \<longleftrightarrow> list_ex token_is_absent_bir_binary (command_tokens command)"

definition leaves_the_box :: "string \<Rightarrow> bool" where
  "leaves_the_box name \<longleftrightarrow> name \<in> {''computer'', ''open_url'', run_recipe}"

definition needs_egress_consent :: "string \<Rightarrow> json \<Rightarrow> bool" where
  "needs_egress_consent name arguments \<longleftrightarrow>
     leaves_the_box name \<and> \<not> (name = ''computer'' \<and> str_at arguments ''action'' = Some ''screenshot'')"

definition needs_the_box :: "string \<Rightarrow> bool" where
  "needs_the_box name \<longleftrightarrow>
     name \<in> {run_recipe, ''shell'', ''read_file'', ''write_file'', ''open_url'', ''computer''} \<or>
     is_office_tool name \<and> name \<noteq> OFFICE_CLOSE"

definition target_box :: "tool_context \<Rightarrow> json \<Rightarrow> box_id option" where
  "target_box cx arguments =
     (if str_at arguments ''machine'' = Some ''group'' then map_option gb_box (cx_group_box cx) else cx_box cx)"

definition SCREEN_TOOLS :: "string list" where "SCREEN_TOOLS = [''open_url'', ''computer'']"

definition BROWSER_TOOLS :: "string list" where
  "BROWSER_TOOLS = [''open_url'', ''computer'', run_recipe, REQUEST_USER_FORM]"

definition builtin_tool_names :: "string list" where
  "builtin_tool_names =
     [''shell'', ''read_file'', ''write_file'', ''open_url'', ''computer'', REQUEST_USER_FORM, run_recipe]"

definition every_builtin :: "string list" where
  "every_builtin =
     builtin_tool_names @ [user_machine_shell, MESSAGE_BOT] @ ROUTINE_TOOLS @ PLUGIN_DESK_TOOLS @
       COMPUTER_TOOLS @ OFFICE_TOOLS"

section \<open>Identity is overwritten\<close>

definition overwrite_identity :: "json \<Rightarrow> tool_context \<Rightarrow> json" where
  "overwrite_identity arguments cx =
     (let m = (case arguments of JObject m \<Rightarrow> m | _ \<Rightarrow> []);
          m = jm_remove_all IDENTITY_KEYS m;
          m = jm_insert ''coworker_id'' (JString (coworker_str (cx_coworker cx))) m
      in JObject (case cx_box cx of
            Some b \<Rightarrow> jm_insert ''box_id'' (JString (box_str b)) m
          | None \<Rightarrow> m))"

definition strip_identity :: "json \<Rightarrow> json" where
  "strip_identity arguments =
     (case arguments of JObject m \<Rightarrow> JObject (jm_remove_all IDENTITY_KEYS m) | other \<Rightarrow> other)"


section \<open>The executor\<close>

record recipe_offer =
  ro_id :: string
  ro_name :: string
  ro_description :: string
  ro_parameters :: "parameter list"

text \<open>
  What a turn is built with. The services behind it are in \<open>surroundings\<close> below; here is
  whether each is attached, and what the code keeps itself.
\<close>

record executor =
  ex_policy :: policy_context
  ex_approved :: "string set"
  ex_review_approved :: "string set"
  ex_sessions :: "(string, mcp_session) bmap"
  ex_plugin_tools :: "mcp_tool list"
  ex_unavailable :: "(string, string) bmap"
  ex_user_machine :: bool
  ex_auto_review :: "review_policy option"
  ex_screen :: bool
  ex_group_box_name :: "string option"
  ex_recipes :: "recipe_offer list"
  ex_recipe_source :: bool
  ex_chosen_recipe :: "(string \<times> bindings) option"
  ex_observe :: observe
  ex_egress_tunnel :: egress_tunnel_mode
  ex_egress_consented :: bool
  ex_egress_policy :: egress_policy
  ex_egress_unconfirmed :: bool
  ex_routines :: "bool option"
  ex_plugin_desk :: bool
  ex_computer_desk :: bool
  ex_office_desk :: bool
  ex_switched_off :: "mcp_tool list"
  ex_on_woken :: bool
  ex_boxless :: bool

text \<open>\<open>wanted_env\<close> is the environment's word for how much a recipe run reports back.\<close>

definition executor_new :: "string option \<Rightarrow> executor" where
  "executor_new wanted_env =
     \<lparr>ex_policy = \<lparr>ctx_grant = None, ctx_ceiling = None\<rparr>, ex_approved = {}, ex_review_approved = {},
      ex_sessions = [], ex_plugin_tools = [], ex_unavailable = [], ex_user_machine = False,
      ex_auto_review = None, ex_screen = False, ex_group_box_name = None, ex_recipes = [],
      ex_recipe_source = False, ex_chosen_recipe = None, ex_observe = wanted wanted_env,
      ex_egress_tunnel = TunnelOff, ex_egress_consented = False, ex_egress_policy = EgressAsk,
      ex_egress_unconfirmed = False, ex_routines = None, ex_plugin_desk = False, ex_computer_desk = False,
      ex_office_desk = False, ex_switched_off = [], ex_on_woken = False, ex_boxless = False\<rparr>"

definition with_policy :: "string option \<Rightarrow> policy_context \<Rightarrow> executor" where
  "with_policy env policy = (executor_new env)\<lparr>ex_policy := policy\<rparr>"

definition without_a_computer :: "string option \<Rightarrow> policy_context \<Rightarrow> executor" where
  "without_a_computer env policy = (with_policy env policy)\<lparr>ex_boxless := True\<rparr>"

definition has_computer :: "executor \<Rightarrow> bool" where
  "has_computer ex \<longleftrightarrow> \<not> ex_boxless ex"

definition with_routines_listing_only :: "executor \<Rightarrow> executor" where
  "with_routines_listing_only ex =
     ex\<lparr>ex_routines := map_option (\<lambda>_. True) (ex_routines ex), ex_plugin_desk := False,
        ex_computer_desk := False, ex_office_desk := False\<rparr>"

definition with_plugin_tools :: "(string, mcp_session) bmap \<Rightarrow> mcp_tool list \<Rightarrow> executor \<Rightarrow> executor" where
  "with_plugin_tools sessions tools ex = ex\<lparr>ex_sessions := sessions, ex_plugin_tools := tools\<rparr>"

definition with_plugins :: "dialled \<Rightarrow> executor \<Rightarrow> executor" where
  "with_plugins d ex = with_plugin_tools (di_sessions d) (di_tools d) (ex\<lparr>ex_unavailable := di_unavailable d\<rparr>)"

definition with_egress_tunnel :: "bool \<Rightarrow> executor \<Rightarrow> executor" where
  "with_egress_tunnel on ex = ex\<lparr>ex_egress_tunnel := (if on then TunnelOn else TunnelOff)\<rparr>"

section \<open>What is switched off\<close>

definition network_off :: "executor \<Rightarrow> bool" where
  "network_off ex \<longleftrightarrow> ex_egress_policy ex = EgressNever \<and> ex_egress_tunnel ex = TunnelOn"

definition network_unconfirmed :: "executor \<Rightarrow> bool" where
  "network_unconfirmed ex \<longleftrightarrow> ex_egress_unconfirmed ex \<and> network_off ex"

definition has_screen :: "executor \<Rightarrow> bool" where
  "has_screen ex \<longleftrightarrow> ex_screen ex \<and> \<not> network_off ex"

definition has_recipes :: "executor \<Rightarrow> bool" where
  "has_recipes ex \<longleftrightarrow> has_screen ex \<and> ex_recipes ex \<noteq> []"

definition egress_consented :: "executor \<Rightarrow> bool" where
  "egress_consented ex \<longleftrightarrow> ex_egress_consented ex \<or> ex_egress_policy ex = EgressAlways"

definition reaches_the_machine :: "executor \<Rightarrow> bool" where
  "reaches_the_machine ex \<longleftrightarrow>
     ex_user_machine ex \<and>
     (case ctx_ceiling (ex_policy ex) of Some c \<Rightarrow> ts_allows (c_tools c) user_machine_shell | None \<Rightarrow> False)"

definition review_inactive :: "executor \<Rightarrow> bool" where
  "review_inactive ex \<longleftrightarrow> (case ex_auto_review ex of None \<Rightarrow> True | Some p \<Rightarrow> \<not> is_active p)"

text \<open>\<open>+<tool>\<close> in the ceiling: Always allow, for a tool that asks first by rule.\<close>

definition asks_unasked :: "executor \<Rightarrow> string \<Rightarrow> bool" where
  "asks_unasked ex tool \<longleftrightarrow>
     (case map_option c_tools (ctx_ceiling (ex_policy ex)) of
        Some (ToolsOnly names) \<Rightarrow> CHR ''+'' # tool \<in> names
      | _ \<Rightarrow> False)"

definition ASK_BY_RULE :: "string list" where
  "ASK_BY_RULE =
     [DELETE_ROUTINE, UNINSTALL_PLUGIN, REMOVE_PLUGIN_ACCOUNT, RESET_COMPUTER, UPDATE_COMPUTER, SET_NETWORK]"

definition mode_label :: "executor \<Rightarrow> decision \<Rightarrow> string \<Rightarrow> string" where
  "mode_label ex d tool =
     (if needs_approval d then ''ask''
      else if \<not> is_allowed d then ''never''
      else if tool \<in> set ASK_BY_RULE \<and> \<not> asks_unasked ex tool then ''ask''
      else ''always'')"

definition mode_of :: "executor \<Rightarrow> account_id \<Rightarrow> coworker_id \<Rightarrow> string \<Rightarrow> string" where
  "mode_of ex account coworker tool =
     mode_label ex (policy_decide account coworker (RunTool tool) (ex_policy ex)) tool"

definition executor_group_off :: "executor \<Rightarrow> string \<Rightarrow> bool" where
  "executor_group_off ex grp \<longleftrightarrow>
     (case ctx_ceiling (ex_policy ex) of
        None \<Rightarrow> True
      | Some c \<Rightarrow>
          group_off (c_tools c) grp \<or>
          (case find (\<lambda>(g, members). g = grp) tool_groups of
             Some (g, members) \<Rightarrow>
               \<not> list_ex (\<lambda>t. allows_alone (c_tools c) t) members \<and>
               \<not> list_ex (\<lambda>t. names_never (c_tools c) t) members
           | None \<Rightarrow> False))"

definition mode_of_alone :: "executor \<Rightarrow> account_id \<Rightarrow> coworker_id \<Rightarrow> string \<Rightarrow> string" where
  "mode_of_alone ex account coworker tool =
     (let tools = map_option c_tools (ctx_ceiling (ex_policy ex));
          held = (\<lambda>P. case tools of Some ts \<Rightarrow> P ts | None \<Rightarrow> False)
      in case Option.bind (group_of tool) (\<lambda>g. if held (\<lambda>ts. group_off ts g) then Some g else None) of
           None \<Rightarrow>
             (case group_of tool of
                Some g \<Rightarrow>
                  if executor_group_off ex g \<and> \<not> held (\<lambda>ts. names_never ts tool)
                  then (if tool \<in> set ASK_BY_RULE then ''ask'' else ''always'')
                  else mode_of ex account coworker tool
              | None \<Rightarrow> mode_of ex account coworker tool)
         | Some g \<Rightarrow>
             let policy = \<lparr>ctx_grant = map_option (\<lambda>gr. gr\<lparr>g_profile := with_group_on (g_profile gr) g\<rparr>)
                             (ctx_grant (ex_policy ex)),
                           ctx_ceiling = map_option (\<lambda>c. c\<lparr>c_tools := with_group_on (c_tools c) g\<rparr>)
                             (ctx_ceiling (ex_policy ex))\<rparr>
             in mode_label ex (policy_decide account coworker (RunTool tool) policy) tool)"

section \<open>The names a model may use\<close>

text \<open>The plugin tools' names on the wire, over the sorted names: a sort by the bytes.\<close>

definition plugin_wire_names :: "executor \<Rightarrow> (string \<times> string) list" where
  "plugin_wire_names ex =
     openai_unique_tool_names every_builtin (sort (map mt_qualified_name (ex_plugin_tools ex)))"

definition lookup_plugin_tool :: "executor \<Rightarrow> string \<Rightarrow> mcp_tool option" where
  "lookup_plugin_tool ex name =
     (case find (\<lambda>t. mt_qualified_name t = name) (ex_plugin_tools ex) of
        Some t \<Rightarrow> Some t
      | None \<Rightarrow>
          Option.bind (find (\<lambda>(q, wire). wire = name) (plugin_wire_names ex)) (\<lambda>(q, wire).
            find (\<lambda>t. mt_qualified_name t = q) (ex_plugin_tools ex)))"

definition internal_tool_name :: "executor \<Rightarrow> string \<Rightarrow> string" where
  "internal_tool_name ex name =
     (case lookup_plugin_tool ex name of Some t \<Rightarrow> mt_qualified_name t | None \<Rightarrow> name)"

definition plugin_tool_named :: "executor \<Rightarrow> string \<Rightarrow> (string \<times> string option) option" where
  "plugin_tool_named ex wire =
     map_option (\<lambda>t.
       (mt_qualified_name t,
        Option.bind (Option.bind (mt_annotations t) (\<lambda>notes. str_at notes ''title''))
          (\<lambda>title. if trim title \<noteq> [] then Some (trim title) else None)))
       (lookup_plugin_tool ex wire)"

definition offered_builtins :: "executor \<Rightarrow> string list" where
  "offered_builtins ex =
     filter (\<lambda>name.
       \<not> ex_boxless ex \<and> (ex_screen ex \<or> name \<notin> set SCREEN_TOOLS) \<and>
       (\<not> network_off ex \<or> name \<notin> set BROWSER_TOOLS \<or> name = REQUEST_USER_FORM) \<and>
       name \<noteq> run_recipe) builtin_tool_names"

definition offered_routines :: "executor \<Rightarrow> string list" where
  "offered_routines ex =
     (case ex_routines ex of None \<Rightarrow> [] | Some listing \<Rightarrow> if listing then take 1 ROUTINE_TOOLS else ROUTINE_TOOLS)"

definition tool_names :: "executor \<Rightarrow> string list" where
  "tool_names ex =
     offered_builtins ex @ (if has_recipes ex then [run_recipe] else []) @
     (if reaches_the_machine ex then [user_machine_shell] else []) @ offered_routines ex @
     (if ex_plugin_desk ex then PLUGIN_DESK_TOOLS else []) @
     (if ex_computer_desk ex then COMPUTER_TOOLS else []) @
     (if ex_office_desk ex then OFFICE_TOOLS else []) @
     map mt_qualified_name (ex_plugin_tools ex)"

text \<open>The server's reason, cut to what a prompt can afford.\<close>

definition clip_reason :: "string \<Rightarrow> string" where
  "clip_reason reason =
     (if 240 < chars_count reason then take_chars 240 reason @ [CHR 0xE2, CHR 0x80, CHR 0xA6] else reason)"

definition unavailable_plugins_line :: "executor \<Rightarrow> string" where
  "unavailable_plugins_line ex =
     (if ex_unavailable ex = [] then []
      else '' Some of your connected tools are unavailable on this turn, so they are not offered: '' @
        join ''; '' (map (clip_reason \<circ> snd) (ex_unavailable ex)) @
        ''. If asked for one, say it could not be reached right now and may work on a later message'' @ dash @
        ''not that you do not have it.'')"


section \<open>What a turn does and learns\<close>

datatype turn_deed =
    AskedState string
  | Woke string
  | StampedInUse string
  | AskedTunnel string
  | RanCommand string string nat
  | ReadFile string string
  | WroteFile string string string
  | OpenedUrl string screen_choice string
  | Acted string screen_choice screen_action
  | TookShot string screen_choice
  | PlayedRecipe string screen_choice json
  | AskedGrant string coworker_id
  | AskedRequest string bindings
  | ClaimedRun string int coworker_id
  | RecordedRun string int coworker_id recipe_receipt "string option"
  | AskedJudge review_ask
  | AskedMachine account_id string
  | RanOnMachine account_id string string bool
  | DidRoutine tool_context routine_ask
  | DidPlugin tool_context plugin_ask
  | DidComputer tool_context computer_ask
  | DidOffice tool_context string office_ask
  | ClosedOffice tool_context string
  | CalledPlugin mcp_session string "(string \<times> json) list option"

text \<open>What the executor keeps between two calls of a turn, and what it has asked of the world.\<close>

record turn =
  tn_woken :: "(string, string + unit) bmap"
  tn_tunnels :: "string set"
  tn_failures :: nat
  tn_deeds :: "turn_deed list"

definition turn_new :: "nat \<Rightarrow> turn" where
  "turn_new failures = \<lparr>tn_woken = [], tn_tunnels = {}, tn_failures = failures, tn_deeds = []\<rparr>"

definition does :: "turn_deed \<Rightarrow> turn \<Rightarrow> turn" where
  "does d t = t\<lparr>tn_deeds := d # tn_deeds t\<rparr>"

datatype machine_verdict = MachineAllow | MachineAsk | MachineDeny string

datatype machine_reply = MachineRan string | MachineRefused string | MachineNeedsApproval

text \<open>
  The services: each is asked with what the turn has already done. Reading a desk before any gate
  (the name of a stored routine, whether a tool asks first) is a read, and is not a deed.
\<close>

record surroundings =
  sr_serde :: serde
  sr_bad_args :: "string \<Rightarrow> json \<Rightarrow> string"
  sr_deadlines :: deadlines
  sr_state :: "turn_deed list \<Rightarrow> string \<Rightarrow> box_error + string"
  sr_wake :: "turn_deed list \<Rightarrow> string \<Rightarrow> box_error + string"
  sr_tunnel :: "turn_deed list \<Rightarrow> string \<Rightarrow> egress_tunnel option"
  sr_run :: "turn_deed list \<Rightarrow> string \<Rightarrow> string \<Rightarrow> nat \<Rightarrow> box_error + command_output"
  sr_read_file :: "turn_deed list \<Rightarrow> string \<Rightarrow> string \<Rightarrow> box_error + string"
  sr_write_file :: "turn_deed list \<Rightarrow> string \<Rightarrow> string \<Rightarrow> string \<Rightarrow> box_error + unit"
  sr_open_url :: "turn_deed list \<Rightarrow> string \<Rightarrow> screen_choice \<Rightarrow> string \<Rightarrow> box_error + unit"
  sr_act :: "turn_deed list \<Rightarrow> string \<Rightarrow> screen_choice \<Rightarrow> screen_action \<Rightarrow> box_error + unit"
  sr_shot :: "turn_deed list \<Rightarrow> string \<Rightarrow> screen_choice \<Rightarrow> box_error + screenshot"
  sr_play :: "turn_deed list \<Rightarrow> string \<Rightarrow> screen_choice \<Rightarrow> json \<Rightarrow> box_error + json"
  sr_still_granted :: "turn_deed list \<Rightarrow> string \<Rightarrow> coworker_id \<Rightarrow> string + unit"
  sr_request :: "turn_deed list \<Rightarrow> string \<Rightarrow> bindings \<Rightarrow> string + int \<times> json"
  sr_claim :: "turn_deed list \<Rightarrow> string \<Rightarrow> int \<Rightarrow> coworker_id \<Rightarrow> string + string option"
  sr_judge :: "turn_deed list \<Rightarrow> review_ask \<Rightarrow> review_verdict"
  sr_machine_decide :: "turn_deed list \<Rightarrow> account_id \<Rightarrow> string \<Rightarrow> machine_verdict"
  sr_machine_run :: "turn_deed list \<Rightarrow> account_id \<Rightarrow> string \<Rightarrow> string \<Rightarrow> bool \<Rightarrow> machine_reply"
  sr_routines :: "turn_deed list \<Rightarrow> routine_desk"
  sr_plugins :: "turn_deed list \<Rightarrow> plugin_desk"
  sr_computer :: "turn_deed list \<Rightarrow> computer_desk"
  sr_office :: "turn_deed list \<Rightarrow> office_desk"
  sr_call :: "turn_deed list \<Rightarrow> mcp_session \<Rightarrow> string \<Rightarrow> (string \<times> json) list option \<Rightarrow> call_answer"

section \<open>Bringing the box up\<close>

definition COMPUTER_DOWN :: string where "COMPUTER_DOWN = ''my computer is down; ask them to check it''"

definition COMPUTER_STARTING :: string where
  "COMPUTER_STARTING = ''my computer is still starting; try again in a moment''"

text \<open>The outcome, and whether this call brought the box up.\<close>

definition wake_now :: "surroundings \<Rightarrow> string \<Rightarrow> turn \<Rightarrow> ((string + unit) \<times> bool) \<times> turn" where
  "wake_now sr b t =
     (let t1 = does (AskedState b) t
      in case sr_state sr (tn_deeds t) b of
           Inl e \<Rightarrow> ((Inl (COMPUTER_DOWN @ '' ('' @ box_error_text e @ '')''), False), t1)
         | Inr state \<Rightarrow>
             if state = ''running'' then ((Inr (), False), t1)
             else let t2 = does (Woke b) t1
                  in case sr_wake sr (tn_deeds t1) b of
                       Inl e \<Rightarrow> ((Inl (COMPUTER_DOWN @ '' ('' @ box_error_text e @ '')''), False), t2)
                     | Inr reached \<Rightarrow>
                         if reached = ''running'' then ((Inr (), True), t2)
                         else if is_starting reached
                         then ((Inl (COMPUTER_STARTING @ '' (it is '' @ reached @ '')''), False), t2)
                         else ((Inl (COMPUTER_DOWN @ '' (it is '' @ reached @ '')''), False), t2))"

definition remember_box :: "string \<Rightarrow> string + unit \<Rightarrow> turn \<Rightarrow> turn" where
  "remember_box b found t = t\<lparr>tn_woken := bm_insert b found (tn_woken t)\<rparr>"

definition worth_remembering :: "string + unit \<Rightarrow> bool" where
  "worth_remembering found \<longleftrightarrow> (case found of Inl why \<Rightarrow> \<not> starts_with COMPUTER_STARTING why | Inr _ \<Rightarrow> True)"

definition ensure_awake :: "surroundings \<Rightarrow> executor \<Rightarrow> string \<Rightarrow> turn \<Rightarrow> (string + unit) \<times> turn" where
  "ensure_awake sr ex b t =
     (case bm_get (tn_woken t) b of
        Some found \<Rightarrow> (found, t)
      | None \<Rightarrow>
          (case wake_now sr b t of
             ((found, woke), t1) \<Rightarrow>
               let t2 = (if worth_remembering found then remember_box b found t1 else t1);
                   t3 = (if woke \<and> ex_on_woken ex then does (StampedInUse b) t2 else t2)
               in (found, t3)))"

definition wake_own_box :: "surroundings \<Rightarrow> executor \<Rightarrow> tool_context \<Rightarrow> turn \<Rightarrow> (string + unit) \<times> turn" where
  "wake_own_box sr ex cx t =
     (case cx_box cx of
        None \<Rightarrow> (Inl ''this coworker has no computer yet'', t)
      | Some b \<Rightarrow> ensure_awake sr ex (box_str b) t)"

text \<open>A yes is remembered for the turn; a no is asked again.\<close>

definition tunnel_is_there :: "surroundings \<Rightarrow> string \<Rightarrow> turn \<Rightarrow> bool \<times> turn" where
  "tunnel_is_there sr b t =
     (if b \<in> tn_tunnels t then (True, t)
      else let there = tunnel_advertised True (sr_tunnel sr (tn_deeds t) b);
               t1 = does (AskedTunnel b) t
           in (there, if there then t1\<lparr>tn_tunnels := insert b (tn_tunnels t1)\<rparr> else t1))"

definition network_off_now :: "surroundings \<Rightarrow> executor \<Rightarrow> string \<Rightarrow> turn \<Rightarrow> bool \<times> turn" where
  "network_off_now sr ex b t =
     (if network_off ex then (True, t)
      else if ex_egress_policy ex = EgressNever \<and> ex_egress_tunnel ex = AskTheBoxAfterWake
      then tunnel_is_there sr b t
      else (False, t))"

section \<open>The reviewer\<close>

definition ask_judge ::
  "surroundings \<Rightarrow> review_policy \<Rightarrow> string \<Rightarrow> string \<Rightarrow> json \<Rightarrow> turn \<Rightarrow> review_outcome \<times> turn" where
  "ask_judge sr p tool call_id arguments t =
     (if JUDGE_DOWN_AFTER \<le> tn_failures t then (ReviewBlock (judge_down_reason (tn_failures t)), t)
      else let asked = \<lparr>ra_call_id = call_id, ra_tool = tool,
                        ra_arguments = redact_arguments (sr_serde sr) arguments, ra_allow = rp_allow p,
                        ra_ask = rp_ask p, ra_block = rp_block p\<rparr>;
               verdict = sr_judge sr (tn_deeds t) asked;
               t1 = does (AskedJudge asked) t;
               t2 = (case verdict of
                       review_verdict.Unavailable _ \<Rightarrow> t1\<lparr>tn_failures := tn_failures t1 + 1\<rparr>
                     | _ \<Rightarrow> t1\<lparr>tn_failures := 0\<rparr>)
           in (case verdict of
                 VerdictAllow \<Rightarrow> ReviewAllow
               | VerdictBlock \<Rightarrow>
                   if trim (rp_block p) \<noteq> [] then ReviewBlock (block_refusal (rp_block p))
                   else ReviewAsk REVIEW_ASK_REASON
               | VerdictAsk \<Rightarrow>
                   if trim (rp_ask p) \<noteq> [] then ReviewAsk (ask_first_reason (rp_ask p))
                   else ReviewAsk REVIEW_ASK_REASON
               | VerdictUnsure \<Rightarrow> ReviewAsk REVIEW_ASK_REASON
               | review_verdict.Unavailable cause \<Rightarrow> ReviewAsk (unavailable_reason cause), t2))"

section \<open>The gate\<close>

text \<open>The policy's sentences.\<close>

fun policy_reason_text :: "policy_reason \<Rightarrow> string" where
  "policy_reason_text (NoGrant who cw) =
     ''no grant lets '' @ account_str who @ '' use coworker '' @ coworker_str cw"
| "policy_reason_text (GrantRevoked cw) = ''the grant for coworker '' @ coworker_str cw @ '' was revoked''"
| "policy_reason_text (GrantOfAnother owner who) =
     ''that grant belongs to '' @ account_str owner @ '', not to '' @ account_str who"
| "policy_reason_text (GrantForAnother other cw) =
     ''that grant is for coworker '' @ coworker_str other @ '', not '' @ coworker_str cw"
| "policy_reason_text (NoCeiling cw) =
     ''coworker '' @ coworker_str cw @ '' has no tool ceiling on record, so nothing may run''"
| "policy_reason_text (CeilingForAnother other cw) =
     ''that ceiling is for coworker '' @ coworker_str other @ '', not '' @ coworker_str cw"
| "policy_reason_text (NeedsHumanYes tool cw) =
     ''running '' @ tool @ '' on coworker '' @ coworker_str cw @ '' needs a human yes''"
| "policy_reason_text (CoworkerMayNever cw tool) = ''coworker '' @ coworker_str cw @ '' may never run '' @ tool"
| "policy_reason_text (PrincipalMayNot who cw tool) =
     account_str who @ '' may not make coworker '' @ coworker_str cw @ '' run '' @ tool"

definition policy_gate :: "executor \<Rightarrow> tool_context \<Rightarrow> string \<Rightarrow> string option \<Rightarrow> gate" where
  "policy_gate ex cx tool asked_first =
     (let d = policy_decide (cx_account cx) (cx_coworker cx) (RunTool tool) (ex_policy ex);
          words = (if asks_unasked ex tool then None else asked_first)
      in if needs_approval d \<or> (is_allowed d \<and> words \<noteq> None)
         then GateAsk AwaitPolicyApproval
                (case words of
                   Some said \<Rightarrow> said
                 | None \<Rightarrow> (case decision_reason d of Some why \<Rightarrow> policy_reason_text why | None \<Rightarrow> ''a human yes''))
         else case decision_reason d of
                Some why \<Rightarrow> GateDeny (policy_reason_text why)
              | None \<Rightarrow> GateAllow)"

definition MACHINE_SWITCHED_OFF :: string where
  "MACHINE_SWITCHED_OFF =
     ''this coworker'' @ apos @ ''s tool ceiling does not let it use your machine; its owner can switch that on''"

definition MACHINE_MUST_APPROVE :: string where
  "MACHINE_MUST_APPROVE = ''your machine'' @ apos @ ''s owner must approve this command''"

definition NO_MACHINE :: string where
  "NO_MACHINE = ''no machine of yours is connected, so nothing can run there''"

definition machine_gate ::
  "surroundings \<Rightarrow> executor \<Rightarrow> tool_context \<Rightarrow> string \<Rightarrow> turn \<Rightarrow> (string + gate) \<times> turn" where
  "machine_gate sr ex cx command t =
     (if \<not> ex_user_machine ex then (Inl NO_MACHINE, t)
      else if \<not> reaches_the_machine ex then (Inl MACHINE_SWITCHED_OFF, t)
      else (case sr_machine_decide sr (tn_deeds t) (cx_account cx) command of
              MachineAllow \<Rightarrow> Inr GateAllow
            | MachineAsk \<Rightarrow> Inr (GateAsk AwaitExecConsent MACHINE_MUST_APPROVE)
            | MachineDeny why \<Rightarrow> Inr (GateDeny why),
            does (AskedMachine (cx_account cx) command) t))"


section \<open>Reading a call before any gate\<close>

definition NOT_AN_OBJECT :: string where
  "NOT_AN_OBJECT = ''your arguments were not a JSON object (malformed JSON, or not an object); call the tool again with one JSON object of its parameters''"

definition NO_COMPUTER :: string where
  "NO_COMPUTER = ''This Bot has no computer, so it cannot run computer tools. Its plugins'' @ apos @ '' tools still work.''"

definition NETWORK_OFF :: string where
  "NETWORK_OFF = ''this computer'' @ apos @ ''s use of the person'' @ apos @ ''s network is switched off, so it cannot reach the web''"

text \<open>A desk's tool is refused where no desk is attached, and read by it otherwise.\<close>

definition at_desk :: "bool \<Rightarrow> bool \<Rightarrow> string \<Rightarrow> string + 'a \<Rightarrow> string + 'a option" where
  "at_desk is_its attached absent answer =
     (if \<not> is_its then Inr None
      else if \<not> attached then Inl absent
      else rbind answer (\<lambda>x. Inr (Some x)))"

record admitted =
  ad_name :: string
  ad_arguments :: json
  ad_routine :: "(routine_ask \<times> string option) option"
  ad_office :: "office_ask option"
  ad_computer :: "(computer_ask \<times> string option) option"
  ad_plugin :: "(plugin_ask \<times> string option) option"
  ad_command :: "string option"

definition machine_bad_args :: "string \<Rightarrow> string" where
  "machine_bad_args error =
     ''bad arguments: '' @ error @ ''; call again as {'' @ quote @ ''command'' @ quote @ '': '' @ quote @
       ''<the shell command>'' @ quote @ ''}''"

definition read_command :: "surroundings \<Rightarrow> string \<Rightarrow> json \<Rightarrow> string + string option" where
  "read_command sr name arguments =
     (if name \<noteq> user_machine_shell then Inr None
      else case read_shell_args arguments of
             Some a \<Rightarrow> Inr (Some (sa_command a))
           | None \<Rightarrow> Inl (machine_bad_args (sr_bad_args sr ''ShellArgs'' arguments)))"

definition absent_bir_call :: "string \<Rightarrow> json \<Rightarrow> bool" where
  "absent_bir_call name arguments \<longleftrightarrow>
     name = ''shell'' \<and>
     (case read_shell_args arguments of
        Some a \<Rightarrow> command_targets_absent_bir_binary (sa_command a)
      | None \<Rightarrow> False)"

definition admit_call :: "surroundings \<Rightarrow> executor \<Rightarrow> tool_context \<Rightarrow> tool_call \<Rightarrow> turn_deed list \<Rightarrow> string + admitted" where
  "admit_call sr ex cx call tr =
     (if as_object (tc_arguments call) = None then Inl NOT_AN_OBJECT
      else let arguments = overwrite_identity (tc_arguments call) cx;
               name = internal_tool_name ex (tc_name call)
           in if ex_boxless ex \<and> name \<in> set builtin_tool_names then Inl NO_COMPUTER
              else if absent_bir_call name arguments then Inl BIR_NOT_ON_THE_BOX
              else rbind (at_desk (is_routine_tool name) (ex_routines ex \<noteq> None) ''routines are not on offer here''
                            (routine_admit (sr_routines sr tr) (ex_routines ex = Some True) cx name arguments)) (\<lambda>routine.
                   rbind (at_desk (is_office_tool name) (ex_office_desk ex) ''office documents are not on offer here''
                            (office_admit name arguments)) (\<lambda>office.
                   rbind (at_desk (is_computer_tool name) (ex_computer_desk ex)
                            (''this Bot'' @ apos @ ''s computer is not on offer here'')
                            (computer_admit (sr_computer sr tr) cx name arguments)) (\<lambda>computer.
                   rbind (at_desk (is_plugin_desk_tool name) (ex_plugin_desk ex) ''plugins are not on offer here''
                            (plugin_admit (sr_plugins sr tr) cx name arguments)) (\<lambda>plugin.
                   rbind (read_command sr name arguments) (\<lambda>command.
                     Inr \<lparr>ad_name = name, ad_arguments = arguments, ad_routine = routine, ad_office = office,
                          ad_computer = computer, ad_plugin = plugin, ad_command = command\<rparr>))))))"

text \<open>The words of the card a desk asks for: the routine's, else the plugin's, else the computer's.\<close>

definition desk_card :: "admitted \<Rightarrow> string option" where
  "desk_card ad =
     (case Option.bind (ad_routine ad) snd of
        Some words \<Rightarrow> Some words
      | None \<Rightarrow>
          (case Option.bind (ad_plugin ad) snd of
             Some words \<Rightarrow> Some words
           | None \<Rightarrow> Option.bind (ad_computer ad) snd))"

definition gate_of_call ::
  "surroundings \<Rightarrow> executor \<Rightarrow> tool_context \<Rightarrow> admitted \<Rightarrow> turn \<Rightarrow> (string + gate) \<times> turn" where
  "gate_of_call sr ex cx ad t =
     (case ad_command ad of
        Some command \<Rightarrow> machine_gate sr ex cx command t
      | None \<Rightarrow> (Inr (policy_gate ex cx (ad_name ad) (desk_card ad)), t))"

section \<open>Cards and refusals before the reviewer\<close>

definition gate_approved :: "executor \<Rightarrow> tool_call \<Rightarrow> bool" where
  "gate_approved ex call \<longleftrightarrow> tc_id call \<in> ex_approved ex"

definition review_approved :: "executor \<Rightarrow> tool_call \<Rightarrow> bool" where
  "review_approved ex call \<longleftrightarrow> gate_approved ex call \<or> tc_id call \<in> ex_review_approved ex"

definition form_held :: "tool_context \<Rightarrow> string" where
  "form_held cx =
     ''a form or computer handoff is already open '' @ held_where cx @ ''; wait for the person to finish it''"

definition screen_held :: "tool_context \<Rightarrow> string" where
  "screen_held cx =
     ''a form or computer handoff is open '' @ held_where cx @
     ''; do not type, click, or open pages until the person has finished. Secrets must not be typed with '' @
     bq @ ''computer'' @ bq"

definition DUPLICATE_FIELDS :: string where
  "DUPLICATE_FIELDS =
     ''Field IDs must be unique. Give each field a different id and call request_user_form again.''"

definition form_card :: "tool_context \<Rightarrow> tool_call \<Rightarrow> gate \<Rightarrow> tool_result" where
  "form_card cx call g =
     (case g of
        GateDeny why \<Rightarrow> result_refused (tc_id call) why
      | _ \<Rightarrow>
          if cx_screen_hold cx then result_refused (tc_id call) (form_held cx)
          else if \<not> validate_field_ids (tc_arguments call) then result_refused (tc_id call) DUPLICATE_FIELDS
          else result_awaiting (tc_id call) AwaitUserForm ''Waiting for you'')"

text \<open>Whether the tunnel's card stands between the call and the box, once the tunnel is there.\<close>

definition tunnel_asks :: "executor \<Rightarrow> tool_call \<Rightarrow> string \<Rightarrow> json \<Rightarrow> bool" where
  "tunnel_asks ex call name arguments \<longleftrightarrow>
     needs_egress_consent name arguments \<and> \<not> review_approved ex call \<and> \<not> egress_consented ex \<and>
     review_inactive ex"

definition tunnel_card :: "executor \<Rightarrow> tool_call \<Rightarrow> gate \<Rightarrow> tool_result + unit" where
  "tunnel_card ex call g =
     (case g of
        GateDeny why \<Rightarrow> Inl (result_refused (tc_id call) why)
      | GateAsk _ _ \<Rightarrow> Inr ()
      | GateAllow \<Rightarrow>
          if \<not> gate_approved ex call
          then Inl (result_awaiting (tc_id call) AwaitAutoReview EGRESS_TUNNEL_ASK_REASON)
          else Inr ())"

definition before_review :: "executor \<Rightarrow> tool_context \<Rightarrow> tool_call \<Rightarrow> admitted \<Rightarrow> gate \<Rightarrow> tool_result + unit" where
  "before_review ex cx call ad g =
     (let name = ad_name ad
      in if network_off ex \<and> name \<in> set BROWSER_TOOLS \<and>
            \<not> (name = REQUEST_USER_FORM \<and> is_chat_collection (tc_arguments call))
         then Inl (result_refused (tc_id call) NETWORK_OFF)
         else if name = REQUEST_USER_FORM then Inl (form_card cx call g)
         else if cx_screen_hold cx \<and> name \<in> {''computer'', ''open_url'', run_recipe}
         then Inl (result_refused (tc_id call) (screen_held cx))
         else if ex_egress_tunnel ex = TunnelOn \<and> tunnel_asks ex call name (ad_arguments ad)
         then tunnel_card ex call g
         else Inr ())"

definition review_of_call ::
  "surroundings \<Rightarrow> executor \<Rightarrow> tool_call \<Rightarrow> admitted \<Rightarrow> gate \<Rightarrow> turn \<Rightarrow> review_outcome option \<times> turn" where
  "review_of_call sr ex call ad g t =
     (case g of
        GateDeny _ \<Rightarrow> (None, t)
      | _ \<Rightarrow>
          if review_approved ex call then (None, t)
          else case ex_auto_review ex of
                 None \<Rightarrow> (None, t)
               | Some p \<Rightarrow>
                   if \<not> is_active p then (None, t)
                   else case ask_judge sr p (ad_name ad) (tc_id call) (ad_arguments ad) t of
                          (said, t1) \<Rightarrow> (Some said, t1))"


section \<open>On the box\<close>

definition refused_badly :: "surroundings \<Rightarrow> string \<Rightarrow> string \<Rightarrow> json \<Rightarrow> tool_result" where
  "refused_badly sr i struct arguments =
     result_refused i (''bad arguments: '' @ sr_bad_args sr struct arguments)"

definition nl :: string where "nl = [CHR 0x0A]"

definition shell_content :: "nat \<Rightarrow> command_output \<Rightarrow> string" where
  "shell_content timeout out =
     co_stdout out @
     (if co_stderr out \<noteq> [] then nl @ ''[stderr]'' @ nl @ co_stderr out else []) @
     (if co_stdout_truncated out \<or> co_stderr_truncated out then nl @ ''[output was truncated by the box]'' else []) @
     (if co_timed_out out
      then nl @ ''[timed out after '' @ nat_str timeout @ ''s'' @ dash @ ''it may still be running]'' else []) @
     (if co_exit_code out \<noteq> 0 then nl @ ''[exit code '' @ int_str (co_exit_code out) @ '']'' else [])"

definition run_shell :: "surroundings \<Rightarrow> string \<Rightarrow> string \<Rightarrow> shell_args \<Rightarrow> turn \<Rightarrow> tool_result \<times> turn" where
  "run_shell sr b i a t =
     (case sr_run sr (tn_deeds t) b (sa_command a) (sa_timeout_seconds a) of
        Inr out \<Rightarrow> result_ok i (shell_content (sa_timeout_seconds a) out)
      | Inl e \<Rightarrow> result_refused i (describe_box_error e),
      does (RanCommand b (sa_command a) (sa_timeout_seconds a)) t)"

definition read_file :: "surroundings \<Rightarrow> string \<Rightarrow> string \<Rightarrow> string \<Rightarrow> turn \<Rightarrow> tool_result \<times> turn" where
  "read_file sr b i file t =
     (case sr_read_file sr (tn_deeds t) b file of
        Inr content \<Rightarrow> result_ok i content
      | Inl e \<Rightarrow> result_refused i (describe_box_error e),
      does (ReadFile b file) t)"

definition write_file :: "surroundings \<Rightarrow> string \<Rightarrow> string \<Rightarrow> write_file_args \<Rightarrow> turn \<Rightarrow> tool_result \<times> turn" where
  "write_file sr b i a t =
     (case sr_write_file sr (tn_deeds t) b (wa_path a) (wa_content a) of
        Inr _ \<Rightarrow> result_ok i (''wrote '' @ wa_path a)
      | Inl e \<Rightarrow> result_refused i (describe_box_error e),
      does (WroteFile b (wa_path a) (wa_content a)) t)"

definition NO_SCREEN :: string where "NO_SCREEN = ''this computer has no screen''"

definition open_url ::
  "surroundings \<Rightarrow> executor \<Rightarrow> string \<Rightarrow> screen_choice \<Rightarrow> string \<Rightarrow> string \<Rightarrow> turn \<Rightarrow> tool_result \<times> turn" where
  "open_url sr ex b screen i url t =
     (if \<not> has_screen ex then (result_refused i NO_SCREEN, t)
      else (case sr_open_url sr (tn_deeds t) b screen url of
              Inr _ \<Rightarrow> result_ok i (''opened '' @ url @ '' in the browser on your box; take a screenshot with '' @
                         bq @ ''computer'' @ bq @ '' to see it'')
            | Inl e \<Rightarrow> result_refused i (describe_box_error e),
            does (OpenedUrl b screen url) t))"

definition shot_said :: "string \<Rightarrow> screenshot \<Rightarrow> string" where
  "shot_said said s =
     said @ ''screenshot of the '' @ nat_str (unat (ss_width s)) @ ''x'' @ nat_str (unat (ss_height s)) @
       '' screen attached''"

definition look ::
  "surroundings \<Rightarrow> string \<Rightarrow> screen_choice \<Rightarrow> string \<Rightarrow> bool \<Rightarrow> string \<Rightarrow> turn \<Rightarrow> tool_result \<times> turn" where
  "look sr b screen i acted said t =
     (case sr_shot sr (tn_deeds t) b screen of
        Inr s \<Rightarrow> with_image (image_of_shot s) (result_ok i (shot_said said s))
      | Inl e \<Rightarrow>
          if acted then result_ok i (said @ ''but the screen could not be captured: '' @ describe_box_error e)
          else result_refused i (describe_box_error e),
      does (TookShot b screen) t)"

definition computer_use ::
  "surroundings \<Rightarrow> executor \<Rightarrow> string \<Rightarrow> screen_choice \<Rightarrow> string \<Rightarrow> computer_args \<Rightarrow> turn \<Rightarrow> tool_result \<times> turn" where
  "computer_use sr ex b screen i a t =
     (if \<not> has_screen ex then (result_refused i NO_SCREEN, t)
      else case into_action a of
             Inl why \<Rightarrow> (result_refused i (''bad arguments: '' @ why), t)
           | Inr None \<Rightarrow> look sr b screen i False [] t
           | Inr (Some action) \<Rightarrow>
               let t1 = does (Acted b screen action) t
               in case sr_act sr (tn_deeds t) b screen action of
                    Inl e \<Rightarrow> (result_refused i (describe_box_error e), t1)
                  | Inr _ \<Rightarrow> look sr b screen i True (describe_action action @ ''; '') t1)"

section \<open>A taught recipe\<close>

text \<open>What the person typed into a named field beats what the model passed.\<close>

definition recipe_values :: "executor \<Rightarrow> string \<Rightarrow> bindings \<Rightarrow> bindings" where
  "recipe_values ex recipe given =
     (case ex_chosen_recipe ex of
        Some (chosen, typed) \<Rightarrow>
          if chosen = recipe then foldl (\<lambda>vs (k, v). bm_insert k v vs) given typed else given
      | None \<Rightarrow> given)"

definition interrupted_words :: "box_error \<Rightarrow> string" where
  "interrupted_words e =
     describe_box_error e @
     ''. The recipe may have played part way: look at the screen before doing anything else, and do not run it again. This bot'' @
     apos @ ''s screen stays reserved for up to a minute while the interrupted run'' @ apos @
     ''s claim runs out, so another recipe asked for in that time is refused''"

definition failed_receipt :: "string \<Rightarrow> recipe_receipt" where
  "failed_receipt why =
     receipt_from_value (JObject [(''ok'', JBool False), (''ran'', JInt 0), (''error'', JString why)])"

definition receipt_said :: "recipe_offer \<Rightarrow> int \<Rightarrow> recipe_receipt \<Rightarrow> string" where
  "receipt_said offer version receipt =
     (let named = quote @ ro_name offer @ quote @ '' (v'' @ int_str version @ '')'';
          said = (if rr_ok receipt
                  then ''ran recipe '' @ named @ '': '' @ nat_str (rr_ran receipt) @
                       '' steps; screenshot of the screen afterwards attached''
                  else ''recipe '' @ named @ '' stopped at step '' @
                       nat_str (case rr_stopped_at receipt of Some n \<Rightarrow> n | None \<Rightarrow> rr_ran receipt) @ '': '' @
                       (case rr_error receipt of Some e \<Rightarrow> e | None \<Rightarrow> ''a step failed''))
      in case seen_read (rr_raw receipt) of
           Some seen \<Rightarrow> said @ ''. '' @ sentence seen
         | None \<Rightarrow> said)"

definition receipt_result :: "string \<Rightarrow> string \<Rightarrow> recipe_receipt \<Rightarrow> tool_result" where
  "receipt_result i said receipt =
     (let r = (if rr_ok receipt then result_ok i said else part_way (result_refused i said))
      in case rr_image receipt of Some shot \<Rightarrow> with_image shot r | None \<Rightarrow> r)"

text \<open>The play itself, once the bot's screen is claimed.\<close>

definition play_recipe ::
  "surroundings \<Rightarrow> string \<Rightarrow> screen_choice \<Rightarrow> tool_context \<Rightarrow> string \<Rightarrow> recipe_offer \<Rightarrow> int \<Rightarrow> json \<Rightarrow>
   string option \<Rightarrow> turn \<Rightarrow> tool_result \<times> turn" where
  "play_recipe sr b screen cx i offer version request claimed t =
     (let played = does (PlayedRecipe b screen request) t;
          recorded = (\<lambda>receipt. does (RecordedRun (ro_id offer) version (cx_coworker cx) receipt claimed) played)
      in case sr_play sr (tn_deeds t) b screen request of
           Inr raw \<Rightarrow>
             let receipt = receipt_from_value raw
             in (receipt_result i (receipt_said offer version receipt) receipt, recorded receipt)
         | Inl e \<Rightarrow>
             (case e of
                Interrupted _ \<Rightarrow> (part_way (result_refused i (interrupted_words e)), played)
              | _ \<Rightarrow>
                  let why = describe_box_error e
                  in (result_refused i why,
                      if claimed \<noteq> None then recorded (failed_receipt why) else played)))"

definition execute_recipe ::
  "surroundings \<Rightarrow> executor \<Rightarrow> string \<Rightarrow> screen_choice \<Rightarrow> tool_context \<Rightarrow> string \<Rightarrow> string \<Rightarrow> bindings \<Rightarrow>
   turn \<Rightarrow> tool_result \<times> turn" where
  "execute_recipe sr ex b screen cx i recipe given t =
     (let refuse = (\<lambda>why t. (result_refused i why, t))
      in case find (\<lambda>o_r. ro_id o_r = recipe) (ex_recipes ex) of
           None \<Rightarrow> refuse (''no recipe '' @ bq @ recipe @ bq @ '' is granted to this coworker'') t
         | Some offer \<Rightarrow>
             let vals = recipe_values ex recipe given
             in case bind (ro_parameters offer) vals of
                  Inl why \<Rightarrow> refuse why t
                | Inr _ \<Rightarrow>
                    if \<not> ex_recipe_source ex then refuse ''recipes are not available on this server'' t
                    else let t1 = does (AskedGrant recipe (cx_coworker cx)) t
                         in case sr_still_granted sr (tn_deeds t) recipe (cx_coworker cx) of
                              Inl why \<Rightarrow> refuse why t1
                            | Inr _ \<Rightarrow>
                                let t2 = does (AskedRequest recipe vals) t1
                                in case sr_request sr (tn_deeds t1) recipe vals of
                                     Inl why \<Rightarrow> refuse why t2
                                   | Inr (version, request) \<Rightarrow>
                                       let t3 = does (ClaimedRun recipe version (cx_coworker cx)) t2
                                       in case sr_claim sr (tn_deeds t2) recipe version (cx_coworker cx) of
                                            Inl why \<Rightarrow> refuse why t3
                                          | Inr claimed \<Rightarrow>
                                              play_recipe sr b screen cx i offer version
                                                (ask request (ex_observe ex)) claimed t3)"

section \<open>A plugin's tool\<close>

definition call_plugin_tool ::
  "surroundings \<Rightarrow> executor \<Rightarrow> string \<Rightarrow> string \<Rightarrow> json \<Rightarrow> turn \<Rightarrow> tool_result \<times> turn" where
  "call_plugin_tool sr ex i called arguments t =
     (let name = internal_tool_name ex called
      in case split_qualified name of
           None \<Rightarrow>
             (result_refused i
                (case find (\<lambda>kv. starts_with (openai_safe_tool_name (fst kv) @ ''_'') name) (ex_unavailable ex) of
                   Some kv \<Rightarrow> name @ '' cannot run now: '' @ clip_reason (snd kv)
                 | None \<Rightarrow> ''there is no tool called '' @ name), t)
         | Some (plugin, server, remote) \<Rightarrow>
             let key = plugin @ ''.'' @ server
             in case bm_get (ex_sessions ex) key of
                  None \<Rightarrow>
                    (result_refused i (plugin @ '' is not connected on this run'' @
                       (case bm_get (ex_unavailable ex) key of
                          Some reason \<Rightarrow> '' ('' @ clip_reason reason @ '')'' | None \<Rightarrow> []) @
                       '', so '' @ name @ '' cannot run''), t)
                | Some session \<Rightarrow>
                    let sent = call_arguments (strip_identity arguments)
                    in (case fst (session_call (sr_serde sr) (sr_deadlines sr) session remote
                                    (sr_call sr (tn_deeds t) session remote sent)) of
                          Inr content \<Rightarrow> result_ok i content
                        | Inl e \<Rightarrow> result_refused i (mcp_error_text e),
                        does (CalledPlugin session remote sent) t))"


section \<open>Execute\<close>

text \<open>The box a call is aimed at and the screen it is for; the group's only where the call says so.\<close>

definition aimed_at :: "tool_context \<Rightarrow> json \<Rightarrow> string + box_id \<times> screen_choice" where
  "aimed_at cx arguments =
     (if str_at arguments ''machine'' = Some ''group''
      then (case cx_group_box cx of
              Some grp \<Rightarrow> Inr (gb_box grp, SharedScreen)
            | None \<Rightarrow> Inl (''this conversation has no shared group computer; leave '' @ bq @ ''machine'' @ bq @
                        '' out to use your own''))
      else (case cx_box cx of
              Some b \<Rightarrow> Inr (b, cx_screen cx)
            | None \<Rightarrow> Inl ''this coworker has no computer yet, so nothing can be run''))"

text \<open>The built-in that is called, on an awake box; any other name is a plugin's tool.\<close>

definition run_builtin ::
  "surroundings \<Rightarrow> executor \<Rightarrow> tool_context \<Rightarrow> string \<Rightarrow> screen_choice \<Rightarrow> string \<Rightarrow> string \<Rightarrow> json \<Rightarrow>
   turn \<Rightarrow> tool_result \<times> turn" where
  "run_builtin sr ex cx b screen i name arguments t =
     (if name = run_recipe then
        (case read_run_recipe_args arguments of
           Some a \<Rightarrow> execute_recipe sr ex b screen cx i (ua_recipe a)
                       (case ua_values a of Some vs \<Rightarrow> vs | None \<Rightarrow> []) t
         | None \<Rightarrow> (refused_badly sr i ''RunRecipeArgs'' arguments, t))
      else if name = ''shell'' then
        (case read_shell_args arguments of
           Some a \<Rightarrow> run_shell sr b i a t
         | None \<Rightarrow> (refused_badly sr i ''ShellArgs'' arguments, t))
      else if name = ''read_file'' then
        (case str_at arguments ''path'' of
           Some file \<Rightarrow> read_file sr b i file t
         | None \<Rightarrow> (refused_badly sr i ''ReadFileArgs'' arguments, t))
      else if name = ''write_file'' then
        (case read_write_file_args arguments of
           Some a \<Rightarrow> write_file sr b i a t
         | None \<Rightarrow> (refused_badly sr i ''WriteFileArgs'' arguments, t))
      else if name = ''open_url'' then
        (case str_at arguments ''url'' of
           Some url \<Rightarrow> open_url sr ex b screen i url t
         | None \<Rightarrow> (refused_badly sr i ''OpenUrlArgs'' arguments, t))
      else if name = ''computer'' then
        (case read_computer_args arguments of
           Some a \<Rightarrow> computer_use sr ex b screen i a t
         | None \<Rightarrow> (refused_badly sr i ''ComputerArgs'' arguments, t))
      else call_plugin_tool sr ex i name arguments t)"

text \<open>The tunnel, asked about once the box is awake: a standing no refuses, otherwise a card.\<close>

definition after_wake ::
  "surroundings \<Rightarrow> executor \<Rightarrow> tool_call \<Rightarrow> string \<Rightarrow> json \<Rightarrow> string \<Rightarrow> turn \<Rightarrow> (tool_result + unit) \<times> turn" where
  "after_wake sr ex call name arguments b t =
     (let mode = (ex_egress_tunnel ex = AskTheBoxAfterWake);
          (never, t1) = (if mode \<and> name \<in> set BROWSER_TOOLS \<and> ex_egress_policy ex = EgressNever
                         then tunnel_is_there sr b t else (False, t))
      in if never then (Inl (result_refused (tc_id call) NETWORK_OFF), t1)
         else let (asks, t2) = (if mode \<and> tunnel_asks ex call name arguments \<and> \<not> gate_approved ex call
                                then tunnel_is_there sr b t1 else (False, t1))
              in if asks
                 then (Inl (result_awaiting (tc_id call) AwaitAutoReview EGRESS_TUNNEL_ASK_REASON), t2)
                 else (Inr (), t2))"

definition on_the_box ::
  "surroundings \<Rightarrow> executor \<Rightarrow> tool_context \<Rightarrow> tool_call \<Rightarrow> admitted \<Rightarrow> turn \<Rightarrow> tool_result \<times> turn" where
  "on_the_box sr ex cx call ad t =
     (case aimed_at cx (ad_arguments ad) of
        Inl why \<Rightarrow> (result_refused (tc_id call) why, t)
      | Inr (b, screen) \<Rightarrow>
          (case (if needs_the_box (ad_name ad) then ensure_awake sr ex (box_str b) t else (Inr (), t)) of
             (Inl down, t1) \<Rightarrow> (result_refused (tc_id call) down, t1)
           | (Inr _, t1) \<Rightarrow>
               (case after_wake sr ex call (ad_name ad) (ad_arguments ad) (box_str b) t1 of
                  (Inl r, t2) \<Rightarrow> (r, t2)
                | (Inr _, t2) \<Rightarrow>
                    (case ad_office ad of
                       Some asked \<Rightarrow>
                         (office_run (sr_serde sr) (sr_office sr (tn_deeds t2)) cx (box_str b) (tc_id call) asked,
                          does (DidOffice cx (box_str b) asked) t2)
                     | None \<Rightarrow> run_builtin sr ex cx (box_str b) screen (tc_id call) (ad_name ad) (ad_arguments ad) t2))))"

definition on_the_machine ::
  "surroundings \<Rightarrow> executor \<Rightarrow> tool_context \<Rightarrow> tool_call \<Rightarrow> string \<Rightarrow> turn \<Rightarrow> tool_result \<times> turn" where
  "on_the_machine sr ex cx call command t =
     (if \<not> ex_user_machine ex then (result_refused (tc_id call) NO_MACHINE, t)
      else (case sr_machine_run sr (tn_deeds t) (cx_account cx) command (tc_id call) (gate_approved ex call) of
              MachineRan said \<Rightarrow> result_ok (tc_id call) said
            | MachineRefused why \<Rightarrow> result_refused (tc_id call) why
            | MachineNeedsApproval \<Rightarrow> result_awaiting (tc_id call) AwaitExecConsent MACHINE_MUST_APPROVE,
            does (RanOnMachine (cx_account cx) command (tc_id call) (gate_approved ex call)) t))"

definition dispatch ::
  "surroundings \<Rightarrow> executor \<Rightarrow> tool_context \<Rightarrow> tool_call \<Rightarrow> admitted \<Rightarrow> turn \<Rightarrow> tool_result \<times> turn" where
  "dispatch sr ex cx call ad t =
     (let i = tc_id call; sd = sr_serde sr
      in case ad_command ad of
           Some command \<Rightarrow> on_the_machine sr ex cx call command t
         | None \<Rightarrow>
             (case ad_routine ad of
                Some (asked, _) \<Rightarrow>
                  (routine_run sd (sr_routines sr (tn_deeds t)) cx i asked, does (DidRoutine cx asked) t)
              | None \<Rightarrow>
                  (case ad_plugin ad of
                     Some (asked, _) \<Rightarrow>
                       (plugin_run sd (sr_plugins sr (tn_deeds t)) cx i asked, does (DidPlugin cx asked) t)
                   | None \<Rightarrow>
                       (case ad_computer ad of
                          Some (asked, _) \<Rightarrow>
                            (computer_run sd (sr_computer sr (tn_deeds t)) cx i asked, does (DidComputer cx asked) t)
                        | None \<Rightarrow>
                            (case ad_office ad of
                               Some (OfficeClose document) \<Rightarrow>
                                 (office_run_close sd (sr_office sr (tn_deeds t)) cx i document,
                                  does (ClosedOffice cx document) t)
                             | _ \<Rightarrow> on_the_box sr ex cx call ad t)))))"

text \<open>
  One call. The machine's own ask is answered by its sink, which is asked to run and answers that
  it needs a person.
\<close>

definition execute :: "surroundings \<Rightarrow> executor \<Rightarrow> tool_context \<Rightarrow> tool_call \<Rightarrow> turn \<Rightarrow> tool_result \<times> turn" where
  "execute sr ex cx call t =
     (case admit_call sr ex cx call (tn_deeds t) of
        Inl why \<Rightarrow> (result_refused (tc_id call) why, t)
      | Inr ad \<Rightarrow>
          (case gate_of_call sr ex cx ad t of
             (Inl why, t1) \<Rightarrow> (result_refused (tc_id call) why, t1)
           | (Inr g, t1) \<Rightarrow>
               (case before_review ex cx call ad g of
                  Inl r \<Rightarrow> (r, t1)
                | Inr _ \<Rightarrow>
                    (case review_of_call sr ex call ad g t1 of
                       (said, t2) \<Rightarrow>
                         (case combine g said (gate_approved ex call) of
                            OutcomeRefuse why \<Rightarrow> (result_refused (tc_id call) why, t2)
                          | OutcomeAsk reason why \<Rightarrow>
                              if reason = AwaitExecConsent \<and> ad_command ad \<noteq> None
                              then dispatch sr ex cx call ad t2
                              else (result_awaiting (tc_id call) reason why, t2)
                          | OutcomeRun \<Rightarrow> dispatch sr ex cx call ad t2)))))"

section \<open>Whether a call would wake the box\<close>

definition would_reach_the_box :: "executor \<Rightarrow> tool_context \<Rightarrow> tool_call \<Rightarrow> string \<Rightarrow> bool" where
  "would_reach_the_box ex cx call name \<longleftrightarrow>
     (if is_routine_tool name \<or> is_plugin_desk_tool name \<or> is_computer_tool name then False
      else let d = policy_decide (cx_account cx) (cx_coworker cx) (RunTool name) (ex_policy ex)
           in if decision_reason d \<noteq> None \<and> \<not> needs_approval d then False
              else if needs_approval d \<and> \<not> gate_approved ex call then False
              else if cx_screen_hold cx \<and> leaves_the_box name then False
              else if network_off ex \<and> leaves_the_box name then False
              else \<not> (ex_egress_tunnel ex = TunnelOn \<and> needs_egress_consent name (tc_arguments call) \<and>
                      review_inactive ex \<and> \<not> review_approved ex call \<and> \<not> egress_consented ex))"

definition box_needs_wake :: "surroundings \<Rightarrow> executor \<Rightarrow> tool_context \<Rightarrow> tool_call \<Rightarrow> turn \<Rightarrow> bool \<times> turn" where
  "box_needs_wake sr ex cx call t =
     (let name = internal_tool_name ex (tc_name call)
      in if ex_boxless ex then (False, t)
         else if \<not> needs_the_box name \<or> \<not> would_reach_the_box ex cx call name then (False, t)
         else case target_box cx (tc_arguments call) of
                None \<Rightarrow> (False, t)
              | Some b \<Rightarrow>
                  if bm_get (tn_woken t) (box_str b) \<noteq> None then (False, t)
                  else let t1 = does (AskedState (box_str b)) t
                       in case sr_state sr (tn_deeds t) (box_str b) of
                            Inr state \<Rightarrow>
                              if state = ''running'' then (False, remember_box (box_str b) (Inr ()) t1)
                              else (state \<noteq> ''absent'', t1)
                          | Inl _ \<Rightarrow> (True, t1))"

end
