(* ===== verification/Executor_Laws.thy ===== *)
theory Executor_Laws
  imports Executor Mcp_Laws
begin

text \<open>
  The laws of the executor: whose deeds a call's are, which gates stand before them, what a card
  has done when it is raised, when the judge is asked, and what a screen that is held, a tunnel and
  a box that is down mean for a call. \<open>does_only\<close> says what kind of deeds a step adds;
  \<open>execute_cases\<close> splits a call into those that only asked and those that were let through.
\<close>

section \<open>The deeds a step adds\<close>

definition does_only :: "(turn_deed \<Rightarrow> bool) \<Rightarrow> turn \<Rightarrow> turn \<Rightarrow> bool" where
  "does_only P t t' \<longleftrightarrow> (\<exists>ds. tn_deeds t' = ds @ tn_deeds t \<and> list_all P ds)"

lemma does_only_refl [simp]: "does_only P t t"
  by (simp add: does_only_def)

lemma does_only_trans: "does_only P t u \<Longrightarrow> does_only P u v \<Longrightarrow> does_only P t v"
  unfolding does_only_def by (metis append_assoc list_all_append)

lemma does_only_mono: "does_only P t u \<Longrightarrow> (\<And>d. P d \<Longrightarrow> Q d) \<Longrightarrow> does_only Q t u"
  unfolding does_only_def by (metis list.pred_mono_strong)

lemma does_only_does: "P d \<Longrightarrow> does_only P t (does d t)"
  by (auto simp: does_only_def does_def intro: exI [of _ "[d]"])

lemma does_only_then: "does_only P t u \<Longrightarrow> P d \<Longrightarrow> does_only P t (does d u)"
  using does_only_trans does_only_does by blast

lemma does_only_same_deeds: "does_only P t u \<Longrightarrow> tn_deeds v = tn_deeds u \<Longrightarrow> does_only P t v"
  by (simp add: does_only_def)

lemma does_deeds [simp]: "tn_deeds (does d t) = d # tn_deeds t"
  "tn_woken (does d t) = tn_woken t" "tn_failures (does d t) = tn_failures t"
  "tn_tunnels (does d t) = tn_tunnels t"
  by (simp_all add: does_def)

lemma remember_deeds [simp]: "tn_deeds (remember_box b found t) = tn_deeds t"
  "tn_failures (remember_box b found t) = tn_failures t"
  by (simp_all add: remember_box_def)

text \<open>A step on a box asks only that box.\<close>

lemma wake_now_does:
  assumes "P (AskedState b)" "P (Woke b)"
  shows "does_only P t (snd (wake_now sr b t))"
  using assms
  by (auto simp: wake_now_def Let_def intro!: does_only_then split: sum.splits)

lemma wake_now_keeps: "tn_failures (snd (wake_now sr b t)) = tn_failures t"
  by (auto simp: wake_now_def Let_def split: sum.splits)

lemma ensure_awake_does:
  assumes "P (AskedState b)" "P (Woke b)" "P (StampedInUse b)"
  shows "does_only P t (snd (ensure_awake sr ex b t))"
proof (cases "bm_get (tn_woken t) b")
  case None
  obtain found woke t1 where w: "wake_now sr b t = ((found, woke), t1)" by (metis surj_pair)
  have t1: "does_only P t t1" using wake_now_does [OF assms(1,2), of t sr] w by simp
  then have "does_only P t (if worth_remembering found then remember_box b found t1 else t1)"
    by (auto intro: does_only_same_deeds)
  with None w assms(3) show ?thesis by (auto simp: ensure_awake_def Let_def intro: does_only_then)
qed (simp add: ensure_awake_def)

lemma ensure_awake_keeps: "tn_failures (snd (ensure_awake sr ex b t)) = tn_failures t"
proof -
  obtain found woke t1 where w: "wake_now sr b t = ((found, woke), t1)" by (metis surj_pair)
  then have "tn_failures t1 = tn_failures t" using wake_now_keeps [of sr b t] by simp
  with w show ?thesis by (auto simp: ensure_awake_def Let_def split: option.splits)
qed

lemma tunnel_is_there_does: "P (AskedTunnel b) \<Longrightarrow> does_only P t (snd (tunnel_is_there sr b t))"
  by (auto simp: tunnel_is_there_def Let_def intro!: does_only_does
      does_only_same_deeds [OF does_only_does [of P "AskedTunnel b"]])

lemma tunnel_is_there_keeps: "tn_failures (snd (tunnel_is_there sr b t)) = tn_failures t"
  by (simp add: tunnel_is_there_def Let_def)

text \<open>The two questions after the wake, one after the other.\<close>

definition ask_tunnel_if :: "bool \<Rightarrow> surroundings \<Rightarrow> string \<Rightarrow> turn \<Rightarrow> bool \<times> turn" where
  "ask_tunnel_if c sr b t = (if c then tunnel_is_there sr b t else (False, t))"

lemma ask_tunnel_if_does: "P (AskedTunnel b) \<Longrightarrow> does_only P t (snd (ask_tunnel_if c sr b t))"
  by (simp add: ask_tunnel_if_def tunnel_is_there_does)

lemma ask_tunnel_if_keeps: "tn_failures (snd (ask_tunnel_if c sr b t)) = tn_failures t"
  by (simp add: ask_tunnel_if_def tunnel_is_there_keeps)

lemma after_wake_cases:
  obtains (never) t1 where
      "ask_tunnel_if (ex_egress_tunnel ex = AskTheBoxAfterWake \<and> name \<in> set BROWSER_TOOLS \<and>
         ex_egress_policy ex = EgressNever) sr b t = (True, t1)"
      "after_wake sr ex call name arguments b t = (Inl (result_refused (tc_id call) NETWORK_OFF), t1)"
  | (asked) t1 asks t2 where
      "ask_tunnel_if (ex_egress_tunnel ex = AskTheBoxAfterWake \<and> name \<in> set BROWSER_TOOLS \<and>
         ex_egress_policy ex = EgressNever) sr b t = (False, t1)"
      "ask_tunnel_if (ex_egress_tunnel ex = AskTheBoxAfterWake \<and> tunnel_asks ex call name arguments \<and>
         \<not> gate_approved ex call) sr b t1 = (asks, t2)"
      "after_wake sr ex call name arguments b t =
         (if asks then Inl (result_awaiting (tc_id call) AwaitAutoReview EGRESS_TUNNEL_ASK_REASON) else Inr (), t2)"
proof -
  obtain n t1 where n: "ask_tunnel_if (ex_egress_tunnel ex = AskTheBoxAfterWake \<and> name \<in> set BROWSER_TOOLS \<and>
         ex_egress_policy ex = EgressNever) sr b t = (n, t1)" by (metis surj_pair)
  obtain a t2 where a: "ask_tunnel_if (ex_egress_tunnel ex = AskTheBoxAfterWake \<and> tunnel_asks ex call name arguments \<and>
         \<not> gate_approved ex call) sr b t1 = (a, t2)" by (metis surj_pair)
  have e: "after_wake sr ex call name arguments b t =
      (if n then (Inl (result_refused (tc_id call) NETWORK_OFF), t1)
       else (if a then Inl (result_awaiting (tc_id call) AwaitAutoReview EGRESS_TUNNEL_ASK_REASON) else Inr (), t2))"
    unfolding after_wake_def Let_def n [unfolded ask_tunnel_if_def] prod.case a [unfolded ask_tunnel_if_def] by simp
  show thesis
  proof (cases n)
    case True
    with n e that(1) show thesis by simp
  next
    case False
    with n a e that(2) show thesis by simp
  qed
qed

lemma after_wake_does:
  assumes "P (AskedTunnel b)"
  shows "does_only P t (snd (after_wake sr ex call name arguments b t))"
proof (cases rule: after_wake_cases [of ex name sr b t call arguments])
  case (never t1)
  then show ?thesis using ask_tunnel_if_does [of P b, OF assms] by (metis snd_conv)
next
  case (asked t1 asks t2)
  have "does_only P t t1" "does_only P t1 t2"
    using ask_tunnel_if_does [of P b, OF assms] asked(1,2) by (metis snd_conv)+
  with asked(3) show ?thesis by (simp add: does_only_trans [of P t t1])
qed

lemma after_wake_keeps: "tn_failures (snd (after_wake sr ex call name arguments b t)) = tn_failures t"
proof (cases rule: after_wake_cases [of ex name sr b t call arguments])
  case (never t1)
  then show ?thesis using ask_tunnel_if_keeps by (metis snd_conv)
next
  case (asked t1 asks t2)
  have "tn_failures t1 = tn_failures t" "tn_failures t2 = tn_failures t1"
    using ask_tunnel_if_keeps asked(1,2) by (metis snd_conv)+
  with asked(3) show ?thesis by simp
qed


section \<open>The deeds of a tool\<close>

lemma look_does: "P (TookShot b screen) \<Longrightarrow> does_only P t (snd (look sr b screen i acted said t))"
  by (simp add: look_def does_only_does)

lemma computer_use_does:
  assumes "has_screen ex \<Longrightarrow> P (TookShot b screen)" "\<And>a. has_screen ex \<Longrightarrow> P (Acted b screen a)"
  shows "does_only P t (snd (computer_use sr ex b screen i a t))"
proof (cases "has_screen ex")
  case True
  show ?thesis
  proof (cases "into_action a")
    case (Inr found)
    show ?thesis
    proof (cases found)
      case None
      with True Inr assms(1) show ?thesis by (simp add: computer_use_def look_does)
    next
      case (Some action)
      have one: "does_only P t (does (Acted b screen action) t)" by (rule does_only_does) (rule assms(2) [OF True])
      then have "does_only P t (snd (look sr b screen i True (describe_action action @ ''; '') (does (Acted b screen action) t)))"
        by (rule does_only_trans) (simp add: look_does assms(1) True)
      with True Inr Some one show ?thesis by (simp add: computer_use_def Let_def split: sum.split)
    qed
  qed (simp add: computer_use_def)
qed (simp add: computer_use_def)

lemma play_recipe_does:
  assumes "P (PlayedRecipe b screen request)"
    "\<And>receipt claimed. P (RecordedRun (ro_id offer) version (cx_coworker cx) receipt claimed)"
  shows "does_only P t (snd (play_recipe sr b screen cx i offer version request claimed t))"
  using assms
  by (auto simp: play_recipe_def Let_def intro!: does_only_then split: sum.split box_error.split)

lemma execute_recipe_does:
  assumes play: "\<And>request. P (PlayedRecipe b screen request)"
    and own: "\<And>r v receipt c. P (RecordedRun r v (cx_coworker cx) receipt c)" "\<And>r. P (AskedGrant r (cx_coworker cx))"
      "\<And>r vs. P (AskedRequest r vs)" "\<And>r v. P (ClaimedRun r v (cx_coworker cx))"
  shows "does_only P t (snd (execute_recipe sr ex b screen cx i recipe given t))"
proof -
  have p: "does_only P u v \<Longrightarrow> does_only P u (snd (play_recipe sr b screen cx i offer version request claimed v))"
    for u v offer version request claimed
    by (erule does_only_trans) (rule play_recipe_does; rule play own)
  show ?thesis
    by (auto simp: execute_recipe_def Let_def own intro!: does_only_then p split: option.split sum.split)
qed

text \<open>What a plugin's server is sent holds no identity key.\<close>

definition free_of_identity :: "(string \<times> json) list option \<Rightarrow> bool" where
  "free_of_identity sent \<longleftrightarrow> (case sent of Some m \<Rightarrow> \<forall>k\<in>set IDENTITY_KEYS. map_of m k = None | None \<Rightarrow> True)"

definition distinct_members :: "json \<Rightarrow> bool" where
  "distinct_members v \<longleftrightarrow> (case v of JObject m \<Rightarrow> distinct (map fst m) | _ \<Rightarrow> True)"

lemma overwrite_identity_distinct:
  assumes "distinct_members v"
  shows "\<exists>m. overwrite_identity v cx = JObject m \<and> distinct (map fst m)"
proof -
  define m where "m = (case v of JObject m \<Rightarrow> m | _ \<Rightarrow> [])"
  have "distinct (map fst m)" using assms by (cases v) (simp_all add: m_def distinct_members_def)
  then have "distinct (map fst (jm_remove_all IDENTITY_KEYS m))" using jm_remove_all_sound by blast
  then show ?thesis
    by (auto simp: overwrite_identity_def Let_def m_def [symmetric] split: option.split intro!: jm_insert_distinct)
qed

lemma stripped_is_free:
  assumes "distinct_members v"
  shows "free_of_identity (call_arguments (strip_identity (overwrite_identity v cx)))"
proof -
  obtain m where m: "overwrite_identity v cx = JObject m" "distinct (map fst m)"
    using overwrite_identity_distinct [OF assms] by blast
  have "map_of (jm_remove_all IDENTITY_KEYS m) k = None" if "k \<in> set IDENTITY_KEYS" for k
    using jm_remove_all_sound [OF m(2), of IDENTITY_KEYS] that by (auto simp: map_of_eq_None_iff image_iff)
  then show ?thesis
    by (simp add: m(1) strip_identity_def call_arguments_def free_of_identity_def)
qed

lemma call_plugin_does:
  assumes "\<And>s remote. s \<in> snd ` set (ex_sessions ex) \<Longrightarrow>
    P (CalledPlugin s remote (call_arguments (strip_identity arguments)))"
  shows "does_only P t (snd (call_plugin_tool sr ex i called arguments t))"
  using assms bm_get_member
  by (fastforce simp: call_plugin_tool_def Let_def intro!: does_only_does split: option.split prod.split)


lemma run_builtin_does:
  assumes "\<And>c n. name = ''shell'' \<Longrightarrow> P (RanCommand b c n)"
    and "\<And>f. name = ''read_file'' \<Longrightarrow> P (ReadFile b f)"
    and "\<And>f c. name = ''write_file'' \<Longrightarrow> P (WroteFile b f c)"
    and "\<And>u. name = ''open_url'' \<Longrightarrow> has_screen ex \<Longrightarrow> P (OpenedUrl b screen u)"
    and "\<And>a. name = ''computer'' \<Longrightarrow> has_screen ex \<Longrightarrow> P (Acted b screen a)"
    and "name = ''computer'' \<Longrightarrow> has_screen ex \<Longrightarrow> P (TookShot b screen)"
    and "\<And>request. name = run_recipe \<Longrightarrow> P (PlayedRecipe b screen request)"
    and "\<And>r v receipt c. P (RecordedRun r v (cx_coworker cx) receipt c)"
    and "\<And>r. P (AskedGrant r (cx_coworker cx))" "\<And>r vs. P (AskedRequest r vs)"
    and "\<And>r v. P (ClaimedRun r v (cx_coworker cx))"
    and "\<And>s remote. s \<in> snd ` set (ex_sessions ex) \<Longrightarrow>
      P (CalledPlugin s remote (call_arguments (strip_identity arguments)))"
  shows "does_only P t (snd (run_builtin sr ex cx b screen i name arguments t))"
proof -
  consider (recipe) "name = run_recipe" | (shell) "name = ''shell''" | (read) "name = ''read_file''"
    | (writing) "name = ''write_file''" | (url) "name = ''open_url''" | (computer) "name = ''computer''"
    | (other) "name \<noteq> run_recipe" "name \<noteq> ''shell''" "name \<noteq> ''read_file''" "name \<noteq> ''write_file''"
        "name \<noteq> ''open_url''" "name \<noteq> ''computer''"
    by blast
  then show ?thesis
  proof cases
    case recipe
    have "does_only P t (snd (execute_recipe sr ex b screen cx i r vs t))" for r vs
      by (rule execute_recipe_does) (rule assms recipe)+
    with recipe show ?thesis by (simp add: run_builtin_def split: option.split)
  next
    case shell
    with assms(1) [OF shell] show ?thesis
      by (auto simp: run_builtin_def run_recipe_def run_shell_def intro: does_only_does split: option.split)
  next
    case read
    with assms(2) [OF read] show ?thesis
      by (auto simp: run_builtin_def run_recipe_def read_file_def intro: does_only_does split: option.split)
  next
    case writing
    with assms(3) [OF writing] show ?thesis
      by (auto simp: run_builtin_def run_recipe_def write_file_def intro: does_only_does split: option.split)
  next
    case url
    with assms(4) [OF url] show ?thesis
      by (auto simp: run_builtin_def run_recipe_def open_url_def intro: does_only_does split: option.split)
  next
    case computer
    have "does_only P t (snd (computer_use sr ex b screen i a t))" for a
      by (rule computer_use_does) (rule assms computer | assumption)+
    with computer show ?thesis by (simp add: run_builtin_def run_recipe_def split: option.split)
  next
    case other
    then show ?thesis by (simp add: run_builtin_def call_plugin_does assms(12))
  qed
qed

section \<open>What a result says\<close>

definition answered_as :: "string \<Rightarrow> tool_result \<Rightarrow> bool" where
  "answered_as i r \<longleftrightarrow>
     tr_call_id r = i \<and> (tr_awaiting_approval r \<longleftrightarrow> tr_awaiting_reason r \<noteq> None) \<and>
     (tr_ok r \<longrightarrow> \<not> tr_awaiting_approval r \<and> \<not> tr_stopped_part_way r) \<and>
     (tr_awaiting_approval r \<longrightarrow> \<not> tr_stopped_part_way r)"

definition settled :: "string \<Rightarrow> tool_result \<Rightarrow> bool" where
  "settled i r \<longleftrightarrow> answered_as i r \<and> \<not> tr_awaiting_approval r"

lemma answers_simps [simp]:
  "answered_as i (result_ok i c)" "answered_as i (result_refused i c)" "answered_as i (result_awaiting i reason c)"
  "answered_as i (part_way (result_refused i c))" "answered_as i (with_image shot r) = answered_as i r"
  "answered_as i (office_frames reply r) = answered_as i r"
  by (simp_all add: answered_as_def result_ok_def result_refused_def result_awaiting_def part_way_def with_image_def
      office_frames_def)

lemma settled_simps [simp]:
  "settled i (result_ok i c)" "settled i (result_refused i c)" "settled i (part_way (result_refused i c))"
  "settled i (with_image shot r) = settled i r" "settled i (office_frames reply r) = settled i r"
  by (simp_all add: settled_def answered_as_def result_ok_def result_refused_def part_way_def with_image_def
      office_frames_def)

lemma result_fields [simp]:
  "\<not> tr_stopped_part_way (result_ok i c)" "\<not> tr_stopped_part_way (result_refused i c)"
  "\<not> tr_stopped_part_way (result_awaiting i reason c)" "tr_stopped_part_way (part_way r)"
  "\<not> tr_ok (result_refused i c)" "\<not> tr_ok (result_awaiting i reason c)" "tr_ok (result_ok i c)"
  "\<not> tr_awaiting_approval (result_refused i c)" "\<not> tr_awaiting_approval (result_ok i c)"
  "tr_stopped_part_way (with_image shot r) = tr_stopped_part_way r" "tr_ok (with_image shot r) = tr_ok r"
  "tr_stopped_part_way (office_frames reply r) = tr_stopped_part_way r"
  by (simp_all add: result_ok_def result_refused_def result_awaiting_def part_way_def with_image_def
      office_frames_def)

lemma settled_answers: "settled i r \<Longrightarrow> answered_as i r"
  by (simp add: settled_def)

section \<open>Whose deeds a call's are\<close>

definition aims :: "tool_context \<Rightarrow> json \<Rightarrow> string \<Rightarrow> screen_choice \<Rightarrow> bool" where
  "aims cx arguments b screen \<longleftrightarrow> (\<exists>x. aimed_at cx arguments = Inr (x, screen) \<and> b = box_str x)"

text \<open>The tools that act on a screen and run only where it is not held.\<close>

definition on_free_screen :: "executor \<Rightarrow> tool_context \<Rightarrow> json \<Rightarrow> string \<Rightarrow> screen_choice \<Rightarrow> bool" where
  "on_free_screen ex cx arguments b screen \<longleftrightarrow>
     aims cx arguments b screen \<and> \<not> cx_screen_hold cx \<and> \<not> network_off ex"

fun own_deed :: "surroundings \<Rightarrow> executor \<Rightarrow> tool_context \<Rightarrow> tool_call \<Rightarrow> turn_deed \<Rightarrow> bool" where
  "own_deed sr ex cx call d =
     (let arguments = overwrite_identity (tc_arguments call) cx;
          here = (\<lambda>b. \<exists>screen. aims cx arguments b screen)
      in case d of
           AskedState b \<Rightarrow> here b
         | Woke b \<Rightarrow> here b
         | StampedInUse b \<Rightarrow> here b
         | AskedTunnel b \<Rightarrow> here b
         | RanCommand b _ _ \<Rightarrow> here b
         | ReadFile b _ \<Rightarrow> here b
         | WroteFile b _ _ \<Rightarrow> here b
         | OpenedUrl b screen _ \<Rightarrow> on_free_screen ex cx arguments b screen \<and> has_screen ex
         | Acted b screen _ \<Rightarrow> on_free_screen ex cx arguments b screen \<and> has_screen ex
         | TookShot b screen \<Rightarrow> on_free_screen ex cx arguments b screen \<and> has_screen ex
         | PlayedRecipe b screen _ \<Rightarrow> on_free_screen ex cx arguments b screen
         | AskedGrant _ cw \<Rightarrow> cw = cx_coworker cx
         | AskedRequest _ _ \<Rightarrow> True
         | ClaimedRun _ _ cw \<Rightarrow> cw = cx_coworker cx
         | RecordedRun _ _ cw _ _ \<Rightarrow> cw = cx_coworker cx
         | AskedJudge a \<Rightarrow>
             ra_call_id a = tc_id call \<and> ra_tool a = internal_tool_name ex (tc_name call) \<and>
             ra_arguments a = redact_arguments (sr_serde sr) arguments
         | AskedMachine who _ \<Rightarrow> who = cx_account cx
         | RanOnMachine who _ i approved \<Rightarrow>
             who = cx_account cx \<and> i = tc_id call \<and> (approved \<longleftrightarrow> tc_id call \<in> ex_approved ex)
         | DidRoutine cx' _ \<Rightarrow> cx' = cx
         | DidPlugin cx' _ \<Rightarrow> cx' = cx
         | DidComputer cx' _ \<Rightarrow> cx' = cx
         | DidOffice cx' b _ \<Rightarrow> cx' = cx \<and> here b
         | ClosedOffice cx' _ \<Rightarrow> cx' = cx
         | CalledPlugin s _ sent \<Rightarrow>
             s \<in> snd ` set (ex_sessions ex) \<and> (distinct_members (tc_arguments call) \<longrightarrow> free_of_identity sent))"

declare own_deed.simps [simp del]

text \<open>What \<open>admit_call\<close> lets through.\<close>

lemma admit_call_fields:
  assumes "admit_call sr ex cx call tr = Inr ad"
  shows "ad_arguments ad = overwrite_identity (tc_arguments call) cx" "ad_name ad = internal_tool_name ex (tc_name call)"
    "as_object (tc_arguments call) \<noteq> None" "ad_command ad \<noteq> None \<longleftrightarrow> ad_name ad = user_machine_shell"
    "ex_boxless ex \<longrightarrow> ad_name ad \<notin> set builtin_tool_names"
  using assms
  by (auto simp: admit_call_def Let_def read_command_def split: if_splits option.splits)


lemma on_the_box_cases:
  obtains (nowhere) why where "aimed_at cx (ad_arguments ad) = Inl why"
      "on_the_box sr ex cx call ad t = (result_refused (tc_id call) why, t)"
  | (down) b screen why t1 where "aimed_at cx (ad_arguments ad) = Inr (b, screen)" "needs_the_box (ad_name ad)"
      "ensure_awake sr ex (box_str b) t = (Inl why, t1)"
      "on_the_box sr ex cx call ad t = (result_refused (tc_id call) why, t1)"
  | (tunnel) b screen t1 r t2 where "aimed_at cx (ad_arguments ad) = Inr (b, screen)"
      "t1 = snd (if needs_the_box (ad_name ad) then ensure_awake sr ex (box_str b) t else (Inr (), t))"
      "after_wake sr ex call (ad_name ad) (ad_arguments ad) (box_str b) t1 = (Inl r, t2)"
      "on_the_box sr ex cx call ad t = (r, t2)"
  | (office) b screen t1 t2 asked where "aimed_at cx (ad_arguments ad) = Inr (b, screen)"
      "t1 = snd (if needs_the_box (ad_name ad) then ensure_awake sr ex (box_str b) t else (Inr (), t))"
      "after_wake sr ex call (ad_name ad) (ad_arguments ad) (box_str b) t1 = (Inr (), t2)"
      "ad_office ad = Some asked"
      "on_the_box sr ex cx call ad t =
         (office_run (sr_serde sr) (sr_office sr (tn_deeds t2)) cx (box_str b) (tc_id call) asked,
          does (DidOffice cx (box_str b) asked) t2)"
  | (builtin) b screen t1 t2 where "aimed_at cx (ad_arguments ad) = Inr (b, screen)"
      "t1 = snd (if needs_the_box (ad_name ad) then ensure_awake sr ex (box_str b) t else (Inr (), t))"
      "after_wake sr ex call (ad_name ad) (ad_arguments ad) (box_str b) t1 = (Inr (), t2)"
      "ad_office ad = None"
      "on_the_box sr ex cx call ad t =
         run_builtin sr ex cx (box_str b) screen (tc_id call) (ad_name ad) (ad_arguments ad) t2"
proof (cases "aimed_at cx (ad_arguments ad)")
  case (Inl why)
  with nowhere show thesis by (simp add: on_the_box_def)
next
  case (Inr at)
  obtain b screen where at: "at = (b, screen)" by (cases at)
  define woken where "woken = (if needs_the_box (ad_name ad) then ensure_awake sr ex (box_str b) t else (Inr (), t))"
  obtain found t1 where w: "woken = (found, t1)" by (cases woken)
  show thesis
  proof (cases found)
    case (Inl why)
    then have "needs_the_box (ad_name ad)" "ensure_awake sr ex (box_str b) t = (Inl why, t1)"
      using w woken_def by (auto split: if_splits)
    moreover have "on_the_box sr ex cx call ad t = (result_refused (tc_id call) why, t1)"
      using Inr at w Inl by (simp add: on_the_box_def woken_def)
    ultimately show thesis using down Inr at by blast
  next
    case up: (Inr u)
    obtain c t2 where c: "after_wake sr ex call (ad_name ad) (ad_arguments ad) (box_str b) t1 = (c, t2)"
      by (metis surj_pair)
    have t1: "t1 = snd (if needs_the_box (ad_name ad) then ensure_awake sr ex (box_str b) t else (Inr (), t))"
      using w woken_def by simp
    have e: "on_the_box sr ex cx call ad t =
       (case c of
          Inl r \<Rightarrow> (r, t2)
        | Inr _ \<Rightarrow>
            (case ad_office ad of
               Some asked \<Rightarrow>
                 (office_run (sr_serde sr) (sr_office sr (tn_deeds t2)) cx (box_str b) (tc_id call) asked,
                  does (DidOffice cx (box_str b) asked) t2)
             | None \<Rightarrow> run_builtin sr ex cx (box_str b) screen (tc_id call) (ad_name ad) (ad_arguments ad) t2))"
      using w up unfolding on_the_box_def Inr at sum.case prod.case woken_def [symmetric]
      by (simp add: c split: sum.split)
    show thesis
    proof (cases c)
      case (Inl r)
      with e tunnel [OF _ t1] c Inr at show thesis by simp
    next
      case (Inr v)
      then have ok: "c = Inr ()" by simp
      show thesis
      proof (cases "ad_office ad")
        case None
        from builtin [OF _ t1 _ None] c ok e None \<open>aimed_at cx (ad_arguments ad) = Inr at\<close> at show thesis by simp
      next
        case (Some asked)
        from office [OF _ t1 _ Some] c ok e Some \<open>aimed_at cx (ad_arguments ad) = Inr at\<close> at show thesis by simp
      qed
    qed
  qed
qed

text \<open>A call either only asked, or every gate before the dispatch was passed.\<close>

definition let_through ::
  "surroundings \<Rightarrow> executor \<Rightarrow> tool_context \<Rightarrow> tool_call \<Rightarrow> turn \<Rightarrow> admitted \<Rightarrow> gate \<Rightarrow> turn \<Rightarrow>
   review_outcome option \<Rightarrow> turn \<Rightarrow> bool" where
  "let_through sr ex cx call t ad g t1 said t2 \<longleftrightarrow>
     admit_call sr ex cx call (tn_deeds t) = Inr ad \<and> gate_of_call sr ex cx ad t = (Inr g, t1) \<and>
     before_review ex cx call ad g = Inr () \<and> review_of_call sr ex call ad g t1 = (said, t2) \<and>
     (combine g said (gate_approved ex call) = OutcomeRun \<or>
      (\<exists>why. combine g said (gate_approved ex call) = OutcomeAsk AwaitExecConsent why) \<and> ad_command ad \<noteq> None)"

definition only_asks :: "surroundings \<Rightarrow> executor \<Rightarrow> tool_context \<Rightarrow> tool_call \<Rightarrow> turn_deed \<Rightarrow> bool" where
  "only_asks sr ex cx call d \<longleftrightarrow>
     own_deed sr ex cx call d \<and> (case d of AskedJudge _ \<Rightarrow> True | AskedMachine _ _ \<Rightarrow> True | _ \<Rightarrow> False)"

lemma gate_of_call_does:
  assumes "gate_of_call sr ex cx ad t = (g, t1)"
  shows "does_only (only_asks sr ex cx call) t t1 \<and> tn_failures t1 = tn_failures t \<and> tn_woken t1 = tn_woken t"
  using assms
  by (auto simp: gate_of_call_def machine_gate_def only_asks_def own_deed.simps split: option.splits if_splits
      intro: does_only_does)

lemma review_of_call_cases:
  assumes "review_of_call sr ex call ad g t1 = (said, t2)"
  obtains (unasked) "said = None" "t2 = t1"
      "(\<exists>why. g = GateDeny why) \<or> review_approved ex call \<or> review_inactive ex"
  | (judged) p outcome where "ex_auto_review ex = Some p" "is_active p" "\<not> review_approved ex call"
      "\<nexists>why. g = GateDeny why" "said = Some outcome"
      "ask_judge sr p (ad_name ad) (tc_id call) (ad_arguments ad) t1 = (outcome, t2)"
  using assms
  by (auto simp: review_of_call_def review_inactive_def split: gate.splits if_splits option.splits prod.splits)

text \<open>The judge is asked once, about this call, or not at all.\<close>

lemma ask_judge_cases:
  obtains (down) "JUDGE_DOWN_AFTER \<le> tn_failures t"
      "ask_judge sr p tool i arguments t = (ReviewBlock (judge_down_reason (tn_failures t)), t)"
  | (asked) outcome t' where "tn_failures t < JUDGE_DOWN_AFTER" "ask_judge sr p tool i arguments t = (outcome, t')"
      "tn_deeds t' = AskedJudge \<lparr>ra_call_id = i, ra_tool = tool,
         ra_arguments = redact_arguments (sr_serde sr) arguments, ra_allow = rp_allow p,
         ra_ask = rp_ask p, ra_block = rp_block p\<rparr> # tn_deeds t"
      "tn_woken t' = tn_woken t" "tn_failures t' \<le> tn_failures t + 1"
proof (cases "JUDGE_DOWN_AFTER \<le> tn_failures t")
  case True
  with down show thesis by (simp add: ask_judge_def)
next
  case False
  obtain outcome t' where o: "ask_judge sr p tool i arguments t = (outcome, t')" by (metis surj_pair)
  from False o have "tn_deeds t' = AskedJudge \<lparr>ra_call_id = i, ra_tool = tool,
         ra_arguments = redact_arguments (sr_serde sr) arguments, ra_allow = rp_allow p,
         ra_ask = rp_ask p, ra_block = rp_block p\<rparr> # tn_deeds t"
      "tn_woken t' = tn_woken t" "tn_failures t' \<le> tn_failures t + 1"
    by (auto simp: ask_judge_def Let_def split: review_verdict.splits)
  with False o asked show thesis by simp
qed

lemma review_of_call_does:
  assumes "review_of_call sr ex call ad g t1 = (said, t2)" "admit_call sr ex cx call tr = Inr ad"
  shows "does_only (only_asks sr ex cx call) t1 t2 \<and> tn_woken t2 = tn_woken t1"
  using assms(1)
proof (cases rule: review_of_call_cases)
  case (judged p outcome)
  show ?thesis
  proof (cases rule: ask_judge_cases [of t1 sr p "ad_name ad" "tc_id call" "ad_arguments ad"])
    case (asked outcome' t')
    moreover have "only_asks sr ex cx call (AskedJudge \<lparr>ra_call_id = tc_id call, ra_tool = ad_name ad,
       ra_arguments = redact_arguments (sr_serde sr) (ad_arguments ad), ra_allow = rp_allow p,
       ra_ask = rp_ask p, ra_block = rp_block p\<rparr>)"
      using admit_call_fields(1,2) [OF assms(2)] by (simp add: only_asks_def own_deed.simps)
    ultimately show ?thesis using judged(6) by (auto simp: does_only_def intro: exI [of _ "[_]"])
  qed (use judged in simp)
qed simp


lemma execute_cases:
  obtains (asked) t2 where "snd (execute sr ex cx call t) = t2"
      "does_only (only_asks sr ex cx call) t t2" "tn_woken t2 = tn_woken t" "\<not> tr_ok (fst (execute sr ex cx call t))"
      "answered_as (tc_id call) (fst (execute sr ex cx call t))" "\<not> tr_stopped_part_way (fst (execute sr ex cx call t))"
  | (through) ad g t1 said t2 where "let_through sr ex cx call t ad g t1 said t2"
      "execute sr ex cx call t = dispatch sr ex cx call ad t2"
proof (cases "admit_call sr ex cx call (tn_deeds t)")
  case (Inl why)
  with asked show thesis by (simp add: execute_def)
next
  case (Inr ad)
  note adm = Inr
  obtain gr t1 where gr: "gate_of_call sr ex cx ad t = (gr, t1)" by (metis surj_pair)
  note gd = gate_of_call_does [OF gr, of call]
  show thesis
  proof (cases gr)
    case (Inl why)
    with adm gr gd asked show thesis by (simp add: execute_def)
  next
    case (Inr g)
    note g = Inr
    show thesis
    proof (cases "before_review ex cx call ad g")
      case (Inl r)
      have "\<not> tr_ok r \<and> answered_as (tc_id call) r \<and> \<not> tr_stopped_part_way r"
        using Inl by (auto simp: before_review_def Let_def form_card_def tunnel_card_def split: if_splits gate.splits)
      with adm gr g gd Inl asked show thesis by (simp add: execute_def)
    next
      case (Inr u)
      obtain said t2 where rv: "review_of_call sr ex call ad g t1 = (said, t2)" by (metis surj_pair)
      from review_of_call_does [OF rv adm] gd have d: "does_only (only_asks sr ex cx call) t t2" "tn_woken t2 = tn_woken t"
        using does_only_trans by auto
      have e: "execute sr ex cx call t =
         (case combine g said (gate_approved ex call) of
            OutcomeRefuse why \<Rightarrow> (result_refused (tc_id call) why, t2)
          | OutcomeAsk reason why \<Rightarrow>
              if reason = AwaitExecConsent \<and> ad_command ad \<noteq> None then dispatch sr ex cx call ad t2
              else (result_awaiting (tc_id call) reason why, t2)
          | OutcomeRun \<Rightarrow> dispatch sr ex cx call ad t2)"
        using adm gr g Inr rv by (simp add: execute_def)
      have lt: "let_through sr ex cx call t ad g t1 said t2"
        if "combine g said (gate_approved ex call) = OutcomeRun \<or>
          (\<exists>why. combine g said (gate_approved ex call) = OutcomeAsk AwaitExecConsent why) \<and> ad_command ad \<noteq> None"
        using that adm gr g Inr rv by (simp add: let_through_def)
      show thesis
      proof (cases "combine g said (gate_approved ex call)")
        case OutcomeRun
        with e through lt show thesis by simp
      next
        case (OutcomeAsk reason why)
        show thesis
        proof (cases "reason = AwaitExecConsent \<and> ad_command ad \<noteq> None")
          case True
          with e OutcomeAsk through lt show thesis by simp
        next
          case False
          with e OutcomeAsk d asked show thesis by (simp only: gate_outcome.case if_False) simp
        qed
      next
        case (OutcomeRefuse why)
        with e d asked show thesis by simp
      qed
    qed
  qed
qed

text \<open>What a call let through a held screen or a network switched off can still be.\<close>

lemma let_through_facts:
  assumes "let_through sr ex cx call t ad g t1 said t2"
  shows "admit_call sr ex cx call (tn_deeds t) = Inr ad" "does_only (only_asks sr ex cx call) t t2"
    "tn_woken t2 = tn_woken t" "leaves_the_box (ad_name ad) \<longrightarrow> \<not> cx_screen_hold cx \<and> \<not> network_off ex"
    "ad_name ad \<noteq> REQUEST_USER_FORM"
proof -
  note lt = assms [unfolded let_through_def]
  show adm: "admit_call sr ex cx call (tn_deeds t) = Inr ad" using lt by blast
  have rv: "review_of_call sr ex call ad g t1 = (said, t2)" using lt by blast
  from review_of_call_does [OF rv adm] gate_of_call_does [of sr ex cx ad t "Inr g" t1 call] lt
  show "does_only (only_asks sr ex cx call) t t2" "tn_woken t2 = tn_woken t" using does_only_trans by auto
  show "leaves_the_box (ad_name ad) \<longrightarrow> \<not> cx_screen_hold cx \<and> \<not> network_off ex"
    "ad_name ad \<noteq> REQUEST_USER_FORM"
    using lt by (auto simp: before_review_def Let_def leaves_the_box_def BROWSER_TOOLS_def REQUEST_USER_FORM_def
        run_recipe_def split: if_splits)
qed

lemma only_asks_own: "only_asks sr ex cx call d \<Longrightarrow> own_deed sr ex cx call d"
  by (simp add: only_asks_def)

lemma on_the_box_own:
  assumes "ad_arguments ad = overwrite_identity (tc_arguments call) cx"
    and "leaves_the_box (ad_name ad) \<longrightarrow> \<not> cx_screen_hold cx \<and> \<not> network_off ex"
  shows "does_only (own_deed sr ex cx call) t (snd (on_the_box sr ex cx call ad t))"
proof -
  let ?P = "own_deed sr ex cx call"
  have here: "?P (AskedState (box_str b))" "?P (Woke (box_str b))" "?P (StampedInUse (box_str b))"
      "?P (AskedTunnel (box_str b))" "?P (RanCommand (box_str b) c n)" "?P (ReadFile (box_str b) f)"
      "?P (WroteFile (box_str b) f c)" "?P (DidOffice cx (box_str b) asked)"
    if "aimed_at cx (ad_arguments ad) = Inr (b, screen)" for b screen c n f asked
    using that by (auto simp: own_deed.simps aims_def assms(1))
  have screen: "?P (OpenedUrl (box_str b) screen u)" "?P (Acted (box_str b) screen a)" "?P (TookShot (box_str b) screen)"
    if "aimed_at cx (ad_arguments ad) = Inr (b, screen)" "leaves_the_box (ad_name ad)" "has_screen ex" for b screen u a
    using that assms(2) by (auto simp: own_deed.simps aims_def on_free_screen_def assms(1))
  have recipe: "?P (PlayedRecipe (box_str b) screen request)"
    if "aimed_at cx (ad_arguments ad) = Inr (b, screen)" "leaves_the_box (ad_name ad)" for b screen request
    using that assms(2) by (auto simp: own_deed.simps aims_def on_free_screen_def assms(1))
  have woken: "does_only ?P t (snd (if needs_the_box (ad_name ad) then ensure_awake sr ex (box_str b) t else (Inr (), t)))"
    if "aimed_at cx (ad_arguments ad) = Inr (b, screen)" for b screen
    using here(1-3) [OF that] by (simp add: ensure_awake_does)
  show ?thesis
  proof (cases rule: on_the_box_cases [of cx ad sr ex call t])
    case (down b screen why t1)
    then show ?thesis using woken [OF down(1)] by simp
  next
    case (tunnel b screen t1 r t2)
    have "does_only ?P t1 t2"
      using after_wake_does [of ?P "box_str b" t1 sr ex call "ad_name ad" "ad_arguments ad", OF here(4) [OF tunnel(1)]]
        tunnel(3) by simp
    then show ?thesis using does_only_trans [OF woken [OF tunnel(1)]] tunnel(2,4) by simp
  next
    case (office b screen t1 t2 asked)
    have "does_only ?P t1 t2"
      using after_wake_does [of ?P "box_str b" t1 sr ex call "ad_name ad" "ad_arguments ad", OF here(4) [OF office(1)]]
        office(3) by simp
    then have "does_only ?P t t2" using does_only_trans [OF woken [OF office(1)]] office(2) by simp
    then show ?thesis using office(5) here(8) [OF office(1)] by (simp add: does_only_then)
  next
    case (builtin b screen t1 t2)
    have "does_only ?P t1 t2"
      using after_wake_does [of ?P "box_str b" t1 sr ex call "ad_name ad" "ad_arguments ad", OF here(4) [OF builtin(1)]]
        builtin(3) by simp
    then have two: "does_only ?P t t2" using does_only_trans [OF woken [OF builtin(1)]] builtin(2) by simp
    have "does_only ?P t2 (snd (run_builtin sr ex cx (box_str b) screen (tc_id call) (ad_name ad) (ad_arguments ad) t2))"
    proof (rule run_builtin_does)
      show "?P (CalledPlugin s remote (call_arguments (strip_identity (ad_arguments ad))))"
        if "s \<in> snd ` set (ex_sessions ex)" for s remote
        using that stripped_is_free [of "tc_arguments call" cx] by (simp add: own_deed.simps assms(1))
    qed (use here [OF builtin(1)] screen [OF builtin(1)] recipe [OF builtin(1)] in \<open>simp_all add: leaves_the_box_def own_deed.simps\<close>)
    then show ?thesis using does_only_trans [OF two] builtin(5) by simp
  qed simp
qed


lemma dispatch_cases:
  obtains (machine) command where "ad_command ad = Some command"
      "dispatch sr ex cx call ad t = on_the_machine sr ex cx call command t"
  | (desk) r d where "ad_command ad = None" "dispatch sr ex cx call ad t = (r, does d t)" "settled (tc_id call) r"
      "\<not> tr_stopped_part_way r"
      "(\<exists>a. d = DidRoutine cx a) \<or> (\<exists>a. d = DidPlugin cx a) \<or> (\<exists>a. d = DidComputer cx a) \<or>
       (\<exists>i. d = ClosedOffice cx i)"
  | (box) "ad_command ad = None" "ad_routine ad = None" "ad_plugin ad = None" "ad_computer ad = None"
      "\<nexists>document. ad_office ad = Some (OfficeClose document)"
      "dispatch sr ex cx call ad t = on_the_box sr ex cx call ad t"
proof (cases "ad_command ad")
  case (Some command)
  with machine show thesis by (simp add: dispatch_def Let_def)
next
  case None
  note desk_simps = desk_result_def
  consider (r) x where "ad_routine ad = Some x" | (p) x where "ad_routine ad = None" "ad_plugin ad = Some x"
    | (c) x where "ad_routine ad = None" "ad_plugin ad = None" "ad_computer ad = Some x"
    | (o) document where "ad_routine ad = None" "ad_plugin ad = None" "ad_computer ad = None"
        "ad_office ad = Some (OfficeClose document)"
    | (b) "ad_routine ad = None" "ad_plugin ad = None" "ad_computer ad = None"
        "\<nexists>document. ad_office ad = Some (OfficeClose document)"
    by blast
  then show thesis
  proof cases
    case (r x)
    obtain asked card where x: "x = (asked, card)" by (cases x)
    have "dispatch sr ex cx call ad t =
        (routine_run (sr_serde sr) (sr_routines sr (tn_deeds t)) cx (tc_id call) asked, does (DidRoutine cx asked) t)"
      using None r x by (simp add: dispatch_def Let_def)
    then show thesis by (rule desk [OF None]) (auto simp: routine_run_def desk_simps split: sum.split)
  next
    case (p x)
    obtain asked card where x: "x = (asked, card)" by (cases x)
    have "dispatch sr ex cx call ad t =
        (plugin_run (sr_serde sr) (sr_plugins sr (tn_deeds t)) cx (tc_id call) asked, does (DidPlugin cx asked) t)"
      using None p x by (simp add: dispatch_def Let_def)
    then show thesis by (rule desk [OF None]) (auto simp: plugin_run_def desk_simps split: sum.split)
  next
    case (c x)
    obtain asked card where x: "x = (asked, card)" by (cases x)
    have "dispatch sr ex cx call ad t =
        (computer_run (sr_serde sr) (sr_computer sr (tn_deeds t)) cx (tc_id call) asked, does (DidComputer cx asked) t)"
      using None c x by (simp add: dispatch_def Let_def)
    then show thesis
      by (rule desk [OF None])
        (auto simp: computer_run_def desk_simps split: sum.split computer_ask.split prod.split)
  next
    case (o document)
    have "dispatch sr ex cx call ad t =
        (office_run_close (sr_serde sr) (sr_office sr (tn_deeds t)) cx (tc_id call) document,
         does (ClosedOffice cx document) t)"
      using None o by (simp add: dispatch_def Let_def)
    then show thesis
      by (rule desk [OF None]) (auto simp: office_run_close_def split: sum.split)
  next
    case b
    have "dispatch sr ex cx call ad t = on_the_box sr ex cx call ad t"
      using None b by (auto simp: dispatch_def Let_def split: option.split office_ask.split)
    with None b box show thesis by simp
  qed
qed

lemma dispatch_own:
  assumes "ad_arguments ad = overwrite_identity (tc_arguments call) cx"
    and "leaves_the_box (ad_name ad) \<longrightarrow> \<not> cx_screen_hold cx \<and> \<not> network_off ex"
  shows "does_only (own_deed sr ex cx call) t (snd (dispatch sr ex cx call ad t))"
proof (cases rule: dispatch_cases [of ad sr ex cx call t])
  case (machine command)
  then show ?thesis
    by (auto simp: on_the_machine_def own_deed.simps gate_approved_def intro: does_only_does)
next
  case (desk r d)
  then show ?thesis by (auto simp: own_deed.simps intro: does_only_does)
next
  case box
  with on_the_box_own [OF assms] show ?thesis by simp
qed

lemma execute_own: "does_only (own_deed sr ex cx call) t (snd (execute sr ex cx call t))"
proof (cases rule: execute_cases [of sr ex cx call t])
  case (asked t2)
  from does_only_mono [OF asked(2) only_asks_own] asked(1) show ?thesis by simp
next
  case (through ad g t1 said t2)
  note facts = let_through_facts [OF through(1)]
  from dispatch_own [OF admit_call_fields(1) [OF facts(1)] facts(4), of sr t2]
    does_only_mono [OF facts(2) only_asks_own]
  show ?thesis unfolding through(2) by (rule does_only_trans [rotated])
qed


section \<open>Nothing runs unanswered\<close>

lemma policy_gate_clear:
  assumes "gate_rank yes (policy_gate ex cx tool words) = 0"
  shows "(is_allowed (policy_decide (cx_account cx) (cx_coworker cx) (RunTool tool) (ex_policy ex)) \<or>
      needs_approval (policy_decide (cx_account cx) (cx_coworker cx) (RunTool tool) (ex_policy ex)) \<and> yes) \<and>
    (words = None \<or> asks_unasked ex tool \<or> yes)"
  using assms
  by (cases "policy_decide (cx_account cx) (cx_coworker cx) (RunTool tool) (ex_policy ex)")
    (auto simp: policy_gate_def Let_def split: if_splits)

lemma policy_gate_deny:
  assumes "policy_decide (cx_account cx) (cx_coworker cx) (RunTool tool) (ex_policy ex) = Deny why"
  shows "policy_gate ex cx tool words = GateDeny (policy_reason_text why)"
  using assms by (simp add: policy_gate_def)

text \<open>The judge was asked about this call, as the executor shows it, and said allow.\<close>

definition judge_allowed :: "surroundings \<Rightarrow> executor \<Rightarrow> tool_context \<Rightarrow> tool_call \<Rightarrow> turn \<Rightarrow> bool" where
  "judge_allowed sr ex cx call t \<longleftrightarrow>
     tn_failures t < JUDGE_DOWN_AFTER \<and>
     (\<exists>p. ex_auto_review ex = Some p \<and>
        sr_judge sr (tn_deeds t)
          \<lparr>ra_call_id = tc_id call, ra_tool = internal_tool_name ex (tc_name call),
           ra_arguments = redact_arguments (sr_serde sr) (overwrite_identity (tc_arguments call) cx),
           ra_allow = rp_allow p, ra_ask = rp_ask p, ra_block = rp_block p\<rparr> = VerdictAllow)"

lemma ask_judge_allow:
  assumes "ask_judge sr p tool i arguments t = (ReviewAllow, t')"
  shows "tn_failures t < JUDGE_DOWN_AFTER \<and>
    sr_judge sr (tn_deeds t) \<lparr>ra_call_id = i, ra_tool = tool,
         ra_arguments = redact_arguments (sr_serde sr) arguments, ra_allow = rp_allow p,
         ra_ask = rp_ask p, ra_block = rp_block p\<rparr> = VerdictAllow"
  using assms
  by (auto simp: ask_judge_def Let_def split: if_splits review_verdict.splits)

text \<open>Off the person's machine: what stands behind a call that was dispatched.\<close>

definition answered :: "surroundings \<Rightarrow> executor \<Rightarrow> tool_context \<Rightarrow> tool_call \<Rightarrow> turn \<Rightarrow> bool" where
  "answered sr ex cx call t \<longleftrightarrow>
     (let tool = internal_tool_name ex (tc_name call);
          d = policy_decide (cx_account cx) (cx_coworker cx) (RunTool tool) (ex_policy ex);
          yes = (tc_id call \<in> ex_approved ex)
      in (is_allowed d \<or> needs_approval d \<and> yes) \<and>
         (\<exists>ad. admit_call sr ex cx call (tn_deeds t) = Inr ad \<and>
            (desk_card ad = None \<or> asks_unasked ex tool \<or> yes)) \<and>
         (review_inactive ex \<or> yes \<or> tc_id call \<in> ex_review_approved ex \<or> judge_allowed sr ex cx call t))"

lemma let_through_answered:
  assumes "let_through sr ex cx call t ad g t1 said t2" "internal_tool_name ex (tc_name call) \<noteq> user_machine_shell"
  shows "answered sr ex cx call t"
proof -
  note lt = assms(1) [unfolded let_through_def]
  have adm: "admit_call sr ex cx call (tn_deeds t) = Inr ad" using lt by blast
  note fields = admit_call_fields [OF adm]
  have none: "ad_command ad = None" using fields(2,4) assms(2) by simp
  then have g: "g = policy_gate ex cx (ad_name ad) (desk_card ad)" "t1 = t"
    using lt by (simp_all add: gate_of_call_def)
  have run: "combine g said (gate_approved ex call) = OutcomeRun" using lt none by blast
  then have rank: "gate_rank (gate_approved ex call) g = 0" and said: "said = None \<or> said = Some ReviewAllow"
    by (simp_all add: combine_run_iff)
  note clear = policy_gate_clear [OF rank [unfolded g(1)]]
  have rv: "review_of_call sr ex call ad g t = (said, t2)" using lt g(2) by blast
  then have "review_inactive ex \<or> review_approved ex call \<or> judge_allowed sr ex cx call t"
  proof (cases rule: review_of_call_cases)
    case unasked
    with rank show ?thesis by (auto simp: combine_run_iff)
  next
    case (judged p outcome)
    with said have "outcome = ReviewAllow" by simp
    with ask_judge_allow [of sr p "ad_name ad" "tc_id call" "ad_arguments ad" t t2] judged(1,6) fields(1,2)
    show ?thesis by (auto simp: judge_allowed_def)
  qed
  with clear adm show ?thesis
    by (auto simp: answered_def Let_def fields(2) gate_approved_def review_approved_def)
qed

lemma execute_answered:
  assumes "internal_tool_name ex (tc_name call) \<noteq> user_machine_shell"
  shows "does_only (only_asks sr ex cx call) t (snd (execute sr ex cx call t)) \<or> answered sr ex cx call t"
proof (cases rule: execute_cases [of sr ex cx call t])
  case (asked t2)
  then show ?thesis by simp
next
  case (through ad g t1 said t2)
  with let_through_answered [OF through(1) assms] show ?thesis by blast
qed

text \<open>A denial is a refusal in words, and nothing is asked or done for it.\<close>

lemma execute_denied:
  assumes "internal_tool_name ex (tc_name call) \<noteq> user_machine_shell"
    and "policy_decide (cx_account cx) (cx_coworker cx) (RunTool (internal_tool_name ex (tc_name call))) (ex_policy ex) = Deny why"
  shows "snd (execute sr ex cx call t) = t \<and> (\<exists>words. fst (execute sr ex cx call t) = result_refused (tc_id call) words)"
proof (cases "admit_call sr ex cx call (tn_deeds t)")
  case (Inl words)
  then show ?thesis by (auto simp: execute_def)
next
  case (Inr ad)
  note fields = admit_call_fields [OF Inr]
  have none: "ad_command ad = None" using fields(2,4) assms(1) by simp
  have g: "gate_of_call sr ex cx ad t = (Inr (GateDeny (policy_reason_text why)), t)"
    using policy_gate_deny [OF assms(2), of "desk_card ad"] none fields(2) by (simp add: gate_of_call_def)
  show ?thesis
  proof (cases "before_review ex cx call ad (GateDeny (policy_reason_text why))")
    case (Inl r)
    then have "\<exists>words. r = result_refused (tc_id call) words"
      by (auto simp: before_review_def Let_def form_card_def tunnel_card_def split: if_splits)
    with \<open>admit_call sr ex cx call (tn_deeds t) = Inr ad\<close> g Inl show ?thesis by (auto simp: execute_def)
  next
    case (Inr u)
    with \<open>admit_call sr ex cx call (tn_deeds t) = Inr ad\<close> g show ?thesis
      by (auto simp: execute_def review_of_call_def)
  qed
qed


section \<open>Every call is answered\<close>

lemma look_settled: "settled i (fst (look sr b screen i acted said t))"
  by (simp add: look_def split: sum.split)

lemma computer_use_settled: "settled i (fst (computer_use sr ex b screen i a t))"
  by (simp add: computer_use_def Let_def look_settled split: sum.split option.split)

lemma play_recipe_settled: "settled i (fst (play_recipe sr b screen cx i offer version request claimed t))"
  by (simp add: play_recipe_def Let_def receipt_result_def split: sum.split box_error.split option.split)

lemma execute_recipe_settled: "settled i (fst (execute_recipe sr ex b screen cx i recipe given t))"
  by (simp add: execute_recipe_def Let_def play_recipe_settled split: sum.split option.split prod.split)

lemma call_plugin_settled: "settled i (fst (call_plugin_tool sr ex i called arguments t))"
  by (simp add: call_plugin_tool_def Let_def split: sum.split option.split prod.split)

lemma run_builtin_settled: "settled i (fst (run_builtin sr ex cx b screen i name arguments t))"
  by (simp add: run_builtin_def refused_badly_def run_shell_def read_file_def write_file_def open_url_def
      computer_use_settled execute_recipe_settled call_plugin_settled split: sum.split option.split)

lemma on_the_box_answers: "answered_as (tc_id call) (fst (on_the_box sr ex cx call ad t))"
proof (cases rule: on_the_box_cases [of cx ad sr ex call t])
  case (tunnel b screen t1 r t2)
  from tunnel(3) have "answered_as (tc_id call) r"
    by (cases rule: after_wake_cases [of ex "ad_name ad" sr "box_str b" t1 call "ad_arguments ad"])
      (auto split: if_splits)
  with tunnel(4) show ?thesis by simp
next
  case (office b screen t1 t2 asked)
  then show ?thesis by (auto simp: office_run_def Let_def split: sum.split option.split)
next
  case (builtin b screen t1 t2)
  then show ?thesis by (simp add: settled_answers run_builtin_settled)
qed simp_all

lemma dispatch_answers: "answered_as (tc_id call) (fst (dispatch sr ex cx call ad t))"
proof (cases rule: dispatch_cases [of ad sr ex cx call t])
  case (machine command)
  then show ?thesis by (simp add: on_the_machine_def split: machine_reply.split)
next
  case (desk r d)
  with settled_answers [OF desk(3)] show ?thesis by simp
next
  case box
  with on_the_box_answers show ?thesis by simp
qed


lemma execute_answers: "answered_as (tc_id call) (fst (execute sr ex cx call t))"
proof (cases rule: execute_cases [of sr ex cx call t])
  case (through ad g t1 said t2)
  with dispatch_answers show ?thesis by simp
qed simp

section \<open>A card has done nothing yet\<close>

text \<open>
  The deeds that may stand behind a card: the gates were asked, the box was brought up, and the
  machine's own sink was asked to run and answered that its owner must approve.
\<close>

definition bides :: "surroundings \<Rightarrow> turn_deed \<Rightarrow> bool" where
  "bides sr d \<longleftrightarrow>
     (case d of
        AskedJudge _ \<Rightarrow> True
      | AskedMachine _ _ \<Rightarrow> True
      | AskedState _ \<Rightarrow> True
      | Woke _ \<Rightarrow> True
      | StampedInUse _ \<Rightarrow> True
      | AskedTunnel _ \<Rightarrow> True
      | RanOnMachine who command i approved \<Rightarrow> \<exists>tr. sr_machine_run sr tr who command i approved = MachineNeedsApproval
      | _ \<Rightarrow> False)"

lemma bides_simps [simp]:
  "bides sr (AskedState b)" "bides sr (Woke b)" "bides sr (StampedInUse b)" "bides sr (AskedTunnel b)"
  by (simp_all add: bides_def)

lemma only_asks_bides: "only_asks sr ex cx call d \<Longrightarrow> bides sr d"
  by (cases d) (simp_all add: only_asks_def bides_def)

lemma office_run_settled: "settled i (office_run sd desk cx b i asked)"
  by (simp add: office_run_def Let_def split: sum.split option.split)

lemma woken_bides:
  "does_only (bides sr) t (snd (if c then ensure_awake sr ex b t else (Inr (), t)))"
  by (simp add: ensure_awake_does)

lemma on_the_box_card:
  assumes "tr_awaiting_approval (fst (on_the_box sr ex cx call ad t))"
  shows "does_only (bides sr) t (snd (on_the_box sr ex cx call ad t))"
proof (cases rule: on_the_box_cases [of cx ad sr ex call t])
  case (tunnel b screen t1 r t2)
  have "does_only (bides sr) t1 t2"
    using after_wake_does [of "bides sr" "box_str b" t1 sr ex call "ad_name ad" "ad_arguments ad", OF bides_simps(4)]
      tunnel(3) by simp
  then have "does_only (bides sr) t t2"
    using does_only_trans [OF woken_bides] unfolding tunnel(2) by blast
  with tunnel(4) show ?thesis by simp
next
  case (office b screen t1 t2 asked)
  with assms office_run_settled [of "tc_id call"] show ?thesis by (simp add: settled_def)
next
  case (builtin b screen t1 t2)
  with assms run_builtin_settled [of "tc_id call"] show ?thesis by (simp add: settled_def)
qed (use assms in simp_all)

lemma execute_card:
  assumes "tr_awaiting_approval (fst (execute sr ex cx call t))"
  shows "does_only (bides sr) t (snd (execute sr ex cx call t))"
proof (cases rule: execute_cases [of sr ex cx call t])
  case (asked t2)
  with does_only_mono [OF asked(2) only_asks_bides] show ?thesis by simp
next
  case (through ad g t1 said t2)
  have before: "does_only (bides sr) t t2"
    using does_only_mono [OF let_through_facts(2) [OF through(1)] only_asks_bides] .
  have "does_only (bides sr) t2 (snd (dispatch sr ex cx call ad t2))"
  proof (cases rule: dispatch_cases [of ad sr ex cx call t2])
    case (machine command)
    with assms through(2) show ?thesis
      by (auto simp: on_the_machine_def bides_def intro!: does_only_does split: machine_reply.splits if_splits)
  next
    case (desk r d)
    with assms through(2) show ?thesis by (simp add: settled_def)
  next
    case box
    with assms through(2) on_the_box_card show ?thesis by simp
  qed
  with before through(2) show ?thesis using does_only_trans by simp
qed

section \<open>Part way means played\<close>

abbreviation played :: "turn_deed \<Rightarrow> bool" where
  "played d \<equiv> (case d of PlayedRecipe _ _ _ \<Rightarrow> True | _ \<Rightarrow> False)"

text \<open>The box was asked to play a recipe and said, for certain, that it did not.\<close>

definition box_never_played :: "surroundings \<Rightarrow> bool" where
  "box_never_played sr \<longleftrightarrow>
     (\<exists>tr b screen request e. sr_play sr tr b screen request = Inl e \<and> (\<forall>detail. e \<noteq> Interrupted detail))"

definition does_some :: "(turn_deed \<Rightarrow> bool) \<Rightarrow> turn \<Rightarrow> turn \<Rightarrow> bool" where
  "does_some P t t' \<longleftrightarrow> (\<exists>ds. tn_deeds t' = ds @ tn_deeds t \<and> list_ex P ds)"

lemma does_some_none: "does_only (\<lambda>d. \<not> P d) t u \<Longrightarrow> \<not> does_some P t u"
  by (auto simp: does_only_def does_some_def list_all_iff list_ex_iff)

lemma does_some_before: "does_only Q t u \<Longrightarrow> does_some P u v \<Longrightarrow> does_some P t v"
  by (force simp: does_only_def does_some_def list_ex_iff)

lemma does_some_after: "does_some P t u \<Longrightarrow> does_only Q u v \<Longrightarrow> does_some P t v"
  by (force simp: does_only_def does_some_def list_ex_iff)

lemma does_some_split:
  "does_only (\<lambda>d. \<not> P d) t u \<Longrightarrow> does_only Q u v \<Longrightarrow> does_some P t v \<longleftrightarrow> does_some P u v"
  by (force simp: does_only_def does_some_def list_all_iff list_ex_iff)

lemma does_some_does: "P d \<Longrightarrow> does_some P t (does d t)"
  by (auto simp: does_some_def intro: exI [of _ "[d]"])

text \<open>What a step's result says of a recipe it played.\<close>

definition play_shows :: "surroundings \<Rightarrow> tool_result \<Rightarrow> turn \<Rightarrow> turn \<Rightarrow> bool" where
  "play_shows sr r t t' \<longleftrightarrow>
     (if does_some played t t' then tr_ok r \<or> tr_stopped_part_way r \<or> box_never_played sr
      else \<not> tr_stopped_part_way r)"

lemma play_shows_unplayed:
  "does_only (\<lambda>d. \<not> played d) t u \<Longrightarrow> \<not> tr_stopped_part_way r \<Longrightarrow> play_shows sr r t u"
  using does_some_none by (auto simp: play_shows_def)

lemma play_shows_after:
  assumes "does_only (\<lambda>d. \<not> played d) t u" "does_only Q u v" "play_shows sr r u v"
  shows "play_shows sr r t v"
  using assms does_some_split [OF assms(1,2)] by (simp add: play_shows_def)

lemma play_recipe_shows:
  "play_shows sr (fst (play_recipe sr b screen cx i offer version request claimed t)) t
     (snd (play_recipe sr b screen cx i offer version request claimed t))"
proof -
  let ?t' = "snd (play_recipe sr b screen cx i offer version request claimed t)"
  have one: "does_some played t (does (PlayedRecipe b screen request) t)" by (rule does_some_does) simp
  then have two: "does_some played t (does d (does (PlayedRecipe b screen request) t))" for d
    using does_some_after [of played t _ "\<lambda>_. True", OF _ does_only_does] by blast
  have "does_some played t ?t'"
    using one two by (simp add: play_recipe_def Let_def split: sum.split box_error.split)
  moreover have "tr_ok r \<or> tr_stopped_part_way r \<or> box_never_played sr"
    if "r = fst (play_recipe sr b screen cx i offer version request claimed t)" for r
  proof (cases "sr_play sr (tn_deeds t) b screen request")
    case (Inl e)
    show ?thesis
    proof (cases "\<exists>detail. e = Interrupted detail")
      case True
      with Inl that show ?thesis by (auto simp: play_recipe_def Let_def)
    next
      case False
      with Inl have "box_never_played sr" unfolding box_never_played_def by blast
    then show ?thesis by simp
    qed
  next
    case (Inr raw)
    with that show ?thesis
      by (auto simp: play_recipe_def Let_def receipt_result_def split: option.split)
  qed
  ultimately show ?thesis by (simp add: play_shows_def)
qed


lemma execute_recipe_shows:
  "play_shows sr (fst (execute_recipe sr ex b screen cx i recipe given t)) t
     (snd (execute_recipe sr ex b screen cx i recipe given t))"
proof -
  let ?N = "\<lambda>d. \<not> played d"
  have refuse: "play_shows sr (result_refused i why) t u" if "does_only ?N t u" for why u
    using that by (rule play_shows_unplayed) simp
  have one: "does_only ?N t (does (AskedGrant r c) t)" for r c by (rule does_only_does) simp
  then have two: "does_only ?N t (does (AskedRequest r' vs) (does (AskedGrant r c) t))" for r c r' vs
    by (rule does_only_then) simp
  then have three: "does_only ?N t (does (ClaimedRun r'' v c') (does (AskedRequest r' vs) (does (AskedGrant r c) t)))"
    for r c r' vs r'' v c'
    by (rule does_only_then) simp
  have "does_only (\<lambda>_. True) u (snd (play_recipe sr b screen cx i offer version request claimed u))"
    for u offer version request claimed
    by (rule play_recipe_does) simp_all
  then have play: "play_shows sr (fst (play_recipe sr b screen cx i offer version request claimed u)) t
      (snd (play_recipe sr b screen cx i offer version request claimed u))" if "does_only ?N t u"
    for u offer version request claimed
    using play_shows_after [OF that _ play_recipe_shows] by blast
  show ?thesis
    by (auto simp: execute_recipe_def Let_def intro!: refuse one two three play split: option.split sum.split)
qed

lemma computer_use_whole: "\<not> tr_stopped_part_way (fst (computer_use sr ex b screen i a t))"
proof -
  have "\<not> tr_stopped_part_way (fst (look sr b screen i acted said u))" for acted said u
    by (simp add: look_def split: sum.split)
  then show ?thesis by (simp add: computer_use_def Let_def split: sum.split option.split)
qed

lemma call_plugin_whole: "\<not> tr_stopped_part_way (fst (call_plugin_tool sr ex i called arguments t))"
  by (simp add: call_plugin_tool_def Let_def split: sum.split option.split prod.split)

lemma run_builtin_shows:
  "play_shows sr (fst (run_builtin sr ex cx b screen i name arguments t)) t
     (snd (run_builtin sr ex cx b screen i name arguments t))"
proof (cases "name = run_recipe")
  case True
  have "play_shows sr (result_refused i why) t t" for why by (rule play_shows_unplayed) simp_all
  with True execute_recipe_shows show ?thesis by (simp add: run_builtin_def refused_badly_def split: option.split)
next
  case False
  have "does_only (\<lambda>d. \<not> played d) t (snd (run_builtin sr ex cx b screen i name arguments t))"
    by (rule run_builtin_does) (simp_all add: False)
  moreover have "\<not> tr_stopped_part_way (fst (run_builtin sr ex cx b screen i name arguments t))"
    using False
    by (simp add: run_builtin_def refused_badly_def run_shell_def read_file_def write_file_def open_url_def
        computer_use_whole call_plugin_whole split: sum.split option.split)
  ultimately show ?thesis by (rule play_shows_unplayed)
qed

lemma woken_unplayed:
  "does_only (\<lambda>d. \<not> played d) t (snd (if c then ensure_awake sr ex b t else (Inr (), t)))"
  by (simp add: ensure_awake_does)

lemma after_wake_unplayed:
  assumes "after_wake sr ex call name arguments b t1 = (c, t2)"
  shows "does_only (\<lambda>d. \<not> played d) t1 t2"
  using after_wake_does [of "\<lambda>d. \<not> played d" b t1 sr ex call name arguments] assms by simp

lemma on_the_box_shows:
  "play_shows sr (fst (on_the_box sr ex cx call ad t)) t (snd (on_the_box sr ex cx call ad t))"
proof (cases rule: on_the_box_cases [of cx ad sr ex call t])
  case (nowhere why)
  then show ?thesis by (simp add: play_shows_unplayed)
next
  case (down b screen why t1)
  have "does_only (\<lambda>d. \<not> played d) t t1"
    using woken_unplayed [of t True sr ex "box_str b"] down(3) by simp
  with down(4) show ?thesis by (simp add: play_shows_unplayed)
next
  case (tunnel b screen t1 r t2)
  have "does_only (\<lambda>d. \<not> played d) t t2"
    using does_only_trans [OF woken_unplayed [of t "needs_the_box (ad_name ad)" sr ex "box_str b", folded tunnel(2)]
      after_wake_unplayed [OF tunnel(3)]] .
  moreover from tunnel(3) have "\<not> tr_stopped_part_way r"
    by (cases rule: after_wake_cases [of ex "ad_name ad" sr "box_str b" t1 call "ad_arguments ad"])
      (auto split: if_splits)
  ultimately show ?thesis using tunnel(4) by (simp add: play_shows_unplayed)
next
  case (office b screen t1 t2 asked)
  have "does_only (\<lambda>d. \<not> played d) t t2"
    using does_only_trans [OF woken_unplayed [of t "needs_the_box (ad_name ad)" sr ex "box_str b", folded office(2)]
      after_wake_unplayed [OF office(3)]] .
  then have "does_only (\<lambda>d. \<not> played d) t (does (DidOffice cx (box_str b) asked) t2)"
    by (rule does_only_then) simp
  moreover have "\<not> tr_stopped_part_way (office_run sd desk cx b' i asked)" for sd desk b' i
    by (simp add: office_run_def Let_def split: sum.split option.split)
  ultimately show ?thesis using office(5) by (simp add: play_shows_unplayed)
next
  case (builtin b screen t1 t2)
  have before: "does_only (\<lambda>d. \<not> played d) t t2"
    using does_only_trans [OF woken_unplayed [of t "needs_the_box (ad_name ad)" sr ex "box_str b", folded builtin(2)]
      after_wake_unplayed [OF builtin(3)]] .
  have "does_only (\<lambda>_. True) t2
      (snd (run_builtin sr ex cx (box_str b) screen (tc_id call) (ad_name ad) (ad_arguments ad) t2))"
    by (rule run_builtin_does) simp_all
  from play_shows_after [OF before this run_builtin_shows] builtin(5) show ?thesis by simp
qed

lemma execute_shows:
  "play_shows sr (fst (execute sr ex cx call t)) t (snd (execute sr ex cx call t))"
proof (cases rule: execute_cases [of sr ex cx call t])
  case (asked t2)
  have "does_only (\<lambda>d. \<not> played d) t t2"
    using asked(2) by (rule does_only_mono) (auto simp: only_asks_def split: turn_deed.splits)
  with asked show ?thesis by (simp add: play_shows_unplayed)
next
  case (through ad g t1 said t2)
  have before: "does_only (\<lambda>d. \<not> played d) t t2"
    using let_through_facts(2) [OF through(1)]
    by (rule does_only_mono) (auto simp: only_asks_def split: turn_deed.splits)
  have "does_only (\<lambda>_. True) t2 (snd (dispatch sr ex cx call ad t2))"
    using dispatch_own [OF admit_call_fields(1) [OF let_through_facts(1) [OF through(1)]]
      let_through_facts(4) [OF through(1)]] by (rule does_only_mono) simp
  moreover have "play_shows sr (fst (dispatch sr ex cx call ad t2)) t2 (snd (dispatch sr ex cx call ad t2))"
  proof (cases rule: dispatch_cases [of ad sr ex cx call t2])
    case (machine command)
    then show ?thesis
      by (auto simp: on_the_machine_def intro!: play_shows_unplayed does_only_does split: machine_reply.split)
  next
    case (desk r d)
    then show ?thesis by (auto intro!: play_shows_unplayed does_only_does)
  next
    case box
    with on_the_box_shows show ?thesis by simp
  qed
  ultimately show ?thesis using play_shows_after [OF before] through(2) by simp
qed


section \<open>How often the judge is asked\<close>

abbreviation judges :: "turn_deed \<Rightarrow> bool" where
  "judges d \<equiv> (case d of AskedJudge _ \<Rightarrow> True | _ \<Rightarrow> False)"

lemma on_the_box_unjudged: "does_only (\<lambda>d. \<not> judges d) t (snd (on_the_box sr ex cx call ad t))"
proof -
  let ?N = "\<lambda>d. \<not> judges d"
  have woken: "does_only ?N t (snd (if c then ensure_awake sr ex b t else (Inr (), t)))" for c b
    by (simp add: ensure_awake_does)
  have wake: "does_only ?N t1 t2" if "after_wake sr ex call name arguments b t1 = (c, t2)" for t1 t2 name arguments b c
    using after_wake_does [of ?N b t1 sr ex call name arguments] that by simp
  show ?thesis
  proof (cases rule: on_the_box_cases [of cx ad sr ex call t])
    case (down b screen why t1)
    then show ?thesis using woken [of True "box_str b"] by simp
  next
    case (tunnel b screen t1 r t2)
    from does_only_trans [OF woken [of "needs_the_box (ad_name ad)" "box_str b", folded tunnel(2)] wake [OF tunnel(3)]]
    show ?thesis using tunnel(4) by simp
  next
    case (office b screen t1 t2 asked)
    from does_only_trans [OF woken [of "needs_the_box (ad_name ad)" "box_str b", folded office(2)] wake [OF office(3)]]
    have "does_only ?N t (does (DidOffice cx (box_str b) asked) t2)" by (rule does_only_then) simp
    then show ?thesis using office(5) by simp
  next
    case (builtin b screen t1 t2)
    have "does_only ?N t2
        (snd (run_builtin sr ex cx (box_str b) screen (tc_id call) (ad_name ad) (ad_arguments ad) t2))"
      by (rule run_builtin_does) simp_all
    from does_only_trans [OF does_only_trans [OF woken [of "needs_the_box (ad_name ad)" "box_str b", folded builtin(2)]
        wake [OF builtin(3)]] this]
    show ?thesis using builtin(5) by simp
  qed simp
qed

lemma dispatch_unjudged: "does_only (\<lambda>d. \<not> judges d) t (snd (dispatch sr ex cx call ad t))"
proof (cases rule: dispatch_cases [of ad sr ex cx call t])
  case (machine command)
  then show ?thesis by (auto simp: on_the_machine_def intro: does_only_does)
next
  case (desk r d)
  then show ?thesis by (auto intro!: does_only_does)
next
  case box
  with on_the_box_unjudged show ?thesis by simp
qed

lemma computer_use_keeps: "tn_failures (snd (computer_use sr ex b screen i a t)) = tn_failures t"
  by (simp add: computer_use_def Let_def look_def split: sum.split option.split)

lemma play_recipe_keeps:
  "tn_failures (snd (play_recipe sr b screen cx i offer version request claimed t)) = tn_failures t"
  by (simp add: play_recipe_def Let_def split: sum.split box_error.split)

lemma execute_recipe_keeps: "tn_failures (snd (execute_recipe sr ex b screen cx i recipe given t)) = tn_failures t"
  by (simp add: execute_recipe_def Let_def play_recipe_keeps split: sum.split option.split prod.split)

lemma call_plugin_keeps: "tn_failures (snd (call_plugin_tool sr ex i called arguments t)) = tn_failures t"
  by (simp add: call_plugin_tool_def Let_def split: option.split prod.split)

lemma run_builtin_keeps: "tn_failures (snd (run_builtin sr ex cx b screen i name arguments t)) = tn_failures t"
  by (simp add: run_builtin_def run_shell_def read_file_def write_file_def open_url_def computer_use_keeps
      execute_recipe_keeps call_plugin_keeps split: option.split)

lemma on_the_box_keeps: "tn_failures (snd (on_the_box sr ex cx call ad t)) = tn_failures t"
proof -
  have woken: "tn_failures (snd (if c then ensure_awake sr ex b t else (Inr (), t))) = tn_failures t" for c b
    by (simp add: ensure_awake_keeps)
  have wake: "tn_failures t2 = tn_failures t1" if "after_wake sr ex call name arguments b t1 = (c, t2)"
    for t1 t2 name arguments b c
    using after_wake_keeps [of sr ex call name arguments b t1] that by simp
  show ?thesis
  proof (cases rule: on_the_box_cases [of cx ad sr ex call t])
    case (down b screen why t1)
    then show ?thesis using woken [of True "box_str b"] by simp
  next
    case (tunnel b screen t1 r t2)
    then show ?thesis
      using woken [of "needs_the_box (ad_name ad)" "box_str b", folded tunnel(2)] wake [OF tunnel(3)] by simp
  next
    case (office b screen t1 t2 asked)
    then show ?thesis
      using woken [of "needs_the_box (ad_name ad)" "box_str b", folded office(2)] wake [OF office(3)] by simp
  next
    case (builtin b screen t1 t2)
    then show ?thesis
      using woken [of "needs_the_box (ad_name ad)" "box_str b", folded builtin(2)] wake [OF builtin(3)]
        run_builtin_keeps by simp
  qed simp
qed

lemma dispatch_keeps: "tn_failures (snd (dispatch sr ex cx call ad t)) = tn_failures t"
proof (cases rule: dispatch_cases [of ad sr ex cx call t])
  case (machine command)
  then show ?thesis by (simp add: on_the_machine_def)
next
  case (desk r d)
  then show ?thesis by simp
next
  case box
  with on_the_box_keeps show ?thesis by simp
qed

text \<open>The judge's questions among what a turn has done, and a judge that is down.\<close>

definition questions :: "turn \<Rightarrow> nat" where
  "questions t = length (filter judges (tn_deeds t))"

lemma questions_unjudged: "does_only (\<lambda>d. \<not> judges d) t u \<Longrightarrow> questions u = questions t"
  by (auto simp: does_only_def questions_def list_all_iff filter_empty_conv)

definition judge_is_down :: "surroundings \<Rightarrow> bool" where
  "judge_is_down sr \<longleftrightarrow> (\<forall>tr a. \<exists>cause. sr_judge sr tr a = review_verdict.Unavailable cause)"

text \<open>A call asks at most once, and never after the third failure in a row.\<close>

lemma review_of_call_questions:
  assumes "review_of_call sr ex call ad g t1 = (said, t2)"
  shows "questions t2 = questions t1 \<and> tn_failures t2 = tn_failures t1 \<or>
    questions t2 = questions t1 + 1 \<and> tn_failures t1 < JUDGE_DOWN_AFTER \<and> tn_failures t2 \<le> tn_failures t1 + 1 \<and>
    (judge_is_down sr \<longrightarrow> tn_failures t2 = tn_failures t1 + 1)"
  using assms
proof (cases rule: review_of_call_cases)
  case (judged p outcome)
  show ?thesis
  proof (cases rule: ask_judge_cases [of t1 sr p "ad_name ad" "tc_id call" "ad_arguments ad"])
    case down
    with judged show ?thesis by simp
  next
    case (asked outcome' t')
    have t2: "t2 = t'" using judged(6) asked(2) by simp
    have "tn_failures t2 = tn_failures t1 + 1" if down: "judge_is_down sr"
    proof -
      obtain cause where "sr_judge sr (tn_deeds t1) \<lparr>ra_call_id = tc_id call, ra_tool = ad_name ad,
    ra_arguments = redact_arguments (sr_serde sr) (ad_arguments ad), ra_allow = rp_allow p,
    ra_ask = rp_ask p, ra_block = rp_block p\<rparr> = review_verdict.Unavailable cause"
        using down unfolding judge_is_down_def by blast
      with judged(6) asked(1) show ?thesis by (auto simp: ask_judge_def)
    qed
    with asked t2 show ?thesis by (simp add: questions_def)
  qed
qed simp

lemma execute_questions:
  "let t' = snd (execute sr ex cx call t) in
   questions t' = questions t \<and> tn_failures t' = tn_failures t \<or>
   questions t' = questions t + 1 \<and> tn_failures t < JUDGE_DOWN_AFTER \<and> tn_failures t' \<le> tn_failures t + 1 \<and>
   (judge_is_down sr \<longrightarrow> tn_failures t' = tn_failures t + 1)"
proof (cases "admit_call sr ex cx call (tn_deeds t)")
  case (Inl why)
  then show ?thesis by (simp add: execute_def)
next
  case (Inr ad)
  note adm = Inr
  obtain gr t1 where gr: "gate_of_call sr ex cx ad t = (gr, t1)" by (metis surj_pair)
  have t1: "questions t1 = questions t" "tn_failures t1 = tn_failures t"
    using gr by (auto simp: gate_of_call_def machine_gate_def questions_def split: option.splits if_splits)
  show ?thesis
  proof (cases gr)
    case (Inl why)
    with adm gr t1 show ?thesis by (simp add: execute_def)
  next
    case (Inr g)
    note g = Inr
    show ?thesis
    proof (cases "before_review ex cx call ad g")
      case (Inl r)
      with adm gr g t1 show ?thesis by (simp add: execute_def)
    next
      case (Inr u)
      obtain said t2 where rv: "review_of_call sr ex call ad g t1 = (said, t2)" by (metis surj_pair)
      have d: "questions (snd (dispatch sr ex cx call ad t2)) = questions t2"
          "tn_failures (snd (dispatch sr ex cx call ad t2)) = tn_failures t2"
        using questions_unjudged [OF dispatch_unjudged] dispatch_keeps by simp_all
      have "questions (snd (execute sr ex cx call t)) = questions t2 \<and>
          tn_failures (snd (execute sr ex cx call t)) = tn_failures t2"
        using adm gr g Inr rv d by (simp add: execute_def split: gate_outcome.split)
      with review_of_call_questions [OF rv] t1 show ?thesis by (simp add: Let_def)
    qed
  qed
qed


section \<open>Leaving the box through the person's network\<close>

abbreviation leaves :: "turn_deed \<Rightarrow> bool" where
  "leaves d \<equiv> (case d of OpenedUrl _ _ _ \<Rightarrow> True | Acted _ _ _ \<Rightarrow> True | PlayedRecipe _ _ _ \<Rightarrow> True | _ \<Rightarrow> False)"

definition network_consent :: "executor \<Rightarrow> tool_call \<Rightarrow> bool" where
  "network_consent ex call \<longleftrightarrow>
     ex_egress_policy ex \<noteq> EgressNever \<and>
     (egress_consented ex \<or> review_approved ex call \<or> \<not> review_inactive ex)"

definition tunnel_said_no :: "surroundings \<Rightarrow> bool" where
  "tunnel_said_no sr \<longleftrightarrow> (\<exists>tr b. \<not> tunnel_advertised True (sr_tunnel sr tr b))"

lemma ask_tunnel_no: "ask_tunnel_if c sr b t = (False, t1) \<Longrightarrow> c \<Longrightarrow> tunnel_said_no sr"
  by (auto simp: ask_tunnel_if_def tunnel_is_there_def tunnel_said_no_def Let_def split: if_splits)

lemma tunnel_asks_if: "needs_egress_consent name arguments \<Longrightarrow>
    tunnel_asks ex call name arguments \<or> egress_consented ex \<or> review_approved ex call \<or> \<not> review_inactive ex"
  by (auto simp: tunnel_asks_def)

lemma needs_consent_browses: "needs_egress_consent name arguments \<Longrightarrow> name \<in> set BROWSER_TOOLS"
  by (auto simp: needs_egress_consent_def leaves_the_box_def BROWSER_TOOLS_def)

lemma after_wake_consent:
  assumes "after_wake sr ex call name arguments b t = (Inr (), t2)" "needs_egress_consent name arguments"
    "ex_egress_tunnel ex = AskTheBoxAfterWake"
  shows "network_consent ex call \<or> tunnel_said_no sr"
proof (cases rule: after_wake_cases [of ex name sr b t call arguments])
  case (never t1)
  with assms(1) show ?thesis by simp
next
  case (asked t1 asks t3)
  then have no: "\<not> asks" using assms(1) by (auto split: if_splits)
  show ?thesis
  proof (cases "ex_egress_policy ex = EgressNever")
    case True
    with ask_tunnel_no [OF asked(1)] needs_consent_browses [OF assms(2)] assms(3) show ?thesis by simp
  next
    case False
    show ?thesis
    proof (cases "network_consent ex call")
      case unconsented: False
      then have "tunnel_asks ex call name arguments" "\<not> gate_approved ex call"
        using tunnel_asks_if [OF assms(2), of ex call] False by (auto simp: network_consent_def review_approved_def)
      with ask_tunnel_no [of _ sr b t1 t3] asked(2) no assms(3) show ?thesis by auto
    qed simp
  qed
qed

lemma let_through_consent:
  assumes "let_through sr ex cx call t ad g t1 said t2" "ad_command ad = None"
    "needs_egress_consent (ad_name ad) (ad_arguments ad)" "ex_egress_tunnel ex = TunnelOn"
  shows "network_consent ex call"
proof (rule ccontr)
  assume no: "\<not> network_consent ex call"
  note lt = assms(1) [unfolded let_through_def]
  have leaving: "leaves_the_box (ad_name ad)" using assms(3) by (simp add: needs_egress_consent_def)
  then have "ex_egress_policy ex \<noteq> EgressNever"
    using let_through_facts(4) [OF assms(1)] assms(4) by (simp add: network_off_def)
  then have asks: "tunnel_asks ex call (ad_name ad) (ad_arguments ad)" and unapproved: "\<not> gate_approved ex call"
    using tunnel_asks_if [OF assms(3), of ex call] no by (auto simp: network_consent_def review_approved_def)
  have "before_review ex cx call ad g = Inr ()" using lt by blast
  then have "tunnel_card ex call g = Inr ()"
    using asks assms(4) let_through_facts(4,5) [OF assms(1)] leaving
    by (auto simp: before_review_def Let_def leaves_the_box_def split: if_splits)
  with unapproved obtain reason why where g: "g = GateAsk reason why"
    by (auto simp: tunnel_card_def split: gate.splits)
  have "combine g said (gate_approved ex call) = OutcomeRun" using lt assms(2) by blast
  with g unapproved show False by (simp add: combine_run_iff)
qed

text \<open>A picture of the screen is the one screen action that sends nothing.\<close>

lemma screenshot_stays:
  assumes "str_at arguments ''action'' = Some ''screenshot''" "read_computer_args arguments = Some a"
  shows "does_only (\<lambda>d. \<not> leaves d) t (snd (computer_use sr ex b screen i a t))"
proof -
  have "ca_action a = ''screenshot''" using assms by (auto simp: read_computer_args_def Option.bind_eq_Some_conv)
  then have "into_action a = Inr None" by (simp add: into_action_def)
  then show ?thesis by (auto simp: computer_use_def intro!: look_does)
qed

lemma run_builtin_stays:
  assumes "\<not> needs_egress_consent name arguments"
  shows "does_only (\<lambda>d. \<not> leaves d) t (snd (run_builtin sr ex cx b screen i name arguments t))"
proof (cases "name = ''computer''")
  case True
  then have "str_at arguments ''action'' = Some ''screenshot''"
    using assms by (simp add: needs_egress_consent_def leaves_the_box_def)
  with True screenshot_stays show ?thesis by (auto simp: run_builtin_def run_recipe_def split: option.split)
next
  case False
  then have "\<not> leaves_the_box name" using assms by (simp add: needs_egress_consent_def)
  then have "name \<noteq> ''open_url''" "name \<noteq> run_recipe" by (simp_all add: leaves_the_box_def)
  with False show ?thesis by (intro run_builtin_does) simp_all
qed

lemma on_the_box_leaves:
  assumes "does_some leaves t (snd (on_the_box sr ex cx call ad t))"
  shows "needs_egress_consent (ad_name ad) (ad_arguments ad) \<and>
    (ex_egress_tunnel ex = AskTheBoxAfterWake \<longrightarrow> network_consent ex call \<or> tunnel_said_no sr)"
proof -
  let ?N = "\<lambda>d. \<not> leaves d"
  have woken: "does_only ?N t (snd (if c then ensure_awake sr ex b t else (Inr (), t)))" for c b
    by (simp add: ensure_awake_does)
  have wake: "does_only ?N t1 t2" if "after_wake sr ex call name arguments b t1 = (c, t2)" for t1 t2 name arguments b c
    using after_wake_does [of ?N b t1 sr ex call name arguments] that by simp
  show ?thesis
  proof (cases rule: on_the_box_cases [of cx ad sr ex call t])
    case (nowhere why)
    with assms does_some_none [of leaves t t] show ?thesis by simp
  next
    case (down b screen why t1)
    with assms does_some_none [OF woken [of True "box_str b"]] show ?thesis by simp
  next
    case (tunnel b screen t1 r t2)
    with assms does_some_none [OF does_only_trans
        [OF woken [of "needs_the_box (ad_name ad)" "box_str b", folded tunnel(2)] wake [OF tunnel(3)]]]
    show ?thesis by simp
  next
    case (office b screen t1 t2 asked)
    have "does_only ?N t (does (DidOffice cx (box_str b) asked) t2)"
      using does_only_trans [OF woken [of "needs_the_box (ad_name ad)" "box_str b", folded office(2)] wake [OF office(3)]]
      by (rule does_only_then) simp
    with assms does_some_none office(5) show ?thesis by simp
  next
    case (builtin b screen t1 t2)
    note before = does_only_trans [OF woken [of "needs_the_box (ad_name ad)" "box_str b", folded builtin(2)]
        wake [OF builtin(3)]]
    have "needs_egress_consent (ad_name ad) (ad_arguments ad)"
    proof (rule ccontr)
      assume "\<not> needs_egress_consent (ad_name ad) (ad_arguments ad)"
      from does_only_trans [OF before run_builtin_stays [OF this]] assms does_some_none builtin(5) show False by simp
    qed
    with after_wake_consent [OF builtin(3)] show ?thesis by blast
  qed
qed

lemma execute_consent:
  assumes "does_some leaves t (snd (execute sr ex cx call t))"
  shows "ex_egress_tunnel ex = TunnelOff \<or> network_consent ex call \<or>
    ex_egress_tunnel ex = AskTheBoxAfterWake \<and> tunnel_said_no sr"
proof (cases rule: execute_cases [of sr ex cx call t])
  case (asked t2)
  have "does_only (\<lambda>d. \<not> leaves d) t t2"
    using asked(2) by (rule does_only_mono) (auto simp: only_asks_def split: turn_deed.splits)
  with does_some_none assms asked(1) show ?thesis by simp
next
  case (through ad g t1 said t2)
  have "does_only (\<lambda>d. \<not> leaves d) t t2"
    using let_through_facts(2) [OF through(1)]
    by (rule does_only_mono) (auto simp: only_asks_def split: turn_deed.splits)
  moreover have "does_only (\<lambda>_. True) t2 (snd (dispatch sr ex cx call ad t2))"
    using dispatch_own [OF admit_call_fields(1) [OF let_through_facts(1) [OF through(1)]]
      let_through_facts(4) [OF through(1)]] by (rule does_only_mono) simp
  ultimately have some: "does_some leaves t2 (snd (dispatch sr ex cx call ad t2))"
    using does_some_split assms through(2) by simp
  show ?thesis
  proof (cases rule: dispatch_cases [of ad sr ex cx call t2])
    case (machine command)
    then have "does_only (\<lambda>d. \<not> leaves d) t2 (snd (dispatch sr ex cx call ad t2))"
      by (auto simp: on_the_machine_def intro!: does_only_does)
    with does_some_none some show ?thesis by blast
  next
    case (desk r d)
    then have "does_only (\<lambda>d. \<not> leaves d) t2 (snd (dispatch sr ex cx call ad t2))"
      by (auto intro!: does_only_does)
    with does_some_none some show ?thesis by blast
  next
    case box
    with on_the_box_leaves some have "needs_egress_consent (ad_name ad) (ad_arguments ad)"
        "ex_egress_tunnel ex = AskTheBoxAfterWake \<longrightarrow> network_consent ex call \<or> tunnel_said_no sr" by simp_all
    with let_through_consent [OF through(1) box(1)] show ?thesis by (cases "ex_egress_tunnel ex") auto
  qed
qed


section \<open>The names a model may use\<close>

lemma legal_wire_no_dot: "legal_wire w \<Longrightarrow> CHR ''.'' \<notin> set w"
  by (auto simp: legal_wire_def list_all_iff wire_char_def is_ascii_alphanumeric_def is_ascii_alphabetic_def
      is_ascii_lowercase_def is_ascii_uppercase_def is_ascii_digit_def byte_def)

lemma every_builtin_legal: "n \<in> set every_builtin \<Longrightarrow> legal_wire n"
proof -
  have "list_all legal_wire every_builtin" by code_simp
  then show "n \<in> set every_builtin \<Longrightarrow> legal_wire n" by (simp add: list_all_iff)
qed

lemma every_builtin_count: "length every_builtin = 48"
  by code_simp

text \<open>Every plugin tool is named as a listing names it: \<open><plugin>.<server>.<tool>\<close>.\<close>

definition dotted_names :: "executor \<Rightarrow> bool" where
  "dotted_names ex \<longleftrightarrow> (\<forall>t\<in>set (ex_plugin_tools ex). \<exists>e tool. mt_qualified_name t = qualify e tool)"

lemma dotted_names_dot: "dotted_names ex \<Longrightarrow> t \<in> set (ex_plugin_tools ex) \<Longrightarrow> CHR ''.'' \<in> set (mt_qualified_name t)"
  by (fastforce simp: dotted_names_def qualify_def)

lemma plugin_wires_sound:
  assumes "length (ex_plugin_tools ex) < 2 ^ 31"
  shows "distinct (map snd (plugin_wire_names ex)) \<and>
    (\<forall>wire\<in>snd ` set (plugin_wire_names ex). legal_wire wire \<and> wire \<notin> set every_builtin) \<and>
    set (map fst (plugin_wire_names ex)) = mt_qualified_name ` set (ex_plugin_tools ex)"
proof -
  let ?q = "sort (map mt_qualified_name (ex_plugin_tools ex))"
  have "length every_builtin + length ?q < 2 ^ 32 - 3" using assms by (simp add: every_builtin_count)
  note sound = wire_names_sound [OF this]
  have "wire \<notin> set every_builtin" if "wire \<in> snd ` set (plugin_wire_names ex)" for wire
  proof
    assume "wire \<in> set every_builtin"
    then have "wire \<in> openai_safe_tool_name ` set every_builtin"
      using safe_name_of_legal [OF every_builtin_legal] by (metis imageI)
    with sound that show False by (auto simp: plugin_wire_names_def)
  qed
  moreover have "legal_wire wire" if "wire \<in> snd ` set (plugin_wire_names ex)" for wire
    using sound that unfolding plugin_wire_names_def by blast
  moreover have "map fst (plugin_wire_names ex) = ?q"
    unfolding plugin_wire_names_def openai_unique_tool_names_def by (rule unique_names_fst)
  moreover have "distinct (map snd (plugin_wire_names ex))"
    using sound unfolding plugin_wire_names_def by blast
  ultimately show ?thesis by simp
qed

lemma find_keyed: "distinct (map snd ps) \<Longrightarrow> (q, w) \<in> set ps \<Longrightarrow> find (\<lambda>(q, wire). wire = w) ps = Some (q, w)"
  by (induction ps) (auto simp: rev_image_eqI image_iff)

lemma find_by_name:
  assumes "q \<in> mt_qualified_name ` set ts"
  shows "\<exists>t. find (\<lambda>t. mt_qualified_name t = q) ts = Some t \<and> mt_qualified_name t = q"
  using assms by (induction ts) auto

lemma internal_name_of_wire:
  assumes "length (ex_plugin_tools ex) < 2 ^ 31" "dotted_names ex" "(q, wire) \<in> set (plugin_wire_names ex)"
  shows "internal_tool_name ex wire = q"
proof -
  note sound = plugin_wires_sound [OF assms(1)]
  have "wire \<in> snd ` set (plugin_wire_names ex)" using imageI [OF assms(3), of snd] by simp
  then have "legal_wire wire" using sound by blast
  then have "CHR ''.'' \<notin> set wire" by (rule legal_wire_no_dot)
  then have none: "find (\<lambda>t. mt_qualified_name t = wire) (ex_plugin_tools ex) = None"
    using dotted_names_dot [OF assms(2)] by (auto simp: find_None_iff)
  have "q \<in> mt_qualified_name ` set (ex_plugin_tools ex)"
  proof -
    have "q \<in> set (map fst (plugin_wire_names ex))" using imageI [OF assms(3), of fst] by simp
    with sound show ?thesis by blast
  qed
  then obtain t where "find (\<lambda>t. mt_qualified_name t = q) (ex_plugin_tools ex) = Some t" "mt_qualified_name t = q"
    using find_by_name by blast
  moreover have "find (\<lambda>(q, w). w = wire) (plugin_wire_names ex) = Some (q, wire)"
    using conjunct1 [OF sound] assms(3) by (rule find_keyed)
  ultimately show ?thesis using none by (simp add: internal_tool_name_def lookup_plugin_tool_def)
qed

lemma internal_name_of_builtin:
  assumes "length (ex_plugin_tools ex) < 2 ^ 31" "dotted_names ex" "n \<in> set every_builtin"
  shows "internal_tool_name ex n = n"
proof -
  have "find (\<lambda>t. mt_qualified_name t = n) (ex_plugin_tools ex) = None"
    using dotted_names_dot [OF assms(2)] legal_wire_no_dot [OF every_builtin_legal [OF assms(3)]]
    by (auto simp: find_None_iff)
  moreover have "find (\<lambda>(q, wire). wire = n) (plugin_wire_names ex) = None"
  proof -
    have "n \<notin> snd ` set (plugin_wire_names ex)" using plugin_wires_sound [OF assms(1)] assms(3) by blast
    then show ?thesis by (auto simp: find_None_iff image_iff)
  qed
  ultimately show ?thesis by (simp add: internal_tool_name_def lookup_plugin_tool_def)
qed

lemma internal_name_of_qualified:
  assumes "q \<in> mt_qualified_name ` set (ex_plugin_tools ex)"
  shows "internal_tool_name ex q = q"
  using find_by_name [OF assms] by (auto simp: internal_tool_name_def lookup_plugin_tool_def)

section \<open>Identity is not read from the call\<close>

text \<open>What an object holds once the identity keys are taken off.\<close>

definition less_identity :: "(string \<times> json) list \<Rightarrow> (string \<times> json) list" where
  "less_identity m = jm_remove_all IDENTITY_KEYS m"

lemma less_identity_get:
  assumes "distinct (map fst m)" "k \<notin> set IDENTITY_KEYS"
  shows "map_of (less_identity m) k = map_of m k"
proof -
  have sound: "set (less_identity m) = {kv \<in> set m. fst kv \<notin> set IDENTITY_KEYS}" "distinct (map fst (less_identity m))"
    using jm_remove_all_sound [OF assms(1), of IDENTITY_KEYS] by (simp_all add: less_identity_def)
  have "map_of (less_identity m) k = Some v \<longleftrightarrow> map_of m k = Some v" for v
    using sound assms by (simp add: map_of_set)
  then show ?thesis by (metis not_None_eq)
qed

lemma same_form_source:
  assumes "distinct (map fst m)" "distinct (map fst m')" "less_identity m = less_identity m'"
  shows "is_chat_collection (JObject m) = is_chat_collection (JObject m')"
    "validate_field_ids (JObject m) = validate_field_ids (JObject m')"
proof -
  have get: "json_get (JObject m) k = json_get (JObject m') k" if "k \<notin> set IDENTITY_KEYS" for k
    using less_identity_get [OF assms(1) that] less_identity_get [OF assms(2) that] assms(3) by simp
  have keys: "k \<notin> set IDENTITY_KEYS" if "k \<in> {''formRequest'', ''message'', ''collect'', ''fields''}" for k
    using that by (auto simp: IDENTITY_KEYS_def)
  have source: "form_source (JObject m) = form_source (JObject m') \<or>
      form_source (JObject m) = JObject m \<and> form_source (JObject m') = JObject m'"
    using get [OF keys [of "''formRequest''"]] get [OF keys [of "''message''"]]
    by (auto simp: form_source_def split: option.split)
  from source get [OF keys [of "''collect''"]]
  show "is_chat_collection (JObject m) = is_chat_collection (JObject m')"
    by (auto simp: is_chat_collection_def flag_at_def)
  from source get [OF keys [of "''fields''"]]
  show "validate_field_ids (JObject m) = validate_field_ids (JObject m')"
    by (auto simp: validate_field_ids_def rows_of_def)
qed

lemma execute_same_identity:
  assumes "distinct (map fst m)" "distinct (map fst m')" "less_identity m = less_identity m'"
  shows "execute sr ex cx \<lparr>tc_id = i, tc_name = n, tc_arguments = JObject m\<rparr> t =
    execute sr ex cx \<lparr>tc_id = i, tc_name = n, tc_arguments = JObject m'\<rparr> t"
proof -
  let ?c = "\<lparr>tc_id = i, tc_name = n, tc_arguments = JObject m\<rparr>"
  let ?c' = "\<lparr>tc_id = i, tc_name = n, tc_arguments = JObject m'\<rparr>"
  have args: "overwrite_identity (JObject m) cx = overwrite_identity (JObject m') cx"
    using assms(3) by (simp add: overwrite_identity_def less_identity_def)
  have admit: "admit_call sr ex cx ?c tr = admit_call sr ex cx ?c' tr" for tr
    using args by (simp add: admit_call_def)
  have before: "before_review ex cx ?c ad g = before_review ex cx ?c' ad g" for ad g
  proof -
    have "form_card cx ?c g = form_card cx ?c' g"
      unfolding form_card_def tool_call.simps same_form_source(2) [OF assms] ..
    moreover have "tunnel_asks ex ?c name arguments = tunnel_asks ex ?c' name arguments" for name arguments
      by (simp add: tunnel_asks_def gate_approved_def review_approved_def)
    moreover have "tunnel_card ex ?c g = tunnel_card ex ?c' g" unfolding tunnel_card_def gate_approved_def tool_call.simps ..
    ultimately show ?thesis using same_form_source(1) [OF assms] by (simp only: before_review_def Let_def tool_call.simps)
  qed
  have review: "review_of_call sr ex ?c ad g t1 = review_of_call sr ex ?c' ad g t1" for ad g t1
    unfolding review_of_call_def review_approved_def gate_approved_def tool_call.simps ..
  have box: "on_the_box sr ex cx ?c ad t1 = on_the_box sr ex cx ?c' ad t1" for ad t1
    unfolding on_the_box_def after_wake_def tunnel_asks_def review_approved_def gate_approved_def tool_call.simps ..
  have run: "dispatch sr ex cx ?c ad t1 = dispatch sr ex cx ?c' ad t1" for ad t1
    unfolding dispatch_def on_the_machine_def gate_approved_def box tool_call.simps ..
  show ?thesis
    unfolding execute_def admit before review run gate_approved_def tool_call.simps ..
qed


section \<open>A box is waited for once\<close>

text \<open>What the turn has learnt of a box stays, and such a box is not asked or woken again.\<close>

abbreviation wakes :: "string \<Rightarrow> turn_deed \<Rightarrow> bool" where
  "wakes b d \<equiv> d = AskedState b \<or> d = Woke b"

definition settled_box :: "string \<Rightarrow> string + unit \<Rightarrow> turn \<Rightarrow> turn \<Rightarrow> bool" where
  "settled_box b found t t' \<longleftrightarrow>
     (bm_get (tn_woken t) b = Some found \<longrightarrow>
      bm_get (tn_woken t') b = Some found \<and> does_only (\<lambda>d. \<not> wakes b d) t t')"

lemma settled_box_refl [simp]: "settled_box b found t t"
  by (simp add: settled_box_def)

lemma settled_box_trans: "settled_box b found t u \<Longrightarrow> settled_box b found u v \<Longrightarrow> settled_box b found t v"
  unfolding settled_box_def using does_only_trans by blast

lemma settled_box_same:
  "tn_woken t' = tn_woken t \<Longrightarrow> does_only (\<lambda>d. \<not> wakes b d) t t' \<Longrightarrow> settled_box b found t t'"
  by (simp add: settled_box_def)

lemma wake_now_woken: "tn_woken (snd (wake_now sr b t)) = tn_woken t"
  by (auto simp: wake_now_def Let_def split: sum.splits)

lemma bm_get_insert_other: "k' \<noteq> k \<Longrightarrow> bm_get (bm_insert k' v m) k = bm_get m k"
  by (induction k' v m rule: bm_insert.induct) (auto simp: bm_get_def)

lemma ensure_awake_settled: "settled_box b found t (snd (ensure_awake sr ex b' t))"
proof (cases "bm_get (tn_woken t) b'")
  case None
  obtain f woke t1 where w: "wake_now sr b' t = ((f, woke), t1)" by (metis surj_pair)
  have "bm_get (tn_woken (snd (ensure_awake sr ex b' t))) b = Some found \<and>
      does_only (\<lambda>d. \<not> wakes b d) t (snd (ensure_awake sr ex b' t))"
    if known: "bm_get (tn_woken t) b = Some found"
  proof -
    have other: "b' \<noteq> b" using None known by auto
    have "tn_woken t1 = tn_woken t" using wake_now_woken [of sr b' t] w by simp
    with None w known other have "bm_get (tn_woken (snd (ensure_awake sr ex b' t))) b = Some found"
      by (simp add: ensure_awake_def Let_def remember_box_def bm_get_insert_other)
    moreover have "does_only (\<lambda>d. \<not> wakes b d) t (snd (ensure_awake sr ex b' t))"
      by (rule ensure_awake_does) (simp_all add: other)
    ultimately show ?thesis ..
  qed
  then show ?thesis by (simp add: settled_box_def)
qed (simp add: ensure_awake_def)

lemma ask_tunnel_if_woken: "tn_woken (snd (ask_tunnel_if c sr b t)) = tn_woken t"
  by (simp add: ask_tunnel_if_def tunnel_is_there_def Let_def)

lemma after_wake_settled: "settled_box b found t (snd (after_wake sr ex call name arguments b' t))"
proof (rule settled_box_same)
  show "does_only (\<lambda>d. \<not> wakes b d) t (snd (after_wake sr ex call name arguments b' t))"
    by (rule after_wake_does) simp
  show "tn_woken (snd (after_wake sr ex call name arguments b' t)) = tn_woken t"
  proof (cases rule: after_wake_cases [of ex name sr b' t call arguments])
    case (never t1)
    then show ?thesis using ask_tunnel_if_woken by (metis snd_conv)
  next
    case (asked t1 asks t2)
    have "tn_woken t1 = tn_woken t" "tn_woken t2 = tn_woken t1"
      using ask_tunnel_if_woken asked(1,2) by (metis snd_conv)+
    with asked(3) show ?thesis by simp
  qed
qed

lemma play_recipe_woken:
  "tn_woken (snd (play_recipe sr b screen cx i offer version request claimed t)) = tn_woken t"
  by (simp add: play_recipe_def Let_def split: sum.split box_error.split)

lemma execute_recipe_woken: "tn_woken (snd (execute_recipe sr ex b screen cx i recipe given t)) = tn_woken t"
  by (simp add: execute_recipe_def Let_def play_recipe_woken split: sum.split option.split prod.split)

lemma computer_use_woken: "tn_woken (snd (computer_use sr ex b screen i a t)) = tn_woken t"
  by (simp add: computer_use_def Let_def look_def split: sum.split option.split)

lemma call_plugin_woken: "tn_woken (snd (call_plugin_tool sr ex i called arguments t)) = tn_woken t"
  by (simp add: call_plugin_tool_def Let_def split: option.split prod.split)

lemma run_builtin_settled_box:
  "settled_box b found t (snd (run_builtin sr ex cx b' screen i name arguments t))"
proof (rule settled_box_same)
  show "tn_woken (snd (run_builtin sr ex cx b' screen i name arguments t)) = tn_woken t"
    by (simp add: run_builtin_def run_shell_def read_file_def write_file_def open_url_def computer_use_woken
        execute_recipe_woken call_plugin_woken split: option.split)
  show "does_only (\<lambda>d. \<not> wakes b d) t (snd (run_builtin sr ex cx b' screen i name arguments t))"
    by (rule run_builtin_does) simp_all
qed

lemma on_the_box_settled_box: "settled_box b found t (snd (on_the_box sr ex cx call ad t))"
proof -
  have woken: "settled_box b found t (snd (if c then ensure_awake sr ex b' t else (Inr (), t)))" for c b'
    by (simp add: ensure_awake_settled)
  have wake: "settled_box b found t1 t2" if "after_wake sr ex call name arguments b' t1 = (c, t2)"
    for t1 t2 name arguments b' c
    using after_wake_settled [of b found t1 sr ex call name arguments b'] that by simp
  show ?thesis
  proof (cases rule: on_the_box_cases [of cx ad sr ex call t])
    case (down x screen why t1)
    then show ?thesis using woken [of True "box_str x"] by simp
  next
    case (tunnel x screen t1 r t2)
    from settled_box_trans [OF woken [of "needs_the_box (ad_name ad)" "box_str x", folded tunnel(2)]
        wake [OF tunnel(3)]]
    show ?thesis using tunnel(4) by simp
  next
    case (office x screen t1 t2 asked)
    note before = settled_box_trans [OF woken [of "needs_the_box (ad_name ad)" "box_str x", folded office(2)]
        wake [OF office(3)]]
    have "settled_box b found t2 (does (DidOffice cx (box_str x) asked) t2)"
      by (rule settled_box_same) (auto intro: does_only_does)
    from settled_box_trans [OF before this] show ?thesis using office(5) by simp
  next
    case (builtin x screen t1 t2)
    note before = settled_box_trans [OF woken [of "needs_the_box (ad_name ad)" "box_str x", folded builtin(2)]
        wake [OF builtin(3)]]
    from settled_box_trans [OF before run_builtin_settled_box] show ?thesis using builtin(5) by simp
  qed simp
qed

lemma execute_settled_box: "settled_box b found t (snd (execute sr ex cx call t))"
proof (cases rule: execute_cases [of sr ex cx call t])
  case (asked t2)
  have "does_only (\<lambda>d. \<not> wakes b d) t t2"
    using asked(2) by (rule does_only_mono) (auto simp: only_asks_def)
  with asked show ?thesis by (simp add: settled_box_same)
next
  case (through ad g t1 said t2)
  note facts = let_through_facts [OF through(1)]
  have "does_only (\<lambda>d. \<not> wakes b d) t t2"
    using facts(2) by (rule does_only_mono) (auto simp: only_asks_def)
  with facts(3) have before: "settled_box b found t t2" by (simp add: settled_box_same)
  have "settled_box b found t2 (snd (dispatch sr ex cx call ad t2))"
  proof (cases rule: dispatch_cases [of ad sr ex cx call t2])
    case (machine command)
    then show ?thesis
      by (auto simp: on_the_machine_def intro!: settled_box_same does_only_does)
  next
    case (desk r d)
    then show ?thesis by (auto intro!: settled_box_same does_only_does)
  next
    case box
    with on_the_box_settled_box show ?thesis by simp
  qed
  with before through(2) settled_box_trans show ?thesis by metis
qed

end
