(* ===== verification/Executor_Promises.thy ===== *)
theory Executor_Promises
  imports Executor_Laws
begin

text \<open>
  What the executor promises of a call, whatever the box, the machine, the judge, the recipe source,
  the desks and the plugins' servers answer: claims over \<open>execute\<close>, each with the lemmas of
  \<open>Executor_Laws\<close> behind it, and a small turn they are tried on.
\<close>

section \<open>A turn to try them on\<close>

definition sample_serde_x :: serde where
  "sample_serde_x = \<lparr>sd_from_str = (\<lambda>_. None), sd_to_string = (\<lambda>_. ''{}'')\<rparr>"

definition sample_surroundings :: surroundings where
  "sample_surroundings =
     \<lparr>sr_serde = sample_serde_x, sr_bad_args = (\<lambda>_ _. ''missing field''), sr_deadlines = deadlines_default,
      sr_state = (\<lambda>_ _. Inr ''stopped''), sr_wake = (\<lambda>_ _. Inr ''running''),
      sr_tunnel = (\<lambda>_ _. None),
      sr_run = (\<lambda>_ _ _ _. Inr \<lparr>co_exit_code = 0, co_stdout = ''hi'', co_stderr = [], co_stdout_truncated = False,
                  co_stderr_truncated = False, co_timed_out = False\<rparr>),
      sr_read_file = (\<lambda>_ _ _. Inl NoSuchBox), sr_write_file = (\<lambda>_ _ _ _. Inr ()),
      sr_open_url = (\<lambda>_ _ _ _. Inr ()), sr_act = (\<lambda>_ _ _ _. Inr ()), sr_shot = (\<lambda>_ _ _. Inl NoSuchBox),
      sr_play = (\<lambda>_ _ _ _. Inl (Interrupted ''gone'')), sr_still_granted = (\<lambda>_ _ _. Inr ()),
      sr_request = (\<lambda>_ _ _. Inr (1, JObject [])), sr_claim = (\<lambda>_ _ _ _. Inr None),
      sr_judge = (\<lambda>_ _. review_verdict.Unavailable JudgeTimedOut),
      sr_machine_decide = (\<lambda>_ _ _. MachineAsk), sr_machine_run = (\<lambda>_ _ _ _ _. MachineRan ''done''),
      sr_routines = (\<lambda>_. \<lparr>rd_answer = (\<lambda>_ _. Inr JNull), rd_stored_name = (\<lambda>_ _. Inr ''Morning'')\<rparr>),
      sr_plugins = (\<lambda>_. \<lparr>pd_answer = (\<lambda>_ _. Inr JNull), pd_ask_first = (\<lambda>_ _. Inr None)\<rparr>),
      sr_computer = (\<lambda>_. \<lparr>cd_answer = (\<lambda>_ _. Inr JNull), cd_ask_first = (\<lambda>_ _. Inr None),
                          cd_look_at_screen = (\<lambda>_ _. Inl ''no screen'')\<rparr>),
      sr_office = (\<lambda>_. \<lparr>od_answer = (\<lambda>_ _ _. Inl ''closed''), od_close = (\<lambda>_ _. Inl ''closed'')\<rparr>),
      sr_call = (\<lambda>_ _ _ _. CallRanOut)\<rparr>"

definition sample_cx :: tool_context where
  "sample_cx =
     \<lparr>cx_account = AccountId ''a'', cx_coworker = CoworkerId ''c'', cx_box = Some (BoxId ''b''), cx_group_box = None,
      cx_screen_hold = False, cx_screen_held_in = None, cx_screen = SharedScreen, cx_thread = None, cx_run = None\<rparr>"

definition sample_policy :: "tool_set \<Rightarrow> policy_context" where
  "sample_policy asks =
     \<lparr>ctx_grant = Some \<lparr>g_principal = AccountId ''a'', g_coworker = CoworkerId ''c'', g_profile = ToolsAll,
        g_needs_approval = asks, g_revoked = False\<rparr>,
      ctx_ceiling = Some \<lparr>c_coworker = CoworkerId ''c'', c_tools = ToolsAll\<rparr>\<rparr>"

definition sample_executor :: "tool_set \<Rightarrow> executor" where
  "sample_executor asks = with_policy None (sample_policy asks)"

definition sample_call :: "string \<Rightarrow> (string \<times> json) list \<Rightarrow> tool_call" where
  "sample_call name m = \<lparr>tc_id = ''1'', tc_name = name, tc_arguments = JObject m\<rparr>"

lemma sample_call_simps [simp]:
  "tc_id (sample_call n m) = ''1''" "tc_name (sample_call n m) = n" "tc_arguments (sample_call n m) = JObject m"
  by (simp_all add: sample_call_def)

lemma no_plugins_no_names: "ex_plugin_tools ex = [] \<Longrightarrow> internal_tool_name ex n = n"
  by (simp add: internal_tool_name_def lookup_plugin_tool_def plugin_wire_names_def openai_unique_tool_names_def)

lemma sample_names [simp]: "internal_tool_name (sample_executor asks) n = n"
  by (rule no_plugins_no_names) (simp add: sample_executor_def with_policy_def executor_new_def)

section \<open>A runner of calls\<close>

text \<open>
  What the loop relies on of whatever runs its calls: each call, one after the other in the order
  the model made them, is answered as itself.
\<close>

fun run_each :: "('s \<Rightarrow> tool_call \<Rightarrow> tool_result \<times> 's) \<Rightarrow> tool_call list \<Rightarrow> 's \<Rightarrow> tool_result list \<times> 's" where
  "run_each run [] s = ([], s)"
| "run_each run (call # calls) s =
     (let (r, s1) = run s call; (rs, s2) = run_each run calls s1 in (r # rs, s2))"

locale tool_runner =
  fixes run :: "'s \<Rightarrow> tool_call \<Rightarrow> tool_result \<times> 's"
  assumes run_answers: "answered_as (tc_id call) (fst (run s call))"
begin

lemma each_answered: "list_all2 (\<lambda>call r. answered_as (tc_id call) r) calls (fst (run_each run calls s))"
proof (induction calls arbitrary: s)
  case (Cons call calls)
  obtain r s1 where r: "run s call = (r, s1)" by (metis surj_pair)
  obtain rs s2 where rs: "run_each run calls s1 = (rs, s2)" by (metis surj_pair)
  from Cons.IH [of s1] run_answers [of call s] show ?case by (simp add: r rs Let_def)
qed simp

lemma each_in_order: "map tr_call_id (fst (run_each run calls s)) = map tc_id calls"
proof -
  have "list_all2 (\<lambda>call r. tr_call_id r = tc_id call) calls (fst (run_each run calls s))"
    using each_answered by (rule list_all2_mono) (simp add: answered_as_def)
  then show ?thesis by (induction rule: list_all2_induct) simp_all
qed

end

text \<open>The executor is one, from any turn it is in.\<close>

interpretation executor_runner: tool_runner "\<lambda>t call. execute sr ex cx call t" for sr ex cx
  by unfold_locales (rule execute_answers)

definition execute_all ::
  "surroundings \<Rightarrow> executor \<Rightarrow> tool_context \<Rightarrow> tool_call list \<Rightarrow> turn \<Rightarrow> tool_result list \<times> turn" where
  "execute_all sr ex cx = run_each (\<lambda>t call. execute sr ex cx call t)"

lemma execute_all_Nil [simp]: "execute_all sr ex cx [] t = ([], t)"
  by (simp add: execute_all_def)

lemma execute_all_Cons:
  "snd (execute_all sr ex cx (call # calls) t) = snd (execute_all sr ex cx calls (snd (execute sr ex cx call t)))"
  by (simp add: execute_all_def Let_def split: prod.split)

section \<open>Whose deeds they are\<close>


text \<open>C13: identity arguments are overwritten, not validated. Two calls that differ only in what they
  say under the identity keys have the same result and do the same deeds: no answer, card, refusal
  or side effect depends on the account, coworker or box a model wrote.
\<close>

theorem identity_is_overwritten:
  assumes "distinct (map fst m)" "distinct (map fst m')" "less_identity m = less_identity m'"
  shows "execute sr ex cx \<lparr>tc_id = i, tc_name = n, tc_arguments = JObject m\<rparr> t =
    execute sr ex cx \<lparr>tc_id = i, tc_name = n, tc_arguments = JObject m'\<rparr> t"
  using assms by (rule execute_same_identity)

theorem identity_is_overwritten_witness:
  "execute sample_surroundings (sample_executor ToolsNone) sample_cx
     \<lparr>tc_id = ''1'', tc_name = ''shell'',
      tc_arguments = JObject [(''command'', JString ''ls''), (''box_id'', JString ''theirs'')]\<rparr> (turn_new 0) =
   execute sample_surroundings (sample_executor ToolsNone) sample_cx
     \<lparr>tc_id = ''1'', tc_name = ''shell'', tc_arguments = JObject [(''command'', JString ''ls'')]\<rparr> (turn_new 0)"
  by (rule identity_is_overwritten) (simp_all add: less_identity_def jm_remove_all_def IDENTITY_KEYS_def)

section \<open>The gates\<close>


text \<open>A denial is a refusal in words. Whatever approvals the turn carries, a call whose tool the
  policy denies is refused, raises no card, and asks or does nothing: not even the judge.
\<close>

theorem denied_calls_are_refused:
  assumes "internal_tool_name ex (tc_name call) \<noteq> user_machine_shell"
    and "policy_decide (cx_account cx) (cx_coworker cx) (RunTool (internal_tool_name ex (tc_name call))) (ex_policy ex) = Deny why"
  shows "snd (execute sr ex cx call t) = t \<and> (\<exists>words. fst (execute sr ex cx call t) = result_refused (tc_id call) words)"
  using assms by (rule execute_denied)

theorem denied_calls_are_refused_witness:
  "snd (execute sample_surroundings (with_policy None \<lparr>ctx_grant = None, ctx_ceiling = None\<rparr>) sample_cx
     (sample_call ''shell'' [(''command'', JString ''ls'')]) (turn_new 0)) = turn_new 0"
proof -
  let ?ex = "with_policy None \<lparr>ctx_grant = None, ctx_ceiling = None\<rparr>"
  have name: "internal_tool_name ?ex n = n" for n
    by (rule no_plugins_no_names) (simp add: with_policy_def executor_new_def)
  have "policy_decide (cx_account sample_cx) (cx_coworker sample_cx)
      (RunTool (internal_tool_name ?ex (tc_name (sample_call ''shell'' [(''command'', JString ''ls'')])))) (ex_policy ?ex) =
      Deny (NoGrant (AccountId ''a'') (CoworkerId ''c''))"
    by (simp add: policy_decide_def with_policy_def executor_new_def sample_cx_def)
  moreover have "internal_tool_name ?ex (tc_name (sample_call ''shell'' [(''command'', JString ''ls'')])) \<noteq> user_machine_shell"
    by (simp add: name user_machine_shell_def)
  ultimately show ?thesis using denied_calls_are_refused by blast
qed






text \<open>Every call of a run is answered as itself, in the order the model made them. Each result
  carries its call's id; it waits exactly when it says what for; what is ok neither waits nor stopped
  part way; and what waits did not stop part way.
\<close>

theorem every_call_is_answered:
  "list_all2 (\<lambda>call r. answered_as (tc_id call) r) calls (fst (execute_all sr ex cx calls t)) \<and>
   map tr_call_id (fst (execute_all sr ex cx calls t)) = map tc_id calls"
  unfolding execute_all_def by (intro conjI executor_runner.each_answered executor_runner.each_in_order)


section \<open>Over a run\<close>

lemma execute_all_questions:
  assumes "judge_is_down sr \<or> JUDGE_DOWN_AFTER \<le> tn_failures t"
  shows "questions (snd (execute_all sr ex cx calls t)) \<le> questions t + (JUDGE_DOWN_AFTER - tn_failures t)"
  using assms
proof (induction calls arbitrary: t)
  case (Cons call calls)
  let ?u = "snd (execute sr ex cx call t)"
  note q = execute_questions [of sr ex cx call t, unfolded Let_def]
  have "judge_is_down sr \<or> JUDGE_DOWN_AFTER \<le> tn_failures ?u" using q Cons.prems by auto
  from Cons.IH [OF this] q Cons.prems show ?case by (auto simp only: execute_all_Cons)
qed simp

text \<open>C30: a judge that is down is not asked for ever. Over any calls of a run, a judge that never
  answers is asked at most as often as it has failures left of three in a row; and once it has
  failed three times in a row it is not asked again in that run, whatever it would say.
\<close>

theorem a_judge_down_is_left_alone:
  assumes "judge_is_down sr \<or> JUDGE_DOWN_AFTER \<le> tn_failures t"
  shows "questions (snd (execute_all sr ex cx calls t)) \<le> questions t + (JUDGE_DOWN_AFTER - tn_failures t)"
  using assms by (rule execute_all_questions)

theorem a_judge_down_is_left_alone_witness:
  "questions (snd (execute_all sample_surroundings (sample_executor ToolsNone) sample_cx
     (replicate 9 (sample_call ''read_file'' [])) (turn_new 1))) \<le> 2"
proof -
  have "judge_is_down sample_surroundings" by (simp add: judge_is_down_def sample_surroundings_def)
  then have "questions (snd (execute_all sample_surroundings (sample_executor ToolsNone) sample_cx
      (replicate 9 (sample_call ''read_file'' [])) (turn_new 1))) \<le>
      questions (turn_new 1) + (JUDGE_DOWN_AFTER - tn_failures (turn_new 1))"
    by (intro a_judge_down_is_left_alone disjI1)
  then show ?thesis by (simp add: turn_new_def questions_def JUDGE_DOWN_AFTER_def)
qed

lemma execute_all_settled_box: "settled_box b found t (snd (execute_all sr ex cx calls t))"
proof (induction calls arbitrary: t)
  case (Cons call calls)
  show ?case
    unfolding execute_all_Cons by (rule settled_box_trans [OF execute_settled_box Cons.IH])
qed simp

text \<open>A box is waited for once. Once a turn has learnt how a box is (running, woken, or down, in the
  sentence to answer), it knows that for every later call of the run, and neither asks after the box
  nor wakes it again.
\<close>

theorem a_box_is_waited_for_once:
  assumes "bm_get (tn_woken t) b = Some found"
  shows "bm_get (tn_woken (snd (execute_all sr ex cx calls t))) b = Some found \<and>
    does_only (\<lambda>d. \<not> wakes b d) t (snd (execute_all sr ex cx calls t))"
  using execute_all_settled_box [of b found t sr ex cx calls] assms by (simp add: settled_box_def)

theorem a_box_is_waited_for_once_witness:
  "bm_get (tn_woken (snd (execute_all sample_surroundings (sample_executor ToolsNone) sample_cx
       [sample_call ''read_file'' []] (remember_box ''b'' (Inl COMPUTER_DOWN) (turn_new 0))))) ''b'' =
     Some (Inl COMPUTER_DOWN)"
  by (rule a_box_is_waited_for_once [THEN conjunct1]) (simp add: remember_box_def turn_new_def bm_get_def)

section \<open>The person's network\<close>


section \<open>Names\<close>

text \<open>C31: what is offered is what runs. For fewer than 2^31 plugin tools, each named as a listing names
  it, a name a plugin's tool is offered under on the wire is no built-in's, is taken back to that
  tool's own dotted name, as the dotted name itself is, and a built-in's name is taken as it is: no
  plugin can stand in for a built-in, nor one plugin's tool for another's.
\<close>

theorem wire_names_come_back:
  assumes "length (ex_plugin_tools ex) < 2 ^ 31" "dotted_names ex"
  shows "(\<forall>(q, wire)\<in>set (plugin_wire_names ex).
       internal_tool_name ex wire = q \<and> internal_tool_name ex q = q \<and> wire \<notin> set every_builtin) \<and>
    fst ` set (plugin_wire_names ex) = mt_qualified_name ` set (ex_plugin_tools ex) \<and>
    (\<forall>n\<in>set every_builtin. internal_tool_name ex n = n)"
proof -
  note sound = plugin_wires_sound [OF assms(1)]
  then have names: "fst ` set (plugin_wire_names ex) = mt_qualified_name ` set (ex_plugin_tools ex)" by simp
  have "internal_tool_name ex q = q \<and> wire \<notin> set every_builtin" if "(q, wire) \<in> set (plugin_wire_names ex)" for q wire
  proof
    have "q \<in> mt_qualified_name ` set (ex_plugin_tools ex)" using imageI [OF that, of fst] names by simp
    then show "internal_tool_name ex q = q" by (rule internal_name_of_qualified)
    have "wire \<in> snd ` set (plugin_wire_names ex)" using imageI [OF that, of snd] by simp
    then show "wire \<notin> set every_builtin" using sound by blast
  qed
  with names internal_name_of_wire [OF assms] internal_name_of_builtin [OF assms] show ?thesis by blast
qed

definition sample_plugin_tool :: mcp_tool where
  "sample_plugin_tool =
     \<lparr>mt_qualified_name = ''cf.api.dns'', mt_remote_name = ''dns'', mt_description = None, mt_input_schema = None,
      mt_annotations = None\<rparr>"

theorem wire_names_come_back_witness:
  "\<exists>wire. internal_tool_name (with_plugin_tools [] [sample_plugin_tool] (sample_executor ToolsNone)) wire = ''cf.api.dns'' \<and>
     wire \<notin> set every_builtin"
proof -
  let ?ex = "with_plugin_tools [] [sample_plugin_tool] (sample_executor ToolsNone)"
  have tools: "ex_plugin_tools ?ex = [sample_plugin_tool]" by (simp add: with_plugin_tools_def)
  have "mt_qualified_name sample_plugin_tool =
      qualify \<lparr>ep_plugin = ''cf'', ep_server = ''api'', ep_url = [], ep_headers = []\<rparr> ''dns''"
    by (simp add: sample_plugin_tool_def qualify_def)
  then have "dotted_names ?ex" unfolding dotted_names_def tools by auto
  moreover have "length (ex_plugin_tools ?ex) < 2 ^ 31" by (simp add: tools)
  ultimately have "\<forall>(q, wire)\<in>set (plugin_wire_names ?ex).
       internal_tool_name ?ex wire = q \<and> internal_tool_name ?ex q = q \<and> wire \<notin> set every_builtin"
      "fst ` set (plugin_wire_names ?ex) = mt_qualified_name ` set (ex_plugin_tools ?ex)"
    using wire_names_come_back [of ?ex] by blast+
  note returns = this(1) and names = this(2)
  have "''cf.api.dns'' \<in> fst ` set (plugin_wire_names ?ex)"
    unfolding names tools by (simp add: sample_plugin_tool_def)
  then obtain wire where "(''cf.api.dns'', wire) \<in> set (plugin_wire_names ?ex)" by force
  with returns show ?thesis by blast
qed

section \<open>Where the code falls short\<close>

text \<open>
  A Bot with no computer is given an executor so its plugins' tools can run, but the box is resolved
  before the dispatch: every one of them is refused for want of a computer.
\<close>

lemma plugins_want_a_box:
  assumes "cx_box cx = None" "cx_group_box cx = None"
  shows "does_only (\<lambda>d. \<forall>s remote sent. d \<noteq> CalledPlugin s remote sent) t (snd (execute sr ex cx call t))"
proof (cases rule: execute_cases [of sr ex cx call t])
  case (asked t2)
  from asked(2) have "does_only (\<lambda>d. \<forall>s remote sent. d \<noteq> CalledPlugin s remote sent) t t2"
    by (rule does_only_mono) (auto simp: only_asks_def)
  with asked(1) show ?thesis by simp
next
  case (through ad g t1 said t2)
  from let_through_facts(2) [OF through(1)]
  have before: "does_only (\<lambda>d. \<forall>s remote sent. d \<noteq> CalledPlugin s remote sent) t t2"
    by (rule does_only_mono) (auto simp: only_asks_def)
  have "does_only (\<lambda>d. \<forall>s remote sent. d \<noteq> CalledPlugin s remote sent) t2 (snd (dispatch sr ex cx call ad t2))"
  proof (cases rule: dispatch_cases [of ad sr ex cx call t2])
    case (machine command)
    then show ?thesis by (auto simp: on_the_machine_def intro!: does_only_does)
  next
    case (desk r d)
    then show ?thesis by (auto intro!: does_only_does)
  next
    case box
    with assms show ?thesis by (auto simp: on_the_box_def aimed_at_def)
  qed
  from does_only_trans [OF before this] show ?thesis unfolding through(2) .
qed

text \<open>
  The machine's own ask subsumes the reviewer's, and the sink judges again as it runs: where the
  machine's gate asked first and allows once the reviewer has answered ask, the command runs and no
  card is raised.
\<close>

lemma reviewers_ask_is_lost:
  assumes "ad_command ad = Some command" "ex_user_machine ex" "\<not> gate_approved ex call"
    and "combine (GateAsk AwaitExecConsent why) (Some (ReviewAsk said)) (gate_approved ex call) = verdict"
    and "sr_machine_run sr (tn_deeds t) (cx_account cx) command (tc_id call) False = MachineRan out"
  shows "verdict = OutcomeAsk AwaitExecConsent why \<and> fst (dispatch sr ex cx call ad t) = result_ok (tc_id call) out"
  using assms by (auto simp: combine_def dispatch_def on_the_machine_def Let_def)

end
