(* ===== verification/Net_Address.thy ===== *)
theory Net_Address
  imports Text_Search "HOL-Library.Word"
begin

text \<open>
  Which hosts a plugin bundle may name (\<open>opengrok-plugins/src/bundle.rs\<close>, \<open>public_https\<close> and
  \<open>is_public_ip\<close>), with the reading of addresses the standard library does for it
  (\<open>str::parse::<IpAddr>\<close>). The ranges that are not public are compared with the blocks of the
  special-purpose registries they were transcribed from.
\<close>

unbundle bit_operations_syntax

section \<open>Reading an address\<close>

text \<open>An address is its octets, or its eight segments.\<close>

datatype ip_addr = V4 "8 word" "8 word" "8 word" "8 word" | V6 "16 word list"

definition digit_of :: "nat \<Rightarrow> char \<Rightarrow> nat option" where
  "digit_of radix c =
     (let b = byte c;
          d = (if is_ascii_digit c then b - 48
               else if 97 \<le> b \<and> b \<le> 122 then b - 87
               else if 65 \<le> b \<and> b \<le> 90 then b - 55 else 36)
      in if d < radix then Some d else None)"

text \<open>
  A number of at most \<open>longest\<close> digits that does not exceed \<open>bound\<close>; the parser moves on only
  where it succeeds.
\<close>

definition read_number :: "nat \<Rightarrow> nat \<Rightarrow> nat \<Rightarrow> bool \<Rightarrow> string \<Rightarrow> (nat \<times> string) option" where
  "read_number radix longest bound zero_prefix s =
     (let ds = takeWhile (\<lambda>c. digit_of radix c \<noteq> None) s;
          v = foldl (\<lambda>acc c. acc * radix + the (digit_of radix c)) 0 ds
      in if ds = [] \<or> longest < length ds then None
         else if \<not> zero_prefix \<and> hd ds = CHR ''0'' \<and> 1 < length ds then None
         else if bound < v then None
         else Some (v, drop (length ds) s))"

definition read_separated :: "char \<Rightarrow> nat \<Rightarrow> (string \<Rightarrow> ('a \<times> string) option) \<Rightarrow> string \<Rightarrow> ('a \<times> string) option" where
  "read_separated sep i inner s =
     (if i = 0 then inner s
      else case s of [] \<Rightarrow> None | c # rest \<Rightarrow> if c = sep then inner rest else None)"

definition read_octet :: "nat \<Rightarrow> string \<Rightarrow> (nat \<times> string) option" where
  "read_octet i = read_separated (CHR ''.'') i (read_number 10 3 255 False)"

definition read_ipv4 :: "string \<Rightarrow> ((8 word \<times> 8 word \<times> 8 word \<times> 8 word) \<times> string) option" where
  "read_ipv4 s =
     Option.bind (read_octet 0 s) (\<lambda>(a, s). Option.bind (read_octet 1 s) (\<lambda>(b, s).
     Option.bind (read_octet 2 s) (\<lambda>(c, s). Option.bind (read_octet 3 s) (\<lambda>(d, s).
       Some ((word_of_nat a, word_of_nat b, word_of_nat c, word_of_nat d), s)))))"

definition two_octets :: "8 word \<Rightarrow> 8 word \<Rightarrow> 16 word" where
  "two_octets a b = push_bit 8 (ucast a) OR ucast b"

text \<open>
  \<open>read_groups\<close>: the group of index \<open>i\<close> and those after it, \<open>k\<close> at most; an address of version 4
  may stand for the last two, and ends them.
\<close>

fun read_groups :: "nat \<Rightarrow> nat \<Rightarrow> string \<Rightarrow> (16 word list \<times> bool) \<times> string" where
  "read_groups i 0 s = (([], False), s)"
| "read_groups i (Suc k) s =
     (case (if 0 < k then read_separated (CHR '':'') i read_ipv4 s else None) of
        Some ((a, b, c, d), rest) \<Rightarrow> (([two_octets a b, two_octets c d], True), rest)
      | None \<Rightarrow>
          (case read_separated (CHR '':'') i (read_number 16 4 65535 True) s of
             None \<Rightarrow> (([], False), s)
           | Some (g, rest) \<Rightarrow>
               (case read_groups (Suc i) k rest of
                  ((gs, v4), rest) \<Rightarrow> ((word_of_nat g # gs, v4), rest))))"

definition read_ipv6 :: "string \<Rightarrow> (16 word list \<times> string) option" where
  "read_ipv6 s =
     (case read_groups 0 8 s of
        ((front, v4), rest) \<Rightarrow>
          if length front = 8 then Some (front, rest)
          else if v4 \<or> take 2 rest \<noteq> ''::'' then None
          else case read_groups 0 (7 - length front) (drop 2 rest) of
                 ((rear, _), rest) \<Rightarrow>
                   Some (front @ replicate (8 - length front - length rear) 0 @ rear, rest))"

definition parse_ip :: "string \<Rightarrow> ip_addr option" where
  "parse_ip s =
     (case (case read_ipv4 s of
              Some ((a, b, c, d), rest) \<Rightarrow> Some (V4 a b c d, rest)
            | None \<Rightarrow> map_option (\<lambda>(gs, rest). (V6 gs, rest)) (read_ipv6 s)) of
        Some (ip, []) \<Rightarrow> Some ip
      | _ \<Rightarrow> None)"

section \<open>Public addresses\<close>

definition public_v4 :: "8 word \<Rightarrow> 8 word \<Rightarrow> 8 word \<Rightarrow> 8 word \<Rightarrow> bool" where
  "public_v4 a b c d \<longleftrightarrow>
     \<not> (a = 0 \<or> a = 10 \<or> a = 127 \<or> 224 \<le> a \<or> (a = 100 \<and> 64 \<le> b \<and> b < 128) \<or> (a = 169 \<and> b = 254) \<or>
        (a = 172 \<and> 16 \<le> b \<and> b < 32) \<or> (a = 192 \<and> b = 168) \<or> (a = 192 \<and> b = 0 \<and> (c = 0 \<or> c = 2)) \<or>
        (a = 198 \<and> (b = 18 \<or> b = 19)) \<or> (a = 198 \<and> b = 51 \<and> c = 100) \<or> (a = 203 \<and> b = 0 \<and> c = 113))"

definition ipv4_mapped :: "16 word list \<Rightarrow> (16 word \<times> 16 word) option" where
  "ipv4_mapped gs =
     (case gs of
        [g0, g1, g2, g3, g4, g5, g, h] \<Rightarrow>
          if g0 = 0 \<and> g1 = 0 \<and> g2 = 0 \<and> g3 = 0 \<and> g4 = 0 \<and> g5 = 0xFFFF then Some (g, h) else None
      | _ \<Rightarrow> None)"

definition high_octet :: "16 word \<Rightarrow> 8 word" where "high_octet g = ucast (drop_bit 8 g)"
definition low_octet :: "16 word \<Rightarrow> 8 word" where "low_octet g = ucast g"

fun is_public_ip :: "ip_addr \<Rightarrow> bool" where
  "is_public_ip (V4 a b c d) = public_v4 a b c d"
| "is_public_ip (V6 s) =
     (case ipv4_mapped s of
        Some (g, h) \<Rightarrow> public_v4 (high_octet g) (low_octet g) (high_octet h) (low_octet h)
      | None \<Rightarrow>
          s ! 0 AND 0xE000 = 0x2000 \<and>
          \<not> (s ! 0 = 0x2001 \<and> (s ! 1 = 0x0DB8 \<or> s ! 1 < 0x0200)) \<and>
          s ! 0 \<noteq> 0x2002 \<and>
          \<not> (s ! 0 = 0x3FFF \<and> s ! 1 < 0x1000))"

section \<open>The host of a URL\<close>

definition closes_authority :: "char \<Rightarrow> bool" where
  "closes_authority c \<longleftrightarrow> c = CHR ''/'' \<or> c = CHR ''?'' \<or> c = CHR ''#''"

definition host_of_authority :: "string \<Rightarrow> string" where
  "host_of_authority authority =
     (case strip_prefix ''['' authority of
        Some v6 \<Rightarrow> takeWhile (\<lambda>c. c \<noteq> CHR '']'') v6
      | None \<Rightarrow> (case rsplit_once (CHR '':'') authority of Some (host, _) \<Rightarrow> host | None \<Rightarrow> authority))"

definition host_form :: "string \<Rightarrow> string" where
  "host_form host = to_ascii_lowercase (trim_end_matches (\<lambda>c. c = CHR ''.'') host)"

definition is_numeric_host :: "string \<Rightarrow> bool" where
  "is_numeric_host host \<longleftrightarrow>
     (let label = List.last (split_on (CHR ''.'') host)
      in starts_with ''0x'' label \<or> list_all is_ascii_digit label)"

definition public_host :: "string \<Rightarrow> bool" where
  "public_host host \<longleftrightarrow>
     host \<noteq> [] \<and> host \<noteq> ''localhost'' \<and> \<not> ends_with ''.localhost'' host \<and>
     (case parse_ip host of Some ip \<Rightarrow> is_public_ip ip | None \<Rightarrow> \<not> is_numeric_host host)"

definition public_https :: "string \<Rightarrow> bool" where
  "public_https url \<longleftrightarrow>
     (case strip_prefix ''https://'' url of
        None \<Rightarrow> False
      | Some rest \<Rightarrow>
          let authority = takeWhile (\<lambda>c. \<not> closes_authority c) rest
          in CHR ''@'' \<notin> set authority \<and> public_host (host_form (host_of_authority authority)))"


section \<open>The blocks they are\<close>

text \<open>
  The blocks of the registries of special-purpose addresses: a network, as the number its octets
  write, and the length of its prefix. An address is in a block when their prefixes agree.
\<close>

definition v4_number :: "nat \<Rightarrow> nat \<Rightarrow> nat \<Rightarrow> nat \<Rightarrow> nat" where
  "v4_number a b c d = a * 2 ^ 24 + b * 2 ^ 16 + c * 2 ^ 8 + d"

definition in_block :: "nat \<Rightarrow> nat \<times> nat \<Rightarrow> bool" where
  "in_block n block \<longleftrightarrow> (case block of (net, len) \<Rightarrow> n div 2 ^ (32 - len) = net div 2 ^ (32 - len))"

definition special_blocks :: "(nat \<times> nat) list" where
  "special_blocks =
     [(v4_number 0 0 0 0, 8), (v4_number 10 0 0 0, 8), (v4_number 100 64 0 0, 10), (v4_number 127 0 0 0, 8),
      (v4_number 169 254 0 0, 16), (v4_number 172 16 0 0, 12), (v4_number 192 0 0 0, 24),
      (v4_number 192 0 2 0, 24), (v4_number 192 168 0 0, 16), (v4_number 198 18 0 0, 15),
      (v4_number 198 51 100 0, 24), (v4_number 203 0 113 0, 24), (v4_number 224 0 0 0, 4),
      (v4_number 240 0 0 0, 4)]"

lemma prefix_8: "b < 256 \<Longrightarrow> c < 256 \<Longrightarrow> d < 256 \<Longrightarrow> v4_number a b c d div 2 ^ 24 = a"
  by (simp add: v4_number_def)

lemma prefix_16:
  assumes "c < 256" "d < 256" shows "v4_number a b c d div 2 ^ 16 = a * 256 + b"
proof -
  have "v4_number a b c d = (c * 256 + d) + (a * 256 + b) * 2 ^ 16" by (simp add: v4_number_def algebra_simps)
  moreover have "(c * 256 + d) div 2 ^ 16 = 0" using assms by simp
  ultimately show ?thesis by simp
qed

lemma prefix_24: assumes "d < 256" shows "v4_number a b c d div 2 ^ 8 = a * 65536 + b * 256 + c"
  using assms by (simp add: v4_number_def)

lemma in_block_split:
  "in_block n (net, 8) \<longleftrightarrow> n div 2 ^ 24 = net div 2 ^ 24" "in_block n (net, 16) \<longleftrightarrow> n div 2 ^ 16 = net div 2 ^ 16"
  "in_block n (net, 24) \<longleftrightarrow> n div 2 ^ 8 = net div 2 ^ 8"
  "in_block n (net, 4) \<longleftrightarrow> n div 2 ^ 24 div 2 ^ 4 = net div 2 ^ 24 div 2 ^ 4"
  "in_block n (net, 10) \<longleftrightarrow> n div 2 ^ 16 div 2 ^ 6 = net div 2 ^ 16 div 2 ^ 6"
  "in_block n (net, 12) \<longleftrightarrow> n div 2 ^ 16 div 2 ^ 4 = net div 2 ^ 16 div 2 ^ 4"
  "in_block n (net, 15) \<longleftrightarrow> n div 2 ^ 16 div 2 = net div 2 ^ 16 div 2"
  by (simp_all add: in_block_def div_mult2_eq [symmetric])

lemma digit_pair:
  assumes "(c::nat) < 256" "k < 256"
  shows "x * 256 + c = y * 256 + k \<longleftrightarrow> x = y \<and> c = k"
proof
  assume "x * 256 + c = y * 256 + k"
  moreover from this assms have "x = y" by linarith
  ultimately show "x = y \<and> c = k" by simp
qed simp

lemma div_is: "0 < k \<Longrightarrow> (n::nat) div k = q \<longleftrightarrow> q * k \<le> n \<and> n < q * k + k"
  by (metis add.commute div_nat_eqI div_times_less_eq_dividend dividend_less_times_div mult.commute mult_Suc_right)

lemma octet_range:
  assumes "(b::nat) < 256" "hi \<le> 256"
  shows "n * 256 + lo \<le> a * 256 + b \<and> a * 256 + b < n * 256 + hi \<longleftrightarrow> a = n \<and> lo \<le> b \<and> b < hi"
proof
  assume range: "n * 256 + lo \<le> a * 256 + b \<and> a * 256 + b < n * 256 + hi"
  then have "a = n" using assms by linarith
  with range show "a = n \<and> lo \<le> b \<and> b < hi" by simp
qed simp

lemma in_blocks:
  assumes "b < 256" "c < 256" "d < 256"
  shows "in_block (v4_number a b c d) (v4_number n 0 0 0, 8) \<longleftrightarrow> a = n"
    and "in_block (v4_number a b c d) (v4_number n 0 0 0, 4) \<longleftrightarrow> a div 16 = n div 16"
    and "in_block (v4_number a b c d) (v4_number n m 0 0, 16) \<longleftrightarrow> a * 256 + b = n * 256 + m"
    and "in_block (v4_number a b c d) (v4_number n m 0 0, 10) \<longleftrightarrow> (a * 256 + b) div 64 = (n * 256 + m) div 64"
    and "in_block (v4_number a b c d) (v4_number n m 0 0, 12) \<longleftrightarrow> (a * 256 + b) div 16 = (n * 256 + m) div 16"
    and "in_block (v4_number a b c d) (v4_number n m 0 0, 15) \<longleftrightarrow> (a * 256 + b) div 2 = (n * 256 + m) div 2"
    and "in_block (v4_number a b c d) (v4_number n m k 0, 24) \<longleftrightarrow> (a * 256 + b) * 256 + c = (n * 256 + m) * 256 + k"
proof -
  have zero: "(0::nat) < 256" by simp
  note top = prefix_8 [OF assms] prefix_8 [OF zero zero zero] and mid = prefix_16 [OF assms(2,3)] prefix_16 [OF zero zero]
    and low = prefix_24 [OF assms(3)] prefix_24 [OF zero]
  show "in_block (v4_number a b c d) (v4_number n 0 0 0, 8) \<longleftrightarrow> a = n" unfolding in_block_split top ..
  show "in_block (v4_number a b c d) (v4_number n 0 0 0, 4) \<longleftrightarrow> a div 16 = n div 16" unfolding in_block_split top by simp
  show "in_block (v4_number a b c d) (v4_number n m 0 0, 16) \<longleftrightarrow> a * 256 + b = n * 256 + m" unfolding in_block_split mid ..
  show "in_block (v4_number a b c d) (v4_number n m 0 0, 10) \<longleftrightarrow> (a * 256 + b) div 64 = (n * 256 + m) div 64"
    unfolding in_block_split mid by simp
  show "in_block (v4_number a b c d) (v4_number n m 0 0, 12) \<longleftrightarrow> (a * 256 + b) div 16 = (n * 256 + m) div 16"
    unfolding in_block_split mid by simp
  show "in_block (v4_number a b c d) (v4_number n m 0 0, 15) \<longleftrightarrow> (a * 256 + b) div 2 = (n * 256 + m) div 2"
    unfolding in_block_split mid ..
  show "in_block (v4_number a b c d) (v4_number n m k 0, 24) \<longleftrightarrow> (a * 256 + b) * 256 + c = (n * 256 + m) * 256 + k"
    unfolding in_block_split low by (simp add: algebra_simps)
qed

lemma octets_in_blocks:
  assumes "(b::nat) < 256"
  shows "a div 16 = 14 \<or> a div 16 = 15 \<longleftrightarrow> 224 \<le> a \<and> a < (256::nat)"
    and "(a * 256 + b) div 64 = 401 \<longleftrightarrow> a = 100 \<and> 64 \<le> b \<and> b < 128"
    and "(a * 256 + b) div 16 = 2753 \<longleftrightarrow> a = 172 \<and> 16 \<le> b \<and> b < 32"
    and "(a * 256 + b) div 2 = 25353 \<longleftrightarrow> a = 198 \<and> (b = 18 \<or> b = 19)"
proof -
  show "a div 16 = 14 \<or> a div 16 = 15 \<longleftrightarrow> 224 \<le> a \<and> a < 256" by (auto simp: div_is)
  show "(a * 256 + b) div 64 = 401 \<longleftrightarrow> a = 100 \<and> 64 \<le> b \<and> b < 128"
    using octet_range [OF assms, of 128 100 64 a] by (simp add: div_is)
  show "(a * 256 + b) div 16 = 2753 \<longleftrightarrow> a = 172 \<and> 16 \<le> b \<and> b < 32"
    using octet_range [OF assms, of 32 172 16 a] by (simp add: div_is)
  have "(a * 256 + b) div 2 = 25353 \<longleftrightarrow> a = 198 \<and> 18 \<le> b \<and> b < 20"
    using octet_range [OF assms, of 20 198 18 a] by (simp add: div_is)
  also have "\<dots> \<longleftrightarrow> a = 198 \<and> (b = 18 \<or> b = 19)" by auto
  finally show "(a * 256 + b) div 2 = 25353 \<longleftrightarrow> a = 198 \<and> (b = 18 \<or> b = 19)" .
qed

lemma special_blocks_octets:
  assumes "a < 256" "b < 256" "c < 256" "d < 256"
  shows "list_ex (in_block (v4_number a b c d)) special_blocks \<longleftrightarrow>
    a = 0 \<or> a = 10 \<or> a = 127 \<or> 224 \<le> a \<or> (a = 100 \<and> 64 \<le> b \<and> b < 128) \<or> (a = 169 \<and> b = 254) \<or>
    (a = 172 \<and> 16 \<le> b \<and> b < 32) \<or> (a = 192 \<and> b = 168) \<or> (a = 192 \<and> b = 0 \<and> (c = 0 \<or> c = 2)) \<or>
    (a = 198 \<and> (b = 18 \<or> b = 19)) \<or> (a = 198 \<and> b = 51 \<and> c = 100) \<or> (a = 203 \<and> b = 0 \<and> c = 113)"
proof -
  have pair: "a * 256 + b = n * 256 + m \<longleftrightarrow> a = n \<and> b = m" if "m < 256" for n m
    using assms(2) that by (rule digit_pair)
  have "(a * 256 + b) * 256 + c = (n * 256 + m) * 256 + k \<longleftrightarrow> a = n \<and> b = m \<and> c = k" if "m < 256" "k < 256" for n m k
    using digit_pair [OF assms(3) that(2), of "a * 256 + b" "n * 256 + m"] pair [OF that(1), of n] by blast
  note triple = this
  have small: "(0::nat) < 256" "(2::nat) < 256" "(51::nat) < 256" "(100::nat) < 256" "(113::nat) < 256" "(168::nat) < 256"
    "(254::nat) < 256" by simp_all
  have nums: "(224::nat) div 16 = 14" "(240::nat) div 16 = 15" "(100 * 256 + 64::nat) div 64 = 401"
      "(172 * 256 + 16::nat) div 16 = 2753" "(198 * 256 + 18::nat) div 2 = 25353" by simp_all
  note blocks = octets_in_blocks(2-) [OF assms(2)] pair [OF small(6)] pair [OF small(7)] triple [OF small(1) small(1)]
    triple [OF small(1) small(2)] triple [OF small(3) small(4)] triple [OF small(1) small(5)]
  have "list_ex (in_block (v4_number a b c d)) special_blocks \<longleftrightarrow>
      a = 0 \<or> a = 10 \<or> (a = 100 \<and> 64 \<le> b \<and> b < 128) \<or> a = 127 \<or> (a = 169 \<and> b = 254) \<or>
      (a = 172 \<and> 16 \<le> b \<and> b < 32) \<or> (a = 192 \<and> b = 0 \<and> c = 0) \<or> (a = 192 \<and> b = 0 \<and> c = 2) \<or> (a = 192 \<and> b = 168) \<or>
      (a = 198 \<and> (b = 18 \<or> b = 19)) \<or> (a = 198 \<and> b = 51 \<and> c = 100) \<or> (a = 203 \<and> b = 0 \<and> c = 113) \<or>
      (a div 16 = 14 \<or> a div 16 = 15)"
    unfolding special_blocks_def list_ex_Cons_iff list_ex_Nil_iff in_blocks [OF assms(2-)] nums blocks by (simp only: simp_thms disj_ac)
  also have "(a div 16 = 14 \<or> a div 16 = 15) \<longleftrightarrow> 224 \<le> a"
    using octets_in_blocks(1) [OF assms(2)] assms(1) by simp
  finally show ?thesis by blast
qed

lemma public_v4_iff:
  "public_v4 a b c d \<longleftrightarrow>
    \<not> list_ex (in_block (v4_number (unat a) (unat b) (unat c) (unat d))) special_blocks"
proof -
  have small: "unat x < 256" for x :: "8 word" using unsigned_less [of x] by simp
  show ?thesis
    unfolding special_blocks_octets [OF small small small small] public_v4_def
    by (simp add: word_unat_eq_iff word_le_nat_alt word_less_nat_alt)
qed

text \<open>
  For version 6 the first two segments say it: what is reached is the global unicast block, less
  the blocks of it that are not.
\<close>

definition v6_front :: "nat \<Rightarrow> nat \<Rightarrow> nat" where
  "v6_front g h = g * 2 ^ 16 + h"
definition special_v6_blocks :: "(nat \<times> nat) list" where
  "special_v6_blocks = [(v6_front 0x2001 0, 23), (v6_front 0x2001 0x0DB8, 32), (v6_front 0x2002 0, 16), (v6_front 0x3FFF 0, 20)]"

lemma high_three: "(g :: 16 word) AND 0xE000 = 0x2000 \<longleftrightarrow> unat g div 2 ^ 13 = 1"
proof -
  have "(0xE000 :: 16 word) = NOT (mask 13)" by (simp add: mask_eq_exp_minus_1)
  then have high: "g AND 0xE000 = push_bit 13 (drop_bit 13 g)"
    by (simp add: bit_eq_iff bit_simps) auto
  have undone: "drop_bit 13 (push_bit 13 (drop_bit 13 g)) = drop_bit 13 g"
    by (auto simp add: bit_eq_iff bit_simps dest: bit_imp_le_length)
  have "push_bit 13 (drop_bit 13 g) = 0x2000 \<longleftrightarrow> drop_bit 13 g = 1"
  proof
    assume "push_bit 13 (drop_bit 13 g) = 0x2000"
    then have "drop_bit 13 (push_bit 13 (drop_bit 13 g)) = drop_bit 13 0x2000" by (rule arg_cong)
    then show "drop_bit 13 g = 1" unfolding undone by simp
  qed simp
  also have "\<dots> \<longleftrightarrow> unat (drop_bit 13 g) = 1" by (simp add: word_unat_eq_iff)
  also have "\<dots> \<longleftrightarrow> unat g div 2 ^ 13 = 1" 
    by (simp only: unat_drop_bit_eq) (simp only: drop_bit_eq_div)
  finally show ?thesis unfolding high .
qed

lemma front_blocks:
  assumes "h < 65536"
  shows "in_block (v6_front g h) (v6_front 0x2000 0, 3) \<longleftrightarrow> g div 2 ^ 13 = 1"
    and "in_block (v6_front g h) (v6_front n 0, 16) \<longleftrightarrow> g = n"
    and "k < 65536 \<Longrightarrow> in_block (v6_front g h) (v6_front n k, 32) \<longleftrightarrow> g = n \<and> h = k"
    and "in_block (v6_front g h) (v6_front n 0, 23) \<longleftrightarrow> g = n \<and> h < 512"
    and "in_block (v6_front g h) (v6_front n 0, 20) \<longleftrightarrow> g = n \<and> h < 4096"
proof -
  have front: "v6_front g h div 2 ^ 16 = g" for g using assms by (simp add: v6_front_def)
  have "v6_front g h div 2 ^ 29 = g div 2 ^ 13"
    using front [of g] div_mult2_eq [of "v6_front g h" "2 ^ 16" "2 ^ 13"] by simp
  then show "in_block (v6_front g h) (v6_front 0x2000 0, 3) \<longleftrightarrow> g div 2 ^ 13 = 1" 
    by (simp add: in_block_def v6_front_def)
  show "in_block (v6_front g h) (v6_front n 0, 16) \<longleftrightarrow> g = n" using front [of g] by (simp add: in_block_def) (simp add: v6_front_def)
  show "in_block (v6_front g h) (v6_front n k, 32) \<longleftrightarrow> g = n \<and> h = k" if "k < 65536"
  proof -
    have "g = n" if "g * 65536 + h = n * 65536 + k" using that assms \<open>k < 65536\<close> by linarith
    then show ?thesis by (auto simp: in_block_def v6_front_def)
  qed
  have cut: "(g * 65536 + h) div q = n * 65536 div q \<longleftrightarrow> g = n \<and> h < q" if q: "0 < q" "q * m = 65536" for q m :: nat
  proof -
    have whole: "x * 65536 = x * m * q" for x unfolding q(2) [symmetric] by (simp add: algebra_simps)
    have num: "n * 65536 div q = n * m" unfolding whole using q(1) by simp
    have "(g * 65536 + h) div q = g * m + h div q"
      unfolding whole using q(1) by simp
    moreover have "h div q < m" using assms q by (simp add: less_mult_imp_div_less mult.commute)
    moreover have "g * m + r = n * m \<longleftrightarrow> g = n \<and> r = 0" if "r < m" for r
    proof
      assume e: "g * m + r = n * m"
      then have "(g * m + r) div m = n" using that by simp
      then have "g = n" using that by simp
      with e show "g = n \<and> r = 0" by simp
    qed simp
    ultimately show ?thesis using num q(1) by (auto simp: div_eq_0_iff)
  qed
  show "in_block (v6_front g h) (v6_front n 0, 23) \<longleftrightarrow> g = n \<and> h < 512"
    using cut [of 512 128] by (simp add: in_block_def v6_front_def)
  show "in_block (v6_front g h) (v6_front n 0, 20) \<longleftrightarrow> g = n \<and> h < 4096"
    using cut [of 4096 16] by (simp add: in_block_def v6_front_def)
qed

lemma public_v6_iff:
  fixes g h :: "16 word"
  shows "(g AND 0xE000 = 0x2000 \<and> \<not> (g = 0x2001 \<and> (h = 0x0DB8 \<or> h < 0x0200)) \<and> g \<noteq> 0x2002 \<and> \<not> (g = 0x3FFF \<and> h < 0x1000)) \<longleftrightarrow>
    in_block (v6_front (unat g) (unat h)) (v6_front 0x2000 0, 3) \<and>
    \<not> list_ex (in_block (v6_front (unat g) (unat h))) special_v6_blocks"
proof -
  have small: "unat h < 65536" using unsigned_less [of h] by simp
  note blocks = front_blocks(1,2) [OF small] front_blocks(3) [OF small, where k = "0x0DB8"] front_blocks(4,5) [OF small]
  show ?thesis
    unfolding special_v6_blocks_def list_ex_Cons_iff list_ex_Nil_iff high_three blocks(1,2,4,5) blocks(3) [simplified]
    by (auto simp: word_unat_eq_iff word_less_nat_alt)
qed

text \<open>What an address must be to be dialled: in none of the special-purpose blocks.\<close>

definition outside_v4 :: "8 word \<Rightarrow> 8 word \<Rightarrow> 8 word \<Rightarrow> 8 word \<Rightarrow> bool" where
  "outside_v4 a b c d \<longleftrightarrow>
     \<not> list_ex (in_block (v4_number (unat a) (unat b) (unat c) (unat d))) special_blocks"

fun outside_address :: "ip_addr \<Rightarrow> bool" where
  "outside_address (V4 a b c d) = outside_v4 a b c d"
| "outside_address (V6 s) =
     (case ipv4_mapped s of
        Some (g, h) \<Rightarrow> outside_v4 (high_octet g) (low_octet g) (high_octet h) (low_octet h)
      | None \<Rightarrow>
          in_block (v6_front (unat (s ! 0)) (unat (s ! 1))) (v6_front 0x2000 0, 3) \<and>
          \<not> list_ex (in_block (v6_front (unat (s ! 0)) (unat (s ! 1)))) special_v6_blocks)"

lemma is_public_ip_outside: "is_public_ip ip = outside_address ip"
proof (cases ip)
  case (V6 s)
  show ?thesis
  proof (cases "ipv4_mapped s")
    case None
    with V6 public_v6_iff [of "s ! 0" "s ! 1"] show ?thesis by simp
  next
    case (Some gh)
    with V6 show ?thesis by (cases gh) (simp add: public_v4_iff outside_v4_def)
  qed
qed (simp add: public_v4_iff outside_v4_def)

text \<open>
  The authority is taken to end at a slash, a question mark or a hash only; a URL parser ends it at
  a backslash too, so a loopback literal can pass as a name under a public suffix.
\<close>

lemma loopback_passes:
  "public_https (''https://127.0.0.1'' @ [CHR 0x5C] @ ''.example.com/mcp'')"
  by code_simp

text \<open>A block that is in the registries and missing from the code is taken for public: a relay's anycast block.\<close>

lemma missing_block_is_public: "public_v4 192 88 99 1"
  by (simp add: public_v4_def)

end
