(* ===== verification/Plugins.thy ===== *)
theory Plugins
  imports Net_Address Mcp
begin

text \<open>
  Plugins as bundles (\<open>opengrok-plugins/src/lib.rs\<close>, \<open>bundle.rs\<close>, \<open>catalogue.rs\<close>): the names a
  bundle may have, a skill file taken apart, a bundle read from a registry's files or from a folder,
  the servers it may bring, the connectors they ask tokens from, and what a deployment's catalogue
  admits. The derived readers of the JSON structs are parameters (\<open>plugin_readers\<close>); Unicode's lower
  and upper casing are the arguments \<open>lc\<close> and \<open>uc\<close>; a folder is a tree (\<open>fs_node\<close>), where a folder
  that cannot be listed is one without entries and an entry without a type is not listed.
\<close>

section \<open>Names\<close>

definition is_valid_name :: "string \<Rightarrow> bool" where
  "is_valid_name name \<longleftrightarrow>
     (let alnum = (\<lambda>b. is_ascii_lowercase b \<or> is_ascii_digit b)
      in name \<noteq> [] \<and> length name \<le> 64 \<and> \<not> contains_str ''--'' name \<and> \<not> contains_str ''..'' name \<and>
         alnum (hd name) \<and> alnum (List.last name) \<and>
         list_all (\<lambda>b. alnum b \<or> b = CHR ''.'' \<or> b = CHR ''-'') name)"

definition TOKEN_SUFFIX :: string where "TOKEN_SUFFIX = ''_TOKEN''"

definition token_key :: "(string \<Rightarrow> string) \<Rightarrow> string \<Rightarrow> string" where
  "token_key uc connector = uc connector @ TOKEN_SUFFIX"

section \<open>A skill file taken apart\<close>

record frontmatter =
  fm_name :: "string option"
  fm_description :: "string option"
  fm_body :: string
  fm_closed :: bool

definition unquote :: "string \<Rightarrow> string" where
  "unquote value = trim_matches (\<lambda>c. c = CHR 0x27) (trim_matches (\<lambda>c. c = CHR 0x22) (trim value))"

text \<open>\<open>split_inclusive\<close> at a line feed: the lines with their ends, and no empty last one.\<close>

fun lines_inclusive :: "string \<Rightarrow> string list" where
  "lines_inclusive [] = []"
| "lines_inclusive (c # s) =
     (if c = CHR 0x0A then [c] # lines_inclusive s
      else case lines_inclusive s of [] \<Rightarrow> [[c]] | l # ls \<Rightarrow> (c # l) # ls)"

definition said_in :: "string \<Rightarrow> string \<Rightarrow> string option \<Rightarrow> string option" where
  "said_in key content before =
     (case strip_prefix key content of Some value \<Rightarrow> Some (unquote value) | None \<Rightarrow> before)"

text \<open>The lines after the opening one, to the closing fence: what they say, and the bytes seen by then.\<close>

fun scan_front ::
  "string list \<Rightarrow> nat \<Rightarrow> string option \<Rightarrow> string option \<Rightarrow> (string option \<times> string option \<times> nat) option" where
  "scan_front [] seen name description = None"
| "scan_front (line # ls) seen name description =
     (let seen = seen + length line; content = trim_end line
      in if content = ''---'' then Some (name, description, seen)
         else scan_front ls seen (said_in ''name:'' content name) (said_in ''description:'' content description))"

definition BOM :: string where "BOM = [CHR 0xEF, CHR 0xBB, CHR 0xBF]"

definition non_empty :: "string option \<Rightarrow> string option" where
  "non_empty v = (case v of Some [] \<Rightarrow> None | _ \<Rightarrow> v)"

definition split_frontmatter :: "string \<Rightarrow> frontmatter" where
  "split_frontmatter written =
     (let trimmed = trim_start (strip_all [BOM] written)
      in if \<not> starts_with ''---'' trimmed
         then \<lparr>fm_name = None, fm_description = None, fm_body = trimmed, fm_closed = True\<rparr>
         else case lines_inclusive trimmed of
                [] \<Rightarrow> \<lparr>fm_name = None, fm_description = None, fm_body = trimmed, fm_closed = False\<rparr>
              | opening # ls \<Rightarrow>
                  (case scan_front ls (length opening) None None of
                     None \<Rightarrow> \<lparr>fm_name = None, fm_description = None, fm_body = trimmed, fm_closed = False\<rparr>
                   | Some (name, description, consumed) \<Rightarrow>
                       \<lparr>fm_name = non_empty name, fm_description = non_empty description,
                        fm_body = trim_start (drop consumed trimmed), fm_closed = True\<rparr>))"

definition MAX_SKILL_BODY_CHARS :: nat where "MAX_SKILL_BODY_CHARS = 64 * 1024"
definition MAX_SKILL_DESCRIPTION_CHARS :: nat where "MAX_SKILL_DESCRIPTION_CHARS = 1024"

definition skill_refusal :: "string \<Rightarrow> string \<Rightarrow> string \<Rightarrow> string option" where
  "skill_refusal plugin skill written =
     (let parsed = split_frontmatter written
      in if \<not> is_valid_name skill \<or> \<not> is_valid_name (plugin @ ''.'' @ skill)
         then Some ''skill name is not a valid name''
         else if \<not> fm_closed parsed then Some ''SKILL.md frontmatter has no closing fence''
         else if MAX_SKILL_BODY_CHARS < chars_count (fm_body parsed)
         then Some (''skill body exceeds '' @ nat_str MAX_SKILL_BODY_CHARS @ '' characters'')
         else if (case fm_description parsed of Some d \<Rightarrow> MAX_SKILL_DESCRIPTION_CHARS < chars_count d | None \<Rightarrow> False)
         then Some (''skill description exceeds '' @ nat_str MAX_SKILL_DESCRIPTION_CHARS @ '' characters'')
         else None)"

section \<open>A plugin\<close>

record author =
  au_name :: "string option"
  au_email :: "string option"
  au_url :: "string option"

record manifest =
  mf_schema :: "string option"
  mf_name :: string
  mf_version :: "string option"
  mf_description :: "string option"
  mf_author :: "author option"
  mf_homepage :: "string option"
  mf_repository :: "string option"
  mf_license :: "string option"
  mf_keywords :: "string list"
  mf_extensions :: "json option"

record mcp_config =
  mg_schema :: "string option"
  mg_servers :: "(string, mcp_server) bmap"

definition no_servers :: mcp_config where "no_servers = \<lparr>mg_schema = None, mg_servers = []\<rparr>"

fun is_local_process :: "mcp_server \<Rightarrow> bool" where
  "is_local_process (StdioServer _ _ _ _) \<longleftrightarrow> True"
| "is_local_process _ \<longleftrightarrow> False"

datatype trust = TrustVerified | TrustUnverified

definition requires_approval :: "trust \<Rightarrow> bool" where
  "requires_approval t \<longleftrightarrow> t = TrustUnverified"

record plugin =
  pg_root :: string
  pg_manifest :: manifest
  pg_mcp :: mcp_config
  pg_skills :: "(string, string) bmap"
  pg_files :: "(string, string) bmap"
  pg_trust :: trust

definition with_trust :: "trust \<Rightarrow> plugin \<Rightarrow> plugin" where
  "with_trust t p = p\<lparr>pg_trust := t\<rparr>"

definition tools_needing_approval :: "plugin \<Rightarrow> string list" where
  "tools_needing_approval p =
     (if \<not> requires_approval (pg_trust p) then []
      else map (\<lambda>(server, _). mf_name (pg_manifest p) @ ''.'' @ server) (mg_servers (pg_mcp p)))"

definition local_processes :: "plugin \<Rightarrow> string list" where
  "local_processes p = map fst (filter (\<lambda>(_, server). is_local_process server) (mg_servers (pg_mcp p)))"

text \<open>\<open>find_map\<close> over an iterator.\<close>

fun find_some :: "('a \<Rightarrow> 'b option) \<Rightarrow> 'a list \<Rightarrow> 'b option" where
  "find_some f [] = None"
| "find_some f (x # xs) = (case f x of Some y \<Rightarrow> Some y | None \<Rightarrow> find_some f xs)"

definition asked_connector :: "(string \<Rightarrow> string) \<Rightarrow> string \<Rightarrow> string option" where
  "asked_connector lc value =
     Option.bind (split_once_str ''${'' value) (\<lambda>(_, rest).
     Option.bind (split_once (CHR ''}'') rest) (\<lambda>(key, _).
     Option.bind (strip_suffix TOKEN_SUFFIX key) (\<lambda>name.
       if name \<noteq> [] then Some (lc name) else None)))"

fun headers_of :: "mcp_server \<Rightarrow> (string, string) bmap" where
  "headers_of (StdioServer _ _ _ _) = []"
| "headers_of (StreamableHttp url headers) = headers"
| "headers_of (SseServer url headers) = headers"

definition plugin_connector :: "(string \<Rightarrow> string) \<Rightarrow> plugin \<Rightarrow> string option" where
  "plugin_connector lc p =
     find_some (\<lambda>(_, server). find_some (\<lambda>(_, value). asked_connector lc value) (headers_of server))
       (mg_servers (pg_mcp p))"

section \<open>A plugin in a folder\<close>

text \<open>A file of text, one whose text cannot be read (in these words), a folder, or a link and what it reaches.\<close>

datatype fs_node =
    FsText string
  | FsOpaque string
  | FsFolder "(string option \<times> fs_node) list"
  | FsLink "fs_node option"

fun fs_follow :: "fs_node \<Rightarrow> fs_node option" where
  "fs_follow (FsLink None) = None"
| "fs_follow (FsLink (Some n)) = fs_follow n"
| "fs_follow n = Some n"

definition fs_list :: "fs_node \<Rightarrow> (string option \<times> fs_node) list" where
  "fs_list n = (case fs_follow n of Some (FsFolder es) \<Rightarrow> es | _ \<Rightarrow> [])"

definition fs_at :: "fs_node \<Rightarrow> string \<Rightarrow> fs_node option" where
  "fs_at n name = map_option snd (find (\<lambda>e. fst e = Some name) (fs_list n))"

definition fs_read :: "fs_node \<Rightarrow> string \<Rightarrow> (string + string) option" where
  "fs_read n name =
     Option.bind (Option.bind (fs_at n name) fs_follow) (\<lambda>file.
       case file of FsText t \<Rightarrow> Some (Inr t) | FsOpaque why \<Rightarrow> Some (Inl why) | _ \<Rightarrow> None)"

datatype plugin_error =
    PluginUnreadable string string
  | PluginMalformed string string
  | PluginNoManifest string
  | PluginBadName string

record plugin_readers =
  pr_serde :: serde
  pr_manifest :: "json \<Rightarrow> manifest option"
  pr_server :: "json \<Rightarrow> mcp_server option"
  pr_manifest_text :: "string \<Rightarrow> string + manifest"
  pr_config_text :: "string \<Rightarrow> string + mcp_config"

definition path_join :: "string \<Rightarrow> string \<Rightarrow> string" where
  "path_join root name = (if root = [] \<or> ends_with ''/'' root then root @ name else root @ ''/'' @ name)"

definition read_json :: "(string \<Rightarrow> string + 'a) \<Rightarrow> string \<Rightarrow> string + string \<Rightarrow> plugin_error + 'a" where
  "read_json reader path file =
     (case file of
        Inl why \<Rightarrow> Inl (PluginUnreadable path why)
      | Inr written \<Rightarrow> map_err (PluginMalformed path) (reader written))"

fun read_files :: "string \<Rightarrow> fs_node \<Rightarrow> (string, string) bmap \<Rightarrow> (string, string) bmap"
  and read_entries :: "string \<Rightarrow> (string option \<times> fs_node) list \<Rightarrow> (string, string) bmap \<Rightarrow> (string, string) bmap" where
  "read_files at (FsFolder es) files = read_entries at es files"
| "read_files at (FsText t) files = files"
| "read_files at (FsOpaque why) files = files"
| "read_files at (FsLink n) files = files"
| "read_entries at [] files = files"
| "read_entries at ((None, n) # es) files = read_entries at es files"
| "read_entries at ((Some name, FsFolder ns) # es) files =
     read_entries at es (read_entries (at @ ''/'' @ name) ns files)"
| "read_entries at ((Some name, FsText t) # es) files =
     read_entries at es (if name \<noteq> ''SKILL.md'' then bm_insert (at @ ''/'' @ name) t files else files)"
| "read_entries at ((Some name, FsOpaque why) # es) files = read_entries at es files"
| "read_entries at ((Some name, FsLink n) # es) files = read_entries at es files"

fun read_skill ::
  "string \<Rightarrow> string option \<times> fs_node \<Rightarrow> (string, string) bmap \<times> (string, string) bmap \<Rightarrow>
   (string, string) bmap \<times> (string, string) bmap" where
  "read_skill plugin (Some skill, FsFolder es) (skills, files) =
     (case fs_read (FsFolder es) ''SKILL.md'' of
        Some (Inr written) \<Rightarrow>
          if skill_refusal plugin skill written \<noteq> None then (skills, files)
          else (bm_insert skill written skills, read_files (''skills/'' @ skill) (FsFolder es) files)
      | _ \<Rightarrow> (skills, files))"
| "read_skill plugin _ found = found"

definition read_skills :: "fs_node \<Rightarrow> string \<Rightarrow> (string, string) bmap \<times> (string, string) bmap" where
  "read_skills root plugin =
     fold (read_skill plugin) (case fs_at root ''skills'' of Some n \<Rightarrow> fs_list n | None \<Rightarrow> []) ([], [])"

definition plugin_load :: "plugin_readers \<Rightarrow> string \<Rightarrow> fs_node \<Rightarrow> plugin_error + plugin" where
  "plugin_load rd path root =
     (case fs_read root ''plugin.json'' of
        None \<Rightarrow> Inl (PluginNoManifest (path_join path ''plugin.json''))
      | Some file \<Rightarrow>
          rbind (read_json (pr_manifest_text rd) (path_join path ''plugin.json'') file) (\<lambda>manifest.
            if \<not> is_valid_name (mf_name manifest) then Inl (PluginBadName (mf_name manifest))
            else rbind (case fs_read root ''mcp.json'' of
                          None \<Rightarrow> Inr no_servers
                        | Some file \<Rightarrow> read_json (pr_config_text rd) (path_join path ''mcp.json'') file) (\<lambda>mcp.
                   case read_skills root (mf_name manifest) of
                     (skills, files) \<Rightarrow>
                       Inr \<lparr>pg_root = path, pg_manifest = manifest, pg_mcp = mcp, pg_skills = skills,
                            pg_files = files, pg_trust = TrustUnverified\<rparr>)))"


section \<open>What a header asks for\<close>

text \<open>
  Every \<open>${...}\<close> of a header's value, as the connector it names, or nothing for one outside the
  convention.
\<close>

definition named_placeholder :: "(string \<Rightarrow> string) \<Rightarrow> (string \<Rightarrow> string) \<Rightarrow> string \<Rightarrow> string option" where
  "named_placeholder lc uc rest =
     Option.bind (split_once (CHR ''}'') rest) (\<lambda>(key, _).
     Option.bind (map_option lc (strip_suffix TOKEN_SUFFIX key)) (\<lambda>connector.
       if is_valid_name connector \<and> token_key uc connector = key then Some connector else None))"

definition placeholders :: "(string \<Rightarrow> string) \<Rightarrow> (string \<Rightarrow> string) \<Rightarrow> string \<Rightarrow> string option list" where
  "placeholders lc uc value = map (named_placeholder lc uc) (tl (split_str ''${'' value))"

definition header_placeholders ::
  "(string \<Rightarrow> string) \<Rightarrow> (string \<Rightarrow> string) \<Rightarrow> (string, string) bmap \<Rightarrow> string option list" where
  "header_placeholders lc uc headers = concat (map (placeholders lc uc \<circ> snd) headers)"

definition declares_no_auth :: "(string, string) bmap \<Rightarrow> bool" where
  "declares_no_auth headers \<longleftrightarrow>
     \<not> list_ex (\<lambda>(_, value). contains_str ''${'' value) headers \<and>
     \<not> list_ex (\<lambda>(name, _). eq_ignore_ascii_case name ''authorization'' \<or> eq_ignore_ascii_case name ''x-api-key'') headers"

definition HOSTED_FIELDS :: "string list" where
  "HOSTED_FIELDS = [''type'', ''url'', ''headers'', ''oauth'']"

definition hosted_refusal ::
  "(string \<Rightarrow> string) \<Rightarrow> (string \<Rightarrow> string) \<Rightarrow> string \<Rightarrow> string \<Rightarrow> (string, string) bmap \<Rightarrow> json \<Rightarrow> string option" where
  "hosted_refusal lc uc name url headers raw =
     (if \<not> is_valid_name name \<or> CHR ''.'' \<in> set name then Some ''MCP server name is not a valid tool prefix''
      else if \<not> starts_with ''https://'' url then Some ''remote MCP requires HTTPS''
      else if \<not> public_https url then Some ''remote MCP must name a public host''
      else if json_index raw ''disabled'' = JBool True \<or> json_index raw ''enabled'' = JBool False
      then Some ''its author switched this server off''
      else case find (\<lambda>key. key \<notin> set HOSTED_FIELDS) (map fst (case as_object raw of Some m \<Rightarrow> m | None \<Rightarrow> [])) of
             Some field \<Rightarrow> Some (''MCP field '' @ [CHR 0x60] @ take_chars 40 field @ [CHR 0x60] @ '' is not supported'')
           | None \<Rightarrow>
               if None \<in> set (header_placeholders lc uc headers)
               then Some ''credential placeholders must use the CONNECTOR_TOKEN convention''
               else None)"

section \<open>A bundle from a registry's files\<close>

record bundle_part =
  bp_kind :: string
  bp_name :: string
  bp_supported :: bool
  bp_reason :: "string option"

record plugin_bundle =
  bu_manifest :: manifest
  bu_mcp :: mcp_config
  bu_skills :: "(string, string) bmap"
  bu_files :: "(string, string) bmap"
  bu_parts :: "bundle_part list"

definition part_of :: "string \<Rightarrow> string \<Rightarrow> string option \<Rightarrow> bundle_part" where
  "part_of kind name reason = \<lparr>bp_kind = kind, bp_name = name, bp_supported = (reason = None), bp_reason = reason\<rparr>"

text \<open>An author given as a display name.\<close>

definition adapt_manifest :: "json \<Rightarrow> json" where
  "adapt_manifest raw =
     (case raw of
        JObject m \<Rightarrow>
          (case json_index raw ''author'' of
             JString who \<Rightarrow> JObject (jm_insert ''author'' (JObject [(''name'', JString who)]) m)
           | _ \<Rightarrow> raw)
      | _ \<Rightarrow> raw)"

definition retype :: "string \<Rightarrow> json \<Rightarrow> json" where
  "retype kind server = (case server of JObject m \<Rightarrow> JObject (jm_insert ''type'' (JString kind) m) | other \<Rightarrow> other)"

definition adapt_server :: "json \<Rightarrow> json" where
  "adapt_server server =
     (let server = (if json_index server ''type'' = JString ''http'' then retype ''streamable-http'' server else server)
      in if json_get server ''type'' = None \<and> json_get server ''command'' \<noteq> None then retype ''stdio'' server else server)"

definition server_refusal ::
  "(string \<Rightarrow> string) \<Rightarrow> (string \<Rightarrow> string) \<Rightarrow> string \<Rightarrow> mcp_server option \<Rightarrow> json \<Rightarrow> string option" where
  "server_refusal lc uc name parsed raw =
     (case parsed of
        Some (StreamableHttp url headers) \<Rightarrow> hosted_refusal lc uc name url headers raw
      | Some (StdioServer _ _ _ _) \<Rightarrow> Some ''stdio MCP is refused: installing a bundle cannot launch a process''
      | Some (SseServer _ _) \<Rightarrow> Some ''legacy SSE MCP has no client transport''
      | None \<Rightarrow> Some ''MCP server shape is unsupported'')"

fun bundle_servers ::
  "(string \<Rightarrow> string) \<Rightarrow> (string \<Rightarrow> string) \<Rightarrow> plugin_readers \<Rightarrow> (string \<times> json) list \<Rightarrow>
   (string, mcp_server) bmap \<times> bundle_part list \<Rightarrow> (string, mcp_server) bmap \<times> bundle_part list" where
  "bundle_servers lc uc rd [] found = found"
| "bundle_servers lc uc rd ((name, server) # ss) (servers, parts) =
     (let raw = adapt_server server; parsed = pr_server rd raw; reason = server_refusal lc uc name parsed raw
      in bundle_servers lc uc rd ss
           (case (reason, parsed) of (None, Some s) \<Rightarrow> bm_insert name s servers | _ \<Rightarrow> servers,
            parts @ [part_of ''mcp'' name reason]))"

definition skill_of_path :: "string \<Rightarrow> string option" where
  "skill_of_path path = Option.bind (strip_prefix ''skills/'' path) (strip_suffix ''/SKILL.md'')"

fun bundle_skills ::
  "string \<Rightarrow> (string \<times> string) list \<Rightarrow> (string, string) bmap \<times> bundle_part list \<Rightarrow> (string, string) bmap \<times> bundle_part list" where
  "bundle_skills plugin [] found = found"
| "bundle_skills plugin ((path, written) # fs) (skills, parts) =
     (case skill_of_path path of
        None \<Rightarrow> bundle_skills plugin fs (skills, parts)
      | Some name \<Rightarrow>
          let reason = skill_refusal plugin name written
          in bundle_skills plugin fs
               (if reason = None then bm_insert name written skills else skills, parts @ [part_of ''skill'' name reason]))"

definition unloaded_parts :: "json \<Rightarrow> (string, string) bmap \<Rightarrow> bundle_part list" where
  "unloaded_parts raw files =
     map (\<lambda>kind. part_of kind kind (Some (kind @ '' has no loader (#361)'')))
       (filter (\<lambda>kind. json_get raw kind \<noteq> None \<or>
          list_ex (\<lambda>(path, _). starts_with (kind @ ''/'') path \<or> path = ''.'' @ kind @ ''.json'') files)
        [''commands'', ''agents'', ''hooks'', ''lsp''])"

definition MANIFEST_PATHS :: "string list" where
  "MANIFEST_PATHS = [''plugin.json'', ''.grok-plugin/plugin.json'', ''.claude-plugin/plugin.json'']"

definition mcp_entries :: "serde \<Rightarrow> (string, string) bmap \<Rightarrow> string + (string \<times> json) list" where
  "mcp_entries sd files =
     (case find_some (bm_get files) [''mcp.json'', ''.mcp.json''] of
        None \<Rightarrow> Inr []
      | Some written \<Rightarrow>
          rbind (ok_or (sd_from_str sd written) ''invalid MCP JSON'') (\<lambda>config.
            ok_or (Option.bind (json_get config ''mcpServers'') as_object) ''MCP config needs mcpServers''))"

definition bundle_from_files ::
  "(string \<Rightarrow> string) \<Rightarrow> (string \<Rightarrow> string) \<Rightarrow> plugin_readers \<Rightarrow> (string, string) bmap \<Rightarrow> string + plugin_bundle" where
  "bundle_from_files lc uc rd files =
     rbind (ok_or (find_some (bm_get files) MANIFEST_PATHS) ''no plugin manifest'') (\<lambda>written.
     rbind (ok_or (sd_from_str (pr_serde rd) written) ''invalid manifest JSON'') (\<lambda>raw.
     rbind (ok_or (pr_manifest rd (adapt_manifest raw)) ''invalid plugin manifest'') (\<lambda>manifest.
     rbind (ensure (is_valid_name (mf_name manifest) \<and> CHR ''.'' \<notin> set (mf_name manifest))
              ''plugin names must be unambiguous tool prefixes'') (\<lambda>_.
     rbind (mcp_entries (pr_serde rd) files) (\<lambda>entries.
       case bundle_servers lc uc rd entries ([], []) of
         (servers, parts) \<Rightarrow>
           (case bundle_skills (mf_name manifest) files ([], parts) of
              (skills, parts) \<Rightarrow>
                Inr \<lparr>bu_manifest = manifest, bu_mcp = no_servers\<lparr>mg_servers := servers\<rparr>, bu_skills = skills,
                     bu_files = filter (\<lambda>(path, _). starts_with ''skills/'' path \<and> \<not> ends_with ''/SKILL.md'' path) files,
                     bu_parts = parts @ unloaded_parts raw files\<rparr>))))))"

definition bundle_plugin :: "plugin_bundle \<Rightarrow> plugin" where
  "bundle_plugin b =
     \<lparr>pg_root = [], pg_manifest = bu_manifest b, pg_mcp = bu_mcp b, pg_skills = [], pg_files = [],
      pg_trust = TrustUnverified\<rparr>"

definition offer_bearer ::
  "(string \<Rightarrow> string) \<Rightarrow> (string, string) bmap \<Rightarrow> string \<times> mcp_server \<Rightarrow> string \<times> mcp_server" where
  "offer_bearer uc vals entry =
     (case entry of
        (name, StreamableHttp url headers) \<Rightarrow>
          let key = token_key uc name
          in (name, if declares_no_auth headers \<and> bm_get vals key \<noteq> None
                    then StreamableHttp url (bm_insert ''Authorization'' (''Bearer ${'' @ key @ ''}'') headers)
                    else StreamableHttp url headers)
      | other \<Rightarrow> other)"

definition plugin_with_values :: "(string \<Rightarrow> string) \<Rightarrow> (string, string) bmap \<Rightarrow> plugin_bundle \<Rightarrow> plugin" where
  "plugin_with_values uc vals b =
     (bundle_plugin b)\<lparr>pg_mcp := (bu_mcp b)\<lparr>mg_servers := map (offer_bearer uc vals) (mg_servers (bu_mcp b))\<rparr>\<rparr>"

fun asks_of :: "(string \<Rightarrow> string) \<Rightarrow> (string \<Rightarrow> string) \<Rightarrow> string \<times> mcp_server \<Rightarrow> string list" where
  "asks_of lc uc (name, StreamableHttp url headers) =
     (if declares_no_auth headers then [name] else []) @
     List.map_filter id (header_placeholders lc uc headers)"
| "asks_of lc uc (name, StdioServer _ _ _ _) = []"
| "asks_of lc uc (name, SseServer _ _) = []"

text \<open>A set in order: the keys of a map.\<close>

definition connectors :: "(string \<Rightarrow> string) \<Rightarrow> (string \<Rightarrow> string) \<Rightarrow> plugin_bundle \<Rightarrow> string list" where
  "connectors lc uc b =
     map fst (foldl (\<lambda>names c. bm_insert c () names) [] (concat (map (asks_of lc uc) (mg_servers (bu_mcp b)))))"

definition needs_a_token :: "(string \<Rightarrow> string) \<Rightarrow> (string \<Rightarrow> string) \<Rightarrow> plugin_bundle \<Rightarrow> string \<Rightarrow> bool" where
  "needs_a_token lc uc b connector \<longleftrightarrow>
     list_ex (\<lambda>(_, server).
       case server of
         StreamableHttp url headers \<Rightarrow> Some connector \<in> set (header_placeholders lc uc headers)
       | _ \<Rightarrow> False) (mg_servers (bu_mcp b))"

section \<open>What a deployment vouches for\<close>

datatype install_policy = CuratedOnly | AllowOthers

record catalogue_entry =
  ce_name :: string
  ce_source :: string
  ce_version :: string
  ce_summary :: "string option"

record catalogue =
  cg_entries :: "(string, catalogue_entry) bmap"
  cg_policy :: install_policy

definition catalogue_new :: "install_policy \<Rightarrow> catalogue" where
  "catalogue_new policy = \<lparr>cg_entries = [], cg_policy = policy\<rparr>"

definition catalogue_with :: "catalogue_entry \<Rightarrow> catalogue \<Rightarrow> catalogue" where
  "catalogue_with e c = c\<lparr>cg_entries := bm_insert (ce_name e) e (cg_entries c)\<rparr>"

datatype install_error = NotCurated string | WrongVersion string string string

record admission =
  am_name :: string
  am_trust :: trust
  am_note :: string

definition catalogue_admit :: "catalogue \<Rightarrow> string \<Rightarrow> string \<Rightarrow> install_error + admission" where
  "catalogue_admit c name version =
     (case bm_get (cg_entries c) name of
        Some entry \<Rightarrow>
          if ce_version entry = version
          then Inr \<lparr>am_name = name, am_trust = TrustVerified,
                    am_note = name @ '' '' @ version @ '' is on this deployment'' @ [CHR 0x27] @ ''s reviewed list''\<rparr>
          else (case cg_policy c of
                  CuratedOnly \<Rightarrow> Inl (WrongVersion name (ce_version entry) version)
                | AllowOthers \<Rightarrow>
                    Inr \<lparr>am_name = name, am_trust = TrustUnverified,
                         am_note = name @ '' is reviewed at '' @ ce_version entry @ '', but you are installing '' @ version @
                           ''; its tools will ask before each use''\<rparr>)
      | None \<Rightarrow>
          (case cg_policy c of
             CuratedOnly \<Rightarrow> Inl (NotCurated name)
           | AllowOthers \<Rightarrow>
               Inr \<lparr>am_name = name, am_trust = TrustUnverified,
                    am_note = name @ '' has not been reviewed by anyone here; its tools will ask before each use''\<rparr>))"

end
