(* ===== verification/Plugins_Laws.thy ===== *)
theory Plugins_Laws
  imports Plugins Mcp_Laws
begin

text \<open>
  What is true of an installed bundle: the servers it brings, where its tools' names lead, that a
  bundle whose tokens are all there connects to everything it brings, and how a skill file is cut.
\<close>

section \<open>The servers of a bundle\<close>

definition hosted_server :: "(string \<Rightarrow> string) \<Rightarrow> (string \<Rightarrow> string) \<Rightarrow> string \<times> mcp_server \<Rightarrow> bool" where
  "hosted_server lc uc entry \<longleftrightarrow>
     (case entry of
        (name, StreamableHttp url headers) \<Rightarrow>
          is_valid_name name \<and> CHR ''.'' \<notin> set name \<and> public_https url \<and>
          None \<notin> set (header_placeholders lc uc headers)
      | _ \<Rightarrow> False)"

lemma unrefused_server:
  assumes "server_refusal lc uc name (Some s) raw = None"
  shows "hosted_server lc uc (name, s)"
  using assms by (cases s) (simp_all add: server_refusal_def hosted_refusal_def hosted_server_def
      split: if_splits option.splits)

lemma bundle_servers_hosted:
  "\<forall>e\<in>set servers. hosted_server lc uc e \<Longrightarrow>
   \<forall>e\<in>set (fst (bundle_servers lc uc rd ss (servers, parts))). hosted_server lc uc e"
proof (induction lc uc rd ss "(servers, parts)" arbitrary: servers parts rule: bundle_servers.induct)
  case (2 lc uc rd name server ss servers parts)
  let ?raw = "adapt_server server"
  let ?parsed = "pr_server rd ?raw"
  let ?reason = "server_refusal lc uc name ?parsed ?raw"
  let ?servers = "case (?reason, ?parsed) of (None, Some s) \<Rightarrow> bm_insert name s servers | _ \<Rightarrow> servers"
  have "\<forall>e\<in>set ?servers. hosted_server lc uc e"
  proof (cases "?reason")
    case None
    then show ?thesis
    proof (cases ?parsed)
      case (Some s)
      with None have "hosted_server lc uc (name, s)" by (simp add: unrefused_server)
      with None Some "2.prems" bm_insert_set [of name s servers] show ?thesis by auto
    qed (use "2.prems" in simp)
  qed (use "2.prems" in simp)
  with "2.hyps" [OF refl refl refl] show ?case by (simp add: Let_def)
qed simp

lemma bundle_servers_told:
  "snd (bundle_servers lc uc rd ss (servers, parts)) =
   parts @ map (\<lambda>(name, server). part_of ''mcp'' name
     (server_refusal lc uc name (pr_server rd (adapt_server server)) (adapt_server server))) ss"
  by (induction lc uc rd ss "(servers, parts)" arbitrary: servers parts rule: bundle_servers.induct)
    (simp_all add: Let_def)

lemma bundle_skills_taken:
  "\<forall>(skill, written)\<in>set skills. skill_refusal plugin skill written = None \<Longrightarrow>
   \<forall>(skill, written)\<in>set (fst (bundle_skills plugin fs (skills, parts))). skill_refusal plugin skill written = None"
proof (induction plugin fs "(skills, parts)" arbitrary: skills parts rule: bundle_skills.induct)
  case (2 plugin path written fs skills parts)
  show ?case
  proof (cases "skill_of_path path")
    case None
    with 2 show ?thesis by simp
  next
    case (Some name)
    let ?skills = "if skill_refusal plugin name written = None then bm_insert name written skills else skills"
    have "\<forall>(skill, written)\<in>set ?skills. skill_refusal plugin skill written = None"
      using "2.prems" bm_insert_set [of name written skills]
      by (cases "skill_refusal plugin name written = None") auto
    from "2.hyps"(2) [OF Some refl this] Some show ?thesis by (simp add: Let_def)
  qed
qed simp

lemma bundle_read:
  assumes "bundle_from_files lc uc rd files = Inr b"
  shows "is_valid_name (mf_name (bu_manifest b))" "CHR ''.'' \<notin> set (mf_name (bu_manifest b))"
    and "\<forall>e\<in>set (mg_servers (bu_mcp b)). hosted_server lc uc e"
    and "\<forall>(skill, written)\<in>set (bu_skills b). skill_refusal (mf_name (bu_manifest b)) skill written = None"
proof -
  from assms obtain raw manifest entries where
      named: "is_valid_name (mf_name manifest)" "CHR ''.'' \<notin> set (mf_name manifest)"
    and b: "(case bundle_servers lc uc rd entries ([], []) of
        (servers, parts) \<Rightarrow>
          (case bundle_skills (mf_name manifest) files ([], parts) of
             (skills, parts) \<Rightarrow>
               Inr \<lparr>bu_manifest = manifest, bu_mcp = no_servers\<lparr>mg_servers := servers\<rparr>, bu_skills = skills,
                 bu_files = filter (\<lambda>(path, _). starts_with ''skills/'' path \<and> \<not> ends_with ''/SKILL.md'' path) files,
                 bu_parts = parts @ unloaded_parts raw files\<rparr>)) = (Inr b :: string + plugin_bundle)"
    unfolding bundle_from_files_def by (auto simp: rbind_eq_Inr ensure_eq_Inr)
  obtain servers parts where servers: "bundle_servers lc uc rd entries ([], []) = (servers, parts)" by fastforce
  obtain skills parts' where skills: "bundle_skills (mf_name manifest) files ([], parts) = (skills, parts')" by fastforce
  show "is_valid_name (mf_name (bu_manifest b))" "CHR ''.'' \<notin> set (mf_name (bu_manifest b))"
    using named b by (auto simp: servers skills)
  show "\<forall>e\<in>set (mg_servers (bu_mcp b)). hosted_server lc uc e"
    using bundle_servers_hosted [of "[]" lc uc rd entries "[]"] b by (auto simp: servers skills no_servers_def)
  show "\<forall>(skill, written)\<in>set (bu_skills b). skill_refusal (mf_name (bu_manifest b)) skill written = None"
    using bundle_skills_taken [of "[]" "mf_name manifest" files parts] b by (auto simp: servers skills)
qed

section \<open>Where a tool's name leads\<close>

lemma split_once_dotless: "c \<notin> set a \<Longrightarrow> split_once c (a @ c # b) = Some (a, b)"
  by (simp add: split_once_Some)

lemma qualified_leads_back:
  assumes "CHR ''.'' \<notin> set (ep_plugin e)" "CHR ''.'' \<notin> set (ep_server e)" "ep_plugin e \<noteq> []" "ep_server e \<noteq> []" "tool \<noteq> []"
  shows "split_qualified (qualify e tool) = Some (ep_plugin e, ep_server e, tool)"
proof -
  have "qualify e tool = ep_plugin e @ CHR ''.'' # (ep_server e @ CHR ''.'' # tool)" by (simp add: qualify_def)
  then have "split_once (CHR ''.'') (qualify e tool) = Some (ep_plugin e, ep_server e @ CHR ''.'' # tool)"
    using split_once_dotless [OF assms(1)] by simp
  with assms show ?thesis by (simp add: split_qualified_def split_once_dotless)
qed

lemma valid_name_not_empty: "is_valid_name n \<Longrightarrow> n \<noteq> []"
  by (auto simp: is_valid_name_def Let_def)

section \<open>Where its servers are\<close>

definition url_host :: "string \<Rightarrow> string" where
  "url_host url = host_form (host_of_authority (takeWhile (\<lambda>c. \<not> closes_authority c) (drop (length ''https://'') url)))"

text \<open>A host that is no way into the deployment's own network, as far as its text says.\<close>

definition outside_host :: "string \<Rightarrow> bool" where
  "outside_host host \<longleftrightarrow>
     host \<noteq> [] \<and> host \<noteq> ''localhost'' \<and> \<not> ends_with ''.localhost'' host \<and>
     (is_numeric_host host \<longrightarrow> parse_ip host \<noteq> None) \<and>
     (\<forall>ip. parse_ip host = Some ip \<longrightarrow> outside_address ip)"

lemma public_https_outside: "public_https url \<Longrightarrow> starts_with ''https://'' url \<and> outside_host (url_host url)"
  by (auto simp: public_https_def public_host_def outside_host_def url_host_def strip_prefix_def Let_def is_public_ip_outside
      split: option.splits if_splits)


section \<open>A bundle with its tokens\<close>

text \<open>An opening is the first one, or after it.\<close>

lemma opening_after_first:
  assumes "v = x @ ''${'' @ y" "split_once_str ''${'' v = Some (a, b)" "b \<noteq> y"
  shows "\<exists>w. b = w @ ''${'' @ y"
proof -
  from split_once_str_first [of "''${''" x y] assms(1,2) have "suffix y b" by auto
  with assms(3) obtain z where z: "b = z @ y" "z \<noteq> []" by (auto simp: suffix_def)
  have "v = a @ ''${'' @ b" using assms(2) by (rule split_once_str_Some)
  with assms(1) z(1) have tail: "x @ ''${'' = a @ ''${'' @ z" by simp
  obtain z' c where snoc: "z = z' @ [c]" using z(2) by (cases z rule: rev_cases) simp_all
  with tail have "(x @ ''$'') @ ''{'' = (a @ ''${'' @ z') @ [c]" by simp
  then have "c = CHR ''{''" "x @ ''$'' = a @ ''${'' @ z'" by (simp_all only: append1_eq_conv)
  then have "\<exists>w. z = w @ ''${''" using snoc by (cases z' rule: rev_cases) auto
  then show ?thesis using z(1) by auto
qed

text \<open>\<open>split("${")\<close> cuts at every occurrence, since the piece cannot overlap itself.\<close>

lemma split_str_at:
  "v = x @ ''${'' @ y \<Longrightarrow> \<exists>ps. ps \<noteq> [] \<and> split_str ''${'' v = ps @ split_str ''${'' y"
proof (induction "length v" arbitrary: v x rule: less_induct)
  case less
  from split_once_str_first [of "''${''" x y] less.prems obtain a b where
      first: "split_once_str ''${'' v = Some (a, b)" by auto
  then have cut: "split_str ''${'' v = a # split_str ''${'' b" by (subst split_str.simps) simp
  show ?case
  proof (cases "b = y")
    case True
    with cut show ?thesis by (intro exI [of _ "[a]"]) simp
  next
    case False
    from opening_after_first [OF less.prems first this] obtain w where "b = w @ ''${'' @ y" ..
    moreover have "length b < length v" using split_once_str_Some [OF first] by simp
    ultimately obtain ps where "split_str ''${'' b = ps @ split_str ''${'' y" using less.hyps by blast
    with cut show ?thesis by (intro exI [of _ "a # ps"]) simp
  qed
qed

text \<open>Every placeholder of a value is closed, and has a value to fill it.\<close>

definition header_fillable :: "(string, string) bmap \<Rightarrow> string \<Rightarrow> bool" where
  "header_fillable vals v \<longleftrightarrow>
     (\<forall>x y. v = x @ ''${'' @ y \<longrightarrow> (\<exists>key after. split_once (CHR ''}'') y = Some (key, after) \<and> bm_get vals key \<noteq> None))"

definition plain_token :: "string \<Rightarrow> bool" where
  "plain_token v \<longleftrightarrow> v \<noteq> [] \<and> CHR ''$'' \<notin> set v \<and> CHR ''{'' \<notin> set v"

definition plain_tokens :: "(string, string) bmap \<Rightarrow> bool" where
  "plain_tokens vals \<longleftrightarrow> (\<forall>v\<in>snd ` set vals. plain_token v)"

text \<open>A plain token in a text makes no new opening: every one of the whole is in what is before or after.\<close>

lemma opening_in_parts:
  assumes "plain_token r" "a @ r @ b = x @ ''${'' @ y"
  shows "(\<exists>z. a = x @ ''${'' @ z) \<or> (\<exists>z. b = z @ ''${'' @ y)"
proof -
  have r: "r \<noteq> []" "CHR ''$'' \<notin> set r" "CHR ''{'' \<notin> set r" using assms(1) by (simp_all add: plain_token_def)
  consider (front) "length x + 2 \<le> length a" | (rear) "length (a @ r) \<le> length x"
    | (over) "length a \<le> length x + 1" "length x < length (a @ r)" by linarith
  then show ?thesis
  proof cases
    case front
    have "take (length x + 2) (a @ r @ b) = x @ ''${''" unfolding assms(2) by simp
    then have "take (length x + 2) a = x @ ''${''" using front by simp
    then have "a = x @ ''${'' @ drop (length x + 2) a" by (metis append.assoc append_take_drop_id)
    then show ?thesis by blast
  next
    case rear
    have "drop (length (a @ r)) (a @ r @ b) = drop (length (a @ r)) x @ ''${'' @ y"
      unfolding assms(2) using rear by simp
    then show ?thesis by simp
  next
    case over
    have here: "(a @ r @ b) ! length x = CHR ''$''" "(a @ r @ b) ! (length x + 1) = CHR ''{''"
      unfolding assms(2) by (simp_all add: nth_append)
    show ?thesis
    proof (cases "length a \<le> length x")
      case True
      then have "r ! (length x - length a) = CHR ''$''" "length x - length a < length r"
        using here(1) over(2) by (auto simp: nth_append split: if_splits)
      with r(2) show ?thesis by (metis nth_mem)
    next
      case False
      with over(1) have "length a = length x + 1" by simp
      then have "r ! 0 = CHR ''{''" using here(2) r(1) by (simp add: nth_append)
      with r(1,3) show ?thesis by (metis length_greater_0_conv nth_mem)
    qed
  qed
qed

text \<open>Filling the first placeholder: what is open after it was open behind the placeholder.\<close>

lemma opening_after_fill:
  assumes "plain_token token" "split_once_str ''${'' v = Some (before, rest)" "before @ token @ after = x @ ''${'' @ y"
  shows "\<exists>z. after = z @ ''${'' @ y"
proof -
  have "\<not> (\<exists>z. before = x @ ''${'' @ z)"
  proof
    assume "\<exists>z. before = x @ ''${'' @ z"
    then obtain z where "before = x @ ''${'' @ z" by blast
    with split_once_str_first [of "''${''" x "z @ ''${'' @ rest"] assms(2) split_once_str_Some [OF assms(2)]
    have "length rest < length rest" by (auto simp: suffix_def)
    then show False by simp
  qed
  with opening_in_parts [OF assms(1,3)] show ?thesis by blast
qed

lemma header_fill_step:
  assumes "split_once_str ''${'' v = Some (before, rest)" "split_once (CHR ''}'') rest = Some (key, after)"
    "bm_get vals key = Some token"
  shows "fill_template vals v = fill_template vals (before @ token @ after)"
    and "v = before @ CHR ''$'' # (''{'' @ key @ ''}'') @ after"
    and "plain_tokens vals \<Longrightarrow> plain_token token"
    and "plain_token token \<Longrightarrow> count_list (before @ token @ after) (CHR ''$'') < count_list v (CHR ''$'')"
proof -
  show "fill_template vals v = fill_template vals (before @ token @ after)"
    using assms by (subst fill_template.simps) simp
  show whole: "v = before @ CHR ''$'' # (''{'' @ key @ ''}'') @ after"
    using split_once_str_Some [OF assms(1)] assms(2) [unfolded split_once_Some] by simp
  show "plain_tokens vals \<Longrightarrow> plain_token token"
    using bm_get_member [OF assms(3)] by (auto simp: plain_tokens_def)
  show "plain_token token \<Longrightarrow> count_list (before @ token @ after) (CHR ''$'') < count_list v (CHR ''$'')"
    unfolding whole by (intro count_list_less) (simp add: plain_token_def)
qed

lemma fillable_fills:
  assumes "plain_tokens vals" "header_fillable vals v"
  shows "\<exists>w. fill_template vals v = Some (Inr w)"
  using assms(2)
proof (induction "count_list v (CHR ''$'')" arbitrary: v rule: less_induct)
  case less
  show ?case
  proof (cases "split_once_str ''${'' v")
    case None
    then show ?thesis by (subst fill_template.simps) simp
  next
    case (Some cut)
    obtain before rest where cut: "cut = (before, rest)" by (cases cut)
    have v: "v = before @ ''${'' @ rest" using Some cut split_once_str_Some by blast
    with less.prems obtain key after token where
        key: "split_once (CHR ''}'') rest = Some (key, after)" "bm_get vals key = Some token"
      unfolding header_fillable_def by blast
    note step = header_fill_step [OF Some [unfolded cut] key]
    have token: "plain_token token" using assms(1) by (rule step(3))
    have "header_fillable vals (before @ token @ after)"
      unfolding header_fillable_def
    proof (intro allI impI)
      fix x y assume "before @ token @ after = x @ ''${'' @ y"
      from opening_after_fill [OF token Some [unfolded cut] this] obtain z where
        "v = (before @ CHR ''$'' # (''{'' @ key @ ''}'') @ z) @ ''${'' @ y" using step(2) by auto
      with less.prems show "\<exists>key after. split_once (CHR ''}'') y = Some (key, after) \<and> bm_get vals key \<noteq> None"
        unfolding header_fillable_def by blast
    qed
    from less.hyps [OF step(4) [OF token] this] step(1) show ?thesis by simp
  qed
qed

text \<open>And only then, where no placeholder is inside another.\<close>

definition flat_keys :: "string \<Rightarrow> bool" where
  "flat_keys v \<longleftrightarrow>
     (\<forall>x y. v = x @ ''${'' @ y \<longrightarrow> (\<exists>key after. split_once (CHR ''}'') y = Some (key, after) \<and> CHR ''$'' \<notin> set key))"

lemma fills_fillable:
  assumes "plain_tokens vals" "flat_keys v" "fill_template vals v = Some (Inr w)"
  shows "header_fillable vals v"
  using assms(2,3)
proof (induction "count_list v (CHR ''$'')" arbitrary: v rule: less_induct)
  case less
  show ?case unfolding header_fillable_def
  proof (intro allI impI)
    fix x y assume open': "v = x @ ''${'' @ y"
    from split_once_str_first [of "''${''" x y] open' obtain before rest where
      first: "split_once_str ''${'' v = Some (before, rest)" by auto
    from less.prems(1) split_once_str_Some [OF first] obtain key after where
      key: "split_once (CHR ''}'') rest = Some (key, after)" "CHR ''$'' \<notin> set key" unfolding flat_keys_def by blast
    obtain token where token: "bm_get vals key = Some token"
      using less.prems(2) first key(1) by (subst (asm) fill_template.simps) (auto split: option.splits)
    note step = header_fill_step [OF first key(1) token]
    have plain: "plain_token token" using assms(1) by (rule step(3))
    have flat: "flat_keys (before @ token @ after)"
      unfolding flat_keys_def
    proof (intro allI impI)
      fix x y assume "before @ token @ after = x @ ''${'' @ y"
      from opening_after_fill [OF plain first this] obtain z where
        "v = (before @ CHR ''$'' # (''{'' @ key @ ''}'') @ z) @ ''${'' @ y" using step(2) by auto
      with less.prems(1) show "\<exists>key after. split_once (CHR ''}'') y = Some (key, after) \<and> CHR ''$'' \<notin> set key"
        unfolding flat_keys_def by blast
    qed
    have later: "header_fillable vals (before @ token @ after)"
      using less.hyps [OF step(4) [OF plain] flat] less.prems(2) step(1) by simp
    show "\<exists>key after. split_once (CHR ''}'') y = Some (key, after) \<and> bm_get vals key \<noteq> None"
    proof (cases "rest = y")
      case True
      with key token show ?thesis by auto
    next
      case False
      from opening_after_first [OF open' first False] obtain w where "rest = w @ ''${'' @ y" ..
      with key(1) [unfolded split_once_Some] have "key @ CHR ''}'' # after = w @ CHR ''$'' # CHR ''{'' # y" by simp
      with key(2) obtain z where "after = z @ ''${'' @ y"
        by (auto simp: append_eq_append_conv2 append_eq_Cons_conv Cons_eq_append_conv)
      then have "before @ token @ after = (before @ token @ z) @ ''${'' @ y" by simp
      with later show ?thesis unfolding header_fillable_def by blast
    qed
  qed
qed

lemma split_str_hd: "p \<noteq> [] \<Longrightarrow> \<exists>rest. s = hd (split_str p s) @ rest"
  by (subst split_str.simps) (auto split: option.splits dest: split_once_str_Some)

lemma placeholder_key:
  assumes "named_placeholder lc uc p = Some c"
  shows "\<exists>after. split_once (CHR ''}'') (p @ rest) = Some (token_key uc c, after)"
  using assms by (auto simp: named_placeholder_def split_once_Some Option.bind_eq_Some_conv split: if_splits)

lemma split_str_opens:
  "p \<in> set (tl (split_str ''${'' v)) \<Longrightarrow> \<exists>x y rest. v = x @ ''${'' @ y \<and> y = p @ rest"
proof (induction "length v" arbitrary: v rule: less_induct)
  case less
  show ?case
  proof (cases "split_once_str ''${'' v")
    case None
    then have "split_str ''${'' v = [v]" by (subst split_str.simps) simp
    with less.prems show ?thesis by simp
  next
    case (Some cut)
    obtain a b where cut: "cut = (a, b)" by (cases cut)
    have v: "v = a @ ''${'' @ b" using Some cut split_once_str_Some by blast
    have "split_str ''${'' v = a # split_str ''${'' b" using Some cut by (subst split_str.simps) simp
    with less.prems have "p \<in> set (split_str ''${'' b)" by simp
    then consider "p = hd (split_str ''${'' b)" | "p \<in> set (tl (split_str ''${'' b))"
      by (cases "split_str ''${'' b") auto
    then show ?thesis
    proof cases
      case 1
      with split_str_hd [of "''${''" b] v show ?thesis by auto
    next
      case 2
      have "length b < length v" using v by simp
      from less.hyps [OF this 2] obtain x y rest where "b = x @ ''${'' @ y" "y = p @ rest" by blast
      then have "v = (a @ ''${'' @ x) @ ''${'' @ y" using v by simp
      with \<open>y = p @ rest\<close> show ?thesis by blast
    qed
  qed
qed

text \<open>Where every placeholder keeps the convention, each opening is one of them, and each of them opens.\<close>

lemma conventional_opening:
  assumes "None \<notin> set (placeholders lc uc v)" "v = x @ ''${'' @ y"
  shows "\<exists>c after. Some c \<in> set (placeholders lc uc v) \<and> split_once (CHR ''}'') y = Some (token_key uc c, after)"
proof -
  from split_str_at [OF assms(2)] obtain ps where ps: "ps \<noteq> []" "split_str ''${'' v = ps @ split_str ''${'' y" by blast
  have "split_str ''${'' y \<noteq> []" by (subst split_str.simps) (simp split: option.split prod.split)
  then have "hd (split_str ''${'' y) \<in> set (tl (split_str ''${'' v))" using ps by (cases ps) auto
  then have "named_placeholder lc uc (hd (split_str ''${'' y)) \<in> set (placeholders lc uc v)" by (simp add: placeholders_def)
  with assms(1) obtain c where c: "named_placeholder lc uc (hd (split_str ''${'' y)) = Some c" "Some c \<in> set (placeholders lc uc v)"
    by (cases "named_placeholder lc uc (hd (split_str ''${'' y))") auto
  obtain rest where y: "y = hd (split_str ''${'' y) @ rest" using split_str_hd [of "''${''" y] by blast
  from placeholder_key [OF c(1), of rest] y c(2) show ?thesis by auto
qed

lemma opening_conventional:
  assumes "Some c \<in> set (placeholders lc uc v)"
  shows "\<exists>x y after. v = x @ ''${'' @ y \<and> split_once (CHR ''}'') y = Some (token_key uc c, after)"
proof -
  from assms obtain p where p: "p \<in> set (tl (split_str ''${'' v))" "named_placeholder lc uc p = Some c"
    by (auto simp: placeholders_def)
  from split_str_opens [OF p(1)] obtain x y rest where v: "v = x @ ''${'' @ y" "y = p @ rest" by blast
  with placeholder_key [OF p(2), of rest] show ?thesis by blast
qed

lemma conventional_fillable:
  assumes "None \<notin> set (placeholders lc uc v)"
  shows "header_fillable vals v \<longleftrightarrow> (\<forall>c. Some c \<in> set (placeholders lc uc v) \<longrightarrow> bm_get vals (token_key uc c) \<noteq> None)"
proof
  assume filled: "header_fillable vals v"
  show "\<forall>c. Some c \<in> set (placeholders lc uc v) \<longrightarrow> bm_get vals (token_key uc c) \<noteq> None"
  proof (intro allI impI)
    fix c assume "Some c \<in> set (placeholders lc uc v)"
    from opening_conventional [OF this] filled show "bm_get vals (token_key uc c) \<noteq> None"
      unfolding header_fillable_def by fastforce
  qed
next
  assume "\<forall>c. Some c \<in> set (placeholders lc uc v) \<longrightarrow> bm_get vals (token_key uc c) \<noteq> None"
  then have vals: "bm_get vals (token_key uc c) \<noteq> None" if "Some c \<in> set (placeholders lc uc v)" for c using that by blast
  show "header_fillable vals v" unfolding header_fillable_def
  proof (intro allI impI)
    fix x y assume "v = x @ ''${'' @ y"
    from conventional_opening [OF assms this] vals
    show "\<exists>key after. split_once (CHR ''}'') y = Some (key, after) \<and> bm_get vals key \<noteq> None" by blast
  qed
qed

text \<open>What is used of upper-casing: on a valid name it writes no dollar sign and no brace.\<close>

definition raises_names :: "(string \<Rightarrow> string) \<Rightarrow> bool" where
  "raises_names uc \<longleftrightarrow> (\<forall>n. is_valid_name n \<longrightarrow> set (uc n) \<inter> set ''${}'' = {})"

lemma token_key_plain:
  "raises_names uc \<Longrightarrow> is_valid_name c \<Longrightarrow> CHR ''$'' \<notin> set (token_key uc c) \<and> CHR ''}'' \<notin> set (token_key uc c)"
  by (auto simp: raises_names_def token_key_def TOKEN_SUFFIX_def)

lemma conventional_flat:
  assumes "raises_names uc" "None \<notin> set (placeholders lc uc v)"
  shows "flat_keys v"
  unfolding flat_keys_def
proof (intro allI impI)
  fix x y assume "v = x @ ''${'' @ y"
  from conventional_opening [OF assms(2) this] obtain c after where
    c: "Some c \<in> set (placeholders lc uc v)" "split_once (CHR ''}'') y = Some (token_key uc c, after)" by blast
  then have "is_valid_name c"
    by (auto simp: placeholders_def named_placeholder_def dest!: sym [where s = "Some c"] simp: Option.bind_eq_Some_conv split: if_splits)
  with token_key_plain [OF assms(1)] c(2)
  show "\<exists>key after. split_once (CHR ''}'') y = Some (key, after) \<and> CHR ''$'' \<notin> set key" by blast
qed

lemma bearer_opening:
  assumes "raises_names uc" "is_valid_name name" "''Bearer ${'' @ token_key uc name @ ''}'' = x @ ''${'' @ y"
  shows "split_once (CHR ''}'') y = Some (token_key uc name, [])"
proof -
  have key: "CHR ''$'' \<notin> set (token_key uc name)" "CHR ''}'' \<notin> set (token_key uc name)"
    using token_key_plain [OF assms(1,2)] by simp_all
  from assms(3) have "''Bearer '' @ CHR ''$'' # (''{'' @ token_key uc name @ ''}'') = x @ CHR ''$'' # (''{'' @ y)" by simp
  then have "''{'' @ token_key uc name @ ''}'' = ''{'' @ y"
    using key(1) by (subst (asm) append_Cons_eq_iff) simp_all
  then show ?thesis using key(2) by (auto simp: split_once_Some)
qed

text \<open>Headers fill whole exactly when each of them can be filled; otherwise something is told.\<close>

lemma fill_headers_whole:
  "plain_tokens vals \<Longrightarrow> \<forall>(name, v)\<in>set ds. flat_keys v \<Longrightarrow>
   \<exists>hs us. fill_headers ds vals filled unresolved = Some (hs, unresolved @ us) \<and>
     (us = [] \<longleftrightarrow> (\<forall>(name, v)\<in>set ds. header_fillable vals v))"
proof (induction ds arbitrary: filled unresolved)
  case (Cons d ds)
  obtain name v where d: "d = (name, v)" by (cases d)
  have "\<forall>u\<in>snd ` set vals. CHR ''$'' \<notin> set u" using Cons.prems(1) by (auto simp: plain_tokens_def plain_token_def)
  then obtain r where r: "fill_template vals v = Some r" using fill_template_ends by blast
  show ?case
  proof (cases r)
    case (Inl key)
    have "\<not> header_fillable vals v" using fillable_fills [OF Cons.prems(1), of v] r Inl by auto
    moreover obtain hs us where "fill_headers ds vals filled (unresolved @ [key]) = Some (hs, (unresolved @ [key]) @ us)"
      using Cons.IH [of filled "unresolved @ [key]"] Cons.prems by auto
    ultimately show ?thesis using d r Inl by auto
  next
    case (Inr w)
    have "header_fillable vals v" using fills_fillable [OF Cons.prems(1)] Cons.prems(2) d r Inr by auto
    moreover have "\<forall>(name, v)\<in>set ds. flat_keys v" using Cons.prems(2) by simp
    from Cons.IH [OF Cons.prems(1) this, of "bm_insert name w filled" unresolved] obtain hs us where
      "fill_headers ds vals (bm_insert name w filled) unresolved = Some (hs, unresolved @ us)"
      "us = [] \<longleftrightarrow> (\<forall>(name, v)\<in>set ds. header_fillable vals v)" by blast
    ultimately show ?thesis using d r Inr by auto
  qed
qed simp

text \<open>The tokens a server's headers ask for are there.\<close>

definition tokens_there ::
  "(string \<Rightarrow> string) \<Rightarrow> (string \<Rightarrow> string) \<Rightarrow> (string, string) bmap \<Rightarrow> string \<times> mcp_server \<Rightarrow> bool" where
  "tokens_there lc uc vals entry \<longleftrightarrow>
     list_all (\<lambda>p. case p of Some c \<Rightarrow> bm_get vals (token_key uc c) \<noteq> None | None \<Rightarrow> True)
       (header_placeholders lc uc (headers_of (snd entry)))"

fun server_url :: "mcp_server \<Rightarrow> string" where
  "server_url (StdioServer _ _ _ _) = []"
| "server_url (StreamableHttp url headers) = url"
| "server_url (SseServer url headers) = url"

lemma headers_fillable:
  assumes "None \<notin> set (header_placeholders lc uc headers)"
  shows "(\<forall>(k, v)\<in>set headers. header_fillable vals v) \<longleftrightarrow> tokens_there lc uc vals (name, StreamableHttp url headers)"
proof -
  have conv: "None \<notin> set (placeholders lc uc v)" if "(k, v) \<in> set headers" for k v
    using assms that by (force simp: header_placeholders_def)
  have "tokens_there lc uc vals (name, StreamableHttp url headers) \<longleftrightarrow>
      (\<forall>c. Some c \<in> set (header_placeholders lc uc headers) \<longrightarrow> bm_get vals (token_key uc c) \<noteq> None)"
    by (auto simp: tokens_there_def list_all_iff split: option.split)
  also have "\<dots> \<longleftrightarrow> (\<forall>(k, v)\<in>set headers. \<forall>c. Some c \<in> set (placeholders lc uc v) \<longrightarrow> bm_get vals (token_key uc c) \<noteq> None)"
    by (force simp: header_placeholders_def)
  also have "\<dots> \<longleftrightarrow> (\<forall>(k, v)\<in>set headers. header_fillable vals v)"
    using conventional_fillable [OF conv] by (intro ball_cong) auto
  finally show ?thesis by simp
qed

lemma hosted_connects:
  assumes "raises_names uc" "plain_tokens vals" "hosted_server lc uc (name, StreamableHttp url headers)"
  shows "\<exists>hs refused. endpoint_of plugin vals name (snd (offer_bearer uc vals (name, StreamableHttp url headers))) =
    Some (if tokens_there lc uc vals (name, StreamableHttp url headers)
          then Inr \<lparr>ep_plugin = plugin, ep_server = name, ep_url = url, ep_headers = hs\<rparr> else Inl refused)"
proof -
  have valid: "is_valid_name name" and conv: "None \<notin> set (header_placeholders lc uc headers)"
    using assms(3) by (simp_all add: hosted_server_def)
  have flat: "flat_keys v" if "(k, v) \<in> set headers" for k v
    using conv that by (intro conventional_flat [OF assms(1)]) (force simp: header_placeholders_def)
  let ?bearer = "''Bearer ${'' @ token_key uc name @ ''}''"
  have bearer: "flat_keys ?bearer" "bm_get vals (token_key uc name) \<noteq> None \<Longrightarrow> header_fillable vals ?bearer"
    unfolding flat_keys_def header_fillable_def using bearer_opening [OF assms(1) valid] token_key_plain [OF assms(1) valid] by blast+
  define offers where "offers \<longleftrightarrow> declares_no_auth headers \<and> bm_get vals (token_key uc name) \<noteq> None"
  define hs0 where "hs0 = (if offers then bm_insert ''Authorization'' ?bearer headers else headers)"
  have all_flat: "\<forall>(k, v)\<in>set hs0. flat_keys v"
    using flat bearer(1) bm_insert_set [of "''Authorization''" ?bearer headers] by (auto simp: hs0_def split: if_splits)
  have fills: "(\<forall>(k, v)\<in>set hs0. header_fillable vals v) \<longleftrightarrow> (\<forall>(k, v)\<in>set headers. header_fillable vals v)"
  proof (cases offers)
    case True
    then have "\<not> contains_str ''${'' v" if "(k, v) \<in> set headers" for k v
      using that by (auto simp: offers_def declares_no_auth_def list_ex_iff)
    then have own: "header_fillable vals v" if "(k, v) \<in> set headers" for k v
      using that unfolding contains_str_iff header_fillable_def by blast
    then have "header_fillable vals v" if "(k, v) \<in> set hs0" for k v
      using that True bearer(2) subsetD [OF bm_insert_set [of "''Authorization''" ?bearer headers]]
      unfolding hs0_def offers_def by auto
    with own show ?thesis by blast
  next
    case False
    then show ?thesis by (simp add: hs0_def)
  qed
  from fill_headers_whole [OF assms(2) all_flat, of "[]" "[]"] obtain hs us where
    filled: "fill_headers hs0 vals [] [] = Some (hs, us)" "us = [] \<longleftrightarrow> (\<forall>(k, v)\<in>set hs0. header_fillable vals v)"
    unfolding append_Nil by blast
  have "snd (offer_bearer uc vals (name, StreamableHttp url headers)) = StreamableHttp url hs0"
    unfolding offer_bearer_def hs0_def offers_def by (simp only: Let_def prod.case mcp_server.case if_distrib [of snd] snd_conv)
      (simp only: if_distrib [of "StreamableHttp url"])
  with filled fills headers_fillable [OF conv, of vals name url] show ?thesis
    by (auto simp: http_endpoint_def fill_placeholders_def)
qed

lemma connects_step:
  "offered = (name, server) \<Longrightarrow> endpoint_of plugin vals name server = Some r \<Longrightarrow>
   endpoints_for plugin ss vals = Some (es, ps) \<Longrightarrow>
   endpoints_for plugin (offered # ss) vals = Some (case r of Inr e \<Rightarrow> (e # es, ps) | Inl p \<Rightarrow> (es, p # ps))"
  by (cases r) simp_all

text \<open>Where an endpoint is.\<close>

definition endpoint_place :: "endpoint \<Rightarrow> string \<times> string \<times> string" where
  "endpoint_place e = (ep_plugin e, ep_server e, ep_url e)"

lemma hosted_endpoints:
  assumes "raises_names uc" "plain_tokens vals"
  shows "\<forall>s\<in>set ss. hosted_server lc uc s \<Longrightarrow>
    \<exists>es ps. endpoints_for plugin (map (offer_bearer uc vals) ss) vals = Some (es, ps) \<and>
      map endpoint_place es = map (\<lambda>(name, server). (plugin, name, server_url server)) (filter (tokens_there lc uc vals) ss) \<and>
      length ps = length (filter (\<lambda>s. \<not> tokens_there lc uc vals s) ss)"
proof (induction ss)
  case (Cons s ss)
  obtain name url headers where s: "s = (name, StreamableHttp url headers)"
    using Cons.prems by (cases s; cases "snd s") (auto simp: hosted_server_def)
  obtain es ps where rest: "endpoints_for plugin (map (offer_bearer uc vals) ss) vals = Some (es, ps)"
      "map endpoint_place es = map (\<lambda>(name, server). (plugin, name, server_url server)) (filter (tokens_there lc uc vals) ss)"
      "length ps = length (filter (\<lambda>s. \<not> tokens_there lc uc vals s) ss)"
    using Cons by auto
  have "hosted_server lc uc (name, StreamableHttp url headers)" using Cons.prems s by simp
  from hosted_connects [OF assms this, of plugin] obtain hs refused where
    "endpoint_of plugin vals name (snd (offer_bearer uc vals s)) =
      Some (if tokens_there lc uc vals s
            then Inr \<lparr>ep_plugin = plugin, ep_server = name, ep_url = url, ep_headers = hs\<rparr> else Inl refused)"
    unfolding s by blast
  moreover have "offer_bearer uc vals s = (name, snd (offer_bearer uc vals s))" by (simp add: s offer_bearer_def Let_def)
  ultimately have "endpoints_for plugin (map (offer_bearer uc vals) (s # ss)) vals =
      Some (if tokens_there lc uc vals s
            then (\<lparr>ep_plugin = plugin, ep_server = name, ep_url = url, ep_headers = hs\<rparr> # es, ps) else (es, refused # ps))"
    unfolding list.map using connects_step rest(1) by (cases "tokens_there lc uc vals s") fastforce+
  moreover have "endpoint_place \<lparr>ep_plugin = plugin, ep_server = name, ep_url = url, ep_headers = hs\<rparr> = (plugin, name, url)"
    by (simp add: endpoint_place_def)
  ultimately show ?case
    using rest(2,3) by (cases "tokens_there lc uc vals s") (simp_all add: s)
qed simp

lemma needs_its_tokens:
  assumes "\<forall>s\<in>set (mg_servers (bu_mcp b)). hosted_server lc uc s"
  shows "(\<forall>c. needs_a_token lc uc b c \<longrightarrow> bm_get vals (token_key uc c) \<noteq> None) \<longleftrightarrow>
    list_all (tokens_there lc uc vals) (mg_servers (bu_mcp b))"
proof -
  have "(\<exists>s\<in>set (mg_servers (bu_mcp b)). Some c \<in> set (header_placeholders lc uc (headers_of (snd s)))) \<longleftrightarrow>
      needs_a_token lc uc b c" for c
  proof
    assume "\<exists>s\<in>set (mg_servers (bu_mcp b)). Some c \<in> set (header_placeholders lc uc (headers_of (snd s)))"
    then obtain s where s: "s \<in> set (mg_servers (bu_mcp b))" "Some c \<in> set (header_placeholders lc uc (headers_of (snd s)))" ..
    with assms have "hosted_server lc uc s" by blast
    with s show "needs_a_token lc uc b c"
      unfolding needs_a_token_def list_ex_iff
      by (intro bexI [of _ s]) (auto simp: hosted_server_def split: mcp_server.splits prod.splits)
  next
    assume "needs_a_token lc uc b c"
    then obtain name url headers where "(name, StreamableHttp url headers) \<in> set (mg_servers (bu_mcp b))"
        "Some c \<in> set (header_placeholders lc uc headers)"
      by (auto simp: needs_a_token_def list_ex_iff split: mcp_server.splits)
    then show "\<exists>s\<in>set (mg_servers (bu_mcp b)). Some c \<in> set (header_placeholders lc uc (headers_of (snd s)))"
      by (intro bexI [of _ "(name, StreamableHttp url headers)"]) simp_all
  qed
  then show ?thesis
    by (auto simp: tokens_there_def list_all_iff split: option.splits) blast+
qed

end
