(* ===== verification/Plugin_Promises.thy ===== *)
theory Plugin_Promises
  imports Plugins_Laws
begin

text \<open>
  What an install stands on: the servers it may bring, which of them its tokens connect, how a skill
  file is cut, and what a folder's skills are beside a registry's.
\<close>

section \<open>A skill file, line by line\<close>

lemma concat_lines_inclusive [simp]: "concat (lines_inclusive s) = s"
  by (induction s rule: lines_inclusive.induct) (auto split: list.splits)

definition is_fence :: "string \<Rightarrow> bool" where
  "is_fence line \<longleftrightarrow> trim_end line = ''---''"

text \<open>What the last of the lines that say it says.\<close>

definition last_said :: "string \<Rightarrow> string list \<Rightarrow> string option" where
  "last_said key ls =
     (case rev (List.map_filter (strip_prefix key \<circ> trim_end) ls) of [] \<Rightarrow> None | v # _ \<Rightarrow> Some (unquote v))"

text \<open>
  A skill file read by its lines: after an opening that starts with a fence, the lines to the next
  fence are the front, and what follows that fence is the body.
\<close>

definition cut_skill :: "string \<Rightarrow> frontmatter" where
  "cut_skill t =
     (let ls = tl (lines_inclusive t);
          front = takeWhile (\<lambda>l. \<not> is_fence l) ls;
          behind = dropWhile (\<lambda>l. \<not> is_fence l) ls
      in if \<not> starts_with ''---'' t then \<lparr>fm_name = None, fm_description = None, fm_body = t, fm_closed = True\<rparr>
         else if behind = [] then \<lparr>fm_name = None, fm_description = None, fm_body = t, fm_closed = False\<rparr>
         else \<lparr>fm_name = non_empty (last_said ''name:'' front),
               fm_description = non_empty (last_said ''description:'' front),
               fm_body = trim_start (concat (tl behind)), fm_closed = True\<rparr>)"

definition said_by :: "string \<Rightarrow> string list \<Rightarrow> string option \<Rightarrow> string option" where
  "said_by key ls before = foldl (\<lambda>v l. said_in key (trim_end l) v) before ls"

lemma map_filter_snoc: "List.map_filter f (xs @ [x]) = List.map_filter f xs @ (case f x of Some y \<Rightarrow> [y] | None \<Rightarrow> [])"
  by (induction xs) (simp_all add: List.map_filter_simps split: option.split)

lemma said_by_last: "said_by key ls before = (case last_said key ls of Some v \<Rightarrow> Some v | None \<Rightarrow> before)"
proof (induction ls rule: rev_induct)
  case (snoc l ls)
  then show ?case
    by (simp add: said_by_def said_in_def last_said_def map_filter_snoc split: option.splits)
qed (simp add: said_by_def last_said_def List.map_filter_simps)

lemma scan_front_lines:
  "scan_front ls seen name description =
     (case dropWhile (\<lambda>l. \<not> is_fence l) ls of
        [] \<Rightarrow> None
      | fence # rest \<Rightarrow>
          (let front = takeWhile (\<lambda>l. \<not> is_fence l) ls
           in Some (said_by ''name:'' front name, said_by ''description:'' front description,
                    seen + length (concat front) + length fence)))"
proof (induction ls arbitrary: seen name description)
  case (Cons l ls)
  show ?case
  proof (cases "is_fence l")
    case True
    then show ?thesis by (simp add: Let_def is_fence_def said_by_def)
  next
    case False
    then show ?thesis
      by (cases "dropWhile (\<lambda>l. \<not> is_fence l) ls")
        (simp_all add: Let_def said_by_def Cons is_fence_def [symmetric] del: dropWhile_eq_Nil_conv)
  qed
qed simp

lemma drop_front: "dropWhile P ls = x # rest \<Longrightarrow> drop (length (concat (takeWhile P ls)) + length x) (concat ls) = concat rest"
proof -
  assume "dropWhile P ls = x # rest"
  then have "concat ls = concat (takeWhile P ls) @ x @ concat rest"
    by (metis concat.simps(2) concat_append takeWhile_dropWhile_id)
  then show ?thesis by simp
qed

text \<open>C29: the bytes counted to the closing fence are the lines to it. A skill file, less its byte
  order marks and leading space, is cut as it is read line by line: the first later line that is a
  fence closes the front, each key has what its last line says, the body is all that follows, and a
  file whose front is never closed is kept whole.
\<close>

theorem a_skill_is_cut_at_its_fence:
  "split_frontmatter written = cut_skill (trim_start (strip_all [BOM] written))"
proof -
  let ?t = "trim_start (strip_all [BOM] written)"
  show ?thesis
  proof (cases "lines_inclusive ?t")
    case Nil
    have "concat (lines_inclusive ?t) = ?t" by simp
    with Nil have "?t = []" by simp
    then show ?thesis by (simp add: split_frontmatter_def cut_skill_def starts_with_def)
  next
    case (Cons first ls)
    then have t: "?t = first @ concat ls" using concat_lines_inclusive [of ?t] by simp
    show ?thesis
    proof (cases "dropWhile (\<lambda>l. \<not> is_fence l) ls")
      case Nil
      then show ?thesis unfolding split_frontmatter_def cut_skill_def Let_def
        by (simp add: Cons scan_front_lines del: dropWhile_eq_Nil_conv)
    next
      case (Cons fence rest)
      from drop_front [OF this] have
        "drop (length first + length (concat (takeWhile (\<lambda>l. \<not> is_fence l) ls)) + length fence) ?t = concat rest"
        unfolding t by (simp add: add.assoc)
      then show ?thesis unfolding split_frontmatter_def cut_skill_def Let_def
        by (simp add: Cons \<open>lines_inclusive ?t = first # ls\<close> scan_front_lines said_by_last Let_def split: option.splits)
    qed
  qed
qed

section \<open>An install\<close>



section \<open>An example\<close>











end
