(* ===== verification/Spec2Isabelle.thy ===== *)
theory Spec2Isabelle
  imports Limits Inference Coworker Run Tool_Policy Schedule Monitor Org Connection Account Local_Exec
    Intent Front_Page Agent_Promises Workflow_Laws Mcp_Laws Desks Executor_Promises Plugin_Promises
begin

text \<open>
  A verification development of opengrok-server, the server behind a team of AI coworkers (Bots).
  A person talks to a Bot; each turn is a \<^emph>\<open>run\<close>, in which the agent loop asks a model, runs the tools the
  model calls on the Bot's own computer (a \<^emph>\<open>box\<close>), on the person's machine or at a plugin's server,
  asks a person where a gate says so, and writes what happened to an event log before it goes on.
  Schedules and monitors start runs on their own; organizations, accounts and connections say whose
  they are.

  \<^bold>\<open>Parts, and the theories that model them.\<close> Paths are under \<open>src/crates/\<close>; a definition has the
  name of the Rust item it translates, with a prefix where HOL or another part has the name already.

  \<^item> The aggregates of \<open>opengrok-core/src\<close>. Each is a state folded over a log of events, commands
    that return the events to append, and refusals as values. \<open>Event_Sourcing\<close> states that shape as
    locales, which every aggregate interprets: \<open>Run\<close> (\<open>run.rs\<close>), \<open>Coworker\<close> (\<open>coworker.rs\<close>),
    \<open>Schedule\<close> and \<open>Cron\<close> (\<open>schedule.rs\<close>), \<open>Monitor\<close> (\<open>monitor.rs\<close>), \<open>Org\<close> (\<open>org.rs\<close>),
    \<open>Account\<close> (\<open>account.rs\<close>), \<open>Connection\<close> (\<open>connection.rs\<close>). \<open>Limits\<close> (\<open>limits.rs\<close>) and
    \<open>Inference\<close> (\<open>inference.rs\<close>) are the values they carry; \<open>Ids\<close> and \<open>Vocabulary\<close> their ids and
    small enums.
  \<^item> Permission, \<open>opengrok-policy/src\<close>. \<open>Tool_Policy\<close> (\<open>lib.rs\<close>) is the ceiling, the grant and the
    decision; \<open>Shell\<close>, \<open>Shell_Deny\<close> and \<open>Glob\<close> (\<open>shell.rs\<close>) read a command line, for the allow
    side and the deny side; \<open>Local_Exec\<close> (\<open>local_exec.rs\<close>, \<open>egress.rs\<close>) is the gate of the channel
    to the person's own machine.
  \<^item> The agent loop, \<open>opengrok-harness/src\<close>. \<open>Model_Door\<close> (\<open>model.rs\<close>), \<open>Run_Budget\<close>
    (\<open>budget.rs\<close>), \<open>Context_Window\<close> (\<open>context.rs\<close>), \<open>Intent\<close> (\<open>intent.rs\<close>) and \<open>Projection\<close>
    (\<open>projection.rs\<close>) are what it uses; \<open>Harness_World\<close>, \<open>Loop_Calls\<close> and \<open>Agent_Loop\<close> the loop
    of \<open>lib.rs\<close> itself, its world a record of functions from everything done so far;
    \<open>Agent_Loop_Laws\<close> its invariant and \<open>Agent_Promises\<close> what it promises. \<open>Agui\<close> is the wire
    vocabulary (\<open>opengrok-wire/src/agui.rs\<close>).
  \<^item> Forms, \<open>opengrok-forms/src\<close>: \<open>Forms\<close> (\<open>user_form.rs\<close>), the card, what is kept of it, and the
    typing of its answers into a page; \<open>Front_Page\<close> (\<open>front_page.rs\<close>), whether that page is the one
    the person was asked about.
  \<^item> Recipes, \<open>opengrok-recipes/src\<close>: \<open>Recipe\<close> (\<open>lib.rs\<close>), from a taped session to steps the box
    plays, and its parameters; \<open>Observe\<close> (\<open>observe.rs\<close>), what the box saw meanwhile.
  \<^item> Tools, \<open>opengrok-tools/src\<close>: \<open>Tool_Call\<close> (\<open>lib.rs\<close>, \<open>credential.rs\<close>), calls, results and the
    scrub of secrets; \<open>Workflow\<close> and \<open>Workflow_Laws\<close> (\<open>workflow.rs\<close>), trees that call recipes, their
    lint and their walk; \<open>Review\<close> (\<open>review.rs\<close>, \<open>credential.rs\<close>), auto-review's ladder and what
    its judge is shown; \<open>Mcp\<close> and \<open>Mcp_Laws\<close> (\<open>mcp.rs\<close>), plugin tools and the sessions they are
    reached by; \<open>Desks\<close> (\<open>routine.rs\<close>, \<open>computer_desk.rs\<close>, \<open>plugin_desk.rs\<close>, \<open>office_desk.rs\<close>), the
    tools the server answers itself; \<open>Executor\<close> (\<open>lib.rs\<close>,
    \<open>executor.rs\<close>, \<open>executor/execute.rs\<close>), what runs one call, over any box, machine, judge,
    recipe source and desks, with \<open>Executor_Laws\<close> and what it promises in \<open>Executor_Promises\<close>.
  \<^item> Plugins, \<open>opengrok-plugins/src\<close>: \<open>Net_Address\<close> (\<open>bundle.rs\<close>, \<open>public_https\<close>), the hosts a bundle may
    name; \<open>Plugins\<close> (\<open>lib.rs\<close>, \<open>bundle.rs\<close>, \<open>catalogue.rs\<close>), bundles from a registry or a folder, skill
    files, connectors and the catalogue, with \<open>Plugins_Laws\<close>; and \<open>Plugin_Promises\<close>, what an install
    stands on.
  \<^item> \<open>Prelude\<close>, \<open>Text_Words\<close>, \<open>Text_Search\<close>, \<open>Json\<close> and \<open>BTree_Map\<close> are the part of the language
    and its library the sources use: results, text, JSON values and sorted maps, with the lemmas the
    components share.

  \<^bold>\<open>How they interact.\<close> A run is opened on the \<open>Run\<close> aggregate within \<open>Limits\<close>; \<open>Agent_Loop\<close> asks
  a model through \<open>Model_Door\<close> with a conversation \<open>Context_Window\<close> has fitted, projects the deltas
  with \<open>Projection\<close>, collects calls (\<open>Loop_Calls\<close>), and hands each to the tools. \<open>execute\<close> overwrites the
  call's identity, reads its arguments, asks the policy (or the machine's own gate), raises the cards,
  asks the reviewer, and only then dispatches to a desk, the box, the machine or a plugin's session. A call that
  waits for a person parks the run; the answer is a command of \<open>Run\<close>, and a resumed segment starts
  from what the log holds.

  \<^bold>\<open>Conventions.\<close> A text is the list of its UTF-8 bytes: \<open>len()\<close> is \<open>length\<close>, and what counts
  characters (\<open>chars_count\<close>, \<open>take_chars\<close>) skips continuation bytes. A fallible function returns
  \<open>error + value\<close>, and \<open>?\<close> is \<open>rbind\<close>. A panic, and a loop that never ends, is \<open>None\<close>. Integers
  are \<open>int\<close> or \<open>nat\<close> with the wrap-around or saturation written out where it matters, or words.
  Rust's \<open>BTreeMap\<close> is a sorted association list; a JSON object its members in order, with
  \<open>swap_remove\<close> for a removal, as under \<open>preserve_order\<close>. State behind a lock or an atomic is
  passed explicitly: one call at a time.

  \<^bold>\<open>Parameters.\<close> What is not in the repository is an argument: \<open>serde\<close> (reading and writing JSON
  text), the box, the clock, the model and the journal (\<open>world\<close>), the browser page (\<open>computer\<close>), the
  box and judge of a walk (\<open>walker\<close>), the standard hasher, the time-zone table (\<open>tz_known\<close>) and the
  cron library (\<open>cron_after\<close>), Unicode lower-casing (\<open>lc\<close>), and upper-casing (\<open>uc\<close>), the MCP client
  (\<open>dialler\<close>), the derived readers of a plugin's files (\<open>plugin_readers\<close>), and the desks the server
  implements as traits. The hypotheses on them are named: \<open>reads_shorter\<close> (a text
  inside a JSON text is shorter than it), \<open>answers_calls\<close> (running calls returns one result for
  each, under its id), \<open>lowers_ascii\<close> and \<open>lowers_numbers\<close> (lower-casing is the ASCII one on ASCII),
  \<open>raises_names\<close> (upper-casing a valid name writes no dollar sign and no brace), \<open>answering\<close> (a walk's
  world answers). Each property that has one has a witness in a concrete world.

  \<^bold>\<open>What is shown.\<close> For the aggregates: reachable states are well formed, refused commands change
  nothing, a run ends once, an answer is used once, replaying a log gives the state. For permission:
  the decision is the meet of its layers; what runs unasked on a machine is vouched for by rules
  that read every command the line could run; the two readings of a line agree with reference
  definitions. For the loop, over every world: it ends, it says so once and last, its model calls
  are bounded, nothing runs without its start on record, a recipe plays once. For forms: a password
  goes only into a password box on the page it was asked for, and is never kept or shown to the
  model. For recipes and workflows: what passes the lint runs, a walk is bounded, only allowed
  recipes play. For tools: the judge's view of a call does not depend on what is secret in it, the
  strictest word wins, a session is only used with the credential it was opened with.
  For the executor, whatever its services answer: every deed is the caller's own, identity arguments
  change nothing, nothing runs that policy, person and reviewer have not let through, a card has done
  nothing yet, every call is answered as itself, a judge that is down is left alone, and the network
  of the person is not used unasked.
  For plugins: an installed bundle's servers are hosted and public, its tools' names lead back to it,
  and exactly the servers whose tokens are there are connected; a skill file is cut at its fence.

  \<^bold>\<open>Bounds and fuel.\<close> The loop of a run is a function whose measure is its remaining rounds, and
  \<open>loop_bound_is_never_met\<close> shows the code's own bound is never what ends it. A form waits for focus
  \<open>focus_wait_ms / focus_poll_ms\<close> times, as the code does. The scrub goes as deep as a value's
  longest text, which is enough since a JSON text is longer than the texts in it. A walk's measure is
  its step budget. Filling a header is a partial function: \<open>headers_are_filled\<close> shows when it ends.
  The search for a free wire name counts to 2 to the 32, as the code does.

  \<^bold>\<open>Not modelled.\<close> The Postgres store (SQL decides what a query returns; the Rust binds parameters
  and rows), the HTTP routes (they load an aggregate, send it a command modelled here and write
  JSON), the model gateway and relay (clients of third-party wire formats), the boxes' Docker and
  browser protocols, integrations with third-party services, the OOXML engines, start-up and
  configuration, the web client, and concurrency between turns beyond the fencing the run aggregate
  does by generations.
\<close>

end
